(* ===== verification/Prelude.thy ===== *)
theory Prelude
  imports Main "HOL-Library.AList" "HOL-Library.Word" "HOL-Library.Char_ord"
    "HOL-Library.List_Lexorder" "HOL-Library.Sublist"
begin

text \<open>
  The vocabulary of Go that every component of the plugin uses, and the lemmas about it that
  the component proofs share.

  \<^item> \<open>int64\<close> and \<open>time.Duration\<close> are \<^typ>\<open>int\<close>, with the two's complement wrap-around
    written out by \<open>wrap64\<close> at every operation of the source that can overflow.
    \<open>uint64\<close> (hashes, cursors, generations) is \<open>64 word\<close>.
  \<^item> \<open>time.Time\<close> is \<^typ>\<open>int\<close>: the nanoseconds since 1 January of year 1, 00:00 UTC, so
    that the zero value of Go's type is \<open>0\<close>. \<open>UTC()\<close> is the identity on
    instants.
  \<^item> a \<open>string\<close> is a byte list. \<open>strings.ToLower\<close>, \<open>TrimSpace\<close>, \<open>Fields\<close> and
    \<open>EqualFold\<close> are modelled on the ASCII range: a byte from 128 on is neither a space
    nor a letter with case.
  \<^item> a Go \<open>map\<close> is an association list with distinct keys; the list order stands for the
    order in which a \<open>range\<close> loop happens to visit the map, which Go leaves open. A
    theorem about any list is a theorem about any visiting order.
  \<^item> \<open>error\<close> is the datatype \<open>go_error\<close>; a function that returns \<open>(T, error)\<close>
    returns \<open>go_error + T\<close>.
\<close>

named_theorems go_time \<open>the constants of Go's time package, unfolded\<close>
named_theorems go_str \<open>the string functions of Go, unfolded\<close>

section \<open>Machine integers\<close>

definition wrap64 :: "int \<Rightarrow> int" where
  "wrap64 x = (x + 2 ^ 63) mod 2 ^ 64 - 2 ^ 63"

definition maxInt64_const :: int where
  "maxInt64_const = 2 ^ 63 - 1"

definition minInt64_const :: int where
  "minInt64_const = - (2 ^ 63)"

definition is_int64 :: "int \<Rightarrow> bool" where
  "is_int64 x \<longleftrightarrow> minInt64_const \<le> x \<and> x \<le> maxInt64_const"

text \<open>Go's integer division truncates towards zero.\<close>

definition go_quo :: "int \<Rightarrow> int \<Rightarrow> int" where
  "go_quo a b = sgn a * sgn b * (\<bar>a\<bar> div \<bar>b\<bar>)"

definition go_rem :: "int \<Rightarrow> int \<Rightarrow> int" where
  "go_rem a b = a - b * go_quo a b"

lemma is_int64_wrap64 [simp]: "is_int64 (wrap64 x)"
proof -
  have "0 \<le> (x + 2 ^ 63) mod (2 ^ 64 :: int)" "(x + 2 ^ 63) mod (2 ^ 64 :: int) < 2 ^ 64"
    by simp_all
  then show ?thesis
    unfolding is_int64_def wrap64_def minInt64_const_def maxInt64_const_def by simp
qed

lemma wrap64_id: "is_int64 x \<Longrightarrow> wrap64 x = x"
  by (simp add: is_int64_def wrap64_def minInt64_const_def maxInt64_const_def)

lemma is_int64I: "- (2 ^ 63) \<le> x \<Longrightarrow> x < 2 ^ 63 \<Longrightarrow> is_int64 x"
  by (simp add: is_int64_def minInt64_const_def maxInt64_const_def)

lemma is_int64_nonneg: "0 \<le> x \<Longrightarrow> x \<le> y \<Longrightarrow> is_int64 y \<Longrightarrow> is_int64 x"
  by (simp add: is_int64_def minInt64_const_def)

lemma go_quo_nonneg: "0 \<le> a \<Longrightarrow> 0 < b \<Longrightarrow> go_quo a b = a div b"
  by (cases "a = 0") (auto simp: go_quo_def)

lemma go_rem_nonneg: "0 \<le> a \<Longrightarrow> 0 < b \<Longrightarrow> go_rem a b = a mod b"
  by (simp add: go_rem_def go_quo_nonneg minus_mult_div_eq_mod)

section \<open>Time\<close>

type_synonym gotime = int
type_synonym duration = int

abbreviation (input) IsZero :: "gotime \<Rightarrow> bool" where
  "IsZero t \<equiv> t = 0"

abbreviation (input) After :: "gotime \<Rightarrow> gotime \<Rightarrow> bool" where
  "After t u \<equiv> u < t"

abbreviation (input) Before :: "gotime \<Rightarrow> gotime \<Rightarrow> bool" where
  "Before t u \<equiv> t < u"

definition Second :: duration where [go_time]: "Second = 1000000000"
definition Millisecond :: duration where [go_time]: "Millisecond = 1000000"
definition Minute :: duration where [go_time]: "Minute = 60 * Second"
definition Hour :: duration where [go_time]: "Hour = 60 * Minute"
definition Day :: duration where [go_time]: "Day = 24 * Hour"

text \<open>\<open>Time.Sub\<close> saturates at the ends of the \<open>int64\<close> range.\<close>

definition time_Sub :: "gotime \<Rightarrow> gotime \<Rightarrow> duration" where
  "time_Sub t u = max minInt64_const (min maxInt64_const (t - u))"

lemma time_Sub_le_iff: "is_int64 d \<Longrightarrow> d < maxInt64_const \<Longrightarrow> time_Sub t u \<le> d \<longleftrightarrow> t - u \<le> d"
  by (auto simp: time_Sub_def is_int64_def)

lemma time_Sub_ge_iff: "minInt64_const < d \<Longrightarrow> d \<le> maxInt64_const \<Longrightarrow> d \<le> time_Sub t u \<longleftrightarrow> d \<le> t - u"
  by (auto simp: time_Sub_def)

lemma time_Sub_exact: "is_int64 (t - u) \<Longrightarrow> time_Sub t u = t - u"
  by (simp add: time_Sub_def is_int64_def)

text \<open>The Unix epoch lies 719162 days after 1 January of year 1.\<close>

definition unixEpoch :: gotime where [go_time]: "unixEpoch = 719162 * Day"

definition time_Unix :: "int \<Rightarrow> gotime" where
  "time_Unix s = unixEpoch + s * Second"

definition time_UnixMilli :: "int \<Rightarrow> gotime" where
  "time_UnixMilli ms = unixEpoch + ms * Millisecond"

text \<open>1 January of year 1 is a Monday; \<open>Weekday\<close> counts from Sunday.\<close>

definition time_Weekday :: "gotime \<Rightarrow> int" where
  "time_Weekday t = (t div Day + 1) mod 7"

definition time_Hour :: "gotime \<Rightarrow> int" where
  "time_Hour t = (t div Hour) mod 24"

text \<open>
  \<open>Year\<close>: days are split into 400-year cycles of 146097 days, centuries of 36524, four-year
  groups of 1461 and years of 365; the last century of a cycle and the last year of a group
  are one day longer, hence the two \<open>min\<close>.
\<close>

definition time_Year :: "gotime \<Rightarrow> int" where
  "time_Year t =
     (let d = t div Day;
          n400 = d div 146097; d400 = d mod 146097;
          n100 = min 3 (d400 div 36524); d100 = d400 - n100 * 36524;
          n4 = d100 div 1461; d4 = d100 mod 1461;
          n1 = min 3 (d4 div 365)
      in 400 * n400 + 100 * n100 + 4 * n4 + n1 + 1)"

text \<open>The calendar year never decreases; the blocks of the definition are monotone one by one.\<close>

lemma block_mono:
  fixes f :: "int \<Rightarrow> int"
  assumes "0 < m" "d \<le> e" and range: "\<And>x. 0 \<le> x \<Longrightarrow> x < m \<Longrightarrow> 0 \<le> f x \<and> f x \<le> k"
    and mono: "\<And>x y. 0 \<le> x \<Longrightarrow> x \<le> y \<Longrightarrow> y < m \<Longrightarrow> f x \<le> f y"
  shows "k * (d div m) + d div m + f (d mod m) \<le> k * (e div m) + e div m + f (e mod m)"
proof (cases "d div m = e div m")
  case True
  then have "d mod m \<le> e mod m"
    using assms(2) mult_div_mod_eq [of m d] mult_div_mod_eq [of m e] by (metis add_le_cancel_left)
  with True show ?thesis using mono [of "d mod m" "e mod m"] assms(1) by simp
next
  case False
  have "d div m \<le> e div m" using assms(1,2) by (simp add: zdiv_mono1)
  with False have "d div m + 1 \<le> e div m" by simp
  moreover have "0 \<le> k" using range [of 0] assms(1) by simp
  ultimately have "(k + 1) * (d div m + 1) \<le> (k + 1) * (e div m)" by (intro mult_left_mono) auto
  moreover have "f (d mod m) \<le> k" "0 \<le> f (e mod m)" using range assms(1) by simp_all
  ultimately show ?thesis by (simp add: algebra_simps)
qed

definition yearOfFour :: "int \<Rightarrow> int" where "yearOfFour d = min 3 (d div 365)"
definition yearOfCentury :: "int \<Rightarrow> int" where "yearOfCentury d = 4 * (d div 1461) + yearOfFour (d mod 1461)"
definition yearOfCycle :: "int \<Rightarrow> int" where
  "yearOfCycle d = 100 * min 3 (d div 36524) + yearOfCentury (d - min 3 (d div 36524) * 36524)"

lemma time_Year_blocks: "time_Year t = 400 * (t div Day div 146097) + yearOfCycle (t div Day mod 146097) + 1"
  by (simp add: time_Year_def yearOfCycle_def yearOfCentury_def yearOfFour_def Let_def)

lemma yearOfFour_mono: "0 \<le> x \<Longrightarrow> x \<le> y \<Longrightarrow> yearOfFour x \<le> yearOfFour y"
  using zdiv_mono1 [of x y 365] by (simp add: yearOfFour_def min.coboundedI2)

lemma yearOfFour_range: "0 \<le> x \<Longrightarrow> 0 \<le> yearOfFour x \<and> yearOfFour x \<le> 3"
  by (simp add: yearOfFour_def)

lemma yearOfCentury_mono: "x \<le> y \<Longrightarrow> yearOfCentury x \<le> yearOfCentury y"
  using block_mono [of 1461 x y yearOfFour 3] yearOfFour_mono yearOfFour_range by (simp add: yearOfCentury_def)

lemma yearOfCentury_range:
  assumes "0 \<le> x" "x \<le> 36524"
  shows "0 \<le> yearOfCentury x \<and> yearOfCentury x \<le> 99"
proof -
  have "yearOfCentury 0 = 0" "yearOfCentury 36524 = 99" by code_simp+
  then show ?thesis using yearOfCentury_mono [of 0 x] yearOfCentury_mono [of x 36524] assms by simp
qed

lemma century_days:
  fixes x :: int
  assumes "0 \<le> x" "x < 146097"
  shows "0 \<le> x - min 3 (x div 36524) * 36524 \<and> x - min 3 (x div 36524) * 36524 \<le> 36524"
proof -
  define k where "k = x div 36524"
  define r where "r = x mod 36524"
  have q: "36524 * k + r = x" unfolding k_def r_def by (rule mult_div_mod_eq)
  have r: "0 \<le> r" "r < 36524" unfolding r_def by (rule pos_mod_sign, simp, rule pos_mod_bound, simp)
  show ?thesis unfolding k_def [symmetric] using q r assms unfolding min_def by (cases "k \<le> 3"; simp; linarith)
qed

lemma yearOfCycle_mono: 
  assumes "0 \<le> x" "x \<le> y" "y < 146097"
  shows "yearOfCycle x \<le> yearOfCycle y"
proof -
  have n: "min 3 (x div 36524) \<le> min 3 (y div 36524)" using zdiv_mono1 [OF assms(2), of 36524] by simp
  have r: "0 \<le> yearOfCentury (z - min 3 (z div 36524) * 36524) \<and> yearOfCentury (z - min 3 (z div 36524) * 36524) \<le> 99"
    if "0 \<le> z" "z < 146097" for z using century_days [OF that] yearOfCentury_range by simp
  show ?thesis
  proof (cases "min 3 (x div 36524) = min 3 (y div 36524)")
    case True
    then show ?thesis using assms(2) yearOfCentury_mono by (simp add: yearOfCycle_def)
  next
    case False
    with n have "min 3 (x div 36524) + 1 \<le> min 3 (y div 36524)" by linarith
    then show ?thesis using r [of x] r [of y] assms unfolding yearOfCycle_def by linarith
  qed
qed

lemma yearOfCycle_range:
  assumes "0 \<le> x" "x < 146097"
  shows "0 \<le> yearOfCycle x \<and> yearOfCycle x \<le> 399"
proof -
  have "yearOfCycle 0 = 0" "yearOfCycle 146096 = 399" by code_simp+
  then show ?thesis using yearOfCycle_mono [of 0 x] yearOfCycle_mono [of x 146096] assms by simp
qed

lemma time_Year_mono: "t \<le> u \<Longrightarrow> time_Year t \<le> time_Year u"
proof -
  assume "t \<le> u"
  then have "t div Day \<le> u div Day" by (simp add: zdiv_mono1 go_time)
  then show ?thesis using block_mono [of 146097 "t div Day" "u div Day" yearOfCycle 399]
      yearOfCycle_mono yearOfCycle_range by (simp add: time_Year_blocks)
qed

text \<open>The first instants of the years 2000 and 10000.\<close>

definition year2000 :: gotime where "year2000 = 730119 * Day"
definition year10000 :: gotime where "year10000 = 3652059 * Day"

lemma year_bounds:
  "year2000 \<le> t \<Longrightarrow> 2000 \<le> time_Year t"
  "t < year10000 \<Longrightarrow> time_Year t \<le> 9999"
  "time_Year t \<le> 2200 \<Longrightarrow> t < year10000"
proof -
  have "time_Year year2000 = 2000" "time_Year (year10000 - 1) = 9999" "time_Year year10000 = 10000" by code_simp+
  then show "year2000 \<le> t \<Longrightarrow> 2000 \<le> time_Year t" "t < year10000 \<Longrightarrow> time_Year t \<le> 9999"
    "time_Year t \<le> 2200 \<Longrightarrow> t < year10000"
    using time_Year_mono [of year2000 t] time_Year_mono [of t "year10000 - 1"] time_Year_mono [of year10000 t]
    by (auto simp: not_less [symmetric])
qed

section \<open>Strings\<close>

definition is_space :: "char \<Rightarrow> bool" where
  "is_space c \<longleftrightarrow> c \<in> {CHR '' '', CHR 0x09, CHR 0x0A, CHR 0x0B, CHR 0x0C, CHR 0x0D}"

definition TrimSpace :: "string \<Rightarrow> string" where
  "TrimSpace s = rev (dropWhile is_space (rev (dropWhile is_space s)))"

definition lower_char :: "char \<Rightarrow> char" where
  "lower_char c = (let n = of_char c :: nat in if 65 \<le> n \<and> n \<le> 90 then char_of (n + 32) else c)"

definition upper_char :: "char \<Rightarrow> char" where
  "upper_char c = (let n = of_char c :: nat in if 97 \<le> n \<and> n \<le> 122 then char_of (n - 32) else c)"

definition ToLower :: "string \<Rightarrow> string" where
  "ToLower s = map lower_char s"

definition ToUpper :: "string \<Rightarrow> string" where
  "ToUpper s = map upper_char s"

definition EqualFold :: "string \<Rightarrow> string \<Rightarrow> bool" where
  "EqualFold a b \<longleftrightarrow> ToLower a = ToLower b"

definition HasPrefix :: "string \<Rightarrow> string \<Rightarrow> bool" where
  "HasPrefix s p \<longleftrightarrow> prefix p s"

definition HasSuffix :: "string \<Rightarrow> string \<Rightarrow> bool" where
  "HasSuffix s p \<longleftrightarrow> suffix p s"

definition Contains :: "string \<Rightarrow> string \<Rightarrow> bool" where
  "Contains s p \<longleftrightarrow> (\<exists>t \<in> set (suffixes s). prefix p t)"

definition TrimSuffix :: "string \<Rightarrow> string \<Rightarrow> string" where
  "TrimSuffix s p = (if suffix p s then take (length s - length p) s else s)"

fun Join :: "string list \<Rightarrow> string \<Rightarrow> string" where
  "Join [] sep = []"
| "Join [x] sep = x"
| "Join (x # y # xs) sep = x @ sep @ Join (y # xs) sep"

function Fields :: "string \<Rightarrow> string list" where
  "Fields s = (case dropWhile is_space s of
       [] \<Rightarrow> []
     | c # cs \<Rightarrow> (c # takeWhile (\<lambda>d. \<not> is_space d) cs) # Fields (dropWhile (\<lambda>d. \<not> is_space d) cs))"
  by pat_completeness auto
termination
proof (relation "measure length", simp, simp)
  fix s :: string and c cs
  assume "dropWhile is_space s = c # cs"
  then have "length (c # cs) \<le> length s" by (metis length_dropWhile_le)
  moreover have "length (dropWhile (\<lambda>d. \<not> is_space d) cs) \<le> length cs" by (rule length_dropWhile_le)
  ultimately show "length (dropWhile (\<lambda>d. \<not> is_space d) cs) < length s" by simp
qed

declare Fields.simps [simp del]

text \<open>\<open>strings.ReplaceAll\<close> of a pattern that is not empty.\<close>

function ReplaceAll :: "string \<Rightarrow> string \<Rightarrow> string \<Rightarrow> string" where
  "ReplaceAll s pat new =
     (if s = [] \<or> pat = [] then s
      else if HasPrefix s pat then new @ ReplaceAll (drop (length pat) s) pat new
      else hd s # ReplaceAll (tl s) pat new)"
  by pat_completeness auto
termination
  by (relation "measure (\<lambda>(s, pat, new). length s)") (auto simp: HasPrefix_def)

declare ReplaceAll.simps [simp del]

text \<open>\<open>boundedText\<close> of \<^verbatim>\<open>runtime.go\<close>: white space collapsed, then a hard byte limit.\<close>

definition boundedText :: "string \<Rightarrow> nat \<Rightarrow> string" where
  "boundedText message limit =
     (let clean = Join (Fields message) '' ''
      in if length clean > limit then take limit clean else clean)"

lemma length_boundedText: "length (boundedText m limit) \<le> limit"
  by (simp add: boundedText_def Let_def)

lemma lower_char_idem [simp]: "lower_char (lower_char c) = lower_char c"
proof -
  have "(of_char c + 32) mod 256 = (of_char c + 32 :: nat)" if "of_char c \<le> (90 :: nat)"
    using that by simp
  then show ?thesis by (auto simp: lower_char_def Let_def)
qed

lemma ToLower_idem [simp]: "ToLower (ToLower s) = ToLower s"
  by (simp add: ToLower_def)

lemma TrimSpace_Nil [simp]: "TrimSpace [] = []"
  by (simp add: TrimSpace_def)

lemma dropWhile_idem_hd: "dropWhile P xs = xs \<longleftrightarrow> xs = [] \<or> \<not> P (hd xs)"
proof (cases xs)
  case (Cons a ys)
  have "length (dropWhile P ys) \<le> length ys" by (rule length_dropWhile_le)
  then have "dropWhile P ys \<noteq> a # ys" by auto
  with Cons show ?thesis by auto
qed simp

lemma TrimSpace_idem [simp]: "TrimSpace (TrimSpace s) = TrimSpace s"
proof -
  define u where "u = dropWhile is_space s"
  define v where "v = dropWhile is_space (rev u)"
  have v: "TrimSpace s = rev v" by (simp add: TrimSpace_def u_def v_def)
  have vlast: "v = [] \<or> \<not> is_space (hd v)"
    unfolding v_def using hd_dropWhile by blast
  have "dropWhile is_space (rev v) = rev v"
  proof (cases "v = []")
    case False
    have suf: "suffix v (rev u)" unfolding v_def by (rule suffix_dropWhile)
    then obtain w where "rev u = w @ v" by (auto simp: suffix_def)
    then have "u = rev v @ rev w" by (metis rev_append rev_rev_ident)
    then have "hd (rev v) = hd u" using False by simp
    moreover have "u \<noteq> []" using False \<open>u = rev v @ rev w\<close> by simp
    then have "\<not> is_space (hd u)" unfolding u_def by (metis hd_dropWhile)
    ultimately show ?thesis by (simp add: dropWhile_idem_hd)
  qed simp
  moreover have "dropWhile is_space v = v" using vlast by (simp add: dropWhile_idem_hd)
  ultimately show ?thesis unfolding v by (simp add: TrimSpace_def)
qed

lemma Fields_nonblank:
  assumes "TrimSpace m \<noteq> []"
  shows "\<exists>c cs fs. Fields m = (c # cs) # fs \<and> \<not> is_space c"
proof -
  have "dropWhile is_space m \<noteq> []"
  proof
    assume "dropWhile is_space m = []"
    then show False using assms unfolding TrimSpace_def by (metis dropWhile.simps(1) rev.simps(1))
  qed
  then obtain c cs where d: "dropWhile is_space m = c # cs" by (cases "dropWhile is_space m") auto
  then have "\<not> is_space c" using hd_dropWhile [of is_space m] by simp
  with d show ?thesis by (simp add: Fields.simps [of m])
qed

lemma TrimSpace_hd: "\<not> is_space c \<Longrightarrow> TrimSpace (c # cs) \<noteq> []"
  by (auto simp: TrimSpace_def)

lemma boundedText_nonblank:
  assumes "TrimSpace m \<noteq> []" "0 < n"
  shows "TrimSpace (boundedText m n) \<noteq> []"
proof -
  obtain c cs fs where f: "Fields m = (c # cs) # fs" "\<not> is_space c" using Fields_nonblank [OF assms(1)] by blast
  then obtain ds where j: "Join (Fields m) '' '' = c # ds" by (cases fs) auto
  from assms(2) obtain k where "n = Suc k" by (cases n) auto
  then obtain es where "boundedText m n = c # es" 
    using j by (cases "length (c # ds) > n") (auto simp: boundedText_def Let_def)
  then show ?thesis using f(2) TrimSpace_hd by simp
qed
section \<open>Decimal numbers\<close>

definition is_digit :: "char \<Rightarrow> bool" where
  "is_digit c \<longleftrightarrow> (let n = of_char c :: nat in 48 \<le> n \<and> n \<le> 57)"

definition digit_val :: "char \<Rightarrow> int" where
  "digit_val c = of_char c - 48"

definition digits_val :: "string \<Rightarrow> int" where
  "digits_val s = foldl (\<lambda>acc c. acc * 10 + digit_val c) 0 s"

text \<open>\<open>strconv.ParseInt(s, 10, 64)\<close>: an optional sign, at least one digit, no overflow.\<close>

definition ParseInt :: "string \<Rightarrow> int option" where
  "ParseInt s =
     (let neg = (case s of [] \<Rightarrow> False | c # _ \<Rightarrow> c = CHR ''-'');
          ds = (case s of [] \<Rightarrow> [] | c # cs \<Rightarrow> if c = CHR ''-'' \<or> c = CHR ''+'' then cs else s);
          v = (if neg then - digits_val ds else digits_val ds)
      in if ds \<noteq> [] \<and> list_all is_digit ds \<and> is_int64 v then Some v else None)"

fun nat_digits :: "nat \<Rightarrow> string" where
  "nat_digits n = (if n < 10 then [char_of (48 + n)] else nat_digits (n div 10) @ [char_of (48 + n mod 10)])"

declare nat_digits.simps [simp del]

definition Itoa :: "int \<Rightarrow> string" where
  "Itoa i = (if i < 0 then CHR ''-'' # nat_digits (nat (- i)) else nat_digits (nat i))"

lemma nat_digits_set: "set (nat_digits n) \<subseteq> {c. is_digit c}"
proof (induction n rule: nat_digits.induct)
  case (1 n)
  have d: "is_digit (char_of (48 + k))" if "k < 10" for k :: nat using that by (simp add: is_digit_def)
  show ?case using 1 d [of n] d [of "n mod 10"] by (subst nat_digits.simps) auto
qed

lemma nat_digits_nonempty: "nat_digits n \<noteq> []"
  by (subst nat_digits.simps) simp

lemma digits_val_nat_digits: "digits_val (nat_digits n) = int n"
proof (induction n rule: nat_digits.induct)
  case (1 n)
  have d: "digit_val (char_of (48 + k)) = int k" if "k < 10" for k :: nat
  proof -
    have "(of_char (char_of (48 + k)) :: int) = int (of_char (char_of (48 + k)))" by (simp only: of_nat_of_char)
    then show ?thesis using that by (simp only: digit_val_def of_char_of) simp
  qed
  show ?case using 1 d [of n] d [of "n mod 10"] by (subst nat_digits.simps) (auto simp: digits_val_def, presburger)
qed

lemma ParseInt_Itoa: "0 \<le> i \<Longrightarrow> is_int64 i \<Longrightarrow> ParseInt (Itoa i) = Some i"
proof -
  assume i: "0 \<le> i" "is_int64 i"
  have n: "nat_digits (nat i) \<noteq> []" by (rule nat_digits_nonempty)
  then have "is_digit (hd (nat_digits (nat i)))" using nat_digits_set [of "nat i"] hd_in_set by blast
  moreover have "\<not> is_digit (CHR ''-'')" "\<not> is_digit (CHR ''+'')" by code_simp+
  ultimately show ?thesis using i n nat_digits_set [of "nat i"] digits_val_nat_digits [of "nat i"]
    by (cases "nat_digits (nat i)") (auto simp: ParseInt_def Itoa_def list_all_iff)
qed

lemma ParseInt_is_int64: "ParseInt s = Some v \<Longrightarrow> is_int64 v"
  by (auto simp: ParseInt_def Let_def split: if_splits)

section \<open>Go maps\<close>

type_synonym ('k, 'v) gomap = "('k \<times> 'v) list"

abbreviation mget :: "('k, 'v) gomap \<Rightarrow> 'k \<Rightarrow> 'v option" where
  "mget m k \<equiv> map_of m k"

abbreviation mput :: "'k \<Rightarrow> 'v \<Rightarrow> ('k, 'v) gomap \<Rightarrow> ('k, 'v) gomap" where
  "mput k v m \<equiv> AList.update k v m"

abbreviation mdel :: "'k \<Rightarrow> ('k, 'v) gomap \<Rightarrow> ('k, 'v) gomap" where
  "mdel k m \<equiv> AList.delete k m"

text \<open>Reading a missing key of a Go map gives the zero value of the element type.\<close>

definition mget_or :: "'v \<Rightarrow> ('k, 'v) gomap \<Rightarrow> 'k \<Rightarrow> 'v" where
  "mget_or z m k = (case mget m k of None \<Rightarrow> z | Some v \<Rightarrow> v)"

definition map_wf :: "('k, 'v) gomap \<Rightarrow> bool" where
  "map_wf m \<longleftrightarrow> distinct (map fst m)"

definition mkeys :: "('k, 'v) gomap \<Rightarrow> 'k list" where
  "mkeys m = map fst m"

lemma mget_mput [simp]: "mget (mput k v m) j = (if j = k then Some v else mget m j)"
  by (simp add: update_conv')

lemma mget_mdel [simp]: "mget (mdel k m) j = (if j = k then None else mget m j)"
  by (simp add: delete_conv')

lemma mget_or_mput [simp]: "mget_or z (mput k v m) j = (if j = k then v else mget_or z m j)"
  by (simp add: mget_or_def)

lemma map_wf_mput [simp, intro]: "map_wf m \<Longrightarrow> map_wf (mput k v m)"
  by (simp add: map_wf_def distinct_update)

lemma map_wf_mdel [simp, intro]: "map_wf m \<Longrightarrow> map_wf (mdel k m)"
  by (simp add: map_wf_def distinct_delete)

lemma map_wf_Nil [simp, intro]: "map_wf []"
  by (simp add: map_wf_def)

lemma set_mkeys [simp]: "set (mkeys m) = dom (map_of m)"
  by (simp add: mkeys_def dom_map_of_conv_image_fst)

lemma set_mput: "set (mput k v m) \<subseteq> insert (k, v) (set m)"
  by (induction m) auto

lemma all_mput: "\<forall>x \<in> set m. P x \<Longrightarrow> P (k, v) \<Longrightarrow> \<forall>x \<in> set (mput k v m). P x"
  using set_mput [of k v m] by blast

section \<open>Errors\<close>

datatype write_outcome = WriteNotCommitted | WriteCommitted | WriteNeedsRecovery

text \<open>
  \<open>Msg\<close> is an error made by \<open>fmt.Errorf\<close>; \<open>Wire\<close> is the coded error of
  \<^verbatim>\<open>providermodule.WireError\<close> (code, message, retryable, HTTP status); \<open>Canceled\<close> and
  \<open>DeadlineExceeded\<close> are the two errors of the \<open>context\<close> package; \<open>WriteErr\<close> and
  \<open>PendingErr\<close> are the typed errors of \<^verbatim>\<open>securestore\<close> and of the settings protocol;
  \<open>Wrapped\<close> is \<open>fmt.Errorf\<close> with \<open>%w\<close>.
\<close>

datatype go_error =
    Msg string
  | Wire string string bool int
  | Canceled
  | DeadlineExceeded
  | WriteErr write_outcome string
  | PendingErr go_error
  | Wrapped string go_error

type_synonym 'a result = "go_error + 'a"

fun error_text :: "go_error \<Rightarrow> string" where
  "error_text (Msg m) = m"
| "error_text (Wire c m r s) = c @ '': '' @ m"
| "error_text Canceled = ''context canceled''"
| "error_text DeadlineExceeded = ''context deadline exceeded''"
| "error_text (WriteErr w m) = m"
| "error_text (PendingErr e) = error_text e"
| "error_text (Wrapped p e) = p @ '': '' @ error_text e"

text \<open>The \<open>if err != nil { return err }\<close> of Go.\<close>

definition bindR :: "'a result \<Rightarrow> ('a \<Rightarrow> 'b result) \<Rightarrow> 'b result" where
  "bindR r f = (case r of Inl e \<Rightarrow> Inl e | Inr x \<Rightarrow> f x)"

definition guardR :: "bool \<Rightarrow> string \<Rightarrow> unit result" where
  "guardR ok m = (if ok then Inr () else Inl (Msg m))"

lemma bindR_simps [simp]: "bindR (Inl e) f = Inl e" "bindR (Inr x) f = f x"
  by (simp_all add: bindR_def)

lemma bindR_Inr_iff: "bindR r f = Inr y \<longleftrightarrow> (\<exists>x. r = Inr x \<and> f x = Inr y)"
  by (cases r) auto

lemma guardR_Inr_iff [simp]: "guardR b m = Inr u \<longleftrightarrow> b"
  by (simp add: guardR_def)

lemmas result_iffs = bindR_Inr_iff guardR_Inr_iff

end
