(* ===== verification/ZaiTypes.thy ===== *)
theory ZaiTypes
  imports Prelude
begin

text \<open>
  The data of the Z.ai provider module (\<^verbatim>\<open>internal/providers/zai\<close>): quota windows and
  snapshots, the estimator ledger, accounts and configuration, and the records of the plugin
  SDK as far as the module reads them. Field names carry a short prefix for the struct they
  belong to.

  \<open>golib\<close> collects the parsers and hashes of the Go standard library that the module calls
  and whose results it only inspects: URL parsing, the two date formats, JSON decoding and the
  two hashes. Definitions that need one take the record as an argument, so every theorem holds
  for any behaviour of these functions, or names what it relies on.
\<close>

section \<open>Quota windows and snapshots\<close>

record quotaWindow =
  qw_ConsumedMicrocredits :: int
  qw_BucketMicrocredits :: int
  qw_ResetsAt :: gotime

record quotaSnapshot =
  sn_Plan :: string
  sn_FiveHour :: quotaWindow
  sn_FiveHourError :: string
  sn_Weekly :: quotaWindow
  sn_ObservedAt :: gotime

definition zero_quotaWindow :: quotaWindow where
  "zero_quotaWindow = \<lparr>qw_ConsumedMicrocredits = 0, qw_BucketMicrocredits = 0, qw_ResetsAt = 0\<rparr>"

record creditEvent =
  ce_At :: gotime
  ce_Microcredits :: int
  ce_Model :: string

record accountQuotaState =
  st_Authoritative :: "quotaSnapshot option"
  st_LastPollAttempt :: gotime
  st_LastPollError :: string
  st_ConsecutiveFailures :: int
  st_Events :: "creditEvent list"
  st_DedupHashes :: "string list"
  st_CompleteSince :: gotime
  st_DeliveryWarning :: bool
  st_PersistenceWarning :: bool
  st_UnknownModelWarning :: bool
  st_DedupCollisionWarn :: bool
  st_LastSourceTransition :: string
  st_LastDivergence :: string

definition zero_accountQuotaState :: accountQuotaState where
  "zero_accountQuotaState =
     \<lparr>st_Authoritative = None, st_LastPollAttempt = 0, st_LastPollError = [],
      st_ConsecutiveFailures = 0, st_Events = [], st_DedupHashes = [], st_CompleteSince = 0,
      st_DeliveryWarning = False, st_PersistenceWarning = False, st_UnknownModelWarning = False,
      st_DedupCollisionWarn = False, st_LastSourceTransition = [], st_LastDivergence = []\<rparr>"

record accountQuotaView =
  vw_Source :: string
  vw_FiveHour :: quotaWindow
  vw_FiveHourError :: string
  vw_Weekly :: quotaWindow
  vw_ObservedAt :: gotime
  vw_Stale :: bool
  vw_Warning :: string
  vw_CompleteSince :: gotime
  vw_DeliveryWarning :: bool
  vw_PersistenceWarning :: bool
  vw_UnknownModelWarning :: bool
  vw_DedupCollisionWarn :: bool

section \<open>Accounts and configuration\<close>

record creditBuckets =
  cb_FiveHour :: int
  cb_Weekly :: int

definition planBuckets :: "(string, creditBuckets) gomap" where
  "planBuckets =
     [(''lite'', \<lparr>cb_FiveHour = 2000, cb_Weekly = 10000\<rparr>),
      (''pro'', \<lparr>cb_FiveHour = 12000, cb_Weekly = 60000\<rparr>),
      (''max'', \<lparr>cb_FiveHour = 28000, cb_Weekly = 140000\<rparr>)]"

record accountOverride =
  ovr_KeySuffix :: string
  ovr_Name :: string
  ovr_Plan :: string
  ovr_Disabled :: bool
  ovr_FiveHourCredits :: int
  ovr_WeeklyCredits :: int

record pluginConfig =
  cfg_CPAConfigPath :: string
  cfg_QuotaRefresh :: duration
  cfg_AuthoritativeMaxAge :: duration
  cfg_QuotaTimeout :: duration
  cfg_ThresholdPercent :: int
  cfg_SuspendDuration :: duration
  cfg_FallbackCooldown :: duration
  cfg_StateRetention :: duration
  cfg_DefaultPlan :: string
  cfg_Accounts :: "accountOverride list"

record account =
  acc_Identity :: string
  acc_Name :: string
  acc_KeySuffix :: string
  acc_Plan :: string
  acc_Disabled :: bool
  acc_FiveHourCredits :: int
  acc_WeeklyCredits :: int
  acc_ClaudeAuthID :: string
  acc_OpenAIAuthID :: string
  acc_claudeAuthIDs :: "string list"
  acc_key :: string
  acc_planExplicit :: bool
  acc_fiveHourCreditsExplicit :: bool
  acc_weeklyCreditsExplicit :: bool

definition zero_account :: account where
  "zero_account =
     \<lparr>acc_Identity = [], acc_Name = [], acc_KeySuffix = [], acc_Plan = [], acc_Disabled = False,
      acc_FiveHourCredits = 0, acc_WeeklyCredits = 0, acc_ClaudeAuthID = [], acc_OpenAIAuthID = [],
      acc_claudeAuthIDs = [], acc_key = [], acc_planExplicit = False,
      acc_fiveHourCreditsExplicit = False, acc_weeklyCreditsExplicit = False\<rparr>"

section \<open>Records of the plugin SDK\<close>

record usageDetail =
  ud_InputTokens :: int
  ud_OutputTokens :: int
  ud_ReasoningTokens :: int
  ud_CachedTokens :: int
  ud_CacheReadTokens :: int
  ud_CacheCreationTokens :: int
  ud_TotalTokens :: int

record usageRecord =
  ur_AuthID :: string
  ur_Provider :: string
  ur_Model :: string
  ur_Alias :: string
  ur_RequestedAt :: gotime
  ur_Latency :: duration
  ur_Failed :: bool
  ur_StatusCode :: int
  ur_Body :: string
  ur_ResponseHeaders :: "(string, string list) gomap"
  ur_Detail :: usageDetail

record candidate =
  ca_ID :: string
  ca_Provider :: string
  ca_Attributes :: "(string, string) gomap"

record pickRequest =
  pr_Provider :: string
  pr_Providers :: "string list"
  pr_Model :: string
  pr_Headers :: "(string, string list) gomap"
  pr_Candidates :: "candidate list"

record pickResponse =
  resp_Handled :: bool
  resp_AuthID :: string
  resp_DelegateBuiltin :: string

definition zero_pickResponse :: pickResponse where
  "zero_pickResponse = \<lparr>resp_Handled = False, resp_AuthID = [], resp_DelegateBuiltin = []\<rparr>"

section \<open>What the module uses of the Go standard library\<close>

text \<open>A JSON document decoded into \<open>any\<close> with \<open>UseNumber\<close>.\<close>

datatype goany =
    AnyNil
  | AnyBool bool
  | AnyNumber string
  | AnyString string
  | AnySlice "goany list"
  | AnyMap "(string \<times> goany) list"

text \<open>\<open>url_Rest\<close> stands for the fields of \<open>url.URL\<close> the module does not read.\<close>

record goURL =
  url_Scheme :: string
  url_HasUser :: bool
  url_Host :: string
  url_Path :: string
  url_RawPath :: string
  url_RawQuery :: string
  url_Fragment :: string
  url_Rest :: string

text \<open>
  The decoders return \<open>None\<close> when \<open>Decode\<close> fails or more input follows the value
  (\<open>EnsureJSONEOF\<close>). \<open>lib_decodeErrorCode\<close> is the decoding of a failure body into the
  struct \<open>{Error {Code any}}\<close>, and its value the \<open>Code\<close> found there.
\<close>

record golib =
  lib_urlParse :: "string \<Rightarrow> goURL option"
  lib_urlString :: "goURL \<Rightarrow> string"
  lib_urlHostname :: "goURL \<Rightarrow> string"
  lib_parseRFC3339 :: "string \<Rightarrow> gotime option"
  lib_httpParseTime :: "string \<Rightarrow> gotime option"
  lib_decodeAny :: "string \<Rightarrow> goany option"
  lib_decodeErrorCode :: "string \<Rightarrow> goany option"
  lib_sha256hex :: "string \<Rightarrow> string"
  lib_hmacSHA256hex :: "string \<Rightarrow> string \<Rightarrow> string"

end
