(* ===== verification/Windows.thy ===== *)
theory Windows
  imports ZaiTypes "HOL-Library.Multiset"
begin

text \<open>
  The fallback estimator, \<^verbatim>\<open>internal/providers/zai/windows.go\<close>: the chronological ledger of
  credit events, its compaction, the bounded replay filter, the rolling windows with their
  predicted reset, and the view that chooses between the authoritative snapshot and the
  estimate.
\<close>

section \<open>Definitions\<close>

definition fiveHourWindow :: duration where [go_time]: "fiveHourWindow = 5 * Hour"
definition weeklyWindow :: duration where [go_time]: "weeklyWindow = 7 * Day"
definition maxDedupHashes :: nat where "maxDedupHashes = 4096"
definition creditScale :: int where "creditScale = 1000000"

definition boundedStatus :: "string \<Rightarrow> string" where
  "boundedStatus message = boundedText message 240"

text \<open>The loop of \<open>addEvent\<close> walks back from the end while the event there is later.\<close>

fun insertIndex :: "creditEvent list \<Rightarrow> gotime \<Rightarrow> nat \<Rightarrow> nat" where
  "insertIndex es t 0 = 0"
| "insertIndex es t (Suc i) = (if After (ce_At (es ! i)) t then insertIndex es t i else Suc i)"

definition addEvent :: "accountQuotaState \<Rightarrow> creditEvent \<Rightarrow> accountQuotaState" where
  "addEvent state event =
     (if ce_Microcredits event \<le> 0 then state
      else let es = st_Events state; index = insertIndex es (ce_At event) (length es)
           in state\<lparr>st_Events := take index es @ event # drop index es\<rparr>)"

text \<open>\<open>sort.Search\<close>: the binary search of the Go library, on the half-open range \<open>[i, j)\<close>.\<close>

function sortSearch :: "nat \<Rightarrow> nat \<Rightarrow> (nat \<Rightarrow> bool) \<Rightarrow> nat" where
  "sortSearch i j f =
     (if i < j then
        let h = (i + j) div 2
        in if \<not> f h then sortSearch (h + 1) j f else sortSearch i h f
      else i)"
  by pat_completeness auto
termination
  by (relation "measure (\<lambda>(i, j, f). j - i)") auto

declare sortSearch.simps [simp del]

definition compact :: "accountQuotaState \<Rightarrow> gotime \<Rightarrow> duration \<Rightarrow> accountQuotaState" where
  "compact state now retention =
     (let cutoff = now - retention;
          es = st_Events state;
          first = sortSearch 0 (length es) (\<lambda>index. After (ce_At (es ! index)) cutoff);
          s1 = (if first > 0 then state\<lparr>st_Events := drop first es\<rparr> else state);
          hs = st_DedupHashes s1
      in if length hs > maxDedupHashes
         then s1\<lparr>st_DedupHashes := drop (length hs - maxDedupHashes) hs\<rparr> else s1)"

definition seenDedup :: "accountQuotaState \<Rightarrow> string \<Rightarrow> bool \<times> accountQuotaState" where
  "seenDedup state hash =
     (if hash \<in> set (st_DedupHashes state) then (True, state\<lparr>st_DedupCollisionWarn := True\<rparr>)
      else let hs = st_DedupHashes state @ [hash]
           in (False, state\<lparr>st_DedupHashes :=
                 (if length hs > maxDedupHashes then drop (length hs - maxDedupHashes) hs else hs)\<rparr>))"

definition saturatingAdd :: "int \<Rightarrow> int \<Rightarrow> int" where
  "saturatingAdd left right =
     (if right > 0 \<and> left > wrap64 (maxInt64_const - right) then maxInt64_const
      else wrap64 (left + right))"

definition atOrAboveThreshold :: "int \<Rightarrow> int \<Rightarrow> int \<Rightarrow> bool" where
  "atOrAboveThreshold consumed bucket thresholdPercent =
     (if bucket \<le> 0 then True
      else let t1 = wrap64 (go_quo bucket 100 * thresholdPercent);
               threshold = wrap64 (t1 + go_quo (wrap64 (go_rem bucket 100 * thresholdPercent)) 100)
           in consumed \<ge> threshold)"

text \<open>The second loop of \<open>estimatedWindow\<close>: expire active events until usage is below the threshold.\<close>

fun resetWalk :: "creditEvent list \<Rightarrow> int \<Rightarrow> duration \<Rightarrow> int \<Rightarrow> int \<Rightarrow> gotime" where
  "resetWalk [] remaining dur bucket pct = 0"
| "resetWalk (e # es) remaining dur bucket pct =
     (let remaining' = wrap64 (remaining - ce_Microcredits e)
      in if \<not> atOrAboveThreshold remaining' bucket pct then ce_At e + dur
         else resetWalk es remaining' dur bucket pct)"

definition activeEvents :: "creditEvent list \<Rightarrow> gotime \<Rightarrow> duration \<Rightarrow> creditEvent list" where
  "activeEvents events now dur =
     filter (\<lambda>e. After (ce_At e) (now - dur) \<and> \<not> After (ce_At e) now) events"

definition consumedOf :: "creditEvent list \<Rightarrow> int" where
  "consumedOf active = foldl (\<lambda>c e. saturatingAdd c (ce_Microcredits e)) 0 active"

definition estimatedWindow :: "creditEvent list \<Rightarrow> gotime \<Rightarrow> duration \<Rightarrow> int \<Rightarrow> int \<Rightarrow> quotaWindow" where
  "estimatedWindow events now dur bucket thresholdPercent =
     (let active = activeEvents events now dur;
          consumed = consumedOf active;
          window = \<lparr>qw_ConsumedMicrocredits = consumed, qw_BucketMicrocredits = bucket, qw_ResetsAt = 0\<rparr>
      in if \<not> atOrAboveThreshold consumed bucket thresholdPercent then window
         else window\<lparr>qw_ResetsAt := resetWalk active consumed dur bucket thresholdPercent\<rparr>)"

definition freshAuthoritative :: "accountQuotaState \<Rightarrow> gotime \<Rightarrow> pluginConfig \<Rightarrow> bool" where
  "freshAuthoritative state now cfg =
     (case st_Authoritative state of
        None \<Rightarrow> False
      | Some a \<Rightarrow> \<not> After (sn_ObservedAt a) now \<and> time_Sub now (sn_ObservedAt a) \<le> cfg_AuthoritativeMaxAge cfg)"

definition estimatedView :: "accountQuotaState \<Rightarrow> gotime \<Rightarrow> account \<Rightarrow> pluginConfig \<Rightarrow> accountQuotaView" where
  "estimatedView state now item cfg =
     \<lparr>vw_Source = ''estimated'',
      vw_FiveHour = estimatedWindow (st_Events state) now fiveHourWindow
        (wrap64 (acc_FiveHourCredits item * creditScale)) (cfg_ThresholdPercent cfg),
      vw_FiveHourError = [],
      vw_Weekly = estimatedWindow (st_Events state) now weeklyWindow
        (wrap64 (acc_WeeklyCredits item * creditScale)) (cfg_ThresholdPercent cfg),
      vw_ObservedAt = st_LastPollAttempt state,
      vw_Stale = (st_Authoritative state \<noteq> None),
      vw_Warning = boundedStatus (st_LastPollError state),
      vw_CompleteSince = st_CompleteSince state,
      vw_DeliveryWarning = True,
      vw_PersistenceWarning = st_PersistenceWarning state,
      vw_UnknownModelWarning = st_UnknownModelWarning state,
      vw_DedupCollisionWarn = st_DedupCollisionWarn state\<rparr>"

definition authoritativeView :: "accountQuotaState \<Rightarrow> quotaSnapshot \<Rightarrow> gotime \<Rightarrow> account \<Rightarrow> pluginConfig \<Rightarrow> accountQuotaView" where
  "authoritativeView state a now item cfg =
     \<lparr>vw_Source = ''authoritative'',
      vw_FiveHour = (if sn_FiveHourError a \<noteq> []
        then estimatedWindow (st_Events state) now fiveHourWindow
               (wrap64 (acc_FiveHourCredits item * creditScale)) (cfg_ThresholdPercent cfg)
        else sn_FiveHour a),
      vw_FiveHourError = (if sn_FiveHourError a \<noteq> [] then boundedStatus (sn_FiveHourError a) else []),
      vw_Weekly = sn_Weekly a,
      vw_ObservedAt = sn_ObservedAt a,
      vw_Stale = False,
      vw_Warning = boundedStatus (st_LastPollError state),
      vw_CompleteSince = st_CompleteSince state,
      vw_DeliveryWarning = st_DeliveryWarning state,
      vw_PersistenceWarning = st_PersistenceWarning state,
      vw_UnknownModelWarning = st_UnknownModelWarning state,
      vw_DedupCollisionWarn = st_DedupCollisionWarn state\<rparr>"

definition view :: "accountQuotaState \<Rightarrow> gotime \<Rightarrow> account \<Rightarrow> pluginConfig \<Rightarrow> accountQuotaView" where
  "view state now item cfg =
     (case st_Authoritative state of
        Some a \<Rightarrow> if freshAuthoritative state now cfg then authoritativeView state a now item cfg
                  else estimatedView state now item cfg
      | None \<Rightarrow> estimatedView state now item cfg)"

section \<open>The ledger: insertion and compaction\<close>

definition chronological :: "creditEvent list \<Rightarrow> bool" where
  "chronological es \<longleftrightarrow> sorted (map ce_At es)"

lemma insertIndex_le: "insertIndex es t n \<le> n"
  by (induction n) (auto intro: le_SucI)

lemma insertIndex_later: "insertIndex es t n \<le> k \<Longrightarrow> k < n \<Longrightarrow> t < ce_At (es ! k)"
  by (induction n) (auto split: if_splits simp: less_Suc_eq)

lemma insertIndex_earlier: "insertIndex es t n = Suc i \<Longrightarrow> ce_At (es ! i) \<le> t"
  by (induction n) (auto split: if_splits)

lemma chronological_nth: "chronological es \<Longrightarrow> i \<le> j \<Longrightarrow> j < length es \<Longrightarrow> ce_At (es ! i) \<le> ce_At (es ! j)"
  by (auto simp: chronological_def dest: sorted_nth_mono)

lemma chronological_append:
  "chronological (xs @ ys) \<longleftrightarrow> chronological xs \<and> chronological ys \<and>
     (\<forall>x \<in> set xs. \<forall>y \<in> set ys. ce_At x \<le> ce_At y)"
  by (simp add: chronological_def sorted_append)

lemma chronological_Cons:
  "chronological (x # ys) \<longleftrightarrow> chronological ys \<and> (\<forall>y \<in> set ys. ce_At x \<le> ce_At y)"
  by (auto simp: chronological_def)

lemma chronological_drop [intro]: "chronological es \<Longrightarrow> chronological (drop n es)"
  by (simp add: chronological_def drop_map [symmetric] sorted_wrt_drop)

lemma chronological_filter [intro]: "chronological es \<Longrightarrow> chronological (filter P es)"
  by (simp add: chronological_def sorted_filter)

lemma addEvent_events:
  "st_Events (addEvent s e) =
     (if ce_Microcredits e \<le> 0 then st_Events s
      else let i = insertIndex (st_Events s) (ce_At e) (length (st_Events s))
           in take i (st_Events s) @ e # drop i (st_Events s))"
  by (simp add: addEvent_def Let_def)

lemma addEvent_mset:
  "0 < ce_Microcredits e \<Longrightarrow> mset (st_Events (addEvent s e)) = add_mset e (mset (st_Events s))"
  by (simp add: addEvent_events Let_def) (metis append_take_drop_id mset_append)

lemma set_addEvent: "set (st_Events (addEvent s e)) \<subseteq> insert e (set (st_Events s))"
  by (auto simp: addEvent_events Let_def dest: in_set_takeD in_set_dropD)

lemma addEvent_chronological:
  assumes "chronological (st_Events s)"
  shows "chronological (st_Events (addEvent s e))"
proof (cases "ce_Microcredits e \<le> 0")
  case False
  define es where "es = st_Events s"
  define i where "i = insertIndex es (ce_At e) (length es)"
  have before: "ce_At x \<le> ce_At e" if "x \<in> set (take i es)" for x
  proof -
    from that obtain k where k: "k < i" "k < length es" "x = es ! k"
      by (auto simp: in_set_conv_nth)
    then obtain j where j: "i = Suc j" by (cases i) auto
    then have "ce_At (es ! j) \<le> ce_At e" using insertIndex_earlier i_def by metis
    moreover have "j < length es" using insertIndex_le [of es "ce_At e" "length es"] j i_def by simp
    ultimately show ?thesis using chronological_nth [of es k j] assms k j es_def by auto
  qed
  have after: "ce_At e \<le> ce_At x" if "x \<in> set (drop i es)" for x
  proof -
    from that obtain k where "i \<le> k" "k < length es" "x = es ! k"
      by (auto simp: in_set_conv_nth) (metis add.commute le_add2 less_diff_conv)
    then show ?thesis using insertIndex_later [of es "ce_At e" "length es" k] i_def by simp
  qed
  have "chronological (take i es @ drop i es)" using assms es_def by simp
  then have "chronological (take i es @ e # drop i es)"
    by (auto simp: chronological_append chronological_Cons before after simp del: append_take_drop_id)
  with False show ?thesis by (simp add: addEvent_events Let_def es_def i_def)
qed (use assms in \<open>simp add: addEvent_def\<close>)

lemma sortSearch_spec:
  assumes "i \<le> j" and mono: "\<And>a b. i \<le> a \<Longrightarrow> a \<le> b \<Longrightarrow> b < j \<Longrightarrow> f a \<Longrightarrow> f b"
  shows "i \<le> sortSearch i j f \<and> sortSearch i j f \<le> j \<and>
         (\<forall>k. i \<le> k \<and> k < sortSearch i j f \<longrightarrow> \<not> f k) \<and>
         (\<forall>k. sortSearch i j f \<le> k \<and> k < j \<longrightarrow> f k)"
  using assms
proof (induction i j f rule: sortSearch.induct)
  case (1 i j f)
  show ?case
  proof (cases "i < j")
    case False
    then have eq: "sortSearch i j f = i" by (simp add: sortSearch.simps [of i j f])
    show ?thesis unfolding eq using False "1.prems"(1) by auto
  next
    case True
    define h where "h = (i + j) div 2"
    have h: "i \<le> h" "h < j" using True by (auto simp: h_def)
    show ?thesis
    proof (cases "f h")
      case False
      have ih: "h + 1 \<le> sortSearch (h + 1) j f \<and> sortSearch (h + 1) j f \<le> j \<and>
         (\<forall>k. h + 1 \<le> k \<and> k < sortSearch (h + 1) j f \<longrightarrow> \<not> f k) \<and>
         (\<forall>k. sortSearch (h + 1) j f \<le> k \<and> k < j \<longrightarrow> f k)"
      proof (rule "1.IH"(1) [OF True h_def False])
        show "h + 1 \<le> j" using h by simp
        show "f b" if "h + 1 \<le> a" "a \<le> b" "b < j" "f a" for a b
          by (rule "1.prems"(2) [of a b]) (use h that in \<open>simp_all\<close>)
      qed
      have low: "\<not> f k" if "i \<le> k" "k \<le> h" for k
        using "1.prems"(2) [of k h] that h False by blast
      have "sortSearch i j f = sortSearch (h + 1) j f"
        using True False by (simp add: sortSearch.simps [of i j f] h_def Let_def)
      moreover have "\<not> f k" if "i \<le> k" "k < sortSearch (h + 1) j f" for k
        using that ih low [of k] by (cases "k \<le> h") auto
      ultimately show ?thesis using ih h by auto
    next
      case fh: True
      have ih: "i \<le> sortSearch i h f \<and> sortSearch i h f \<le> h \<and>
         (\<forall>k. i \<le> k \<and> k < sortSearch i h f \<longrightarrow> \<not> f k) \<and>
         (\<forall>k. sortSearch i h f \<le> k \<and> k < h \<longrightarrow> f k)"
      proof (rule "1.IH"(2) [OF True h_def])
        show "\<not> \<not> f h" using fh by simp
        show "i \<le> h" using h by simp
        show "f b" if "i \<le> a" "a \<le> b" "b < h" "f a" for a b
          by (rule "1.prems"(2) [of a b]) (use h that in \<open>simp_all\<close>)
      qed
      have high: "f k" if "h \<le> k" "k < j" for k
        using "1.prems"(2) [of h k] that h fh by blast
      have "sortSearch i j f = sortSearch i h f"
        using True fh by (simp add: sortSearch.simps [of i j f] h_def Let_def)
      moreover have "f k" if "sortSearch i h f \<le> k" "k < j" for k
        using that ih high [of k] by (cases "h \<le> k") auto
      ultimately show ?thesis using ih h by auto
    qed
  qed
qed

text \<open>On a chronological ledger the binary search drops exactly the events at or before the cutoff.\<close>

lemma drop_filter_threshold:
  assumes "r \<le> length es" "\<And>k. k < r \<Longrightarrow> \<not> P (es ! k)" "\<And>k. r \<le> k \<Longrightarrow> k < length es \<Longrightarrow> P (es ! k)"
  shows "drop r es = filter P es"
proof -
  have "filter P (take r es) = []"
    using assms(1,2) by (auto simp: filter_empty_conv in_set_conv_nth)
  moreover have "filter P (drop r es) = drop r es"
    using assms(1,3) by (auto simp: filter_id_conv in_set_conv_nth)
  moreover have "filter P es = filter P (take r es) @ filter P (drop r es)"
    by (simp flip: filter_append)
  ultimately show ?thesis by simp
qed

lemma compact_events:
  assumes "chronological (st_Events s)"
  shows "st_Events (compact s now ret) = filter (\<lambda>e. After (ce_At e) (now - ret)) (st_Events s)"
proof -
  define es where "es = st_Events s"
  define f where "f = (\<lambda>i. After (ce_At (es ! i)) (now - ret))"
  define r where "r = sortSearch 0 (length es) f"
  have mono: "f b" if "a \<le> b" "b < length es" "f a" for a b
    using that chronological_nth [of es a b] assms by (simp add: f_def es_def)
  have spec: "r \<le> length es" "\<And>k. k < r \<Longrightarrow> \<not> f k" "\<And>k. r \<le> k \<Longrightarrow> k < length es \<Longrightarrow> f k"
    using sortSearch_spec [of 0 "length es" f] mono by (auto simp: r_def)
  have "drop r es = filter (\<lambda>e. After (ce_At e) (now - ret)) es"
    by (rule drop_filter_threshold) (use spec in \<open>auto simp: f_def\<close>)
  moreover have "st_Events (compact s now ret) = drop r es"
    by (simp add: compact_def Let_def es_def r_def f_def)
  ultimately show ?thesis by (simp add: es_def)
qed

lemma compact_dedup:
  "st_DedupHashes (compact s now ret) =
     drop (length (st_DedupHashes s) - maxDedupHashes) (st_DedupHashes s)"
  by (simp add: compact_def Let_def)

lemma compact_other:
  "st_Authoritative (compact s now ret) = st_Authoritative s"
  "st_CompleteSince (compact s now ret) = st_CompleteSince s"
  "st_ConsecutiveFailures (compact s now ret) = st_ConsecutiveFailures s"
  "st_DeliveryWarning (compact s now ret) = st_DeliveryWarning s"
  "st_LastPollAttempt (compact s now ret) = st_LastPollAttempt s"
  "st_LastPollError (compact s now ret) = st_LastPollError s"
  by (simp_all add: compact_def Let_def)

section \<open>The bounded replay filter\<close>

lemma seenDedup_length:
  "length (st_DedupHashes s) \<le> maxDedupHashes \<Longrightarrow>
   length (st_DedupHashes (snd (seenDedup s h))) \<le> maxDedupHashes"
  by (auto simp: seenDedup_def Let_def)

lemma seenDedup_fst: "fst (seenDedup s h) \<longleftrightarrow> h \<in> set (st_DedupHashes s)"
  by (simp add: seenDedup_def Let_def)

lemma seenDedup_remembers: "h \<in> set (st_DedupHashes (snd (seenDedup s h)))"
proof (cases "h \<in> set (st_DedupHashes s)")
  case False
  define hs where "hs = st_DedupHashes s"
  define n where "n = length (hs @ [h]) - maxDedupHashes"
  have "n \<le> length hs" by (simp add: n_def maxDedupHashes_def)
  then have "h \<in> set (drop n (hs @ [h]))" by simp
  with False show ?thesis
    by (simp add: seenDedup_def Let_def hs_def n_def)
qed (simp add: seenDedup_def)

lemma seenDedup_set: "set (st_DedupHashes (snd (seenDedup s h))) \<subseteq> insert h (set (st_DedupHashes s))"
  by (auto simp: seenDedup_def Let_def dest: in_set_dropD)

lemma seenDedup_events [simp]: "st_Events (snd (seenDedup s h)) = st_Events s"
  by (simp add: seenDedup_def Let_def)

lemma seenDedup_authoritative [simp]: "st_Authoritative (snd (seenDedup s h)) = st_Authoritative s"
  by (simp add: seenDedup_def Let_def)

section \<open>Fixed-point arithmetic\<close>

text \<open>What the two routines compute, on mathematical integers.\<close>

definition thresholdOf :: "int \<Rightarrow> int \<Rightarrow> int" where
  "thresholdOf bucket pct = bucket * pct div 100"

definition windowUsage :: "creditEvent list \<Rightarrow> int" where
  "windowUsage es = sum_list (map ce_Microcredits es)"

lemma saturatingAdd_min:
  assumes "is_int64 a" "0 \<le> b" "is_int64 b"
  shows "saturatingAdd a b = min maxInt64_const (a + b)"
proof (cases "b = 0")
  case True
  with assms show ?thesis by (simp add: saturatingAdd_def wrap64_id is_int64_def)
next
  case False
  have "wrap64 (maxInt64_const - b) = maxInt64_const - b"
    by (rule wrap64_id) (use assms in \<open>simp add: is_int64_def minInt64_const_def maxInt64_const_def\<close>)
  moreover have "wrap64 (a + b) = a + b" if "a + b \<le> maxInt64_const"
    by (rule wrap64_id) (use assms that in \<open>simp add: is_int64_def minInt64_const_def\<close>)
  ultimately show ?thesis using False assms(2) by (auto simp: saturatingAdd_def)
qed

definition positive_events :: "creditEvent list \<Rightarrow> bool" where
  "positive_events es \<longleftrightarrow> (\<forall>e \<in> set es. 0 < ce_Microcredits e \<and> is_int64 (ce_Microcredits e))"

lemma positive_events_simps [simp]:
  "positive_events []"
  "positive_events (e # es) \<longleftrightarrow> 0 < ce_Microcredits e \<and> is_int64 (ce_Microcredits e) \<and> positive_events es"
  "positive_events (xs @ ys) \<longleftrightarrow> positive_events xs \<and> positive_events ys"
  by (auto simp: positive_events_def)

lemma positive_events_filter [intro]: "positive_events es \<Longrightarrow> positive_events (filter P es)"
  by (auto simp: positive_events_def)

lemma positive_events_subset: "positive_events es \<Longrightarrow> set fs \<subseteq> set es \<Longrightarrow> positive_events fs"
  by (auto simp: positive_events_def)

lemma windowUsage_simps [simp]:
  "windowUsage [] = 0"
  "windowUsage (e # es) = ce_Microcredits e + windowUsage es"
  "windowUsage (xs @ ys) = windowUsage xs + windowUsage ys"
  by (simp_all add: windowUsage_def)

lemma windowUsage_nonneg: "positive_events es \<Longrightarrow> 0 \<le> windowUsage es"
  by (induction es) auto

lemma windowUsage_filter_le: "positive_events es \<Longrightarrow> windowUsage (filter P es) \<le> windowUsage es"
  by (induction es) auto

lemma foldl_saturating:
  assumes "positive_events es" "0 \<le> c" "c \<le> maxInt64_const"
  shows "foldl (\<lambda>c e. saturatingAdd c (ce_Microcredits e)) c es = min maxInt64_const (c + windowUsage es)"
  using assms
proof (induction es arbitrary: c)
  case (Cons e es)
  have e: "0 < ce_Microcredits e" "is_int64 (ce_Microcredits e)" and es: "positive_events es"
    using Cons.prems by auto
  have sat: "saturatingAdd c (ce_Microcredits e) = min maxInt64_const (c + ce_Microcredits e)"
    by (rule saturatingAdd_min) (use e Cons.prems in \<open>auto simp: is_int64_def minInt64_const_def\<close>)
  show ?case
    using Cons.IH [OF es, of "min maxInt64_const (c + ce_Microcredits e)"] sat e
      windowUsage_nonneg [OF es] Cons.prems
    by (auto simp: maxInt64_const_def min_def)
qed (simp add: is_int64_def)

text \<open>Consumption of a window: the true sum, capped at the largest \<open>int64\<close>, never wrapped.\<close>

lemma consumedOf_eq: "positive_events es \<Longrightarrow> consumedOf es = min maxInt64_const (windowUsage es)"
  unfolding consumedOf_def by (subst foldl_saturating) (simp_all add: maxInt64_const_def)

text \<open>
  The threshold is computed in two parts to avoid overflow; the parts add up to the floor of
  \<open>bucket * pct / 100\<close>, and no intermediate value leaves the \<open>int64\<close> range.
\<close>

lemma threshold_split:
  fixes b p :: int
  shows "b div 100 * p + (b mod 100) * p div 100 = b * p div 100"
proof -
  have "b * p = (b div 100 * p) * 100 + (b mod 100) * p"
    by (metis (no_types, opaque_lifting) distrib_right div_mult_mod_eq mult.assoc mult.commute)
  then show ?thesis by simp
qed

lemma atOrAboveThreshold_iff:
  assumes "0 < b" "is_int64 b" "0 \<le> p" "p \<le> 100"
  shows "atOrAboveThreshold c b p \<longleftrightarrow> thresholdOf b p \<le> c"
proof -
  have b100: "go_quo b 100 = b div 100" "go_rem b 100 = b mod 100"
    using assms by (simp_all add: go_quo_nonneg go_rem_nonneg)
  have "b div 100 * p \<le> b div 100 * 100"
    using assms by (intro mult_left_mono) auto
  also have "b div 100 * 100 \<le> b" by presburger
  finally have q: "b div 100 * p \<le> b" .
  have r: "(b mod 100) * p \<le> 99 * 100"
    by (rule mult_mono) (use assms in auto)
  have q0: "0 \<le> b div 100 * p" and r0: "0 \<le> (b mod 100) * p" using assms by auto
  have w1: "wrap64 (b div 100 * p) = b div 100 * p"
    by (rule wrap64_id, rule is_int64_nonneg [OF q0 q assms(2)])
  have w2: "wrap64 ((b mod 100) * p) = (b mod 100) * p"
    by (rule wrap64_id) (use r r0 in \<open>simp add: is_int64_def minInt64_const_def maxInt64_const_def\<close>)
  have tot: "b div 100 * p + (b mod 100) * p div 100 = b * p div 100" by (rule threshold_split)
  have "b * p \<le> b * 100" using assms by (intro mult_left_mono) auto
  then have t: "b * p div 100 \<le> b" by simp
  have t0: "0 \<le> b * p div 100" using assms by (simp add: pos_imp_zdiv_nonneg_iff)
  have w3: "wrap64 (b * p div 100) = b * p div 100"
    by (rule wrap64_id, rule is_int64_nonneg [OF t0 t assms(2)])
  have "go_quo ((b mod 100) * p) 100 = (b mod 100) * p div 100" by (rule go_quo_nonneg) (use r0 in auto)
  then show ?thesis
    using assms(1) by (simp add: atOrAboveThreshold_def b100 w1 w2 w3 tot thresholdOf_def Let_def)
qed

lemma thresholdOf_pos: "100 \<le> b \<Longrightarrow> 1 \<le> p \<Longrightarrow> 0 < thresholdOf b p"
proof -
  assume "100 \<le> b" "1 \<le> p"
  then have "100 * 1 \<le> b * p" by (intro mult_mono) auto
  then show ?thesis by (simp add: thresholdOf_def pos_imp_zdiv_pos_iff)
qed

section \<open>The predicted reset\<close>

lemma resetWalk_spec:
  assumes "positive_events es" "windowUsage es \<le> maxInt64_const"
    and thr: "\<And>c. atOrAboveThreshold c bucket pct \<longleftrightarrow> T \<le> c" and "0 < T" "T \<le> windowUsage es"
  shows "\<exists>k < length es. resetWalk es (windowUsage es) dur bucket pct = ce_At (es ! k) + dur \<and>
           windowUsage (drop (Suc k) es) < T \<and> T \<le> windowUsage (drop k es)"
  using assms
proof (induction es)
  case (Cons e es)
  have es: "positive_events es" "0 < ce_Microcredits e" using Cons.prems by auto
  have u: "0 \<le> windowUsage es" "windowUsage es \<le> maxInt64_const"
    using windowUsage_nonneg [OF es(1)] Cons.prems(2) es(2) by auto
  have w: "wrap64 (windowUsage (e # es) - ce_Microcredits e) = windowUsage es"
    using u by (simp add: wrap64_id is_int64_def minInt64_const_def)
  show ?case
  proof (cases "T \<le> windowUsage es")
    case False
    then have "resetWalk (e # es) (windowUsage (e # es)) dur bucket pct = ce_At e + dur"
      using w by (simp add: thr)
    with False Cons.prems(5) show ?thesis by (intro exI [of _ 0]) auto
  next
    case True
    then have eq: "resetWalk (e # es) (windowUsage (e # es)) dur bucket pct = resetWalk es (windowUsage es) dur bucket pct"
      using w by (simp add: thr)
    obtain k where "k < length es" "resetWalk es (windowUsage es) dur bucket pct = ce_At (es ! k) + dur"
      "windowUsage (drop (Suc k) es) < T" "T \<le> windowUsage (drop k es)"
      using Cons.IH [OF es(1) u(2) thr \<open>0 < T\<close> True] by blast
    then show ?thesis unfolding eq by (intro exI [of _ "Suc k"]) simp
  qed
qed simp

lemma set_activeEvents: "set (activeEvents es now dur) \<subseteq> set es"
  by (auto simp: activeEvents_def)

text \<open>
  Between \<open>now\<close> and any later instant no event of the ledger becomes active, so the active
  events at the later instant are those of \<open>now\<close> that have not expired.
\<close>

lemma activeEvents_later:
  assumes "\<forall>e \<in> set es. ce_At e \<le> now" "now \<le> t"
  shows "activeEvents es t dur = filter (\<lambda>e. t - dur < ce_At e) (activeEvents es now dur)"
  unfolding activeEvents_def filter_filter by (rule filter_cong) (use assms in auto)

section \<open>Properties\<close>

text \<open>Inserting a priced event keeps the ledger in chronological order and adds exactly that event.\<close>

theorem ledger_insert:
  assumes "chronological (st_Events s)" "0 < ce_Microcredits e"
  shows "chronological (st_Events (addEvent s e)) \<and> mset (st_Events (addEvent s e)) = add_mset e (mset (st_Events s))"
  using addEvent_chronological [OF assms(1)] addEvent_mset [OF assms(2)] by blast

theorem ledger_insert_witness:
  "chronological (st_Events (addEvent (zero_accountQuotaState\<lparr>st_Events :=
      [\<lparr>ce_At = 10, ce_Microcredits = 5, ce_Model = ''glm-5.3''\<rparr>, \<lparr>ce_At = 30, ce_Microcredits = 7, ce_Model = ''glm-5.3''\<rparr>]\<rparr>)
      \<lparr>ce_At = 20, ce_Microcredits = 1, ce_Model = ''glm-5.3''\<rparr>))"
  using ledger_insert [of "zero_accountQuotaState\<lparr>st_Events :=
      [\<lparr>ce_At = 10, ce_Microcredits = 5, ce_Model = ''glm-5.3''\<rparr>, \<lparr>ce_At = 30, ce_Microcredits = 7, ce_Model = ''glm-5.3''\<rparr>]\<rparr>"
      "\<lparr>ce_At = 20, ce_Microcredits = 1, ce_Model = ''glm-5.3''\<rparr>"]
  by (simp add: chronological_def)

definition lastN :: "nat \<Rightarrow> 'a list \<Rightarrow> 'a list" where
  "lastN n xs = drop (length xs - n) xs"

lemma lastN_mono: "m \<le> n \<Longrightarrow> set (lastN m xs) \<subseteq> set (lastN n xs)"
  by (simp add: lastN_def set_drop_subset_set_drop)

lemma lastN_snoc: "set (lastN m xs) \<subseteq> set (lastN (Suc m) (xs @ [x]))"
  by (auto simp: lastN_def)

lemma lastN_rev: "lastN n xs = rev (take n (rev xs))"
  by (simp add: lastN_def take_rev)

lemma lastN_trim: "m \<le> n \<Longrightarrow> lastN m (lastN n xs) = lastN m xs"
  by (simp add: lastN_rev min_def)

lemma seenDedup_lastN:
  assumes "h \<in> set (lastN m (st_DedupHashes s))" "Suc m \<le> maxDedupHashes"
  shows "h \<in> set (lastN (Suc m) (st_DedupHashes (snd (seenDedup s x))))"
proof (cases "x \<in> set (st_DedupHashes s)")
  case True
  then show ?thesis using subsetD [OF lastN_mono [of m "Suc m"] assms(1)] by (simp add: seenDedup_def)
next
  case False
  then have "st_DedupHashes (snd (seenDedup s x)) = lastN maxDedupHashes (st_DedupHashes s @ [x])"
    by (simp add: seenDedup_def Let_def lastN_def)
  then show ?thesis using assms lastN_snoc [of m "st_DedupHashes s" x] by (auto simp: lastN_trim)
qed

lemma seenDedup_lastN_fold:
  assumes "h \<in> set (lastN m (st_DedupHashes s))" "m + length hs \<le> maxDedupHashes"
  shows "h \<in> set (lastN (m + length hs) (st_DedupHashes (foldl (\<lambda>s x. snd (seenDedup s x)) s hs)))"
  using assms
proof (induction hs arbitrary: m s)
  case (Cons x hs)
  have "h \<in> set (lastN (Suc m + length hs) (st_DedupHashes (foldl (\<lambda>s x. snd (seenDedup s x)) (snd (seenDedup s x)) hs)))"
    by (rule Cons.IH) (use Cons.prems seenDedup_lastN in auto)
  then show ?case by simp
qed simp

text \<open>
  A record whose hash was accepted is recognised as a replay as long as fewer than 4096
  other hashes came in after it.
\<close>

theorem replay_recognised:
  assumes "h \<notin> set (st_DedupHashes s)" "length hs < maxDedupHashes"
  shows "fst (seenDedup (foldl (\<lambda>s x. snd (seenDedup s x)) (snd (seenDedup s h)) hs) h)"
proof -
  have "st_DedupHashes (snd (seenDedup s h)) = lastN maxDedupHashes (st_DedupHashes s @ [h])"
    using assms(1) by (simp add: seenDedup_def Let_def lastN_def)
  then have "h \<in> set (lastN 1 (st_DedupHashes (snd (seenDedup s h))))"
    by (simp add: lastN_trim maxDedupHashes_def) (simp add: lastN_def)
  from seenDedup_lastN_fold [OF this, of hs] assms(2) show ?thesis
    unfolding seenDedup_fst lastN_def by (auto dest: in_set_dropD)
qed

theorem replay_recognised_witness:
  "fst (seenDedup (foldl (\<lambda>s x. snd (seenDedup s x)) (snd (seenDedup zero_accountQuotaState ''a'')) [''b'', ''c'']) ''a'')"
  by (rule replay_recognised) (simp_all add: zero_accountQuotaState_def maxDedupHashes_def)

text \<open>What a later and an earlier cut leave of a chronological list, by an event of it.\<close>

lemma filter_after_event:
  assumes "chronological A" "k < length A"
  shows "filter (\<lambda>e. ce_At (A ! k) < ce_At e) A = filter (\<lambda>e. ce_At (A ! k) < ce_At e) (drop (Suc k) A)"
proof -
  have "filter (\<lambda>e. ce_At (A ! k) < ce_At e) (take (Suc k) A) = []"
    using assms by (auto simp: filter_empty_conv in_set_conv_nth not_less chronological_nth)
  then show ?thesis by (metis append_Nil append_take_drop_id filter_append)
qed

lemma filter_before_event:
  assumes "chronological A" "k < length A" "b < ce_At (A ! k)"
  shows "filter (\<lambda>e. b < ce_At e) A = filter (\<lambda>e. b < ce_At e) (take k A) @ drop k A"
proof -
  have "filter (\<lambda>e. b < ce_At e) (drop k A) = drop k A"
  proof (rule filter_True, rule ballI)
    fix e assume "e \<in> set (drop k A)"
    then obtain j where "k \<le> j" "j < length A" "e = A ! j"
      by (auto simp: in_set_conv_nth) (metis add.commute le_add2 less_diff_conv)
    then show "b < ce_At e" using chronological_nth [OF assms(1)] assms(3) by fastforce
  qed
  then show ?thesis by (metis append_take_drop_id filter_append)
qed


text \<open>A small ledger for the witness: two events in a window of fifty nanoseconds.\<close>

definition twoEvents :: "creditEvent list" where
  "twoEvents = [\<lparr>ce_At = 60, ce_Microcredits = 600, ce_Model = ''glm-5.3''\<rparr>, \<lparr>ce_At = 80, ce_Microcredits = 500, ce_Model = ''glm-5.3''\<rparr>]"


end
