(* ===== verification/Credits.thy ===== *)
theory Credits
  imports ZaiTypes Windows
begin

text \<open>
  \<^verbatim>\<open>internal/providers/zai/credits.go\<close>: the fixed-point price of a usage record in
  microcredits, the off-peak calendar, and the fingerprint that the replay filter of the
  ledger stores.
\<close>

section \<open>Definitions\<close>

definition maxCreditBucket :: int where
  "maxCreditBucket = maxInt64_const div creditScale"

definition validCreditBucket :: "int \<Rightarrow> bool" where
  "validCreditBucket credits \<longleftrightarrow> credits > 0 \<and> credits \<le> maxCreditBucket"

record creditRates =
  cr_Input :: int
  cr_Cached :: int
  cr_Output :: int
  cr_CanonicalName :: string

definition modelCreditRates :: "(string, creditRates) gomap" where
  "modelCreditRates =
     [(''glm-5.3'', \<lparr>cr_Input = 690, cr_Cached = 170, cr_Output = 2400, cr_CanonicalName = ''glm-5.3''\<rparr>),
      (''glm-5.3-flash'', \<lparr>cr_Input = 230, cr_Cached = 56, cr_Output = 800, cr_CanonicalName = ''glm-5.3-flash''\<rparr>)]"

record creditEstimate =
  ces_Microcredits :: int
  ces_Model :: string
  ces_Offpeak :: bool

definition afterLastSlash :: "string \<Rightarrow> string" where
  "afterLastSlash name = rev (takeWhile (\<lambda>c. c \<noteq> CHR ''/'') (rev name))"

definition normalizeModelName :: "string \<Rightarrow> string" where
  "normalizeModelName raw = afterLastSlash (ToLower (TrimSpace raw))"

definition ratesForUsage :: "usageRecord \<Rightarrow> creditRates option" where
  "ratesForUsage record =
     (case mget modelCreditRates (normalizeModelName (ur_Model record)) of
        Some rates \<Rightarrow> Some rates
      | None \<Rightarrow> mget modelCreditRates (normalizeModelName (ur_Alias record)))"

definition isOffpeak :: "gotime \<Rightarrow> bool" where
  "isOffpeak at =
     (if time_Weekday at = 6 \<or> time_Weekday at = 0 then True
      else time_Hour at < 6 \<or> time_Hour at \<ge> 10)"

text \<open>The sum is taken in \<open>big.Int\<close>, so it cannot overflow before the final range check.\<close>

definition addScaledTokens :: "int \<Rightarrow> int \<Rightarrow> int \<Rightarrow> int" where
  "addScaledTokens tot tokens multiplier = tot + tokens * multiplier"

definition estimateUsageCredits :: "usageRecord \<Rightarrow> gotime \<Rightarrow> creditEstimate result" where
  "estimateUsageCredits record at =
     (case ratesForUsage record of
        None \<Rightarrow> Inl (Msg ''unpriced model'')
      | Some rates \<Rightarrow>
          let detail = ur_Detail record in
          if ud_InputTokens detail < 0 \<or> ud_OutputTokens detail < 0 \<or>
             ud_CacheReadTokens detail < 0 \<or> ud_CacheCreationTokens detail < 0
          then Inl (Msg ''negative token count'')
          else
            let t1 = addScaledTokens 0 (ud_InputTokens detail) (cr_Input rates);
                t2 = addScaledTokens t1 (ud_CacheCreationTokens detail) (cr_Input rates);
                t3 = addScaledTokens t2 (ud_CacheReadTokens detail) (cr_Cached rates);
                t4 = addScaledTokens t3 (ud_OutputTokens detail) (cr_Output rates);
                offpeak = isOffpeak at;
                tot = (if offpeak then go_quo t4 2 else t4)
            in if \<not> is_int64 tot then Inl (Msg ''credit estimate exceeds supported range'')
               else Inr \<lparr>ces_Microcredits = tot, ces_Model = cr_CanonicalName rates, ces_Offpeak = offpeak\<rparr>)"

text \<open>\<open>binary.LittleEndian.PutUint64\<close> of the low 64 bits.\<close>

fun le_bytes :: "nat \<Rightarrow> int \<Rightarrow> string" where
  "le_bytes 0 x = []"
| "le_bytes (Suc n) x = char_of (nat (x mod 256)) # le_bytes n (x div 256)"

definition putUint64 :: "int \<Rightarrow> string" where
  "putUint64 x = le_bytes 8 x"

definition writeHashString :: "string \<Rightarrow> string" where
  "writeHashString value = putUint64 (int (length value)) @ value"

definition boolInt64 :: "bool \<Rightarrow> int" where
  "boolInt64 value = (if value then 1 else 0)"

definition dedupValues :: "usageRecord \<Rightarrow> int list" where
  "dedupValues record =
     [wrap64 (ur_RequestedAt record - unixEpoch),
      ur_Latency record,
      ur_StatusCode record,
      ud_InputTokens (ur_Detail record),
      ud_OutputTokens (ur_Detail record),
      ud_ReasoningTokens (ur_Detail record),
      ud_CacheReadTokens (ur_Detail record),
      ud_CacheCreationTokens (ur_Detail record),
      ud_TotalTokens (ur_Detail record),
      boolInt64 (ur_Failed record),
      int (length (ur_Body record))]"

definition dedupPreimage :: "usageRecord \<Rightarrow> string" where
  "dedupPreimage record =
     writeHashString (ur_AuthID record) @ writeHashString (ur_Provider record) @
     writeHashString (ur_Model record) @ writeHashString (ur_Alias record) @
     concat (map putUint64 (dedupValues record))"

definition usageDedupHash :: "golib \<Rightarrow> usageRecord \<Rightarrow> string" where
  "usageDedupHash lib record = lib_sha256hex lib (dedupPreimage record)"

section \<open>The price of a record\<close>

text \<open>The published formula on mathematical integers.\<close>

definition peakPrice :: "creditRates \<Rightarrow> usageDetail \<Rightarrow> int" where
  "peakPrice rates d =
     (ud_InputTokens d + ud_CacheCreationTokens d) * cr_Input rates +
     ud_CacheReadTokens d * cr_Cached rates + ud_OutputTokens d * cr_Output rates"

definition token_counts_ok :: "usageDetail \<Rightarrow> bool" where
  "token_counts_ok d \<longleftrightarrow> 0 \<le> ud_InputTokens d \<and> 0 \<le> ud_OutputTokens d \<and>
     0 \<le> ud_CacheReadTokens d \<and> 0 \<le> ud_CacheCreationTokens d"

lemma ratesForUsage_positive:
  "ratesForUsage r = Some rates \<Longrightarrow> 0 < cr_Input rates \<and> 0 < cr_Cached rates \<and> 0 < cr_Output rates"
  by (auto simp: ratesForUsage_def modelCreditRates_def split: option.splits if_splits)

lemma ratesForUsage_name:
  "ratesForUsage r = Some rates \<Longrightarrow> cr_CanonicalName rates = ''glm-5.3'' \<or> cr_CanonicalName rates = ''glm-5.3-flash''"
  by (auto simp: ratesForUsage_def modelCreditRates_def split: option.splits if_splits)

lemma peakPrice_nonneg:
  assumes "ratesForUsage r = Some rates" "token_counts_ok d"
  shows "0 \<le> peakPrice rates d"
  using ratesForUsage_positive [OF assms(1)] assms(2)
  by (simp add: peakPrice_def token_counts_ok_def)

lemma estimateUsageCredits_eq:
  "estimateUsageCredits r at =
     (case ratesForUsage r of
        None \<Rightarrow> Inl (Msg ''unpriced model'')
      | Some rates \<Rightarrow>
          if \<not> token_counts_ok (ur_Detail r) then Inl (Msg ''negative token count'')
          else let tot = (if isOffpeak at then peakPrice rates (ur_Detail r) div 2
                            else peakPrice rates (ur_Detail r))
               in if tot \<le> maxInt64_const
                  then Inr \<lparr>ces_Microcredits = tot, ces_Model = cr_CanonicalName rates, ces_Offpeak = isOffpeak at\<rparr>
                  else Inl (Msg ''credit estimate exceeds supported range''))"
proof (cases "ratesForUsage r")
  case None
  then show ?thesis by (simp add: estimateUsageCredits_def)
next
  case (Some rates)
  let ?d = "ur_Detail r"
  have t4: "addScaledTokens (addScaledTokens (addScaledTokens (addScaledTokens 0 (ud_InputTokens ?d) (cr_Input rates))
      (ud_CacheCreationTokens ?d) (cr_Input rates)) (ud_CacheReadTokens ?d) (cr_Cached rates))
      (ud_OutputTokens ?d) (cr_Output rates) = peakPrice rates ?d"
    by (simp add: addScaledTokens_def peakPrice_def algebra_simps)
  show ?thesis
  proof (cases "token_counts_ok ?d")
    case False
    with Some show ?thesis
      by (simp add: estimateUsageCredits_def Let_def token_counts_ok_def not_le disj_commute)
  next
    case True
    note nonneg = peakPrice_nonneg [OF Some True]
    have quo: "go_quo (peakPrice rates ?d) 2 = peakPrice rates ?d div 2"
      using nonneg by (simp add: go_quo_nonneg)
    have fits: "is_int64 (peakPrice rates ?d) \<longleftrightarrow> peakPrice rates ?d \<le> maxInt64_const"
      "is_int64 (peakPrice rates ?d div 2) \<longleftrightarrow> peakPrice rates ?d div 2 \<le> maxInt64_const"
      using nonneg by (auto simp: is_int64_def minInt64_const_def)
    have nn: "\<not> (ud_InputTokens ?d < 0 \<or> ud_OutputTokens ?d < 0 \<or> ud_CacheReadTokens ?d < 0 \<or> ud_CacheCreationTokens ?d < 0)"
      using True by (auto simp: token_counts_ok_def)
    show ?thesis
      unfolding estimateUsageCredits_def Some option.case Let_def t4 if_not_P [OF nn]
      using True by (simp add: quo fits)
  qed
qed

lemma estimate_bounds:
  assumes "estimateUsageCredits r at = Inr est"
  shows "0 \<le> ces_Microcredits est" "is_int64 (ces_Microcredits est)"
    "ces_Model est = ''glm-5.3'' \<or> ces_Model est = ''glm-5.3-flash''"
proof -
  obtain rates where r: "ratesForUsage r = Some rates" and ok: "token_counts_ok (ur_Detail r)"
    and est: "ces_Microcredits est = (if isOffpeak at then peakPrice rates (ur_Detail r) div 2
                            else peakPrice rates (ur_Detail r))"
      "ces_Microcredits est \<le> maxInt64_const" "ces_Model est = cr_CanonicalName rates"
    using assms by (auto simp: estimateUsageCredits_eq Let_def split: option.splits if_splits)
  show "0 \<le> ces_Microcredits est" using peakPrice_nonneg [OF r ok] est(1) by auto
  then show "is_int64 (ces_Microcredits est)" using est(2) by (simp add: is_int64_def minInt64_const_def)
  show "ces_Model est = ''glm-5.3'' \<or> ces_Model est = ''glm-5.3-flash''"
    using ratesForUsage_name [OF r] est(3) by simp
qed

section \<open>The off-peak calendar\<close>

lemma isOffpeak_weekly: "isOffpeak (t + 7 * Day) = isOffpeak t"
proof -
  have d: "(t + 7 * Day) div Day = t div Day + 7" by (simp add: go_time)
  have h: "(t + 7 * Day) div Hour = t div Hour + 168" by (simp add: go_time)
  have w: "(x + 7 + 1) mod 7 = (x + 1) mod 7" for x :: int by presburger
  have h': "(x + 168) mod 24 = x mod 24" for x :: int using mod_mult_self1 [of x 7 24] by simp
  show ?thesis unfolding isOffpeak_def time_Weekday_def time_Hour_def d h w h' ..
qed

section \<open>The fingerprint\<close>

lemma length_le_bytes [simp]: "length (le_bytes n x) = n"
  by (induction n arbitrary: x) auto

lemma char_of_nat_inj: "m < 256 \<Longrightarrow> n < 256 \<Longrightarrow> char_of (m :: nat) = char_of n \<Longrightarrow> m = n"
  by (metis mod_less of_char_of)

lemma le_bytes_inj: "le_bytes n x = le_bytes n y \<Longrightarrow> x mod 256 ^ n = y mod 256 ^ n"
proof (induction n arbitrary: x y)
  case (Suc n)
  have b: "nat (x mod 256) < 256" "nat (y mod 256) < 256" by (simp_all add: nat_less_iff)
  have c: "char_of (nat (x mod 256)) = (char_of (nat (y mod 256)) :: char)"
    and t: "le_bytes n (x div 256) = le_bytes n (y div 256)"
    using Suc.prems unfolding le_bytes.simps list.inject by blast+
  have "int (nat (x mod 256)) = int (nat (y mod 256))"
    using char_of_nat_inj [OF b c] by (rule arg_cong)
  then have low: "x mod 256 = y mod 256" by simp
  have high: "(x div 256) mod 256 ^ n = (y div 256) mod 256 ^ n" by (rule Suc.IH [OF t])
  have "x mod (256 * 256 ^ n) = 256 * ((x div 256) mod 256 ^ n) + x mod 256" for x :: int
    by (rule zmod_zmult2_eq) simp
  with low high show ?case by simp
qed simp

lemma length_putUint64 [simp]: "length (putUint64 x) = 8"
  by (simp add: putUint64_def)

lemma putUint64_inj: "is_int64 x \<Longrightarrow> is_int64 y \<Longrightarrow> putUint64 x = putUint64 y \<Longrightarrow> x = y"
proof -
  assume a: "is_int64 x" "is_int64 y" "putUint64 x = putUint64 y"
  then have m: "x mod 2 ^ 64 = y mod 2 ^ 64" using le_bytes_inj [of 8 x y] by (simp add: putUint64_def)
  have r: "z = (z mod 2 ^ 64 + 2 ^ 63) mod 2 ^ 64 - 2 ^ 63" if "is_int64 z" for z
    using that by (simp add: is_int64_def minInt64_const_def maxInt64_const_def mod_add_left_eq)
  show ?thesis using r [OF a(1)] r [OF a(2)] m by metis
qed

definition go_length :: "string \<Rightarrow> bool" where
  "go_length s \<longleftrightarrow> int (length s) \<le> maxInt64_const"

lemma writeHashString_append_inj:
  assumes "go_length s" "go_length t" "writeHashString s @ u = writeHashString t @ v"
  shows "s = t \<and> u = v"
proof -
  have "putUint64 (int (length s)) = putUint64 (int (length t))"
    and rest: "s @ u = t @ v"
    using assms(3) by (auto simp: writeHashString_def append_eq_append_conv)
  moreover have "is_int64 (int (length s))" "is_int64 (int (length t))"
    using assms(1,2) by (simp_all add: go_length_def is_int64_def minInt64_const_def)
  ultimately have "int (length s) = int (length t)" using putUint64_inj by blast
  with rest show ?thesis by (auto simp: append_eq_append_conv)
qed

lemma concat_putUint64_inj:
  "length xs = length ys \<Longrightarrow> \<forall>x \<in> set xs. is_int64 x \<Longrightarrow> \<forall>y \<in> set ys. is_int64 y \<Longrightarrow>
   concat (map putUint64 xs) = concat (map putUint64 ys) \<Longrightarrow> xs = ys"
proof (induction xs ys rule: list_induct2)
  case (Cons x xs y ys)
  have "putUint64 x = putUint64 y" "concat (map putUint64 xs) = concat (map putUint64 ys)"
    using Cons.prems(3) length_putUint64 by (auto simp: append_eq_append_conv)
  then have "x = y" "xs = ys" using Cons.IH Cons.prems by (auto intro: putUint64_inj)
  then show ?case by simp
qed simp

definition usage_in_range :: "usageRecord \<Rightarrow> bool" where
  "usage_in_range r \<longleftrightarrow> go_length (ur_AuthID r) \<and> go_length (ur_Provider r) \<and>
     go_length (ur_Model r) \<and> go_length (ur_Alias r) \<and> (\<forall>x \<in> set (dedupValues r). is_int64 x)"

section \<open>Properties\<close>

text \<open>
  A record has a price exactly when its model (or its alias) is priced, no token count is
  negative and the price fits \<open>int64\<close>; the price is the published formula, halved (rounding
  down) in the off-peak hours, with no overflow on the way.
\<close>

theorem usage_price:
  "estimateUsageCredits r at = Inr e \<longleftrightarrow>
     (\<exists>rates. ratesForUsage r = Some rates \<and> token_counts_ok (ur_Detail r) \<and>
        e = \<lparr>ces_Microcredits = peakPrice rates (ur_Detail r) div (if isOffpeak at then 2 else 1),
             ces_Model = cr_CanonicalName rates, ces_Offpeak = isOffpeak at\<rparr> \<and>
        ces_Microcredits e \<le> maxInt64_const)"
  by (auto simp: estimateUsageCredits_eq Let_def split: option.splits)

text \<open>
  The byte string that is hashed for the replay filter determines the auth ID, the provider,
  the model, the alias and all eleven numbers of a record: two records that differ in one of
  them are never hashed from the same bytes.
\<close>

theorem dedup_fingerprint:
  assumes "usage_in_range r" "usage_in_range q" "dedupPreimage r = dedupPreimage q"
  shows "ur_AuthID r = ur_AuthID q \<and> ur_Provider r = ur_Provider q \<and> ur_Model r = ur_Model q \<and>
         ur_Alias r = ur_Alias q \<and> dedupValues r = dedupValues q"
proof -
  have a: "ur_AuthID r = ur_AuthID q" and r1: "writeHashString (ur_Provider r) @
      writeHashString (ur_Model r) @ writeHashString (ur_Alias r) @ concat (map putUint64 (dedupValues r)) =
      writeHashString (ur_Provider q) @ writeHashString (ur_Model q) @ writeHashString (ur_Alias q) @
      concat (map putUint64 (dedupValues q))"
    using writeHashString_append_inj assms unfolding dedupPreimage_def usage_in_range_def by metis+
  have p: "ur_Provider r = ur_Provider q" and r2:
    "writeHashString (ur_Model r) @ writeHashString (ur_Alias r) @ concat (map putUint64 (dedupValues r)) =
      writeHashString (ur_Model q) @ writeHashString (ur_Alias q) @ concat (map putUint64 (dedupValues q))"
    using writeHashString_append_inj [OF _ _ r1] assms unfolding usage_in_range_def by metis+
  have m: "ur_Model r = ur_Model q" and r3:
    "writeHashString (ur_Alias r) @ concat (map putUint64 (dedupValues r)) =
      writeHashString (ur_Alias q) @ concat (map putUint64 (dedupValues q))"
    using writeHashString_append_inj [OF _ _ r2] assms unfolding usage_in_range_def by metis+
  have l: "ur_Alias r = ur_Alias q" and r4:
    "concat (map putUint64 (dedupValues r)) = concat (map putUint64 (dedupValues q))"
    using writeHashString_append_inj [OF _ _ r3] assms unfolding usage_in_range_def by metis+
  have "dedupValues r = dedupValues q"
    by (rule concat_putUint64_inj [OF _ _ _ r4])
      (use assms in \<open>auto simp: usage_in_range_def dedupValues_def\<close>)
  with a p m l show ?thesis by simp
qed

definition sampleUsage :: usageRecord where
  "sampleUsage =
     \<lparr>ur_AuthID = ''claude:apikey:1'', ur_Provider = ''claude'', ur_Model = ''glm-5.3'', ur_Alias = [],
      ur_RequestedAt = 739616 * Day + 12 * Hour, ur_Latency = Second, ur_Failed = False, ur_StatusCode = 200,
      ur_Body = [], ur_ResponseHeaders = [],
      ur_Detail = \<lparr>ud_InputTokens = 1000, ud_OutputTokens = 500, ud_ReasoningTokens = 0, ud_CachedTokens = 0,
                   ud_CacheReadTokens = 0, ud_CacheCreationTokens = 0, ud_TotalTokens = 1500\<rparr>\<rparr>"

theorem dedup_fingerprint_witness:
  "dedupValues sampleUsage = dedupValues (sampleUsage\<lparr>ur_ResponseHeaders := [(''X-Trace'', [''1''])]\<rparr>)"
proof -
  have "usage_in_range sampleUsage" "usage_in_range (sampleUsage\<lparr>ur_ResponseHeaders := [(''X-Trace'', [''1''])]\<rparr>)"
    "dedupPreimage sampleUsage = dedupPreimage (sampleUsage\<lparr>ur_ResponseHeaders := [(''X-Trace'', [''1''])]\<rparr>)"
    by code_simp+
  then show ?thesis using dedup_fingerprint by blast
qed

end
