(* ===== verification/Health.thy ===== *)
theory Health
  imports Credits
begin

text \<open>
  \<^verbatim>\<open>internal/providers/zai/health.go\<close> and the request-rate ladder of
  \<^verbatim>\<open>failures.go\<close>: the health state of one account, the operations that block it, and the
  assessment the scheduler reads. The two blocking deadlines (authentication suspension and
  429 exhaustion) share one contract, the locale \<open>deadline\<close>.
\<close>

section \<open>Definitions\<close>

datatype healthStatus =
  healthHealthy | healthExhausted | healthSuspended | healthDisabled | healthThrottled

fun healthName :: "healthStatus \<Rightarrow> string" where
  "healthName healthHealthy = ''healthy''"
| "healthName healthExhausted = ''exhausted''"
| "healthName healthSuspended = ''suspended''"
| "healthName healthDisabled = ''disabled''"
| "healthName healthThrottled = ''throttled''"

record capacityUpdate =
  cu_Exhausted :: bool
  cu_ResetAt :: gotime
  cu_Source :: string

record accountHealthState =
  hs_SuspendedUntil :: gotime
  hs_ExhaustedUntil :: gotime
  hs_ExhaustedReason :: string
  hs_CapacityExhausted :: bool
  hs_CapacityResetAt :: gotime
  hs_CapacitySource :: string
  hs_ThrottledUntil :: gotime
  hs_ThrottleStreak :: int
  hs_ThrottleReason :: string

record accountHealth =
  ah_Status :: healthStatus
  ah_Reason :: string
  ah_ResetAt :: gotime

record persistedHealthState =
  ph_SuspendedUntil :: gotime
  ph_ExhaustedUntil :: gotime
  ph_ExhaustedReason :: string

definition zero_healthState :: accountHealthState where
  "zero_healthState =
     \<lparr>hs_SuspendedUntil = 0, hs_ExhaustedUntil = 0, hs_ExhaustedReason = [],
      hs_CapacityExhausted = False, hs_CapacityResetAt = 0, hs_CapacitySource = [],
      hs_ThrottledUntil = 0, hs_ThrottleStreak = 0, hs_ThrottleReason = []\<rparr>"

definition zero_persistedHealth :: persistedHealthState where
  "zero_persistedHealth = \<lparr>ph_SuspendedUntil = 0, ph_ExhaustedUntil = 0, ph_ExhaustedReason = []\<rparr>"

definition boundedHealthReason :: "string \<Rightarrow> string" where
  "boundedHealthReason reason = boundedText reason 96"

definition suspendUntil :: "accountHealthState \<Rightarrow> gotime \<Rightarrow> accountHealthState" where
  "suspendUntil state resetAt =
     (if After resetAt (hs_SuspendedUntil state) then state\<lparr>hs_SuspendedUntil := resetAt\<rparr> else state)"

definition exhaustUntil :: "accountHealthState \<Rightarrow> gotime \<Rightarrow> string \<Rightarrow> accountHealthState" where
  "exhaustUntil state resetAt reason =
     (if After resetAt (hs_ExhaustedUntil state)
      then state\<lparr>hs_ExhaustedUntil := resetAt, hs_ExhaustedReason := boundedHealthReason reason\<rparr>
      else state)"

definition clearThrottle :: "accountHealthState \<Rightarrow> accountHealthState" where
  "clearThrottle state =
     state\<lparr>hs_ThrottledUntil := 0, hs_ThrottleStreak := 0, hs_ThrottleReason := []\<rparr>"

definition requestRateBackoffBase :: duration where [go_time]: "requestRateBackoffBase = 5 * Second"
definition requestRateBackoffCap :: duration where [go_time]: "requestRateBackoffCap = Minute"
definition requestRateMaxThrottles :: int where "requestRateMaxThrottles = 5"
definition requestRateStreakDecay :: duration where [go_time]: "requestRateStreakDecay = 5 * Minute"

text \<open>The doubling loop of \<open>requestRateBackoff\<close>.\<close>

function backoffLoop :: "int \<Rightarrow> int \<Rightarrow> duration \<Rightarrow> duration" where
  "backoffLoop step streak delay =
     (if step < streak \<and> delay < requestRateBackoffCap then backoffLoop (step + 1) streak (delay * 2)
      else delay)"
  by pat_completeness auto
termination
  by (relation "measure (\<lambda>(step, streak, delay). nat (streak - step))") auto

declare backoffLoop.simps [simp del]

definition requestRateBackoff :: "int \<Rightarrow> duration \<Rightarrow> duration" where
  "requestRateBackoff streak fallback =
     (let delay = min (backoffLoop 1 streak requestRateBackoffBase) requestRateBackoffCap
      in if fallback > 0 then min delay fallback else delay)"

definition throttle :: "accountHealthState \<Rightarrow> gotime \<Rightarrow> gotime \<Rightarrow> duration \<Rightarrow> bool \<times> accountHealthState" where
  "throttle state now hintedAt fallback =
     (if After (hs_ThrottledUntil state) now then
        (False, if After hintedAt (hs_ThrottledUntil state) then state\<lparr>hs_ThrottledUntil := hintedAt\<rparr> else state)
      else
        let s1 = (if hs_ThrottleStreak state > 0 \<and>
                     time_Sub now (hs_ThrottledUntil state) \<ge> requestRateStreakDecay
                  then state\<lparr>hs_ThrottleStreak := 0\<rparr> else state)
        in if hs_ThrottleStreak s1 \<ge> requestRateMaxThrottles then (True, clearThrottle s1)
           else
             let streak = hs_ThrottleStreak s1 + 1;
                 delay = requestRateBackoff streak fallback;
                 hinted = After hintedAt now;
                 until = (if hinted then hintedAt else now + delay);
                 reason = (if hinted then ''request-rate retry hint'' else ''request-rate backoff'')
             in (False, s1\<lparr>hs_ThrottleStreak := streak, hs_ThrottledUntil := until, hs_ThrottleReason := reason\<rparr>))"

definition persistedHealth :: "accountHealthState \<Rightarrow> gotime \<Rightarrow> persistedHealthState \<times> bool" where
  "persistedHealth state now =
     (let p1 = (if After (hs_SuspendedUntil state) now
                then zero_persistedHealth\<lparr>ph_SuspendedUntil := hs_SuspendedUntil state\<rparr>
                else zero_persistedHealth);
          p2 = (if After (hs_ExhaustedUntil state) now
                then p1\<lparr>ph_ExhaustedUntil := hs_ExhaustedUntil state,
                        ph_ExhaustedReason := boundedHealthReason (hs_ExhaustedReason state)\<rparr>
                else p1)
      in (p2, \<not> IsZero (ph_SuspendedUntil p2) \<or> \<not> IsZero (ph_ExhaustedUntil p2)))"

definition restorePersistedHealth :: "persistedHealthState \<Rightarrow> gotime \<Rightarrow> accountHealthState" where
  "restorePersistedHealth state now =
     (let h1 = (if After (ph_SuspendedUntil state) now
                then zero_healthState\<lparr>hs_SuspendedUntil := ph_SuspendedUntil state\<rparr>
                else zero_healthState)
      in if After (ph_ExhaustedUntil state) now
         then h1\<lparr>hs_ExhaustedUntil := ph_ExhaustedUntil state,
                 hs_ExhaustedReason := boundedHealthReason (ph_ExhaustedReason state)\<rparr>
         else h1)"

definition quotaCapacityHealth :: "accountHealthState \<Rightarrow> accountQuotaView \<Rightarrow> int \<Rightarrow> accountHealthState" where
  "quotaCapacityHealth state vw threshold =
     (let fiveHourExhausted = atOrAboveThreshold (qw_ConsumedMicrocredits (vw_FiveHour vw))
            (qw_BucketMicrocredits (vw_FiveHour vw)) threshold;
          weeklyExhausted = atOrAboveThreshold (qw_ConsumedMicrocredits (vw_Weekly vw))
            (qw_BucketMicrocredits (vw_Weekly vw)) threshold;
          s1 = state\<lparr>hs_CapacityExhausted := fiveHourExhausted \<or> weeklyExhausted,
                     hs_CapacityResetAt := 0,
                     hs_CapacitySource := boundedHealthReason (vw_Source vw)\<rparr>
      in if hs_CapacityExhausted s1 then
           let r1 = (if fiveHourExhausted then qw_ResetsAt (vw_FiveHour vw) else 0);
               r2 = (if weeklyExhausted \<and> (IsZero r1 \<or> After (qw_ResetsAt (vw_Weekly vw)) r1)
                     then qw_ResetsAt (vw_Weekly vw) else r1)
           in s1\<lparr>hs_CapacityResetAt := r2,
                 hs_CapacitySource := boundedHealthReason (vw_Source vw @ '' quota threshold'')\<rparr>
         else s1)"

definition assess :: "accountHealthState \<Rightarrow> account \<Rightarrow> gotime \<Rightarrow> accountHealth" where
  "assess state item now =
     (if acc_Disabled item then
        \<lparr>ah_Status = healthDisabled, ah_Reason = ''administratively disabled'', ah_ResetAt = 0\<rparr>
      else if After (hs_SuspendedUntil state) now then
        \<lparr>ah_Status = healthSuspended, ah_Reason = ''upstream authentication failure'',
         ah_ResetAt = hs_SuspendedUntil state\<rparr>
      else if After (hs_ExhaustedUntil state) now then
        \<lparr>ah_Status = healthExhausted, ah_Reason = hs_ExhaustedReason state,
         ah_ResetAt = hs_ExhaustedUntil state\<rparr>
      else if hs_CapacityExhausted state then
        \<lparr>ah_Status = healthExhausted,
         ah_Reason = (if hs_CapacitySource state = [] then ''quota threshold reached'' else hs_CapacitySource state),
         ah_ResetAt = (if After (hs_CapacityResetAt state) now then hs_CapacityResetAt state else 0)\<rparr>
      else if After (hs_ThrottledUntil state) now then
        \<lparr>ah_Status = healthThrottled, ah_Reason = hs_ThrottleReason state,
         ah_ResetAt = hs_ThrottledUntil state\<rparr>
      else \<lparr>ah_Status = healthHealthy, ah_Reason = [], ah_ResetAt = 0\<rparr>)"

section \<open>Deadlines that only move later\<close>

text \<open>
  What a client of a blocking deadline relies on: extending it yields the later of the two
  instants. The lemmas follow for any sequence of extensions.
\<close>

locale deadline =
  fixes until :: "'s \<Rightarrow> gotime" and extend :: "'s \<Rightarrow> gotime \<Rightarrow> 's"
  assumes until_extend: "until (extend s t) = max (until s) t"
begin

lemma never_shortens: "until s \<le> until (extend s t)"
  by (simp add: until_extend)

lemma foldl_until: "until (foldl extend s ts) = fold max ts (until s)"
  by (induction ts arbitrary: s) (simp_all add: until_extend max.commute)

lemma foldl_never_shortens: "until s \<le> until (foldl extend s ts)"
  by (induction ts arbitrary: s) (auto intro: order_trans [OF never_shortens])

lemma foldl_covers: "t \<in> set ts \<Longrightarrow> t \<le> until (foldl extend s ts)"
proof (induction ts arbitrary: s)
  case (Cons u ts)
  have "u \<le> until (foldl extend (extend s u) ts)"
    using foldl_never_shortens [of "extend s u" ts] by (simp add: until_extend)
  with Cons show ?case by auto
qed simp

lemma active_stays: "now < until s \<Longrightarrow> now < until (foldl extend s ts)"
  using foldl_never_shortens [of s ts] by simp

end

interpretation suspension: deadline hs_SuspendedUntil suspendUntil
  by unfold_locales (simp add: suspendUntil_def max_def)

interpretation exhaustion: deadline hs_ExhaustedUntil "\<lambda>s t. exhaustUntil s t reason" for reason
  by unfold_locales (simp add: exhaustUntil_def max_def)

section \<open>Frame facts\<close>

lemma suspendUntil_frame [simp]:
  "hs_ExhaustedUntil (suspendUntil s t) = hs_ExhaustedUntil s"
  "hs_ThrottledUntil (suspendUntil s t) = hs_ThrottledUntil s"
  "hs_ThrottleStreak (suspendUntil s t) = hs_ThrottleStreak s"
  "hs_CapacityExhausted (suspendUntil s t) = hs_CapacityExhausted s"
  by (simp_all add: suspendUntil_def)

lemma exhaustUntil_frame [simp]:
  "hs_SuspendedUntil (exhaustUntil s t r) = hs_SuspendedUntil s"
  "hs_ThrottledUntil (exhaustUntil s t r) = hs_ThrottledUntil s"
  "hs_ThrottleStreak (exhaustUntil s t r) = hs_ThrottleStreak s"
  "hs_CapacityExhausted (exhaustUntil s t r) = hs_CapacityExhausted s"
  by (simp_all add: exhaustUntil_def)

lemma clearThrottle_simps [simp]:
  "hs_SuspendedUntil (clearThrottle s) = hs_SuspendedUntil s"
  "hs_ExhaustedUntil (clearThrottle s) = hs_ExhaustedUntil s"
  "hs_ExhaustedReason (clearThrottle s) = hs_ExhaustedReason s"
  "hs_CapacityExhausted (clearThrottle s) = hs_CapacityExhausted s"
  "hs_CapacityResetAt (clearThrottle s) = hs_CapacityResetAt s"
  "hs_ThrottledUntil (clearThrottle s) = 0"
  "hs_ThrottleStreak (clearThrottle s) = 0"
  by (simp_all add: clearThrottle_def)

lemma throttle_frame [simp]:
  "hs_SuspendedUntil (snd (throttle s now h fb)) = hs_SuspendedUntil s"
  "hs_ExhaustedUntil (snd (throttle s now h fb)) = hs_ExhaustedUntil s"
  "hs_ExhaustedReason (snd (throttle s now h fb)) = hs_ExhaustedReason s"
  "hs_CapacityExhausted (snd (throttle s now h fb)) = hs_CapacityExhausted s"
  "hs_CapacityResetAt (snd (throttle s now h fb)) = hs_CapacityResetAt s"
  by (simp_all add: throttle_def Let_def)

lemma quotaCapacityHealth_frame [simp]:
  "hs_SuspendedUntil (quotaCapacityHealth s v th) = hs_SuspendedUntil s"
  "hs_ExhaustedUntil (quotaCapacityHealth s v th) = hs_ExhaustedUntil s"
  "hs_ExhaustedReason (quotaCapacityHealth s v th) = hs_ExhaustedReason s"
  "hs_ThrottledUntil (quotaCapacityHealth s v th) = hs_ThrottledUntil s"
  "hs_ThrottleStreak (quotaCapacityHealth s v th) = hs_ThrottleStreak s"
  by (simp_all add: quotaCapacityHealth_def Let_def)

lemma quotaCapacityHealth_exhausted:
  "hs_CapacityExhausted (quotaCapacityHealth s v th) \<longleftrightarrow>
     atOrAboveThreshold (qw_ConsumedMicrocredits (vw_FiveHour v)) (qw_BucketMicrocredits (vw_FiveHour v)) th \<or>
     atOrAboveThreshold (qw_ConsumedMicrocredits (vw_Weekly v)) (qw_BucketMicrocredits (vw_Weekly v)) th"
  by (simp add: quotaCapacityHealth_def Let_def)

lemma quotaCapacityHealth_idem:
  "quotaCapacityHealth (quotaCapacityHealth s v th) v th = quotaCapacityHealth s v th"
  by (simp add: quotaCapacityHealth_def Let_def)

lemma assess_healthy_iff:
  "ah_Status (assess s item now) = healthHealthy \<longleftrightarrow>
     \<not> acc_Disabled item \<and> hs_SuspendedUntil s \<le> now \<and> hs_ExhaustedUntil s \<le> now \<and>
     \<not> hs_CapacityExhausted s \<and> hs_ThrottledUntil s \<le> now"
  by (auto simp: assess_def)

lemma assess_throttled_iff:
  "ah_Status (assess s item now) = healthThrottled \<longleftrightarrow>
     \<not> acc_Disabled item \<and> hs_SuspendedUntil s \<le> now \<and> hs_ExhaustedUntil s \<le> now \<and>
     \<not> hs_CapacityExhausted s \<and> now < hs_ThrottledUntil s"
  by (auto simp: assess_def)

lemma assess_throttled_reset:
  "ah_Status (assess s item now) = healthThrottled \<Longrightarrow>
     ah_ResetAt (assess s item now) = hs_ThrottledUntil s \<and> now < hs_ThrottledUntil s"
  by (auto simp: assess_def split: if_splits)

section \<open>The request-rate ladder\<close>

lemma backoffLoop_bounds:
  "0 < delay \<Longrightarrow> delay \<le> backoffLoop step streak delay"
proof (induction step streak delay rule: backoffLoop.induct)
  case (1 step streak delay)
  show ?case
  proof (cases "step < streak \<and> delay < requestRateBackoffCap")
    case True
    with "1.IH" "1.prems" have "delay * 2 \<le> backoffLoop (step + 1) streak (delay * 2)" by simp
    with True "1.prems" show ?thesis by (simp add: backoffLoop.simps [of step streak delay])
  qed (auto simp: backoffLoop.simps [of step streak delay])
qed

lemma requestRateBackoff_bounds:
  "0 < requestRateBackoff n fb" "requestRateBackoff n fb \<le> requestRateBackoffCap"
  "0 < fb \<Longrightarrow> requestRateBackoff n fb \<le> fb"
proof -
  have "requestRateBackoffBase \<le> backoffLoop 1 n requestRateBackoffBase"
    by (rule backoffLoop_bounds) (simp add: go_time)
  then have "0 < backoffLoop 1 n requestRateBackoffBase" by (simp add: go_time)
  moreover have "0 < requestRateBackoffCap" by (simp add: go_time)
  ultimately show "0 < requestRateBackoff n fb" by (simp add: requestRateBackoff_def Let_def)
qed (auto simp: requestRateBackoff_def Let_def)

text \<open>The documented steps: 5, 10, 20, 40 and 60 seconds, never above the fallback.\<close>

definition ladderStep :: "int \<Rightarrow> duration" where
  "ladderStep n = (if n \<le> 1 then 5 else if n = 2 then 10 else if n = 3 then 20 else if n = 4 then 40 else 60) * Second"

lemma requestRateBackoff_ladder:
  assumes "1 \<le> n" "n \<le> 5" "0 < fb"
  shows "requestRateBackoff n fb = min (ladderStep n) fb"
proof -
  have "n = 1 \<or> n = 2 \<or> n = 3 \<or> n = 4 \<or> n = 5" using assms by auto
  then show ?thesis using assms(3)
    by (elim disjE) (simp_all add: requestRateBackoff_def backoffLoop.simps ladderStep_def go_time)
qed

definition streak_ok :: "accountHealthState \<Rightarrow> bool" where
  "streak_ok s \<longleftrightarrow> 0 \<le> hs_ThrottleStreak s \<and> hs_ThrottleStreak s \<le> requestRateMaxThrottles"

lemma throttle_streak_ok: "streak_ok s \<Longrightarrow> streak_ok (snd (throttle s now h fb))"
  by (auto simp: streak_ok_def throttle_def Let_def requestRateMaxThrottles_def)

lemma throttle_until_bound:
  assumes "h \<le> now + requestRateBackoffCap"
  shows "hs_ThrottledUntil (snd (throttle s now h fb)) \<le> max (hs_ThrottledUntil s) (now + requestRateBackoffCap)
    \<or> fst (throttle s now h fb)"
proof -
  have "now + requestRateBackoff n fb \<le> now + requestRateBackoffCap" for n
    using requestRateBackoff_bounds(2) by simp
  then show ?thesis using assms by (auto simp: throttle_def Let_def le_max_iff_disj)
qed

lemma throttle_active_until:
  assumes "\<not> fst (throttle s now h fb)"
  shows "now < hs_ThrottledUntil (snd (throttle s now h fb))"
  using assms requestRateBackoff_bounds(1) by (auto simp: throttle_def Let_def split: if_splits)

text \<open>One step of the ladder on an expired, undecayed streak without a hint.\<close>

lemma throttle_next_step:
  assumes "0 \<le> hs_ThrottleStreak s" "hs_ThrottleStreak s < 5" "0 < fb"
    and "0 \<le> now" "hs_ThrottledUntil s \<le> now" "hs_ThrottleStreak s = 0 \<or> now - hs_ThrottledUntil s < requestRateStreakDecay"
  shows "fst (throttle s now 0 fb) = False \<and>
    hs_ThrottleStreak (snd (throttle s now 0 fb)) = hs_ThrottleStreak s + 1 \<and>
    hs_ThrottledUntil (snd (throttle s now 0 fb)) = now + min (ladderStep (hs_ThrottleStreak s + 1)) fb"
proof -
  have b: "requestRateBackoff (hs_ThrottleStreak s + 1) fb = min (ladderStep (hs_ThrottleStreak s + 1)) fb"
    by (rule requestRateBackoff_ladder) (use assms in auto)
  have nodecay: "\<not> (hs_ThrottleStreak s > 0 \<and> time_Sub now (hs_ThrottledUntil s) \<ge> requestRateStreakDecay)"
    using assms(6) by (auto simp: time_Sub_ge_iff go_time minInt64_const_def maxInt64_const_def)
  show ?thesis using assms(1-5) nodecay
    by (auto simp: throttle_def Let_def b requestRateMaxThrottles_def)
qed

lemma throttle_last_step:
  assumes "hs_ThrottleStreak s = 5" "hs_ThrottledUntil s \<le> now" "now - hs_ThrottledUntil s < requestRateStreakDecay"
  shows "throttle s now h fb = (True, clearThrottle s)"
proof -
  have "\<not> time_Sub now (hs_ThrottledUntil s) \<ge> requestRateStreakDecay"
    using assms(3) by (auto simp: time_Sub_ge_iff go_time minInt64_const_def maxInt64_const_def)
  with assms(1,2) show ?thesis by (simp add: throttle_def Let_def requestRateMaxThrottles_def)
qed

section \<open>Persisted blocks\<close>

lemma persisted_restore_suspended:
  assumes "0 \<le> later" "now \<le> later"
  shows "hs_SuspendedUntil (restorePersistedHealth (fst (persistedHealth s now)) later) =
           (if later < hs_SuspendedUntil s then hs_SuspendedUntil s else 0)"
  using assms
  by (auto simp: restorePersistedHealth_def persistedHealth_def Let_def zero_persistedHealth_def zero_healthState_def)

lemma persisted_restore_exhausted:
  assumes "0 \<le> later" "now \<le> later"
  shows "hs_ExhaustedUntil (restorePersistedHealth (fst (persistedHealth s now)) later) =
           (if later < hs_ExhaustedUntil s then hs_ExhaustedUntil s else 0)"
  using assms
  by (auto simp: restorePersistedHealth_def persistedHealth_def Let_def zero_persistedHealth_def zero_healthState_def)

lemma persisted_restore_throttle:
  "hs_ThrottledUntil (restorePersistedHealth p later) = 0"
  "hs_ThrottleStreak (restorePersistedHealth p later) = 0"
  by (simp_all add: restorePersistedHealth_def Let_def zero_healthState_def)

section \<open>Properties\<close>

text \<open>Request-rate limits that come back each time a throttle expires.\<close>

fun climb :: "nat \<Rightarrow> duration \<Rightarrow> accountHealthState \<times> gotime \<Rightarrow> accountHealthState \<times> gotime" where
  "climb 0 fb (s, now) = (s, now)"
| "climb (Suc n) fb (s, now) =
     (let s' = snd (throttle s now 0 fb) in climb n fb (s', hs_ThrottledUntil s'))"

lemma climb_step:
  assumes "0 \<le> hs_ThrottleStreak s" "hs_ThrottleStreak s < 5" "Minute \<le> fb" "0 \<le> now"
    and "hs_ThrottledUntil s = now \<or> hs_ThrottleStreak s = 0 \<and> hs_ThrottledUntil s \<le> now"
  shows "\<exists>s'. climb (Suc n) fb (s, now) = climb n fb (s', now + ladderStep (hs_ThrottleStreak s + 1)) \<and>
     hs_ThrottleStreak s' = hs_ThrottleStreak s + 1 \<and> hs_ThrottledUntil s' = now + ladderStep (hs_ThrottleStreak s + 1)"
proof -
  have fb: "0 < fb" using assms(3) by (simp add: go_time)
  have le: "ladderStep (hs_ThrottleStreak s + 1) \<le> fb" using assms(3) by (auto simp: ladderStep_def go_time)
  have "hs_ThrottledUntil s \<le> now"
    "hs_ThrottleStreak s = 0 \<or> now - hs_ThrottledUntil s < requestRateStreakDecay"
    using assms(5) by (auto simp: go_time)
  from throttle_next_step [OF assms(1,2) fb assms(4) this]
  show ?thesis using le by (auto simp: Let_def min_def intro!: exI [of _ "snd (throttle s now 0 fb)"])
qed

lemma climb_run:
  assumes "hs_ThrottleStreak s = int j" "j + n \<le> 5" "Minute \<le> fb" "0 \<le> now"
    and "hs_ThrottledUntil s = now \<or> hs_ThrottleStreak s = 0 \<and> hs_ThrottledUntil s \<le> now"
  shows "\<exists>s'. climb n fb (s, now) = (s', now + sum_list (map (\<lambda>i. ladderStep (int i)) [Suc j..<Suc (j + n)])) \<and>
     hs_ThrottleStreak s' = int (j + n) \<and>
     (n \<noteq> 0 \<longrightarrow> hs_ThrottledUntil s' = now + sum_list (map (\<lambda>i. ladderStep (int i)) [Suc j..<Suc (j + n)]))"
  using assms
proof (induction n arbitrary: s j now)
  case (Suc n)
  let ?d = "ladderStep (int (Suc j))"
  obtain s1 where s1: "climb (Suc n) fb (s, now) = climb n fb (s1, now + ?d)" "hs_ThrottleStreak s1 = int (Suc j)"
    "hs_ThrottledUntil s1 = now + ?d"
    using climb_step [of s fb now n] Suc.prems by (auto simp: add.commute)
  have upt: "[Suc j..<Suc (j + Suc n)] = Suc j # [Suc (Suc j)..<Suc (Suc j + n)]" by (simp add: upt_conv_Cons)
  have "0 \<le> ?d" by (simp add: ladderStep_def go_time)
  then obtain s' where "climb n fb (s1, now + ?d) = (s', now + ?d + sum_list (map (\<lambda>i. ladderStep (int i)) [Suc (Suc j)..<Suc (Suc j + n)]))"
    "hs_ThrottleStreak s' = int (Suc j + n)"
    "n \<noteq> 0 \<longrightarrow> hs_ThrottledUntil s' = now + ?d + sum_list (map (\<lambda>i. ladderStep (int i)) [Suc (Suc j)..<Suc (Suc j + n)])"
    using Suc.IH [of s1 "Suc j" "now + ?d"] s1 Suc.prems by auto
  with s1 show ?case unfolding upt by (cases n) (auto simp del: upt_Suc)
qed auto

text \<open>
  The request-rate ladder: a fresh account that meets a short 429 each time its throttle ends
  is throttled five times, for 5, 10, 20, 40 and 60 seconds, and the sixth one escalates to an
  exhaustion and clears the throttle.
\<close>

theorem ladder_climbs_then_escalates:
  assumes "hs_ThrottleStreak s = 0" "hs_ThrottledUntil s \<le> now" "0 \<le> now" "Minute \<le> fb"
  shows "\<exists>s5. climb 5 fb (s, now) = (s5, now + 135 * Second) \<and>
     throttle s5 (now + 135 * Second) 0 fb = (True, clearThrottle s5)"
proof -
  have total: "sum_list (map (\<lambda>i. ladderStep (int i)) [Suc 0..<Suc (0 + 5)]) = 135 * Second"
    by (simp add: ladderStep_def upt_rec go_time)
  obtain s5 where s5: "climb 5 fb (s, now) = (s5, now + 135 * Second)" "hs_ThrottleStreak s5 = 5"
    "hs_ThrottledUntil s5 = now + 135 * Second"
    using climb_run [of s 0 5 fb now] assms unfolding total by auto
  have "throttle s5 (now + 135 * Second) 0 fb = (True, clearThrottle s5)"
    by (rule throttle_last_step) (use s5 in \<open>simp_all add: go_time\<close>)
  then show ?thesis using s5(1) by blast
qed

theorem ladder_witness:
  "\<exists>s5. climb 5 (10 * Minute) (zero_healthState, Hour) = (s5, Hour + 135 * Second) \<and>
     throttle s5 (Hour + 135 * Second) 0 (10 * Minute) = (True, clearThrottle s5)"
  by (rule ladder_climbs_then_escalates) (simp_all add: zero_healthState_def go_time)

text \<open>
  A restart keeps the blocks: what is written at \<open>now\<close> and read back at a later instant
  suspends the account, or exhausts it, exactly as long as the state in memory would have.
\<close>

theorem restart_keeps_blocks:
  assumes "0 \<le> now" "now \<le> later"
  shows "After (hs_SuspendedUntil (restorePersistedHealth (fst (persistedHealth s now)) later)) later =
           After (hs_SuspendedUntil s) later \<and>
         After (hs_ExhaustedUntil (restorePersistedHealth (fst (persistedHealth s now)) later)) later =
           After (hs_ExhaustedUntil s) later \<and>
         (snd (persistedHealth s now) \<longleftrightarrow> max (hs_SuspendedUntil s) (hs_ExhaustedUntil s) > now)"
proof -
  have "0 \<le> later" using assms by simp
  note r = persisted_restore_suspended [OF this assms(2), of s] persisted_restore_exhausted [OF this assms(2), of s]
  have "snd (persistedHealth s now) \<longleftrightarrow> max (hs_SuspendedUntil s) (hs_ExhaustedUntil s) > now"
    using assms(1) by (auto simp: persistedHealth_def Let_def zero_persistedHealth_def)
  with r \<open>0 \<le> later\<close> show ?thesis by auto
qed

theorem restart_witness:
  "After (hs_SuspendedUntil (restorePersistedHealth
     (fst (persistedHealth (zero_healthState\<lparr>hs_SuspendedUntil := 100\<rparr>) 10)) 50)) 50"
  using restart_keeps_blocks [of 10 50 "zero_healthState\<lparr>hs_SuspendedUntil := 100\<rparr>"] by simp

end
