(* ===== verification/Failures.thy ===== *)
theory Failures
  imports Health
begin

text \<open>
  \<^verbatim>\<open>internal/providers/zai/failures.go\<close>: which 429 responses are short request-rate limits,
  and the search for a reset hint in the headers and the body of a failed response. Hints are
  untrusted input; the lemmas bound every one that is accepted.
\<close>

section \<open>Definitions\<close>

definition maxFailureBodyBytes :: nat where "maxFailureBodyBytes = 16384"
definition maxResetHintLength :: nat where "maxResetHintLength = 256"
definition maxResetHintFuture :: duration where [go_time]: "maxResetHintFuture = 8 * Day"

definition transientRateLimitCodes :: "string list" where
  "transientRateLimitCodes = [''1302'', ''1305'']"

definition resetHeaderNames :: "string list" where
  "resetHeaderNames = [''Retry-After'', ''X-RateLimit-Reset'', ''X-Rate-Limit-Reset'', ''RateLimit-Reset'']"

definition resetBodyKeys :: "string list" where
  "resetBodyKeys = [''retryafter'', ''retryafterms'', ''reset'', ''resetat'', ''resettime'',
     ''nextresettime'', ''ratelimitreset'']"

definition normalizeResetKey :: "string \<Rightarrow> string" where
  "normalizeResetKey key =
     filter (\<lambda>c. c \<noteq> CHR ''_'' \<and> c \<noteq> CHR ''-'' \<and> c \<noteq> CHR ''.'' \<and> c \<noteq> CHR '' '') (ToLower (TrimSpace key))"

definition rateLimitReset :: "gotime \<Rightarrow> accountHealthState \<Rightarrow> duration \<Rightarrow> gotime \<times> string" where
  "rateLimitReset now state fallback =
     (if After (hs_CapacityResetAt state) now then (hs_CapacityResetAt state, ''authoritative quota reset'')
      else (now + fallback, ''conservative rate-limit cooldown''))"

definition transientRateLimit :: "golib \<Rightarrow> usageRecord \<Rightarrow> bool" where
  "transientRateLimit lib record =
     (let body = ur_Body record in
      if ur_StatusCode record \<noteq> 429 \<or> length body = 0 \<or> length body > maxFailureBodyBytes then False
      else case lib_decodeErrorCode lib body of
        Some (AnyString typed) \<Rightarrow> TrimSpace typed \<in> set transientRateLimitCodes
      | Some (AnyNumber typed) \<Rightarrow> typed \<in> set transientRateLimitCodes
      | _ \<Rightarrow> False)"

definition validResetAt :: "gotime \<Rightarrow> gotime \<Rightarrow> gotime option" where
  "validResetAt resetAt now =
     (if \<not> After resetAt now \<or> After resetAt (now + maxResetHintFuture) then None else Some resetAt)"

definition parseRetryAfter :: "golib \<Rightarrow> string \<Rightarrow> gotime \<Rightarrow> gotime option" where
  "parseRetryAfter lib raw now =
     (let val = TrimSpace raw in
      if val = [] \<or> length val > maxResetHintLength then None
      else case ParseInt val of
        Some seconds \<Rightarrow>
          if seconds \<le> 0 \<or> seconds > go_quo maxResetHintFuture Second then None
          else validResetAt (now + wrap64 (seconds * Second)) now
      | None \<Rightarrow>
          (case lib_httpParseTime lib val of
             Some parsed \<Rightarrow> validResetAt parsed now
           | None \<Rightarrow> None))"

definition parseResetValue :: "golib \<Rightarrow> string \<Rightarrow> string \<Rightarrow> gotime \<Rightarrow> gotime option" where
  "parseResetValue lib raw key now =
     (let val = TrimSpace raw in
      if val = [] \<or> length val > maxResetHintLength then None
      else case lib_parseRFC3339 lib val of
        Some parsed \<Rightarrow> validResetAt parsed now
      | None \<Rightarrow>
          (case ParseInt val of
             None \<Rightarrow> None
           | Some integer \<Rightarrow>
               if integer \<le> 0 then None
               else if key = ''retryafter'' then parseRetryAfter lib val now
               else if key = ''retryafterms'' then
                 (if integer > go_quo maxResetHintFuture Millisecond then None
                  else validResetAt (now + wrap64 (integer * Millisecond)) now)
               else if Contains key ''ms'' \<or> integer \<ge> 1000000000000 then
                 validResetAt (time_UnixMilli integer) now
               else if integer \<ge> 1000000000 then validResetAt (time_Unix integer) now
               else if integer \<le> go_quo maxResetHintFuture Second then
                 validResetAt (now + wrap64 (integer * Second)) now
               else None))"

text \<open>A JSON number reaches this point as a literal, since the decoder runs with \<open>UseNumber\<close>.\<close>

definition parseBodyResetValue :: "golib \<Rightarrow> goany \<Rightarrow> string \<Rightarrow> gotime \<Rightarrow> gotime option" where
  "parseBodyResetValue lib val key now =
     (case val of
        AnyNumber typed \<Rightarrow> parseResetValue lib typed key now
      | AnyString typed \<Rightarrow> parseResetValue lib typed key now
      | _ \<Rightarrow> None)"

fun findResetValue :: "golib \<Rightarrow> goany \<Rightarrow> gotime \<Rightarrow> nat \<Rightarrow> (gotime \<times> string) option"
and findResetMap :: "golib \<Rightarrow> (string \<times> goany) list \<Rightarrow> gotime \<Rightarrow> nat \<Rightarrow> (gotime \<times> string) option"
and findResetSlice :: "golib \<Rightarrow> goany list \<Rightarrow> gotime \<Rightarrow> nat \<Rightarrow> (gotime \<times> string) option" where
  "findResetValue lib (AnyMap typed) now depth =
     (if depth > 6 then None else findResetMap lib typed now depth)"
| "findResetValue lib (AnySlice typed) now depth =
     (if depth > 6 then None else findResetSlice lib typed now depth)"
| "findResetValue lib _ now depth = None"
| "findResetMap lib [] now depth = None"
| "findResetMap lib ((key, item) # rest) now depth =
     (let normalized = normalizeResetKey key;
          direct = (if normalized \<in> set resetBodyKeys then parseBodyResetValue lib item normalized now else None)
      in case direct of
           Some resetAt \<Rightarrow> Some (resetAt, ''rate-limit response body'')
         | None \<Rightarrow>
             (case findResetValue lib item now (depth + 1) of
                Some r \<Rightarrow> Some r
              | None \<Rightarrow> findResetMap lib rest now depth))"
| "findResetSlice lib [] now depth = None"
| "findResetSlice lib (item # rest) now depth =
     (case findResetValue lib item now (depth + 1) of
        Some r \<Rightarrow> Some r
      | None \<Rightarrow> findResetSlice lib rest now depth)"

text \<open>\<open>http.Header.Values\<close> looks the canonical form of the name up.\<close>

fun canonicalLetters :: "bool \<Rightarrow> string \<Rightarrow> string" where
  "canonicalLetters upper [] = []"
| "canonicalLetters upper (c # cs) =
     (if upper then upper_char c else lower_char c) # canonicalLetters (c = CHR ''-'') cs"

definition headerValues :: "(string, string list) gomap \<Rightarrow> string \<Rightarrow> string list" where
  "headerValues headers name = mget_or [] headers (canonicalLetters True name)"

fun firstHint :: "(string \<Rightarrow> gotime option) \<Rightarrow> string \<Rightarrow> string list \<Rightarrow> (gotime \<times> string) option" where
  "firstHint parse reason [] = None"
| "firstHint parse reason (v # vs) =
     (case parse v of Some resetAt \<Rightarrow> Some (resetAt, reason) | None \<Rightarrow> firstHint parse reason vs)"

fun headerHint :: "golib \<Rightarrow> (string, string list) gomap \<Rightarrow> gotime \<Rightarrow> string list \<Rightarrow> (gotime \<times> string) option" where
  "headerHint lib headers now [] = None"
| "headerHint lib headers now (name # names) =
     (case (if name = ''Retry-After''
            then firstHint (\<lambda>v. parseRetryAfter lib v now) ''retry-after header'' (headerValues headers name)
            else firstHint (\<lambda>v. parseResetValue lib v name now) (ToLower name @ '' header'') (headerValues headers name)) of
        Some r \<Rightarrow> Some r
      | None \<Rightarrow> headerHint lib headers now names)"

definition parseRateLimitHint :: "golib \<Rightarrow> usageRecord \<Rightarrow> gotime \<Rightarrow> (gotime \<times> string) option" where
  "parseRateLimitHint lib record now =
     (case headerHint lib (ur_ResponseHeaders record) now resetHeaderNames of
        Some r \<Rightarrow> Some r
      | None \<Rightarrow>
          let body = ur_Body record in
          if length body = 0 \<or> length body > maxFailureBodyBytes then None
          else case lib_decodeAny lib body of
            None \<Rightarrow> None
          | Some val \<Rightarrow> findResetValue lib val now 0)"

section \<open>Every accepted hint is bounded\<close>

definition hint_ok :: "gotime \<Rightarrow> gotime \<Rightarrow> bool" where
  "hint_ok now t \<longleftrightarrow> now < t \<and> t \<le> now + maxResetHintFuture"

lemma validResetAt_ok: "validResetAt t now = Some u \<Longrightarrow> u = t \<and> hint_ok now u"
  by (auto simp: validResetAt_def hint_ok_def split: if_splits)

lemma parseRetryAfter_ok: "parseRetryAfter lib raw now = Some u \<Longrightarrow> hint_ok now u"
  by (auto simp: parseRetryAfter_def Let_def split: if_splits option.splits dest: validResetAt_ok)

lemma parseResetValue_ok: "parseResetValue lib raw key now = Some u \<Longrightarrow> hint_ok now u"
  by (auto simp: parseResetValue_def Let_def split: if_splits option.splits
      dest: validResetAt_ok parseRetryAfter_ok)

lemma parseBodyResetValue_ok: "parseBodyResetValue lib v key now = Some u \<Longrightarrow> hint_ok now u"
  by (auto simp: parseBodyResetValue_def split: goany.splits dest: parseResetValue_ok)

lemma findReset_ok:
  "findResetValue lib v now depth = Some (u, r) \<Longrightarrow> hint_ok now u \<and> r = ''rate-limit response body''"
  "findResetMap lib kvs now depth = Some (u, r) \<Longrightarrow> hint_ok now u \<and> r = ''rate-limit response body''"
  "findResetSlice lib vs now depth = Some (u, r) \<Longrightarrow> hint_ok now u \<and> r = ''rate-limit response body''"
  by (induction lib v now depth and lib kvs now depth and lib vs now depth
      rule: findResetValue_findResetMap_findResetSlice.induct)
    (auto simp: Let_def split: if_splits option.splits dest: parseBodyResetValue_ok)

text \<open>The reasons a hint can carry: a closed vocabulary.\<close>

definition hintReasons :: "string list" where
  "hintReasons = [''retry-after header'', ''x-ratelimit-reset header'', ''x-rate-limit-reset header'',
     ''ratelimit-reset header'', ''rate-limit response body'']"

lemma firstHint_ok:
  assumes "firstHint parse reason vs = Some (u, r)" and "\<And>v u. parse v = Some u \<Longrightarrow> hint_ok now u"
  shows "hint_ok now u \<and> r = reason"
  using assms by (induction vs) (auto split: option.splits)

lemma headerHint_ok:
  "headerHint lib headers now names = Some (u, r) \<Longrightarrow>
     hint_ok now u \<and> (\<exists>n \<in> set names. r = ToLower n @ '' header'')"
proof (induction names)
  case (Cons n names)
  have retry: "ToLower ''Retry-After'' @ '' header'' = ''retry-after header''"
    by code_simp
  show ?case
  proof (cases "n = ''Retry-After''")
    case True
    with Cons retry show ?thesis
      by (auto split: option.splits dest!: firstHint_ok [where now = now] intro: parseRetryAfter_ok)
  next
    case False
    with Cons show ?thesis
      by (auto split: option.splits dest!: firstHint_ok [where now = now] intro: parseResetValue_ok)
  qed
qed simp

lemma parseRateLimitHint_ok:
  assumes "parseRateLimitHint lib rec now = Some (u, r)"
  shows "hint_ok now u \<and> r \<in> set hintReasons"
proof -
  have names: "\<forall>n \<in> set resetHeaderNames. ToLower n @ '' header'' \<in> set hintReasons"
    by code_simp
  show ?thesis
  proof (cases "headerHint lib (ur_ResponseHeaders rec) now resetHeaderNames")
    case None
    then obtain val where "findResetValue lib val now 0 = Some (u, r)"
      using assms by (auto simp: parseRateLimitHint_def Let_def split: option.splits if_splits)
    then show ?thesis using findReset_ok(1) by (fastforce simp: hintReasons_def)
  next
    case (Some p)
    then have "headerHint lib (ur_ResponseHeaders rec) now resetHeaderNames = Some (u, r)"
      using assms by (simp add: parseRateLimitHint_def)
    then obtain n where "hint_ok now u" "n \<in> set resetHeaderNames" "r = ToLower n @ '' header''"
      using headerHint_ok by blast
    with names show ?thesis by blast
  qed
qed

lemma transientRateLimit_sound:
  assumes "transientRateLimit lib rec"
  shows "ur_StatusCode rec = 429 \<and> 0 < length (ur_Body rec) \<and> length (ur_Body rec) \<le> maxFailureBodyBytes \<and>
    (\<exists>code \<in> {''1302'', ''1305''}. \<exists>v. lib_decodeErrorCode lib (ur_Body rec) = Some v \<and>
       (v = AnyNumber code \<or> (\<exists>s. v = AnyString s \<and> TrimSpace s = code)))"
  using assms
  by (auto simp: transientRateLimit_def Let_def transientRateLimitCodes_def split: option.splits goany.splits if_splits)

lemma rateLimitReset_future:
  "0 < fallback \<Longrightarrow> now < fst (rateLimitReset now s fallback)"
  by (simp add: rateLimitReset_def)

end
