(* ===== verification/Persist.thy ===== *)
theory Persist
  imports Failures
begin

text \<open>
  The persisted state of the Z.ai module and its validation, from
  \<^verbatim>\<open>internal/providers/zai/settings.go\<close>. \<open>saveState\<close> refuses to write a state that does
  not validate, and \<open>loadStateAt\<close> refuses to read one, so an operation that breaks
  validity stops persistence for every account; the lemmas give the operations that keep it.
\<close>

section \<open>Definitions\<close>

definition maxPersistedClockSkew :: duration where [go_time]: "maxPersistedClockSkew = 5 * Minute"
definition persistedStateVersion :: int where "persistedStateVersion = 2"
definition legacyPersistedStateVersion :: int where "legacyPersistedStateVersion = 1"

record persistedState =
  ps_Version :: int
  ps_Accounts :: "(string, accountQuotaState) gomap"
  ps_Health :: "(string, persistedHealthState) gomap"
  ps_Generation :: "64 word"
  ps_RuntimeGeneration :: "64 word"

definition is_hex :: "char \<Rightarrow> bool" where
  "is_hex c \<longleftrightarrow> (let n = of_char c :: nat in
     (48 \<le> n \<and> n \<le> 57) \<or> (97 \<le> n \<and> n \<le> 102) \<or> (65 \<le> n \<and> n \<le> 70))"

text \<open>\<open>hex.DecodeString\<close> succeeds on an even number of hexadecimal digits.\<close>

definition hexDecodes :: "string \<Rightarrow> bool" where
  "hexDecodes s \<longleftrightarrow> even (length s) \<and> list_all is_hex s"

definition validateAccountIdentity :: "string \<Rightarrow> unit result" where
  "validateAccountIdentity identity =
     (if length identity \<noteq> 64 then Inl (Msg ''state.json contains invalid account identity'')
      else if \<not> hexDecodes identity then Inl (Msg ''state.json contains invalid account identity'')
      else Inr ())"

definition validatePersistedHealthState :: "persistedHealthState \<Rightarrow> unit result" where
  "validatePersistedHealthState state =
     (if \<not> IsZero (ph_SuspendedUntil state) \<and>
         (time_Year (ph_SuspendedUntil state) < 2000 \<or> time_Year (ph_SuspendedUntil state) > 9999)
      then Inl (Msg ''invalid suspension time'')
      else if \<not> IsZero (ph_ExhaustedUntil state) \<and>
         (time_Year (ph_ExhaustedUntil state) < 2000 \<or> time_Year (ph_ExhaustedUntil state) > 9999)
      then Inl (Msg ''invalid exhaustion time'')
      else if \<not> IsZero (ph_ExhaustedUntil state) \<and> TrimSpace (ph_ExhaustedReason state) = []
      then Inl (Msg ''missing exhaustion reason'')
      else if length (ph_ExhaustedReason state) > 96 then Inl (Msg ''invalid exhaustion reason'')
      else Inr ())"

definition validWindow :: "quotaWindow \<Rightarrow> gotime \<Rightarrow> bool" where
  "validWindow window observedAt \<longleftrightarrow>
     \<not> (qw_ConsumedMicrocredits window < 0 \<or> qw_BucketMicrocredits window \<le> 0 \<or>
        qw_ConsumedMicrocredits window > qw_BucketMicrocredits window) \<and>
     \<not> (\<not> IsZero (qw_ResetsAt window) \<and> \<not> After (qw_ResetsAt window) observedAt)"

definition validateAuthoritative :: "quotaSnapshot \<Rightarrow> gotime \<Rightarrow> unit result" where
  "validateAuthoritative a futureLimit =
     (if IsZero (sn_ObservedAt a) \<or> time_Year (sn_ObservedAt a) < 2000 \<or> After (sn_ObservedAt a) futureLimit
      then Inl (Msg ''invalid authoritative observation time'')
      else if length (sn_FiveHourError a) > 240 then Inl (Msg ''invalid authoritative quota'')
      else if sn_FiveHourError a \<noteq> [] \<and> sn_FiveHour a \<noteq> zero_quotaWindow
      then Inl (Msg ''invalid authoritative quota'')
      else let windows = (if sn_FiveHourError a = [] then [sn_Weekly a, sn_FiveHour a] else [sn_Weekly a])
           in if list_all (\<lambda>w. validWindow w (sn_ObservedAt a)) windows then Inr ()
              else Inl (Msg ''invalid authoritative quota''))"

text \<open>The loop over the events carries the instant of the previous one.\<close>

fun validateEvents :: "gotime \<Rightarrow> gotime \<Rightarrow> creditEvent list \<Rightarrow> bool" where
  "validateEvents futureLimit lastAt [] = True"
| "validateEvents futureLimit lastAt (event # rest) =
     (if IsZero (ce_At event) \<or> After (ce_At event) futureLimit \<or> ce_Microcredits event \<le> 0 \<or>
         normalizeModelName (ce_Model event) = [] \<or> (\<not> IsZero lastAt \<and> Before (ce_At event) lastAt)
      then False else validateEvents futureLimit (ce_At event) rest)"

definition validHash :: "string \<Rightarrow> bool" where
  "validHash hash \<longleftrightarrow> length hash = 64 \<and> hexDecodes hash"

definition validateAccountQuotaState :: "accountQuotaState \<Rightarrow> gotime \<Rightarrow> unit result" where
  "validateAccountQuotaState state now =
     (let futureLimit = now + maxPersistedClockSkew in
      if st_ConsecutiveFailures state < 0 \<or> length (st_DedupHashes state) > maxDedupHashes
      then Inl (Msg ''invalid polling metadata'')
      else case (case st_Authoritative state of None \<Rightarrow> Inr () | Some a \<Rightarrow> validateAuthoritative a futureLimit) of
        Inl e \<Rightarrow> Inl e
      | Inr _ \<Rightarrow>
          if \<not> validateEvents futureLimit 0 (st_Events state) then Inl (Msg ''invalid credit event'')
          else if \<not> list_all validHash (st_DedupHashes state) then Inl (Msg ''invalid dedup hash'')
          else Inr ())"

fun validateAccountStates :: "(string, accountQuotaState) gomap \<Rightarrow> gotime \<Rightarrow> unit result" where
  "validateAccountStates [] now = Inr ()"
| "validateAccountStates ((identity, s) # rest) now =
     (case validateAccountIdentity identity of
        Inl e \<Rightarrow> Inl e
      | Inr _ \<Rightarrow>
          (case validateAccountQuotaState s now of
             Inl _ \<Rightarrow> Inl (Msg ''state.json contains invalid account state'')
           | Inr _ \<Rightarrow> validateAccountStates rest now))"

fun validateHealthStates :: "(string, persistedHealthState) gomap \<Rightarrow> unit result" where
  "validateHealthStates [] = Inr ()"
| "validateHealthStates ((identity, h) # rest) =
     (case validateAccountIdentity identity of
        Inl e \<Rightarrow> Inl e
      | Inr _ \<Rightarrow>
          (case validatePersistedHealthState h of
             Inl _ \<Rightarrow> Inl (Msg ''state.json contains invalid health state'')
           | Inr _ \<Rightarrow> validateHealthStates rest))"

definition validatePersistedStateAt :: "persistedState \<Rightarrow> gotime \<Rightarrow> unit result" where
  "validatePersistedStateAt state now =
     (if ps_Version state = 0 \<and> length (ps_Accounts state) = 0 \<and> length (ps_Health state) = 0 then Inr ()
      else if ps_Version state \<noteq> legacyPersistedStateVersion \<and> ps_Version state \<noteq> persistedStateVersion
      then Inl (Msg ''state.json has unsupported version'')
      else if ps_Version state = legacyPersistedStateVersion \<and> length (ps_Health state) \<noteq> 0
      then Inl (Msg ''state.json has unsupported health data'')
      else case validateAccountStates (ps_Accounts state) now of
        Inl e \<Rightarrow> Inl e
      | Inr _ \<Rightarrow> validateHealthStates (ps_Health state))"

text \<open>\<open>saveState\<close>: validation, then the store; \<open>io\<close> is the outcome of \<open>WriteJSON\<close>.\<close>

definition saveState :: "persistedState \<Rightarrow> gotime \<Rightarrow> go_error option \<Rightarrow> unit result" where
  "saveState state now io =
     (case validatePersistedStateAt state now of
        Inl e \<Rightarrow> Inl e
      | Inr _ \<Rightarrow> (case io of None \<Rightarrow> Inr () | Some e \<Rightarrow> Inl e))"

section \<open>Validity as predicates\<close>

definition event_ok :: "gotime \<Rightarrow> creditEvent \<Rightarrow> bool" where
  "event_ok limit e \<longleftrightarrow> ce_At e \<noteq> 0 \<and> ce_At e \<le> limit \<and> 0 < ce_Microcredits e \<and> normalizeModelName (ce_Model e) \<noteq> []"

definition authoritative_ok :: "accountQuotaState \<Rightarrow> gotime \<Rightarrow> bool" where
  "authoritative_ok s limit \<longleftrightarrow>
     (case st_Authoritative s of None \<Rightarrow> True | Some a \<Rightarrow> validateAuthoritative a limit = Inr ())"

lemma validateEvents_iff:
  "validateEvents limit lastAt es \<longleftrightarrow>
     (\<forall>e \<in> set es. event_ok limit e) \<and> chronological es \<and>
     (lastAt = 0 \<or> (case es of [] \<Rightarrow> True | e # _ \<Rightarrow> lastAt \<le> ce_At e))"
proof (induction es arbitrary: lastAt)
  case (Cons e es)
  have hd: "chronological (e # es) \<longleftrightarrow> chronological es \<and> (case es of [] \<Rightarrow> True | f # _ \<Rightarrow> ce_At e \<le> ce_At f)"
    by (cases es) (auto simp: chronological_def)
  show ?case using Cons.IH [of "ce_At e"] hd by (auto simp: event_ok_def not_less)
qed (simp add: chronological_def)

lemma validateAccountQuotaState_iff:
  "validateAccountQuotaState s now = Inr () \<longleftrightarrow>
     0 \<le> st_ConsecutiveFailures s \<and> length (st_DedupHashes s) \<le> maxDedupHashes \<and>
     authoritative_ok s (now + maxPersistedClockSkew) \<and>
     (\<forall>e \<in> set (st_Events s). event_ok (now + maxPersistedClockSkew) e) \<and> chronological (st_Events s) \<and>
     (\<forall>h \<in> set (st_DedupHashes s). validHash h)"
  by (auto simp: validateAccountQuotaState_def Let_def authoritative_ok_def validateEvents_iff list_all_iff
      split: sum.splits option.splits)

lemma unit_result_iff: "(r :: unit result) = Inr u \<longleftrightarrow> (\<nexists>e. r = Inl e)"
  by (cases r) auto

lemma validateAccountStates_iff:
  "validateAccountStates m now = Inr () \<longleftrightarrow>
     (\<forall>(i, s) \<in> set m. validateAccountIdentity i = Inr () \<and> validateAccountQuotaState s now = Inr ())"
  by (induction m now rule: validateAccountStates.induct) (auto split: sum.splits)

lemma validateHealthStates_iff:
  "validateHealthStates m = Inr () \<longleftrightarrow>
     (\<forall>(i, h) \<in> set m. validateAccountIdentity i = Inr () \<and> validatePersistedHealthState h = Inr ())"
  by (induction m rule: validateHealthStates.induct) (auto split: sum.splits)

lemma validatePersistedStateAt_v2:
  "ps_Version st = persistedStateVersion \<Longrightarrow>
   validatePersistedStateAt st now = Inr () \<longleftrightarrow>
     validateAccountStates (ps_Accounts st) now = Inr () \<and> validateHealthStates (ps_Health st) = Inr ()"
  by (auto simp: validatePersistedStateAt_def persistedStateVersion_def legacyPersistedStateVersion_def split: sum.splits)

section \<open>Operations of the ledger keep validity\<close>

lemma validate_later:
  assumes "validateAccountQuotaState s now = Inr ()" "now \<le> later"
  shows "validateAccountQuotaState s later = Inr ()"
proof -
  have "authoritative_ok s (later + maxPersistedClockSkew)" if "authoritative_ok s (now + maxPersistedClockSkew)"
    using that assms(2) by (auto simp: authoritative_ok_def validateAuthoritative_def Let_def split: option.splits if_splits)
  moreover have "event_ok (later + maxPersistedClockSkew) e" if "event_ok (now + maxPersistedClockSkew) e" for e
    using that assms(2) by (auto simp: event_ok_def)
  ultimately show ?thesis using assms(1) by (simp add: validateAccountQuotaState_iff)
qed

lemma validate_compact:
  assumes "validateAccountQuotaState s now = Inr ()"
  shows "validateAccountQuotaState (compact s t ret) now = Inr ()"
proof -
  have c: "chronological (st_Events s)" using assms by (simp add: validateAccountQuotaState_iff)
  have "authoritative_ok (compact s t ret) l = authoritative_ok s l" for l
    by (simp add: authoritative_ok_def compact_other)
  then show ?thesis using assms
    by (auto simp: validateAccountQuotaState_iff compact_events [OF c] compact_dedup compact_other
        dest: in_set_dropD)
qed

lemma validate_addEvent:
  assumes "validateAccountQuotaState s now = Inr ()" "event_ok (now + maxPersistedClockSkew) e"
  shows "validateAccountQuotaState (addEvent s e) now = Inr ()"
proof -
  have "chronological (st_Events (addEvent s e))"
    using assms(1) addEvent_chronological by (simp add: validateAccountQuotaState_iff)
  moreover have "\<forall>f \<in> set (st_Events (addEvent s e)). event_ok (now + maxPersistedClockSkew) f"
    using assms set_addEvent [of s e] by (auto simp: validateAccountQuotaState_iff)
  moreover have "authoritative_ok (addEvent s e) l = authoritative_ok s l"
    "st_DedupHashes (addEvent s e) = st_DedupHashes s" "st_ConsecutiveFailures (addEvent s e) = st_ConsecutiveFailures s" for l
    by (simp_all add: authoritative_ok_def addEvent_def Let_def)
  ultimately show ?thesis using assms(1) by (simp add: validateAccountQuotaState_iff)
qed

lemma validate_seenDedup:
  assumes "validateAccountQuotaState s now = Inr ()" "validHash h"
  shows "validateAccountQuotaState (snd (seenDedup s h)) now = Inr ()"
proof -
  have "st_ConsecutiveFailures (snd (seenDedup s h)) = st_ConsecutiveFailures s"
    "authoritative_ok (snd (seenDedup s h)) l = authoritative_ok s l" for l
    by (simp_all add: seenDedup_def Let_def authoritative_ok_def)
  then show ?thesis using assms seenDedup_set [of s h] seenDedup_length [of s h]
    by (auto simp: validateAccountQuotaState_iff)
qed

lemma validate_flags:
  "validateAccountQuotaState (s\<lparr>st_DeliveryWarning := b\<rparr>) now = validateAccountQuotaState s now"
  "validateAccountQuotaState (s\<lparr>st_PersistenceWarning := b\<rparr>) now = validateAccountQuotaState s now"
  "validateAccountQuotaState (s\<lparr>st_UnknownModelWarning := b\<rparr>) now = validateAccountQuotaState s now"
  "validateAccountQuotaState (s\<lparr>st_CompleteSince := t\<rparr>) now = validateAccountQuotaState s now"
  by (simp_all add: validateAccountQuotaState_def Let_def)

lemma validate_zero: "validateAccountQuotaState zero_accountQuotaState now = Inr ()"
  by (simp add: validateAccountQuotaState_def zero_accountQuotaState_def Let_def)

lemma validate_positive: "validateAccountQuotaState s now = Inr () \<Longrightarrow> e \<in> set (st_Events s) \<Longrightarrow> 0 < ce_Microcredits e"
  by (auto simp: validateAccountQuotaState_iff event_ok_def)

end
