(* ===== verification/Runtime.thy ===== *)
theory Runtime
  imports Persist
begin

text \<open>
  The state machine of the Z.ai module, \<^verbatim>\<open>internal/providers/zai/runtime.go\<close>. The Go type
  guards its state with mutexes; each definition below is the work one call does while it holds
  them, and a call that releases the lock between two parts (a poll that fetches, a usage record
  that is written to disk afterwards) is two definitions, so that other calls can come in
  between. What the environment decides is an argument: the clock, the outcome of a fetch, the
  outcome of a write, and the error of closing a store.
\<close>

section \<open>State\<close>

text \<open>A \<open>*secureStore\<close>: \<open>sh_id\<close> is the identity of the pointer, \<open>sh_dir\<close> its directory.\<close>

record storeHandle =
  sh_id :: nat
  sh_dir :: string

record runtimeSnapshot =
  rs_Config :: pluginConfig
  rs_BaseAccounts :: "account list"
  rs_Accounts :: "account list"
  rs_Store :: "storeHandle option"
  rs_Quota :: "(string, accountQuotaState) gomap"
  rs_Health :: "(string, accountHealthState) gomap"
  rs_Routing :: "(string, 64 word) gomap"
  rs_byAuthID :: "(string, string) gomap"
  rs_byIdentity :: "(string, account) gomap"
  rs_Generation :: "64 word"

text \<open>
  \<open>rt_pollers\<close> are the poll loops whose context has not been cancelled, by account and
  generation; \<open>rt_disk\<close> is the \<^verbatim>\<open>state.json\<close> of each store directory; \<open>rt_closed\<close> are the
  store pointers that have been closed; \<open>rt_shutdown\<close> is the result of a finished shutdown.
\<close>

record pluginRuntime =
  rt_snapshot :: "runtimeSnapshot option"
  rt_lastErr :: "go_error option"
  rt_stopped :: bool
  rt_persistNext :: "64 word"
  rt_persisted :: "64 word"
  rt_pollers :: "(string \<times> 64 word) list"
  rt_disk :: "(string, persistedState) gomap"
  rt_closed :: "nat list"
  rt_shutdown :: "go_error option option"

definition initial_runtime :: pluginRuntime where
  "initial_runtime =
     \<lparr>rt_snapshot = None, rt_lastErr = None, rt_stopped = False, rt_persistNext = 0, rt_persisted = 0,
      rt_pollers = [], rt_disk = [], rt_closed = [], rt_shutdown = None\<rparr>"

section \<open>Persistence\<close>

definition persistenceSnapshotLocked :: "gotime \<Rightarrow> runtimeSnapshot \<Rightarrow> 64 word \<Rightarrow> persistedState" where
  "persistenceSnapshotLocked now sn gen =
     \<lparr>ps_Version = persistedStateVersion,
      ps_Accounts = rs_Quota sn,
      ps_Health = map (\<lambda>(identity, h). (identity, fst (persistedHealth h now)))
                    (filter (\<lambda>(identity, h). snd (persistedHealth h now)) (rs_Health sn)),
      ps_Generation = gen,
      ps_RuntimeGeneration = rs_Generation sn\<rparr>"

text \<open>Taking a persistence snapshot draws the next number of \<open>persistNext\<close>.\<close>

definition takeSnapshot :: "gotime \<Rightarrow> runtimeSnapshot \<Rightarrow> pluginRuntime \<Rightarrow> persistedState \<times> pluginRuntime" where
  "takeSnapshot now sn rt =
     (let gen = rt_persistNext rt + 1
      in (persistenceSnapshotLocked now sn gen, rt\<lparr>rt_persistNext := gen\<rparr>))"

definition markPersistenceFailure :: "persistedState \<Rightarrow> runtimeSnapshot \<Rightarrow> runtimeSnapshot" where
  "markPersistenceFailure state sn =
     sn\<lparr>rs_Quota := map (\<lambda>(identity, s).
          if identity \<in> set (mkeys (ps_Accounts state))
          then (identity, s\<lparr>st_PersistenceWarning := True, st_DeliveryWarning := True\<rparr>)
          else (identity, s)) (rs_Quota sn)\<rparr>"

text \<open>A write on a closed store fails before it reaches the disk.\<close>

definition storeIO :: "pluginRuntime \<Rightarrow> storeHandle \<Rightarrow> go_error option \<Rightarrow> go_error option" where
  "storeIO rt store io =
     (if sh_id store \<in> set (rt_closed rt) then Some (Msg ''secure store is not initialized'') else io)"

text \<open>After a failed directory sync the rename has happened: the new file is in place.\<close>

definition reachesDisk :: "unit result \<Rightarrow> bool" where
  "reachesDisk r \<longleftrightarrow> (case r of Inr _ \<Rightarrow> True | Inl (WriteErr WriteNeedsRecovery _) \<Rightarrow> True | _ \<Rightarrow> False)"

definition persistStateLocked ::
  "gotime \<Rightarrow> go_error option \<Rightarrow> storeHandle \<Rightarrow> persistedState \<Rightarrow> pluginRuntime \<Rightarrow> unit result \<times> pluginRuntime" where
  "persistStateLocked now io store state rt =
     (if ps_Generation state \<noteq> 0 \<and> ps_Generation state \<le> rt_persisted rt then (Inr (), rt)
      else
        let outcome = saveState state now (storeIO rt store io);
            rt1 = (if reachesDisk outcome then rt\<lparr>rt_disk := mput (sh_dir store) state (rt_disk rt)\<rparr> else rt)
        in case outcome of
          Inl e \<Rightarrow>
            (Inl (Wrapped ''persist quota state'' e),
             (case rt_snapshot rt1 of
                Some sn \<Rightarrow>
                  if rs_Generation sn = ps_RuntimeGeneration state \<and> rs_Store sn = Some store
                  then rt1\<lparr>rt_snapshot := Some (markPersistenceFailure state sn)\<rparr> else rt1
              | None \<Rightarrow> rt1))
        | Inr _ \<Rightarrow>
            (Inr (), if ps_Generation state \<noteq> 0 then rt1\<lparr>rt_persisted := ps_Generation state\<rparr> else rt1))"

section \<open>Health of an account\<close>

definition refreshCapacityLocked :: "string \<Rightarrow> gotime \<Rightarrow> runtimeSnapshot \<Rightarrow> accountHealthState \<times> runtimeSnapshot" where
  "refreshCapacityLocked identity now sn =
     (let state = mget_or zero_healthState (rs_Health sn) identity
      in case (mget (rs_Quota sn) identity, mget (rs_byIdentity sn) identity) of
           (Some quota, Some item) \<Rightarrow>
             let state' = quotaCapacityHealth state (view quota now item (rs_Config sn))
                            (cfg_ThresholdPercent (rs_Config sn))
             in (state', sn\<lparr>rs_Health := mput identity state' (rs_Health sn)\<rparr>)
         | _ \<Rightarrow> (state, sn))"

definition updateCapacity :: "64 word \<Rightarrow> string \<Rightarrow> capacityUpdate \<Rightarrow> pluginRuntime \<Rightarrow> bool \<times> pluginRuntime" where
  "updateCapacity generation identity upd rt =
     (case rt_snapshot rt of
        None \<Rightarrow> (False, rt)
      | Some sn \<Rightarrow>
          if rt_stopped rt \<or> rs_Generation sn \<noteq> generation then (False, rt)
          else case mget (rs_Health sn) identity of
            None \<Rightarrow> (False, rt)
          | Some state \<Rightarrow>
              (True, rt\<lparr>rt_snapshot := Some (sn\<lparr>rs_Health := mput identity
                 (state\<lparr>hs_CapacityExhausted := cu_Exhausted upd, hs_CapacityResetAt := cu_ResetAt upd,
                        hs_CapacitySource := boundedHealthReason (cu_Source upd)\<rparr>) (rs_Health sn)\<rparr>)\<rparr>))"

definition health_of :: "gotime \<Rightarrow> string \<Rightarrow> pluginRuntime \<Rightarrow> accountHealth option \<times> pluginRuntime" where
  "health_of now identity rt =
     (case rt_snapshot rt of
        None \<Rightarrow> (None, rt)
      | Some sn \<Rightarrow>
          if mget (rs_Health sn) identity = None then (None, rt)
          else let (state, sn') = refreshCapacityLocked identity now sn
               in (Some (assess state (mget_or zero_account (rs_byIdentity sn') identity) now),
                   rt\<lparr>rt_snapshot := Some sn'\<rparr>))"

section \<open>Usage records\<close>

definition usageDetailEmpty :: "usageDetail \<Rightarrow> bool" where
  "usageDetailEmpty d \<longleftrightarrow> ud_InputTokens d = 0 \<and> ud_OutputTokens d = 0 \<and> ud_CacheReadTokens d = 0 \<and>
     ud_CacheCreationTokens d = 0"

definition usageTimestamp :: "usageRecord \<Rightarrow> gotime \<Rightarrow> gotime" where
  "usageTimestamp record fallback = (if IsZero (ur_RequestedAt record) then fallback else ur_RequestedAt record)"

text \<open>The \<open>switch\<close> on the status code of a failed record.\<close>

definition failureHealth :: "golib \<Rightarrow> gotime \<Rightarrow> pluginConfig \<Rightarrow> usageRecord \<Rightarrow> accountHealthState \<Rightarrow> accountHealthState" where
  "failureHealth lib now cfg record health =
     (if ur_StatusCode record = 401 \<or> ur_StatusCode record = 403 then
        suspendUntil health (now + cfg_SuspendDuration cfg)
      else if ur_StatusCode record = 429 then
        let hint = parseRateLimitHint lib record now;
            short = (case hint of None \<Rightarrow> True | Some (resetAt, _) \<Rightarrow> \<not> After resetAt (now + requestRateBackoffCap));
            transient = (transientRateLimit lib record \<and> \<not> hs_CapacityExhausted health \<and> short);
            hintedAt = (case hint of None \<Rightarrow> 0 | Some (resetAt, _) \<Rightarrow> resetAt);
            (escalate, h1) = (if transient then throttle health now hintedAt (cfg_FallbackCooldown cfg) else (True, health));
            hint1 = (if transient \<and> escalate then None else hint)
        in if escalate then
             let (resetAt, reason) = (case hint1 of None \<Rightarrow> rateLimitReset now h1 (cfg_FallbackCooldown cfg) | Some r \<Rightarrow> r)
             in exhaustUntil h1 resetAt reason
           else h1
      else health)"

definition usageHealth :: "golib \<Rightarrow> gotime \<Rightarrow> usageRecord \<Rightarrow> string \<Rightarrow> runtimeSnapshot \<Rightarrow> runtimeSnapshot" where
  "usageHealth lib now record identity sn =
     (let health = mget_or zero_healthState (rs_Health sn) identity
      in if ur_Failed record then
           sn\<lparr>rs_Health := mput identity (failureHealth lib now (rs_Config sn) record health) (rs_Health sn)\<rparr>
         else if hs_ThrottleStreak health > 0 \<and> \<not> After (hs_ThrottledUntil health) now then
           sn\<lparr>rs_Health := mput identity (clearThrottle health) (rs_Health sn)\<rparr>
         else sn)"

definition usageQuota :: "golib \<Rightarrow> gotime \<Rightarrow> pluginConfig \<Rightarrow> usageRecord \<Rightarrow> accountQuotaState \<Rightarrow> accountQuotaState" where
  "usageQuota lib now cfg record state =
     (let s1 = (if IsZero (st_CompleteSince state) then state\<lparr>st_CompleteSince := now\<rparr> else state)
      in if ur_Failed record \<and> usageDetailEmpty (ur_Detail record) then s1\<lparr>st_DeliveryWarning := True\<rparr>
         else
           let eventAt = usageTimestamp record now
           in if After eventAt (now + maxPersistedClockSkew) then s1\<lparr>st_DeliveryWarning := True\<rparr>
              else
                let (seen, s2) = seenDedup s1 (usageDedupHash lib record)
                in if seen then s2
                   else case estimateUsageCredits record eventAt of
                     Inl _ \<Rightarrow> s2\<lparr>st_UnknownModelWarning := True, st_DeliveryWarning := True\<rparr>
                   | Inr estimate \<Rightarrow>
                       compact (addEvent s2 \<lparr>ce_At = eventAt, ce_Microcredits = ces_Microcredits estimate,
                                              ce_Model = ces_Model estimate\<rparr>)
                         now (cfg_StateRetention cfg))"

text \<open>
  The part of \<open>handleUsage\<close> under \<open>r.mu\<close>: it returns the write that is still to be done. The
  quota map of a published snapshot is never nil, so the guard is on the store.
\<close>

definition handleUsageLocked ::
  "golib \<Rightarrow> gotime \<Rightarrow> gotime \<Rightarrow> usageRecord \<Rightarrow> pluginRuntime \<Rightarrow>
     unit result \<times> pluginRuntime \<times> (storeHandle \<times> persistedState) option" where
  "handleUsageLocked lib now now' record rt =
     (case rt_snapshot rt of
        None \<Rightarrow> (Inl (Msg ''plugin is not configured''), rt, None)
      | Some sn \<Rightarrow>
          if rt_stopped rt then (Inl (Msg ''plugin is not configured''), rt, None)
          else
            let identity = mget_or [] (rs_byAuthID sn) (TrimSpace (ur_AuthID record))
            in if identity = [] then (Inr (), rt, None)
               else
                 let sn1 = usageHealth lib now record identity sn
                 in case rs_Store sn1 of
                      None \<Rightarrow> (Inr (), rt\<lparr>rt_snapshot := Some sn1\<rparr>, None)
                    | Some store \<Rightarrow>
                        let state = mget_or zero_accountQuotaState (rs_Quota sn1) identity;
                            state' = usageQuota lib now (rs_Config sn1) record state;
                            sn2 = sn1\<lparr>rs_Quota := mput identity state' (rs_Quota sn1)\<rparr>;
                            (_, sn3) = refreshCapacityLocked identity now sn2;
                            (persisted, rt') = takeSnapshot now' sn3 (rt\<lparr>rt_snapshot := Some sn3\<rparr>)
                        in (Inr (), rt', Some (store, persisted)))"

definition handleUsage ::
  "golib \<Rightarrow> gotime \<Rightarrow> gotime \<Rightarrow> go_error option \<Rightarrow> usageRecord \<Rightarrow> pluginRuntime \<Rightarrow> unit result \<times> pluginRuntime" where
  "handleUsage lib now now' io record rt =
     (case handleUsageLocked lib now now' record rt of
        (res, rt1, None) \<Rightarrow> (res, rt1)
      | (_, rt1, Some (store, persisted)) \<Rightarrow> persistStateLocked now' io store persisted rt1)"

section \<open>Polling\<close>

fun accountByIdentity :: "account list \<Rightarrow> string \<Rightarrow> account" where
  "accountByIdentity [] identity = zero_account"
| "accountByIdentity (item # rest) identity =
     (if acc_Identity item = identity then item else accountByIdentity rest identity)"

definition planLocked :: "account \<Rightarrow> bool" where
  "planLocked item \<longleftrightarrow> acc_planExplicit item \<or> acc_fiveHourCreditsExplicit item \<or> acc_weeklyCreditsExplicit item"

definition withPlan :: "string \<Rightarrow> creditBuckets \<Rightarrow> account \<Rightarrow> account" where
  "withPlan plan buckets item =
     item\<lparr>acc_Plan := plan, acc_FiveHourCredits := cb_FiveHour buckets, acc_WeeklyCredits := cb_Weekly buckets\<rparr>"

fun syncPlanLoop :: "account list \<Rightarrow> string \<Rightarrow> string \<Rightarrow> creditBuckets \<Rightarrow> bool \<times> account list" where
  "syncPlanLoop [] identity plan buckets = (False, [])"
| "syncPlanLoop (item # rest) identity plan buckets =
     (if acc_Identity item = identity then
        (if acc_Plan item = ''custom'' \<or> planLocked item then (False, item # rest)
         else if acc_Plan item \<noteq> plan then (True, withPlan plan buckets item # rest)
         else (False, item # rest))
      else let (changed, rest') = syncPlanLoop rest identity plan buckets in (changed, item # rest'))"

definition syncPlanFromUpstream :: "account list \<Rightarrow> string \<Rightarrow> string \<Rightarrow> bool \<times> account list" where
  "syncPlanFromUpstream accounts identity plan =
     (if plan = [] then (False, accounts)
      else case mget planBuckets plan of
        None \<Rightarrow> (False, accounts)
      | Some buckets \<Rightarrow> syncPlanLoop accounts identity plan buckets)"

definition formatQuotaDivergence :: "accountQuotaView \<Rightarrow> quotaSnapshot \<Rightarrow> string" where
  "formatQuotaDivergence vw authoritative =
     (let weekly = wrap64 (qw_ConsumedMicrocredits (sn_Weekly authoritative) - qw_ConsumedMicrocredits (vw_Weekly vw));
          fiveHour = wrap64 (qw_ConsumedMicrocredits (sn_FiveHour authoritative) - qw_ConsumedMicrocredits (vw_FiveHour vw))
      in if sn_FiveHourError authoritative \<noteq> []
         then boundedStatus (''weekly_microcredits='' @ Itoa weekly @ '' five_hour_error='' @ sn_FiveHourError authoritative)
         else boundedStatus (''five_hour_microcredits='' @ Itoa fiveHour @ '' weekly_microcredits='' @ Itoa weekly))"

definition pollQuota :: "gotime \<Rightarrow> runtimeSnapshot \<Rightarrow> string \<Rightarrow> quotaSnapshot result \<Rightarrow> accountQuotaState \<Rightarrow> accountQuotaState" where
  "pollQuota now sn identity fetched state =
     (let s0 = state\<lparr>st_LastPollAttempt := now\<rparr>
      in case fetched of
           Inl err \<Rightarrow> s0\<lparr>st_ConsecutiveFailures := wrap64 (st_ConsecutiveFailures s0 + 1),
                         st_LastPollError := boundedStatus (error_text err)\<rparr>
         | Inr snapshot \<Rightarrow>
             let s1 = (if st_Authoritative s0 = None
                       then s0\<lparr>st_LastSourceTransition := ''estimated_to_authoritative''\<rparr>
                       else s0\<lparr>st_LastDivergence := formatQuotaDivergence
                              (view s0 now (accountByIdentity (rs_Accounts sn) identity) (rs_Config sn)) snapshot\<rparr>)
             in s1\<lparr>st_Authoritative := Some snapshot, st_LastPollError := [], st_ConsecutiveFailures := 0\<rparr>)"

text \<open>A successful poll may carry the plan of the account; its buckets follow the plan.\<close>

definition pollPlanSync :: "string \<Rightarrow> quotaSnapshot result \<Rightarrow> runtimeSnapshot \<Rightarrow> runtimeSnapshot" where
  "pollPlanSync identity fetched sn =
     (case fetched of
        Inl _ \<Rightarrow> sn
      | Inr snapshot \<Rightarrow>
          let (changed, accounts) = syncPlanFromUpstream (rs_Accounts sn) identity (sn_Plan snapshot)
          in if changed
             then sn\<lparr>rs_Accounts := accounts,
                     rs_byIdentity := mput identity (accountByIdentity accounts identity) (rs_byIdentity sn)\<rparr>
             else sn)"

text \<open>
  \<open>pollOnce\<close> after the fetch, which ran without the lock: \<open>fetched\<close> is its outcome and
  \<open>parentDone\<close> whether the parent context was cancelled meanwhile.
\<close>

definition pollOnceLocked ::
  "gotime \<Rightarrow> gotime \<Rightarrow> bool \<Rightarrow> string \<Rightarrow> 64 word \<Rightarrow> quotaSnapshot result \<Rightarrow> pluginRuntime \<Rightarrow>
     unit result \<times> pluginRuntime \<times> (storeHandle \<times> persistedState) option" where
  "pollOnceLocked now now' parentDone identity generation fetched rt =
     (if isl fetched \<and> parentDone then (Inl Canceled, rt, None)
      else case rt_snapshot rt of
        None \<Rightarrow> (Inl Canceled, rt, None)
      | Some sn \<Rightarrow>
          if rt_stopped rt \<or> rs_Generation sn \<noteq> generation then (Inl Canceled, rt, None)
          else case mget (rs_Quota sn) identity of
            None \<Rightarrow> (Inr (), rt, None)
          | Some state \<Rightarrow>
              let state' = pollQuota now sn identity fetched state;
                  sn1 = pollPlanSync identity fetched sn;
                  sn2 = sn1\<lparr>rs_Quota := mput identity state' (rs_Quota sn1)\<rparr>;
                  (_, sn3) = refreshCapacityLocked identity now sn2;
                  (persisted, rt') = takeSnapshot now' sn3 (rt\<lparr>rt_snapshot := Some sn3\<rparr>)
              in ((case fetched of Inl e \<Rightarrow> Inl e | Inr _ \<Rightarrow> Inr ()), rt',
                  (case rs_Store sn3 of None \<Rightarrow> None | Some store \<Rightarrow> Some (store, persisted))))"

definition pollOnce ::
  "gotime \<Rightarrow> gotime \<Rightarrow> go_error option \<Rightarrow> bool \<Rightarrow> string \<Rightarrow> 64 word \<Rightarrow> quotaSnapshot result \<Rightarrow> pluginRuntime \<Rightarrow>
     unit result \<times> pluginRuntime" where
  "pollOnce now now' io parentDone identity generation fetched rt =
     (case pollOnceLocked now now' parentDone identity generation fetched rt of
        (res, rt1, None) \<Rightarrow> (res, rt1)
      | (res, rt1, Some (store, persisted)) \<Rightarrow>
          let (persistErr, rt2) = persistStateLocked now' io store persisted rt1
          in (case res of Inl e \<Rightarrow> Inl e | Inr _ \<Rightarrow> persistErr, rt2))"

definition pollFailureCount :: "string \<Rightarrow> pluginRuntime \<Rightarrow> int" where
  "pollFailureCount identity rt =
     (case rt_snapshot rt of
        None \<Rightarrow> 0
      | Some sn \<Rightarrow> st_ConsecutiveFailures (mget_or zero_accountQuotaState (rs_Quota sn) identity))"

definition defaultQuotaRefresh :: duration where [go_time]: "defaultQuotaRefresh = 2 * Minute"

definition maxPollInterval :: "duration \<Rightarrow> duration" where
  "maxPollInterval base = wrap64 (base + go_quo base 2)"

definition le_word :: "string \<Rightarrow> 64 word" where
  "le_word bytes = foldr (\<lambda>c acc. acc * 256 + of_nat (of_char c)) bytes 0"

unbundle bit_operations_syntax

definition jitterSeed :: "string \<Rightarrow> int \<Rightarrow> 64 word" where
  "jitterSeed identity attempt =
     (let seed = (if length identity \<ge> 16
                  then le_word (take 8 identity) XOR le_word (take 8 (drop 8 identity))
                  else foldl (\<lambda>s c. s * 131 + of_nat (of_char c)) 0 identity)
      in seed XOR (word_of_int attempt * 0x9e3779b97f4a7c15))"

definition jitteredPollInterval :: "duration \<Rightarrow> string \<Rightarrow> int \<Rightarrow> duration" where
  "jitteredPollInterval base identity attempt =
     (let b = (if base \<le> 0 then defaultQuotaRefresh else base);
          minimum = go_quo b 2;
          r = jitterSeed identity attempt mod word_of_int (b + 1)
      in wrap64 (minimum + sint r))"

definition pollBackoff :: "duration \<Rightarrow> int \<Rightarrow> duration" where
  "pollBackoff interval failures =
     (if failures \<le> 1 then interval
      else let shift = min (failures - 1) 4;
               delay = wrap64 (interval * 2 ^ nat shift)
           in if delay > 15 * Minute then 15 * Minute else delay)"

text \<open>One round of the loop of \<open>pollAccount\<close> after the poll: how long it sleeps.\<close>

definition pollDelay :: "duration \<Rightarrow> string \<Rightarrow> int \<Rightarrow> pluginRuntime \<Rightarrow> duration" where
  "pollDelay base identity attempt rt =
     (let delay = jitteredPollInterval base identity attempt;
          failures = pollFailureCount identity rt
      in if failures > 0 then pollBackoff delay failures else delay)"

section \<open>Publishing a snapshot\<close>

definition sameSecureStore :: "storeHandle option \<Rightarrow> storeHandle option \<Rightarrow> bool" where
  "sameSecureStore left right =
     (case (left, right) of (Some l, Some r) \<Rightarrow> sh_dir l = sh_dir r | _ \<Rightarrow> False)"

definition carryAccount :: "account list \<Rightarrow> account \<Rightarrow> account option" where
  "carryAccount live item =
     (case find (\<lambda>a. acc_Identity a = acc_Identity item) (rev live) of
        None \<Rightarrow> None
      | Some liveAccount \<Rightarrow>
          if acc_Plan liveAccount = ''custom'' \<or> planLocked liveAccount \<or> planLocked item then None
          else case mget planBuckets (acc_Plan liveAccount) of
            None \<Rightarrow> None
          | Some buckets \<Rightarrow> Some (withPlan (acc_Plan liveAccount) buckets item))"

definition carryForwardNamedPlans :: "runtimeSnapshot \<Rightarrow> runtimeSnapshot \<Rightarrow> runtimeSnapshot" where
  "carryForwardNamedPlans live staged =
     staged\<lparr>rs_Accounts := map (\<lambda>a. case carryAccount (rs_Accounts live) a of None \<Rightarrow> a | Some a' \<Rightarrow> a') (rs_Accounts staged),
            rs_byIdentity := foldl (\<lambda>m a. case carryAccount (rs_Accounts live) a of
                 None \<Rightarrow> m | Some a' \<Rightarrow> mput (acc_Identity a') a' m) (rs_byIdentity staged) (rs_Accounts staged)\<rparr>"

text \<open>Entries of the live map replace those of the staged map that the staged map already has.\<close>

definition carryEntries :: "(string, 'v) gomap \<Rightarrow> (string, 'v) gomap \<Rightarrow> (string, 'v) gomap" where
  "carryEntries live staged =
     map (\<lambda>(identity, v). (identity, mget_or v live identity)) staged"

definition closeStore :: "storeHandle option \<Rightarrow> pluginRuntime \<Rightarrow> pluginRuntime" where
  "closeStore store rt =
     (case store of None \<Rightarrow> rt | Some s \<Rightarrow> rt\<lparr>rt_closed := List.insert (sh_id s) (rt_closed rt)\<rparr>)"

definition pollersFor :: "runtimeSnapshot \<Rightarrow> (string \<times> 64 word) list" where
  "pollersFor sn =
     map (\<lambda>item. (acc_Identity item, rs_Generation sn)) (filter (\<lambda>item. \<not> acc_Disabled item) (rs_Accounts sn))"

definition prepareStaged :: "runtimeSnapshot option \<Rightarrow> runtimeSnapshot \<Rightarrow> runtimeSnapshot" where
  "prepareStaged live staged =
     (case live of
        None \<Rightarrow> staged\<lparr>rs_Generation := 1\<rparr>
      | Some sn \<Rightarrow>
          let s1 = staged\<lparr>rs_Generation := rs_Generation sn + 1\<rparr>
          in if sameSecureStore (rs_Store sn) (rs_Store s1)
             then let s2 = carryForwardNamedPlans sn s1
                  in s2\<lparr>rs_Quota := carryEntries (rs_Quota sn) (rs_Quota s2),
                        rs_Health := carryEntries (rs_Health sn) (rs_Health s2),
                        rs_Store := rs_Store sn\<rparr>
             else s1)"

text \<open>
  \<open>commitSnapshotAfter\<close>: \<open>before\<close> is the result of the caller's \<open>beforeCommit\<close>,
  \<open>closeErr\<close> the error of closing the superseded store.
\<close>

definition commitSnapshotAfter ::
  "go_error option \<Rightarrow> go_error option \<Rightarrow> runtimeSnapshot \<Rightarrow> pluginRuntime \<Rightarrow> unit result \<times> pluginRuntime" where
  "commitSnapshotAfter before closeErr staged rt =
     (if rt_stopped rt then (Inl (Msg ''plugin is shutting down''), rt)
      else
        let previousStore = (case rt_snapshot rt of None \<Rightarrow> None | Some sn \<Rightarrow> rs_Store sn);
            staged1 = prepareStaged (rt_snapshot rt) staged;
            rt1 = (if rs_Store staged1 \<noteq> rs_Store staged then closeStore (rs_Store staged) rt else rt)
        in case before of
             Some err \<Rightarrow> (Inl err, rt1)
           | None \<Rightarrow>
               let staged2 = staged1\<lparr>rs_Routing := []\<rparr>;
                   rt2 = rt1\<lparr>rt_snapshot := Some staged2, rt_lastErr := None, rt_pollers := pollersFor staged2\<rparr>
               in if previousStore \<noteq> None \<and> previousStore \<noteq> rs_Store staged2
                  then (case closeErr of None \<Rightarrow> Inr () | Some e \<Rightarrow> Inl (Wrapped ''close superseded secure store'' e),
                        closeStore previousStore rt2)
                  else (Inr (), rt2))"

definition commitSnapshot :: "go_error option \<Rightarrow> runtimeSnapshot \<Rightarrow> pluginRuntime \<Rightarrow> unit result \<times> pluginRuntime" where
  "commitSnapshot closeErr staged rt = commitSnapshotAfter None closeErr staged rt"

section \<open>Shutdown\<close>

definition shutdown ::
  "gotime \<Rightarrow> go_error option \<Rightarrow> go_error option \<Rightarrow> go_error option \<Rightarrow> pluginRuntime \<Rightarrow> go_error option \<times> pluginRuntime" where
  "shutdown now io flushErr closeErr rt =
     (case rt_shutdown rt of
        Some err \<Rightarrow> (err, rt)
      | None \<Rightarrow>
          if rt_stopped rt then (None, rt)
          else
            let rt1 = rt\<lparr>rt_stopped := True, rt_pollers := []\<rparr>
            in case rt_snapshot rt1 of
                 None \<Rightarrow> (None, rt1\<lparr>rt_shutdown := Some None\<rparr>)
               | Some sn \<Rightarrow>
                   let (persisted, rt2) = takeSnapshot now sn rt1
                   in case rs_Store sn of
                        None \<Rightarrow> (None, rt2\<lparr>rt_shutdown := Some None\<rparr>)
                      | Some store \<Rightarrow>
                          let due = (ps_Generation persisted = 0 \<or> ps_Generation persisted > rt_persisted rt2);
                              outcome = (if due then saveState persisted now (storeIO rt2 store io) else Inr ());
                              rt3 = (if due \<and> reachesDisk outcome
                                     then rt2\<lparr>rt_disk := mput (sh_dir store) persisted (rt_disk rt2)\<rparr> else rt2);
                              rt4 = (if due \<and> outcome = Inr () \<and> ps_Generation persisted \<noteq> 0
                                     then rt3\<lparr>rt_persisted := ps_Generation persisted\<rparr> else rt3);
                              err1 = (case outcome of Inl e \<Rightarrow> Some (Wrapped ''persist quota state'' e) | Inr _ \<Rightarrow> flushErr);
                              err2 = (case err1 of None \<Rightarrow> closeErr | Some e \<Rightarrow> Some e)
                          in (err2, (closeStore (Some store) rt4)\<lparr>rt_shutdown := Some err2\<rparr>))"

definition recordError :: "go_error \<Rightarrow> pluginRuntime \<Rightarrow> pluginRuntime" where
  "recordError err rt = (if rt_stopped rt then rt else rt\<lparr>rt_lastErr := Some err\<rparr>)"

definition current :: "pluginRuntime \<Rightarrow> runtimeSnapshot result" where
  "current rt =
     (case rt_snapshot rt of
        Some sn \<Rightarrow> Inr sn
      | None \<Rightarrow> (case rt_lastErr rt of Some e \<Rightarrow> Inl e | None \<Rightarrow> Inl (Msg ''plugin is not configured'')))"

definition validationStatus :: "pluginRuntime \<Rightarrow> string" where
  "validationStatus rt = (case rt_lastErr rt of None \<Rightarrow> [] | Some e \<Rightarrow> boundedStatus (error_text e))"

end
