(* ===== verification/RuntimeInv.thy ===== *)
theory RuntimeInv
  imports Runtime
begin

text \<open>
  What the operations of \<^verbatim>\<open>runtime.go\<close> keep. Three groups: the blocks of an account (a
  suspension or an exhaustion is never shortened, and a failure that must take the account out
  of rotation does), the validity of the state that is going to be persisted, and the numbering
  that keeps an older persistence snapshot from replacing a newer one on disk.
\<close>

section \<open>Frame facts\<close>

abbreviation health_at :: "runtimeSnapshot \<Rightarrow> string \<Rightarrow> accountHealthState" where
  "health_at sn i \<equiv> mget_or zero_healthState (rs_Health sn) i"

lemma refreshCapacity_frame [simp]:
  "rs_Config (snd (refreshCapacityLocked i now sn)) = rs_Config sn"
  "rs_Accounts (snd (refreshCapacityLocked i now sn)) = rs_Accounts sn"
  "rs_BaseAccounts (snd (refreshCapacityLocked i now sn)) = rs_BaseAccounts sn"
  "rs_Store (snd (refreshCapacityLocked i now sn)) = rs_Store sn"
  "rs_Quota (snd (refreshCapacityLocked i now sn)) = rs_Quota sn"
  "rs_Routing (snd (refreshCapacityLocked i now sn)) = rs_Routing sn"
  "rs_byAuthID (snd (refreshCapacityLocked i now sn)) = rs_byAuthID sn"
  "rs_byIdentity (snd (refreshCapacityLocked i now sn)) = rs_byIdentity sn"
  "rs_Generation (snd (refreshCapacityLocked i now sn)) = rs_Generation sn"
  by (simp_all add: refreshCapacityLocked_def Let_def split: option.splits)

lemma refreshCapacity_fst:
  "fst (refreshCapacityLocked i now sn) = health_at (snd (refreshCapacityLocked i now sn)) i"
  by (simp add: refreshCapacityLocked_def Let_def split: option.splits)

lemma refreshCapacity_other:
  "j \<noteq> i \<Longrightarrow> health_at (snd (refreshCapacityLocked i now sn)) j = health_at sn j"
  by (simp add: refreshCapacityLocked_def Let_def split: option.splits)

lemma refreshCapacity_same:
  "health_at (snd (refreshCapacityLocked i now sn)) i =
     (case (mget (rs_Quota sn) i, mget (rs_byIdentity sn) i) of
        (Some quota, Some item) \<Rightarrow>
           quotaCapacityHealth (health_at sn i) (view quota now item (rs_Config sn)) (cfg_ThresholdPercent (rs_Config sn))
      | _ \<Rightarrow> health_at sn i)"
  by (simp add: refreshCapacityLocked_def Let_def split: option.splits)

lemma refreshCapacity_blocks [simp]:
  "hs_SuspendedUntil (health_at (snd (refreshCapacityLocked i now sn)) j) = hs_SuspendedUntil (health_at sn j)"
  "hs_ExhaustedUntil (health_at (snd (refreshCapacityLocked i now sn)) j) = hs_ExhaustedUntil (health_at sn j)"
  "hs_ExhaustedReason (health_at (snd (refreshCapacityLocked i now sn)) j) = hs_ExhaustedReason (health_at sn j)"
  "hs_ThrottledUntil (health_at (snd (refreshCapacityLocked i now sn)) j) = hs_ThrottledUntil (health_at sn j)"
  "hs_ThrottleStreak (health_at (snd (refreshCapacityLocked i now sn)) j) = hs_ThrottleStreak (health_at sn j)"
  by (cases "j = i"; simp add: refreshCapacity_other refreshCapacity_same split: option.splits)+

lemma refreshCapacity_idem:
  "refreshCapacityLocked i now (snd (refreshCapacityLocked i now sn)) =
     (fst (refreshCapacityLocked i now sn), snd (refreshCapacityLocked i now sn))"
  by (auto simp: refreshCapacityLocked_def Let_def quotaCapacityHealth_idem mget_or_def split: option.splits)

lemma markPersistenceFailure_frame [simp]:
  "rs_Health (markPersistenceFailure st sn) = rs_Health sn"
  "rs_Config (markPersistenceFailure st sn) = rs_Config sn"
  "rs_byAuthID (markPersistenceFailure st sn) = rs_byAuthID sn"
  "rs_byIdentity (markPersistenceFailure st sn) = rs_byIdentity sn"
  "rs_Generation (markPersistenceFailure st sn) = rs_Generation sn"
  "rs_Store (markPersistenceFailure st sn) = rs_Store sn"
  by (simp_all add: markPersistenceFailure_def)

lemma takeSnapshot_simps [simp]:
  "fst (takeSnapshot now sn rt) = persistenceSnapshotLocked now sn (rt_persistNext rt + 1)"
  "snd (takeSnapshot now sn rt) = rt\<lparr>rt_persistNext := rt_persistNext rt + 1\<rparr>"
  by (simp_all add: takeSnapshot_def Let_def)

text \<open>What a write may change in memory: nothing, or the two warnings of the snapshot it came from.\<close>

lemma persistStateLocked_snapshot:
  assumes "persistStateLocked now io store state rt = (r, rt')"
  shows "rt_snapshot rt' = rt_snapshot rt \<or>
         (\<exists>sn. rt_snapshot rt = Some sn \<and> rt_snapshot rt' = Some (markPersistenceFailure state sn))"
  using assms by (auto simp: persistStateLocked_def Let_def split: if_splits sum.splits option.splits)

lemma persistStateLocked_frame:
  assumes "persistStateLocked now io store state rt = (r, rt')"
  shows "rt_stopped rt' = rt_stopped rt \<and> rt_pollers rt' = rt_pollers rt \<and> rt_closed rt' = rt_closed rt \<and>
         rt_persistNext rt' = rt_persistNext rt \<and> rt_lastErr rt' = rt_lastErr rt \<and> rt_shutdown rt' = rt_shutdown rt"
  using assms by (auto simp: persistStateLocked_def Let_def split: if_splits sum.splits option.splits)

section \<open>Blocks are never shortened\<close>

definition block_le :: "accountHealthState \<Rightarrow> accountHealthState \<Rightarrow> bool" where
  "block_le h h' \<longleftrightarrow> hs_SuspendedUntil h \<le> hs_SuspendedUntil h' \<and> hs_ExhaustedUntil h \<le> hs_ExhaustedUntil h'"

definition blocks_le :: "runtimeSnapshot \<Rightarrow> runtimeSnapshot \<Rightarrow> bool" where
  "blocks_le sn sn' \<longleftrightarrow> (\<forall>i. block_le (health_at sn i) (health_at sn' i))"

definition rt_blocks_le :: "pluginRuntime \<Rightarrow> pluginRuntime \<Rightarrow> bool" where
  "rt_blocks_le rt rt' \<longleftrightarrow>
     (case rt_snapshot rt of None \<Rightarrow> True
      | Some sn \<Rightarrow> (case rt_snapshot rt' of None \<Rightarrow> False | Some sn' \<Rightarrow> blocks_le sn sn'))"

lemma block_le_refl [simp]: "block_le h h"
  by (simp add: block_le_def)

lemma block_le_trans: "block_le a b \<Longrightarrow> block_le b c \<Longrightarrow> block_le a c"
  by (auto simp: block_le_def)

lemma blocks_le_refl [simp]: "blocks_le sn sn"
  by (simp add: blocks_le_def)

lemma rt_blocks_le_refl [simp]: "rt_blocks_le rt rt"
  by (simp add: rt_blocks_le_def split: option.splits)

lemma rt_blocks_le_trans: "rt_blocks_le a b \<Longrightarrow> rt_blocks_le b c \<Longrightarrow> rt_blocks_le a c"
  by (auto simp: rt_blocks_le_def blocks_le_def split: option.splits intro: block_le_trans)

lemma block_le_suspendUntil [simp]: "block_le h (suspendUntil h t)"
  using suspension.never_shortens [of h t] by (simp add: block_le_def)

lemma block_le_exhaustUntil [simp]: "block_le h (exhaustUntil h t r)"
  using exhaustion.never_shortens [of h t r] by (simp add: block_le_def)

lemma block_le_throttle: "block_le h h' \<Longrightarrow> block_le h (snd (throttle h' now t fb))"
  by (simp add: block_le_def)

lemma block_le_clearThrottle [simp]: "block_le h (clearThrottle h)"
  by (simp add: block_le_def)

lemma failureHealth_blocks: "block_le h (failureHealth lib now cfg rec h)"
proof -
  have "block_le h (exhaustUntil (snd (throttle h now u fb)) t r)" for u t r fb
    by (rule block_le_trans [OF block_le_throttle [OF block_le_refl] block_le_exhaustUntil])
  then show ?thesis
    by (simp add: failureHealth_def Let_def split_beta block_le_throttle)
qed

lemma usageHealth_frame [simp]:
  "rs_Config (usageHealth lib now rec i sn) = rs_Config sn"
  "rs_Store (usageHealth lib now rec i sn) = rs_Store sn"
  "rs_Quota (usageHealth lib now rec i sn) = rs_Quota sn"
  "rs_byAuthID (usageHealth lib now rec i sn) = rs_byAuthID sn"
  "rs_byIdentity (usageHealth lib now rec i sn) = rs_byIdentity sn"
  "rs_Generation (usageHealth lib now rec i sn) = rs_Generation sn"
  "rs_Accounts (usageHealth lib now rec i sn) = rs_Accounts sn"
  by (simp_all add: usageHealth_def Let_def)

lemma usageHealth_blocks: "blocks_le sn (usageHealth lib now rec i sn)"
  using failureHealth_blocks [of "health_at sn i" lib now "rs_Config sn" rec]
  by (auto simp: blocks_le_def usageHealth_def Let_def)

lemma blocks_le_cong:
  "(\<And>i. hs_SuspendedUntil (health_at a i) = hs_SuspendedUntil (health_at b i)) \<Longrightarrow>
   (\<And>i. hs_ExhaustedUntil (health_at a i) = hs_ExhaustedUntil (health_at b i)) \<Longrightarrow>
   blocks_le sn a \<longleftrightarrow> blocks_le sn b"
  by (simp add: blocks_le_def block_le_def)


text \<open>The snapshot a usage record of a managed account leaves in memory.\<close>

definition usageSnapshot :: "golib \<Rightarrow> gotime \<Rightarrow> usageRecord \<Rightarrow> string \<Rightarrow> runtimeSnapshot \<Rightarrow> runtimeSnapshot" where
  "usageSnapshot lib now record identity sn =
     (let sn1 = usageHealth lib now record identity sn
      in if rs_Store sn = None then sn1
         else snd (refreshCapacityLocked identity now
                (sn1\<lparr>rs_Quota := mput identity (usageQuota lib now (rs_Config sn) record
                       (mget_or zero_accountQuotaState (rs_Quota sn) identity)) (rs_Quota sn)\<rparr>)))"

abbreviation usageIdentity :: "runtimeSnapshot \<Rightarrow> usageRecord \<Rightarrow> string" where
  "usageIdentity sn record \<equiv> mget_or [] (rs_byAuthID sn) (TrimSpace (ur_AuthID record))"

lemma handleUsageLocked_managed:
  assumes "rt_snapshot rt = Some sn" "\<not> rt_stopped rt" "usageIdentity sn rec \<noteq> []"
  shows "handleUsageLocked lib now now' rec rt =
    (let sn' = usageSnapshot lib now rec (usageIdentity sn rec) sn
     in case rs_Store sn of
          None \<Rightarrow> (Inr (), rt\<lparr>rt_snapshot := Some sn'\<rparr>, None)
        | Some store \<Rightarrow>
            (Inr (), rt\<lparr>rt_snapshot := Some sn', rt_persistNext := rt_persistNext rt + 1\<rparr>,
             Some (store, persistenceSnapshotLocked now' sn' (rt_persistNext rt + 1))))"
  using assms
  by (cases "rs_Store sn") (simp_all add: handleUsageLocked_def usageSnapshot_def Let_def split_beta)

lemma handleUsageLocked_ignored:
  assumes "rt_snapshot rt = None \<or> rt_stopped rt \<or> usageIdentity (the (rt_snapshot rt)) rec = []"
  shows "\<exists>r. handleUsageLocked lib now now' rec rt = (r, rt, None)"
  using assms by (auto simp: handleUsageLocked_def Let_def split: option.splits)

lemma usageSnapshot_blocks: "blocks_le sn (usageSnapshot lib now rec i sn)"
  using usageHealth_blocks [of sn lib now rec i]
  by (simp add: usageSnapshot_def Let_def blocks_le_def block_le_def)

lemma handleUsageLocked_blocks:
  assumes "handleUsageLocked lib now now' rec rt = (r, rt', w)"
  shows "rt_blocks_le rt rt'"
proof (cases "rt_snapshot rt = None \<or> rt_stopped rt \<or> usageIdentity (the (rt_snapshot rt)) rec = []")
  case True
  then show ?thesis using handleUsageLocked_ignored [OF True, of lib now now'] assms by auto
next
  case False
  then obtain sn where sn: "rt_snapshot rt = Some sn" "\<not> rt_stopped rt" "usageIdentity sn rec \<noteq> []" by auto
  show ?thesis using assms usageSnapshot_blocks [of sn lib now rec]
    by (auto simp: handleUsageLocked_managed [OF sn] Let_def rt_blocks_le_def sn split: option.splits)
qed

lemma persistStateLocked_blocks:
  assumes "persistStateLocked now io store st rt = (r, rt')"
  shows "rt_blocks_le rt rt'"
  using persistStateLocked_snapshot [OF assms] by (auto simp: rt_blocks_le_def blocks_le_def split: option.splits)

text \<open>The snapshot a poll leaves in memory.\<close>

definition pollSnapshot :: "gotime \<Rightarrow> string \<Rightarrow> quotaSnapshot result \<Rightarrow> accountQuotaState \<Rightarrow> runtimeSnapshot \<Rightarrow> runtimeSnapshot" where
  "pollSnapshot now identity fetched state sn =
     (let sn1 = pollPlanSync identity fetched sn
      in snd (refreshCapacityLocked identity now
           (sn1\<lparr>rs_Quota := mput identity (pollQuota now sn identity fetched state) (rs_Quota sn)\<rparr>)))"

lemma pollPlanSync_frame [simp]:
  "rs_Config (pollPlanSync i f sn) = rs_Config sn"
  "rs_Store (pollPlanSync i f sn) = rs_Store sn"
  "rs_byAuthID (pollPlanSync i f sn) = rs_byAuthID sn"
  "rs_Generation (pollPlanSync i f sn) = rs_Generation sn"
  "rs_Quota (pollPlanSync i f sn) = rs_Quota sn"
  "rs_Health (pollPlanSync i f sn) = rs_Health sn"
  by (simp_all add: pollPlanSync_def split: sum.splits prod.splits)

lemma pollSnapshot_frame [simp]:
  "rs_Config (pollSnapshot now i f st sn) = rs_Config sn"
  "rs_Store (pollSnapshot now i f st sn) = rs_Store sn"
  "rs_byAuthID (pollSnapshot now i f st sn) = rs_byAuthID sn"
  "rs_Generation (pollSnapshot now i f st sn) = rs_Generation sn"
  "rs_Quota (pollSnapshot now i f st sn) = mput i (pollQuota now sn i f st) (rs_Quota sn)"
  by (simp_all add: pollSnapshot_def Let_def)

lemma pollSnapshot_blocks: "blocks_le sn (pollSnapshot now i f st sn)"
  by (simp add: blocks_le_def block_le_def pollSnapshot_def Let_def)

definition pollLive :: "bool \<Rightarrow> string \<Rightarrow> 64 word \<Rightarrow> quotaSnapshot result \<Rightarrow> pluginRuntime \<Rightarrow> (runtimeSnapshot \<times> accountQuotaState) option" where
  "pollLive parentDone identity generation fetched rt =
     (if isl fetched \<and> parentDone \<or> rt_stopped rt then None
      else case rt_snapshot rt of
        None \<Rightarrow> None
      | Some sn \<Rightarrow> if rs_Generation sn \<noteq> generation then None
                   else map_option (Pair sn) (mget (rs_Quota sn) identity))"

lemma pollOnceLocked_live:
  assumes "pollLive pd i g f rt = Some (sn, st)"
  shows "pollOnceLocked now now' pd i g f rt =
    (case f of Inl e \<Rightarrow> Inl e | Inr _ \<Rightarrow> Inr (),
     rt\<lparr>rt_snapshot := Some (pollSnapshot now i f st sn), rt_persistNext := rt_persistNext rt + 1\<rparr>,
     map_option (\<lambda>store. (store, persistenceSnapshotLocked now' (pollSnapshot now i f st sn) (rt_persistNext rt + 1))) (rs_Store sn))"
proof -
  have "rt_snapshot rt = Some sn" "\<not> (isl f \<and> pd)" "\<not> rt_stopped rt" "rs_Generation sn = g" "mget (rs_Quota sn) i = Some st"
    using assms by (auto simp: pollLive_def split: if_splits option.splits)
  then show ?thesis
    by (cases "rs_Store sn"; cases f) (simp_all add: pollOnceLocked_def pollSnapshot_def Let_def split_beta)
qed

lemma pollOnceLocked_dead:
  assumes "pollLive pd i g f rt = None"
  shows "\<exists>r. pollOnceLocked now now' pd i g f rt = (r, rt, None)"
  using assms by (auto simp: pollLive_def pollOnceLocked_def split: option.splits if_splits)

lemma pollOnceLocked_blocks:
  assumes "pollOnceLocked now now' pd i g f rt = (r, rt', w)"
  shows "rt_blocks_le rt rt'"
proof (cases "pollLive pd i g f rt")
  case None
  then show ?thesis using pollOnceLocked_dead [OF None, of now now'] assms by auto
next
  case (Some p)
  obtain sn st where p: "p = (sn, st)" by (cases p)
  then have "rt_snapshot rt = Some sn" using Some by (auto simp: pollLive_def split: if_splits option.splits)
  then show ?thesis using assms pollSnapshot_blocks
    by (auto simp: pollOnceLocked_live [OF Some [unfolded p]] rt_blocks_le_def)
qed

section \<open>Failures take an account out of rotation\<close>

lemma failureHealth_auth:
  "ur_StatusCode rec = 401 \<or> ur_StatusCode rec = 403 \<Longrightarrow>
     failureHealth lib now cfg rec h = suspendUntil h (now + cfg_SuspendDuration cfg)"
  by (auto simp: failureHealth_def)

lemma failureHealth_other:
  "ur_StatusCode rec \<notin> {401, 403, 429} \<Longrightarrow> failureHealth lib now cfg rec h = h"
  by (auto simp: failureHealth_def)

text \<open>Every result of a 429: a throttle that is in force, or an exhaustion with a named reason.\<close>

definition exhaustReasons :: "string list" where
  "exhaustReasons = hintReasons @ [''authoritative quota reset'', ''conservative rate-limit cooldown'']"

definition exhaustLimit :: "gotime \<Rightarrow> pluginConfig \<Rightarrow> accountHealthState \<Rightarrow> gotime" where
  "exhaustLimit now cfg h = max (hs_CapacityResetAt h) (now + max maxResetHintFuture (cfg_FallbackCooldown cfg))"

lemma rateLimitReset_ok:
  assumes "rateLimitReset now h1 (cfg_FallbackCooldown cfg) = (t, r)" "hs_CapacityResetAt h1 = hs_CapacityResetAt h"
  shows "(0 < cfg_FallbackCooldown cfg \<longrightarrow> now < t) \<and> t \<le> exhaustLimit now cfg h \<and> r \<in> set exhaustReasons"
  using assms by (auto simp: rateLimitReset_def exhaustLimit_def exhaustReasons_def split: if_splits)

lemma hint_exhaust_ok:
  assumes "parseRateLimitHint lib rec now = Some (t, r)"
  shows "now < t \<and> t \<le> exhaustLimit now cfg h \<and> r \<in> set exhaustReasons"
  using parseRateLimitHint_ok [OF assms] by (auto simp: hint_ok_def exhaustLimit_def exhaustReasons_def)

lemma failureHealth_429:
  assumes status: "ur_StatusCode rec = 429" and "0 \<le> now"
  shows "(\<exists>u. failureHealth lib now cfg rec h = snd (throttle h now u (cfg_FallbackCooldown cfg)) \<and>
             \<not> fst (throttle h now u (cfg_FallbackCooldown cfg)) \<and> u \<le> now + requestRateBackoffCap) \<or>
         (\<exists>h1 t r. failureHealth lib now cfg rec h = exhaustUntil h1 t r \<and>
             (h1 = h \<or> (\<exists>u. h1 = snd (throttle h now u (cfg_FallbackCooldown cfg)))) \<and>
             (0 < cfg_FallbackCooldown cfg \<longrightarrow> now < t) \<and> t \<le> exhaustLimit now cfg h \<and> r \<in> set exhaustReasons)"
proof -
  define fb where "fb = cfg_FallbackCooldown cfg"
  define hint where "hint = parseRateLimitHint lib rec now"
  define transient where "transient = (transientRateLimit lib rec \<and> \<not> hs_CapacityExhausted h \<and>
     (case hint of None \<Rightarrow> True | Some (resetAt, _) \<Rightarrow> \<not> After resetAt (now + requestRateBackoffCap)))"
  define u where "u = (case hint of None \<Rightarrow> 0 | Some (resetAt, _) \<Rightarrow> resetAt)"
  have f: "failureHealth lib now cfg rec h =
     (let (escalate, h1) = (if transient then throttle h now u fb else (True, h));
          hint1 = (if transient \<and> escalate then None else hint)
      in if escalate then let (resetAt, reason) = (case hint1 of None \<Rightarrow> rateLimitReset now h1 fb | Some r \<Rightarrow> r)
                          in exhaustUntil h1 resetAt reason
         else h1)"
    using status unfolding failureHealth_def Let_def transient_def u_def hint_def fb_def by simp
  show ?thesis
  proof (cases transient)
    case False
    obtain t r where tr: "(case hint of None \<Rightarrow> rateLimitReset now h fb | Some r \<Rightarrow> r) = (t, r)" by fastforce
    then have "failureHealth lib now cfg rec h = exhaustUntil h t r" using f False by simp
    moreover have "(0 < fb \<longrightarrow> now < t) \<and> t \<le> exhaustLimit now cfg h \<and> r \<in> set exhaustReasons"
      using tr rateLimitReset_ok [of now h cfg t r h] hint_exhaust_ok [of lib rec now t r cfg h]
      by (cases hint) (auto simp: fb_def hint_def)
    ultimately show ?thesis unfolding fb_def by blast
  next
    case True
    have u: "u \<le> now + requestRateBackoffCap"
      using True assms(2) by (auto simp: transient_def u_def go_time split: option.splits)
    show ?thesis
    proof (cases "fst (throttle h now u fb)")
      case False
      then have "failureHealth lib now cfg rec h = snd (throttle h now u fb)" using f True by (simp add: split_beta)
      then show ?thesis using False u unfolding fb_def by blast
    next
      case esc: True
      define h1 where "h1 = snd (throttle h now u fb)"
      obtain t r where tr: "rateLimitReset now h1 fb = (t, r)" by fastforce
      have "failureHealth lib now cfg rec h = exhaustUntil h1 t r"
        using f True esc tr by (simp add: split_beta h1_def)
      moreover have "(0 < fb \<longrightarrow> now < t) \<and> t \<le> exhaustLimit now cfg h \<and> r \<in> set exhaustReasons"
        using rateLimitReset_ok [of now h1 cfg t r h] tr by (simp add: fb_def h1_def)
      ultimately show ?thesis using h1_def unfolding fb_def by blast
    qed
  qed
qed

lemma failureHealth_blocks_429:
  assumes "ur_StatusCode rec = 429" "0 \<le> now" "0 < cfg_FallbackCooldown cfg"
  shows "now < hs_ThrottledUntil (failureHealth lib now cfg rec h) \<or>
         now < hs_ExhaustedUntil (failureHealth lib now cfg rec h)"
  using failureHealth_429 [OF assms(1,2), of lib cfg h] assms(3)
  by (auto simp: throttle_active_until exhaustion.until_extend)

lemma failureHealth_streak_ok:
  assumes "streak_ok h" "0 \<le> now"
  shows "streak_ok (failureHealth lib now cfg rec h)"
proof (cases "ur_StatusCode rec = 429")
  case True
  have "streak_ok (exhaustUntil h1 t r) = streak_ok h1" for h1 t r by (simp add: streak_ok_def)
  then show ?thesis
    using failureHealth_429 [OF True assms(2), of lib cfg h] throttle_streak_ok [OF assms(1)] assms(1) by auto
next
  case False
  then show ?thesis using assms by (auto simp: failureHealth_def streak_ok_def)
qed

text \<open>A record that must take the account out of rotation, and how long it does.\<close>

lemma usageSnapshot_health:
  "hs_SuspendedUntil (health_at (usageSnapshot lib now rec i sn) j) = hs_SuspendedUntil (health_at (usageHealth lib now rec i sn) j)"
  "hs_ExhaustedUntil (health_at (usageSnapshot lib now rec i sn) j) = hs_ExhaustedUntil (health_at (usageHealth lib now rec i sn) j)"
  "hs_ExhaustedReason (health_at (usageSnapshot lib now rec i sn) j) = hs_ExhaustedReason (health_at (usageHealth lib now rec i sn) j)"
  "hs_ThrottledUntil (health_at (usageSnapshot lib now rec i sn) j) = hs_ThrottledUntil (health_at (usageHealth lib now rec i sn) j)"
  "hs_ThrottleStreak (health_at (usageSnapshot lib now rec i sn) j) = hs_ThrottleStreak (health_at (usageHealth lib now rec i sn) j)"
  by (simp_all add: usageSnapshot_def Let_def)

lemma usageSnapshot_failed_health:
  assumes "ur_Failed rec"
  shows "health_at (usageHealth lib now rec i sn) i = failureHealth lib now (rs_Config sn) rec (health_at sn i)"
  using assms by (simp add: usageHealth_def Let_def)

section \<open>The state that is going to be persisted is valid\<close>

text \<open>
  \<open>saveState\<close> refuses an invalid state as a whole, so one bad entry would stop persistence for
  every account. \<open>clock_ok\<close> says that the clock is in the range the validation of
  \<^verbatim>\<open>settings.go\<close> accepts, with room for the configured durations.
\<close>

definition clock_ok :: "pluginConfig \<Rightarrow> gotime \<Rightarrow> bool" where
  "clock_ok cfg now \<longleftrightarrow> year2000 \<le> now \<and> now + 30 * Day < year10000 \<and>
     now + cfg_SuspendDuration cfg < year10000 \<and> now + cfg_FallbackCooldown cfg < year10000"

definition health_valid :: "accountHealthState \<Rightarrow> bool" where
  "health_valid h \<longleftrightarrow> hs_SuspendedUntil h < year10000 \<and> hs_ExhaustedUntil h < year10000 \<and>
     hs_CapacityResetAt h < year10000 \<and> (hs_ExhaustedUntil h \<noteq> 0 \<longrightarrow> TrimSpace (hs_ExhaustedReason h) \<noteq> [])"

definition snapshot_resets_ok :: "quotaSnapshot \<Rightarrow> bool" where
  "snapshot_resets_ok a \<longleftrightarrow> qw_ResetsAt (sn_Weekly a) < year10000 \<and> qw_ResetsAt (sn_FiveHour a) < year10000"

definition quota_valid :: "gotime \<Rightarrow> accountQuotaState \<Rightarrow> bool" where
  "quota_valid now s \<longleftrightarrow> validateAccountQuotaState s now = Inr () \<and>
     (case st_Authoritative s of None \<Rightarrow> True | Some a \<Rightarrow> snapshot_resets_ok a)"

definition snapshot_valid :: "gotime \<Rightarrow> runtimeSnapshot \<Rightarrow> bool" where
  "snapshot_valid now sn \<longleftrightarrow>
     (\<forall>(i, s) \<in> set (rs_Quota sn). validateAccountIdentity i = Inr () \<and> quota_valid now s) \<and>
     (\<forall>(i, h) \<in> set (rs_Health sn). validateAccountIdentity i = Inr () \<and> health_valid h \<and> streak_ok h) \<and>
     (\<forall>(a, i) \<in> set (rs_byAuthID sn). validateAccountIdentity i = Inr ())"

lemma year10000_pos: "0 < year10000" by (simp add: year10000_def go_time)

lemma clock_pos: "clock_ok cfg now \<Longrightarrow> 0 < now"
  by (simp add: clock_ok_def year2000_def go_time)

lemma health_valid_zero [simp]: "health_valid zero_healthState" "streak_ok zero_healthState"
  using year10000_pos by (simp_all add: health_valid_def streak_ok_def zero_healthState_def requestRateMaxThrottles_def)

lemma persistedHealth_valid:
  assumes "health_valid h" "year2000 \<le> now"
  shows "validatePersistedHealthState (fst (persistedHealth h now)) = Inr ()"
proof -
  have y: "2000 \<le> time_Year t \<and> time_Year t \<le> 9999" if "now < t" "t < year10000" for t
    using year_bounds(1,2) [of t] that assms(2) by simp
  have r: "TrimSpace (boundedHealthReason (hs_ExhaustedReason h)) \<noteq> []" if "now < hs_ExhaustedUntil h"
    using that assms boundedText_nonblank [of "hs_ExhaustedReason h" 96]
    by (auto simp: health_valid_def boundedHealthReason_def year2000_def go_time)
  show ?thesis
    using assms(1) y [of "hs_SuspendedUntil h"] y [of "hs_ExhaustedUntil h"] r
      length_boundedText [of "hs_ExhaustedReason h" 96]
    by (auto simp: validatePersistedHealthState_def persistedHealth_def Let_def zero_persistedHealth_def
        health_valid_def boundedHealthReason_def)
qed

lemma exhaustReasons_nonblank: "r \<in> set exhaustReasons \<Longrightarrow> TrimSpace r \<noteq> []"
proof -
  have "\<forall>r \<in> set exhaustReasons. TrimSpace r \<noteq> []" by code_simp
  then show "r \<in> set exhaustReasons \<Longrightarrow> TrimSpace r \<noteq> []" by blast
qed

lemma health_valid_exhaustUntil:
  assumes "health_valid h" "t < year10000" "r \<in> set exhaustReasons"
  shows "health_valid (exhaustUntil h t r)"
  using assms boundedText_nonblank [OF exhaustReasons_nonblank [OF assms(3)], of 96]
  by (simp add: health_valid_def exhaustUntil_def boundedHealthReason_def)

lemma health_valid_throttle: "health_valid (snd (throttle h now u fb)) = health_valid h"
  by (simp add: health_valid_def)

lemma failureHealth_valid:
  assumes "health_valid h" "clock_ok cfg now"
  shows "health_valid (failureHealth lib now cfg rec h)"
proof (cases "ur_StatusCode rec = 429")
  case True
  have "exhaustLimit now cfg h < year10000"
    using assms by (auto simp: exhaustLimit_def clock_ok_def health_valid_def go_time)
  then show ?thesis
    using failureHealth_429 [OF True, of now lib cfg h] clock_pos [OF assms(2)] assms(1)
    by (auto simp: health_valid_throttle intro!: health_valid_exhaustUntil)
next
  case False
  then show ?thesis using assms
    by (auto simp: failureHealth_def health_valid_def suspendUntil_def clock_ok_def)
qed

lemma resetWalk_in: "resetWalk es rem dur b p = 0 \<or> (\<exists>e \<in> set es. resetWalk es rem dur b p = ce_At e + dur)"
  by (induction es arbitrary: rem) (auto simp: Let_def)

lemma estimatedWindow_reset_bound:
  assumes "\<forall>e \<in> set es. ce_At e \<le> limit" "limit + dur < year10000"
  shows "qw_ResetsAt (estimatedWindow es now dur b p) < year10000"
proof -
  have "resetWalk (activeEvents es now dur) c dur b p < year10000" for c
    using resetWalk_in [of "activeEvents es now dur" c dur b p] set_activeEvents [of es now dur] assms year10000_pos
    by force
  then show ?thesis using year10000_pos by (simp add: estimatedWindow_def Let_def)
qed

lemma view_resets_bound:
  assumes "quota_valid now s" "now + 30 * Day < year10000"
  shows "qw_ResetsAt (vw_FiveHour (view s now item cfg)) < year10000"
    "qw_ResetsAt (vw_Weekly (view s now item cfg)) < year10000"
proof -
  have ev: "\<forall>e \<in> set (st_Events s). ce_At e \<le> now + maxPersistedClockSkew"
    using assms(1) by (auto simp: quota_valid_def validateAccountQuotaState_iff event_ok_def)
  have w: "qw_ResetsAt (estimatedWindow (st_Events s) now weeklyWindow b p) < year10000"
    "qw_ResetsAt (estimatedWindow (st_Events s) now fiveHourWindow b p) < year10000" for b p
    by (rule estimatedWindow_reset_bound [OF ev], use assms(2) in \<open>simp add: go_time\<close>)+
  show "qw_ResetsAt (vw_FiveHour (view s now item cfg)) < year10000"
    "qw_ResetsAt (vw_Weekly (view s now item cfg)) < year10000"
    using assms(1) w
    by (auto simp: view_def authoritativeView_def estimatedView_def quota_valid_def snapshot_resets_ok_def split: option.splits)
qed

lemma quotaCapacityHealth_valid:
  assumes "health_valid h" "quota_valid now s" "now + 30 * Day < year10000"
  shows "health_valid (quotaCapacityHealth h (view s now item cfg) th)"
  using view_resets_bound [OF assms(2,3), of item cfg] assms(1) year10000_pos
  by (simp add: health_valid_def quotaCapacityHealth_def Let_def)

lemma snapshot_valid_at:
  assumes "snapshot_valid now sn"
  shows "health_valid (health_at sn i)" "streak_ok (health_at sn i)"
    "mget (rs_Quota sn) i = Some s \<Longrightarrow> validateAccountIdentity i = Inr () \<and> quota_valid now s"
    "mget_or [] (rs_byAuthID sn) a \<noteq> [] \<Longrightarrow> validateAccountIdentity (mget_or [] (rs_byAuthID sn) a) = Inr ()"
  using assms
  by (auto simp: snapshot_valid_def mget_or_def split: option.splits dest!: map_of_SomeD)

lemma refreshCapacity_valid:
  assumes "snapshot_valid now sn" "now + 30 * Day < year10000"
  shows "snapshot_valid now (snd (refreshCapacityLocked i now sn))"
proof -
  have "health_valid (quotaCapacityHealth (health_at sn i) (view q now item cfg) th) \<and>
        streak_ok (quotaCapacityHealth (health_at sn i) (view q now item cfg) th) \<and>
        validateAccountIdentity i = Inr ()"
    if "mget (rs_Quota sn) i = Some q" for q item cfg th
    using snapshot_valid_at [OF assms(1), of i] that quotaCapacityHealth_valid [OF _ _ assms(2)]
    by (auto simp: streak_ok_def)
  then show ?thesis using assms(1)
    by (auto simp: snapshot_valid_def refreshCapacityLocked_def Let_def
        dest!: subsetD [OF set_mput] split: option.splits)
qed

lemma quota_valid_later: "quota_valid now s \<Longrightarrow> now \<le> later \<Longrightarrow> quota_valid later s"
  using validate_later by (auto simp: quota_valid_def)

lemma snapshot_valid_later: "snapshot_valid now sn \<Longrightarrow> now \<le> later \<Longrightarrow> snapshot_valid later sn"
  unfolding snapshot_valid_def using quota_valid_later by blast

lemma persistenceSnapshot_valid:
  assumes "snapshot_valid now sn" "year2000 \<le> now"
  shows "validatePersistedStateAt (persistenceSnapshotLocked now sn g) now = Inr ()"
  using assms persistedHealth_valid
  by (auto simp: validatePersistedStateAt_v2 persistenceSnapshotLocked_def validateAccountStates_iff
      validateHealthStates_iff snapshot_valid_def quota_valid_def)

text \<open>
  The two providers of new data: the hash of a usage record is the hexadecimal form of a SHA-256
  sum, and a fetched snapshot is one the validation accepts.
\<close>

definition hash_hex :: "golib \<Rightarrow> bool" where
  "hash_hex lib \<longleftrightarrow> (\<forall>x. validHash (lib_sha256hex lib x))"

definition fetched_ok :: "gotime \<Rightarrow> quotaSnapshot result \<Rightarrow> bool" where
  "fetched_ok now fetched \<longleftrightarrow>
     (case fetched of Inl _ \<Rightarrow> True
      | Inr a \<Rightarrow> validateAuthoritative a (now + maxPersistedClockSkew) = Inr () \<and> snapshot_resets_ok a)"

lemma usageQuota_authoritative: "st_Authoritative (usageQuota lib now cfg rec s) = st_Authoritative s"
  by (auto simp: usageQuota_def Let_def split_beta compact_other addEvent_def split: sum.splits)

lemma usageEvent_ok:
  assumes "estimateUsageCredits rec at = Inr est" "at \<noteq> 0" "at \<le> limit" "0 < ces_Microcredits est"
  shows "event_ok limit \<lparr>ce_At = at, ce_Microcredits = ces_Microcredits est, ce_Model = ces_Model est\<rparr>"
proof -
  have "normalizeModelName ''glm-5.3'' \<noteq> []" "normalizeModelName ''glm-5.3-flash'' \<noteq> []" by code_simp+
  with estimate_bounds(3) [OF assms(1)] assms(2-4) show ?thesis by (auto simp: event_ok_def)
qed

lemma usageQuota_valid:
  assumes "quota_valid now s" "now \<noteq> 0" "hash_hex lib"
  shows "quota_valid now (usageQuota lib now cfg rec s)"
proof -
  define s1 where "s1 = (if IsZero (st_CompleteSince s) then s\<lparr>st_CompleteSince := now\<rparr> else s)"
  define at where "at = usageTimestamp rec now"
  define s2 where "s2 = snd (seenDedup s1 (usageDedupHash lib rec))"
  have v1: "validateAccountQuotaState s1 now = Inr ()"
    using assms(1) by (simp add: s1_def quota_valid_def validate_flags)
  have v2: "validateAccountQuotaState s2 now = Inr ()"
    unfolding s2_def by (rule validate_seenDedup [OF v1]) (use assms(3) in \<open>simp add: hash_hex_def usageDedupHash_def\<close>)
  have at0: "at \<noteq> 0" using assms(2) by (simp add: at_def usageTimestamp_def)
  have "validateAccountQuotaState (compact (addEvent s2 \<lparr>ce_At = at, ce_Microcredits = ces_Microcredits est,
          ce_Model = ces_Model est\<rparr>) now (cfg_StateRetention cfg)) now = Inr ()"
    if "estimateUsageCredits rec at = Inr est" "at \<le> now + maxPersistedClockSkew" for est
  proof (rule validate_compact, cases "0 < ces_Microcredits est")
    case True
    show "validateAccountQuotaState (addEvent s2 \<lparr>ce_At = at, ce_Microcredits = ces_Microcredits est,
          ce_Model = ces_Model est\<rparr>) now = Inr ()"
      by (rule validate_addEvent [OF v2 usageEvent_ok [OF that(1) at0 that(2) True]])
  qed (use v2 in \<open>simp add: addEvent_def\<close>)
  then have "validateAccountQuotaState (usageQuota lib now cfg rec s) now = Inr ()"
    using v1 v2 unfolding usageQuota_def Let_def s1_def [symmetric] at_def [symmetric] split_beta s2_def [symmetric]
    by (auto simp: validate_flags split: sum.splits)
  then show ?thesis using assms(1) by (simp add: quota_valid_def usageQuota_authoritative)
qed

lemma quota_valid_zero [simp]: "quota_valid now zero_accountQuotaState"
  by (simp add: quota_valid_def validate_zero) (simp add: zero_accountQuotaState_def)

lemma snapshot_valid_put_quota:
  assumes "snapshot_valid now sn" "validateAccountIdentity i = Inr ()" "quota_valid now q"
  shows "snapshot_valid now (sn\<lparr>rs_Quota := mput i q (rs_Quota sn)\<rparr>)"
  using assms by (auto simp: snapshot_valid_def dest!: subsetD [OF set_mput])

lemma snapshot_valid_put_health:
  assumes "snapshot_valid now sn" "validateAccountIdentity i = Inr ()" "health_valid h" "streak_ok h"
  shows "snapshot_valid now (sn\<lparr>rs_Health := mput i h (rs_Health sn)\<rparr>)"
  using assms by (auto simp: snapshot_valid_def dest!: subsetD [OF set_mput])

lemma usageHealth_valid:
  assumes "snapshot_valid now sn" "validateAccountIdentity i = Inr ()" "clock_ok (rs_Config sn) now"
  shows "snapshot_valid now (usageHealth lib now rec i sn)"
proof -
  note h = snapshot_valid_at(1,2) [OF assms(1), of i]
  have "health_valid (clearThrottle (health_at sn i)) \<and> streak_ok (clearThrottle (health_at sn i))"
    using h by (simp add: health_valid_def streak_ok_def requestRateMaxThrottles_def)
  moreover have "health_valid (failureHealth lib now (rs_Config sn) rec (health_at sn i))"
    "streak_ok (failureHealth lib now (rs_Config sn) rec (health_at sn i))"
    using failureHealth_valid [OF h(1) assms(3)] failureHealth_streak_ok [OF h(2)] clock_pos [OF assms(3)] by auto
  ultimately show ?thesis
    using snapshot_valid_put_health [OF assms(1,2)] assms(1) by (simp add: usageHealth_def Let_def)
qed

lemma usageSnapshot_valid:
  assumes "snapshot_valid now sn" "validateAccountIdentity i = Inr ()" "clock_ok (rs_Config sn) now" "hash_hex lib"
  shows "snapshot_valid now (usageSnapshot lib now rec i sn)"
proof -
  note u = usageHealth_valid [OF assms(1-3), of lib rec]
  have "quota_valid now (mget_or zero_accountQuotaState (rs_Quota sn) i)"
    using snapshot_valid_at(3) [OF assms(1), of i] by (auto simp: mget_or_def split: option.splits)
  then have "quota_valid now (usageQuota lib now (rs_Config sn) rec (mget_or zero_accountQuotaState (rs_Quota sn) i))"
    using usageQuota_valid assms(4) clock_pos [OF assms(3)] by simp
  then have "snapshot_valid now ((usageHealth lib now rec i sn)\<lparr>rs_Quota := mput i
       (usageQuota lib now (rs_Config sn) rec (mget_or zero_accountQuotaState (rs_Quota sn) i)) (rs_Quota sn)\<rparr>)"
    using snapshot_valid_put_quota [OF u assms(2)] by simp
  then show ?thesis using u refreshCapacity_valid assms(3)
    by (simp add: usageSnapshot_def Let_def clock_ok_def)
qed

text \<open>The counter of failed polls in a row wraps after \<open>2 ^ 63 - 1\<close> of them.\<close>

definition count_fits :: "accountQuotaState \<Rightarrow> bool" where
  "count_fits s \<longleftrightarrow> st_ConsecutiveFailures s < maxInt64_const"

lemma count_fits_next: "count_fits s \<Longrightarrow> 0 \<le> st_ConsecutiveFailures s \<Longrightarrow> wrap64 (st_ConsecutiveFailures s + 1) = st_ConsecutiveFailures s + 1"
  by (intro wrap64_id) (simp add: count_fits_def is_int64_def minInt64_const_def)

lemma pollQuota_valid:
  assumes "quota_valid now s" "fetched_ok now f" "count_fits s"
  shows "quota_valid now (pollQuota now sn i f s)"
proof (cases f)
  case (Inl e)
  then show ?thesis using assms count_fits_next [OF assms(3)]
    by (simp add: pollQuota_def Let_def quota_valid_def validateAccountQuotaState_iff authoritative_ok_def)
next
  case (Inr a)
  have "st_Events (pollQuota now sn i f s) = st_Events s" "st_DedupHashes (pollQuota now sn i f s) = st_DedupHashes s"
    "st_ConsecutiveFailures (pollQuota now sn i f s) = 0" "st_Authoritative (pollQuota now sn i f s) = Some a"
    using Inr by (simp_all add: pollQuota_def Let_def)
  then show ?thesis using assms Inr
    by (simp add: quota_valid_def validateAccountQuotaState_iff authoritative_ok_def fetched_ok_def)
qed

lemma pollSnapshot_valid:
  assumes "snapshot_valid now sn" "mget (rs_Quota sn) i = Some s" "fetched_ok now f" "now + 30 * Day < year10000" "count_fits s"
  shows "snapshot_valid now (pollSnapshot now i f s sn)"
proof -
  have "snapshot_valid now (pollPlanSync i f sn)" using assms(1) by (simp add: snapshot_valid_def)
  then have "snapshot_valid now ((pollPlanSync i f sn)\<lparr>rs_Quota := mput i (pollQuota now sn i f s) (rs_Quota sn)\<rparr>)"
    using snapshot_valid_put_quota [of now "pollPlanSync i f sn" i "pollQuota now sn i f s"]
      snapshot_valid_at(3) [OF assms(1,2)] pollQuota_valid assms(3,5) by simp
  then show ?thesis using refreshCapacity_valid assms(4) by (simp add: pollSnapshot_def Let_def)
qed

section \<open>The order of writes does not matter\<close>

text \<open>
  Persistence snapshots are numbered when they are taken and written later, outside the lock of
  the state, in whatever order the goroutines reach the disk. The contract of a numbered writer:
  a write that is not newer than the last one is dropped, a newer one is stored.
\<close>

locale numbered_writes =
  fixes put :: "'w \<Rightarrow> 's \<Rightarrow> 's" and num :: "'w \<Rightarrow> nat" and latest :: "'s \<Rightarrow> nat"
    and content :: "'s \<Rightarrow> 'w option" and ok :: "'s \<Rightarrow> 'w \<Rightarrow> bool"
  assumes stale: "ok s w \<Longrightarrow> num w \<le> latest s \<Longrightarrow> put w s = s"
    and fresh: "ok s w \<Longrightarrow> latest s < num w \<Longrightarrow> latest (put w s) = num w \<and> content (put w s) = Some w"
    and ok_kept: "ok s w \<Longrightarrow> ok s v \<Longrightarrow> ok (put w s) v"
begin

lemma ok_fold: "\<forall>w \<in> set ws. ok s w \<Longrightarrow> ok s v \<Longrightarrow> ok (fold put ws s) v"
  by (induction ws arbitrary: s) (auto intro: ok_kept)

lemma latest_fold: "\<forall>w \<in> set ws. ok s w \<Longrightarrow> latest (fold put ws s) = Max (insert (latest s) (num ` set ws))"
proof (induction ws rule: rev_induct)
  case (snoc w ws)
  let ?s = "fold put ws s"
  have ok: "ok ?s w" using ok_fold [of ws s w] snoc.prems by simp
  have ih: "latest ?s = Max (insert (latest s) (num ` set ws))" using snoc by simp
  have "latest (put w ?s) = max (latest ?s) (num w)"
    using stale [OF ok] fresh [OF ok] by (cases "num w \<le> latest ?s") auto
  moreover have "Max (insert (latest s) (num ` set (ws @ [w]))) = max (Max (insert (latest s) (num ` set ws))) (num w)"
    using Max_insert [of "insert (latest s) (num ` set ws)" "num w"] by (simp add: insert_commute max.commute)
  ultimately show ?case using ih by simp
qed simp

text \<open>Whatever the order, the newest of the writes is what remains.\<close>

lemma newest_wins:
  assumes "\<forall>v \<in> set ws. ok s v" "w \<in> set ws" "latest s < num w" "\<forall>v \<in> set ws. v \<noteq> w \<longrightarrow> num v < num w"
  shows "content (fold put ws s) = Some w"
  using assms
proof (induction ws rule: rev_induct)
  case (snoc v ws)
  let ?s = "fold put ws s"
  have ok: "ok ?s v" using ok_fold [of ws s v] snoc.prems(1) by simp
  have lat: "latest ?s = Max (insert (latest s) (num ` set ws))" using latest_fold snoc.prems(1) by simp
  show ?case
  proof (cases "w \<in> set ws")
    case True
    then have "content ?s = Some w" using snoc by simp
    moreover have "num v \<le> latest ?s"
      using lat True snoc.prems(4) by (cases "v = w") (auto intro: Max_ge order_trans [OF less_imp_le Max_ge])
    ultimately show ?thesis using stale [OF ok] by simp
  next
    case False
    then have "v = w" using snoc.prems(2) by auto
    moreover have "latest ?s < num w" using lat snoc.prems(3,4) False by (auto simp: Max_less_iff)
    ultimately show ?thesis using fresh [OF ok] by simp
  qed
qed simp

end

definition writeState :: "gotime \<Rightarrow> storeHandle \<Rightarrow> persistedState \<Rightarrow> pluginRuntime \<Rightarrow> pluginRuntime" where
  "writeState now store st rt = snd (persistStateLocked now None store st rt)"

definition writable :: "gotime \<Rightarrow> storeHandle \<Rightarrow> pluginRuntime \<Rightarrow> persistedState \<Rightarrow> bool" where
  "writable now store rt st \<longleftrightarrow> ps_Generation st \<noteq> 0 \<and> validatePersistedStateAt st now = Inr () \<and>
     sh_id store \<notin> set (rt_closed rt)"

lemma persistStateLocked_success:
  assumes "writable now store rt st" "rt_persisted rt < ps_Generation st"
  shows "persistStateLocked now None store st rt =
     (Inr (), rt\<lparr>rt_disk := mput (sh_dir store) st (rt_disk rt), rt_persisted := ps_Generation st\<rparr>)"
  using assms by (simp add: persistStateLocked_def writable_def saveState_def storeIO_def reachesDisk_def Let_def)

lemma persistStateLocked_stale:
  assumes "ps_Generation st \<noteq> 0" "ps_Generation st \<le> rt_persisted rt"
  shows "persistStateLocked now io store st rt = (Inr (), rt)"
  using assms by (simp add: persistStateLocked_def)

interpretation state_writes: numbered_writes "writeState now store" "\<lambda>st. unat (ps_Generation st)"
  "\<lambda>rt. unat (rt_persisted rt)" "\<lambda>rt. mget (rt_disk rt) (sh_dir store)" "writable now store" for now store
proof unfold_locales
  fix rt w v
  assume ok: "writable now store rt w"
  show "unat (ps_Generation w) \<le> unat (rt_persisted rt) \<Longrightarrow> writeState now store w rt = rt"
    using ok persistStateLocked_stale [of w rt] by (simp add: writeState_def writable_def word_le_nat_alt)
  show "unat (rt_persisted rt) < unat (ps_Generation w) \<Longrightarrow>
      unat (rt_persisted (writeState now store w rt)) = unat (ps_Generation w) \<and>
      mget (rt_disk (writeState now store w rt)) (sh_dir store) = Some w"
    using persistStateLocked_success [OF ok] by (simp add: writeState_def word_less_nat_alt)
  assume "writable now store rt v"
  then show "writable now store (writeState now store w rt) v"
    using ok persistStateLocked_stale [of w rt] persistStateLocked_success [OF ok]
    by (cases "ps_Generation w \<le> rt_persisted rt") (auto simp: writeState_def writable_def not_le)
qed

lemma persisted_mono:
  assumes "persistStateLocked now io store st rt = (r, rt')"
  shows "rt_persisted rt \<le> rt_persisted rt'"
  using assms by (auto simp: persistStateLocked_def Let_def split: if_splits sum.splits option.splits)

section \<open>A small runtime for the witnesses\<close>

definition sampleLib :: golib where
  "sampleLib =
     \<lparr>lib_urlParse = (\<lambda>_. None), lib_urlString = url_Path, lib_urlHostname = url_Host, lib_parseRFC3339 = (\<lambda>_. None),
      lib_httpParseTime = (\<lambda>_. None), lib_decodeAny = (\<lambda>_. None), lib_decodeErrorCode = (\<lambda>_. None),
      lib_sha256hex = (\<lambda>_. replicate 64 (CHR ''0'')), lib_hmacSHA256hex = (\<lambda>_ _. replicate 64 (CHR ''a''))\<rparr>"

definition sampleConfig :: pluginConfig where
  "sampleConfig =
     \<lparr>cfg_CPAConfigPath = ''config.yaml'', cfg_QuotaRefresh = 2 * Minute, cfg_AuthoritativeMaxAge = 5 * Minute,
      cfg_QuotaTimeout = 15 * Second, cfg_ThresholdPercent = 97, cfg_SuspendDuration = 30 * Minute,
      cfg_FallbackCooldown = 10 * Minute, cfg_StateRetention = 8 * Day, cfg_DefaultPlan = ''lite'', cfg_Accounts = []\<rparr>"

definition sampleIdentity :: string where "sampleIdentity = replicate 64 (CHR ''a'')"

definition sampleAccount :: account where
  "sampleAccount = zero_account\<lparr>acc_Identity := sampleIdentity, acc_Name := ''zai-lite-1'', acc_Plan := ''lite'',
     acc_FiveHourCredits := 2000, acc_WeeklyCredits := 10000, acc_ClaudeAuthID := ''claude:apikey:1''\<rparr>"

definition sampleStore :: storeHandle where "sampleStore = \<lparr>sh_id = 1, sh_dir = ''/auth/providers/zai''\<rparr>"

definition sampleSnapshot :: runtimeSnapshot where
  "sampleSnapshot =
     \<lparr>rs_Config = sampleConfig, rs_BaseAccounts = [sampleAccount], rs_Accounts = [sampleAccount],
      rs_Store = Some sampleStore, rs_Quota = [(sampleIdentity, zero_accountQuotaState)],
      rs_Health = [(sampleIdentity, zero_healthState)], rs_Routing = [],
      rs_byAuthID = [(''claude:apikey:1'', sampleIdentity)], rs_byIdentity = [(sampleIdentity, sampleAccount)],
      rs_Generation = 1\<rparr>"

definition sampleRuntime :: pluginRuntime where
  "sampleRuntime = initial_runtime\<lparr>rt_snapshot := Some sampleSnapshot, rt_pollers := [(sampleIdentity, 1)]\<rparr>"

definition sampleNow :: gotime where "sampleNow = 739616 * Day + 12 * Hour"

lemma sample_valid:
  "rt_snapshot sampleRuntime = Some sampleSnapshot" "\<not> rt_stopped sampleRuntime" "snapshot_valid sampleNow sampleSnapshot"
  "clock_ok (rs_Config sampleSnapshot) sampleNow" "rs_Store sampleSnapshot = Some sampleStore"
  "sh_id sampleStore \<notin> set (rt_closed sampleRuntime)"
  by code_simp+

lemma sampleLib_hash: "hash_hex sampleLib"
proof -
  have "validHash (replicate 64 (CHR ''0''))" by code_simp
  then show ?thesis by (simp add: hash_hex_def sampleLib_def)
qed

section \<open>Properties\<close>

lemma usageSnapshot_frame [simp]:
  "rs_Store (usageSnapshot lib now rec i sn) = rs_Store sn" "rs_Config (usageSnapshot lib now rec i sn) = rs_Config sn"
  "rs_byAuthID (usageSnapshot lib now rec i sn) = rs_byAuthID sn" "rs_byIdentity (usageSnapshot lib now rec i sn) = rs_byIdentity sn"
  "rs_Generation (usageSnapshot lib now rec i sn) = rs_Generation sn"
  by (simp_all add: usageSnapshot_def Let_def)

lemma persistStateLocked_valid:
  assumes "validatePersistedStateAt st now = Inr ()" "sh_id store \<notin> set (rt_closed rt)"
  shows "fst (persistStateLocked now None store st rt) = Inr ()"
  using assms by (simp add: persistStateLocked_def saveState_def storeIO_def Let_def)

text \<open>
  C2. A usage record, whatever it contains, never makes the state unpersistable: if the snapshot
  is valid, the snapshot it leaves is valid too, the write it schedules passes the validation of
  \<open>saveState\<close>, and on an open store whose write succeeds \<open>handleUsage\<close> reports no error.
\<close>

theorem usage_keeps_state_persistable:
  assumes live: "rt_snapshot rt = Some sn" "\<not> rt_stopped rt" and valid: "snapshot_valid now sn" "clock_ok (rs_Config sn) now"
    and "hash_hex lib" "now \<le> now'" and open_store: "rs_Store sn = Some store" "sh_id store \<notin> set (rt_closed rt)"
  shows "(case handleUsageLocked lib now now' rec rt of (_, rt1, w) \<Rightarrow>
            snapshot_valid now (the (rt_snapshot rt1)) \<and>
            (case w of None \<Rightarrow> True | Some (_, st) \<Rightarrow> validatePersistedStateAt st now' = Inr ())) \<and>
         fst (handleUsage lib now now' None rec rt) = Inr ()"
proof (cases "usageIdentity sn rec = []")
  case True
  then have "handleUsageLocked lib now now' rec rt = (Inr (), rt, None)"
    using live by (simp add: handleUsageLocked_def)
  then show ?thesis using live valid by (simp add: handleUsage_def)
next
  case False
  let ?sn = "usageSnapshot lib now rec (usageIdentity sn rec) sn"
  have v: "snapshot_valid now ?sn"
    by (rule usageSnapshot_valid) (use valid assms(5) snapshot_valid_at(4) [OF valid(1) False] in auto)
  have y: "year2000 \<le> now'" using valid(2) assms(6) by (simp add: clock_ok_def)
  have p: "validatePersistedStateAt (persistenceSnapshotLocked now' ?sn g) now' = Inr ()" for g
    by (rule persistenceSnapshot_valid [OF snapshot_valid_later [OF v assms(6)] y])
  have h: "handleUsageLocked lib now now' rec rt =
      (Inr (), rt\<lparr>rt_snapshot := Some ?sn, rt_persistNext := rt_persistNext rt + 1\<rparr>,
       Some (store, persistenceSnapshotLocked now' ?sn (rt_persistNext rt + 1)))"
    using handleUsageLocked_managed [OF live False] open_store(1) by (simp add: Let_def)
  show ?thesis using v p h open_store(2) by (simp add: handleUsage_def persistStateLocked_valid)
qed

theorem usage_keeps_state_persistable_witness:
  "fst (handleUsage sampleLib sampleNow sampleNow None sampleUsage sampleRuntime) = Inr ()"
  using usage_keeps_state_persistable [OF sample_valid(1-4) sampleLib_hash order_refl sample_valid(5,6)] by blast

text \<open>
  A poll keeps the state persistable when what it fetched passes the validation of an
  authoritative snapshot (which \<open>Quota\<close> proves of every response with at most eight limits).
\<close>

theorem poll_keeps_state_persistable:
  assumes live: "pollLive pd i g f rt = Some (sn, st)" and valid: "snapshot_valid now sn" "clock_ok (rs_Config sn) now"
    and "fetched_ok now f" "now \<le> now'" "rs_Store sn = Some store" "sh_id store \<notin> set (rt_closed rt)" and "count_fits st"
  shows "(case pollOnceLocked now now' pd i g f rt of (_, rt1, w) \<Rightarrow>
            snapshot_valid now (the (rt_snapshot rt1)) \<and>
            (\<exists>state. w = Some (store, state) \<and> validatePersistedStateAt state now' = Inr ())) \<and>
         fst (pollOnce now now' None pd i g f rt) = (case f of Inl e \<Rightarrow> Inl e | Inr _ \<Rightarrow> Inr ())"
proof -
  let ?sn = "pollSnapshot now i f st sn"
  have m: "mget (rs_Quota sn) i = Some st" using live by (auto simp: pollLive_def split: if_splits option.splits)
  have v: "snapshot_valid now ?sn"
    by (rule pollSnapshot_valid [OF valid(1) m assms(4)]) (use valid(2) assms(8) in \<open>simp_all add: clock_ok_def\<close>)
  have y: "year2000 \<le> now'" using valid(2) assms(5) by (simp add: clock_ok_def)
  have p: "validatePersistedStateAt (persistenceSnapshotLocked now' ?sn g) now' = Inr ()" for g
    by (rule persistenceSnapshot_valid [OF snapshot_valid_later [OF v assms(5)] y])
  show ?thesis
    using v p assms(7) persistStateLocked_valid [OF p, of store]
    by (auto simp: pollOnce_def pollOnceLocked_live [OF live] assms(6) split_beta split: sum.splits)
qed

theorem poll_keeps_state_persistable_witness:
  "fst (pollOnce sampleNow sampleNow None False sampleIdentity 1 (Inl (Msg ''quota request failed'')) sampleRuntime) =
     Inl (Msg ''quota request failed'')"
proof -
  have "pollLive False sampleIdentity 1 (Inl (Msg ''quota request failed'')) sampleRuntime = Some (sampleSnapshot, zero_accountQuotaState)"
    by code_simp
  from poll_keeps_state_persistable [OF this sample_valid(3,4) _ order_refl sample_valid(5,6)]
  show ?thesis by (simp add: fetched_ok_def count_fits_def zero_accountQuotaState_def maxInt64_const_def)
qed

text \<open>
  C8. Writes that reach the disk in any order leave the newest one there: for any sequence of
  valid persistence snapshots to an open store, the last number wins, whichever goroutine is first.
\<close>

theorem newest_write_wins:
  assumes "\<forall>v \<in> set ws. writable now store rt v" "w \<in> set ws" "rt_persisted rt < ps_Generation w"
    and "\<forall>v \<in> set ws. v \<noteq> w \<longrightarrow> ps_Generation v < ps_Generation w"
  shows "mget (rt_disk (fold (writeState now store) ws rt)) (sh_dir store) = Some w"
  by (rule state_writes.newest_wins) (use assms in \<open>auto simp: word_less_nat_alt\<close>)

theorem newest_write_wins_witness:
  "mget (rt_disk (fold (writeState sampleNow sampleStore)
      [persistenceSnapshotLocked sampleNow sampleSnapshot 2, persistenceSnapshotLocked sampleNow sampleSnapshot 1] sampleRuntime))
      (sh_dir sampleStore) = Some (persistenceSnapshotLocked sampleNow sampleSnapshot 2)"
proof (rule newest_write_wins)
  have "validatePersistedStateAt (persistenceSnapshotLocked sampleNow sampleSnapshot g) sampleNow = Inr ()" for g
    by (rule persistenceSnapshot_valid) (use sample_valid in \<open>simp_all add: clock_ok_def\<close>)
  then show "\<forall>v \<in> set [persistenceSnapshotLocked sampleNow sampleSnapshot 2, persistenceSnapshotLocked sampleNow sampleSnapshot 1].
      writable sampleNow sampleStore sampleRuntime v"
    using sample_valid(6) by (auto simp: writable_def) (simp_all add: persistenceSnapshotLocked_def)
qed (auto simp: persistenceSnapshotLocked_def sampleRuntime_def initial_runtime_def)

text \<open>
  C14. A failure that must take an account out of rotation does: after an authentication failure
  the account is suspended for the configured time, and after a 429 it is throttled or exhausted
  past the present instant, so it is not healthy at \<open>now\<close>.
\<close>

theorem failure_takes_account_out:
  assumes live: "rt_snapshot rt = Some sn" "\<not> rt_stopped rt" and "usageIdentity sn rec \<noteq> []" "ur_Failed rec"
    and "0 \<le> now" "0 < cfg_FallbackCooldown (rs_Config sn)" "0 < cfg_SuspendDuration (rs_Config sn)"
    and status: "ur_StatusCode rec \<in> {401, 403, 429}"
    and handled: "handleUsageLocked lib now now' rec rt = (r, rt', w)"
  shows "\<exists>sn'. rt_snapshot rt' = Some sn' \<and>
    ah_Status (assess (health_at sn' (usageIdentity sn rec)) item now) \<noteq> healthHealthy \<and>
    (ur_StatusCode rec \<noteq> 429 \<longrightarrow> now + cfg_SuspendDuration (rs_Config sn) \<le> hs_SuspendedUntil (health_at sn' (usageIdentity sn rec)))"
proof -
  define i where "i = usageIdentity sn rec"
  define h where "h = failureHealth lib now (rs_Config sn) rec (health_at sn i)"
  obtain sn' where sn': "rt_snapshot rt' = Some sn'" "sn' = usageSnapshot lib now rec i sn"
    using handled handleUsageLocked_managed [OF live assms(3), of lib now now']
    by (auto simp: Let_def i_def split: option.splits)
  have eq: "health_at (usageHealth lib now rec i sn) i = h"
    using usageSnapshot_failed_health [OF assms(4)] by (simp add: h_def)
  have f: "hs_SuspendedUntil (health_at sn' i) = hs_SuspendedUntil h" "hs_ExhaustedUntil (health_at sn' i) = hs_ExhaustedUntil h"
    "hs_ThrottledUntil (health_at sn' i) = hs_ThrottledUntil h"
    unfolding sn'(2) usageSnapshot_health eq by simp_all
  have sus: "now + cfg_SuspendDuration (rs_Config sn) \<le> hs_SuspendedUntil h" if "ur_StatusCode rec \<noteq> 429"
    using failureHealth_auth [of rec lib now "rs_Config sn" "health_at sn i"] that status
      suspension.until_extend by (auto simp: h_def)
  moreover have "now < hs_ThrottledUntil h \<or> now < hs_ExhaustedUntil h" if "ur_StatusCode rec = 429"
    using failureHealth_blocks_429 [OF that assms(5,6), of lib "health_at sn i"] by (simp add: h_def)
  ultimately have "ah_Status (assess (health_at sn' i) item now) \<noteq> healthHealthy"
    using f assms(7) by (fastforce simp: assess_healthy_iff)
  then show ?thesis using sn'(1) f(1) sus by (auto simp: i_def)
qed

theorem failure_takes_account_out_witness:
  "\<exists>sn'. rt_snapshot (fst (snd (handleUsageLocked sampleLib sampleNow sampleNow (sampleUsage\<lparr>ur_Failed := True, ur_StatusCode := 429\<rparr>) sampleRuntime))) = Some sn' \<and>
     ah_Status (assess (health_at sn' sampleIdentity) sampleAccount sampleNow) \<noteq> healthHealthy"
proof -
  let ?r = "sampleUsage\<lparr>ur_Failed := True, ur_StatusCode := 429\<rparr>"
  have i: "usageIdentity sampleSnapshot ?r = sampleIdentity" "sampleIdentity \<noteq> []"
    "0 \<le> sampleNow" "0 < cfg_FallbackCooldown (rs_Config sampleSnapshot)" "0 < cfg_SuspendDuration (rs_Config sampleSnapshot)"
    by code_simp+
  have c: "handleUsageLocked sampleLib sampleNow sampleNow ?r sampleRuntime =
      (fst (handleUsageLocked sampleLib sampleNow sampleNow ?r sampleRuntime),
       fst (snd (handleUsageLocked sampleLib sampleNow sampleNow ?r sampleRuntime)),
       snd (snd (handleUsageLocked sampleLib sampleNow sampleNow ?r sampleRuntime)))" by simp
  show ?thesis
    using failure_takes_account_out [OF sample_valid(1,2) _ _ i(3-5) _ c, of sampleAccount] i(1,2) by fastforce
qed

end
