(* ===== verification/GoNum.thy ===== *)
theory GoNum
  imports Prelude
begin

text \<open>
  Two number formats of the Go standard library that the configuration and the quota endpoint
  use: \<open>time.ParseDuration\<close>, and a JSON number read as \<open>float64\<close>. A double is a pair
  \<open>(m, e)\<close> for \<open>m * 2 ^ e\<close>; \<open>round53\<close> is the rounding to 53 bits, to nearest and
  ties to even, of a positive fraction.
\<close>

section \<open>Rounding to double precision\<close>

text \<open>The quotient of two positive integers, rounded to nearest, ties to even.\<close>

definition rne :: "int \<Rightarrow> int \<Rightarrow> int" where
  "rne n d =
     (let q = n div d; r = n mod d
      in if 2 * r < d then q else if 2 * r > d then q + 1 else if even q then q else q + 1)"

function bitlen :: "int \<Rightarrow> int" where
  "bitlen n = (if n \<le> 0 then 0 else 1 + bitlen (n div 2))"
  by pat_completeness auto
termination
  by (relation "measure nat") auto

declare bitlen.simps [simp del]

definition scaled :: "int \<Rightarrow> int \<Rightarrow> int \<Rightarrow> int \<times> int" where
  "scaled n d e = (if e \<ge> 0 then (n, d * 2 ^ nat e) else (n * 2 ^ nat (- e), d))"

definition round53 :: "int \<Rightarrow> int \<Rightarrow> int \<times> int" where
  "round53 n d =
     (let e0 = bitlen n - bitlen d - 53;
          (n0, d0) = scaled n d e0;
          e = (if n0 div d0 \<ge> 2 ^ 53 then e0 + 1 else e0);
          (n1, d1) = scaled n d e
      in (rne n1 d1, e))"

text \<open>The integer a double stands for, when it is one.\<close>

definition float_int :: "int \<times> int \<Rightarrow> int option" where
  "float_int x =
     (case x of (m, e) \<Rightarrow>
        if e \<ge> 0 then Some (m * 2 ^ nat e)
        else if m mod 2 ^ nat (- e) = 0 then Some (m div 2 ^ nat (- e)) else None)"

text \<open>Truncation of a nonnegative double.\<close>

definition float_trunc :: "int \<times> int \<Rightarrow> int" where
  "float_trunc x = (case x of (m, e) \<Rightarrow> if e \<ge> 0 then m * 2 ^ nat e else m div 2 ^ nat (- e))"

section \<open>Decimal literals\<close>

text \<open>The exponent loop of \<open>strconv.ParseFloat\<close> stops adding digits at 10000.\<close>

definition exponent_val :: "string \<Rightarrow> int" where
  "exponent_val ds = foldl (\<lambda>e c. if e < 10000 then e * 10 + digit_val c else e) 0 ds"

definition parseExponent :: "string \<Rightarrow> int option" where
  "parseExponent s =
     (case s of
        [] \<Rightarrow> Some 0
      | c # cs \<Rightarrow>
          if c = CHR ''e'' \<or> c = CHR ''E'' then
            let neg = (cs \<noteq> [] \<and> hd cs = CHR ''-'');
                ds = (if cs \<noteq> [] \<and> (hd cs = CHR ''-'' \<or> hd cs = CHR ''+'') then tl cs else cs)
            in if ds \<noteq> [] \<and> list_all is_digit ds
               then Some (if neg then - exponent_val ds else exponent_val ds) else None
          else None)"

text \<open>Sign, digits and decimal exponent of a JSON number.\<close>

definition parseDecimal :: "string \<Rightarrow> (bool \<times> int \<times> int) option" where
  "parseDecimal s =
     (let neg = (s \<noteq> [] \<and> hd s = CHR ''-'');
          s1 = (if neg then tl s else s);
          ds = takeWhile is_digit s1; r1 = dropWhile is_digit s1;
          dot = (r1 \<noteq> [] \<and> hd r1 = CHR ''.'');
          fs = (if dot then takeWhile is_digit (tl r1) else []);
          r2 = (if dot then dropWhile is_digit (tl r1) else r1)
      in if ds = [] \<or> (dot \<and> fs = []) then None
         else map_option (\<lambda>e. (neg, digits_val (ds @ fs), e - int (length fs))) (parseExponent r2))"

text \<open>
  The value of a literal as a double, when that double is a whole number. Below the smallest
  subnormal the result is zero; between there and one half no double is whole.
\<close>

definition decimal_int :: "int \<Rightarrow> int \<Rightarrow> int option" where
  "decimal_int m e10 =
     (let n = (if e10 \<ge> 0 then m * 10 ^ nat e10 else m);
          d = (if e10 \<ge> 0 then 1 else 10 ^ nat (- e10))
      in if m = 0 \<or> n * 2 ^ 1075 \<le> d then Some 0 else float_int (round53 n d))"

section \<open>Double arithmetic\<close>

type_synonym float64 = "int \<times> int"

text \<open>A positive fraction as a double: 53 bits, and none below \<open>2 ^ - 1074\<close>.\<close>

definition float64_ratio :: "int \<Rightarrow> int \<Rightarrow> float64" where
  "float64_ratio n d =
     (case round53 n d of (m, e) \<Rightarrow>
        if e \<ge> - 1074 then (m, e) else (case scaled n d (- 1074) of (n1, d1) \<Rightarrow> (rne n1 d1, - 1074)))"

text \<open>An \<open>int64\<close> is rounded when it is converted.\<close>

definition float64_of_int :: "int \<Rightarrow> float64" where
  "float64_of_int i = (if i = 0 then (0, 0) else case float64_ratio (abs i) 1 of (m, e) \<Rightarrow> (sgn i * m, e))"

definition float64_div :: "float64 \<Rightarrow> float64 \<Rightarrow> float64" where
  "float64_div x y =
     (case (x, y) of ((m1, e1), (m2, e2)) \<Rightarrow>
        if m1 = 0 then (0, 0)
        else case float64_ratio (abs m1 * 2 ^ nat (e1 - e2)) (abs m2 * 2 ^ nat (e2 - e1)) of
               (m, e) \<Rightarrow> (sgn m1 * sgn m2 * m, e))"

definition float64_le :: "float64 \<Rightarrow> float64 \<Rightarrow> bool" where
  "float64_le x y = (case (x, y) of ((m1, e1), (m2, e2)) \<Rightarrow> m1 * 2 ^ nat (e1 - e2) \<le> m2 * 2 ^ nat (e2 - e1))"

text \<open>\<open>strconv.ParseFloat\<close> on the literals a JSON number can have; \<open>None\<close> is an error, also for a value out of range.\<close>

definition ParseFloat :: "string \<Rightarrow> float64 option" where
  "ParseFloat s =
     (case parseDecimal s of
        None \<Rightarrow> None
      | Some (neg, m, e10) \<Rightarrow>
          if m = 0 then Some (0, 0)
          else case float64_ratio (m * 10 ^ nat e10) (10 ^ nat (- e10)) of
                 (k, e) \<Rightarrow> if float64_le (1, 1024) (k, e) then None else Some (if neg then - k else k, e))"

section \<open>Durations\<close>

definition durationUnits :: "(string, int) gomap" where
  "durationUnits =
     [(''ns'', 1), (''us'', 1000), ([CHR 0xC2, CHR 0xB5, CHR ''s''], 1000), ([CHR 0xCE, CHR 0xBC, CHR ''s''], 1000),
      (''ms'', 1000000), (''s'', 1000000000), (''m'', 60000000000), (''h'', 3600000000000)]"

text \<open>\<open>leadingInt\<close>: \<open>None\<close> on overflow past \<open>2 ^ 63\<close>.\<close>

fun leadingInt :: "int \<Rightarrow> string \<Rightarrow> (int \<times> string) option" where
  "leadingInt x [] = Some (x, [])"
| "leadingInt x (c # cs) =
     (if \<not> is_digit c then Some (x, c # cs)
      else if x > 2 ^ 63 div 10 then None
      else let y = x * 10 + digit_val c in if y > 2 ^ 63 then None else leadingInt y cs)"

text \<open>\<open>leadingFraction\<close>: digits after an overflow are consumed and ignored.\<close>

fun leadingFraction :: "int \<Rightarrow> nat \<Rightarrow> bool \<Rightarrow> string \<Rightarrow> int \<times> nat \<times> string" where
  "leadingFraction x k overflow [] = (x, k, [])"
| "leadingFraction x k overflow (c # cs) =
     (if \<not> is_digit c then (x, k, c # cs)
      else if overflow then leadingFraction x k True cs
      else if x > (2 ^ 63 - 1) div 10 then leadingFraction x k True cs
      else let y = x * 10 + digit_val c in
           if y > 2 ^ 63 then leadingFraction x k True cs else leadingFraction y (Suc k) False cs)"

text \<open>\<open>uint64(float64(f) * (float64(unit) / scale))\<close> with \<open>scale = 10 ^ k\<close>.\<close>

definition fractionNanos :: "int \<Rightarrow> nat \<Rightarrow> int \<Rightarrow> int" where
  "fractionNanos f k unit =
     (let (m1, e1) = round53 f 1;
          (m2, e2) = round53 unit (10 ^ k);
          (m3, e3) = round53 (m1 * m2) 1
      in float_trunc (m3, e1 + e2 + e3))"

definition is_unit_char :: "char \<Rightarrow> bool" where
  "is_unit_char c \<longleftrightarrow> c \<noteq> CHR ''.'' \<and> \<not> is_digit c"

text \<open>One round of the loop: a number and its unit; the amount and the rest of the input.\<close>

definition durationItem :: "string \<Rightarrow> (int \<times> string) option" where
  "durationItem s =
     (if s = [] \<or> \<not> (hd s = CHR ''.'' \<or> is_digit (hd s)) then None
      else case leadingInt 0 s of
        None \<Rightarrow> None
      | Some (v, s1) \<Rightarrow>
          let pre = (length s1 \<noteq> length s);
              dot = (s1 \<noteq> [] \<and> hd s1 = CHR ''.'');
              (f, k, s2) = (if dot then leadingFraction 0 0 False (tl s1) else (0, 0, s1));
              post = (dot \<and> length s2 \<noteq> length (tl s1))
          in if \<not> pre \<and> \<not> post then None
             else let u = takeWhile is_unit_char s2; s3 = dropWhile is_unit_char s2
                  in (case (if u = [] then None else mget durationUnits u) of
                       None \<Rightarrow> None
                     | Some unit \<Rightarrow>
                         if v > 2 ^ 63 div unit then None
                         else let v1 = v * unit;
                                  v2 = (if f > 0 then v1 + fractionNanos f k unit else v1)
                              in if v2 > 2 ^ 63 then None else Some (v2, s3)))"

lemma leadingInt_length: "leadingInt x s = Some (v, r) \<Longrightarrow> length r \<le> length s"
  by (induction x s rule: leadingInt.induct) (auto simp: Let_def split: if_splits)

lemma leadingFraction_length: "leadingFraction x k b s = (v, j, r) \<Longrightarrow> length r \<le> length s"
  by (induction s arbitrary: x k b) (auto simp: Let_def split: if_splits intro: le_SucI)

lemma durationItem_length:
  assumes "durationItem s = Some (v, r)"
  shows "length r < length s"
proof -
  obtain v1 s1 where l: "leadingInt 0 s = Some (v1, s1)"
    using assms by (auto simp: durationItem_def split: if_splits option.splits)
  define s2 where "s2 = (if s1 \<noteq> [] \<and> hd s1 = CHR ''.'' then snd (snd (leadingFraction 0 0 False (tl s1))) else s1)"
  have u: "takeWhile is_unit_char s2 \<noteq> []" "r = dropWhile is_unit_char s2"
    using assms l by (auto simp: durationItem_def s2_def Let_def split_beta split: if_splits option.splits)
  have "length (takeWhile is_unit_char s2) + length r = length s2"
    unfolding u(2) by (metis length_append takeWhile_dropWhile_id)
  moreover have "0 < length (takeWhile is_unit_char s2)" using u(1) by simp
  moreover have "length s2 \<le> length s1"
    using leadingFraction_length [of 0 0 False "tl s1"] unfolding s2_def
    by (cases "leadingFraction 0 0 False (tl s1)") (auto intro: order_trans)
  ultimately show ?thesis using leadingInt_length [OF l] by linarith
qed

function durationLoop :: "int \<Rightarrow> string \<Rightarrow> int option" where
  "durationLoop d s =
     (if s = [] then Some d
      else case durationItem s of
        None \<Rightarrow> None
      | Some (v, r) \<Rightarrow> if d + v > 2 ^ 63 then None else durationLoop (d + v) r)"
  by pat_completeness auto
termination
proof (relation "measure (\<lambda>(d, s). length s)", simp)
  fix d s x2 x y
  assume "durationItem s = Some x2" "(x, y) = x2"
  then have "length y < length s" using durationItem_length [of s x y] by simp
  then show "((d + x, y), d, s) \<in> measure (\<lambda>(d, s). length s)" by simp
qed

declare durationLoop.simps [simp del]

definition ParseDuration :: "string \<Rightarrow> duration option" where
  "ParseDuration s =
     (let signed = (s \<noteq> [] \<and> (hd s = CHR ''-'' \<or> hd s = CHR ''+''));
          neg = (signed \<and> hd s = CHR ''-'');
          s1 = (if signed then tl s else s)
      in if s1 = ''0'' then Some 0
         else if s1 = [] then None
         else case durationLoop 0 s1 of
           None \<Rightarrow> None
         | Some d \<Rightarrow> if neg then Some (- d) else if d > 2 ^ 63 - 1 then None else Some d)"

section \<open>Whole numbers below \<open>2 ^ 53\<close> are exact\<close>

lemma bitlen_nonneg: "0 \<le> bitlen n"
  by (induction n rule: bitlen.induct) (simp add: bitlen.simps)

lemma bitlen_upper: "n < 2 ^ nat (bitlen n)"
proof (induction n rule: bitlen.induct)
  case (1 n)
  show ?case
  proof (cases "n \<le> 0")
    case False
    then have "n div 2 < 2 ^ nat (bitlen (n div 2))" using "1" by simp
    then have "n < 2 * 2 ^ nat (bitlen (n div 2))" by linarith
    then show ?thesis using False bitlen_nonneg [of "n div 2"]
      by (simp add: bitlen.simps [of n] nat_add_distrib)
  qed (simp add: bitlen.simps)
qed

lemma bitlen_lower: "0 < n \<Longrightarrow> 2 ^ nat (bitlen n) \<le> 2 * n"
proof (induction n rule: bitlen.induct)
  case (1 n)
  show ?case
  proof (cases "n div 2 > 0")
    case True
    then have "2 ^ nat (bitlen (n div 2)) \<le> 2 * (n div 2)" using "1" by simp
    then show ?thesis using "1.prems" bitlen_nonneg [of "n div 2"]
      by (simp add: bitlen.simps [of n] nat_add_distrib)
  next
    case False
    then have "n = 1" using "1.prems" by linarith
    then show ?thesis by (simp add: bitlen.simps)
  qed
qed

lemma rne_bounds: "0 \<le> n \<Longrightarrow> 0 < d \<Longrightarrow> 0 \<le> rne n d" "0 < d \<Longrightarrow> n \<le> k * d \<Longrightarrow> rne n d \<le> k"
proof -
  assume a: "0 \<le> n" "0 < d"
  then have "0 \<le> n div d" by (simp add: pos_imp_zdiv_nonneg_iff)
  then show "0 \<le> rne n d" by (simp add: rne_def Let_def)
next
  assume d: "0 < d" and n: "n \<le> k * d"
  have q: "n = d * (n div d) + n mod d" "0 \<le> n mod d" "n mod d < d" using d by simp_all
  have le: "n div d \<le> k" using n d by (metis zdiv_mono1 nonzero_mult_div_cancel_right less_irrefl)
  show "rne n d \<le> k"
  proof (cases "n div d = k")
    case True
    then have "n mod d \<le> 0" using n q(1) by (simp add: mult.commute)
    then show ?thesis using True q(2) d by (simp add: rne_def Let_def)
  next
    case False
    then show ?thesis using le by (auto simp: rne_def Let_def)
  qed
qed

lemma rne_exact: "0 < d \<Longrightarrow> rne (k * d) d = k"
  by (simp add: rne_def Let_def)

lemma round53_whole:
  assumes "0 < k" "k < 2 ^ 53" "0 < d"
  shows "float_int (round53 (k * d) d) = Some k"
proof -
  define n where "n = k * d"
  define e0 where "e0 = bitlen n - bitlen d - 53"
  have n0: "0 < n" using assms by (simp add: n_def)
  have kd: "k * d < 2 ^ 53 * 2 ^ nat (bitlen d)"
    by (rule mult_strict_mono [OF assms(2) bitlen_upper]) (use assms in auto)
  have "2 ^ nat (bitlen n) \<le> 2 * n" by (rule bitlen_lower [OF n0])
  also have "\<dots> < 2 * (2 ^ 53 * 2 ^ nat (bitlen d))"
    unfolding n_def using kd by linarith
  finally have "(2 :: int) ^ nat (bitlen n) < 2 ^ (54 + nat (bitlen d))" by (simp add: power_add)
  then have "nat (bitlen n) < 54 + nat (bitlen d)" by (simp add: power_strict_increasing_iff)
  then have e0: "e0 \<le> 0" using bitlen_nonneg [of n] bitlen_nonneg [of d] unfolding e0_def by linarith
  define p where "p = scaled n d e0"
  define e where "e = (if fst p div snd p \<ge> 2 ^ 53 then e0 + 1 else e0)"
  have e: "e \<le> 0"
  proof (cases "e0 = 0")
    case True
    then have "fst p div snd p = k" using assms(3) by (simp add: p_def scaled_def n_def)
    then show ?thesis using True assms(2) by (simp add: e_def)
  qed (use e0 in \<open>auto simp: e_def\<close>)
  have sc: "scaled n d e = (k * 2 ^ nat (- e) * d, d)"
    using e by (auto simp: scaled_def n_def)
  have "round53 n d = (rne (fst (scaled n d e)) (snd (scaled n d e)), e)"
    unfolding round53_def e_def p_def e0_def by (simp add: Let_def split_beta)
  then have "round53 n d = (k * 2 ^ nat (- e), e)" using rne_exact [OF assms(3)] sc by simp
  then show ?thesis using e unfolding n_def by (auto simp: float_int_def)
qed

lemma decimal_int_whole:
  assumes "0 \<le> k" "k < 2 ^ 53"
    and "if e10 \<ge> 0 then m * 10 ^ nat e10 = k else m = k * 10 ^ nat (- e10)"
  shows "decimal_int m e10 = Some k"
proof (cases "k = 0")
  case True
  then have "m = 0" using assms(3) by (auto split: if_splits)
  then show ?thesis using True by (simp add: decimal_int_def)
next
  case False
  define d :: int where "d = (if e10 \<ge> 0 then 1 else 10 ^ nat (- e10))"
  have d: "0 < d" by (simp add: d_def)
  have n: "(if e10 \<ge> 0 then m * 10 ^ nat e10 else m) = k * d" using assms(3) by (auto simp: d_def)
  have "m \<noteq> 0" using False n d by (auto split: if_splits)
  moreover have "d * 1 < d * (k * 2 ^ 1075)"
  proof (rule mult_strict_left_mono [OF _ d])
    have "(1 :: int) * 1 < k * 2 ^ 1075"
      by (rule mult_le_less_imp_less) (use False assms(1) in \<open>auto simp: one_less_power\<close>)
    then show "1 < k * 2 ^ 1075" by simp
  qed
  then have "\<not> k * d * 2 ^ 1075 \<le> d" by (simp add: mult_ac)
  ultimately show ?thesis
    using round53_whole [of k d] False assms(1,2) d
    unfolding decimal_int_def Let_def n d_def [symmetric] by simp
qed

end
