(* ===== verification/Config.thy ===== *)
theory Config
  imports RuntimeInv GoNum
begin

text \<open>
  The plugin configuration, \<^verbatim>\<open>internal/providers/zai/config.go\<close>. The YAML decoder (with
  \<open>KnownFields\<close>) is an argument: the definitions start from the decoded struct. The lemmas
  give the ranges every accepted configuration is in and what the rest of the module gains from
  them: the ledger keeps every event a window can count, and the next poll comes before an
  authoritative snapshot expires.
\<close>

section \<open>Definitions\<close>

definition defaultCPAConfigPath :: string where "defaultCPAConfigPath = ''config.yaml''"
definition requiredPluginPriority :: int where "requiredPluginPriority = 1000"
definition defaultAuthoritativeMaxAge :: duration where [go_time]: "defaultAuthoritativeMaxAge = 5 * Minute"
definition defaultQuotaTimeout :: duration where [go_time]: "defaultQuotaTimeout = 15 * Second"
definition defaultThreshold :: int where "defaultThreshold = 97"
definition defaultSuspend :: duration where [go_time]: "defaultSuspend = 30 * Minute"
definition defaultFallback :: duration where [go_time]: "defaultFallback = 10 * Minute"
definition defaultStateRetention :: duration where [go_time]: "defaultStateRetention = 8 * 24 * Hour"

record rawAccountOverride =
  ro_KeySuffix :: string
  ro_Name :: string
  ro_Plan :: string
  ro_Disabled :: bool
  ro_FiveHourCredits :: "int option"
  ro_WeeklyCredits :: "int option"

record rawPluginConfig =
  rc_Enabled :: bool
  rc_Priority :: int
  rc_CPAConfigPath :: string
  rc_QuotaRefresh :: string
  rc_AuthoritativeMaxAge :: string
  rc_ThresholdPercent :: "int option"
  rc_SuspendDuration :: string
  rc_FallbackCooldown :: string
  rc_StateRetention :: string
  rc_DefaultPlan :: string
  rc_Accounts :: "rawAccountOverride list"

definition normalizePlan :: "string \<Rightarrow> string" where
  "normalizePlan raw =
     (let plan = ToLower (TrimSpace raw)
      in if plan \<in> {''lite'', ''pro'', ''max'', ''custom''} then plan else [])"

definition parsePositiveDuration :: "string \<Rightarrow> string \<Rightarrow> duration \<Rightarrow> duration result" where
  "parsePositiveDuration name raw fallback =
     (if TrimSpace raw = [] then Inr fallback
      else case ParseDuration (TrimSpace raw) of
        None \<Rightarrow> Inl (Msg (name @ '' must be a positive duration''))
      | Some val \<Rightarrow> if val \<le> 0 then Inl (Msg (name @ '' must be a positive duration'')) else Inr val)"

definition overrideBucket :: "string \<Rightarrow> int option \<Rightarrow> int result" where
  "overrideBucket name credits =
     (case credits of
        None \<Rightarrow> Inr 0
      | Some c \<Rightarrow>
          if validCreditBucket c then Inr c
          else Inl (Msg (name @ '' must be positive and at most '' @ Itoa maxCreditBucket)))"

definition validateAccountOverride :: "rawAccountOverride \<Rightarrow> string \<Rightarrow> accountOverride result" where
  "validateAccountOverride input defaultPlan =
     (let keySuffix = TrimSpace (ro_KeySuffix input); plan0 = normalizePlan (ro_Plan input);
          plan = (if plan0 = [] then defaultPlan else plan0)
      in if keySuffix = [] then Inl (Msg ''key-suffix is required'')
         else if ro_Plan input \<noteq> [] \<and> plan0 = [] then Inl (Msg ''plan must be lite, pro, max, or custom'')
         else
           bindR (overrideBucket ''five-hour-credits'' (ro_FiveHourCredits input)) (\<lambda>five.
           bindR (overrideBucket ''weekly-credits'' (ro_WeeklyCredits input)) (\<lambda>weekly.
             if plan = ''custom'' \<and> (five = 0 \<or> weekly = 0) then Inl (Msg ''custom plan requires both credit buckets'')
             else if plan = [] \<and> (five = 0 \<or> weekly = 0) then Inl (Msg ''plan or both credit buckets are required'')
             else Inr \<lparr>ovr_KeySuffix = keySuffix, ovr_Name = TrimSpace (ro_Name input), ovr_Plan = plan,
                       ovr_Disabled = ro_Disabled input, ovr_FiveHourCredits = five, ovr_WeeklyCredits = weekly\<rparr>)))"

text \<open>The loop over the account overrides: index, names seen so far, overrides accepted so far.\<close>

fun overridesLoop :: "string \<Rightarrow> nat \<Rightarrow> string list \<Rightarrow> accountOverride list \<Rightarrow> rawAccountOverride list \<Rightarrow> accountOverride list result" where
  "overridesLoop defaultPlan i seen acc [] = Inr acc"
| "overridesLoop defaultPlan i seen acc (raw # rest) =
     (case validateAccountOverride raw defaultPlan of
        Inl e \<Rightarrow> Inl (Wrapped (''accounts['' @ Itoa (int i) @ '']'') e)
      | Inr ovr \<Rightarrow>
          let nameKey = ToLower (ovr_Name ovr)
          in if ovr_Name ovr \<noteq> [] \<and> nameKey \<in> set seen
             then Inl (Msg (''accounts['' @ Itoa (int i) @ '']: duplicate name''))
             else overridesLoop defaultPlan (Suc i) (if ovr_Name ovr \<noteq> [] then nameKey # seen else seen) (acc @ [ovr]) rest)"

definition parsePluginConfig :: "rawPluginConfig result \<Rightarrow> pluginConfig result" where
  "parsePluginConfig decoded =
     bindR (case decoded of Inl e \<Rightarrow> Inl (Wrapped ''decode plugin config'' e) | Inr input \<Rightarrow> Inr input) (\<lambda>input.
       let path = TrimSpace (rc_CPAConfigPath input);
           path1 = (if path = [] then defaultCPAConfigPath else path);
           threshold = (case rc_ThresholdPercent input of None \<Rightarrow> defaultThreshold | Some t \<Rightarrow> t);
           plan = normalizePlan (rc_DefaultPlan input)
       in bindR (guardR (1 \<le> threshold \<and> threshold \<le> 100) ''threshold-percent must be between 1 and 100'') (\<lambda>_.
          bindR (parsePositiveDuration ''quota-refresh-interval'' (rc_QuotaRefresh input) defaultQuotaRefresh) (\<lambda>refresh.
          bindR (guardR (Minute \<le> refresh \<and> refresh \<le> 3 * Minute) ''quota-refresh-interval must be between one and three minutes'') (\<lambda>_.
          bindR (parsePositiveDuration ''authoritative-max-age'' (rc_AuthoritativeMaxAge input) defaultAuthoritativeMaxAge) (\<lambda>maxAge.
          bindR (guardR (maxAge > maxPollInterval refresh) ''authoritative-max-age must exceed the maximum poll interval'') (\<lambda>_.
          bindR (parsePositiveDuration ''suspend-duration'' (rc_SuspendDuration input) defaultSuspend) (\<lambda>suspend.
          bindR (parsePositiveDuration ''fallback-cooldown'' (rc_FallbackCooldown input) defaultFallback) (\<lambda>fallback.
          bindR (parsePositiveDuration ''state-retention'' (rc_StateRetention input) defaultStateRetention) (\<lambda>retention.
          bindR (guardR (retention > 7 * 24 * Hour) ''state-retention must exceed one week'') (\<lambda>_.
          bindR (guardR (\<not> (rc_DefaultPlan input \<noteq> [] \<and> (plan = [] \<or> plan = ''custom''))) ''default-plan must be lite, pro, or max'') (\<lambda>_.
          bindR (overridesLoop plan 0 [] [] (rc_Accounts input)) (\<lambda>accounts.
            Inr \<lparr>cfg_CPAConfigPath = path1, cfg_QuotaRefresh = refresh, cfg_AuthoritativeMaxAge = maxAge,
                 cfg_QuotaTimeout = defaultQuotaTimeout, cfg_ThresholdPercent = threshold,
                 cfg_SuspendDuration = suspend, cfg_FallbackCooldown = fallback, cfg_StateRetention = retention,
                 cfg_DefaultPlan = plan, cfg_Accounts = accounts\<rparr>))))))))))))"

section \<open>Accepted configurations\<close>

definition override_ok :: "accountOverride \<Rightarrow> bool" where
  "override_ok ov \<longleftrightarrow> ovr_KeySuffix ov \<noteq> [] \<and> ovr_Plan ov \<in> {[], ''lite'', ''pro'', ''max'', ''custom''} \<and>
     (ovr_FiveHourCredits ov = 0 \<or> validCreditBucket (ovr_FiveHourCredits ov)) \<and>
     (ovr_WeeklyCredits ov = 0 \<or> validCreditBucket (ovr_WeeklyCredits ov)) \<and>
     (ovr_Plan ov \<in> {[], ''custom''} \<longrightarrow> 0 < ovr_FiveHourCredits ov \<and> 0 < ovr_WeeklyCredits ov)"

definition config_ok :: "pluginConfig \<Rightarrow> bool" where
  "config_ok c \<longleftrightarrow> 1 \<le> cfg_ThresholdPercent c \<and> cfg_ThresholdPercent c \<le> 100 \<and>
     Minute \<le> cfg_QuotaRefresh c \<and> cfg_QuotaRefresh c \<le> 3 * Minute \<and>
     maxPollInterval (cfg_QuotaRefresh c) < cfg_AuthoritativeMaxAge c \<and>
     0 < cfg_SuspendDuration c \<and> 0 < cfg_FallbackCooldown c \<and> weeklyWindow < cfg_StateRetention c \<and>
     cfg_DefaultPlan c \<in> {[], ''lite'', ''pro'', ''max''} \<and>
     (\<forall>ov \<in> set (cfg_Accounts c). override_ok ov) \<and>
     distinct (map (ToLower \<circ> ovr_Name) (filter (\<lambda>ov. ovr_Name ov \<noteq> []) (cfg_Accounts c)))"

lemma normalizePlan_range: "normalizePlan raw \<in> {[], ''lite'', ''pro'', ''max'', ''custom''}"
  by (simp add: normalizePlan_def Let_def)

lemma parsePositiveDuration_pos: "parsePositiveDuration name raw fb = Inr d \<Longrightarrow> 0 < fb \<Longrightarrow> 0 < d"
  by (auto simp: parsePositiveDuration_def split: if_splits option.splits)

lemma overrideBucket_ok: "overrideBucket name c = Inr v \<Longrightarrow> v = 0 \<or> validCreditBucket v"
  by (auto simp: overrideBucket_def split: option.splits if_splits)

lemma validateAccountOverride_ok:
  assumes "validateAccountOverride raw plan = Inr ov" "plan \<in> {[], ''lite'', ''pro'', ''max''}"
  shows "override_ok ov"
proof -
  obtain five weekly where b: "overrideBucket ''five-hour-credits'' (ro_FiveHourCredits raw) = Inr five"
      "overrideBucket ''weekly-credits'' (ro_WeeklyCredits raw) = Inr weekly"
    and ov: "ov = \<lparr>ovr_KeySuffix = TrimSpace (ro_KeySuffix raw), ovr_Name = TrimSpace (ro_Name raw),
        ovr_Plan = (if normalizePlan (ro_Plan raw) = [] then plan else normalizePlan (ro_Plan raw)),
        ovr_Disabled = ro_Disabled raw, ovr_FiveHourCredits = five, ovr_WeeklyCredits = weekly\<rparr>"
    and k: "TrimSpace (ro_KeySuffix raw) \<noteq> []"
    and c: "ovr_Plan ov \<in> {[], ''custom''} \<longrightarrow> five \<noteq> 0 \<and> weekly \<noteq> 0"
    using assms(1) by (auto simp: validateAccountOverride_def Let_def bindR_Inr_iff split: if_splits)
  have "ovr_Plan ov \<in> {[], ''lite'', ''pro'', ''max'', ''custom''}"
    using ov assms(2) normalizePlan_range [of "ro_Plan raw"] by auto
  then show ?thesis using overrideBucket_ok [OF b(1)] overrideBucket_ok [OF b(2)] ov k c
    by (auto simp: override_ok_def validCreditBucket_def)
qed

lemma overridesLoop_ok:
  assumes "overridesLoop plan i seen acc raws = Inr res" "plan \<in> {[], ''lite'', ''pro'', ''max''}"
    and "\<forall>ov \<in> set acc. override_ok ov"
    and "distinct (map (ToLower \<circ> ovr_Name) (filter (\<lambda>ov. ovr_Name ov \<noteq> []) acc))"
    and "set seen = set (map (ToLower \<circ> ovr_Name) (filter (\<lambda>ov. ovr_Name ov \<noteq> []) acc))"
  shows "(\<forall>ov \<in> set res. override_ok ov) \<and> distinct (map (ToLower \<circ> ovr_Name) (filter (\<lambda>ov. ovr_Name ov \<noteq> []) res))"
  using assms
proof (induction plan i seen acc raws rule: overridesLoop.induct)
  case (2 plan i seen acc raw rest)
  obtain ovr where ovr: "validateAccountOverride raw plan = Inr ovr"
    using "2.prems"(1) by (auto split: sum.splits)
  define seen' where "seen' = (if ovr_Name ovr \<noteq> [] then ToLower (ovr_Name ovr) # seen else seen)"
  have fresh: "ovr_Name ovr = [] \<or> ToLower (ovr_Name ovr) \<notin> set seen"
    and step: "overridesLoop plan (Suc i) seen' (acc @ [ovr]) rest = Inr res"
    using "2.prems"(1) ovr by (auto simp: Let_def seen'_def split: if_splits)
  have nd: "\<not> (ovr_Name ovr \<noteq> [] \<and> ToLower (ovr_Name ovr) \<in> set seen)" using fresh by auto
  show ?case
  proof (rule "2.IH" [OF ovr refl nd])
    show "overridesLoop plan (Suc i) (if ovr_Name ovr \<noteq> [] then ToLower (ovr_Name ovr) # seen else seen) (acc @ [ovr]) rest = Inr res"
      using step by (simp add: seen'_def)
    show "\<forall>ov \<in> set (acc @ [ovr]). override_ok ov"
      using "2.prems"(2,3) validateAccountOverride_ok [OF ovr] by auto
  qed (use "2.prems" fresh in auto)
qed simp

lemma parsePluginConfig_ok:
  assumes "parsePluginConfig decoded = Inr c"
  shows "config_ok c"
proof -
  obtain input accounts where input: "decoded = Inr input"
    and loop: "overridesLoop (cfg_DefaultPlan c) 0 [] [] (rc_Accounts input) = Inr accounts" "cfg_Accounts c = accounts"
    and plan: "cfg_DefaultPlan c = normalizePlan (rc_DefaultPlan input)"
      "\<not> (rc_DefaultPlan input \<noteq> [] \<and> (cfg_DefaultPlan c = [] \<or> cfg_DefaultPlan c = ''custom''))"
    and thr: "1 \<le> cfg_ThresholdPercent c" "cfg_ThresholdPercent c \<le> 100"
    and ref: "Minute \<le> cfg_QuotaRefresh c" "cfg_QuotaRefresh c \<le> 3 * Minute"
    and age: "maxPollInterval (cfg_QuotaRefresh c) < cfg_AuthoritativeMaxAge c"
    and sus: "parsePositiveDuration ''suspend-duration'' (rc_SuspendDuration input) defaultSuspend = Inr (cfg_SuspendDuration c)"
    and fb: "parsePositiveDuration ''fallback-cooldown'' (rc_FallbackCooldown input) defaultFallback = Inr (cfg_FallbackCooldown c)"
    and ret: "7 * 24 * Hour < cfg_StateRetention c"
    using assms unfolding parsePluginConfig_def
    by (auto simp: bindR_Inr_iff Let_def split: sum.splits)
  have p: "cfg_DefaultPlan c \<in> {[], ''lite'', ''pro'', ''max''}"
  proof (cases "rc_DefaultPlan input = []")
    case True
    then show ?thesis using plan(1) by (simp add: normalizePlan_def ToLower_def)
  next
    case False
    then show ?thesis using plan normalizePlan_range [of "rc_DefaultPlan input"] by auto
  qed
  have "0 < cfg_SuspendDuration c" "0 < cfg_FallbackCooldown c"
    using parsePositiveDuration_pos [OF sus] parsePositiveDuration_pos [OF fb] by (simp_all add: go_time)
  moreover have "(\<forall>ov \<in> set accounts. override_ok ov) \<and>
      distinct (map (ToLower \<circ> ovr_Name) (filter (\<lambda>ov. ovr_Name ov \<noteq> []) accounts))"
    using overridesLoop_ok [OF loop(1) p] by simp
  ultimately show ?thesis using thr ref age ret p loop(2) by (simp add: config_ok_def go_time)
qed

section \<open>What the ranges give the rest of the module\<close>

text \<open>The jitter stays within half and one and a half of the base interval.\<close>

lemma jitteredPollInterval_bounds:
  assumes "0 < base" "base \<le> 3 * Minute"
  shows "go_quo base 2 \<le> jitteredPollInterval base identity attempt \<and>
         jitteredPollInterval base identity attempt \<le> maxPollInterval base"
proof -
  define w :: "64 word" where "w = word_of_int (base + 1)"
  define r where "r = jitterSeed identity attempt mod w"
  have b: "base + 1 < 2 ^ 63" using assms(2) by (simp add: go_time)
  have uw: "uint w = base + 1" unfolding w_def by (subst uint_word_of_int) (use b assms(1) in simp)
  have "uint r = uint (jitterSeed identity attempt) mod uint w" by (simp add: r_def uint_mod)
  then have r: "0 \<le> uint r" "uint r \<le> base"
    using uw assms(1) pos_mod_bound [of "base + 1" "uint (jitterSeed identity attempt)"] by auto
  have "- (2 ^ 63) \<le> uint r" "uint r < 2 ^ 63" using r b by linarith+
  then have "sint r = uint r"
    unfolding sint_uint by (intro signed_take_bit_int_eq_self) simp_all
  then have j: "jitteredPollInterval base identity attempt = wrap64 (base div 2 + uint r)"
    using assms(1) by (simp add: jitteredPollInterval_def Let_def r_def w_def go_quo_nonneg)
  have small: "wrap64 x = x" if "0 \<le> x" "x \<le> base div 2 + base" for x
    by (rule wrap64_id, rule is_int64I) (use that assms in \<open>simp_all add: go_time\<close>)
  have "wrap64 (base div 2 + uint r) = base div 2 + uint r"
    by (rule small) (use r assms in linarith)+
  moreover have "wrap64 (base + base div 2) = base + base div 2"
    by (rule small) (use assms in simp_all)
  ultimately show ?thesis using j r(2) assms(1) by (simp add: maxPollInterval_def go_quo_nonneg)
qed

text \<open>Compaction is invisible to the windows, now and at any later instant.\<close>

lemma activeEvents_drop_old:
  assumes "dur \<le> ret" "now \<le> t"
  shows "activeEvents (filter (\<lambda>e. now - ret < ce_At e) es) t dur = activeEvents es t dur"
  unfolding activeEvents_def filter_filter by (rule filter_cong) (use assms in auto)

lemma compact_windows:
  assumes "chronological (st_Events s)" "weeklyWindow < ret" "now \<le> t"
  shows "estimatedWindow (st_Events (compact s now ret)) t weeklyWindow b p = estimatedWindow (st_Events s) t weeklyWindow b p"
    "estimatedWindow (st_Events (compact s now ret)) t fiveHourWindow b p = estimatedWindow (st_Events s) t fiveHourWindow b p"
  using assms by (simp_all add: estimatedWindow_def compact_events activeEvents_drop_old go_time)

section \<open>Properties\<close>

definition sampleRaw :: rawPluginConfig where
  "sampleRaw =
     \<lparr>rc_Enabled = True, rc_Priority = 1000, rc_CPAConfigPath = [], rc_QuotaRefresh = ''2m'', rc_AuthoritativeMaxAge = ''5m'',
      rc_ThresholdPercent = Some 97, rc_SuspendDuration = ''30m'', rc_FallbackCooldown = [], rc_StateRetention = ''192h'',
      rc_DefaultPlan = ''Pro'',
      rc_Accounts = [\<lparr>ro_KeySuffix = ''abc'', ro_Name = ''main'', ro_Plan = [], ro_Disabled = False,
                      ro_FiveHourCredits = None, ro_WeeklyCredits = None\<rparr>]\<rparr>"

definition sampleParsed :: pluginConfig where
  "sampleParsed = projr (parsePluginConfig (Inr sampleRaw))"

lemma sampleParsed_ok: "parsePluginConfig (Inr sampleRaw) = Inr sampleParsed"
proof -
  have "\<not> isl (parsePluginConfig (Inr sampleRaw))" by code_simp
  then show ?thesis unfolding sampleParsed_def by (cases "parsePluginConfig (Inr sampleRaw)") auto
qed

text \<open>
  Every configuration that is accepted is in range: the threshold is a percentage, the poll
  interval is between one and three minutes, snapshots live longer than the longest poll
  interval, blocks and retention are positive with retention above a week, every override has a
  usable plan or both buckets, and no two overrides share a name.
\<close>

theorem accepted_config_in_range:
  assumes "parsePluginConfig decoded = Inr c"
  shows "config_ok c"
  by (rule parsePluginConfig_ok [OF assms])

theorem accepted_config_in_range_witness: "config_ok sampleParsed"
  by (rule accepted_config_in_range [OF sampleParsed_ok])

text \<open>
  Under an accepted configuration an authoritative snapshot is still fresh when the next
  regular poll is due, whatever the jitter; the estimator does not take over between two polls
  that succeed on time.
\<close>

theorem snapshot_fresh_until_next_poll:
  assumes "parsePluginConfig decoded = Inr c" "st_Authoritative s = Some a"
  shows "freshAuthoritative s (sn_ObservedAt a + jitteredPollInterval (cfg_QuotaRefresh c) identity attempt) c"
proof -
  have ok: "config_ok c" by (rule parsePluginConfig_ok [OF assms(1)])
  then have r: "0 < cfg_QuotaRefresh c" "cfg_QuotaRefresh c \<le> 3 * Minute"
    by (auto simp: config_ok_def go_time)
  define j where "j = jitteredPollInterval (cfg_QuotaRefresh c) identity attempt"
  have j: "0 \<le> j" "j \<le> maxPollInterval (cfg_QuotaRefresh c)"
    using jitteredPollInterval_bounds [OF r, of identity attempt] r(1) by (auto simp: j_def go_quo_nonneg)
  have "maxPollInterval (cfg_QuotaRefresh c) \<le> 5 * Minute"
    unfolding maxPollInterval_def using r by (subst wrap64_id) (auto simp: go_quo_nonneg is_int64_def minInt64_const_def maxInt64_const_def go_time)
  then have "is_int64 j" using j by (intro is_int64I) (auto simp: go_time)
  then have "time_Sub (sn_ObservedAt a + j) (sn_ObservedAt a) = j" by (simp add: time_Sub_exact)
  then show ?thesis using ok j assms(2) by (auto simp: freshAuthoritative_def j_def [symmetric] config_ok_def)
qed

definition sampleObserved :: quotaSnapshot where
  "sampleObserved = \<lparr>sn_Plan = [], sn_FiveHour = zero_quotaWindow, sn_FiveHourError = ''missing'', sn_Weekly = zero_quotaWindow,
     sn_ObservedAt = 5\<rparr>"

theorem snapshot_fresh_witness:
  "freshAuthoritative (zero_accountQuotaState\<lparr>st_Authoritative := Some sampleObserved\<rparr>)
      (sn_ObservedAt sampleObserved + jitteredPollInterval (cfg_QuotaRefresh sampleParsed) ''a'' 1) sampleParsed"
  by (rule snapshot_fresh_until_next_poll [OF sampleParsed_ok]) simp

text \<open>
  C38. Under an accepted configuration compaction is invisible: dropping events past the retention
  changes neither window of the view, now or later, so the ledger is bounded without ever losing
  usage that still counts.
\<close>

theorem compaction_invisible:
  assumes "parsePluginConfig decoded = Inr c" "chronological (st_Events s)" "now \<le> t"
  shows "vw_Weekly (view (compact s now (cfg_StateRetention c)) t item c) = vw_Weekly (view s t item c) \<and>
         vw_FiveHour (view (compact s now (cfg_StateRetention c)) t item c) = vw_FiveHour (view s t item c)"
proof -
  have "weeklyWindow < cfg_StateRetention c" using parsePluginConfig_ok [OF assms(1)] by (simp add: config_ok_def)
  note w = compact_windows [OF assms(2) this assms(3)]
  have "freshAuthoritative (compact s now (cfg_StateRetention c)) t c = freshAuthoritative s t c"
    by (simp add: freshAuthoritative_def compact_other)
  then show ?thesis
    by (simp add: view_def authoritativeView_def estimatedView_def compact_other w split: option.splits)
qed

theorem compaction_invisible_witness:
  "vw_Weekly (view (compact (zero_accountQuotaState\<lparr>st_Events := twoEvents\<rparr>) Hour (cfg_StateRetention sampleParsed)) Hour sampleAccount sampleParsed) =
   vw_Weekly (view (zero_accountQuotaState\<lparr>st_Events := twoEvents\<rparr>) Hour sampleAccount sampleParsed)"
proof -
  have "chronological (st_Events (zero_accountQuotaState\<lparr>st_Events := twoEvents\<rparr>))" by code_simp
  from compaction_invisible [OF sampleParsed_ok this order_refl] show ?thesis by blast
qed

text \<open>
  The duration \<^verbatim>\<open>8d\<close> is not a Go duration: a configuration that writes the retention that
  way is rejected, and \<^verbatim>\<open>192h\<close> is the way to write it.
\<close>

theorem eight_days_rejected:
  "parsePluginConfig (Inr (sampleRaw\<lparr>rc_StateRetention := ''8d''\<rparr>)) = Inl (Msg ''state-retention must be a positive duration'') \<and>
   parsePositiveDuration ''state-retention'' ''192h'' defaultStateRetention = Inr (8 * Day)"
  by code_simp

end
