(* ===== verification/Accounts.thy ===== *)
theory Accounts
  imports Config
begin

text \<open>
  Account discovery, \<^verbatim>\<open>internal/providers/zai/accounts.go\<close> and \<^verbatim>\<open>snapshot.go\<close>: the host
  configuration lists API keys twice (an Anthropic entry and an entry of the
  \<^verbatim>\<open>zai-coding-plan\<close> provider); the module pairs them, reproduces the host's auth IDs and
  applies the account overrides. SHA-256, HMAC and URL parsing are functions of \<open>golib\<close>.
\<close>

section \<open>The host configuration as far as it is read\<close>

record ClaudeKey =
  ck_APIKey :: string
  ck_BaseURL :: string
  ck_ProxyURL :: string
  ck_Prefix :: string
  ck_Headers :: "(string, string) gomap"

record OpenAIKeyEntry =
  oe_APIKey :: string
  oe_ProxyURL :: string

record OpenAICompatibility =
  oc_Name :: string
  oc_Disabled :: bool
  oc_BaseURL :: string
  oc_Headers :: "(string, string) gomap"
  oc_APIKeyEntries :: "OpenAIKeyEntry list"

record cpaPluginProjection =
  pp_Enabled :: "bool option"
  pp_Priority :: int

record cpaPluginsProjection =
  pj_Enabled :: bool
  pj_Configs :: "(string, cpaPluginProjection) gomap"

record cpaConfigProjection =
  cpa_AuthDir :: string
  cpa_ClaudeKeys :: "ClaudeKey list"
  cpa_OpenAICompatibility :: "OpenAICompatibility list"
  cpa_Plugins :: cpaPluginsProjection

record pairCandidate =
  pc_claudeCount :: int
  pc_openAIEntryCount :: int

section \<open>Definitions\<close>

definition zaiAnthropicBaseURL :: string where "zaiAnthropicBaseURL = ''https://api.z.ai/api/anthropic''"
definition zaiOpenAIBaseURL :: string where "zaiOpenAIBaseURL = ''https://api.z.ai/api/coding/paas/v4''"
definition zaiCompatName :: string where "zaiCompatName = ''zai-coding-plan''"
definition zaiIdentityNamespace :: string where "zaiIdentityNamespace = ''zai-coding-plan:account-identity:v1''"

definition authenticationHeaderNames :: "string list" where
  "authenticationHeaderNames = [''api-key'', ''authorization'', ''x-api-key'', ''x-zai-api-key'']"

definition NUL :: string where "NUL = [CHR 0x00]"

definition TrimRightSlash :: "string \<Rightarrow> string" where
  "TrimRightSlash s = rev (dropWhile (\<lambda>c. c = CHR ''/'') (rev s))"

definition normalizedBaseURL :: "golib \<Rightarrow> string \<Rightarrow> string result" where
  "normalizedBaseURL lib raw =
     (let trimmed = TrimSpace raw in
      if trimmed = [] then Inl (Msg ''base-url is required'')
      else case lib_urlParse lib trimmed of
        None \<Rightarrow> Inl (Msg ''invalid base-url'')
      | Some parsed \<Rightarrow>
          if url_Scheme parsed = [] \<or> url_Host parsed = [] \<or> url_HasUser parsed then Inl (Msg ''invalid base-url'')
          else if url_RawQuery parsed \<noteq> [] \<or> url_Fragment parsed \<noteq> []
          then Inl (Msg ''base-url must not include query or fragment'')
          else Inr (lib_urlString lib (parsed\<lparr>url_Scheme := ToLower (url_Scheme parsed),
                 url_Host := ToLower (url_Host parsed), url_Path := TrimRightSlash (url_Path parsed), url_RawPath := []\<rparr>)))"

definition recognizedBaseURL :: "golib \<Rightarrow> string \<Rightarrow> string \<Rightarrow> bool" where
  "recognizedBaseURL lib raw expected \<longleftrightarrow> normalizedBaseURL lib raw = Inr expected"

definition accountIdentity :: "golib \<Rightarrow> string \<Rightarrow> string" where
  "accountIdentity lib key = lib_hmacSHA256hex lib zaiIdentityNamespace (TrimSpace key)"

definition accountReference :: "golib \<Rightarrow> string \<Rightarrow> string" where
  "accountReference lib key = take 12 (accountIdentity lib key)"

definition displaySuffix :: "string \<Rightarrow> string" where
  "displaySuffix key =
     (let trimmed = TrimSpace key
      in if length trimmed \<le> 6 then ''redacted'' else drop (length trimmed - 6) trimmed)"

definition stableAuthID :: "golib \<Rightarrow> string \<Rightarrow> string list \<Rightarrow> string" where
  "stableAuthID lib kind parts = lib_sha256hex lib (kind @ concat (map (\<lambda>part. NUL @ TrimSpace part) parts))"

type_synonym stableIDGenerator = "(string, nat) gomap"

definition stableID_next :: "golib \<Rightarrow> string \<Rightarrow> string list \<Rightarrow> stableIDGenerator \<Rightarrow> string \<times> stableIDGenerator" where
  "stableID_next lib kind parts g =
     (let short = take 12 (stableAuthID lib kind parts);
          key = kind @ '':'' @ short;
          index = mget_or 0 g key;
          short' = (if index > 0 then short @ ''-'' @ Itoa (int index) else short)
      in (kind @ '':'' @ short', mput key (index + 1) g))"

definition formatSortedHeaders :: "(string, string) gomap \<Rightarrow> string" where
  "formatSortedHeaders headers =
     concat (map (\<lambda>key. key @ NUL @ mget_or [] headers key @ NUL) (sort (mkeys headers)))"

fun uniqueLoop :: "string list \<Rightarrow> string list \<Rightarrow> string list" where
  "uniqueLoop unique [] = unique"
| "uniqueLoop unique (v # rest) =
     (let val = TrimSpace v
      in if val = [] \<or> val \<in> set unique then uniqueLoop unique rest else uniqueLoop (unique @ [val]) rest)"

definition uniqueStrings :: "string list \<Rightarrow> string list" where
  "uniqueStrings values = uniqueLoop [] values"

definition accountAuthIDs :: "account \<Rightarrow> string list" where
  "accountAuthIDs item = uniqueStrings (acc_claudeAuthIDs item @ [acc_ClaudeAuthID item, acc_OpenAIAuthID item])"

definition indexAccountAuthIDs :: "(string, string) gomap \<Rightarrow> account \<Rightarrow> (string, string) gomap" where
  "indexAccountAuthIDs byAuthID item = foldl (\<lambda>m authID. mput authID (acc_Identity item) m) byAuthID (accountAuthIDs item)"

definition newRuntimeSnapshot :: "pluginConfig \<Rightarrow> account list \<Rightarrow> storeHandle option \<Rightarrow> runtimeSnapshot" where
  "newRuntimeSnapshot config accounts store =
     \<lparr>rs_Config = config, rs_BaseAccounts = accounts, rs_Accounts = accounts, rs_Store = store, rs_Quota = [],
      rs_Health = foldl (\<lambda>m item. mput (acc_Identity item) zero_healthState m) [] accounts,
      rs_Routing = [],
      rs_byAuthID = foldl indexAccountAuthIDs [] accounts,
      rs_byIdentity = foldl (\<lambda>m item. mput (acc_Identity item) item m) [] accounts,
      rs_Generation = 0\<rparr>"

definition authenticationHeader :: "(string, string) gomap \<Rightarrow> string option" where
  "authenticationHeader headers =
     find (\<lambda>name. name \<in> set authenticationHeaderNames) (map (\<lambda>name. ToLower (TrimSpace name)) (mkeys headers))"

definition zero_pair :: pairCandidate where
  "zero_pair = \<lparr>pc_claudeCount = 0, pc_openAIEntryCount = 0\<rparr>"

text \<open>The first loop: recognised Anthropic entries.\<close>

fun claudePairs :: "golib \<Rightarrow> ClaudeKey list \<Rightarrow> (string, pairCandidate) gomap \<Rightarrow> (string, pairCandidate) gomap result" where
  "claudePairs lib [] pairs = Inr pairs"
| "claudePairs lib (entry # rest) pairs =
     (let key = TrimSpace (ck_APIKey entry) in
      if \<not> recognizedBaseURL lib (ck_BaseURL entry) zaiAnthropicBaseURL then claudePairs lib rest pairs
      else if key = [] then Inl (Msg ''z.ai Anthropic entry has no API key'')
      else case authenticationHeader (ck_Headers entry) of
        Some header \<Rightarrow> Inl (Msg (''z.ai Anthropic entry contains authentication-affecting custom header '' @ header))
      | None \<Rightarrow>
          let pair = mget_or zero_pair pairs key
          in claudePairs lib rest (mput key (pair\<lparr>pc_claudeCount := pc_claudeCount pair + 1\<rparr>) pairs))"

fun entryPairs :: "OpenAIKeyEntry list \<Rightarrow> (string, pairCandidate) gomap \<Rightarrow> (string, pairCandidate) gomap result" where
  "entryPairs [] pairs = Inr pairs"
| "entryPairs (entry # rest) pairs =
     (let key = TrimSpace (oe_APIKey entry) in
      if key = [] then Inl (Msg ''zai-coding-plan provider contains an empty API key entry'')
      else
        let pair = mget_or zero_pair pairs key
        in entryPairs rest (mput key (pair\<lparr>pc_openAIEntryCount := pc_openAIEntryCount pair + 1\<rparr>) pairs))"

text \<open>The second loop: the entries of the compatibility provider.\<close>

fun openAIPairs :: "golib \<Rightarrow> OpenAICompatibility list \<Rightarrow> (string, pairCandidate) gomap \<Rightarrow> (string, pairCandidate) gomap result" where
  "openAIPairs lib [] pairs = Inr pairs"
| "openAIPairs lib (cpt # rest) pairs =
     (if ToLower (TrimSpace (oc_Name cpt)) \<noteq> zaiCompatName then openAIPairs lib rest pairs
      else if oc_Disabled cpt then Inl (Msg ''zai-coding-plan provider must be enabled'')
      else if \<not> recognizedBaseURL lib (oc_BaseURL cpt) zaiOpenAIBaseURL
      then Inl (Msg ''zai-coding-plan provider has invalid base URL'')
      else case authenticationHeader (oc_Headers cpt) of
        Some header \<Rightarrow> Inl (Msg (''zai-coding-plan provider contains authentication-affecting custom header '' @ header))
      | None \<Rightarrow>
          if oc_APIKeyEntries cpt = [] then Inl (Msg ''zai-coding-plan provider has no API key entries'')
          else bindR (entryPairs (oc_APIKeyEntries cpt) pairs) (openAIPairs lib rest))"

fun validatePairs :: "golib \<Rightarrow> (string, pairCandidate) gomap \<Rightarrow> unit result" where
  "validatePairs lib [] = Inr ()"
| "validatePairs lib ((key, pair) # rest) =
     (let reference = accountReference lib key in
      if pc_claudeCount pair > 1 then Inl (Msg (''duplicate Z.ai Anthropic entry for account '' @ reference))
      else if pc_openAIEntryCount pair > 1 then Inl (Msg (''duplicate zai-coding-plan entry for account '' @ reference))
      else if pc_claudeCount pair = 0 then Inl (Msg (''missing Z.ai Anthropic sibling for account '' @ reference))
      else if pc_openAIEntryCount pair = 0 then Inl (Msg (''missing zai-coding-plan sibling for account '' @ reference))
      else validatePairs lib rest)"

definition isPaired :: "(string, pairCandidate) gomap \<Rightarrow> string \<Rightarrow> bool" where
  "isPaired pairs key \<longleftrightarrow>
     (case mget pairs key of None \<Rightarrow> False | Some p \<Rightarrow> pc_claudeCount p = 1 \<and> pc_openAIEntryCount p = 1)"

text \<open>The auth IDs the host derives from the Anthropic entries, in its old and its new form.\<close>

fun claudeIDs ::
  "golib \<Rightarrow> (string, pairCandidate) gomap \<Rightarrow> ClaudeKey list \<Rightarrow> stableIDGenerator \<Rightarrow> stableIDGenerator \<Rightarrow>
     (string, string) gomap \<Rightarrow> (string, string) gomap \<Rightarrow> (string, string) gomap \<times> (string, string) gomap" where
  "claudeIDs lib pairs [] gl gc legacy cur = (legacy, cur)"
| "claudeIDs lib pairs (entry # rest) gl gc legacy cur =
     (let key = TrimSpace (ck_APIKey entry) in
      if key = [] then claudeIDs lib pairs rest gl gc legacy cur
      else
        let (legacyID, gl') = stableID_next lib ''claude:apikey'' [key, TrimSpace (ck_BaseURL entry)] gl;
            (currentID, gc') = stableID_next lib ''claude:apikey''
               [key, TrimSpace (ck_BaseURL entry), TrimSpace (ck_ProxyURL entry), TrimSpace (ck_Prefix entry),
                formatSortedHeaders (ck_Headers entry)] gc
        in if recognizedBaseURL lib (ck_BaseURL entry) zaiAnthropicBaseURL \<and> isPaired pairs key
           then claudeIDs lib pairs rest gl' gc' (mput key legacyID legacy) (mput key currentID cur)
           else claudeIDs lib pairs rest gl' gc' legacy cur)"

fun entryIDs ::
  "golib \<Rightarrow> OpenAICompatibility \<Rightarrow> string \<Rightarrow> OpenAIKeyEntry list \<Rightarrow> stableIDGenerator \<Rightarrow> (string, string) gomap \<Rightarrow>
     stableIDGenerator \<times> (string, string) gomap" where
  "entryIDs lib cpt providerName [] g ids = (g, ids)"
| "entryIDs lib cpt providerName (entry # rest) g ids =
     (let key = TrimSpace (oe_APIKey entry) in
      if key = [] then entryIDs lib cpt providerName rest g ids
      else
        let (authID, g') = stableID_next lib (''openai-compatibility:'' @ providerName)
               [key, TrimSpace (oc_BaseURL cpt), TrimSpace (oe_ProxyURL entry)] g
        in entryIDs lib cpt providerName rest g'
             (if recognizedBaseURL lib (oc_BaseURL cpt) zaiOpenAIBaseURL \<and> providerName = zaiCompatName
              then mput key authID ids else ids))"

fun openAIIDs ::
  "golib \<Rightarrow> OpenAICompatibility list \<Rightarrow> stableIDGenerator \<Rightarrow> (string, string) gomap \<Rightarrow> (string, string) gomap" where
  "openAIIDs lib [] g ids = ids"
| "openAIIDs lib (cpt # rest) g ids =
     (if oc_Disabled cpt then openAIIDs lib rest g ids
      else
        let name = ToLower (TrimSpace (oc_Name cpt));
            providerName = (if name = [] then ''openai-compatibility'' else name);
            (g', ids') = entryIDs lib cpt providerName (oc_APIKeyEntries cpt) g ids
        in openAIIDs lib rest g' ids')"

definition pairedAccount ::
  "golib \<Rightarrow> (string, string) gomap \<Rightarrow> (string, string) gomap \<Rightarrow> (string, string) gomap \<Rightarrow> string \<Rightarrow> account" where
  "pairedAccount lib legacy cur openAI key =
     zero_account\<lparr>acc_Identity := accountIdentity lib key, acc_KeySuffix := displaySuffix key,
       acc_ClaudeAuthID := mget_or [] legacy key, acc_OpenAIAuthID := mget_or [] openAI key,
       acc_claudeAuthIDs := uniqueStrings [mget_or [] legacy key, mget_or [] cur key], acc_key := key\<rparr>"

fun orderedAccounts ::
  "golib \<Rightarrow> (string, pairCandidate) gomap \<Rightarrow> (string, string) gomap \<Rightarrow> (string, string) gomap \<Rightarrow> (string, string) gomap \<Rightarrow>
     ClaudeKey list \<Rightarrow> account list result" where
  "orderedAccounts lib pairs legacy cur openAI [] = Inr []"
| "orderedAccounts lib pairs legacy cur openAI (entry # rest) =
     (let key = TrimSpace (ck_APIKey entry) in
      if \<not> isPaired pairs key then orderedAccounts lib pairs legacy cur openAI rest
      else
        let item = pairedAccount lib legacy cur openAI key
        in if acc_claudeAuthIDs item = [] \<or> acc_OpenAIAuthID item = []
           then Inl (Msg (''paired account '' @ acc_KeySuffix item @ '' has incomplete auth IDs''))
           else bindR (orderedAccounts lib pairs legacy cur openAI rest) (\<lambda>items. Inr (item # items)))"

fun authIDLoop :: "string \<Rightarrow> string list \<Rightarrow> (string, string) gomap \<Rightarrow> (string, string) gomap result" where
  "authIDLoop identity [] owners = Inr owners"
| "authIDLoop identity (authID # rest) owners =
     (let owner = mget_or [] owners authID
      in if owner \<noteq> [] \<and> owner \<noteq> identity then Inl (Msg ''host auth ID collision between validated accounts'')
         else authIDLoop identity rest (mput authID identity owners))"

fun ownersLoop :: "account list \<Rightarrow> (string, string) gomap \<Rightarrow> (string, string) gomap result" where
  "ownersLoop [] owners = Inr owners"
| "ownersLoop (item # rest) owners = bindR (authIDLoop (acc_Identity item) (accountAuthIDs item) owners) (ownersLoop rest)"

definition validateAccountAuthIDs :: "account list \<Rightarrow> unit result" where
  "validateAccountAuthIDs accounts = bindR (ownersLoop accounts []) (\<lambda>_. Inr ())"

definition overrideBuckets :: "accountOverride option \<Rightarrow> creditBuckets \<Rightarrow> creditBuckets" where
  "overrideBuckets ovr buckets =
     (case ovr of
        None \<Rightarrow> buckets
      | Some ov \<Rightarrow>
          \<lparr>cb_FiveHour = (if ovr_FiveHourCredits ov > 0 then ovr_FiveHourCredits ov else cb_FiveHour buckets),
           cb_Weekly = (if ovr_WeeklyCredits ov > 0 then ovr_WeeklyCredits ov else cb_Weekly buckets)\<rparr>)"

definition overrideTarget :: "accountOverride option \<Rightarrow> account \<Rightarrow> account" where
  "overrideTarget ovr target =
     (case ovr of
        None \<Rightarrow> target
      | Some ov \<Rightarrow>
          target\<lparr>acc_Name := (if ovr_Name ov \<noteq> [] then ovr_Name ov else acc_Name target),
                 acc_Disabled := ovr_Disabled ov,
                 acc_planExplicit := (ovr_Plan ov \<noteq> []),
                 acc_fiveHourCreditsExplicit := (ovr_FiveHourCredits ov > 0),
                 acc_weeklyCreditsExplicit := (ovr_WeeklyCredits ov > 0)\<rparr>)"

definition overridePlan :: "accountOverride option \<Rightarrow> string \<Rightarrow> string" where
  "overridePlan ovr defaultPlan =
     (case ovr of None \<Rightarrow> defaultPlan | Some ov \<Rightarrow> if ovr_Plan ov \<noteq> [] then ovr_Plan ov else defaultPlan)"

definition zero_buckets :: creditBuckets where
  "zero_buckets = \<lparr>cb_FiveHour = 0, cb_Weekly = 0\<rparr>"

definition applyAccountOverride :: "account \<Rightarrow> accountOverride option \<Rightarrow> string \<Rightarrow> nat \<Rightarrow> account result" where
  "applyAccountOverride target ovr defaultPlan index =
     (let plan = overridePlan ovr defaultPlan in
      if plan = [] then Inl (Msg (''account '' @ acc_KeySuffix target @ '' has no plan''))
      else if mget planBuckets plan = None \<and> plan \<noteq> ''custom''
      then Inl (Msg (''account '' @ acc_KeySuffix target @ '' has invalid plan''))
      else
        let buckets = overrideBuckets ovr (mget_or zero_buckets planBuckets plan);
            t1 = overrideTarget ovr target
        in if \<not> validCreditBucket (cb_FiveHour buckets) \<or> \<not> validCreditBucket (cb_Weekly buckets)
           then Inl (Msg (''account '' @ acc_KeySuffix target @ '' has non-positive or out-of-range credit bucket''))
           else Inr (t1\<lparr>acc_Name := (if acc_Name t1 = [] then ''zai-'' @ plan @ ''-'' @ Itoa (int index + 1) else acc_Name t1),
                        acc_Plan := plan, acc_FiveHourCredits := cb_FiveHour buckets,
                        acc_WeeklyCredits := cb_Weekly buckets\<rparr>))"

definition overrideMatches :: "accountOverride list \<Rightarrow> account \<Rightarrow> nat list" where
  "overrideMatches overrides item =
     filter (\<lambda>j. HasSuffix (acc_key item) (ovr_KeySuffix (overrides ! j))) [0..<length overrides]"

text \<open>The loop over the accounts: which overrides matched, and the accounts so far.\<close>

fun overrideLoop :: "pluginConfig \<Rightarrow> nat \<Rightarrow> nat list \<Rightarrow> account list \<Rightarrow> (nat list \<times> account list) result" where
  "overrideLoop cfg i matched [] = Inr (matched, [])"
| "overrideLoop cfg i matched (item # rest) =
     (let matches = overrideMatches (cfg_Accounts cfg) item in
      if length matches > 1 then Inl (Msg (''account suffix '' @ acc_KeySuffix item @ '' matches multiple overrides''))
      else
        let ovr = (case matches of [] \<Rightarrow> None | j # _ \<Rightarrow> Some (cfg_Accounts cfg ! j));
            matched' = matched @ matches
        in bindR (applyAccountOverride item ovr (cfg_DefaultPlan cfg) i) (\<lambda>item'.
           bindR (overrideLoop cfg (Suc i) matched' rest) (\<lambda>(m, items). Inr (m, item' # items))))"

fun matchedOnce :: "nat list \<Rightarrow> nat list \<Rightarrow> unit result" where
  "matchedOnce matched [] = Inr ()"
| "matchedOnce matched (i # rest) =
     (if i \<notin> set matched then Inl (Msg (''accounts['' @ Itoa (int i) @ '']: key-suffix matches no account''))
      else if length (filter (\<lambda>j. j = i) matched) > 1
      then Inl (Msg (''accounts['' @ Itoa (int i) @ '']: key-suffix matches multiple accounts''))
      else matchedOnce matched rest)"

definition applyAccountOverrides :: "account list \<Rightarrow> pluginConfig \<Rightarrow> account list result" where
  "applyAccountOverrides accounts cfg =
     bindR (overrideLoop cfg 0 [] accounts) (\<lambda>(matched, items).
     bindR (matchedOnce matched [0..<length (cfg_Accounts cfg)]) (\<lambda>_.
     bindR (guardR (distinct (map (ToLower \<circ> acc_Name) items)) ''duplicate account name'') (\<lambda>_. Inr items)))"

definition discoverAccounts :: "golib \<Rightarrow> cpaConfigProjection \<Rightarrow> pluginConfig \<Rightarrow> account list result" where
  "discoverAccounts lib cpa cfg =
     bindR (claudePairs lib (cpa_ClaudeKeys cpa) []) (\<lambda>pairs1.
     bindR (openAIPairs lib (cpa_OpenAICompatibility cpa) pairs1) (\<lambda>pairs.
       if pairs = [] then Inl (Msg ''no complete Z.ai account pairs found'')
       else
         bindR (validatePairs lib pairs) (\<lambda>_.
           let (legacy, cur) = claudeIDs lib pairs (cpa_ClaudeKeys cpa) [] [] [] [];
               openAI = openAIIDs lib (cpa_OpenAICompatibility cpa) [] []
           in bindR (orderedAccounts lib pairs legacy cur openAI (cpa_ClaudeKeys cpa)) (\<lambda>ordered.
              bindR (validateAccountAuthIDs ordered) (\<lambda>_. applyAccountOverrides ordered cfg)))))"

section \<open>An auth ID has one owner\<close>

lemma uniqueLoop_set: "set (uniqueLoop u vs) = set u \<union> (TrimSpace ` set vs - {[]})"
  by (induction u vs rule: uniqueLoop.induct) (auto simp: Let_def)

lemma uniqueLoop_distinct: "distinct u \<Longrightarrow> distinct (uniqueLoop u vs)"
  by (induction u vs rule: uniqueLoop.induct) (auto simp: Let_def)

lemma set_uniqueStrings: "set (uniqueStrings vs) = TrimSpace ` set vs - {[]}"
  by (simp add: uniqueStrings_def uniqueLoop_set)

lemma accountAuthIDs_nonempty: "[] \<notin> set (accountAuthIDs item)"
  by (simp add: accountAuthIDs_def set_uniqueStrings)

text \<open>\<open>owners\<close> is exactly the ownership relation of the accounts in \<open>done\<close>.\<close>

definition owned_by :: "(string, string) gomap \<Rightarrow> account list \<Rightarrow> bool" where
  "owned_by owners acs \<longleftrightarrow>
     (\<forall>x i. mget owners x = Some i \<longleftrightarrow> (\<exists>a \<in> set acs. x \<in> set (accountAuthIDs a) \<and> acc_Identity a = i))"

lemma authIDLoop_spec:
  assumes "authIDLoop i ids owners = Inr owners'" "i \<noteq> []" "\<forall>x. mget owners x \<noteq> Some []"
  shows "mget owners' x = (if x \<in> set ids then Some i else mget owners x) \<and>
     (x \<in> set ids \<longrightarrow> mget owners x = None \<or> mget owners x = Some i) \<and>
     owners' = foldl (\<lambda>m a. mput a i m) owners ids"
  using assms
proof (induction i ids owners rule: authIDLoop.induct)
  case (2 i a rest owners)
  have ok: "mget_or [] owners a = [] \<or> mget_or [] owners a = i"
    and step: "authIDLoop i rest (mput a i owners) = Inr owners'"
    using "2.prems"(1) by (auto simp: Let_def split: if_splits)
  have a: "mget owners a = None \<or> mget owners a = Some i"
    using ok "2.prems"(3) by (auto simp: mget_or_def split: option.splits)
  have nd: "\<not> (mget_or [] owners a \<noteq> [] \<and> mget_or [] owners a \<noteq> i)" using ok by auto
  have "\<forall>x. mget (mput a i owners) x \<noteq> Some []" using "2.prems"(2,3) by simp
  from "2.IH" [OF refl nd step "2.prems"(2) this] a show ?case by (auto split: if_splits)
qed auto

lemma ownersLoop_spec:
  assumes "ownersLoop acs owners = Inr owners'" "owned_by owners before" "\<forall>a \<in> set before \<union> set acs. acc_Identity a \<noteq> []"
  shows "owned_by owners' (before @ acs) \<and> owners' = foldl indexAccountAuthIDs owners acs"
  using assms
proof (induction acs arbitrary: owners before)
  case (Cons item acs)
  obtain owners1 where l: "authIDLoop (acc_Identity item) (accountAuthIDs item) owners = Inr owners1"
    and r: "ownersLoop acs owners1 = Inr owners'"
    using Cons.prems(1) by (auto simp: bindR_Inr_iff)
  have i: "acc_Identity item \<noteq> []" and ow: "\<forall>x. mget owners x \<noteq> Some []"
    using Cons.prems(2,3) by (auto simp: owned_by_def)
  note sp = authIDLoop_spec [OF l i ow]
  have o1: "owned_by owners1 (before @ [item])"
    unfolding owned_by_def
  proof (intro allI)
    fix x j
    show "mget owners1 x = Some j \<longleftrightarrow> (\<exists>a \<in> set (before @ [item]). x \<in> set (accountAuthIDs a) \<and> acc_Identity a = j)"
    proof -
      have own: "mget owners x = Some k \<longleftrightarrow> (\<exists>a \<in> set before. x \<in> set (accountAuthIDs a) \<and> acc_Identity a = k)" for k
        using Cons.prems(2) by (simp add: owned_by_def)
      show ?thesis
      proof (cases "x \<in> set (accountAuthIDs item)")
        case True
        then have "mget owners1 x = Some (acc_Identity item)" "\<And>k. mget owners x = Some k \<Longrightarrow> k = acc_Identity item"
          using conjunct1 [OF sp [of x]] conjunct1 [OF conjunct2 [OF sp [of x]]] by auto
        then show ?thesis using True own [of j] by auto
      next
        case False
        then have "mget owners1 x = mget owners x" using conjunct1 [OF sp [of x]] by simp
        then show ?thesis using False own [of j] by simp
      qed
    qed
  qed
  have "owners1 = indexAccountAuthIDs owners item" using sp by (simp add: indexAccountAuthIDs_def)
  moreover have "owned_by owners' ((before @ [item]) @ acs) \<and> owners' = foldl indexAccountAuthIDs owners1 acs"
    by (rule Cons.IH [OF r o1]) (use Cons.prems(3) in auto)
  ultimately show ?case by auto
qed (simp add: owned_by_def)

lemma validateAccountAuthIDs_index:
  assumes "validateAccountAuthIDs acs = Inr ()" "\<forall>a \<in> set acs. acc_Identity a \<noteq> []"
  shows "owned_by (foldl indexAccountAuthIDs [] acs) acs"
proof -
  obtain owners where "ownersLoop acs [] = Inr owners"
    using assms(1) by (auto simp: validateAccountAuthIDs_def bindR_Inr_iff)
  moreover have "owned_by [] []" by (simp add: owned_by_def)
  ultimately show ?thesis using ownersLoop_spec [of acs "[]" owners "[]"] assms(2) by auto
qed

section \<open>Discovered accounts are well formed\<close>

definition account_ok :: "account \<Rightarrow> bool" where
  "account_ok a \<longleftrightarrow> acc_Name a \<noteq> [] \<and> acc_Plan a \<in> {''lite'', ''pro'', ''max'', ''custom''} \<and>
     validCreditBucket (acc_FiveHourCredits a) \<and> validCreditBucket (acc_WeeklyCredits a)"

lemma planBuckets_known: "mget planBuckets p \<noteq> None \<or> p = ''custom'' \<Longrightarrow> p \<in> {''lite'', ''pro'', ''max'', ''custom''}"
  by (auto simp: planBuckets_def split: if_splits)

lemma overrideTarget_frame [simp]:
  "acc_Identity (overrideTarget ov a) = acc_Identity a" "acc_key (overrideTarget ov a) = acc_key a"
  "acc_claudeAuthIDs (overrideTarget ov a) = acc_claudeAuthIDs a"
  "acc_ClaudeAuthID (overrideTarget ov a) = acc_ClaudeAuthID a" "acc_OpenAIAuthID (overrideTarget ov a) = acc_OpenAIAuthID a"
  by (simp_all add: overrideTarget_def split: option.splits)

lemma applyAccountOverride_ok:
  assumes "applyAccountOverride a ov plan i = Inr a'"
  shows "account_ok a' \<and> acc_Identity a' = acc_Identity a \<and> acc_key a' = acc_key a \<and>
     accountAuthIDs a' = accountAuthIDs a"
  using assms planBuckets_known [of "overridePlan ov plan"]
  by (simp add: applyAccountOverride_def Let_def account_ok_def accountAuthIDs_def split: if_splits)
    (auto simp: account_ok_def)

lemma overrideLoop_ok:
  assumes "overrideLoop cfg i m acs = Inr (m', items)"
  shows "length items = length acs \<and> (\<forall>k < length acs. account_ok (items ! k) \<and>
     acc_Identity (items ! k) = acc_Identity (acs ! k) \<and> acc_key (items ! k) = acc_key (acs ! k) \<and>
     accountAuthIDs (items ! k) = accountAuthIDs (acs ! k))"
  using assms
proof (induction cfg i m acs arbitrary: m' items rule: overrideLoop.induct)
  case (2 cfg i m item rest)
  obtain ovr item' items' where a: "applyAccountOverride item ovr (cfg_DefaultPlan cfg) i = Inr item'"
    and l: "\<exists>m1. overrideLoop cfg (Suc i) (m @ overrideMatches (cfg_Accounts cfg) item) rest = Inr (m1, items')"
    and items: "items = item' # items'" and nd: "\<not> length (overrideMatches (cfg_Accounts cfg) item) > 1"
    using "2.prems" by (auto simp: Let_def bindR_Inr_iff split: if_splits)
  from l obtain m1 where "overrideLoop cfg (Suc i) (m @ overrideMatches (cfg_Accounts cfg) item) rest = Inr (m1, items')" by blast
  with "2.IH" [OF refl nd] have ih: "length items' = length rest \<and> (\<forall>k < length rest. account_ok (items' ! k) \<and>
     acc_Identity (items' ! k) = acc_Identity (rest ! k) \<and> acc_key (items' ! k) = acc_key (rest ! k) \<and>
     accountAuthIDs (items' ! k) = accountAuthIDs (rest ! k))" by blast
  show ?case using ih applyAccountOverride_ok [OF a] items by (auto simp: nth_Cons split: nat.splits)
qed auto

lemma orderedAccounts_keys:
  assumes "orderedAccounts lib pairs legacy cur openAI entries = Inr items"
  shows "map acc_key items = filter (isPaired pairs) (map (\<lambda>e. TrimSpace (ck_APIKey e)) entries) \<and>
    (\<forall>a \<in> set items. acc_Identity a = accountIdentity lib (acc_key a) \<and> acc_OpenAIAuthID a \<noteq> [] \<and> acc_claudeAuthIDs a \<noteq> [])"
  using assms
proof (induction entries arbitrary: items)
  case (Cons e entries)
  show ?case
  proof (cases "isPaired pairs (TrimSpace (ck_APIKey e))")
    case True
    then obtain items' where "orderedAccounts lib pairs legacy cur openAI entries = Inr items'"
      "items = pairedAccount lib legacy cur openAI (TrimSpace (ck_APIKey e)) # items'"
      "acc_OpenAIAuthID (hd items) \<noteq> []" "acc_claudeAuthIDs (hd items) \<noteq> []"
      using Cons.prems by (auto simp: Let_def bindR_Inr_iff split: if_splits)
    with Cons.IH True show ?thesis by (auto simp: pairedAccount_def)
  next
    case False
    with Cons show ?thesis by (simp add: Let_def)
  qed
qed simp

lemma applyAccountOverrides_ok:
  assumes "applyAccountOverrides acs cfg = Inr items"
  shows "map acc_key items = map acc_key acs \<and> map acc_Identity items = map acc_Identity acs \<and>
    map accountAuthIDs items = map accountAuthIDs acs \<and> (\<forall>a \<in> set items. account_ok a) \<and>
    distinct (map (ToLower \<circ> acc_Name) items)"
proof -
  obtain m where l: "overrideLoop cfg 0 [] acs = Inr (m, items)" and d: "distinct (map (ToLower \<circ> acc_Name) items)"
    using assms by (auto simp: applyAccountOverrides_def bindR_Inr_iff)
  note ok = overrideLoop_ok [OF l]
  then show ?thesis using d by (auto simp: list_eq_iff_nth_eq in_set_conv_nth)
qed

text \<open>The index and the ownership relation depend only on the auth IDs and the identity.\<close>

definition authSignature :: "account \<Rightarrow> string list \<times> string" where
  "authSignature a = (accountAuthIDs a, acc_Identity a)"

lemma index_signature:
  "foldl indexAccountAuthIDs m acs =
     foldl (\<lambda>m p. foldl (\<lambda>m x. mput x (snd p) m) m (fst p)) m (map authSignature acs)"
  by (induction acs arbitrary: m) (simp_all add: indexAccountAuthIDs_def authSignature_def)

lemma owned_by_signature:
  "owned_by owners acs \<longleftrightarrow>
     (\<forall>x i. mget owners x = Some i \<longleftrightarrow> (\<exists>p \<in> set (map authSignature acs). x \<in> set (fst p) \<and> snd p = i))"
  by (simp add: owned_by_def authSignature_def)

section \<open>Properties\<close>

text \<open>A library and a host configuration with one paired account, for the witnesses.\<close>

definition pathLib :: golib where
  "pathLib = sampleLib\<lparr>lib_urlParse := (\<lambda>s. Some \<lparr>url_Scheme = ''https'', url_HasUser = False, url_Host = ''api.z.ai'',
     url_Path = s, url_RawPath = [], url_RawQuery = [], url_Fragment = [], url_Rest = []\<rparr>)\<rparr>"

definition claudeEntry :: "string \<Rightarrow> string \<Rightarrow> ClaudeKey" where
  "claudeEntry key baseURL = \<lparr>ck_APIKey = key, ck_BaseURL = baseURL, ck_ProxyURL = [], ck_Prefix = [], ck_Headers = []\<rparr>"

definition sampleHost :: "ClaudeKey list \<Rightarrow> cpaConfigProjection" where
  "sampleHost claudeKeys =
     \<lparr>cpa_AuthDir = ''/auth'', cpa_ClaudeKeys = claudeKeys,
      cpa_OpenAICompatibility = [\<lparr>oc_Name = ''zai-coding-plan'', oc_Disabled = False, oc_BaseURL = zaiOpenAIBaseURL, oc_Headers = [],
         oc_APIKeyEntries = [\<lparr>oe_APIKey = ''secret-key-1'', oe_ProxyURL = []\<rparr>]\<rparr>],
      cpa_Plugins = \<lparr>pj_Enabled = True, pj_Configs = []\<rparr>\<rparr>"

lemma pathLib_hmac: "\<forall>k m. lib_hmacSHA256hex pathLib k m \<noteq> []"
  by (simp add: pathLib_def sampleLib_def)

text \<open>
  C27. What discovery promises to the runtime: every account has a name, a known plan and credit
  buckets in range, its identity is the keyed hash of its key, no two accounts share a name up to
  case, and in the index of the snapshot an auth ID leads to an identity exactly when an account
  with that identity owns it, so no credential is charged to two accounts.
\<close>

theorem discovered_accounts_ok:
  assumes "discoverAccounts lib cpa cfg = Inr items" "\<forall>k m. lib_hmacSHA256hex lib k m \<noteq> []"
  shows "(\<forall>a \<in> set items. account_ok a \<and> acc_Identity a = accountIdentity lib (acc_key a)) \<and>
    distinct (map (ToLower \<circ> acc_Name) items) \<and>
    owned_by (rs_byAuthID (newRuntimeSnapshot cfg items store)) items"
proof -
  obtain pairs legacy cur openAI acs where
      ord: "orderedAccounts lib pairs legacy cur openAI (cpa_ClaudeKeys cpa) = Inr acs"
    and val: "validateAccountAuthIDs acs = Inr ()" and app: "applyAccountOverrides acs cfg = Inr items"
    using assms(1) unfolding discoverAccounts_def
    by (auto simp: bindR_Inr_iff Let_def split_beta split: if_splits)
  note k = orderedAccounts_keys [OF ord]
  note ov = applyAccountOverrides_ok [OF app]
  have ident: "\<forall>a \<in> set acs. acc_Identity a \<noteq> []" using k assms(2) by (auto simp: accountIdentity_def)
  have own: "owned_by (foldl indexAccountAuthIDs [] acs) acs" by (rule validateAccountAuthIDs_index [OF val ident])
  have "map authSignature items = map authSignature acs"
    using ov by (auto simp: authSignature_def list_eq_iff_nth_eq)
  then have "owned_by (foldl indexAccountAuthIDs [] items) items"
    using own unfolding owned_by_signature index_signature by simp
  moreover have "map acc_Identity items = map (\<lambda>a. accountIdentity lib (acc_key a)) items"
  proof -
    have "map acc_Identity acs = map (accountIdentity lib) (map acc_key acs)"
      using conjunct2 [OF k] by simp
    then have "map acc_Identity items = map (accountIdentity lib) (map acc_key items)"
      using conjunct1 [OF ov] conjunct1 [OF conjunct2 [OF ov]] by (simp only:)
    then show ?thesis by simp
  qed
  then have "\<forall>a \<in> set items. acc_Identity a = accountIdentity lib (acc_key a)" by simp
  ultimately show ?thesis using ov by (simp add: newRuntimeSnapshot_def)
qed

theorem discovered_accounts_ok_witness:
  "\<exists>items. discoverAccounts pathLib (sampleHost [claudeEntry ''secret-key-1'' zaiAnthropicBaseURL]) sampleConfig = Inr items \<and>
     length items = 1 \<and> owned_by (rs_byAuthID (newRuntimeSnapshot sampleConfig items None)) items"
proof -
  let ?d = "discoverAccounts pathLib (sampleHost [claudeEntry ''secret-key-1'' zaiAnthropicBaseURL]) sampleConfig"
  have "\<not> isl ?d" "length (projr ?d) = 1" by code_simp+
  then obtain items where "?d = Inr items" "length items = 1" by (cases ?d) auto
  with discovered_accounts_ok [OF _ pathLib_hmac] show ?thesis by blast
qed

text \<open>
  Discovery can list one account twice: a key that also appears in an Anthropic entry of
  another provider yields two accounts with the same identity.
\<close>

theorem one_key_two_accounts:
  "map acc_Identity (projr (discoverAccounts pathLib
      (sampleHost [claudeEntry ''secret-key-1'' zaiAnthropicBaseURL, claudeEntry ''secret-key-1'' ''https://api.example.com'']) sampleConfig)) =
   [sampleIdentity, sampleIdentity] \<and>
   map acc_Name (projr (discoverAccounts pathLib
      (sampleHost [claudeEntry ''secret-key-1'' zaiAnthropicBaseURL, claudeEntry ''secret-key-1'' ''https://api.example.com'']) sampleConfig)) =
   [''zai-lite-1'', ''zai-lite-2'']"
  by code_simp

text \<open>
  An override without a plan pins the default plan: validation fills the default in, so the
  account counts as explicitly planned and a plan reported by the quota endpoint never replaces it.
\<close>

theorem override_pins_default_plan:
  assumes "ro_Plan raw = []" "validateAccountOverride raw plan = Inr ov" "plan \<noteq> []"
    and "applyAccountOverride target (Some ov) plan i = Inr item"
  shows "acc_Plan item = plan \<and> syncPlanFromUpstream [item] (acc_Identity item) upstream = (False, [item])"
proof -
  have ov: "ovr_Plan ov = plan"
    using assms(1,2) by (auto simp: validateAccountOverride_def Let_def bindR_Inr_iff normalizePlan_def ToLower_def split: if_splits)
  then have "acc_planExplicit item" "acc_Plan item = plan"
    using assms(3,4) by (auto simp: applyAccountOverride_def overridePlan_def overrideTarget_def Let_def split: if_splits)
  then show ?thesis by (simp add: syncPlanFromUpstream_def planLocked_def split: option.splits)
qed

theorem override_pins_default_plan_witness:
  "syncPlanFromUpstream [projr (applyAccountOverride zero_account (Some (hd (cfg_Accounts sampleParsed))) ''pro'' 0)] [] ''max'' =
     (False, [projr (applyAccountOverride zero_account (Some (hd (cfg_Accounts sampleParsed))) ''pro'' 0)])"
proof -
  let ?raw = "hd (rc_Accounts sampleRaw)" and ?ov = "hd (cfg_Accounts sampleParsed)"
  let ?a = "applyAccountOverride zero_account (Some ?ov) ''pro'' 0"
  have f: "ro_Plan ?raw = []" "validateAccountOverride ?raw ''pro'' = Inr ?ov" "\<not> isl ?a" "acc_Identity (projr ?a) = []" by code_simp+
  then have "?a = Inr (projr ?a)" by (metis isl_def sum.collapse(2))
  from override_pins_default_plan [OF f(1,2) _ this, of "''max''"] f(4) show ?thesis by simp
qed

end
