(* ===== verification/Securestore.thy ===== *)
theory Securestore
  imports Prelude
begin

text \<open>
  The secure file store, \<^verbatim>\<open>internal/securestore\<close>, with the Linux system calls of
  \<^verbatim>\<open>securestore_linux.go\<close> spelled out one by one. A program is a function of the behaviour
  of the operating system (\<open>osEnv\<close>: which calls fail, with what, and at which call the process
  dies) and of the directory (\<open>world\<close>: what a reader sees now, what is durable, and which
  changes a crash may still lose). The lemmas are Hoare-style rules for the calls, and the
  theorems say what a write leaves behind at every point it can stop.
\<close>

section \<open>Directory, operating system, programs\<close>

datatype filekind = RegularFile | DirectoryFile | SymlinkFile | OtherFile

record fileInfo =
  fi_Kind :: filekind
  fi_Perm :: int
  fi_Inode :: nat

text \<open>\<open>de_Synced\<close> records that the contents of the file have been flushed since they were written.\<close>

record dirent =
  de_Kind :: filekind
  de_Perm :: int
  de_Data :: string
  de_Synced :: bool

text \<open>
  \<open>wd_now\<close> is the directory as open calls see it, \<open>wd_synced\<close> as of the last flush of the
  directory, and \<open>wd_pending\<close> the entries that changed since.
\<close>

record world =
  wd_now :: "(string, dirent) gomap"
  wd_synced :: "(string, dirent) gomap"
  wd_pending :: "(string \<times> dirent option) list"
  wd_tick :: nat

text \<open>The outcome of looking up a path: absent, an error of the call, or the answer.\<close>

datatype 'a lookup = Missing | LookupErr string | Found 'a

text \<open>
  The operating system at each call, by its number: whether the process is still alive, the error
  text of a call that fails (a call that fails has no effect), what \<open>Lstat\<close>, \<open>Stat\<close> of the
  directory handle and \<open>EvalSymlinks\<close> answer, and the random suffix of a temporary file.
\<close>

record osEnv =
  os_alive :: "nat \<Rightarrow> bool"
  os_fail :: "nat \<Rightarrow> string option"
  os_lstat :: "nat \<Rightarrow> string \<Rightarrow> fileInfo lookup"
  os_fstat :: "nat \<Rightarrow> string + fileInfo"
  os_evalSymlinks :: "nat \<Rightarrow> string \<Rightarrow> string + string"
  os_suffix :: "nat \<Rightarrow> string"

datatype 'a outcome = Crashed | Done 'a

type_synonym 'a io = "osEnv \<Rightarrow> world \<Rightarrow> 'a outcome \<times> world"

definition returnIO :: "'a \<Rightarrow> 'a io" where
  "returnIO x env w = (Done x, w)"

definition bindIO :: "'a io \<Rightarrow> ('a \<Rightarrow> 'b io) \<Rightarrow> 'b io" where
  "bindIO f g env w = (case f env w of (Crashed, w') \<Rightarrow> (Crashed, w') | (Done x, w') \<Rightarrow> g x env w')"

text \<open>A sequence in which an error returns at once.\<close>

definition thenIO :: "'a result io \<Rightarrow> ('a \<Rightarrow> 'b result io) \<Rightarrow> 'b result io" where
  "thenIO f g = bindIO f (\<lambda>r. case r of Inl e \<Rightarrow> returnIO (Inl e) | Inr x \<Rightarrow> g x)"

definition wrapIO :: "(go_error \<Rightarrow> go_error) \<Rightarrow> 'a result io \<Rightarrow> 'a result io" where
  "wrapIO h f = bindIO f (\<lambda>r. returnIO (case r of Inl e \<Rightarrow> Inl (h e) | Inr x \<Rightarrow> Inr x))"

text \<open>One system call: \<open>ask\<close> reads its answer from the environment and the world.\<close>

definition sysIO :: "(osEnv \<Rightarrow> nat \<Rightarrow> world \<Rightarrow> 'a \<times> world) \<Rightarrow> 'a io" where
  "sysIO ask env w =
     (if os_alive env (wd_tick w)
      then (case ask env (wd_tick w) w of (x, w') \<Rightarrow> (Done x, w'\<lparr>wd_tick := Suc (wd_tick w)\<rparr>))
      else (Crashed, w))"

definition osResult :: "string + 'a \<Rightarrow> 'a result" where
  "osResult r = (case r of Inl e \<Rightarrow> Inl (Msg e) | Inr x \<Rightarrow> Inr x)"

text \<open>A call that can fail and otherwise answers with \<open>f\<close>.\<close>

definition callIO :: "(world \<Rightarrow> 'a \<times> world) \<Rightarrow> 'a result io" where
  "callIO f = sysIO (\<lambda>env t w. case os_fail env t of
     Some e \<Rightarrow> (Inl (Msg e), w) | None \<Rightarrow> (case f w of (x, w') \<Rightarrow> (Inr x, w')))"

definition setEntry :: "string \<Rightarrow> dirent option \<Rightarrow> world \<Rightarrow> world" where
  "setEntry n d w =
     w\<lparr>wd_now := (case d of None \<Rightarrow> mdel n (wd_now w) | Some x \<Rightarrow> mput n x (wd_now w)),
       wd_pending := (n, d) # wd_pending w\<rparr>"

definition syncWorld :: "world \<Rightarrow> world" where
  "syncWorld w = w\<lparr>wd_synced := wd_now w, wd_pending := []\<rparr>"

section \<open>Paths\<close>

fun splitSlash :: "string \<Rightarrow> string list" where
  "splitSlash [] = [[]]"
| "splitSlash (c # cs) =
     (if c = CHR ''/'' then [] # splitSlash cs
      else case splitSlash cs of [] \<Rightarrow> [[c]] | p # ps \<Rightarrow> (c # p) # ps)"

text \<open>A clean path: whether it is rooted, and its components from the last to the first.\<close>

type_synonym gopath = "bool \<times> string list"

fun cleanLoop :: "bool \<Rightarrow> string list \<Rightarrow> string list \<Rightarrow> string list" where
  "cleanLoop rooted acc [] = acc"
| "cleanLoop rooted acc (p # ps) =
     (if p = [] \<or> p = ''.'' then cleanLoop rooted acc ps
      else if p = ''..'' then
        (case acc of
           [] \<Rightarrow> cleanLoop rooted (if rooted then [] else [p]) ps
         | q # qs \<Rightarrow> if \<not> rooted \<and> q = ''..'' then cleanLoop rooted (p # acc) ps else cleanLoop rooted qs ps)
      else cleanLoop rooted (p # acc) ps)"

definition IsAbs :: "string \<Rightarrow> bool" where
  "IsAbs s \<longleftrightarrow> HasPrefix s ''/''"

definition cleanPath :: "string \<Rightarrow> gopath" where
  "cleanPath s = (IsAbs s, cleanLoop (IsAbs s) [] (splitSlash s))"

definition pathString :: "gopath \<Rightarrow> string" where
  "pathString p =
     (case p of (rooted, comps) \<Rightarrow>
        if rooted then ''/'' @ Join (rev comps) ''/''
        else if comps = [] then ''.'' else Join (rev comps) ''/'')"

text \<open>\<open>filepath.Dir\<close> of a clean path drops its last component; the root and \<open>.\<close> are their own parents.\<close>

definition pathDir :: "gopath \<Rightarrow> gopath" where
  "pathDir p = (fst p, tl (snd p))"

text \<open>\<open>filepath.Base(name) == name\<close>, for a name that is not empty: no slash, or the root.\<close>

text \<open>\<open>filepath.Join\<close> of two elements and \<open>filepath.Base\<close>.\<close>

definition joinPath :: "string \<Rightarrow> string \<Rightarrow> string" where
  "joinPath dir name =
     (if dir = [] \<and> name = [] then []
      else pathString (cleanPath (if dir = [] then name else dir @ ''/'' @ name)))"

definition pathBase :: "string \<Rightarrow> string" where
  "pathBase s =
     (if s = [] then ''.''
      else case dropWhile (\<lambda>c. c = CHR ''/'') (rev s) of [] \<Rightarrow> ''/'' | t \<Rightarrow> rev (takeWhile (\<lambda>c. c \<noteq> CHR ''/'') t))"

definition isBase :: "string \<Rightarrow> bool" where
  "isBase name \<longleftrightarrow> CHR ''/'' \<notin> set name \<or> name = ''/''"

fun rejectLoop :: "bool \<Rightarrow> string list \<Rightarrow> unit result io" where
  "rejectLoop rooted comps =
     bindIO (sysIO (\<lambda>env t w. (os_lstat env t (pathString (rooted, comps)), w))) (\<lambda>info.
       case info of
         Found _ \<Rightarrow>
           thenIO (wrapIO (Wrapped ''inspect secure store parent'')
                     (sysIO (\<lambda>env t w. (osResult (os_evalSymlinks env t (pathString (rooted, comps))), w)))) (\<lambda>resolved.
             if resolved \<noteq> pathString (rooted, comps)
             then returnIO (Inl (Msg ''secure store parent contains a symlink'')) else returnIO (Inr ()))
       | LookupErr e \<Rightarrow> returnIO (Inl (Wrapped ''inspect secure store parent'' (Msg e)))
       | Missing \<Rightarrow> (case comps of [] \<Rightarrow> returnIO (Inr ()) | _ # parent \<Rightarrow> rejectLoop rooted parent))"

declare rejectLoop.simps [simp del]

definition RejectSymlinkPathComponents :: "gopath \<Rightarrow> unit result io" where
  "RejectSymlinkPathComponents p = rejectLoop (fst p) (snd p)"

section \<open>The store\<close>

definition maxFileSize :: int where "maxFileSize = 8388608"

fun OutcomeOf :: "go_error \<Rightarrow> write_outcome" where
  "OutcomeOf (WriteErr outcome m) = outcome"
| "OutcomeOf (Wrapped p e) = OutcomeOf e"
| "OutcomeOf (PendingErr e) = OutcomeOf e"
| "OutcomeOf _ = WriteNotCommitted"

text \<open>\<open>so_handle\<close> says that the directory handle is open.\<close>

record Store =
  so_dir :: gopath
  so_handle :: bool
  so_closed :: bool

definition ensureSecureDirectory :: "gopath \<Rightarrow> unit result io" where
  "ensureSecureDirectory dir =
     thenIO (RejectSymlinkPathComponents (pathDir dir)) (\<lambda>_.
     bindIO (sysIO (\<lambda>env t w. (os_lstat env t (pathString dir), w))) (\<lambda>info.
       case (case info of
               Found i \<Rightarrow> if fi_Kind i = SymlinkFile \<or> fi_Kind i \<noteq> DirectoryFile
                          then Some (Msg ''secure store path is not a directory'') else None
             | LookupErr e \<Rightarrow> Some (Wrapped ''inspect secure store directory'' (Msg e))
             | Missing \<Rightarrow> None) of
         Some e \<Rightarrow> returnIO (Inl e)
       | None \<Rightarrow>
           thenIO (wrapIO (Wrapped ''create secure store directory'') (callIO (\<lambda>w. ((), w)))) (\<lambda>_.
             wrapIO (Wrapped ''chmod secure store directory'') (callIO (\<lambda>w. ((), w))))))"

definition openSecureDirectory :: "unit result io" where
  "openSecureDirectory = wrapIO (Wrapped ''open secure store directory'') (callIO (\<lambda>w. ((), w)))"

definition New :: "string \<Rightarrow> Store result io" where
  "New dir =
     (let clean = cleanPath (TrimSpace dir)
      in if pathString clean = ''.'' \<or> \<not> IsAbs (pathString clean)
         then returnIO (Inl (Msg ''secure store dir must be an absolute path''))
         else thenIO (ensureSecureDirectory clean) (\<lambda>_.
              thenIO openSecureDirectory (\<lambda>_.
                returnIO (Inr \<lparr>so_dir = clean, so_handle = True, so_closed = False\<rparr>))))"

definition EnsureEmptyProviderDir :: "string \<Rightarrow> unit result io" where
  "EnsureEmptyProviderDir dir =
     (let clean = cleanPath (TrimSpace dir)
      in if pathString clean = ''.'' \<or> \<not> IsAbs (pathString clean)
         then returnIO (Inl (Msg ''secure store dir must be an absolute path''))
         else ensureSecureDirectory clean)"

definition securePathLocked :: "Store \<Rightarrow> string \<Rightarrow> string result" where
  "securePathLocked s name =
     (if pathString (so_dir s) = [] \<or> so_closed s then Inl (Msg ''secure store is not initialized'')
      else if \<not> isBase name \<or> name = ''.'' \<or> name = [] then Inl (Msg ''invalid store file name'')
      else Inr (pathString (fst (so_dir s), name # snd (so_dir s))))"

definition directoryProblem :: "fileInfo \<Rightarrow> fileInfo \<Rightarrow> go_error option" where
  "directoryProblem pathInfo handleInfo =
     (if fi_Kind pathInfo = SymlinkFile \<or> fi_Kind pathInfo \<noteq> DirectoryFile \<or> fi_Kind handleInfo \<noteq> DirectoryFile
      then Some (Msg ''secure store path is not a directory'')
      else if fi_Perm pathInfo \<noteq> 448 \<or> fi_Perm handleInfo \<noteq> 448
      then Some (Msg ''secure store directory has insecure permissions'')
      else if fi_Inode pathInfo \<noteq> fi_Inode handleInfo
      then Some (Msg ''secure store directory was replaced'') else None)"

definition validateDirectoryLocked :: "Store \<Rightarrow> unit result io" where
  "validateDirectoryLocked s =
     (if pathString (so_dir s) = [] \<or> \<not> so_handle s \<or> so_closed s
      then returnIO (Inl (Msg ''secure store is not initialized''))
      else bindIO (sysIO (\<lambda>env t w. (os_lstat env t (pathString (so_dir s)), w))) (\<lambda>found.
        case found of
          Missing \<Rightarrow> returnIO (Inl (Wrapped ''inspect secure store directory'' (Msg ''no such file or directory'')))
        | LookupErr e \<Rightarrow> returnIO (Inl (Wrapped ''inspect secure store directory'' (Msg e)))
        | Found pathInfo \<Rightarrow>
            thenIO (wrapIO (Wrapped ''inspect opened secure store directory'') (sysIO (\<lambda>env t w. (osResult (os_fstat env t), w)))) (\<lambda>handleInfo.
              case directoryProblem pathInfo handleInfo of
                Some e \<Rightarrow> returnIO (Inl e)
              | None \<Rightarrow> RejectSymlinkPathComponents (pathDir (so_dir s)))))"

section \<open>System calls of a write\<close>

definition rejectExistingTargetAt :: "string \<Rightarrow> unit result io" where
  "rejectExistingTargetAt name =
     thenIO (wrapIO (Wrapped ''inspect target'') (callIO (\<lambda>w. (mget (wd_now w) name, w)))) (\<lambda>stat.
       case stat of
         None \<Rightarrow> returnIO (Inr ())
       | Some d \<Rightarrow>
           if de_Kind d = SymlinkFile then returnIO (Inl (Msg ''refusing symlink target''))
           else if de_Kind d \<noteq> RegularFile then returnIO (Inl (Msg ''target is not a regular file''))
           else returnIO (Inr ()))"

definition tempNameOf :: "string \<Rightarrow> string \<Rightarrow> string" where
  "tempNameOf name suf = ''.'' @ name @ ''.tmp-'' @ suf"

definition newFile :: "dirent" where
  "newFile = \<lparr>de_Kind = RegularFile, de_Perm = 384, de_Data = [], de_Synced = False\<rparr>"

text \<open>The loop of \<open>createTempAt\<close>, with the attempts that are left. \<open>O_EXCL\<close> refuses a name that exists.\<close>

fun createTempLoop :: "nat \<Rightarrow> string \<Rightarrow> string result io" where
  "createTempLoop 0 name = returnIO (Inl (Msg (''create temporary '' @ name @ '': name collision'')))"
| "createTempLoop (Suc attempts) name =
     thenIO (wrapIO (Wrapped (''generate temporary '' @ name @ '' name''))
               (sysIO (\<lambda>env t w. (case os_fail env t of Some e \<Rightarrow> Inl (Msg e) | None \<Rightarrow> Inr (os_suffix env t), w)))) (\<lambda>suf.
     let tempName = tempNameOf name suf in
     thenIO (wrapIO (Wrapped (''create temporary '' @ name))
               (callIO (\<lambda>w. if mget (wd_now w) tempName = None then (True, setEntry tempName (Some newFile) w) else (False, w)))) (\<lambda>created.
       if created then returnIO (Inr tempName) else createTempLoop attempts name))"

definition createTempAt :: "string \<Rightarrow> string result io" where
  "createTempAt name = createTempLoop 100 name"

text \<open>Writing and flushing the open temporary file.\<close>

definition writeFile :: "string \<Rightarrow> string \<Rightarrow> unit result io" where
  "writeFile name contents =
     callIO (\<lambda>w. ((), setEntry name (Some (newFile\<lparr>de_Data := contents\<rparr>)) w))"

definition syncFile :: "string \<Rightarrow> unit result io" where
  "syncFile name =
     callIO (\<lambda>w. ((), case mget (wd_now w) name of
        None \<Rightarrow> w | Some d \<Rightarrow> setEntry name (Some (d\<lparr>de_Synced := True\<rparr>)) w))"

definition unlinkAt :: "string \<Rightarrow> unit result io" where
  "unlinkAt name = callIO (\<lambda>w. ((), setEntry name None w))"

definition renameAt :: "string \<Rightarrow> string \<Rightarrow> unit result io" where
  "renameAt source target =
     callIO (\<lambda>w. ((), setEntry source None (setEntry target (mget (wd_now w) source) w)))"

definition syncDirLocked :: "unit result io" where
  "syncDirLocked = callIO (\<lambda>w. ((), syncWorld w))"

text \<open>The deferred \<open>Unlinkat\<close> of a temporary file that was not renamed; its error is dropped.\<close>

definition discardTemp :: "string \<Rightarrow> 'a result io \<Rightarrow> 'a result io" where
  "discardTemp tempName f =
     bindIO f (\<lambda>r. case r of
       Inr x \<Rightarrow> returnIO (Inr x)
     | Inl e \<Rightarrow> bindIO (unlinkAt tempName) (\<lambda>_. returnIO (Inl e)))"

definition fillTemp :: "string \<Rightarrow> string \<Rightarrow> string \<Rightarrow> unit result io" where
  "fillTemp name tempName contents =
     thenIO (wrapIO (Wrapped (''write temporary '' @ name)) (writeFile tempName contents)) (\<lambda>_.
     thenIO (wrapIO (Wrapped (''sync temporary '' @ name)) (syncFile tempName)) (\<lambda>_.
     thenIO (wrapIO (Wrapped (''close temporary '' @ name)) (callIO (\<lambda>w. ((), w)))) (\<lambda>_.
     thenIO (rejectExistingTargetAt name) (\<lambda>_.
       wrapIO (Wrapped (''replace '' @ name)) (renameAt tempName name)))))"

definition syncOrRecover :: "unit result io" where
  "syncOrRecover =
     wrapIO (\<lambda>e. WriteErr WriteNeedsRecovery (''sync secure store directory: '' @ error_text e)) syncDirLocked"

definition writeJSONAt :: "string \<Rightarrow> string \<Rightarrow> unit result io" where
  "writeJSONAt name contents =
     thenIO (rejectExistingTargetAt name) (\<lambda>_.
     thenIO (createTempAt name) (\<lambda>tempName.
     thenIO (discardTemp tempName (fillTemp name tempName contents)) (\<lambda>_.
       syncOrRecover)))"

definition removeJSONAt :: "string \<Rightarrow> unit result io" where
  "removeJSONAt name =
     thenIO (wrapIO (Wrapped (''remove '' @ name))
       (callIO (\<lambda>w. case mget (wd_now w) name of None \<Rightarrow> (False, w) | Some _ \<Rightarrow> (True, setEntry name None w)))) (\<lambda>removed.
       if removed then syncOrRecover else returnIO (Inr ()))"

section \<open>Operations of the store\<close>

text \<open>\<open>encode\<close> is \<open>json.Marshal\<close> of the value that is written; \<open>decode\<close> is the strict decoder of a read.\<close>

definition WriteJSON :: "Store \<Rightarrow> string \<Rightarrow> string result \<Rightarrow> unit result io" where
  "WriteJSON s name encoded =
     thenIO (returnIO (securePathLocked s name)) (\<lambda>_.
     thenIO (validateDirectoryLocked s) (\<lambda>_.
     case encoded of
       Inl e \<Rightarrow> returnIO (Inl (Wrapped (''encode '' @ name) e))
     | Inr raw \<Rightarrow>
         let contents = raw @ [CHR 0x0A] in
         if int (length contents) > maxFileSize then returnIO (Inl (Msg (name @ '' exceeds maximum size'')))
         else thenIO (writeJSONAt name contents) (\<lambda>_. validateDirectoryLocked s)))"

definition RemoveJSON :: "Store \<Rightarrow> string \<Rightarrow> unit result io" where
  "RemoveJSON s name =
     thenIO (returnIO (securePathLocked s name)) (\<lambda>_.
     thenIO (validateDirectoryLocked s) (\<lambda>_.
     thenIO (removeJSONAt name) (\<lambda>_. validateDirectoryLocked s)))"

definition openFileAt :: "string \<Rightarrow> dirent lookup io" where
  "openFileAt name = sysIO (\<lambda>env t w.
     (case os_fail env t of
        Some e \<Rightarrow> LookupErr e
      | None \<Rightarrow> (case mget (wd_now w) name of
            None \<Rightarrow> Missing
          | Some d \<Rightarrow> if de_Kind d = SymlinkFile then LookupErr ''too many levels of symbolic links'' else Found d), w))"

definition decodeFile :: "string \<Rightarrow> (string \<Rightarrow> 'v option) \<Rightarrow> dirent \<Rightarrow> 'v result" where
  "decodeFile name decode d =
     (if de_Kind d \<noteq> RegularFile then Inl (Msg (name @ '' is not a regular file''))
      else if de_Perm d \<noteq> 384 then Inl (Msg (name @ '' has insecure permissions''))
      else if int (length (de_Data d)) > maxFileSize then Inl (Msg (name @ '' exceeds maximum size''))
      else if de_Data d = [] then Inl (Msg (''decode '' @ name @ '': empty file''))
      else case decode (de_Data d) of
        None \<Rightarrow> Inl (Msg (''decode '' @ name @ '': corrupt state''))
      | Some v \<Rightarrow> Inr v)"

definition ReadJSONIfExists :: "Store \<Rightarrow> string \<Rightarrow> (string \<Rightarrow> 'v option) \<Rightarrow> 'v option result io" where
  "ReadJSONIfExists s name decode =
     thenIO (returnIO (securePathLocked s name)) (\<lambda>_.
     thenIO (validateDirectoryLocked s) (\<lambda>_.
     bindIO (openFileAt name) (\<lambda>opened.
       case opened of
         Missing \<Rightarrow> returnIO (Inr None)
       | LookupErr e \<Rightarrow> returnIO (Inl (Wrapped (''open '' @ name) (Msg e)))
       | Found d \<Rightarrow>
           thenIO (wrapIO (Wrapped (''stat '' @ name)) (callIO (\<lambda>w. ((), w)))) (\<lambda>_.
           thenIO (wrapIO (Wrapped (''read '' @ name)) (callIO (\<lambda>w. ((), w)))) (\<lambda>_.
             returnIO (case decodeFile name decode d of Inl e \<Rightarrow> Inl e | Inr v \<Rightarrow> Inr (Some v)))))))"

text \<open>\<open>ReadJSON\<close> leaves the zero value in place when the file does not exist.\<close>

definition ReadJSON :: "Store \<Rightarrow> string \<Rightarrow> (string \<Rightarrow> 'v option) \<Rightarrow> 'v \<Rightarrow> 'v result io" where
  "ReadJSON s name decode z =
     thenIO (ReadJSONIfExists s name decode) (\<lambda>r. returnIO (Inr (case r of None \<Rightarrow> z | Some v \<Rightarrow> v)))"

definition Flush :: "Store \<Rightarrow> unit result io" where
  "Flush s = thenIO (validateDirectoryLocked s) (\<lambda>_. syncDirLocked)"

definition Close :: "Store \<Rightarrow> (unit result \<times> Store) io" where
  "Close s =
     (if so_closed s then returnIO (Inr (), s)
      else let s' = s\<lparr>so_closed := True, so_handle := False\<rparr> in
        if \<not> so_handle s then returnIO (Inr (), s')
        else bindIO (callIO (\<lambda>w. ((), w))) (\<lambda>r. returnIO (r, s')))"

section \<open>Rules for programs\<close>

text \<open>The weakest precondition of a program, for a postcondition that also sees a crash.\<close>

definition wp :: "'a io \<Rightarrow> osEnv \<Rightarrow> ('a outcome \<Rightarrow> world \<Rightarrow> bool) \<Rightarrow> world \<Rightarrow> bool" where
  "wp f env Q w \<longleftrightarrow> (case f env w of (r, w') \<Rightarrow> Q r w')"

lemma wp_mono: "wp f env Q w \<Longrightarrow> (\<And>r w'. Q r w' \<Longrightarrow> R r w') \<Longrightarrow> wp f env R w"
  by (auto simp: wp_def split: prod.splits)

lemma wpD: "wp f env Q w \<Longrightarrow> f env w = (r, w') \<Longrightarrow> Q r w'"
  by (simp add: wp_def)

lemma wp_return [simp]: "wp (returnIO x) env Q w \<longleftrightarrow> Q (Done x) w"
  by (simp add: wp_def returnIO_def)

lemma wp_bind [simp]:
  "wp (bindIO f g) env Q w \<longleftrightarrow>
     wp f env (\<lambda>r w'. case r of Crashed \<Rightarrow> Q Crashed w' | Done x \<Rightarrow> wp (g x) env Q w') w"
  by (auto simp: wp_def bindIO_def split: prod.splits outcome.splits)

lemma wp_then [simp]:
  "wp (thenIO f g) env Q w \<longleftrightarrow>
     wp f env (\<lambda>r w'. case r of Crashed \<Rightarrow> Q Crashed w' | Done (Inl e) \<Rightarrow> Q (Done (Inl e)) w'
                 | Done (Inr x) \<Rightarrow> wp (g x) env Q w') w"
  by (auto simp: thenIO_def wp_def bindIO_def returnIO_def split: prod.splits outcome.splits sum.splits)

lemma wp_wrap [simp]:
  "wp (wrapIO h f) env Q w \<longleftrightarrow>
     wp f env (\<lambda>r w'. Q (case r of Crashed \<Rightarrow> Crashed | Done (Inl e) \<Rightarrow> Done (Inl (h e)) | Done (Inr x) \<Rightarrow> Done (Inr x)) w') w"
  by (auto simp: wrapIO_def wp_def bindIO_def returnIO_def split: prod.splits outcome.splits sum.splits)

lemma wp_sys:
  "wp (sysIO ask) env Q w \<longleftrightarrow>
     (if os_alive env (wd_tick w)
      then (case ask env (wd_tick w) w of (x, w') \<Rightarrow> Q (Done x) (w'\<lparr>wd_tick := Suc (wd_tick w)\<rparr>))
      else Q Crashed w)"
  by (auto simp: wp_def sysIO_def split: prod.splits)

lemma wp_call:
  "wp (callIO f) env Q w \<longleftrightarrow>
     (if os_alive env (wd_tick w)
      then (case os_fail env (wd_tick w) of
              Some e \<Rightarrow> Q (Done (Inl (Msg e))) (w\<lparr>wd_tick := Suc (wd_tick w)\<rparr>)
            | None \<Rightarrow> (case f w of (x, w') \<Rightarrow> Q (Done (Inr x)) (w'\<lparr>wd_tick := Suc (wd_tick w)\<rparr>)))
      else Q Crashed w)"
  by (auto simp: callIO_def wp_sys split: prod.splits option.splits)

section \<open>What a directory shows and what a crash may leave of it\<close>

abbreviation now_at :: "world \<Rightarrow> string \<Rightarrow> dirent option" where
  "now_at w n \<equiv> mget (wd_now w) n"

definition survives :: "world \<Rightarrow> string \<Rightarrow> dirent option \<Rightarrow> bool" where
  "survives w n d \<longleftrightarrow> d = mget (wd_synced w) n \<or> (n, d) \<in> set (wd_pending w)"

text \<open>A file whose contents were not flushed may come back from a crash with any contents.\<close>

definition settles :: "dirent option \<Rightarrow> dirent option \<Rightarrow> bool" where
  "settles d d' \<longleftrightarrow> d' = d \<or> (\<exists>f. d = Some f \<and> \<not> de_Synced f \<and> (\<exists>junk. d' = Some (f\<lparr>de_Data := junk\<rparr>)))"

text \<open>
  The directory after a crash: each name independently shows one of the entries that may have
  survived, so changes that were not flushed may be lost or kept in any combination.
\<close>

definition crash_view :: "world \<Rightarrow> world \<Rightarrow> bool" where
  "crash_view w w' \<longleftrightarrow>
     (\<forall>n. \<exists>d. survives w n d \<and> settles d (now_at w' n)) \<and> wd_synced w' = wd_now w' \<and> wd_pending w' = []"

text \<open>Temporary files start with a dot; the files of the modules do not.\<close>

definition public_name :: "string \<Rightarrow> bool" where
  "public_name n \<longleftrightarrow> \<not> HasPrefix n ''.''"

definition quiet :: "world \<Rightarrow> world \<Rightarrow> bool" where
  "quiet w w' \<longleftrightarrow> (\<forall>m. public_name m \<longrightarrow> now_at w' m = now_at w m \<and> (\<forall>d. survives w' m d \<longleftrightarrow> survives w m d))"

definition replaced :: "string \<Rightarrow> dirent option \<Rightarrow> world \<Rightarrow> world \<Rightarrow> bool" where
  "replaced n d w w' \<longleftrightarrow>
     (\<forall>m. public_name m \<longrightarrow>
        now_at w' m = (if m = n then d else now_at w m) \<and>
        (\<forall>x. survives w' m x \<longleftrightarrow> survives w m x \<or> (m = n \<and> x = d)))"

definition durable_put :: "string \<Rightarrow> dirent option \<Rightarrow> world \<Rightarrow> world \<Rightarrow> bool" where
  "durable_put n d w w' \<longleftrightarrow>
     (\<forall>m. public_name m \<longrightarrow>
        now_at w' m = (if m = n then d else now_at w m) \<and> (\<forall>x. survives w' m x \<longleftrightarrow> x = now_at w' m))"

definition flushed :: "world \<Rightarrow> world \<Rightarrow> bool" where
  "flushed w w' \<longleftrightarrow>
     (\<forall>m. public_name m \<longrightarrow> now_at w' m = now_at w m \<and> (\<forall>x. survives w' m x \<longleftrightarrow> x = now_at w m))"

lemmas world_defs = quiet_def replaced_def durable_put_def flushed_def

lemma quiet_refl [simp]: "quiet w w"
  by (simp add: quiet_def)

lemma quiet_trans: "quiet w w1 \<Longrightarrow> quiet w1 w2 \<Longrightarrow> quiet w w2"
  by (simp add: quiet_def)

lemma quiet_replaced: "quiet w w1 \<Longrightarrow> replaced n d w1 w2 \<Longrightarrow> replaced n d w w2"
  by (simp add: world_defs)

lemma replaced_quiet: "replaced n d w w1 \<Longrightarrow> quiet w1 w2 \<Longrightarrow> replaced n d w w2"
  by (simp add: world_defs)

lemma replaced_flushed: "replaced n d w w1 \<Longrightarrow> flushed w1 w2 \<Longrightarrow> durable_put n d w w2"
  by (simp add: world_defs)

lemma durable_put_quiet: "durable_put n d w w1 \<Longrightarrow> quiet w1 w2 \<Longrightarrow> durable_put n d w w2"
  by (simp add: world_defs)

lemma quiet_flushed: "quiet w w1 \<Longrightarrow> flushed w1 w2 \<Longrightarrow> flushed w w2"
  by (simp add: world_defs)

lemma tick_simps [simp]:
  "now_at (w\<lparr>wd_tick := t\<rparr>) n = now_at w n" "survives (w\<lparr>wd_tick := t\<rparr>) n d = survives w n d"
  "now_at (setEntry m x w) n = (if n = m then x else now_at w n)"
  "survives (setEntry m x w) n d \<longleftrightarrow> (n = m \<and> d = x) \<or> survives w n d"
  "survives (syncWorld w) n d \<longleftrightarrow> d = now_at w n" "now_at (syncWorld w) n = now_at w n"
  by (auto simp: survives_def setEntry_def syncWorld_def split: option.splits)

lemma tempName_not_public [simp]: "\<not> public_name (tempNameOf n suf)"
  by (simp add: public_name_def HasPrefix_def tempNameOf_def)

lemma quiet_tick [simp]: "quiet w (w'\<lparr>wd_tick := t\<rparr>) \<longleftrightarrow> quiet w w'"
  by (simp add: quiet_def)

lemma quiet_setEntry [simp]: "\<not> public_name m \<Longrightarrow> quiet w (setEntry m x w') \<longleftrightarrow> quiet w w'"
  by (auto simp: quiet_def)

lemma flushed_sync [simp]: "flushed w (syncWorld w)"
  by (simp add: flushed_def)

section \<open>Rules for the operations\<close>

text \<open>A step that changes nothing public and whose errors claim no commit.\<close>

definition silent :: "'a result io \<Rightarrow> bool" where
  "silent f \<longleftrightarrow> (\<forall>env w. wp f env (\<lambda>r w'. quiet w w' \<and> (\<forall>e. r = Done (Inl e) \<longrightarrow> OutcomeOf e = WriteNotCommitted)) w)"

lemma silent_wp:
  assumes "silent f"
    and "\<And>w'. quiet w w' \<Longrightarrow> Q Crashed w'"
    and "\<And>e w'. quiet w w' \<Longrightarrow> OutcomeOf e = WriteNotCommitted \<Longrightarrow> Q (Done (Inl e)) w'"
    and "\<And>x w'. quiet w w' \<Longrightarrow> Q (Done (Inr x)) w'"
  shows "wp f env Q w"
proof -
  obtain r w' where f: "f env w = (r, w')" by (cases "f env w")
  have "wp f env (\<lambda>r w'. quiet w w' \<and> (\<forall>e. r = Done (Inl e) \<longrightarrow> OutcomeOf e = WriteNotCommitted)) w"
    using assms(1) by (simp add: silent_def)
  then have "quiet w w' \<and> (\<forall>e. r = Done (Inl e) \<longrightarrow> OutcomeOf e = WriteNotCommitted)"
    using f by (simp add: wp_def)
  moreover have "r = Crashed \<or> (\<exists>e. r = Done (Inl e)) \<or> (\<exists>x. r = Done (Inr x))"
    by (metis outcome.exhaust sum.exhaust)
  ultimately have "Q r w'" using assms(2, 3, 4) by auto
  then show ?thesis using f by (simp add: wp_def)
qed

lemma silent_return: "(\<And>e. r = Inl e \<Longrightarrow> OutcomeOf e = WriteNotCommitted) \<Longrightarrow> silent (returnIO r)"
  by (simp add: silent_def)

lemma silent_then:
  assumes "silent f" and "\<And>x. silent (g x)"
  shows "silent (thenIO f g)"
  unfolding silent_def
proof (intro allI)
  fix env w
  have "wp (g x) env (\<lambda>r w'. quiet w w' \<and> (\<forall>e. r = Done (Inl e) \<longrightarrow> OutcomeOf e = WriteNotCommitted)) w1"
    if "quiet w w1" for x w1
    by (rule silent_wp [OF assms(2)]) (use that quiet_trans in auto)
  then show "wp (thenIO f g) env (\<lambda>r w'. quiet w w' \<and> (\<forall>e. r = Done (Inl e) \<longrightarrow> OutcomeOf e = WriteNotCommitted)) w"
    unfolding wp_then by (intro silent_wp [OF assms(1)]) auto
qed

lemma silent_wrap:
  "silent f \<Longrightarrow> (\<And>e. OutcomeOf e = WriteNotCommitted \<Longrightarrow> OutcomeOf (h e) = WriteNotCommitted) \<Longrightarrow> silent (wrapIO h f)"
  unfolding silent_def wp_wrap
  by (intro allI, rule wp_mono, blast) (auto split: outcome.splits sum.splits)

lemma silent_call: "(\<And>w. quiet w (snd (f w))) \<Longrightarrow> silent (callIO f)"
  by (auto simp: silent_def wp_call split: option.splits prod.splits) (metis snd_conv)

lemma silent_bind_sys:
  assumes "\<And>env t w. snd (ask env t w) = w" and "\<And>x. silent (g x)"
  shows "silent (bindIO (sysIO ask) g)"
  unfolding silent_def
proof (intro allI)
  fix env w
  let ?Q = "\<lambda>r w'. quiet w w' \<and> (\<forall>e. r = Done (Inl e) \<longrightarrow> OutcomeOf e = WriteNotCommitted)"
  have "wp (g x) env ?Q (w\<lparr>wd_tick := t\<rparr>)" for x t
    by (rule silent_wp [OF assms(2)]) (auto simp: quiet_def)
  then show "wp (bindIO (sysIO ask) g) env ?Q w"
    using assms(1) [of env "wd_tick w" w] by (auto simp: wp_sys split: prod.splits)
qed

lemma silent_sys_result:
  assumes "\<And>env t w. snd (ask env t w) = w" and "\<And>env t w e. fst (ask env t w) = Inl e \<Longrightarrow> OutcomeOf e = WriteNotCommitted"
  shows "silent (sysIO ask)"
  unfolding silent_def
proof (intro allI)
  fix env w
  show "wp (sysIO ask) env (\<lambda>r w'. quiet w w' \<and> (\<forall>e. r = Done (Inl e) \<longrightarrow> OutcomeOf e = WriteNotCommitted)) w"
    using assms(1) [of env "wd_tick w" w] assms(2) [of env "wd_tick w" w] by (auto simp: wp_sys split: prod.splits)
qed

lemma silent_reject: "silent (rejectLoop rooted comps)"
proof (induction comps)
  case Nil
  show ?case unfolding rejectLoop.simps [of rooted "[]"]
    by (intro silent_bind_sys)
      (auto split: lookup.splits intro!: silent_then silent_wrap silent_return silent_sys_result
            simp: osResult_def split: sum.splits)
next
  case (Cons c comps)
  show ?case unfolding rejectLoop.simps [of rooted "c # comps"]
    by (intro silent_bind_sys)
      (auto split: lookup.splits intro!: silent_then silent_wrap silent_return silent_sys_result Cons
            simp: osResult_def split: sum.splits)
qed

lemma silent_directoryProblem: "directoryProblem a b = Some e \<Longrightarrow> OutcomeOf e = WriteNotCommitted"
  by (auto simp: directoryProblem_def split: if_splits)

lemma silent_validateDirectory: "silent (validateDirectoryLocked s)"
proof (cases "pathString (so_dir s) = [] \<or> \<not> so_handle s \<or> so_closed s")
  case True
  then show ?thesis unfolding validateDirectoryLocked_def if_P [OF True] by (intro silent_return) auto
next
  case False
  then show ?thesis
    unfolding validateDirectoryLocked_def if_not_P [OF False]
    by (intro silent_bind_sys)
      (auto split: lookup.splits option.splits intro!: silent_then silent_wrap silent_return silent_sys_result silent_reject
            simp: osResult_def RejectSymlinkPathComponents_def silent_directoryProblem split: sum.splits)
qed

lemma silent_securePath: "silent (returnIO (securePathLocked s n))"
  by (rule silent_return) (auto simp: securePathLocked_def split: if_splits)

lemma silent_rejectExisting: "silent (rejectExistingTargetAt n)"
  unfolding rejectExistingTargetAt_def
  by (intro silent_then silent_wrap silent_call) (auto split: option.splits intro!: silent_return)

lemma silent_createTemp: "silent (createTempLoop k n)"
proof (induction k)
  case 0
  show ?case unfolding createTempLoop.simps by (intro silent_return) auto
next
  case (Suc k)
  show ?case unfolding createTempLoop.simps Let_def
    by (intro silent_then silent_wrap silent_call silent_sys_result)
      (auto split: option.splits intro!: silent_return Suc)
qed

section \<open>What a write leaves behind\<close>

definition fileOf :: "string \<Rightarrow> dirent" where
  "fileOf contents = newFile\<lparr>de_Data := contents, de_Synced := True\<rparr>"

text \<open>
  The end of a write, at whichever call it stops: nothing public has changed; or the new entry is
  in place and not yet durable, and an error says so; or everything is durable. A validation of
  the directory that fails after the last step gives an error that claims nothing.
\<close>

definition write_effect :: "string \<Rightarrow> dirent option \<Rightarrow> world \<Rightarrow> unit result outcome \<Rightarrow> world \<Rightarrow> bool" where
  "write_effect n d w r w' \<longleftrightarrow>
     (quiet w w' \<and> (r = Crashed \<or> (\<exists>e. r = Done (Inl e) \<and> OutcomeOf e = WriteNotCommitted))) \<or>
     (replaced n d w w' \<and> (r = Crashed \<or> (\<exists>e. r = Done (Inl e) \<and> OutcomeOf e = WriteNeedsRecovery))) \<or>
     (durable_put n d w w' \<and> (r = Crashed \<or> r = Done (Inr ()) \<or> (\<exists>e. r = Done (Inl e) \<and> OutcomeOf e = WriteNotCommitted)))"

lemma syncOrRecover_wp:
  assumes "replaced n d w w1"
  shows "wp syncOrRecover env (\<lambda>r w'. (replaced n d w w' \<and> (r = Crashed \<or> (\<exists>e. r = Done (Inl e) \<and> OutcomeOf e = WriteNeedsRecovery)))
            \<or> (durable_put n d w w' \<and> r = Done (Inr ()))) w1"
  using assms
  by (auto simp: syncOrRecover_def syncDirLocked_def wp_call replaced_def durable_put_def split: option.splits)

lemma fillTemp_wp:
  assumes "\<not> public_name t" and "public_name n"
  shows "wp (fillTemp n t c) env (\<lambda>r w'. (quiet w w' \<and> (r = Crashed \<or> (\<exists>e. r = Done (Inl e) \<and> OutcomeOf e = WriteNotCommitted)))
            \<or> (replaced n (Some (fileOf c)) w w' \<and> r = Done (Inr ()))) w"
proof -
  have [simp]: "t \<noteq> n" "n \<noteq> t" using assms by auto
  show ?thesis
    using assms
    by (simp add: fillTemp_def writeFile_def syncFile_def renameAt_def rejectExistingTargetAt_def wp_call fileOf_def
          split: option.splits) (auto simp: replaced_def)
qed

lemma discardTemp_wp:
  assumes "\<not> public_name t" and "public_name n"
  shows "wp (discardTemp t (fillTemp n t c)) env
           (\<lambda>r w'. (quiet w w' \<and> (r = Crashed \<or> (\<exists>e. r = Done (Inl e) \<and> OutcomeOf e = WriteNotCommitted)))
            \<or> (replaced n (Some (fileOf c)) w w' \<and> r = Done (Inr ()))) w"
  unfolding discardTemp_def wp_bind
  by (rule wp_mono [OF fillTemp_wp [OF assms]])
    (use assms in \<open>auto simp: unlinkAt_def wp_call split: option.splits\<close>)

text \<open>The name \<open>createTempAt\<close> returns is one of the names that start with a dot.\<close>

lemma createTemp_name:
  "wp (createTempLoop k n) env (\<lambda>r w'. quiet w w' \<and> (\<forall>e. r = Done (Inl e) \<longrightarrow> OutcomeOf e = WriteNotCommitted)
      \<and> (\<forall>t. r = Done (Inr t) \<longrightarrow> \<not> public_name t)) w"
proof -
  have "wp (createTempLoop k n) env (\<lambda>r w'. \<forall>t. r = Done (Inr t) \<longrightarrow> \<not> public_name t) w"
  proof (induction k arbitrary: w)
    case (Suc k)
    show ?case using Suc
      by (auto simp: wp_call wp_sys Let_def split: option.splits)
  qed simp
  moreover have "wp (createTempLoop k n) env (\<lambda>r w'. quiet w w' \<and> (\<forall>e. r = Done (Inl e) \<longrightarrow> OutcomeOf e = WriteNotCommitted)) w"
    using silent_createTemp by (simp add: silent_def)
  ultimately show ?thesis by (auto simp: wp_def split: prod.splits)
qed

lemma writeJSONAt_wp:
  assumes "public_name n"
  shows "wp (writeJSONAt n c) env (write_effect n (Some (fileOf c)) w) w"
proof -
  have sync: "wp syncOrRecover env (write_effect n (Some (fileOf c)) w) w1" if "replaced n (Some (fileOf c)) w w1" for w1
    by (rule wp_mono [OF syncOrRecover_wp [OF that]]) (auto simp: write_effect_def)
  have disc: "wp (thenIO (discardTemp t (fillTemp n t c)) (\<lambda>_. syncOrRecover)) env (write_effect n (Some (fileOf c)) w) w1"
    if "quiet w w1" "\<not> public_name t" for t w1
    unfolding wp_then
    by (rule wp_mono [OF discardTemp_wp [OF that(2) assms]])
      (use that quiet_trans quiet_replaced sync in \<open>auto simp: write_effect_def\<close>)
  have create: "wp (thenIO (createTempAt n) (\<lambda>t. thenIO (discardTemp t (fillTemp n t c)) (\<lambda>_. syncOrRecover))) env
      (write_effect n (Some (fileOf c)) w) w1" if "quiet w w1" for w1
    unfolding createTempAt_def wp_then [where f = "createTempLoop 100 n"]
    by (rule wp_mono [OF createTemp_name])
      (use that disc quiet_trans in \<open>auto simp: write_effect_def split: outcome.splits sum.splits\<close>)
  show ?thesis
    unfolding writeJSONAt_def wp_then [where f = "rejectExistingTargetAt n"]
    by (rule silent_wp [OF silent_rejectExisting]) (use create in \<open>auto simp: write_effect_def\<close>)
qed

lemma removeJSONAt_wp:
  "wp (removeJSONAt n) env (\<lambda>r w'. write_effect n None w r w' \<or> (quiet w w' \<and> now_at w n = None \<and> r = Done (Inr ()))) w"
  by (auto simp: removeJSONAt_def syncOrRecover_def syncDirLocked_def wp_call write_effect_def replaced_def durable_put_def
        split: option.splits)

text \<open>The checks before and after the work of an operation.\<close>

lemma validated_wp:
  assumes "\<And>w1. quiet w w1 \<Longrightarrow> wp f env (\<lambda>r w'. (case r of Done (Inr _) \<Rightarrow> (\<forall>w''. quiet w' w'' \<longrightarrow>
            Q Crashed w'' \<and> Q (Done (Inr ())) w'' \<and> (\<forall>e. OutcomeOf e = WriteNotCommitted \<longrightarrow> Q (Done (Inl e)) w''))
        | Done (Inl e) \<Rightarrow> Q (Done (Inl e)) w' | Crashed \<Rightarrow> Q Crashed w')) w1"
    and "\<And>w'. quiet w w' \<Longrightarrow> Q Crashed w' \<and> (\<forall>e. OutcomeOf e = WriteNotCommitted \<longrightarrow> Q (Done (Inl e)) w')"
  shows "wp (thenIO (returnIO (securePathLocked s n)) (\<lambda>_. thenIO (validateDirectoryLocked s) (\<lambda>_.
             thenIO f (\<lambda>_. validateDirectoryLocked s)))) env Q w"
proof -
  have post: "wp (thenIO f (\<lambda>_. validateDirectoryLocked s)) env Q w1" if "quiet w w1" for w1
    unfolding wp_then
    by (rule wp_mono [OF assms(1) [OF that]])
      (auto split: outcome.splits sum.splits intro: silent_wp [OF silent_validateDirectory])
  have pre: "wp (thenIO (validateDirectoryLocked s) (\<lambda>_. thenIO f (\<lambda>_. validateDirectoryLocked s))) env Q w1" if "quiet w w1" for w1
    unfolding wp_then [where f = "validateDirectoryLocked s"]
    by (rule silent_wp [OF silent_validateDirectory]) (use that quiet_trans assms(2) post in auto)
  show ?thesis
    unfolding wp_then [where f = "returnIO (securePathLocked s n)"]
    by (rule silent_wp [OF silent_securePath]) (use assms(2) pre in auto)
qed

lemma WriteJSON_wp:
  assumes "public_name n"
  shows "wp (WriteJSON s n (Inr raw)) env (write_effect n (Some (fileOf (raw @ [CHR 0x0A]))) w) w"
proof (cases "int (length (raw @ [CHR 0x0A])) > maxFileSize")
  case True
  have pre: "wp (thenIO (validateDirectoryLocked s) (\<lambda>_. returnIO (Inl (Msg (n @ '' exceeds maximum size''))))) env
      (write_effect n d w) w1" if "quiet w w1" for w1 d
    unfolding wp_then
    by (rule silent_wp [OF silent_validateDirectory]) (use that quiet_trans in \<open>auto simp: write_effect_def\<close>)
  show ?thesis
    unfolding WriteJSON_def sum.case Let_def if_P [OF True] wp_then [where f = "returnIO (securePathLocked s n)"]
    by (rule silent_wp [OF silent_securePath]) (use pre in \<open>auto simp: write_effect_def\<close>)
next
  case False
  show ?thesis
    unfolding WriteJSON_def sum.case Let_def if_not_P [OF False]
  proof (rule validated_wp)
    fix w1 assume "quiet w w1"
    show "wp (writeJSONAt n (raw @ [CHR 0x0A])) env (\<lambda>r w'. (case r of Done (Inr _) \<Rightarrow> (\<forall>w''. quiet w' w'' \<longrightarrow>
            write_effect n (Some (fileOf (raw @ [CHR 0x0A]))) w Crashed w'' \<and>
            write_effect n (Some (fileOf (raw @ [CHR 0x0A]))) w (Done (Inr ())) w'' \<and>
            (\<forall>e. OutcomeOf e = WriteNotCommitted \<longrightarrow> write_effect n (Some (fileOf (raw @ [CHR 0x0A]))) w (Done (Inl e)) w''))
        | Done (Inl e) \<Rightarrow> write_effect n (Some (fileOf (raw @ [CHR 0x0A]))) w (Done (Inl e)) w'
        | Crashed \<Rightarrow> write_effect n (Some (fileOf (raw @ [CHR 0x0A]))) w Crashed w')) w1"
      by (rule wp_mono [OF writeJSONAt_wp [OF assms]])
        (use \<open>quiet w w1\<close> in \<open>auto simp: write_effect_def world_defs\<close>)
  qed (auto simp: write_effect_def)
qed

lemma RemoveJSON_wp:
  assumes "public_name n"
  shows "wp (RemoveJSON s n) env (\<lambda>r w'. write_effect n None w r w' \<or> (quiet w w' \<and> now_at w n = None)) w"
  unfolding RemoveJSON_def
proof (rule validated_wp)
  fix w1 assume q: "quiet w w1"
  show "wp (removeJSONAt n) env (\<lambda>r w'. (case r of Done (Inr _) \<Rightarrow> (\<forall>w''. quiet w' w'' \<longrightarrow>
          (write_effect n None w Crashed w'' \<or> quiet w w'' \<and> now_at w n = None) \<and>
          (write_effect n None w (Done (Inr ())) w'' \<or> quiet w w'' \<and> now_at w n = None) \<and>
          (\<forall>e. OutcomeOf e = WriteNotCommitted \<longrightarrow> write_effect n None w (Done (Inl e)) w'' \<or> quiet w w'' \<and> now_at w n = None))
      | Done (Inl e) \<Rightarrow> write_effect n None w (Done (Inl e)) w' \<or> quiet w w' \<and> now_at w n = None
      | Crashed \<Rightarrow> write_effect n None w Crashed w' \<or> quiet w w' \<and> now_at w n = None)) w1"
    by (rule wp_mono [OF removeJSONAt_wp])
      (use q assms in \<open>auto simp: write_effect_def world_defs\<close>)
qed (auto simp: write_effect_def)

lemma Flush_wp:
  "wp (Flush s) env (\<lambda>r w'. (quiet w w' \<and> (r = Crashed \<or> (\<exists>e. r = Done (Inl e)))) \<or> (flushed w w' \<and> r = Done (Inr ()))) w"
  unfolding Flush_def wp_then
  by (rule silent_wp [OF silent_validateDirectory])
    (auto simp: syncDirLocked_def wp_call world_defs split: option.splits)

lemma silent_open: "wp (openFileAt n) env (\<lambda>r w'. quiet w w' \<and> (case r of Done (Found d) \<Rightarrow> now_at w n = Some d | Done Missing \<Rightarrow> now_at w n = None | _ \<Rightarrow> True)) w"
  by (auto simp: openFileAt_def wp_sys split: option.splits)

text \<open>A read that succeeds has read the entry the directory shows.\<close>

lemma ReadJSONIfExists_wp:
  assumes "public_name n"
  shows "wp (ReadJSONIfExists s n decode) env (\<lambda>r w'. quiet w w' \<and> (\<forall>v. r = Done (Inr v) \<longrightarrow>
            (case now_at w n of None \<Rightarrow> v = None | Some d \<Rightarrow> \<exists>x. v = Some x \<and> decodeFile n decode d = Inr x))) w"
proof -
  let ?Q = "\<lambda>r w'. quiet w w' \<and> (\<forall>v. r = Done (Inr v) \<longrightarrow>
            (case now_at w n of None \<Rightarrow> v = None | Some d \<Rightarrow> \<exists>x. v = Some x \<and> decodeFile n decode d = Inr x))"
  let ?body = "bindIO (openFileAt n) (\<lambda>opened.
       case opened of
         Missing \<Rightarrow> returnIO (Inr None)
       | LookupErr e \<Rightarrow> returnIO (Inl (Wrapped (''open '' @ n) (Msg e)))
       | Found d \<Rightarrow>
           thenIO (wrapIO (Wrapped (''stat '' @ n)) (callIO (\<lambda>w. ((), w)))) (\<lambda>_.
           thenIO (wrapIO (Wrapped (''read '' @ n)) (callIO (\<lambda>w. ((), w)))) (\<lambda>_.
             returnIO (case decodeFile n decode d of Inl e \<Rightarrow> Inl e | Inr v \<Rightarrow> Inr (Some v)))))"
  have body: "wp ?body env ?Q w1" if "quiet w w1" for w1
    unfolding wp_bind
    by (rule wp_mono [OF silent_open])
      (use that quiet_trans assms in \<open>auto simp: wp_call quiet_def split: outcome.splits lookup.splits option.splits sum.splits\<close>)
  have pre: "wp (thenIO (validateDirectoryLocked s) (\<lambda>_. ?body)) env ?Q w1" if "quiet w w1" for w1
    unfolding wp_then [where f = "validateDirectoryLocked s"]
    by (rule silent_wp [OF silent_validateDirectory]) (use that quiet_trans body in \<open>auto simp del: wp_bind wp_then\<close>)
  show ?thesis
    unfolding ReadJSONIfExists_def wp_then [where f = "returnIO (securePathLocked s n)"]
    by (rule silent_wp [OF silent_securePath]) (use pre in \<open>auto simp del: wp_bind wp_then\<close>)
qed

section \<open>The contract of the store\<close>

text \<open>
  Two files of one directory: the entries a crash may leave of each, and the state in which both
  are durable as they are.
\<close>

definition between :: "world \<Rightarrow> string \<Rightarrow> dirent option set \<Rightarrow> string \<Rightarrow> dirent option set \<Rightarrow> bool" where
  "between w m A n B \<longleftrightarrow> (\<forall>d. survives w m d \<longrightarrow> d \<in> A) \<and> (\<forall>d. survives w n d \<longrightarrow> d \<in> B)"

definition exactly :: "world \<Rightarrow> string \<Rightarrow> dirent option \<Rightarrow> string \<Rightarrow> dirent option \<Rightarrow> bool" where
  "exactly w m a n b \<longleftrightarrow> between w m {a} n {b} \<and> now_at w m = a \<and> now_at w n = b"

lemma exactly_sym: "exactly w m a n b \<Longrightarrow> exactly w n b m a"
  by (auto simp: exactly_def between_def)

lemma between_sym: "between w m A n B \<Longrightarrow> between w n B m A"
  by (auto simp: between_def)

lemma between_mono: "between w m A n B \<Longrightarrow> A \<subseteq> A' \<Longrightarrow> B \<subseteq> B' \<Longrightarrow> between w m A' n B'"
  by (auto simp: between_def)

lemma exactly_between: "exactly w m a n b \<Longrightarrow> a \<in> A \<Longrightarrow> b \<in> B \<Longrightarrow> between w m A n B"
  by (auto simp: exactly_def between_def)

lemma exactly_quiet: "quiet w w' \<Longrightarrow> exactly w m a n b \<Longrightarrow> public_name m \<Longrightarrow> public_name n \<Longrightarrow> exactly w' m a n b"
  by (auto simp: exactly_def between_def quiet_def)

text \<open>
  What the settings protocol relies on: a replacement, a removal and a flush each stop in one of
  the states \<open>write_effect\<close> names. The rules derived here are the ones the protocol uses, over
  two files of which one is written.
\<close>

locale atomic_store =
  fixes put :: "'s \<Rightarrow> string \<Rightarrow> string \<Rightarrow> unit result io"
    and del :: "'s \<Rightarrow> string \<Rightarrow> unit result io"
    and flush :: "'s \<Rightarrow> unit result io"
  assumes put_law: "public_name n \<Longrightarrow> wp (put s n raw) env (write_effect n (Some (fileOf (raw @ [CHR 0x0A]))) w) w"
    and del_law: "public_name n \<Longrightarrow> wp (del s n) env (\<lambda>r w'. write_effect n None w r w' \<or> (quiet w w' \<and> now_at w n = None)) w"
    and flush_law: "wp (flush s) env (\<lambda>r w'. (quiet w w' \<and> (r = Crashed \<or> (\<exists>e. r = Done (Inl e)))) \<or>
          (flushed w w' \<and> r = Done (Inr ()))) w"
begin

lemma put_rule:
  assumes "public_name m" and "public_name n" and "m \<noteq> n" and "exactly w m a n b"
    and "d = Some (fileOf (raw @ [CHR 0x0A]))"
    and "\<And>w'. between w' m {a} n {b, d} \<Longrightarrow> Q Crashed w'"
    and "\<And>e w'. exactly w' m a n b \<or> exactly w' m a n d \<Longrightarrow> OutcomeOf e = WriteNotCommitted \<Longrightarrow> Q (Done (Inl e)) w'"
    and "\<And>e w'. between w' m {a} n {b, d} \<Longrightarrow> now_at w' m = a \<Longrightarrow> now_at w' n = d \<Longrightarrow>
           OutcomeOf e = WriteNeedsRecovery \<Longrightarrow> Q (Done (Inl e)) w'"
    and "\<And>w'. exactly w' m a n d \<Longrightarrow> Q (Done (Inr ())) w'"
  shows "wp (put s n raw) env Q w"
proof (rule wp_mono [OF put_law [OF assms(2)]])
  fix r w'
  assume "write_effect n (Some (fileOf (raw @ [CHR 0x0A]))) w r w'"
  then consider (q) "quiet w w'" "r = Crashed \<or> (\<exists>e. r = Done (Inl e) \<and> OutcomeOf e = WriteNotCommitted)"
    | (r) "replaced n d w w'" "r = Crashed \<or> (\<exists>e. r = Done (Inl e) \<and> OutcomeOf e = WriteNeedsRecovery)"
    | (s) "durable_put n d w w'" "r = Crashed \<or> r = Done (Inr ()) \<or> (\<exists>e. r = Done (Inl e) \<and> OutcomeOf e = WriteNotCommitted)"
    using assms(5) by (auto simp: write_effect_def)
  then show "Q r w'"
  proof cases
    case q
    have "exactly w' m a n b" using exactly_quiet [OF q(1) assms(4, 1, 2)] .
    then show ?thesis using q(2) assms(6, 7) exactly_between by blast
  next
    case r
    have "between w' m {a} n {b, d}" "now_at w' m = a" "now_at w' n = d"
      using r(1) assms(1-4) by (auto simp: replaced_def exactly_def between_def)
    then show ?thesis using r(2) assms(6, 8) by blast
  next
    case s
    have "exactly w' m a n d" using s(1) assms(1-4) by (auto simp: durable_put_def exactly_def between_def)
    then show ?thesis using s(2) assms(6, 7, 9) exactly_between by blast
  qed
qed

lemma del_rule:
  assumes "public_name m" and "public_name n" and "m \<noteq> n" and "exactly w m a n b"
    and "\<And>r w'. between w' m {a} n {b, None} \<Longrightarrow> Q r w'"
  shows "wp (del s n) env Q w"
proof (rule wp_mono [OF del_law [OF assms(2)]])
  fix r w'
  assume "write_effect n None w r w' \<or> quiet w w' \<and> now_at w n = None"
  then have "between w' m {a} n {b, None}"
    using assms(1-4) by (auto simp: write_effect_def world_defs exactly_def between_def)
  then show "Q r w'" by (rule assms(5))
qed

lemma flush_rule:
  assumes "public_name m" and "public_name n" and "between w m A n B" and "now_at w m = a" and "now_at w n = b"
    and "\<And>w'. between w' m A n B \<Longrightarrow> Q Crashed w'"
    and "\<And>e w'. between w' m A n B \<Longrightarrow> now_at w' m = a \<Longrightarrow> now_at w' n = b \<Longrightarrow> Q (Done (Inl e)) w'"
    and "\<And>w'. exactly w' m a n b \<Longrightarrow> Q (Done (Inr ())) w'"
  shows "wp (flush s) env Q w"
proof (rule wp_mono [OF flush_law])
  fix r :: "unit result outcome" and w'
  assume "quiet w w' \<and> (r = Crashed \<or> (\<exists>e. r = Done (Inl e))) \<or> flushed w w' \<and> r = Done (Inr ())"
  then consider (q) "between w' m A n B" "now_at w' m = a" "now_at w' n = b" "r = Crashed \<or> (\<exists>e. r = Done (Inl e))"
    | (f) "exactly w' m a n b" "r = Done (Inr ())"
    using assms(1-5) by (auto simp: quiet_def flushed_def between_def exactly_def)
  then show "Q r w'" by cases (use assms(6-8) in auto)
qed

end

interpretation disk: atomic_store "\<lambda>s n raw. WriteJSON s n (Inr raw)" RemoveJSON Flush
  by unfold_locales (simp_all add: WriteJSON_wp RemoveJSON_wp Flush_wp)

section \<open>A system on which every call succeeds\<close>

text \<open>
  The process stays alive, no call fails, the directory is the one that was opened and no parent
  of it is a symbolic link.
\<close>

definition healthy :: "osEnv \<Rightarrow> Store \<Rightarrow> bool" where
  "healthy env s \<longleftrightarrow>
     so_handle s \<and> \<not> so_closed s \<and> pathString (so_dir s) \<noteq> [] \<and>
     (\<exists>info. fi_Kind info = DirectoryFile \<and> fi_Perm info = 448 \<and>
        (\<forall>t. os_alive env t \<and> os_fail env t = None \<and> os_lstat env t (pathString (so_dir s)) = Found info \<and>
             os_fstat env t = Inr info \<and>
             (\<forall>p. os_evalSymlinks env t p = Inr p \<and> (\<forall>e. os_lstat env t p \<noteq> LookupErr e))))"

definition only_ticks :: "world \<Rightarrow> world \<Rightarrow> bool" where
  "only_ticks w w' \<longleftrightarrow> (\<exists>t. w' = w\<lparr>wd_tick := t\<rparr>)"

lemma only_ticks_refl [simp]: "only_ticks w w"
  by (auto simp: only_ticks_def intro: exI [of _ "wd_tick w"])

lemma only_ticks_tick [simp]: "only_ticks w (w'\<lparr>wd_tick := t\<rparr>) \<longleftrightarrow> only_ticks w w'"
  by (auto simp: only_ticks_def) (metis world.surjective world.update_convs(4))

lemma only_ticks_quiet: "only_ticks w w' \<Longrightarrow> quiet w w'"
  by (auto simp: only_ticks_def quiet_def)

lemma healthy_reject:
  assumes "healthy env s"
  shows "wp (rejectLoop rooted comps) env (\<lambda>r w'. r = Done (Inr ()) \<and> only_ticks w w') w"
proof -
  have alive: "os_alive env t" "os_evalSymlinks env t p = Inr p" "os_lstat env t p \<noteq> LookupErr e" for t p e
    using assms by (auto simp: healthy_def)
  show ?thesis
  proof (induction comps arbitrary: w)
    case Nil
    show ?case unfolding rejectLoop.simps [of rooted "[]"]
      using alive by (auto simp: wp_sys osResult_def split: lookup.splits)
  next
    case (Cons c comps)
    have "wp (rejectLoop rooted comps) env (\<lambda>r w'. r = Done (Inr ()) \<and> only_ticks w w') (w\<lparr>wd_tick := t\<rparr>)" for t
      by (rule wp_mono [OF Cons]) (auto simp: only_ticks_def)
    then show ?case unfolding rejectLoop.simps [of rooted "c # comps"]
      using alive by (auto simp: wp_sys osResult_def split: lookup.splits)
  qed
qed

lemma healthy_validate:
  assumes "healthy env s"
  shows "wp (validateDirectoryLocked s) env (\<lambda>r w'. r = Done (Inr ()) \<and> only_ticks w w') w"
proof -
  obtain info where info: "fi_Kind info = DirectoryFile" "fi_Perm info = 448"
    "\<And>t. os_alive env t" "\<And>t. os_lstat env t (pathString (so_dir s)) = Found info" "\<And>t. os_fstat env t = Inr info"
    using assms by (auto simp: healthy_def)
  have "wp (RejectSymlinkPathComponents (pathDir (so_dir s))) env (\<lambda>r w'. r = Done (Inr ()) \<and> only_ticks w w') (w\<lparr>wd_tick := t\<rparr>)" for t
    unfolding RejectSymlinkPathComponents_def
    by (rule wp_mono [OF healthy_reject [OF assms]]) (auto simp: only_ticks_def)
  moreover have "so_handle s \<and> \<not> so_closed s \<and> pathString (so_dir s) \<noteq> []" using assms by (simp add: healthy_def)
  ultimately show ?thesis using info by (simp add: validateDirectoryLocked_def wp_sys osResult_def directoryProblem_def)
qed

lemma healthy_call:
  assumes "healthy env s"
  shows "wp (callIO f) env Q w \<longleftrightarrow> (case f w of (x, w') \<Rightarrow> Q (Done (Inr x)) (w'\<lparr>wd_tick := Suc (wd_tick w)\<rparr>))"
  using assms by (auto simp: wp_call healthy_def)

lemma healthy_securePath:
  "healthy env s \<Longrightarrow> isBase n \<Longrightarrow> n \<noteq> ''.'' \<Longrightarrow> n \<noteq> [] \<Longrightarrow> \<exists>p. securePathLocked s n = Inr p"
  by (simp add: securePathLocked_def healthy_def)

text \<open>What a read returns on a healthy system, as a function of the entry.\<close>

definition readEntry :: "string \<Rightarrow> (string \<Rightarrow> 'v option) \<Rightarrow> dirent option \<Rightarrow> 'v option result" where
  "readEntry n decode entry =
     (case entry of
        None \<Rightarrow> Inr None
      | Some d \<Rightarrow>
          if de_Kind d = SymlinkFile then Inl (Wrapped (''open '' @ n) (Msg ''too many levels of symbolic links''))
          else (case decodeFile n decode d of Inl e \<Rightarrow> Inl e | Inr v \<Rightarrow> Inr (Some v)))"

lemma healthy_read:
  assumes "healthy env s" and "isBase n" and "n \<noteq> ''.''" and "n \<noteq> []"
  shows "wp (ReadJSONIfExists s n decode) env (\<lambda>r w'. r = Done (readEntry n decode (now_at w n)) \<and> only_ticks w w') w"
proof -
  have alive: "os_alive env t" "os_fail env t = None" for t using assms by (auto simp: healthy_def)
  obtain p where p: "securePathLocked s n = Inr p" using healthy_securePath assms by blast
  show ?thesis
    unfolding ReadJSONIfExists_def p wp_then wp_return outcome.case sum.case
    by (rule wp_mono [OF healthy_validate [OF assms(1)]])
      (use alive in \<open>auto simp: only_ticks_def openFileAt_def wp_sys wp_call readEntry_def split: option.splits\<close>)
qed

text \<open>No random suffix of the environment names a temporary file that is already there.\<close>

definition fresh_suffixes :: "osEnv \<Rightarrow> world \<Rightarrow> bool" where
  "fresh_suffixes env w \<longleftrightarrow> (\<forall>t m. now_at w (tempNameOf m (os_suffix env t)) = None)"

definition replaceable :: "dirent option \<Rightarrow> bool" where
  "replaceable d \<longleftrightarrow> (case d of None \<Rightarrow> True | Some f \<Rightarrow> de_Kind f = RegularFile)"

lemma healthy_writeAt:
  assumes "healthy env s" and "fresh_suffixes env w" and "replaceable (now_at w n)" and "public_name n"
  shows "wp (writeJSONAt n c) env (\<lambda>r w'. r = Done (Inr ())) w"
proof -
  have alive: "os_alive env t" "os_fail env t = None" for t using assms by (auto simp: healthy_def)
  have hundred: "createTempLoop 100 n = createTempLoop (Suc 99) n" by simp
  have [simp]: "tempNameOf n (os_suffix env t) \<noteq> n" "n \<noteq> tempNameOf n (os_suffix env t)" for t
    using assms(4) tempName_not_public by metis+
  show ?thesis
    unfolding writeJSONAt_def createTempAt_def hundred createTempLoop.simps
    using assms(2, 3) alive
    by (auto simp: healthy_call [OF assms(1)] wp_sys rejectExistingTargetAt_def replaceable_def fresh_suffixes_def Let_def
          discardTemp_def fillTemp_def writeFile_def syncFile_def renameAt_def syncOrRecover_def syncDirLocked_def
          split: option.splits)
qed

lemma healthy_write:
  assumes "healthy env s" and "fresh_suffixes env w" and "replaceable (now_at w n)" and "public_name n"
    and "isBase n" and "n \<noteq> []" and "int (length raw) < maxFileSize"
  shows "wp (WriteJSON s n (Inr raw)) env (\<lambda>r w'. r = Done (Inr ()) \<and> durable_put n (Some (fileOf (raw @ [CHR 0x0A]))) w w') w"
proof -
  have "n \<noteq> ''.''" using assms(4) by (auto simp: public_name_def HasPrefix_def)
  then obtain p where p: "securePathLocked s n = Inr p" using healthy_securePath assms by blast
  have post: "wp (validateDirectoryLocked s) env (\<lambda>r w'. r = Done (Inr ())) w1" for w1
    by (rule wp_mono [OF healthy_validate [OF assms(1)]]) simp
  have work: "wp (writeJSONAt n (raw @ [CHR 0x0A])) env (\<lambda>r w'. case r of Crashed \<Rightarrow> Crashed = Done (Inr ())
       | Done (Inl e) \<Rightarrow> Done (Inl e) = Done (Inr ())
       | Done (Inr x) \<Rightarrow> wp (validateDirectoryLocked s) env (\<lambda>r w'. r = Done (Inr ())) w') w1" if "only_ticks w w1" for w1
    by (rule wp_mono [OF healthy_writeAt [OF assms(1) _ _ assms(4)]])
      (use that assms(2, 3) post in \<open>auto simp: only_ticks_def fresh_suffixes_def\<close>)
  have "wp (WriteJSON s n (Inr raw)) env (\<lambda>r w'. r = Done (Inr ())) w"
    unfolding WriteJSON_def p wp_then wp_return outcome.case sum.case
    by (rule wp_mono [OF healthy_validate [OF assms(1)]]) (use assms(7) work in \<open>auto\<close>)
  moreover have "wp (WriteJSON s n (Inr raw)) env (write_effect n (Some (fileOf (raw @ [CHR 0x0A]))) w) w"
    by (rule WriteJSON_wp [OF assms(4)])
  ultimately show ?thesis by (auto simp: wp_def write_effect_def split: prod.splits)
qed

lemma healthy_remove:
  assumes "healthy env s" and "isBase n" and "n \<noteq> ''.''" and "n \<noteq> []"
  shows "wp (RemoveJSON s n) env (\<lambda>r w'. r = Done (Inr ())) w"
proof -
  obtain p where p: "securePathLocked s n = Inr p" using healthy_securePath assms by blast
  have post: "wp (validateDirectoryLocked s) env (\<lambda>r w'. r = Done (Inr ())) w1" for w1
    by (rule wp_mono [OF healthy_validate [OF assms(1)]]) simp
  have work: "wp (thenIO (removeJSONAt n) (\<lambda>_. validateDirectoryLocked s)) env (\<lambda>r w'. r = Done (Inr ())) w1" for w1
    by (auto simp: removeJSONAt_def syncOrRecover_def syncDirLocked_def healthy_call [OF assms(1)] post split: option.splits)
  show ?thesis
    unfolding RemoveJSON_def p wp_then [where f = "returnIO (Inr p)"] wp_then [where f = "validateDirectoryLocked s"] wp_return outcome.case sum.case
    by (rule wp_mono [OF healthy_validate [OF assms(1)]]) (use work in \<open>auto simp del: wp_then\<close>)
qed

text \<open>A document that the decoder returns as it was encoded, and that fits the size limit.\<close>

definition reads_back :: "(string \<Rightarrow> 'v option) \<Rightarrow> string \<Rightarrow> 'v \<Rightarrow> bool" where
  "reads_back decode raw v \<longleftrightarrow> decode (raw @ [CHR 0x0A]) = Some v \<and> int (length raw) < maxFileSize"

lemma readEntry_fileOf: "reads_back decode raw v \<Longrightarrow> readEntry n decode (Some (fileOf (raw @ [CHR 0x0A]))) = Inr (Some v)"
  by (simp add: reads_back_def readEntry_def decodeFile_def fileOf_def newFile_def)

lemma readEntry_regular: "readEntry n decode d = Inr v \<Longrightarrow> replaceable d"
  by (auto simp: readEntry_def decodeFile_def replaceable_def split: option.splits if_splits)

lemma decodeFile_readEntry: "decodeFile n decode d = Inr v \<Longrightarrow> readEntry n decode (Some d) = Inr (Some v)"
  by (auto simp: readEntry_def decodeFile_def split: if_splits)

definition entry_synced :: "dirent option \<Rightarrow> bool" where
  "entry_synced d \<longleftrightarrow> (case d of None \<Rightarrow> True | Some f \<Rightarrow> de_Synced f)"

lemma settles_synced: "entry_synced d \<Longrightarrow> settles d d' \<longleftrightarrow> d' = d"
  by (auto simp: entry_synced_def settles_def split: option.splits)

lemma entry_synced_fileOf [simp]: "entry_synced (Some (fileOf c))" "entry_synced None"
  by (simp_all add: entry_synced_def fileOf_def)

section \<open>Theorems\<close>

definition dataDir :: gopath where "dataDir = (True, [''zai'', ''auth''])"

definition sampleOpen :: Store where
  "sampleOpen = \<lparr>so_dir = dataDir, so_handle = True, so_closed = False\<rparr>"

definition dirInfo :: fileInfo where
  "dirInfo = \<lparr>fi_Kind = DirectoryFile, fi_Perm = 448, fi_Inode = 7\<rparr>"

definition goodOS :: osEnv where
  "goodOS = \<lparr>os_alive = (\<lambda>_. True), os_fail = (\<lambda>_. None), os_lstat = (\<lambda>_ _. Found dirInfo),
             os_fstat = (\<lambda>_. Inr dirInfo), os_evalSymlinks = (\<lambda>_ p. Inr p), os_suffix = (\<lambda>t. Itoa (int t))\<rparr>"

definition worldOf :: "(string, dirent) gomap \<Rightarrow> world" where
  "worldOf files = \<lparr>wd_now = files, wd_synced = files, wd_pending = [], wd_tick = 0\<rparr>"

lemma goodOS_healthy: "healthy goodOS sampleOpen"
  by (simp add: healthy_def sampleOpen_def dataDir_def pathString_def goodOS_def dirInfo_def)

text \<open>
  C10. A write is atomic and a write that reports success is durable: whatever calls fail and
  wherever the process dies inside \<open>WriteJSON\<close>, after the crash the file shows either an entry
  it could have shown without the write or exactly the new contents, no other file of the
  directory changes, and after a return without error it shows the new contents.
\<close>

theorem write_is_atomic:
  assumes "public_name n" and "WriteJSON s n (Inr raw) env w = (r, w')" and "crash_view w' w''"
  shows "(now_at w'' n = Some (fileOf (raw @ [CHR 0x0A])) \<or>
            (r \<noteq> Done (Inr ()) \<and> (\<exists>d. survives w n d \<and> settles d (now_at w'' n)))) \<and>
         (\<forall>m. public_name m \<and> m \<noteq> n \<longrightarrow> (\<exists>d. (survives w m d \<or> d = now_at w m) \<and> settles d (now_at w'' m)))"
proof -
  have eff: "write_effect n (Some (fileOf (raw @ [CHR 0x0A]))) w r w'"
    using WriteJSON_wp [OF assms(1), of s raw env w] assms(2) by (simp add: wp_def)
  have crash: "\<exists>d. survives w' m d \<and> settles d (now_at w'' m)" for m using assms(3) by (auto simp: crash_view_def)
  have new: "settles (Some (fileOf c)) d' \<longleftrightarrow> d' = Some (fileOf c)" for c d' by (auto simp: settles_def fileOf_def)
  have "now_at w'' n = Some (fileOf (raw @ [CHR 0x0A])) \<or>
           (r \<noteq> Done (Inr ()) \<and> (\<exists>d. survives w n d \<and> settles d (now_at w'' n)))"
    using eff crash [of n] assms(1) new unfolding write_effect_def world_defs by auto
  moreover have "\<forall>m. public_name m \<and> m \<noteq> n \<longrightarrow> (\<exists>d. (survives w m d \<or> d = now_at w m) \<and> settles d (now_at w'' m))"
    using eff crash unfolding write_effect_def world_defs by metis
  ultimately show ?thesis by blast
qed

definition dyingOS :: "nat \<Rightarrow> osEnv" where
  "dyingOS k = goodOS\<lparr>os_alive := (\<lambda>t. t < k)\<rparr>"

definition oldFiles :: "(string, dirent) gomap" where
  "oldFiles = [(''settings.json'', fileOf ''{}''), (''state.json'', fileOf ''[]'')]"

definition dyingWrite :: "unit result outcome \<times> world" where
  "dyingWrite = WriteJSON sampleOpen ''settings.json'' (Inr ''1'') (dyingOS 12) (worldOf oldFiles)"

lemma dyingWrite_eq:
  "dyingWrite =
     (Crashed, \<lparr>wd_now = [(''settings.json'', fileOf (''1'' @ [CHR 0x0A])), (''state.json'', fileOf ''[]'')],
                wd_synced = oldFiles,
                wd_pending = [(''.settings.json.tmp-5'', None), (''settings.json'', Some (fileOf (''1'' @ [CHR 0x0A]))),
                              (''.settings.json.tmp-5'', Some (fileOf (''1'' @ [CHR 0x0A]))),
                              (''.settings.json.tmp-5'', Some (newFile\<lparr>de_Data := ''1'' @ [CHR 0x0A]\<rparr>)),
                              (''.settings.json.tmp-5'', Some newFile)],
                wd_tick = 12\<rparr>)"
  by code_simp

theorem write_is_atomic_witness:
  "now_at (worldOf oldFiles) ''settings.json'' = Some (fileOf (''1'' @ [CHR 0x0A])) \<or>
     (Crashed \<noteq> Done (Inr ()) \<and> (\<exists>d. survives (worldOf oldFiles) ''settings.json'' d \<and>
        settles d (now_at (worldOf oldFiles) ''settings.json'')))"
proof -
  have "crash_view (snd dyingWrite) (worldOf oldFiles)"
    by (auto simp: crash_view_def dyingWrite_eq survives_def settles_def worldOf_def)
  then show ?thesis
    using write_is_atomic [of "''settings.json''" sampleOpen "''1''" "dyingOS 12" "worldOf oldFiles" Crashed
        "snd dyingWrite" "worldOf oldFiles"] dyingWrite_eq
    by (simp add: dyingWrite_def public_name_def HasPrefix_def)
qed

text \<open>
  C39. What is written is read back: on a healthy system \<open>WriteJSON\<close> of a document that fits the
  size limit succeeds, and \<open>ReadJSONIfExists\<close> then finds the file and decodes exactly the
  bytes that were encoded and the newline, so a decoder that inverts the encoder returns the value.
\<close>

theorem written_is_read_back:
  assumes "healthy env s" and "fresh_suffixes env w" and "replaceable (now_at w n)" and "public_name n"
    and "isBase n" and "n \<noteq> []" and "int (length raw) < maxFileSize" and "decode (raw @ [CHR 0x0A]) = Some v"
  shows "\<exists>w' w''. WriteJSON s n (Inr raw) env w = (Done (Inr ()), w') \<and>
           ReadJSONIfExists s n decode env w' = (Done (Inr (Some v)), w'')"
proof -
  have name: "n \<noteq> ''.''" using assms(4) by (auto simp: public_name_def HasPrefix_def)
  obtain r w' where w': "WriteJSON s n (Inr raw) env w = (r, w')" by (cases "WriteJSON s n (Inr raw) env w")
  then have r: "r = Done (Inr ())" and st: "durable_put n (Some (fileOf (raw @ [CHR 0x0A]))) w w'"
    using healthy_write [OF assms(1-7)] by (auto simp: wp_def)
  obtain q w'' where w'': "ReadJSONIfExists s n decode env w' = (q, w'')" by (cases "ReadJSONIfExists s n decode env w'")
  then have "q = Done (readEntry n decode (now_at w' n))"
    using healthy_read [OF assms(1) assms(5) name assms(6), of decode w'] by (auto simp: wp_def)
  moreover have "now_at w' n = Some (fileOf (raw @ [CHR 0x0A]))" using st assms(4) by (simp add: durable_put_def)
  ultimately have "q = Done (Inr (Some v))"
    using assms(7, 8) by (simp add: readEntry_def decodeFile_def fileOf_def newFile_def)
  then show ?thesis using w' w'' r by blast
qed

theorem written_is_read_back_witness:
  "\<exists>w' w''. WriteJSON sampleOpen ''settings.json'' (Inr ''1'') goodOS (worldOf oldFiles) = (Done (Inr ()), w') \<and>
     ReadJSONIfExists sampleOpen ''settings.json'' (\<lambda>bytes. if bytes = ''1'' @ [CHR 0x0A] then Some True else None) goodOS w'
       = (Done (Inr (Some True)), w'')"
proof -
  have "fresh_suffixes goodOS (worldOf oldFiles)"
    by (simp add: fresh_suffixes_def worldOf_def oldFiles_def tempNameOf_def)
  then show ?thesis
    using written_is_read_back [of goodOS sampleOpen "worldOf oldFiles" "''settings.json''" "''1''"
        "\<lambda>bytes. if bytes = ''1'' @ [CHR 0x0A] then Some True else None" True] goodOS_healthy
    by (simp add: replaceable_def worldOf_def oldFiles_def fileOf_def newFile_def public_name_def HasPrefix_def isBase_def maxFileSize_def)
qed

definition lateFaultOS :: osEnv where
  "lateFaultOS = goodOS\<lparr>os_lstat := (\<lambda>t p. if t = 13 then LookupErr ''input/output error'' else Found dirInfo)\<rparr>"

text \<open>
  The outcome of a write can be reported as not committed although the new file is in place and
  durable: \<open>WriteJSON\<close> validates the directory once more after the flush, and an error of that
  check carries no outcome, which \<open>OutcomeOf\<close> reads as \<open>WriteNotCommitted\<close>.
\<close>

theorem committed_write_reported_uncommitted:
  "\<exists>e w'. WriteJSON sampleOpen ''settings.json'' (Inr ''1'') lateFaultOS (worldOf oldFiles) = (Done (Inl e), w') \<and>
     OutcomeOf e = WriteNotCommitted \<and> durable_put ''settings.json'' (Some (fileOf (''1'' @ [CHR 0x0A]))) (worldOf oldFiles) w'"
proof -
  have "WriteJSON sampleOpen ''settings.json'' (Inr ''1'') lateFaultOS (worldOf oldFiles) =
     (Done (Inl (Wrapped ''inspect secure store directory'' (Msg ''input/output error''))),
      (worldOf [(''settings.json'', fileOf (''1'' @ [CHR 0x0A])), (''state.json'', fileOf ''[]'')])\<lparr>wd_tick := 14\<rparr>)"
    by code_simp
  moreover have "OutcomeOf (Wrapped ''inspect secure store directory'' (Msg ''input/output error'')) = WriteNotCommitted"
    by simp
  ultimately show ?thesis
    by (intro exI conjI) (auto simp: durable_put_def worldOf_def oldFiles_def survives_def)
qed

end
