(* ===== verification/Coordinator.thy ===== *)
theory Coordinator
  imports Accounts Securestore
begin

text \<open>
  The coordinator, \<^verbatim>\<open>internal/coordinator\<close>: \<^verbatim>\<open>coordinator.go\<close>, \<^verbatim>\<open>registry.go\<close>,
  \<^verbatim>\<open>config.go\<close>, \<^verbatim>\<open>manifest.go\<close> and \<^verbatim>\<open>management.go\<close>. It hosts the provider modules behind
  the interface of \<^verbatim>\<open>internal/providermodule/interface.go\<close>, which is a record of operations here;
  the laws that interface documents are the locale \<open>provider_module\<close>, and what the coordinator
  promises is proved in it once for every kind of module.
\<close>

section \<open>The interface of a provider module\<close>

record HostConfig =
  hc_CPAConfigPath :: string
  hc_AuthDir :: string
  hc_ClaudeKeys :: "ClaudeKey list"
  hc_OpenAICompatibility :: "OpenAICompatibility list"

record ManagementRoute =
  mr_Method :: string
  mr_Path :: string
  mr_Description :: string

record ManagementResource =
  mx_Path :: string
  mx_Menu :: string
  mx_Description :: string

record managementRequest =
  rq_Method :: string
  rq_Path :: string
  rq_Body :: string

text \<open>
  One module: \<open>'m\<close> is its state, \<open>'e\<close> what a call finds outside (the clock, the disk, the
  network), \<open>'s\<close> its status document and \<open>'r\<close> a management response. A
  module that is not \<open>ManagementCapable\<close> has \<open>None\<close> for its routes.
\<close>

record ('e, 'm, 's, 'r) moduleOps =
  op_Recognize :: "'m \<Rightarrow> candidate \<Rightarrow> bool"
  op_Reconfigure :: "'e \<Rightarrow> HostConfig \<Rightarrow> string \<Rightarrow> 'm \<Rightarrow> unit result \<times> 'm"
  op_OwnedAuthIDs :: "'m \<Rightarrow> string list"
  op_Pick :: "'e \<Rightarrow> pickRequest \<Rightarrow> 'm \<Rightarrow> pickResponse result \<times> 'm"
  op_HandleUsage :: "'e \<Rightarrow> usageRecord \<Rightarrow> 'm \<Rightarrow> unit result \<times> 'm"
  op_Status :: "'e \<Rightarrow> 'm \<Rightarrow> 's result \<times> 'm"
  op_Close :: "'e \<Rightarrow> 'm \<Rightarrow> go_error option \<times> 'm"
  op_Routes :: "'m \<Rightarrow> (ManagementRoute list \<times> ManagementResource list) option"
  op_Manage :: "'e \<Rightarrow> managementRequest \<Rightarrow> 'm \<Rightarrow> 'r \<times> 'm"

section \<open>State\<close>

definition PluginID :: string where "PluginID = ''subscription-pool''"
definition requiredPluginPriority :: int where "requiredPluginPriority = 1000"

record 'm Coordinator =
  co_modules :: "(string \<times> 'm) list"
  co_lastErr :: "go_error option"
  co_stopped :: bool
  co_registry :: "(string, string) gomap"

text \<open>\<open>None\<close> is the panic on a duplicate module identifier.\<close>

definition NewCoordinator :: "(string \<times> 'm) list \<Rightarrow> 'm Coordinator option" where
  "NewCoordinator modules =
     (if distinct (map fst modules)
      then Some \<lparr>co_modules = modules, co_lastErr = None, co_stopped = False, co_registry = []\<rparr> else None)"

definition co_recordError :: "go_error \<Rightarrow> 'm Coordinator \<Rightarrow> unit result \<times> 'm Coordinator" where
  "co_recordError err c = (Inl err, if co_stopped c then c else c\<lparr>co_lastErr := Some err\<rparr>)"

definition co_validationStatus :: "'m Coordinator \<Rightarrow> string" where
  "co_validationStatus c = (case co_lastErr c of None \<Rightarrow> [] | Some e \<Rightarrow> error_text e)"

definition setModule :: "string \<Rightarrow> 'm \<Rightarrow> (string \<times> 'm) list \<Rightarrow> (string \<times> 'm) list" where
  "setModule i m entries = map (\<lambda>(j, n). (j, if j = i then m else n)) entries"

section \<open>The registry\<close>

fun registryIDs :: "string \<Rightarrow> string list \<Rightarrow> (string, string) gomap \<Rightarrow> (string, string) gomap result" where
  "registryIDs provider [] byAuth = Inr byAuth"
| "registryIDs provider (authID # ids) byAuth =
     (if authID = [] then registryIDs provider ids byAuth
      else case mget byAuth authID of
        Some existing \<Rightarrow> Inl (Msg (''auth id is owned by both '' @ existing @ '' and '' @ provider))
      | None \<Rightarrow> registryIDs provider ids (mput authID provider byAuth))"

fun registryLoop :: "(string, string list) gomap \<Rightarrow> string list \<Rightarrow> (string, string) gomap \<Rightarrow> (string, string) gomap result" where
  "registryLoop owned [] byAuth = Inr byAuth"
| "registryLoop owned (provider # rest) byAuth =
     bindR (registryIDs provider (mget_or [] owned provider) byAuth) (\<lambda>byAuth'. registryLoop owned rest byAuth')"

text \<open>The quoted auth ID of the error is left out of its text.\<close>

definition buildRegistry :: "(string, string list) gomap \<Rightarrow> (string, string) gomap result" where
  "buildRegistry owned = registryLoop owned (sort (mkeys owned)) []"

definition providerFor :: "(string, string) gomap \<Rightarrow> string \<Rightarrow> string" where
  "providerFor byAuth authID = mget_or [] byAuth authID"

section \<open>Configuration\<close>

record coordinatorConfig =
  cc_CPAConfigPath :: string
  cc_Providers :: "(string, string) gomap"

definition parseCoordinatorConfig :: "(string \<Rightarrow> coordinatorConfig result) \<Rightarrow> string \<Rightarrow> coordinatorConfig result" where
  "parseCoordinatorConfig decode raw =
     (case decode raw of
        Inl err \<Rightarrow> Inl (Wrapped ''decode coordinator config'' err)
      | Inr cfg \<Rightarrow> Inr (if TrimSpace (cc_CPAConfigPath cfg) = [] then cfg\<lparr>cc_CPAConfigPath := ''config.yaml''\<rparr> else cfg))"

text \<open>A node of the configuration is its YAML text; \<open>nodeDecode\<close> and \<open>marshal\<close> are the YAML and JSON codecs.\<close>

definition providerConfigRaw ::
  "(string \<Rightarrow> goany result) \<Rightarrow> (goany \<Rightarrow> string result) \<Rightarrow> coordinatorConfig \<Rightarrow> string \<Rightarrow> string result" where
  "providerConfigRaw nodeDecode marshal cfg provider =
     (case mget (cc_Providers cfg) provider of
        None \<Rightarrow> Inr ''{}''
      | Some node \<Rightarrow>
          (case nodeDecode node of
             Inl err \<Rightarrow> Inl (Wrapped (''decode providers.'' @ provider) err)
           | Inr v \<Rightarrow>
               if v = AnyNil then Inr ''{}''
               else case marshal v of
                 Inl err \<Rightarrow> Inl (Wrapped (''re-encode providers.'' @ provider) err)
               | Inr raw \<Rightarrow> Inr raw))"

text \<open>\<open>absolute\<close> stands for \<open>filepath.Abs\<close>, which depends on the working directory.\<close>

definition resolveCPAConfigPath :: "(string \<Rightarrow> string result) \<Rightarrow> string \<Rightarrow> string result" where
  "resolveCPAConfigPath absolute pluginConfigPath =
     (let clean = pathString (cleanPath (TrimSpace pluginConfigPath))
      in if clean = ''.'' \<or> clean = [] then Inl (Msg ''cpa-config-path is required'')
         else if IsAbs clean then Inr clean
         else case absolute clean of Inl err \<Rightarrow> Inl (Wrapped ''resolve cpa-config-path'' err) | Inr p \<Rightarrow> Inr p)"

definition resolveAuthDir :: "(string \<Rightarrow> string result) \<Rightarrow> string result \<Rightarrow> string \<Rightarrow> string result" where
  "resolveAuthDir absolute home raw =
     (let v = TrimSpace raw;
          v1 = (if v = [] then ''~/.cli-proxy-api'' else v);
          expanded = (if v1 = ''~'' \<or> HasPrefix v1 ''~/''
                      then (case home of
                              Inl err \<Rightarrow> Inl (Wrapped ''resolve auth-dir'' err)
                            | Inr h \<Rightarrow> Inr (if v1 = ''~'' then h else joinPath h (drop 2 v1)))
                      else Inr v1)
      in bindR expanded (\<lambda>v2. case absolute (pathString (cleanPath v2)) of
           Inl err \<Rightarrow> Inl (Wrapped ''resolve auth-dir'' err) | Inr p \<Rightarrow> Inr p))"

record hostCPAConfig =
  hx_AuthDir :: string
  hx_ClaudeKeys :: "ClaudeKey list"
  hx_OpenAICompatibility :: "OpenAICompatibility list"
  hx_Plugins :: cpaPluginsProjection

text \<open>\<open>parse\<close> is \<open>sdkconfig.ParseConfigBytes\<close> with the projection of its fields.\<close>

definition loadHostCPAConfig :: "(string \<Rightarrow> string result) \<Rightarrow> (string \<Rightarrow> hostCPAConfig option) \<Rightarrow> string \<Rightarrow> hostCPAConfig result" where
  "loadHostCPAConfig readFile parse path =
     (case readFile path of
        Inl err \<Rightarrow> Inl (Wrapped ''read CPA config'' err)
      | Inr bytes \<Rightarrow> (case parse bytes of None \<Rightarrow> Inl (Msg ''load CPA config: invalid configuration'') | Some cfg \<Rightarrow> Inr cfg))"

definition co_validateSchedulerDeployment :: "cpaPluginsProjection \<Rightarrow> unit result" where
  "co_validateSchedulerDeployment plugins =
     (if \<not> pj_Enabled plugins then Inl (Msg ''plugins must be enabled'')
      else case mget (pj_Configs plugins) PluginID of
        None \<Rightarrow> Inl (Msg (PluginID @ '' must be enabled''))
      | Some item \<Rightarrow>
          if pp_Enabled item \<noteq> Some True then Inl (Msg (PluginID @ '' must be enabled''))
          else if pp_Priority item \<noteq> requiredPluginPriority
          then Inl (Msg (PluginID @ '' priority must be '' @ Itoa requiredPluginPriority))
          else case find (\<lambda>(other, configured). other \<noteq> PluginID \<and> pp_Enabled configured = Some True) (pj_Configs plugins) of
            Some (other, _) \<Rightarrow> Inl (Msg (PluginID @ '' must be the sole enabled scheduler plugin; disable '' @ other))
          | None \<Rightarrow> Inr ())"

definition providerStubDir :: "string \<Rightarrow> string \<Rightarrow> string" where
  "providerStubDir pluginAuthDir provider = joinPath (joinPath pluginAuthDir ''providers'') provider"

section \<open>Reconfiguration\<close>

text \<open>
  What the coordinator takes from outside: the codecs, the file system and the environment.
  \<open>ce_ensureDir\<close> is \<open>securestore.EnsureEmptyProviderDir\<close>.
\<close>

record coordinatorEnv =
  ce_decode :: "string \<Rightarrow> coordinatorConfig result"
  ce_nodeDecode :: "string \<Rightarrow> goany result"
  ce_marshal :: "goany \<Rightarrow> string result"
  ce_absolute :: "string \<Rightarrow> string result"
  ce_home :: "string result"
  ce_readFile :: "string \<Rightarrow> string result"
  ce_parseHost :: "string \<Rightarrow> hostCPAConfig option"
  ce_ensureDir :: "string \<Rightarrow> unit result"

text \<open>The loop over the modules stops at the first error; the modules before it keep their new configuration.\<close>

fun configureModules ::
  "('e, 'm, 's, 'r) moduleOps \<Rightarrow> 'e \<Rightarrow> coordinatorEnv \<Rightarrow> coordinatorConfig \<Rightarrow> HostConfig \<Rightarrow> (string \<times> 'm) list \<Rightarrow>
     unit result \<times> (string \<times> 'm) list" where
  "configureModules ops e env cfg host [] = (Inr (), [])"
| "configureModules ops e env cfg host ((i, m) # rest) =
     (case providerConfigRaw (ce_nodeDecode env) (ce_marshal env) cfg i of
        Inl err \<Rightarrow> (Inl err, (i, m) # rest)
      | Inr raw \<Rightarrow>
          (case op_Reconfigure ops e host raw m of
             (Inl err, m') \<Rightarrow> (Inl (Wrapped (''provider '' @ i) err), (i, m') # rest)
           | (Inr _, m') \<Rightarrow>
               (case ce_ensureDir env (providerStubDir (hc_AuthDir host) i) of
                  Inl err \<Rightarrow> (Inl err, (i, m') # rest)
                | Inr _ \<Rightarrow>
                    (case configureModules ops e env cfg host rest of (r, rest') \<Rightarrow> (r, (i, m') # rest')))))"

definition hostConfigOf :: "string \<Rightarrow> string \<Rightarrow> hostCPAConfig \<Rightarrow> HostConfig" where
  "hostConfigOf configPath pluginAuthDir cpa =
     \<lparr>hc_CPAConfigPath = configPath, hc_AuthDir = pluginAuthDir, hc_ClaudeKeys = hx_ClaudeKeys cpa,
      hc_OpenAICompatibility = hx_OpenAICompatibility cpa\<rparr>"

text \<open>What happens before any module is touched.\<close>

definition prepareHost :: "coordinatorEnv \<Rightarrow> string \<Rightarrow> (coordinatorConfig \<times> HostConfig) result" where
  "prepareHost env rawConfig =
     bindR (parseCoordinatorConfig (ce_decode env) rawConfig) (\<lambda>cfg.
     bindR (resolveCPAConfigPath (ce_absolute env) (cc_CPAConfigPath cfg)) (\<lambda>configPath.
     bindR (loadHostCPAConfig (ce_readFile env) (ce_parseHost env) configPath) (\<lambda>cpa.
     bindR (co_validateSchedulerDeployment (hx_Plugins cpa)) (\<lambda>_.
     bindR (resolveAuthDir (ce_absolute env) (ce_home env) (hx_AuthDir cpa)) (\<lambda>rootAuthDir.
     let pluginAuthDir = joinPath rootAuthDir PluginID
     in bindR (ce_ensureDir env pluginAuthDir) (\<lambda>_. Inr (cfg, hostConfigOf configPath pluginAuthDir cpa)))))))"

definition ownedBy :: "('e, 'm, 's, 'r) moduleOps \<Rightarrow> (string \<times> 'm) list \<Rightarrow> (string, string list) gomap" where
  "ownedBy ops entries = map (\<lambda>(i, m). (i, op_OwnedAuthIDs ops m)) entries"

text \<open>The manifest is written at the end and its errors are ignored, so it does not appear here.\<close>

definition co_reconfigure ::
  "('e, 'm, 's, 'r) moduleOps \<Rightarrow> 'e \<Rightarrow> coordinatorEnv \<Rightarrow> string \<Rightarrow> 'm Coordinator \<Rightarrow> unit result \<times> 'm Coordinator" where
  "co_reconfigure ops e env rawConfig c =
     (case prepareHost env rawConfig of
        Inl err \<Rightarrow> co_recordError err c
      | Inr (cfg, host) \<Rightarrow>
          if co_stopped c then (Inl (Msg ''plugin is shutting down''), c)
          else (case configureModules ops e env cfg host (co_modules c) of
                  (Inl err, entries) \<Rightarrow> co_recordError err (c\<lparr>co_modules := entries\<rparr>)
                | (Inr _, entries) \<Rightarrow>
                    (case buildRegistry (ownedBy ops entries) of
                       Inl err \<Rightarrow> co_recordError err (c\<lparr>co_modules := entries\<rparr>)
                     | Inr byAuth \<Rightarrow>
                         (Inr (), c\<lparr>co_modules := entries, co_registry := byAuth, co_lastErr := None\<rparr>))))"

section \<open>Dispatch\<close>

definition recognizing :: "('e, 'm, 's, 'r) moduleOps \<Rightarrow> pickRequest \<Rightarrow> (string \<times> 'm) list \<Rightarrow> (string \<times> 'm) list" where
  "recognizing ops req entries = filter (\<lambda>(i, m). list_ex (op_Recognize ops m) (pr_Candidates req)) entries"

definition co_pick ::
  "('e, 'm, 's, 'r) moduleOps \<Rightarrow> 'e \<Rightarrow> pickRequest \<Rightarrow> 'm Coordinator \<Rightarrow> pickResponse result \<times> 'm Coordinator" where
  "co_pick ops e req c =
     (if co_stopped c then (Inl (Msg ''plugin is shutting down''), c)
      else case recognizing ops req (co_modules c) of
        [] \<Rightarrow> (Inr zero_pickResponse, c)
      | [(i, m)] \<Rightarrow> (case op_Pick ops e req m of (r, m') \<Rightarrow> (r, c\<lparr>co_modules := setModule i m' (co_modules c)\<rparr>))
      | entries \<Rightarrow>
          (Inl (Msg (''coordinator_mixed_provider_pick: candidates recognized by multiple providers: '' @ Join (map fst entries) '', '')), c))"

definition co_handleUsage ::
  "('e, 'm, 's, 'r) moduleOps \<Rightarrow> 'e \<Rightarrow> usageRecord \<Rightarrow> 'm Coordinator \<Rightarrow> unit result \<times> 'm Coordinator" where
  "co_handleUsage ops e rec c =
     (let provider = providerFor (co_registry c) (TrimSpace (ur_AuthID rec))
      in if provider = [] then (Inr (), c)
         else case find (\<lambda>(i, m). i = provider) (co_modules c) of
           None \<Rightarrow> (Inr (), c)
         | Some (i, m) \<Rightarrow> (case op_HandleUsage ops e rec m of (r, m') \<Rightarrow> (r, c\<lparr>co_modules := setModule i m' (co_modules c)\<rparr>)))"

record 's coordinatorStatus =
  cs_Plugin :: string
  cs_Status :: string
  cs_Version :: string
  cs_GeneratedAt :: gotime
  cs_ValidationError :: string
  cs_Providers :: "(string, 's) gomap"

fun statusModules :: "('e, 'm, 's, 'r) moduleOps \<Rightarrow> 'e \<Rightarrow> (string \<times> 'm) list \<Rightarrow> (string, 's) gomap \<times> (string \<times> 'm) list" where
  "statusModules ops e [] = ([], [])"
| "statusModules ops e ((i, m) # rest) =
     (case (op_Status ops e m, statusModules ops e rest) of
        ((r, m'), (providers, rest')) \<Rightarrow>
          (case r of Inl _ \<Rightarrow> providers | Inr raw \<Rightarrow> (i, raw) # providers, (i, m') # rest'))"

definition co_managementStatus ::
  "('e, 'm, 's, 'r) moduleOps \<Rightarrow> 'e \<Rightarrow> string \<Rightarrow> gotime \<Rightarrow> 'm Coordinator \<Rightarrow> 's coordinatorStatus \<times> 'm Coordinator" where
  "co_managementStatus ops e version now c =
     (case statusModules ops e (co_modules c) of
        (providers, entries) \<Rightarrow>
          (\<lparr>cs_Plugin = PluginID, cs_Status = (if co_validationStatus c \<noteq> [] then ''reconfigure_rejected'' else ''registered''),
            cs_Version = version, cs_GeneratedAt = now, cs_ValidationError = co_validationStatus c, cs_Providers = providers\<rparr>,
           c\<lparr>co_modules := entries\<rparr>))"

definition co_OwnedAuthIDs :: "('e, 'm, 's, 'r) moduleOps \<Rightarrow> string \<Rightarrow> 'm Coordinator \<Rightarrow> string list" where
  "co_OwnedAuthIDs ops provider c =
     (case find (\<lambda>(i, m). i = provider) (co_modules c) of None \<Rightarrow> [] | Some (i, m) \<Rightarrow> op_OwnedAuthIDs ops m)"

fun closeModules :: "('e, 'm, 's, 'r) moduleOps \<Rightarrow> 'e \<Rightarrow> (string \<times> 'm) list \<Rightarrow> go_error option \<times> (string \<times> 'm) list" where
  "closeModules ops e [] = (None, [])"
| "closeModules ops e ((i, m) # rest) =
     (case (op_Close ops e m, closeModules ops e rest) of
        ((e, m'), (e', rest')) \<Rightarrow> (case e of Some err \<Rightarrow> Some err | None \<Rightarrow> e', (i, m') # rest'))"

definition co_shutdown :: "('e, 'm, 's, 'r) moduleOps \<Rightarrow> 'e \<Rightarrow> 'm Coordinator \<Rightarrow> go_error option \<times> 'm Coordinator" where
  "co_shutdown ops e c =
     (if co_stopped c then (None, c)
      else case closeModules ops e (co_modules c) of (e, entries) \<Rightarrow> (e, c\<lparr>co_stopped := True, co_modules := entries\<rparr>))"

section \<open>Management\<close>

definition co_managementStatusPath :: string where
  "co_managementStatusPath = ''/v0/management/plugins/'' @ PluginID @ ''/status''"
definition resourceStatusPath :: string where "resourceStatusPath = ''/status''"
definition resourcePluginBasePath :: string where "resourcePluginBasePath = ''/v0/resource/plugins/'' @ PluginID"

definition isResourceStatusPath :: "string \<Rightarrow> bool" where
  "isResourceStatusPath path \<longleftrightarrow>
     (let p = TrimRightSlash (TrimSpace path) in p = resourceStatusPath \<or> p = resourcePluginBasePath @ resourceStatusPath)"

definition managementRoutes :: "('e, 'm, 's, 'r) moduleOps \<Rightarrow> 'm Coordinator \<Rightarrow> ManagementRoute list \<times> ManagementResource list" where
  "managementRoutes ops c =
     (let capable = List.map_filter (\<lambda>(i, m). op_Routes ops m) (co_modules c)
      in (\<lparr>mr_Method = ''GET'', mr_Path = co_managementStatusPath,
           mr_Description = ''Reports aggregated subscription-pool status across every provider.''\<rparr> # concat (map fst capable),
          \<lparr>mx_Path = resourceStatusPath, mx_Menu = ''Subscription Quota'',
           mx_Description = ''Shows Z.ai and OpenCode Go quota and account health.''\<rparr> # concat (map snd capable)))"

datatype ('s, 'r) coordinatorResponse =
    StatusResponse "'s coordinatorStatus"
  | ResourcePage "'s coordinatorStatus"
  | ModuleResponse 'r
  | RouteNotFound

text \<open>The request a module gets, when it declared a matching route or resource.\<close>

definition delegatedRequest :: "managementRequest \<Rightarrow> ManagementRoute list \<times> ManagementResource list \<Rightarrow> managementRequest option" where
  "delegatedRequest req routes =
     (if list_ex (\<lambda>r. mr_Method r = rq_Method req \<and> mr_Path r = rq_Path req) (fst routes) then Some req
      else if rq_Method req \<noteq> ''GET'' then None
      else map_option (\<lambda>x. req\<lparr>rq_Path := mx_Path x\<rparr>)
             (find (\<lambda>x. rq_Path req = mx_Path x \<or> rq_Path req = resourcePluginBasePath @ mx_Path x) (snd routes)))"

fun delegate :: "('e, 'm, 's, 'r) moduleOps \<Rightarrow> 'e \<Rightarrow> managementRequest \<Rightarrow> (string \<times> 'm) list \<Rightarrow> ('r \<times> string \<times> 'm) option" where
  "delegate ops e req [] = None"
| "delegate ops e req ((i, m) # rest) =
     (case (case op_Routes ops m of None \<Rightarrow> None | Some routes \<Rightarrow> delegatedRequest req routes) of
        Some delegated \<Rightarrow> (case op_Manage ops e delegated m of (r, m') \<Rightarrow> Some (r, i, m'))
      | None \<Rightarrow> delegate ops e req rest)"

definition co_handleManagement ::
  "('e, 'm, 's, 'r) moduleOps \<Rightarrow> 'e \<Rightarrow> string \<Rightarrow> gotime \<Rightarrow> managementRequest \<Rightarrow> 'm Coordinator \<Rightarrow> ('s, 'r) coordinatorResponse \<times> 'm Coordinator" where
  "co_handleManagement ops e version now req c =
     (if rq_Method req = ''GET'' \<and> rq_Path req = co_managementStatusPath
      then (case co_managementStatus ops e version now c of (body, c') \<Rightarrow> (StatusResponse body, c'))
      else if rq_Method req = ''GET'' \<and> isResourceStatusPath (rq_Path req)
      then (case co_managementStatus ops e version now c of (body, c') \<Rightarrow> (ResourcePage body, c'))
      else case delegate ops e req (co_modules c) of
        Some (r, i, m') \<Rightarrow> (ModuleResponse r, c\<lparr>co_modules := setModule i m' (co_modules c)\<rparr>)
      | None \<Rightarrow> (RouteNotFound, c))"

section \<open>The registry has one owner per auth ID\<close>

lemma registryIDs_spec:
  assumes "registryIDs p ids byAuth = Inr byAuth'"
  shows "mget byAuth' i = (if i \<noteq> [] \<and> i \<in> set ids then Some p else mget byAuth i) \<and>
    (i \<noteq> [] \<and> i \<in> set ids \<longrightarrow> mget byAuth i = None)"
  using assms
proof (induction p ids byAuth rule: registryIDs.induct)
  case (2 p a ids byAuth)
  show ?case
  proof (cases "a = []")
    case True
    then show ?thesis using 2 by auto
  next
    case False
    then obtain n: "mget byAuth a = None" and r: "registryIDs p ids (mput a p byAuth) = Inr byAuth'"
      using "2.prems" by (auto split: option.splits)
    show ?thesis using "2.IH"(2) [OF False n r] n False by (auto split: if_splits)
  qed
qed simp

lemma registryLoop_spec:
  assumes "registryLoop owned ps byAuth = Inr byAuth'" and "distinct ps"
    and "\<And>i p. mget byAuth i = Some p \<Longrightarrow> p \<notin> set ps"
  shows "mget byAuth' i = Some p \<longleftrightarrow> mget byAuth i = Some p \<or> (p \<in> set ps \<and> i \<noteq> [] \<and> i \<in> set (mget_or [] owned p))"
  using assms
proof (induction owned ps byAuth rule: registryLoop.induct)
  case (2 owned q rest byAuth)
  then obtain mid where m: "registryIDs q (mget_or [] owned q) byAuth = Inr mid" and r: "registryLoop owned rest mid = Inr byAuth'"
    by (auto simp: bindR_Inr_iff)
  note s = registryIDs_spec [OF m]
  have "mget byAuth' i = Some p \<longleftrightarrow> mget mid i = Some p \<or> (p \<in> set rest \<and> i \<noteq> [] \<and> i \<in> set (mget_or [] owned p))"
    by (rule "2.IH" [OF r]) (use "2.prems"(2, 3) s in \<open>auto split: if_splits\<close>)
  then show ?case using s [of i] "2.prems"(2, 3) by (auto split: if_splits)
qed simp

lemma buildRegistry_spec:
  assumes "buildRegistry owned = Inr byAuth" and "map_wf owned"
  shows "mget byAuth i = Some p \<longleftrightarrow> (\<exists>ids. mget owned p = Some ids \<and> i \<in> set ids) \<and> i \<noteq> []"
  using registryLoop_spec [OF assms(1) [unfolded buildRegistry_def], of i p] assms(2)
  by (auto simp: map_wf_def mkeys_def mget_or_def map_of_eq_None_iff split: option.splits intro: rev_image_eqI dest: map_of_SomeD)

lemma setModule_mem: "(p, n) \<in> set (setModule i m' es) \<longleftrightarrow> (\<exists>k. (p, k) \<in> set es \<and> n = (if p = i then m' else k))"
  by (induction es) (auto simp: setModule_def)

lemma find_key: "distinct (map fst es) \<Longrightarrow> (p, m) \<in> set es \<Longrightarrow> find (\<lambda>(i, m). i = p) es = Some (p, m)"
  by (induction es) (auto simp: image_iff)

section \<open>The contract of a provider module\<close>

definition same_ownership :: "('e, 'm, 's, 'r) moduleOps \<Rightarrow> 'm \<Rightarrow> 'm \<Rightarrow> bool" where
  "same_ownership ops m m' \<longleftrightarrow> op_Recognize ops m' = op_Recognize ops m \<and> op_OwnedAuthIDs ops m' = op_OwnedAuthIDs ops m"

lemma same_ownership_refl [simp]: "same_ownership ops m m"
  by (simp add: same_ownership_def)

definition from_request :: "pickRequest \<Rightarrow> pickResponse \<Rightarrow> bool" where
  "from_request req resp \<longleftrightarrow> resp_DelegateBuiltin resp \<noteq> [] \<or> resp_AuthID resp \<in> ca_ID ` set (pr_Candidates req)"

text \<open>
  The registry of a list of owners, and what an operation leaves alone: who owns what, and the
  registry.
\<close>

definition registry_of :: "(string \<times> string list) list \<Rightarrow> (string, string) gomap \<Rightarrow> bool" where
  "registry_of owners byAuth \<longleftrightarrow>
     (\<forall>i p. i \<noteq> [] \<longrightarrow> mget byAuth i = Some p \<longleftrightarrow> (\<exists>ids. (p, ids) \<in> set owners \<and> i \<in> set ids))"

definition modules_ok :: "('m \<Rightarrow> bool) \<Rightarrow> 'm Coordinator \<Rightarrow> bool" where
  "modules_ok ok c \<longleftrightarrow> (\<forall>(i, m) \<in> set (co_modules c). ok m)"

definition owners_kept :: "('e, 'm, 's, 'r) moduleOps \<Rightarrow> ('m \<Rightarrow> bool) \<Rightarrow> 'm Coordinator \<Rightarrow> 'm Coordinator \<Rightarrow> bool" where
  "owners_kept ops ok c c' \<longleftrightarrow> ownedBy ops (co_modules c') = ownedBy ops (co_modules c) \<and> co_registry c' = co_registry c \<and> modules_ok ok c'"

lemma ownedBy_names: "map fst (ownedBy ops es) = map fst es"
  by (auto simp: ownedBy_def)

lemma owners_kept_names: "owners_kept ops ok c c' \<Longrightarrow> map fst (co_modules c') = map fst (co_modules c)"
  by (metis owners_kept_def ownedBy_names)

text \<open>
  The laws of the interface: a pick, a usage record, a status, a management request and what the
  module does on its own (\<open>background\<close>) leave recognition and ownership alone; a rejected
  reconfiguration does too, when \<open>calm\<close> holds of the outside world; a request with a recognised
  candidate is handled or rejected, never passed on; a selected credential is one of the request.
\<close>

locale provider_module =
  fixes ops :: "('e, 'm, 's, 'r) moduleOps" and ok :: "'m \<Rightarrow> bool" and calm :: "'e \<Rightarrow> bool" and background :: "'m \<Rightarrow> 'm \<Rightarrow> bool"
  assumes pick_law: "ok m \<Longrightarrow> same_ownership ops m (snd (op_Pick ops e req m)) \<and> ok (snd (op_Pick ops e req m))"
    and usage_law: "ok m \<Longrightarrow> same_ownership ops m (snd (op_HandleUsage ops e rec m)) \<and> ok (snd (op_HandleUsage ops e rec m))"
    and status_law: "ok m \<Longrightarrow> same_ownership ops m (snd (op_Status ops e m)) \<and> ok (snd (op_Status ops e m))"
    and manage_law: "ok m \<Longrightarrow> same_ownership ops m (snd (op_Manage ops e mreq m)) \<and> ok (snd (op_Manage ops e mreq m))"
    and configure_ok: "ok m \<Longrightarrow> ok (snd (op_Reconfigure ops e host raw m))"
    and configure_atomic: "calm e \<Longrightarrow> ok m \<Longrightarrow> op_Reconfigure ops e host raw m = (Inl err, m') \<Longrightarrow> same_ownership ops m m'"
    and pick_handles: "ok m \<Longrightarrow> \<exists>c \<in> set (pr_Candidates req). op_Recognize ops m c \<Longrightarrow> fst (op_Pick ops e req m) = Inr resp \<Longrightarrow>
      resp_Handled resp \<and> from_request req resp"
    and close_ok: "ok m \<Longrightarrow> ok (snd (op_Close ops e m))"
    and background_law: "ok m \<Longrightarrow> background m m' \<Longrightarrow> same_ownership ops m m' \<and> ok m'"
begin

lemma set_same:
  assumes "distinct (map fst (co_modules c))" and "modules_ok ok c" and "(i, m) \<in> set (co_modules c)" and "same_ownership ops m m' \<and> ok m'"
  shows "owners_kept ops ok c (c\<lparr>co_modules := setModule i m' (co_modules c)\<rparr>)"
proof -
  have u: "n = m" if "(i, n) \<in> set (co_modules c)" for n using assms(1, 3) that by (meson eq_key_imp_eq_value)
  have "op_OwnedAuthIDs ops m' = op_OwnedAuthIDs ops m" using assms(4) by (simp add: same_ownership_def)
  then have "ownedBy ops (setModule i m' (co_modules c)) = ownedBy ops (co_modules c)" using u by (auto simp: ownedBy_def setModule_def)
  moreover have "modules_ok ok (c\<lparr>co_modules := setModule i m' (co_modules c)\<rparr>)"
    using assms(2, 4) by (force simp: modules_ok_def setModule_mem)
  ultimately show ?thesis by (simp add: owners_kept_def)
qed

lemma pick_cases:
  obtains (stopped) "co_stopped c" "co_pick ops e req c = (Inl (Msg ''plugin is shutting down''), c)"
  | (nobody) "recognizing ops req (co_modules c) = []" "co_pick ops e req c = (Inr zero_pickResponse, c)"
  | (one) i m where "recognizing ops req (co_modules c) = [(i, m)]"
      "co_pick ops e req c = (fst (op_Pick ops e req m), c\<lparr>co_modules := setModule i (snd (op_Pick ops e req m)) (co_modules c)\<rparr>)"
  | (mixed) err where "length (recognizing ops req (co_modules c)) \<ge> 2" "co_pick ops e req c = (Inl err, c)"
proof (cases "co_stopped c")
  case True
  then show thesis using stopped by (simp add: co_pick_def)
next
  case False
  show thesis
  proof (cases "recognizing ops req (co_modules c)" rule: remdups_adj.cases)
    case 1
    then show thesis using nobody False by (simp add: co_pick_def)
  next
    case (2 x)
    then show thesis using one [of "fst x" "snd x"] False by (cases x) (simp add: co_pick_def split_beta)
  next
    case (3 x y xs)
    then show thesis using mixed False by (cases x) (simp add: co_pick_def)
  qed
qed

lemma recognizing_in:
  "recognizing ops req entries = [(i, m)] \<Longrightarrow> (i, m) \<in> set entries \<and> (\<exists>c \<in> set (pr_Candidates req). op_Recognize ops m c)"
proof -
  assume "recognizing ops req entries = [(i, m)]"
  then have "(i, m) \<in> set (recognizing ops req entries)" by simp
  then show ?thesis by (auto simp: recognizing_def list_ex_iff)
qed

lemma pick_keeps:
  assumes "distinct (map fst (co_modules c))" "modules_ok ok c"
  shows "owners_kept ops ok c (snd (co_pick ops e req c))"
proof (cases rule: pick_cases [of c e req])
  case (one i m)
  have m: "(i, m) \<in> set (co_modules c)" "ok m" using recognizing_in [OF one(1)] assms(2) by (auto simp: modules_ok_def)
  show ?thesis using set_same [OF assms m(1) pick_law [OF m(2), of e req]] one(2) by simp
qed (use assms in \<open>auto simp: owners_kept_def\<close>)

text \<open>Dispatch of a pick: handled only by the one module that recognises a candidate, with a credential of the request.\<close>

lemma pick_dispatch:
  assumes "modules_ok ok c" and "fst (co_pick ops e req c) = Inr resp"
  shows "if recognizing ops req (co_modules c) = [] then resp = zero_pickResponse \<and> snd (co_pick ops e req c) = c
    else \<exists>i m. recognizing ops req (co_modules c) = [(i, m)] \<and> fst (op_Pick ops e req m) = Inr resp \<and> resp_Handled resp \<and>
           from_request req resp \<and> snd (co_pick ops e req c) = c\<lparr>co_modules := setModule i (snd (op_Pick ops e req m)) (co_modules c)\<rparr>"
proof (cases rule: pick_cases [of c e req])
  case (one i m)
  have m: "ok m" "\<exists>x \<in> set (pr_Candidates req). op_Recognize ops m x"
    using recognizing_in [OF one(1)] assms(1) by (auto simp: modules_ok_def)
  have "fst (op_Pick ops e req m) = Inr resp" using one(2) assms(2) by simp
  then show ?thesis using pick_handles [OF m] one by auto
qed (use assms(2) in auto)

lemma usage_dispatch:
  assumes "registry_of owners (co_registry c)" and "map fst owners = map fst (co_modules c)" "distinct (map fst (co_modules c))"
    and "[] \<notin> fst ` set (co_modules c)" and "TrimSpace (ur_AuthID rec) \<noteq> []"
  shows "case filter (\<lambda>(p, ids). TrimSpace (ur_AuthID rec) \<in> set ids) owners of
      [] \<Rightarrow> co_handleUsage ops e rec c = (Inr (), c)
    | [(p, ids)] \<Rightarrow> \<exists>m. (p, m) \<in> set (co_modules c) \<and> co_handleUsage ops e rec c =
        (fst (op_HandleUsage ops e rec m), c\<lparr>co_modules := setModule p (snd (op_HandleUsage ops e rec m)) (co_modules c)\<rparr>)
    | _ \<Rightarrow> False"
proof -
  let ?i = "TrimSpace (ur_AuthID rec)" and ?f = "filter (\<lambda>(p, ids). TrimSpace (ur_AuthID rec) \<in> set ids) owners"
  have r: "mget (co_registry c) ?i = Some p \<longleftrightarrow> (\<exists>ids. (p, ids) \<in> set ?f)" for p
    using assms(1, 5) by (auto simp: registry_of_def)
  have d: "distinct (map fst ?f)" using assms(2, 3) by (simp add: distinct_map_filter)
  show ?thesis
  proof (cases ?f rule: remdups_adj.cases)
    case 1
    then have "mget (co_registry c) ?i = None" using r by (cases "mget (co_registry c) ?i") auto
    then show ?thesis using 1 by (simp add: co_handleUsage_def providerFor_def mget_or_def)
  next
    case (2 x)
    obtain p ids where x: "x = (p, ids)" by (cases x)
    have "(p, ids) \<in> set ?f" using 2 x by simp
    then have "p \<in> fst ` set owners" by force
    then have "p \<in> fst ` set (co_modules c)" using assms(2) by (metis set_map)
    then obtain m where m: "(p, m) \<in> set (co_modules c)" by auto
    then have "p \<noteq> []" using assms(4) by force
    moreover have "mget (co_registry c) ?i = Some p" using r [of p] 2 x by simp
    ultimately show ?thesis using 2 x m find_key [OF assms(3) m]
      by (auto simp: co_handleUsage_def providerFor_def mget_or_def split_beta intro!: exI [of _ m])
  next
    case (3 x y xs)
    then have "mget (co_registry c) ?i = Some (fst x)" "mget (co_registry c) ?i = Some (fst y)"
      using r [of "fst x"] r [of "fst y"] by (force simp: prod_eq_iff)+
    then show ?thesis using d 3 by simp
  qed
qed

text \<open>The same for all modules at once.\<close>

lemma all_same:
  assumes "list_all2 (\<lambda>(i, m) (j, m'). i = j \<and> same_ownership ops m m' \<and> ok m') (co_modules c) entries"
  shows "owners_kept ops ok c (c\<lparr>co_modules := entries\<rparr>)"
proof -
  have "ownedBy ops entries = ownedBy ops es \<and> (\<forall>(i, m) \<in> set entries. ok m)"
    if "list_all2 (\<lambda>(i, m) (j, m'). i = j \<and> same_ownership ops m m' \<and> ok m') es entries" for es
    using that by (induction rule: list_all2_induct) (auto simp: ownedBy_def same_ownership_def)
  then show ?thesis using assms by (simp add: owners_kept_def modules_ok_def)
qed

lemma status_same:
  "\<forall>(i, m) \<in> set es. ok m \<Longrightarrow> list_all2 (\<lambda>(i, m) (j, m'). i = j \<and> same_ownership ops m m' \<and> ok m') es (snd (statusModules ops e es))"
  by (induction es) (auto simp: split_beta status_law)

lemma delegate_in:
  "delegate ops e req es = Some (r, i, m') \<Longrightarrow> \<exists>m d. (i, m) \<in> set es \<and> m' = snd (op_Manage ops e d m)"
proof (induction es)
  case (Cons im rest)
  obtain j n where im: "im = (j, n)" by (cases im)
  show ?case
  proof (cases "case op_Routes ops n of None \<Rightarrow> None | Some routes \<Rightarrow> delegatedRequest req routes")
    case None
    then show ?thesis using Cons im by auto
  next
    case (Some d)
    then show ?thesis using Cons.prems im by (cases "op_Manage ops e d n") (auto intro!: exI [of _ n] exI [of _ d])
  qed
qed simp

lemma manage_keeps:
  assumes "distinct (map fst (co_modules c))" "modules_ok ok c"
  shows "owners_kept ops ok c (snd (co_handleManagement ops e version now req c))"
proof -
  have st: "owners_kept ops ok c (c\<lparr>co_modules := snd (statusModules ops e (co_modules c))\<rparr>)"
    by (rule all_same [OF status_same]) (use assms(2) in \<open>simp add: modules_ok_def\<close>)
  have dl: "owners_kept ops ok c (c\<lparr>co_modules := setModule i m' (co_modules c)\<rparr>)"
    if d: "delegate ops e req (co_modules c) = Some (r, i, m')" for r i m'
  proof -
    obtain m q where m: "(i, m) \<in> set (co_modules c)" "m' = snd (op_Manage ops e q m)" using delegate_in [OF d] by blast
    then have "ok m" using assms(2) by (auto simp: modules_ok_def)
    then show ?thesis using set_same [OF assms m(1)] manage_law m(2) by blast
  qed
  have "owners_kept ops ok c c" using assms(2) by (simp add: owners_kept_def)
  then show ?thesis using st dl
    by (auto simp: co_handleManagement_def co_managementStatus_def split_beta split: option.splits)
qed

lemma usage_keeps:
  assumes "distinct (map fst (co_modules c))" "modules_ok ok c"
  shows "owners_kept ops ok c (snd (co_handleUsage ops e rec c))"
proof (cases "find (\<lambda>(i, m). i = providerFor (co_registry c) (TrimSpace (ur_AuthID rec))) (co_modules c)")
  case None
  then show ?thesis using assms by (simp add: co_handleUsage_def Let_def owners_kept_def)
next
  case (Some im)
  obtain i m where im: "im = (i, m)" by (cases im)
  have m: "(i, m) \<in> set (co_modules c)" using Some im by (auto simp: find_Some_iff) (metis nth_mem)
  then have "ok m" using assms(2) by (auto simp: modules_ok_def)
  then show ?thesis using set_same [OF assms m usage_law] Some im assms(2)
    by (simp add: co_handleUsage_def Let_def split_beta owners_kept_def)
qed

lemma configureModules_keeps:
  "\<forall>(i, m) \<in> set es. ok m \<Longrightarrow> map fst (snd (configureModules ops e env cfg host es)) = map fst es \<and>
     (\<forall>(i, m) \<in> set (snd (configureModules ops e env cfg host es)). ok m)"
proof (induction es)
  case (Cons im rest)
  obtain i m where im: "im = (i, m)" by (cases im)
  have ok: "ok m" "\<forall>(i, m) \<in> set rest. ok m" using Cons.prems im by auto
  note IH = Cons.IH [OF ok(2)]
  show ?case
  proof (cases "providerConfigRaw (ce_nodeDecode env) (ce_marshal env) cfg i")
    case (Inl e)
    then show ?thesis using im ok by simp
  next
    case (Inr raw)
    obtain r m' where c: "op_Reconfigure ops e host raw m = (r, m')" by (cases "op_Reconfigure ops e host raw m")
    have "ok m'" using configure_ok [OF ok(1), of e host raw] c by simp
    then show ?thesis using im Inr c ok(2) IH by (cases r) (auto simp: split_beta split: sum.splits)
  qed
qed simp

lemma reconfigured:
  assumes "co_reconfigure ops e env raw c = (Inr (), c')" and "modules_ok ok c" and "distinct (map fst (co_modules c))"
  shows "registry_of (ownedBy ops (co_modules c')) (co_registry c') \<and> modules_ok ok c' \<and> map fst (co_modules c') = map fst (co_modules c)"
proof -
  obtain cfg host entries byAuth where
      cm: "configureModules ops e env cfg host (co_modules c) = (Inr (), entries)"
    and br: "buildRegistry (ownedBy ops entries) = Inr byAuth"
    and c': "c' = c\<lparr>co_modules := entries, co_registry := byAuth, co_lastErr := None\<rparr>"
    using assms(1) by (auto simp: co_reconfigure_def co_recordError_def split: sum.splits prod.splits if_splits)
  have k: "map fst entries = map fst (co_modules c)" "\<forall>(i, m) \<in> set entries. ok m"
    using configureModules_keeps [of "co_modules c" e env cfg host] assms(2) cm by (simp_all add: modules_ok_def)
  have d: "distinct (map fst (ownedBy ops entries))" using k(1) assms(3) by (simp add: ownedBy_names)
  have "registry_of (ownedBy ops entries) byAuth"
    using buildRegistry_spec [OF br] d by (simp add: registry_of_def map_wf_def)
  then show ?thesis using k by (simp add: c' modules_ok_def)
qed

text \<open>Whatever becomes of a reconfiguration, the modules stay in their slots; a rejected one keeps the registry.\<close>

lemma configured_slots:
  assumes "modules_ok ok c"
  shows "map fst (co_modules (snd (co_reconfigure ops e env raw c))) = map fst (co_modules c) \<and> modules_ok ok (snd (co_reconfigure ops e env raw c))"
    and "co_reconfigure ops e env raw c = (Inl err, c') \<Longrightarrow> co_registry c' = co_registry c"
proof -
  have k: "map fst entries = map fst (co_modules c) \<and> modules_ok ok (c\<lparr>co_modules := entries\<rparr>)"
    if "configureModules ops e env cfg host (co_modules c) = (r, entries)" for cfg host r entries
    using configureModules_keeps [of "co_modules c" e env cfg host] assms that by (simp add: modules_ok_def)
  then show "map fst (co_modules (snd (co_reconfigure ops e env raw c))) = map fst (co_modules c) \<and> modules_ok ok (snd (co_reconfigure ops e env raw c))"
    using assms by (auto simp: co_reconfigure_def co_recordError_def modules_ok_def split: sum.splits prod.splits)
  show "co_reconfigure ops e env raw c = (Inl err, c') \<Longrightarrow> co_registry c' = co_registry c"
    by (auto simp: co_reconfigure_def co_recordError_def split: sum.splits prod.splits if_splits)
qed

lemma closed_slots:
  assumes "modules_ok ok c"
  shows "map fst (co_modules (snd (co_shutdown ops e c))) = map fst (co_modules c) \<and> modules_ok ok (snd (co_shutdown ops e c)) \<and>
    co_registry (snd (co_shutdown ops e c)) = co_registry c"
proof -
  have "map fst (snd (closeModules ops e es)) = map fst es \<and> (\<forall>(i, m) \<in> set (snd (closeModules ops e es)). ok m)"
    if "\<forall>(i, m) \<in> set es. ok m" for es
    using that by (induction es) (auto simp: split_beta close_ok)
  then show ?thesis using assms by (simp add: co_shutdown_def modules_ok_def split_beta)
qed

text \<open>A reconfiguration that no module accepts changes nothing of the dispatch.\<close>

lemma rejected_same:
  assumes "calm e" and "\<And>i m host raw. (i, m) \<in> set es \<Longrightarrow> isl (fst (op_Reconfigure ops e host raw m))" and "\<forall>(i, m) \<in> set es. ok m"
  shows "list_all2 (\<lambda>(i, m) (j, m'). i = j \<and> same_ownership ops m m' \<and> ok m') es (snd (configureModules ops e env cfg host es))"
proof (cases es)
  case (Cons im rest)
  obtain i m where im: "im = (i, m)" by (cases im)
  have rest: "list_all2 (\<lambda>(i, m) (j, m'). i = j \<and> same_ownership ops m m' \<and> ok m') rest rest"
    using assms(3) Cons by (intro list.rel_refl_strong) auto
  have m: "ok m" "isl (fst (op_Reconfigure ops e host raw m))" for raw using assms(2, 3) Cons im by auto
  show ?thesis
  proof (cases "providerConfigRaw (ce_nodeDecode env) (ce_marshal env) cfg i")
    case (Inl err)
    then show ?thesis using Cons im rest m(1) by simp
  next
    case (Inr raw)
    obtain err m' where c: "op_Reconfigure ops e host raw m = (Inl err, m')" using m(2) [of raw] by (metis isl_def prod.collapse)
    then show ?thesis using Cons im rest Inr configure_atomic [OF assms(1) m(1) c] configure_ok [OF m(1), of e host raw] by simp
  qed
qed simp

lemma rejected_keeps:
  assumes "calm e" and "\<And>i m host raw. (i, m) \<in> set (co_modules c) \<Longrightarrow> isl (fst (op_Reconfigure ops e host raw m))"
    and "modules_ok ok c" "co_modules c \<noteq> []"
  shows "owners_kept ops ok c (snd (co_reconfigure ops e env raw c))"
proof -
  have same: "owners_kept ops ok c (c\<lparr>co_modules := snd (configureModules ops e env cfg host (co_modules c))\<rparr>)" for cfg host
    by (rule all_same [OF rejected_same [OF assms(1, 2)]]) (use assms(3) in \<open>simp_all add: modules_ok_def\<close>)
  have fails: "isl (fst (configureModules ops e env cfg host (co_modules c)))" for cfg host
  proof -
    obtain i m rest where c: "co_modules c = (i, m) # rest" using assms(4) by (metis list.exhaust surj_pair)
    have "isl (fst (op_Reconfigure ops e host r m))" for r by (rule assms(2) [of i]) (simp add: c)
    then show ?thesis by (auto simp: c split_beta split: sum.splits) (metis isl_def fst_conv sum.disc(2))
  qed
  show ?thesis
  proof (cases "prepareHost env raw")
    case (Inl err)
    then show ?thesis using assms(3) by (auto simp: co_reconfigure_def co_recordError_def owners_kept_def modules_ok_def)
  next
    case (Inr ch)
    obtain cfg host where ch: "ch = (cfg, host)" by (cases ch)
    obtain err entries where cm: "configureModules ops e env cfg host (co_modules c) = (Inl err, entries)"
      using fails [of cfg host] by (metis isl_def prod.collapse)
    then show ?thesis using Inr ch same [of cfg host] assms(3)
      by (auto simp: co_reconfigure_def co_recordError_def owners_kept_def modules_ok_def)
  qed
qed

end

section \<open>The life of the coordinator\<close>

text \<open>
  All it is asked and all that happens to it: picks, usage records, management requests,
  reconfigurations that succeed and that fail, the shutdown, and what the modules do on their own.
  Beside the coordinator the history keeps what its theorems speak of: who owned what when a
  reconfiguration last succeeded, and whether nothing has put that in doubt since, that is no
  reconfiguration that failed and no shutdown.
\<close>

record 'm history =
  hs_co :: "'m Coordinator"
  hs_owners :: "(string \<times> string list) list"
  hs_settled :: bool

definition begun :: "('e, 'm, 's, 'r) moduleOps \<Rightarrow> 'm Coordinator \<Rightarrow> 'm history" where
  "begun ops c = \<lparr>hs_co = c, hs_owners = ownedBy ops (co_modules c), hs_settled = True\<rparr>"

inductive co_step :: "('e, 'm, 's, 'r) moduleOps \<Rightarrow> ('m \<Rightarrow> 'm \<Rightarrow> bool) \<Rightarrow> 'm history \<Rightarrow> 'm history \<Rightarrow> bool" for ops background where
  CoPick: "co_pick ops e req (hs_co h) = (r, c') \<Longrightarrow> co_step ops background h (h\<lparr>hs_co := c'\<rparr>)"
| CoUsage: "co_handleUsage ops e rec (hs_co h) = (r, c') \<Longrightarrow> co_step ops background h (h\<lparr>hs_co := c'\<rparr>)"
| CoManage: "co_handleManagement ops e version now mreq (hs_co h) = (resp, c') \<Longrightarrow> co_step ops background h (h\<lparr>hs_co := c'\<rparr>)"
| CoBackground: "(i, m) \<in> set (co_modules (hs_co h)) \<Longrightarrow> background m m' \<Longrightarrow>
    co_step ops background h (h\<lparr>hs_co := (hs_co h)\<lparr>co_modules := setModule i m' (co_modules (hs_co h))\<rparr>\<rparr>)"
| CoReconfigure: "co_reconfigure ops e env raw (hs_co h) = (Inr (), c') \<Longrightarrow> co_step ops background h (begun ops c')"
| CoRejected: "co_reconfigure ops e env raw (hs_co h) = (Inl err, c') \<Longrightarrow> co_step ops background h (h\<lparr>hs_co := c', hs_settled := False\<rparr>)"
| CoShutdown: "co_shutdown ops e (hs_co h) = (closeErr, c') \<Longrightarrow> co_step ops background h (h\<lparr>hs_co := c', hs_settled := False\<rparr>)"

definition history_ok :: "('e, 'm, 's, 'r) moduleOps \<Rightarrow> ('m \<Rightarrow> bool) \<Rightarrow> string list \<Rightarrow> 'm history \<Rightarrow> bool" where
  "history_ok ops ok names h \<longleftrightarrow> modules_ok ok (hs_co h) \<and> map fst (co_modules (hs_co h)) = names \<and> map fst (hs_owners h) = names \<and>
     registry_of (hs_owners h) (co_registry (hs_co h)) \<and> (hs_settled h \<longrightarrow> ownedBy ops (co_modules (hs_co h)) = hs_owners h)"

lemma history_ok_kept: "history_ok ops ok names h \<Longrightarrow> owners_kept ops ok (hs_co h) c' \<Longrightarrow> history_ok ops ok names (h\<lparr>hs_co := c'\<rparr>)"
  using owners_kept_names [of ops ok "hs_co h" c'] by (auto simp: history_ok_def owners_kept_def)

context provider_module
begin

lemma step_history:
  assumes "co_step ops background h h'" and h: "history_ok ops ok names h" and d: "distinct names"
  shows "history_ok ops ok names h'"
proof -
  have m: "modules_ok ok (hs_co h)" and k: "distinct (map fst (co_modules (hs_co h)))" using h d by (simp_all add: history_ok_def)
  show ?thesis using assms(1)
  proof cases
    case (CoPick e req r c')
    then show ?thesis using history_ok_kept [OF h pick_keeps [OF k m, of e req]] by simp
  next
    case (CoUsage e rec r c')
    then show ?thesis using history_ok_kept [OF h usage_keeps [OF k m, of e rec]] by simp
  next
    case (CoManage e version now mreq resp c')
    then show ?thesis using history_ok_kept [OF h manage_keeps [OF k m, of e version now mreq]] by simp
  next
    case (CoBackground i n n')
    then have "ok n" using m by (auto simp: modules_ok_def)
    then show ?thesis using history_ok_kept [OF h set_same [OF k m CoBackground(2) background_law]] CoBackground by simp
  next
    case (CoReconfigure e env raw c')
    then show ?thesis using reconfigured [OF CoReconfigure(2) m k] h by (simp add: history_ok_def begun_def ownedBy_names)
  next
    case (CoRejected e env raw err c')
    then show ?thesis using configured_slots(1) [OF m, of e env raw] configured_slots(2) [OF m CoRejected(2)] h by (simp add: history_ok_def)
  next
    case (CoShutdown e closeErr c')
    then show ?thesis using closed_slots [OF m, of e] h by (simp add: history_ok_def)
  qed
qed

lemma reachable_history:
  assumes "(co_step ops background)\<^sup>*\<^sup>* h0 h" and "history_ok ops ok names h0" "distinct names"
  shows "history_ok ops ok names h"
  using assms(1) by (induction rule: rtranclp_induct) (auto intro: step_history [OF _ _ assms(3)] assms(2))

end

end
