(* ===== verification/Quota.thy ===== *)
theory Quota
  imports RuntimeInv GoNum
begin

text \<open>
  The authoritative quota endpoint, \<^verbatim>\<open>internal/providers/zai/quota.go\<close>. The JSON decoder is an
  argument: it turns a body into the wire struct, or fails. Everything after it (the response
  code, the two windows, the plan label and all range checks) is modelled, and the lemmas say
  which snapshots can come out.
\<close>

section \<open>Definitions\<close>

record quotaWireLimit =
  ql_Type :: string
  ql_Unit :: string
  ql_Number :: string
  ql_Usage :: string
  ql_CurrentValue :: string
  ql_Remaining :: string
  ql_NextResetTime :: string

record quotaWireResponse =
  qr_Code :: string
  qr_Success :: "bool option"
  qr_Level :: string
  qr_PlanName :: string
  qr_Limits :: "quotaWireLimit list"

definition quotaEndpoint :: string where
  "quotaEndpoint = ''https://api.z.ai/api/monitor/usage/quota/limit''"

definition maxQuotaResponse :: nat where "maxQuotaResponse = 1048576"

definition maxSafeFloatInt :: int where "maxSafeFloatInt = 2 ^ 62"

definition strictInt64 :: "string \<Rightarrow> int result" where
  "strictInt64 number =
     (if number = [] then Inl (Msg ''missing number'')
      else case ParseInt number of
        Some val \<Rightarrow> Inr val
      | None \<Rightarrow>
          (case parseDecimal number of
             None \<Rightarrow> Inl (Msg ''invalid number'')
           | Some (neg, m, e) \<Rightarrow>
               (case decimal_int m e of
                  None \<Rightarrow> Inl (Msg ''invalid number'')
                | Some v \<Rightarrow>
                    if v > maxSafeFloatInt then Inl (Msg ''invalid number'')
                    else Inr (if neg then - v else v))))"

definition strictNonnegativeInt64 :: "string \<Rightarrow> int result" where
  "strictNonnegativeInt64 number =
     (case strictInt64 number of
        Inl _ \<Rightarrow> Inl (Msg ''invalid number'')
      | Inr val \<Rightarrow> if val < 0 then Inl (Msg ''invalid number'') else Inr val)"

definition normalizeUpstreamPlan :: "string \<Rightarrow> string" where
  "normalizeUpstreamPlan raw =
     (let val = TrimSpace (TrimSuffix (ToLower (TrimSpace raw)) ''plan'')
      in if Contains val ''lite'' then ''lite''
         else if Contains val ''pro'' then ''pro''
         else if Contains val ''max'' then ''max''
         else [])"

definition parseQuotaWindow :: "quotaWireLimit \<Rightarrow> gotime \<Rightarrow> quotaWindow result" where
  "parseQuotaWindow limit observedAt =
     (case strictNonnegativeInt64 (ql_Usage limit) of
        Inl _ \<Rightarrow> Inl (Msg ''quota limit has invalid usage'')
      | Inr usage \<Rightarrow>
          if usage \<le> 0 then Inl (Msg ''quota limit has invalid usage'')
          else
            (case strictNonnegativeInt64 (ql_CurrentValue limit) of
               Inl _ \<Rightarrow> Inl (Msg ''quota limit has invalid currentValue'')
             | Inr cur \<Rightarrow>
                 if cur > usage then Inl (Msg ''quota limit has invalid currentValue'')
                 else if ql_Remaining limit \<noteq> [] \<and> isl (strictNonnegativeInt64 (ql_Remaining limit))
                 then Inl (Msg ''quota limit has invalid remaining'')
                 else if usage > go_quo maxInt64_const creditScale \<or> cur > go_quo maxInt64_const creditScale
                 then Inl (Msg ''quota credits exceed supported range'')
                 else
                   bindR (if ql_NextResetTime limit = [] then
                            (if cur \<noteq> 0 then Inl (Msg ''quota limit has invalid nextResetTime'') else Inr 0)
                          else
                            (case strictNonnegativeInt64 (ql_NextResetTime limit) of
                               Inl _ \<Rightarrow> Inl (Msg ''quota limit has invalid nextResetTime'')
                             | Inr resetMilliseconds \<Rightarrow>
                                 if resetMilliseconds \<le> 0 then Inl (Msg ''quota limit has invalid nextResetTime'')
                                 else
                                   let reset = time_UnixMilli resetMilliseconds
                                   in if time_Year reset < 2000 \<or> time_Year reset > 2200 \<or> \<not> After reset observedAt
                                      then Inl (Msg ''quota limit has invalid nextResetTime'') else Inr reset))
                     (\<lambda>reset. Inr \<lparr>qw_ConsumedMicrocredits = wrap64 (cur * creditScale),
                                   qw_BucketMicrocredits = wrap64 (usage * creditScale),
                                   qw_ResetsAt = reset\<rparr>)))"

text \<open>The variables of the loop over the limits of a response.\<close>

record limitScan =
  ls_fiveHour :: "quotaWindow option"
  ls_weekly :: "quotaWindow option"
  ls_fiveHourErr :: string
  ls_weeklyErr :: string
  ls_unmatched :: "string list"

definition zero_limitScan :: limitScan where
  "zero_limitScan =
     \<lparr>ls_fiveHour = None, ls_weekly = None, ls_fiveHourErr = [], ls_weeklyErr = [], ls_unmatched = []\<rparr>"

text \<open>What the loop does to the window a limit targets and to its error.\<close>

definition scanTarget ::
  "quotaWireLimit \<Rightarrow> gotime \<Rightarrow> quotaWindow option \<times> string \<Rightarrow> quotaWindow option \<times> string" where
  "scanTarget limit observedAt target =
     (case target of
        (Some _, _) \<Rightarrow> (None, ''duplicate quota limit'')
      | (None, err) \<Rightarrow>
          (case parseQuotaWindow limit observedAt of
             Inl e \<Rightarrow> (None, error_text e)
           | Inr window \<Rightarrow> (Some window, err)))"

definition scanLimit :: "gotime \<Rightarrow> limitScan \<Rightarrow> quotaWireLimit \<Rightarrow> limitScan" where
  "scanLimit observedAt ls limit =
     (if ToUpper (TrimSpace (ql_Type limit)) \<noteq> ''CREDIT_LIMIT'' then ls
      else case (strictInt64 (ql_Unit limit), strictInt64 (ql_Number limit)) of
        (Inr unit, Inr number) \<Rightarrow>
          if unit = 3 \<and> number = 5 then
            let (w, err) = scanTarget limit observedAt (ls_fiveHour ls, ls_fiveHourErr ls)
            in ls\<lparr>ls_fiveHour := w, ls_fiveHourErr := err\<rparr>
          else if unit = 6 \<and> number = 1 then
            let (w, err) = scanTarget limit observedAt (ls_weekly ls, ls_weeklyErr ls)
            in ls\<lparr>ls_weekly := w, ls_weeklyErr := err\<rparr>
          else ls
      | _ \<Rightarrow> ls\<lparr>ls_unmatched := ls_unmatched ls @ [''limit has invalid unit or number'']\<rparr>)"

definition responsePlan :: "quotaWireResponse \<Rightarrow> string" where
  "responsePlan response =
     (let plan = normalizeUpstreamPlan (qr_Level response)
      in if plan = [] then normalizeUpstreamPlan (qr_PlanName response) else plan)"

definition fiveHourReason :: "limitScan \<Rightarrow> string" where
  "fiveHourReason ls =
     (let reason1 = (if ls_fiveHourErr ls = [] \<and> ls_unmatched ls \<noteq> []
                     then Join (ls_unmatched ls) ''; '' else ls_fiveHourErr ls)
      in if reason1 = [] then ''missing required five-hour quota limit'' else reason1)"

definition finishScan :: "quotaWireResponse \<Rightarrow> gotime \<Rightarrow> limitScan \<Rightarrow> quotaSnapshot result" where
  "finishScan response observedAt ls =
     (case ls_weekly ls of
        None \<Rightarrow> Inl (Msg (if ls_weeklyErr ls = [] then ''missing required weekly quota limit'' else ls_weeklyErr ls))
      | Some weekly \<Rightarrow>
          Inr (case ls_fiveHour ls of
                Some fiveHour \<Rightarrow>
                  \<lparr>sn_Plan = responsePlan response, sn_FiveHour = fiveHour, sn_FiveHourError = [],
                   sn_Weekly = weekly, sn_ObservedAt = observedAt\<rparr>
              | None \<Rightarrow>
                  \<lparr>sn_Plan = responsePlan response, sn_FiveHour = zero_quotaWindow, sn_FiveHourError = fiveHourReason ls,
                   sn_Weekly = weekly, sn_ObservedAt = observedAt\<rparr>))"

text \<open>\<open>decode\<close> is \<open>Decode\<close> into the wire struct followed by \<open>EnsureJSONEOF\<close>.\<close>

definition parseQuotaResponse ::
  "(string \<Rightarrow> quotaWireResponse option) \<Rightarrow> string \<Rightarrow> gotime \<Rightarrow> quotaSnapshot result" where
  "parseQuotaResponse decode raw observedAt =
     (case decode raw of
        None \<Rightarrow> Inl (Msg ''malformed JSON'')
      | Some response \<Rightarrow>
          if qr_Success response = Some False then Inl (Msg ''upstream marked response unsuccessful'')
          else if qr_Code response \<noteq> [] \<and> ParseInt (qr_Code response) \<noteq> Some 200
          then Inl (Msg ''invalid response code'')
          else finishScan response observedAt (foldl (scanLimit observedAt) zero_limitScan (qr_Limits response)))"

definition validateQuotaEndpoint :: "golib \<Rightarrow> string \<Rightarrow> bool \<Rightarrow> unit result" where
  "validateQuotaEndpoint lib endpoint allowTestEndpoint =
     (case lib_urlParse lib endpoint of
        None \<Rightarrow> Inl (Msg ''invalid quota endpoint'')
      | Some parsed \<Rightarrow>
          if url_HasUser parsed \<or> url_RawQuery parsed \<noteq> [] \<or> url_Fragment parsed \<noteq> []
          then Inl (Msg ''invalid quota endpoint'')
          else if allowTestEndpoint \<and> url_Scheme parsed = ''http'' \<and>
                  (lib_urlHostname lib parsed = ''127.0.0.1'' \<or> lib_urlHostname lib parsed = ''localhost'')
          then Inr ()
          else if url_Scheme parsed \<noteq> ''https'' \<or> url_Host parsed \<noteq> ''api.z.ai'' \<or>
                  url_Path parsed \<noteq> ''/api/monitor/usage/quota/limit''
          then Inl (Msg ''invalid quota endpoint'')
          else Inr ())"

text \<open>
  What \<open>client.Do\<close> gives back: an error, or a response with its status and what
  \<open>ReadAll\<close> reads of its body (\<open>None\<close> for a read error). The limit reader stops one
  byte after the largest accepted size.
\<close>

datatype httpOutcome = DoError go_error | DoResponse int "string option"

definition fetchQuota ::
  "golib \<Rightarrow> (string \<Rightarrow> quotaWireResponse option) \<Rightarrow> httpOutcome option \<Rightarrow> string \<Rightarrow> gotime \<Rightarrow> quotaSnapshot result" where
  "fetchQuota lib decode client endpoint now =
     (case client of
        None \<Rightarrow> Inl (Msg ''quota client unavailable'')
      | Some outcome \<Rightarrow>
          bindR (validateQuotaEndpoint lib endpoint (endpoint \<noteq> quotaEndpoint)) (\<lambda>_.
            case outcome of
              DoError err \<Rightarrow>
                if err = Canceled \<or> err = DeadlineExceeded then Inl err else Inl (Msg ''quota request failed'')
            | DoResponse status body \<Rightarrow>
                if status \<noteq> 200 then Inl (Msg (''quota endpoint returned status '' @ Itoa status))
                else (case body of
                        None \<Rightarrow> Inl (Msg ''read quota response'')
                      | Some full \<Rightarrow>
                          let bytes = take (maxQuotaResponse + 1) full
                          in if length bytes > maxQuotaResponse then Inl (Msg ''quota response exceeds maximum size'')
                             else (case parseQuotaResponse decode bytes now of
                                     Inl err \<Rightarrow> Inl (Wrapped ''invalid quota response'' err)
                                   | Inr snapshot \<Rightarrow> Inr snapshot))))"

section \<open>Windows that parse are in range\<close>

definition window_parsed :: "gotime \<Rightarrow> quotaWindow \<Rightarrow> bool" where
  "window_parsed observedAt w \<longleftrightarrow> validWindow w observedAt \<and> is_int64 (qw_BucketMicrocredits w) \<and>
     qw_ResetsAt w < year10000 \<and> (qw_ResetsAt w = 0 \<longrightarrow> qw_ConsumedMicrocredits w = 0)"

lemma scaled_credits:
  assumes "0 \<le> c" "c \<le> go_quo maxInt64_const creditScale"
  shows "wrap64 (c * creditScale) = c * creditScale" "is_int64 (c * creditScale)"
proof -
  have "c \<le> 9223372036854" using assms(2) by (simp add: go_quo_def maxInt64_const_def creditScale_def)
  then show "is_int64 (c * creditScale)" using assms(1) by (intro is_int64I) (simp_all add: creditScale_def)
  then show "wrap64 (c * creditScale) = c * creditScale" by (rule wrap64_id)
qed

lemma strictNonnegative_nonneg: "strictNonnegativeInt64 s = Inr v \<Longrightarrow> 0 \<le> v"
  by (auto simp: strictNonnegativeInt64_def split: sum.splits if_splits)

lemma parseQuotaWindow_sound:
  assumes "parseQuotaWindow limit observedAt = Inr w" "0 \<le> observedAt"
  shows "window_parsed observedAt w \<and>
    (\<exists>usage cur. strictNonnegativeInt64 (ql_Usage limit) = Inr usage \<and>
       strictNonnegativeInt64 (ql_CurrentValue limit) = Inr cur \<and>
       qw_ConsumedMicrocredits w = cur * creditScale \<and> qw_BucketMicrocredits w = usage * creditScale)"
proof -
  obtain usage cur where u: "strictNonnegativeInt64 (ql_Usage limit) = Inr usage" "0 < usage"
      "strictNonnegativeInt64 (ql_CurrentValue limit) = Inr cur" "cur \<le> usage"
      "usage \<le> go_quo maxInt64_const creditScale"
    and w: "qw_ConsumedMicrocredits w = wrap64 (cur * creditScale)" "qw_BucketMicrocredits w = wrap64 (usage * creditScale)"
    and r: "qw_ResetsAt w = 0 \<and> cur = 0 \<or> observedAt < qw_ResetsAt w \<and> time_Year (qw_ResetsAt w) \<le> 2200"
    using assms(1) unfolding parseQuotaWindow_def
    by (auto simp: bindR_Inr_iff Let_def not_le not_less split: sum.splits if_splits)
  have c: "0 \<le> cur" using strictNonnegative_nonneg u(3) by simp
  have cw: "qw_ConsumedMicrocredits w = cur * creditScale" "qw_BucketMicrocredits w = usage * creditScale"
    "is_int64 (usage * creditScale)"
    using scaled_credits [of cur] scaled_credits [of usage] w c u(2,4,5) by auto
  have y: "qw_ResetsAt w < year10000" using r year10000_pos year_bounds(3) by auto
  have "validWindow w observedAt"
    using cw c u(2,4) r by (auto simp: validWindow_def creditScale_def)
  then show ?thesis using cw u y r assms(2) by (auto simp: window_parsed_def)
qed

lemma parseQuotaWindow_error:
  assumes "parseQuotaWindow limit observedAt = Inl e"
  shows "0 < length (error_text e) \<and> length (error_text e) \<le> 60"
proof -
  have "error_text e \<in> {''quota limit has invalid usage'', ''quota limit has invalid currentValue'',
      ''quota limit has invalid remaining'', ''quota credits exceed supported range'',
      ''quota limit has invalid nextResetTime''}"
    using assms unfolding parseQuotaWindow_def
    by (auto simp: bindR_def Let_def split: sum.splits if_splits)
  then show ?thesis by auto
qed

section \<open>Responses that parse are valid\<close>

text \<open>
  What the loop keeps: windows it has accepted are in range, errors are short, and every
  unattributable limit adds the same message.
\<close>

definition scan_ok :: "gotime \<Rightarrow> nat \<Rightarrow> limitScan \<Rightarrow> bool" where
  "scan_ok observedAt n ls \<longleftrightarrow>
     (\<forall>w. ls_fiveHour ls = Some w \<longrightarrow> window_parsed observedAt w) \<and>
     (\<forall>w. ls_weekly ls = Some w \<longrightarrow> window_parsed observedAt w) \<and>
     length (ls_fiveHourErr ls) \<le> 60 \<and>
     (\<exists>k. ls_unmatched ls = replicate k ''limit has invalid unit or number'' \<and>
          (if ls_weekly ls = None then k else Suc k) \<le> n)"

lemma scanTarget_ok:
  assumes "scanTarget limit observedAt (w, err) = (w', err')" "0 \<le> observedAt" "length err \<le> 60"
  shows "(\<forall>x. w' = Some x \<longrightarrow> window_parsed observedAt x) \<and> length err' \<le> 60"
  using assms parseQuotaWindow_sound [of limit observedAt] parseQuotaWindow_error [of limit observedAt]
  by (auto simp: scanTarget_def split: option.splits sum.splits)

lemma scanLimit_ok:
  assumes "scan_ok observedAt n ls" "0 \<le> observedAt"
  shows "scan_ok observedAt (Suc n) (scanLimit observedAt ls limit)"
proof -
  obtain k where k: "ls_unmatched ls = replicate k ''limit has invalid unit or number''"
    "(if ls_weekly ls = None then k else Suc k) \<le> n"
    using assms(1) by (auto simp: scan_ok_def)
  have keep: "scan_ok observedAt (Suc n) ls"
    using assms(1) k unfolding scan_ok_def by (auto split: if_splits intro: le_SucI)
  have bad: "scan_ok observedAt (Suc n) (ls\<lparr>ls_unmatched := ls_unmatched ls @ [''limit has invalid unit or number'']\<rparr>)"
  proof -
    have "ls_unmatched ls @ [''limit has invalid unit or number''] = replicate (Suc k) ''limit has invalid unit or number''"
      unfolding k(1) by (simp only: replicate_append_same replicate_Suc)
    then show ?thesis using assms(1) k(2) unfolding scan_ok_def
      by (intro conjI exI [of _ "Suc k"]) (auto split: if_splits)
  qed
  have five: "scan_ok observedAt (Suc n) (ls\<lparr>ls_fiveHour := w, ls_fiveHourErr := err\<rparr>)"
    if "scanTarget limit observedAt (ls_fiveHour ls, ls_fiveHourErr ls) = (w, err)" for w err
    using scanTarget_ok [OF that assms(2)] keep assms(1) by (auto simp: scan_ok_def)
  have week: "scan_ok observedAt (Suc n) (ls\<lparr>ls_weekly := w, ls_weeklyErr := err\<rparr>)"
    if "scanTarget limit observedAt (ls_weekly ls, ls_weeklyErr ls) = (w, err)" for w err
  proof -
    have "\<forall>x. w = Some x \<longrightarrow> window_parsed observedAt x"
      using that assms(2) parseQuotaWindow_sound [of limit observedAt]
      by (auto simp: scanTarget_def split: option.splits sum.splits)
    then show ?thesis using assms(1) k by (auto simp: scan_ok_def split: if_splits)
  qed
  show ?thesis
    using keep bad five week
    by (auto simp: scanLimit_def Let_def split: sum.splits prod.splits)
qed

lemma scan_ok_foldl:
  assumes "0 \<le> observedAt" "scan_ok observedAt n ls"
  shows "scan_ok observedAt (n + length limits) (foldl (scanLimit observedAt) ls limits)"
  using assms(2)
proof (induction limits arbitrary: n ls)
  case (Cons l limits)
  then show ?case using scanLimit_ok [OF Cons.prems assms(1), of l] by fastforce
qed simp

lemma Join_replicate_length:
  "length (Join (replicate (Suc k) s) sep) = Suc k * length s + k * length sep"
  by (induction k) auto

lemma fiveHourReason_length:
  assumes "scan_ok observedAt n ls" "ls_weekly ls \<noteq> None" "n \<le> 8"
  shows "fiveHourReason ls \<noteq> [] \<and> length (fiveHourReason ls) \<le> 240"
proof -
  obtain k where k: "ls_unmatched ls = replicate k ''limit has invalid unit or number''" "k \<le> 7"
    using assms by (auto simp: scan_ok_def split: if_splits)
  then have "length (Join (ls_unmatched ls) ''; '') \<le> 240"
    using Join_replicate_length [of "k - 1" "''limit has invalid unit or number''" "''; ''"] by (cases k) auto
  moreover have "length (ls_fiveHourErr ls) \<le> 60" using assms(1) by (simp add: scan_ok_def)
  ultimately show ?thesis by (auto simp: fiveHourReason_def Let_def)
qed

lemma finishScan_fields:
  assumes "finishScan response observedAt ls = Inr a"
  shows "ls_weekly ls = Some (sn_Weekly a) \<and> sn_ObservedAt a = observedAt \<and> sn_Plan a = responsePlan response \<and>
    (ls_fiveHour ls = None \<and> sn_FiveHour a = zero_quotaWindow \<and> sn_FiveHourError a = fiveHourReason ls \<or>
     ls_fiveHour ls = Some (sn_FiveHour a) \<and> sn_FiveHourError a = [])"
  using assms by (auto simp: finishScan_def split: option.splits)

lemma finishScan_valid:
  assumes fin: "finishScan response observedAt ls = Inr a" and ok: "scan_ok observedAt n ls" "n \<le> 8"
    and "year2000 \<le> observedAt"
  shows "fetched_ok observedAt (Inr a)"
proof -
  note f = finishScan_fields [OF fin]
  have five: "sn_FiveHourError a \<noteq> [] \<and> length (sn_FiveHourError a) \<le> 240 \<and> sn_FiveHour a = zero_quotaWindow \<or>
      sn_FiveHourError a = [] \<and> window_parsed observedAt (sn_FiveHour a)"
    using f fiveHourReason_length [OF ok(1) _ ok(2)] ok(1) by (auto simp: scan_ok_def)
  have wk: "window_parsed observedAt (sn_Weekly a)" using f ok(1) by (auto simp: scan_ok_def)
  have "observedAt \<noteq> 0" "\<not> time_Year observedAt < 2000" "\<not> observedAt + maxPersistedClockSkew < observedAt"
    using assms(4) year_bounds(1) [of observedAt] by (auto simp: year2000_def go_time)
  then have "validateAuthoritative a (observedAt + maxPersistedClockSkew) = Inr ()"
    using five wk f by (auto simp: validateAuthoritative_def Let_def window_parsed_def)
  moreover have "snapshot_resets_ok a"
    using five wk year10000_pos by (auto simp: snapshot_resets_ok_def window_parsed_def zero_quotaWindow_def)
  ultimately show ?thesis by (simp add: fetched_ok_def)
qed

lemma scan_ok_zero: "scan_ok t 0 zero_limitScan"
  by (simp add: scan_ok_def zero_limitScan_def)

lemma parseQuotaResponse_fetched_ok:
  assumes "parseQuotaResponse decode raw now = Inr a" "decode raw = Some response"
    and "length (qr_Limits response) \<le> 8" "year2000 \<le> now"
  shows "fetched_ok now (Inr a)"
proof -
  have "finishScan response now (foldl (scanLimit now) zero_limitScan (qr_Limits response)) = Inr a"
    using assms(1,2) by (auto simp: parseQuotaResponse_def split: if_splits)
  moreover have "0 \<le> now" using assms(4) by (simp add: year2000_def go_time)
  ultimately show ?thesis
    using finishScan_valid scan_ok_foldl [OF _ scan_ok_zero, of now "qr_Limits response"] assms(3,4) by auto
qed

section \<open>Which limit decides a window\<close>

definition limitIs :: "int \<Rightarrow> int \<Rightarrow> quotaWireLimit \<Rightarrow> bool" where
  "limitIs unit number limit \<longleftrightarrow> ToUpper (TrimSpace (ql_Type limit)) = ''CREDIT_LIMIT'' \<and>
     strictInt64 (ql_Unit limit) = Inr unit \<and> strictInt64 (ql_Number limit) = Inr number"

abbreviation isWeeklyLimit :: "quotaWireLimit \<Rightarrow> bool" where "isWeeklyLimit \<equiv> limitIs 6 1"
abbreviation isFiveHourLimit :: "quotaWireLimit \<Rightarrow> bool" where "isFiveHourLimit \<equiv> limitIs 3 5"

lemma scanLimit_weekly:
  "(ls_weekly (scanLimit now ls l), ls_weeklyErr (scanLimit now ls l)) =
     (if isWeeklyLimit l then scanTarget l now (ls_weekly ls, ls_weeklyErr ls) else (ls_weekly ls, ls_weeklyErr ls))"
  by (auto simp: scanLimit_def limitIs_def Let_def split: sum.splits prod.splits)

lemma scanLimit_fiveHour:
  "(ls_fiveHour (scanLimit now ls l), ls_fiveHourErr (scanLimit now ls l)) =
     (if isFiveHourLimit l then scanTarget l now (ls_fiveHour ls, ls_fiveHourErr ls) else (ls_fiveHour ls, ls_fiveHourErr ls))"
  by (auto simp: scanLimit_def limitIs_def Let_def split: sum.splits prod.splits)

lemma scan_weekly:
  "(ls_weekly (foldl (scanLimit now) ls limits), ls_weeklyErr (foldl (scanLimit now) ls limits)) =
     foldl (\<lambda>t l. scanTarget l now t) (ls_weekly ls, ls_weeklyErr ls) (filter isWeeklyLimit limits)"
  by (induction limits arbitrary: ls) (simp_all add: scanLimit_weekly del: prod.inject)

lemma scan_fiveHour:
  "(ls_fiveHour (foldl (scanLimit now) ls limits), ls_fiveHourErr (foldl (scanLimit now) ls limits)) =
     foldl (\<lambda>t l. scanTarget l now t) (ls_fiveHour ls, ls_fiveHourErr ls) (filter isFiveHourLimit limits)"
  by (induction limits arbitrary: ls) (simp_all add: scanLimit_fiveHour del: prod.inject)

definition response_accepted :: "quotaWireResponse \<Rightarrow> bool" where
  "response_accepted r \<longleftrightarrow> qr_Success r \<noteq> Some False \<and> (qr_Code r = [] \<or> ParseInt (qr_Code r) = Some 200)"

lemma parseQuotaResponse_scan:
  assumes "decode raw = Some r" "response_accepted r"
  shows "parseQuotaResponse decode raw now = finishScan r now (foldl (scanLimit now) zero_limitScan (qr_Limits r))"
  using assms by (auto simp: parseQuotaResponse_def response_accepted_def)

lemma scanTarget_single:
  "foldl (\<lambda>t l. scanTarget l now t) (None, []) [l] =
     (case parseQuotaWindow l now of Inl e \<Rightarrow> (None, error_text e) | Inr w \<Rightarrow> (Some w, []))"
  by (simp add: scanTarget_def split: sum.splits)

text \<open>When every duplicate parses, the outcome depends on the parity of their number.\<close>

lemma scanTarget_parity:
  assumes "\<forall>l \<in> set ls. \<exists>w. parseQuotaWindow l now = Inr w"
  shows "fst (foldl (\<lambda>t l. scanTarget l now t) t ls) \<noteq> None \<longleftrightarrow> (odd (length ls) \<longleftrightarrow> fst t = None)"
  using assms
proof (induction ls arbitrary: t)
  case (Cons l ls)
  obtain w where w: "parseQuotaWindow l now = Inr w" using Cons.prems by auto
  have "fst (scanTarget l now t) = None \<longleftrightarrow> fst t \<noteq> None"
    by (cases t) (auto simp: scanTarget_def w split: option.splits)
  then show ?case using Cons.IH [of "scanTarget l now t"] Cons.prems by auto
qed auto

lemma scan_zero_weekly:
  "ls_weekly (foldl (scanLimit now) zero_limitScan limits) =
     fst (foldl (\<lambda>t l. scanTarget l now t) (None, []) (filter isWeeklyLimit limits))"
  "ls_weeklyErr (foldl (scanLimit now) zero_limitScan limits) =
     snd (foldl (\<lambda>t l. scanTarget l now t) (None, []) (filter isWeeklyLimit limits))"
  using scan_weekly [of now zero_limitScan limits] by (metis fst_conv snd_conv limitScan.simps zero_limitScan_def)+

lemma scan_zero_fiveHour:
  "ls_fiveHour (foldl (scanLimit now) zero_limitScan limits) =
     fst (foldl (\<lambda>t l. scanTarget l now t) (None, []) (filter isFiveHourLimit limits))"
  "ls_fiveHourErr (foldl (scanLimit now) zero_limitScan limits) =
     snd (foldl (\<lambda>t l. scanTarget l now t) (None, []) (filter isFiveHourLimit limits))"
  using scan_fiveHour [of now zero_limitScan limits] by (metis fst_conv snd_conv limitScan.simps zero_limitScan_def)+

section \<open>Properties\<close>

definition creditLimit :: "string \<Rightarrow> string \<Rightarrow> quotaWireLimit" where
  "creditLimit unit number =
     \<lparr>ql_Type = ''CREDIT_LIMIT'', ql_Unit = unit, ql_Number = number, ql_Usage = ''10000'', ql_CurrentValue = ''2500.0'',
      ql_Remaining = [], ql_NextResetTime = ''1784545200000.0''\<rparr>"

definition responseWith :: "quotaWireLimit list \<Rightarrow> quotaWireResponse" where
  "responseWith limits = \<lparr>qr_Code = ''200'', qr_Success = Some True, qr_Level = ''GLM Coding Max Plan'', qr_PlanName = [], qr_Limits = limits\<rparr>"

text \<open>
  C17. Every snapshot that comes out of a response with at most eight limits is one that the
  validation of the persisted state accepts: observed now, consumption within the bucket, resets
  in the future and before the year 10000, and a bounded five-hour error.
\<close>

theorem parsed_response_is_valid:
  assumes "parseQuotaResponse decode raw now = Inr a" "decode raw = Some response"
    and "length (qr_Limits response) \<le> 8" "year2000 \<le> now"
  shows "fetched_ok now (Inr a) \<and> sn_ObservedAt a = now"
proof -
  have "finishScan response now (foldl (scanLimit now) zero_limitScan (qr_Limits response)) = Inr a"
    using assms(1,2) by (auto simp: parseQuotaResponse_def split: if_splits)
  then show ?thesis using parseQuotaResponse_fetched_ok [OF assms] finishScan_fields by blast
qed

theorem parsed_response_is_valid_witness:
  "\<exists>a. parseQuotaResponse (\<lambda>_. Some (responseWith [creditLimit ''6'' ''1''])) [] sampleNow = Inr a \<and> fetched_ok sampleNow (Inr a)"
proof -
  have "\<exists>a. parseQuotaResponse (\<lambda>_. Some (responseWith [creditLimit ''6'' ''1''])) [] sampleNow = Inr a"
  proof -
    have "\<not> isl (parseQuotaResponse (\<lambda>_. Some (responseWith [creditLimit ''6'' ''1''])) [] sampleNow)" by code_simp
    then show ?thesis by (metis isl_def sum.exhaust)
  qed
  moreover have "length (qr_Limits (responseWith [creditLimit ''6'' ''1''])) \<le> 8" "year2000 \<le> sampleNow" by code_simp+
  ultimately show ?thesis using parsed_response_is_valid by metis
qed

text \<open>
  With exactly one weekly limit, that limit alone decides: if it parses, the response is
  accepted with that window whatever else it holds, and if it does not, the response is rejected
  with its error.
\<close>

theorem weekly_limit_governs:
  assumes "decode raw = Some r" "response_accepted r" "filter isWeeklyLimit (qr_Limits r) = [lw]"
  shows "case parseQuotaWindow lw now of
      Inl e \<Rightarrow> parseQuotaResponse decode raw now = Inl (Msg (error_text e))
    | Inr w \<Rightarrow> \<exists>a. parseQuotaResponse decode raw now = Inr a \<and> sn_Weekly a = w \<and> sn_ObservedAt a = now \<and>
                 sn_Plan a = responsePlan r"
proof (cases "parseQuotaWindow lw now")
  case (Inl e)
  then have "error_text e \<noteq> []" using parseQuotaWindow_error by fastforce
  with Inl show ?thesis
    by (simp add: parseQuotaResponse_scan [of decode, OF assms(1,2)] finishScan_def scan_zero_weekly assms(3) scanTarget_single
        del: foldl.simps)
next
  case (Inr w)
  then show ?thesis
    by (simp add: parseQuotaResponse_scan [of decode, OF assms(1,2)] finishScan_def scan_zero_weekly assms(3) scanTarget_single
        del: foldl.simps split: option.splits)
qed

theorem weekly_limit_governs_witness:
  "\<exists>a. parseQuotaResponse (\<lambda>_. Some (responseWith [creditLimit ''3'' ''x'', creditLimit ''6'' ''1''])) [] sampleNow = Inr a \<and>
     qw_BucketMicrocredits (sn_Weekly a) = 10000000000"
proof -
  let ?r = "responseWith [creditLimit ''3'' ''x'', creditLimit ''6'' ''1'']"
  have "response_accepted ?r" "filter isWeeklyLimit (qr_Limits ?r) = [creditLimit ''6'' ''1'']"
    "\<not> isl (parseQuotaWindow (creditLimit ''6'' ''1'') sampleNow)"
    "qw_BucketMicrocredits (projr (parseQuotaWindow (creditLimit ''6'' ''1'') sampleNow)) = 10000000000" by code_simp+
  with weekly_limit_governs [of "\<lambda>_. Some ?r" "[]" ?r "creditLimit ''6'' ''1''" sampleNow]
  show ?thesis by (cases "parseQuotaWindow (creditLimit ''6'' ''1'') sampleNow") auto
qed

text \<open>
  Duplicates of the weekly limit are not always rejected: when every one of them parses, the
  response is accepted exactly when their number is odd, because the second one clears the window
  and the third one sets it again.
\<close>

theorem duplicate_weekly_parity:
  assumes "decode raw = Some r" "response_accepted r"
    and "\<forall>l \<in> set (filter isWeeklyLimit (qr_Limits r)). \<exists>w. parseQuotaWindow l now = Inr w"
  shows "(\<exists>a. parseQuotaResponse decode raw now = Inr a) \<longleftrightarrow> odd (length (filter isWeeklyLimit (qr_Limits r)))"
proof -
  let ?t = "foldl (\<lambda>t l. scanTarget l now t) (None, []) (filter isWeeklyLimit (qr_Limits r))"
  have "(\<exists>a. parseQuotaResponse decode raw now = Inr a) \<longleftrightarrow> fst ?t \<noteq> None"
    by (auto simp: parseQuotaResponse_scan [of decode, OF assms(1,2)] finishScan_def scan_zero_weekly split: option.splits)
  also have "\<dots> \<longleftrightarrow> odd (length (filter isWeeklyLimit (qr_Limits r)))"
    using scanTarget_parity [OF assms(3), of "(None, [])"] by simp
  finally show ?thesis .
qed

theorem duplicate_weekly_parity_witness:
  "\<exists>a. parseQuotaResponse (\<lambda>_. Some (responseWith [creditLimit ''6'' ''1'', creditLimit ''6'' ''1'', creditLimit ''6'' ''1''])) [] sampleNow = Inr a"
proof -
  let ?r = "responseWith [creditLimit ''6'' ''1'', creditLimit ''6'' ''1'', creditLimit ''6'' ''1'']"
  have f: "response_accepted ?r" "filter isWeeklyLimit (qr_Limits ?r) = replicate 3 (creditLimit ''6'' ''1'')"
    "\<not> isl (parseQuotaWindow (creditLimit ''6'' ''1'') sampleNow)" by code_simp+
  then have "\<exists>w. parseQuotaWindow (creditLimit ''6'' ''1'') sampleNow = Inr w" by (metis isl_def sum.exhaust)
  with f(2) have "\<forall>l \<in> set (filter isWeeklyLimit (qr_Limits ?r)). \<exists>w. parseQuotaWindow l sampleNow = Inr w"
    by (simp only: set_replicate_conv_if) auto
  with duplicate_weekly_parity [of "\<lambda>_. Some ?r" "[]" ?r sampleNow] f(1,2) show ?thesis by simp
qed

text \<open>
  A number literal with a whole value below \<open>2 ^ 53\<close> is read as that value, with or without
  a fraction of zeros or an exponent; the detour through \<open>float64\<close> loses nothing there.
\<close>

theorem strictInt64_whole:
  assumes "parseDecimal s = Some (neg, m, e)" "ParseInt s = None"
    and "0 \<le> k" "k < 2 ^ 53" "if e \<ge> 0 then m * 10 ^ nat e = k else m = k * 10 ^ nat (- e)"
  shows "strictInt64 s = Inr (if neg then - k else k)"
proof -
  have "s \<noteq> []" using assms(1) by (auto simp: parseDecimal_def)
  moreover have "decimal_int m e = Some k" by (rule decimal_int_whole [OF assms(3-5)])
  ultimately show ?thesis using assms(1,2,4) by (simp add: strictInt64_def maxSafeFloatInt_def)
qed

theorem strictInt64_whole_witness: "strictInt64 ''1784545200000.0'' = Inr 1784545200000"
proof -
  have "parseDecimal ''1784545200000.0'' = Some (False, 17845452000000, - 1)" "ParseInt ''1784545200000.0'' = None" by code_simp+
  from strictInt64_whole [OF this, of 1784545200000] show ?thesis by simp
qed

text \<open>
  A literal that is not whole can be accepted: twenty nines after the point round to one.
\<close>

theorem strictInt64_rounds_up: "strictInt64 ''0.99999999999999999999'' = Inr 1"
  by code_simp

text \<open>
  One response can stop persistence for all accounts: eight credit limits with an unreadable
  unit beside a good weekly limit give a snapshot whose five-hour error is too long for the
  validation, so \<open>saveState\<close> rejects every state that holds it.
\<close>

theorem long_error_stops_persistence:
  "\<exists>a. parseQuotaResponse (\<lambda>_. Some (responseWith (creditLimit ''6'' ''1'' # replicate 8 (creditLimit ''x'' ''5'')))) [] sampleNow = Inr a \<and>
     saveState \<lparr>ps_Version = 2, ps_Accounts = [(sampleIdentity, zero_accountQuotaState\<lparr>st_Authoritative := Some a\<rparr>)],
                ps_Health = [], ps_Generation = 1, ps_RuntimeGeneration = 1\<rparr> sampleNow None =
       Inl (Msg ''state.json contains invalid account state'')"
proof -
  let ?p = "parseQuotaResponse (\<lambda>_. Some (responseWith (creditLimit ''6'' ''1'' # replicate 8 (creditLimit ''x'' ''5'')))) [] sampleNow"
  have ok: "\<not> isl ?p" by code_simp
  have bad: "saveState \<lparr>ps_Version = 2, ps_Accounts = [(sampleIdentity, zero_accountQuotaState\<lparr>st_Authoritative := Some (projr ?p)\<rparr>)],
      ps_Health = [], ps_Generation = 1, ps_RuntimeGeneration = 1\<rparr> sampleNow None = Inl (Msg ''state.json contains invalid account state'')"
    by code_simp
  from ok have "?p = Inr (projr ?p)" by (metis isl_def sum.collapse(2))
  with bad show ?thesis by blast
qed

end
