(* ===== verification/Settings.thy ===== *)
theory Settings
  imports Quota Accounts Securestore
begin

text \<open>
  The settings the operator stores through the management interface,
  \<^verbatim>\<open>internal/providers/zai/settings.go\<close>: their validation, how they change the
  configuration and the accounts, and the protocol that replaces \<^verbatim>\<open>settings.json\<close> with a
  recovery marker. The protocol runs on the store of \<open>Securestore\<close>, so its theorems
  quantify over every failing call and every point at which the process can die.

  \<open>settingsCodec\<close> is what \<open>encoding/json\<close> makes of the two documents; a theorem that
  needs a document to be read back as it was written says so for that document.
\<close>

section \<open>Documents\<close>

record accountSetting =
  as_Name :: string
  as_Plan :: string
  as_Disabled :: "bool option"
  as_FiveHourCredits :: int
  as_WeeklyCredits :: int

record settingsFile =
  sf_Version :: int
  sf_Accounts :: "(string, accountSetting) gomap"
  sf_ThresholdPercent :: "int option"
  sf_PollingInterval :: string
  sf_AuthoritativeMaxAge :: string
  sf_Timeout :: string

record settingsRecovery =
  sr_Version :: int
  sr_PreviousDigest :: string
  sr_Desired :: "settingsFile option"

record settingsCodec =
  sc_marshal :: "settingsFile \<Rightarrow> string"
  sc_decode :: "string \<Rightarrow> settingsFile option"
  sc_marshalRecovery :: "settingsRecovery \<Rightarrow> string"
  sc_decodeRecovery :: "string \<Rightarrow> settingsRecovery option"

definition settingsRecoveryVersion :: int where "settingsRecoveryVersion = 1"
definition settingsRecoveryName :: string where "settingsRecoveryName = ''settings.recovery.json''"
definition minQuotaTimeout :: duration where [go_time]: "minQuotaTimeout = Second"
definition maxQuotaTimeout :: duration where [go_time]: "maxQuotaTimeout = 30 * Second"

definition zero_settings :: settingsFile where
  "zero_settings = \<lparr>sf_Version = 0, sf_Accounts = [], sf_ThresholdPercent = None, sf_PollingInterval = [],
                    sf_AuthoritativeMaxAge = [], sf_Timeout = []\<rparr>"

definition zero_pluginConfig :: pluginConfig where
  "zero_pluginConfig = \<lparr>cfg_CPAConfigPath = [], cfg_QuotaRefresh = 0, cfg_AuthoritativeMaxAge = 0, cfg_QuotaTimeout = 0,
     cfg_ThresholdPercent = 0, cfg_SuspendDuration = 0, cfg_FallbackCooldown = 0, cfg_StateRetention = 0,
     cfg_DefaultPlan = [], cfg_Accounts = []\<rparr>"

fun settingsRecoveryPending :: "go_error \<Rightarrow> bool" where
  "settingsRecoveryPending (PendingErr e) = True"
| "settingsRecoveryPending (Wrapped p e) = settingsRecoveryPending e"
| "settingsRecoveryPending _ = False"

section \<open>Validation and application\<close>

definition settingsEmpty :: "settingsFile \<Rightarrow> bool" where
  "settingsEmpty settings \<longleftrightarrow>
     length (sf_Accounts settings) = 0 \<and> sf_ThresholdPercent settings = None \<and> sf_PollingInterval settings = [] \<and>
     sf_AuthoritativeMaxAge settings = [] \<and> sf_Timeout settings = []"

definition storedThreshold :: "settingsFile \<Rightarrow> pluginConfig \<Rightarrow> pluginConfig result" where
  "storedThreshold settings cfg =
     (case sf_ThresholdPercent settings of
        None \<Rightarrow> Inr cfg
      | Some t \<Rightarrow>
          if t < 1 \<or> t > 100 then Inl (Msg ''settings.json contains invalid threshold_percent'')
          else Inr (cfg\<lparr>cfg_ThresholdPercent := t\<rparr>))"

definition storedInterval :: "settingsFile \<Rightarrow> pluginConfig \<Rightarrow> pluginConfig result" where
  "storedInterval settings cfg =
     (if sf_PollingInterval settings = [] then Inr cfg
      else case parsePositiveDuration ''polling_interval'' (sf_PollingInterval settings) (cfg_QuotaRefresh cfg) of
        Inl _ \<Rightarrow> Inl (Msg ''settings.json contains invalid polling_interval'')
      | Inr d \<Rightarrow>
          if d < Minute \<or> d > 3 * Minute then Inl (Msg ''settings.json contains invalid polling_interval'')
          else Inr (cfg\<lparr>cfg_QuotaRefresh := d\<rparr>))"

definition storedMaxAge :: "settingsFile \<Rightarrow> pluginConfig \<Rightarrow> pluginConfig result" where
  "storedMaxAge settings cfg =
     (if sf_AuthoritativeMaxAge settings = [] then Inr cfg
      else case parsePositiveDuration ''authoritative_max_age'' (sf_AuthoritativeMaxAge settings) (cfg_AuthoritativeMaxAge cfg) of
        Inl _ \<Rightarrow> Inl (Msg ''settings.json contains invalid authoritative_max_age'')
      | Inr d \<Rightarrow> Inr (cfg\<lparr>cfg_AuthoritativeMaxAge := d\<rparr>))"

definition storedTimeout :: "settingsFile \<Rightarrow> pluginConfig \<Rightarrow> pluginConfig result" where
  "storedTimeout settings cfg =
     (if sf_Timeout settings = [] then Inr cfg
      else case parsePositiveDuration ''timeout'' (sf_Timeout settings) (cfg_QuotaTimeout cfg) of
        Inl _ \<Rightarrow> Inl (Msg ''settings.json contains invalid timeout'')
      | Inr d \<Rightarrow>
          if d < minQuotaTimeout \<or> d > maxQuotaTimeout then Inl (Msg ''settings.json contains invalid timeout'')
          else Inr (cfg\<lparr>cfg_QuotaTimeout := d\<rparr>))"

definition applyStoredConfig :: "pluginConfig \<Rightarrow> settingsFile \<Rightarrow> pluginConfig result" where
  "applyStoredConfig cfg settings =
     bindR (storedThreshold settings cfg) (\<lambda>c1.
     bindR (storedInterval settings c1) (\<lambda>c2.
     bindR (storedMaxAge settings c2) (\<lambda>c3.
       if cfg_AuthoritativeMaxAge c3 \<le> maxPollInterval (cfg_QuotaRefresh c3)
       then Inl (Msg ''settings.json authoritative_max_age must exceed maximum polling jitter'')
       else storedTimeout settings c3)))"

text \<open>The configuration the stored values are tried on when only their validity matters.\<close>

definition validationConfig :: pluginConfig where
  "validationConfig = zero_pluginConfig\<lparr>cfg_QuotaRefresh := defaultQuotaRefresh,
     cfg_AuthoritativeMaxAge := defaultAuthoritativeMaxAge, cfg_QuotaTimeout := defaultQuotaTimeout,
     cfg_ThresholdPercent := defaultThreshold\<rparr>"

definition validateSettingsFile :: "settingsFile \<Rightarrow> unit result" where
  "validateSettingsFile settings =
     (if sf_Version settings = 0 \<and> settingsEmpty settings then Inr ()
      else if sf_Version settings \<noteq> 1 then Inl (Msg ''settings.json has unsupported version'')
      else case applyStoredConfig validationConfig settings of Inl e \<Rightarrow> Inl e | Inr _ \<Rightarrow> Inr ())"

definition validateStoredSetting :: "accountSetting \<Rightarrow> unit result" where
  "validateStoredSetting stored =
     (let plan = normalizePlan (as_Plan stored) in
      if as_Plan stored \<noteq> [] \<and> plan = [] then Inl (Msg ''invalid plan'')
      else if as_FiveHourCredits stored < 0 \<or> as_WeeklyCredits stored < 0 then Inl (Msg ''negative credit bucket'')
      else if as_FiveHourCredits stored > 0 \<and> \<not> validCreditBucket (as_FiveHourCredits stored) \<or>
              as_WeeklyCredits stored > 0 \<and> \<not> validCreditBucket (as_WeeklyCredits stored)
      then Inl (Msg ''credit bucket exceeds supported range'')
      else if plan = ''custom'' \<and> (as_FiveHourCredits stored \<le> 0 \<or> as_WeeklyCredits stored \<le> 0)
      then Inl (Msg ''custom plan requires both credit buckets'')
      else Inr ())"

fun validateAccountsLoop :: "string list \<Rightarrow> account list \<Rightarrow> unit result" where
  "validateAccountsLoop seenNames [] = Inr ()"
| "validateAccountsLoop seenNames (a # rest) =
     (if TrimSpace (acc_Name a) = [] then Inl (Msg ''account has no name'')
      else if normalizePlan (acc_Plan a) = [] then Inl (Msg ''account has invalid plan'')
      else if \<not> validCreditBucket (acc_FiveHourCredits a) \<or> \<not> validCreditBucket (acc_WeeklyCredits a)
      then Inl (Msg ''account has non-positive or out-of-range credit bucket'')
      else let nameKey = ToLower (TrimSpace (acc_Name a)) in
        if nameKey \<in> set seenNames then Inl (Msg ''duplicate account name'')
        else validateAccountsLoop (nameKey # seenNames) rest)"

definition validateAccounts :: "account list \<Rightarrow> unit result" where
  "validateAccounts accounts = validateAccountsLoop [] accounts"

fun validateStoredAccounts :: "(string, accountSetting) gomap \<Rightarrow> unit result" where
  "validateStoredAccounts [] = Inr ()"
| "validateStoredAccounts ((identity, stored) # rest) =
     (if length identity \<noteq> 64 then Inl (Msg ''settings.json contains invalid account identity'')
      else if \<not> hexDecodes identity then Inl (Msg ''settings.json contains invalid account identity'')
      else case validateStoredSetting stored of
        Inl _ \<Rightarrow> Inl (Msg ''settings.json contains invalid account settings'')
      | Inr _ \<Rightarrow> validateStoredAccounts rest)"

text \<open>The stored setting of one account, laid over the account.\<close>

definition storedName :: "accountSetting \<Rightarrow> account \<Rightarrow> account" where
  "storedName stored a = (let name = TrimSpace (as_Name stored) in if name \<noteq> [] then a\<lparr>acc_Name := name\<rparr> else a)"

definition storedPlan :: "accountSetting \<Rightarrow> account \<Rightarrow> account" where
  "storedPlan stored a =
     (let plan = normalizePlan (as_Plan stored) in
      if plan = [] then a
      else let b = a\<lparr>acc_Plan := plan, acc_planExplicit := True\<rparr> in
        case mget planBuckets plan of
          None \<Rightarrow> b
        | Some buckets \<Rightarrow> b\<lparr>acc_FiveHourCredits := cb_FiveHour buckets, acc_WeeklyCredits := cb_Weekly buckets\<rparr>)"

definition storedDisabled :: "accountSetting \<Rightarrow> account \<Rightarrow> account" where
  "storedDisabled stored a = (case as_Disabled stored of None \<Rightarrow> a | Some d \<Rightarrow> a\<lparr>acc_Disabled := d\<rparr>)"

definition storedCredits :: "accountSetting \<Rightarrow> account \<Rightarrow> account" where
  "storedCredits stored a =
     (let b = (if as_FiveHourCredits stored > 0
               then a\<lparr>acc_FiveHourCredits := as_FiveHourCredits stored, acc_fiveHourCreditsExplicit := True\<rparr> else a)
      in if as_WeeklyCredits stored > 0
         then b\<lparr>acc_WeeklyCredits := as_WeeklyCredits stored, acc_weeklyCreditsExplicit := True\<rparr> else b)"

definition applyStoredAccount :: "(string, accountSetting) gomap \<Rightarrow> account \<Rightarrow> account" where
  "applyStoredAccount stored a =
     (case mget stored (acc_Identity a) of
        None \<Rightarrow> a
      | Some s \<Rightarrow> storedCredits s (storedDisabled s (storedPlan s (storedName s a))))"

definition applyStoredSettings :: "account list \<Rightarrow> settingsFile \<Rightarrow> account list result" where
  "applyStoredSettings accounts settings =
     (if sf_Version settings = 0 \<and> settingsEmpty settings then Inr accounts
      else if sf_Version settings \<noteq> 1 then Inl (Msg ''settings.json has unsupported version'')
      else
        bindR (applyStoredConfig validationConfig settings) (\<lambda>_.
        bindR (validateStoredAccounts (sf_Accounts settings)) (\<lambda>_.
        let applied = map (applyStoredAccount (sf_Accounts settings)) accounts in
        bindR (validateAccounts applied) (\<lambda>_. Inr applied))))"

section \<open>The protocol\<close>

definition settingsDigest :: "golib \<Rightarrow> settingsCodec \<Rightarrow> settingsFile \<Rightarrow> string" where
  "settingsDigest lib cdc settings = lib_sha256hex lib (sc_marshal cdc settings)"

definition loadSettings :: "settingsCodec \<Rightarrow> Store \<Rightarrow> settingsFile result io" where
  "loadSettings cdc s =
     thenIO (ReadJSON s ''settings.json'' (sc_decode cdc) zero_settings) (\<lambda>settings.
       returnIO (case validateSettingsFile settings of Inl e \<Rightarrow> Inl e | Inr _ \<Rightarrow> Inr settings))"

text \<open>The last two steps of \<open>saveSettings\<close>: replace the settings, then drop the marker.\<close>

definition commitSettings :: "settingsCodec \<Rightarrow> Store \<Rightarrow> settingsFile \<Rightarrow> unit result io" where
  "commitSettings cdc s settings =
     bindIO (WriteJSON s ''settings.json'' (Inr (sc_marshal cdc settings))) (\<lambda>written.
       case written of
         Inl err \<Rightarrow>
           if OutcomeOf err = WriteNeedsRecovery then
             bindIO (Flush s) (\<lambda>flushed.
               case flushed of
                 Inr _ \<Rightarrow> returnIO (Inr ())
               | Inl _ \<Rightarrow> returnIO (Inl (PendingErr (Wrapped ''commit settings'' err))))
           else returnIO (Inl (PendingErr (Wrapped ''commit settings'' err)))
       | Inr _ \<Rightarrow>
           bindIO (RemoveJSON s settingsRecoveryName) (\<lambda>removed.
             returnIO (case removed of
                 Inr _ \<Rightarrow> Inr ()
               | Inl err \<Rightarrow>
                   if OutcomeOf err \<noteq> WriteNeedsRecovery then Inl (Wrapped ''clear settings recovery'' err) else Inr ())))"

definition prepareSettings :: "golib \<Rightarrow> settingsCodec \<Rightarrow> Store \<Rightarrow> settingsRecovery \<Rightarrow> settingsFile \<Rightarrow> unit result io" where
  "prepareSettings lib cdc s recovery settings =
     bindIO (WriteJSON s settingsRecoveryName (Inr (sc_marshalRecovery cdc (recovery\<lparr>sr_Desired := Some settings\<rparr>)))) (\<lambda>prepared.
       case prepared of
         Inr _ \<Rightarrow> commitSettings cdc s settings
       | Inl err \<Rightarrow>
           if OutcomeOf err \<noteq> WriteNeedsRecovery then returnIO (Inl (Wrapped ''prepare settings recovery'' err))
           else bindIO (Flush s) (\<lambda>flushed.
             case flushed of
               Inr _ \<Rightarrow> commitSettings cdc s settings
             | Inl _ \<Rightarrow>
                 bindIO (loadSettings cdc s) (\<lambda>curr.
                   returnIO (case curr of
                       Inr c \<Rightarrow>
                         if settingsDigest lib cdc c = settingsDigest lib cdc settings then Inr ()
                         else Inl (PendingErr (Wrapped ''prepare settings recovery'' err))
                     | Inl _ \<Rightarrow> Inl (PendingErr (Wrapped ''prepare settings recovery'' err))))))"

definition stageMarker :: "golib \<Rightarrow> settingsCodec \<Rightarrow> settingsFile \<Rightarrow> settingsRecovery" where
  "stageMarker lib cdc previous =
     \<lparr>sr_Version = settingsRecoveryVersion, sr_PreviousDigest = settingsDigest lib cdc previous, sr_Desired = None\<rparr>"

definition saveSettings :: "golib \<Rightarrow> settingsCodec \<Rightarrow> Store \<Rightarrow> settingsFile \<Rightarrow> unit result io" where
  "saveSettings lib cdc s settings =
     bindIO (loadSettings cdc s) (\<lambda>loaded.
       case loaded of
         Inl err \<Rightarrow>
           returnIO (Inl (if Contains (error_text err) ''too many levels of symbolic links''
                          then Msg ''refusing symlink target'' else err))
       | Inr previous \<Rightarrow>
           thenIO (wrapIO (Wrapped ''stage settings recovery'')
                     (WriteJSON s settingsRecoveryName (Inr (sc_marshalRecovery cdc (stageMarker lib cdc previous))))) (\<lambda>_.
             prepareSettings lib cdc s (stageMarker lib cdc previous) settings))"

text \<open>The part of \<open>recoverSettings\<close> that acts on a marker it has read.\<close>

definition resolveMarker :: "golib \<Rightarrow> settingsCodec \<Rightarrow> Store \<Rightarrow> settingsFile \<Rightarrow> settingsRecovery \<Rightarrow> settingsFile result io" where
  "resolveMarker lib cdc s settings recovery =
     (if sr_Version recovery \<noteq> settingsRecoveryVersion then returnIO (Inl (Msg ''settings recovery marker is invalid''))
      else case sr_Desired recovery of
        None \<Rightarrow>
          if settingsDigest lib cdc settings \<noteq> sr_PreviousDigest recovery
          then returnIO (Inl (Msg ''settings recovery marker does not match settings.json''))
          else bindIO (RemoveJSON s settingsRecoveryName) (\<lambda>_. returnIO (Inr settings))
      | Some desired \<Rightarrow>
          if validateSettingsFile desired \<noteq> Inr () then returnIO (Inl (Msg ''settings recovery marker is invalid''))
          else if settingsDigest lib cdc settings = sr_PreviousDigest recovery then
            bindIO (WriteJSON s ''settings.json'' (Inr (sc_marshal cdc desired))) (\<lambda>written.
              case written of
                Inl err \<Rightarrow>
                  if OutcomeOf err \<noteq> WriteNeedsRecovery then returnIO (Inl (Wrapped ''roll forward settings recovery'' err))
                  else bindIO (RemoveJSON s settingsRecoveryName) (\<lambda>_. returnIO (Inr desired))
              | Inr _ \<Rightarrow> bindIO (RemoveJSON s settingsRecoveryName) (\<lambda>_. returnIO (Inr desired)))
          else if settingsDigest lib cdc settings = settingsDigest lib cdc desired then
            bindIO (RemoveJSON s settingsRecoveryName) (\<lambda>_. returnIO (Inr desired))
          else returnIO (Inl (Msg ''settings recovery marker does not match settings.json'')))"

definition recoverSettings :: "golib \<Rightarrow> settingsCodec \<Rightarrow> Store \<Rightarrow> settingsFile result io" where
  "recoverSettings lib cdc s =
     thenIO (loadSettings cdc s) (\<lambda>settings.
     thenIO (ReadJSONIfExists s settingsRecoveryName (sc_decodeRecovery cdc)) (\<lambda>found.
       case found of None \<Rightarrow> returnIO (Inr settings) | Some recovery \<Rightarrow> resolveMarker lib cdc s settings recovery))"

definition newSecureStore :: "string \<Rightarrow> Store result io" where
  "newSecureStore authDir =
     (let base = cleanPath (TrimSpace authDir) in
      if pathString base = ''.'' \<or> \<not> IsAbs (pathString base)
      then returnIO (Inl (Msg ''auth-dir must be an absolute path''))
      else New (pathString (fst base, ''zai'' # ''providers'' # snd base)))"

section \<open>What a recovery finds\<close>

text \<open>The settings that the entries of the two files stand for, as a function of the entries.\<close>

definition loadedOf :: "settingsCodec \<Rightarrow> dirent option \<Rightarrow> settingsFile result" where
  "loadedOf cdc entry =
     bindR (readEntry ''settings.json'' (sc_decode cdc) entry) (\<lambda>r.
       let settings = (case r of None \<Rightarrow> zero_settings | Some v \<Rightarrow> v)
       in case validateSettingsFile settings of Inl e \<Rightarrow> Inl e | Inr _ \<Rightarrow> Inr settings)"

definition recoveredFrom :: "golib \<Rightarrow> settingsCodec \<Rightarrow> settingsFile \<Rightarrow> settingsRecovery \<Rightarrow> settingsFile result" where
  "recoveredFrom lib cdc settings recovery =
     bindR (guardR (sr_Version recovery = settingsRecoveryVersion) ''settings recovery marker is invalid'') (\<lambda>_.
     case sr_Desired recovery of
       None \<Rightarrow>
         bindR (guardR (settingsDigest lib cdc settings = sr_PreviousDigest recovery)
                  ''settings recovery marker does not match settings.json'') (\<lambda>_. Inr settings)
     | Some desired \<Rightarrow>
         bindR (guardR (validateSettingsFile desired = Inr ()) ''settings recovery marker is invalid'') (\<lambda>_.
         if settingsDigest lib cdc settings = sr_PreviousDigest recovery
         then bindR (guardR (int (length (sc_marshal cdc desired)) < maxFileSize) ''settings.json exceeds maximum size'') (\<lambda>_. Inr desired)
         else bindR (guardR (settingsDigest lib cdc settings = settingsDigest lib cdc desired)
                       ''settings recovery marker does not match settings.json'') (\<lambda>_. Inr desired)))"

definition recoverOf :: "golib \<Rightarrow> settingsCodec \<Rightarrow> dirent option \<Rightarrow> dirent option \<Rightarrow> settingsFile result" where
  "recoverOf lib cdc entry marker =
     bindR (loadedOf cdc entry) (\<lambda>settings.
     bindR (readEntry settingsRecoveryName (sc_decodeRecovery cdc) marker) (\<lambda>found.
       case found of None \<Rightarrow> Inr settings | Some recovery \<Rightarrow> recoveredFrom lib cdc settings recovery))"

lemma names [simp]:
  "public_name ''settings.json''" "public_name settingsRecoveryName" "isBase ''settings.json''" "isBase settingsRecoveryName"
  "settingsRecoveryName \<noteq> ''settings.json''" "''settings.json'' \<noteq> settingsRecoveryName"
  "settingsRecoveryName \<noteq> []" "settingsRecoveryName \<noteq> ''.''"
  by (simp_all add: public_name_def HasPrefix_def isBase_def settingsRecoveryName_def)

lemma loadSettings_wp:
  "wp (loadSettings cdc s) env (\<lambda>r w'. quiet w w' \<and> (\<forall>v. r = Done (Inr v) \<longrightarrow> loadedOf cdc (now_at w ''settings.json'') = Inr v)) w"
proof -
  have one: "readEntry ''settings.json'' (sc_decode cdc) (now_at w ''settings.json'') = Inr v"
    if "case now_at w ''settings.json'' of None \<Rightarrow> v = None
        | Some d \<Rightarrow> \<exists>x. v = Some x \<and> decodeFile ''settings.json'' (sc_decode cdc) d = Inr x" for v
    using that decodeFile_readEntry by (force simp: readEntry_def [of _ _ None] split: option.splits)
  show ?thesis
    unfolding loadSettings_def ReadJSON_def wp_then
    by (rule wp_mono [OF ReadJSONIfExists_wp])
      (use one in \<open>auto simp: loadedOf_def Let_def split: outcome.splits sum.splits\<close>)
qed

lemma loadSettings_healthy:
  assumes "healthy env s"
  shows "wp (loadSettings cdc s) env (\<lambda>r w'. r = Done (loadedOf cdc (now_at w ''settings.json'')) \<and> only_ticks w w') w"
  unfolding loadSettings_def ReadJSON_def wp_then
  by (rule wp_mono [OF healthy_read [OF assms]])
    (auto simp: loadedOf_def bindR_def Let_def split: sum.splits)

lemma loadedOf_replaceable: "loadedOf cdc d = Inr v \<Longrightarrow> replaceable d"
  by (auto simp: loadedOf_def bindR_Inr_iff dest: readEntry_regular)

text \<open>On a healthy system \<open>recoverSettings\<close> returns what the entries stand for.\<close>

lemma resolveMarker_healthy:
  assumes h: "healthy env s" and fresh: "fresh_suffixes env w" and rep: "replaceable (now_at w ''settings.json'')"
    and x: "recoveredFrom lib cdc settings recovery = Inr x"
  shows "wp (resolveMarker lib cdc s settings recovery) env (\<lambda>r w'. r = Done (Inr x)) w"
proof -
  have rm: "wp (bindIO (RemoveJSON s settingsRecoveryName) (\<lambda>_. returnIO (Inr y))) env (\<lambda>r w'. r = Done (Inr y)) w1" for y w1
    unfolding wp_bind by (rule wp_mono [OF healthy_remove [OF h]]) auto
  have roll: "wp (bindIO (WriteJSON s ''settings.json'' (Inr raw)) (\<lambda>written.
      case written of
        Inl err \<Rightarrow> if OutcomeOf err \<noteq> WriteNeedsRecovery then returnIO (Inl (Wrapped ''roll forward settings recovery'' err))
                  else bindIO (RemoveJSON s settingsRecoveryName) (\<lambda>_. returnIO (Inr y))
      | Inr _ \<Rightarrow> bindIO (RemoveJSON s settingsRecoveryName) (\<lambda>_. returnIO (Inr y)))) env (\<lambda>r w'. r = Done (Inr y)) w"
    if "int (length raw) < maxFileSize" for raw y
    unfolding wp_bind [where f = "WriteJSON s ''settings.json'' (Inr raw)"]
    by (rule wp_mono [OF healthy_write [OF h fresh rep _ _ _ that]]) (use rm in \<open>auto simp del: wp_bind\<close>)
  have version: "sr_Version recovery = settingsRecoveryVersion"
    using x by (auto simp: recoveredFrom_def bindR_Inr_iff)
  show ?thesis
  proof (cases "sr_Desired recovery")
    case None
    then show ?thesis
      using x rm version by (auto simp: recoveredFrom_def resolveMarker_def bindR_Inr_iff simp del: wp_bind)
  next
    case (Some desired)
    then show ?thesis
      using x rm roll version
      by (cases "settingsDigest lib cdc settings = sr_PreviousDigest recovery")
        (auto simp: recoveredFrom_def resolveMarker_def bindR_Inr_iff simp del: wp_bind)
  qed
qed

lemma recoverSettings_healthy:
  assumes h: "healthy env s" and fresh: "fresh_suffixes env w"
    and x: "recoverOf lib cdc (now_at w ''settings.json'') (now_at w settingsRecoveryName) = Inr x"
  shows "wp (recoverSettings lib cdc s) env (\<lambda>r w'. r = Done (Inr x)) w"
proof -
  obtain settings found where l: "loadedOf cdc (now_at w ''settings.json'') = Inr settings"
    and f: "readEntry settingsRecoveryName (sc_decodeRecovery cdc) (now_at w settingsRecoveryName) = Inr found"
    and v: "(case found of None \<Rightarrow> Inr settings | Some recovery \<Rightarrow> recoveredFrom lib cdc settings recovery) = Inr x"
    using x by (auto simp: recoverOf_def bindR_Inr_iff)
  have act: "wp (case found of None \<Rightarrow> returnIO (Inr settings) | Some recovery \<Rightarrow> resolveMarker lib cdc s settings recovery) env
      (\<lambda>r w'. r = Done (Inr x)) w2" if "only_ticks w w2" for w2
    using that v fresh loadedOf_replaceable [OF l] resolveMarker_healthy [OF h, of w2 lib cdc settings _ x]
    by (cases found) (auto simp: only_ticks_def fresh_suffixes_def)
  have marker: "wp (thenIO (ReadJSONIfExists s settingsRecoveryName (sc_decodeRecovery cdc)) (\<lambda>found.
       case found of None \<Rightarrow> returnIO (Inr settings) | Some recovery \<Rightarrow> resolveMarker lib cdc s settings recovery)) env
      (\<lambda>r w'. r = Done (Inr x)) w1" if t: "only_ticks w w1" for w1
  proof -
    have "now_at w1 n = now_at w n" for n using t by (auto simp: only_ticks_def)
    moreover have "only_ticks w w2" if "only_ticks w1 w2" for w2 using t that by (auto simp: only_ticks_def)
    ultimately show ?thesis
      unfolding wp_then by (intro wp_mono [OF healthy_read [OF h]]) (use f act in auto)
  qed
  show ?thesis
    unfolding recoverSettings_def wp_then [where f = "loadSettings cdc s"]
    by (rule wp_mono [OF loadSettings_healthy [OF h]]) (use l marker in \<open>auto simp del: wp_then\<close>)
qed

section \<open>Crash safety of an update\<close>

definition markerEntry :: "settingsCodec \<Rightarrow> settingsRecovery \<Rightarrow> dirent option" where
  "markerEntry cdc recovery = Some (fileOf (sc_marshalRecovery cdc recovery @ [CHR 0x0A]))"

definition settingsEntry :: "settingsCodec \<Rightarrow> settingsFile \<Rightarrow> dirent option" where
  "settingsEntry cdc settings = Some (fileOf (sc_marshal cdc settings @ [CHR 0x0A]))"

definition desiredMarker :: "golib \<Rightarrow> settingsCodec \<Rightarrow> settingsFile \<Rightarrow> settingsFile \<Rightarrow> settingsRecovery" where
  "desiredMarker lib cdc previous desired = (stageMarker lib cdc previous)\<lparr>sr_Desired := Some desired\<rparr>"

text \<open>
  An update from \<open>old\<close> to \<open>new\<close>: the entries \<open>a\<close> and \<open>b\<close> of the two files are durable and
  stand for \<open>old\<close>, \<open>new\<close> is valid, and the three documents that are written read back.
\<close>

definition updates :: "golib \<Rightarrow> settingsCodec \<Rightarrow> dirent option \<Rightarrow> dirent option \<Rightarrow> settingsFile \<Rightarrow> settingsFile \<Rightarrow> bool" where
  "updates lib cdc a b old new \<longleftrightarrow>
     entry_synced a \<and> entry_synced b \<and> loadedOf cdc a = Inr old \<and> recoverOf lib cdc a b = Inr old \<and>
     validateSettingsFile new = Inr () \<and>
     reads_back (sc_decode cdc) (sc_marshal cdc new) new \<and>
     reads_back (sc_decodeRecovery cdc) (sc_marshalRecovery cdc (stageMarker lib cdc old)) (stageMarker lib cdc old) \<and>
     reads_back (sc_decodeRecovery cdc) (sc_marshalRecovery cdc (desiredMarker lib cdc old new)) (desiredMarker lib cdc old new)"

text \<open>
  Every combination of entries a crash may leave is recovered to \<open>old\<close> or \<open>new\<close>, and to
  \<open>new\<close> (as far as digests tell) when the update has reported success.
\<close>

definition recoverable :: "golib \<Rightarrow> settingsCodec \<Rightarrow> settingsFile \<Rightarrow> settingsFile \<Rightarrow> bool \<Rightarrow> world \<Rightarrow> bool" where
  "recoverable lib cdc old new saved w \<longleftrightarrow>
     (\<forall>d1 d2. survives w ''settings.json'' d1 \<longrightarrow> survives w settingsRecoveryName d2 \<longrightarrow>
        entry_synced d1 \<and> entry_synced d2 \<and>
        (\<exists>x. recoverOf lib cdc d1 d2 = Inr x \<and> (x = old \<or> x = new) \<and>
             (saved \<longrightarrow> settingsDigest lib cdc x = settingsDigest lib cdc new)))"

definition saved_ok :: "golib \<Rightarrow> settingsCodec \<Rightarrow> settingsFile \<Rightarrow> settingsFile \<Rightarrow> unit result outcome \<Rightarrow> world \<Rightarrow> bool" where
  "saved_ok lib cdc old new r w \<longleftrightarrow> recoverable lib cdc old new (r = Done (Inr ())) w"

lemma loadedOf_settingsEntry:
  assumes "validateSettingsFile new = Inr ()" and "reads_back (sc_decode cdc) (sc_marshal cdc new) new"
  shows "loadedOf cdc (settingsEntry cdc new) = Inr new"
  using readEntry_fileOf [OF assms(2), of "''settings.json''"] assms(1) by (simp add: loadedOf_def settingsEntry_def)

lemma recoverOf_marker:
  assumes "loadedOf cdc d = Inr x" and "reads_back (sc_decodeRecovery cdc) (sc_marshalRecovery cdc m) m"
  shows "recoverOf lib cdc d (markerEntry cdc m) = recoveredFrom lib cdc x m"
  using readEntry_fileOf [OF assms(2), of settingsRecoveryName] assms(1) by (simp add: recoverOf_def markerEntry_def)

lemma recoveredFrom_stage: "recoveredFrom lib cdc old (stageMarker lib cdc old) = Inr old"
  by (simp add: recoveredFrom_def stageMarker_def guardR_def)

lemma recoveredFrom_desired:
  assumes "validateSettingsFile new = Inr ()" and "int (length (sc_marshal cdc new)) < maxFileSize" and "x = old \<or> x = new"
  shows "recoveredFrom lib cdc x (desiredMarker lib cdc old new) = Inr new"
  using assms by (auto simp: recoveredFrom_def desiredMarker_def stageMarker_def guardR_def)

lemma recover_stage: "updates lib cdc a b old new \<Longrightarrow> recoverOf lib cdc a (markerEntry cdc (stageMarker lib cdc old)) = Inr old"
  by (simp add: updates_def recoverOf_marker recoveredFrom_stage)

lemma recover_desired:
  "updates lib cdc a b old new \<Longrightarrow> recoverOf lib cdc a (markerEntry cdc (desiredMarker lib cdc old new)) = Inr new"
  by (simp add: updates_def recoverOf_marker recoveredFrom_desired reads_back_def)

lemma recover_new:
  "updates lib cdc a b old new \<Longrightarrow> recoverOf lib cdc (settingsEntry cdc new) (markerEntry cdc (desiredMarker lib cdc old new)) = Inr new"
  using loadedOf_settingsEntry [of new cdc]
  by (simp add: updates_def recoverOf_marker recoveredFrom_desired reads_back_def)

lemma recover_clean: "updates lib cdc a b old new \<Longrightarrow> recoverOf lib cdc (settingsEntry cdc new) None = Inr new"
  by (simp add: updates_def recoverOf_def readEntry_def loadedOf_settingsEntry)

lemma entries_synced [simp]: "entry_synced (markerEntry cdc m)" "entry_synced (settingsEntry cdc x)"
  by (simp_all add: markerEntry_def settingsEntry_def)

lemmas recover_facts = recover_stage recover_desired recover_new recover_clean

lemma recoverable_between:
  assumes "between w ''settings.json'' A settingsRecoveryName B"
    and "\<And>d1 d2. d1 \<in> A \<Longrightarrow> d2 \<in> B \<Longrightarrow> entry_synced d1 \<and> entry_synced d2 \<and>
        (\<exists>x. recoverOf lib cdc d1 d2 = Inr x \<and> (x = old \<or> x = new) \<and>
             (saved \<longrightarrow> settingsDigest lib cdc x = settingsDigest lib cdc new))"
  shows "recoverable lib cdc old new saved w"
  using assms by (auto simp: recoverable_def between_def)

text \<open>The states the protocol passes through, each with every crash it allows.\<close>

lemma recoverable_start:
  assumes "updates lib cdc a b old new"
    and "between w ''settings.json'' {a} settingsRecoveryName {b, markerEntry cdc (stageMarker lib cdc old)}"
  shows "recoverable lib cdc old new False w"
  by (rule recoverable_between [OF assms(2)]) (use assms(1) recover_stage [OF assms(1)] in \<open>auto simp: updates_def\<close>)

lemma recoverable_prepared:
  assumes "updates lib cdc a b old new"
    and "between w ''settings.json'' {a} settingsRecoveryName
           {markerEntry cdc (stageMarker lib cdc old), markerEntry cdc (desiredMarker lib cdc old new)}"
    and "saved \<longrightarrow> settingsDigest lib cdc old = settingsDigest lib cdc new"
  shows "recoverable lib cdc old new saved w"
  by (rule recoverable_between [OF assms(2)])
    (use assms(1, 3) recover_facts [OF assms(1)] in \<open>auto simp: updates_def\<close>)

lemma recoverable_committing:
  assumes "updates lib cdc a b old new"
    and "between w ''settings.json'' {a, settingsEntry cdc new} settingsRecoveryName {markerEntry cdc (desiredMarker lib cdc old new)}"
  shows "recoverable lib cdc old new saved w"
  by (rule recoverable_between [OF assms(2)])
    (use assms(1) recover_facts [OF assms(1)] in \<open>auto simp: updates_def\<close>)

lemma recoverable_clearing:
  assumes "updates lib cdc a b old new"
    and "between w ''settings.json'' {settingsEntry cdc new} settingsRecoveryName {markerEntry cdc (desiredMarker lib cdc old new), None}"
  shows "recoverable lib cdc old new saved w"
  by (rule recoverable_between [OF assms(2)])
    (use assms(1) recover_facts [OF assms(1)] in \<open>auto simp: updates_def\<close>)

lemma commit_wp:
  assumes u: "updates lib cdc a b old new"
    and e: "exactly w ''settings.json'' a settingsRecoveryName (markerEntry cdc (desiredMarker lib cdc old new))"
  shows "wp (commitSettings cdc s new) env (saved_ok lib cdc old new) w"
proof -
  let ?D = "markerEntry cdc (desiredMarker lib cdc old new)"
  have committing: "saved_ok lib cdc old new r w1"
    if "between w1 settingsRecoveryName {?D} ''settings.json'' {a, settingsEntry cdc new}" for r w1
    using recoverable_committing [OF u between_sym [OF that]] by (simp add: saved_ok_def)
  have flush: "wp (bindIO (Flush s) (\<lambda>f. case f of Inr _ \<Rightarrow> returnIO (Inr ()) | Inl _ \<Rightarrow> returnIO (Inl err))) env (saved_ok lib cdc old new) w1"
    if "between w1 settingsRecoveryName {?D} ''settings.json'' {a, settingsEntry cdc new}"
      "now_at w1 settingsRecoveryName = ?D" "now_at w1 ''settings.json'' = settingsEntry cdc new" for err w1
    unfolding wp_bind
    by (rule disk.flush_rule [OF _ _ that]) (use committing exactly_between in auto)
  have clear: "wp (bindIO (RemoveJSON s settingsRecoveryName) (\<lambda>removed. returnIO (h removed))) env (saved_ok lib cdc old new) w1"
    if "exactly w1 settingsRecoveryName ?D ''settings.json'' (settingsEntry cdc new)" for h w1
    unfolding wp_bind
    by (rule disk.del_rule [OF _ _ _ exactly_sym [OF that]])
      (auto simp: saved_ok_def recoverable_clearing [OF u] split: outcome.splits)
  show ?thesis
    unfolding commitSettings_def wp_bind [where f = "WriteJSON s ''settings.json'' (Inr (sc_marshal cdc new))"]
    by (rule disk.put_rule [OF _ _ _ exactly_sym [OF e] settingsEntry_def])
      (use committing flush clear exactly_between in \<open>auto simp del: wp_bind\<close>)
qed

lemma prepare_wp:
  assumes u: "updates lib cdc a b old new"
    and e: "exactly w ''settings.json'' a settingsRecoveryName (markerEntry cdc (stageMarker lib cdc old))"
  shows "wp (prepareSettings lib cdc s (stageMarker lib cdc old) new) env (saved_ok lib cdc old new) w"
proof -
  let ?S = "markerEntry cdc (stageMarker lib cdc old)" and ?D = "markerEntry cdc (desiredMarker lib cdc old new)"
  have D: "?D = Some (fileOf (sc_marshalRecovery cdc (stageMarker lib cdc old\<lparr>sr_Desired := Some new\<rparr>) @ [CHR 0x0A]))"
    by (simp add: markerEntry_def desiredMarker_def)
  have prepared: "saved_ok lib cdc old new r w1"
    if "between w1 ''settings.json'' {a} settingsRecoveryName {?S, ?D}"
      "r = Done (Inr ()) \<longrightarrow> settingsDigest lib cdc old = settingsDigest lib cdc new" for r w1
    using recoverable_prepared [OF u that] by (simp add: saved_ok_def)
  have reload: "wp (bindIO (loadSettings cdc s) (\<lambda>curr. returnIO (case curr of
        Inr c \<Rightarrow> if settingsDigest lib cdc c = settingsDigest lib cdc new then Inr () else Inl err | Inl _ \<Rightarrow> Inl err)))
      env (saved_ok lib cdc old new) w1"
    if "between w1 ''settings.json'' {a} settingsRecoveryName {?S, ?D}" "now_at w1 ''settings.json'' = a" for err w1
  proof -
    have old: "loadedOf cdc a = Inr old" using u by (simp add: updates_def)
    have keep: "between w2 ''settings.json'' {a} settingsRecoveryName {?S, ?D}" if "quiet w1 w2" for w2
      using that \<open>between w1 _ _ _ _\<close> by (auto simp: quiet_def between_def)
    show ?thesis
      unfolding wp_bind
      by (rule wp_mono [OF loadSettings_wp])
        (use that(2) old keep prepared in \<open>auto split: outcome.splits sum.splits if_splits\<close>)
  qed
  have flush: "wp (bindIO (Flush s) (\<lambda>f. case f of Inr _ \<Rightarrow> commitSettings cdc s new
      | Inl _ \<Rightarrow> bindIO (loadSettings cdc s) (\<lambda>curr. returnIO (case curr of
          Inr c \<Rightarrow> if settingsDigest lib cdc c = settingsDigest lib cdc new then Inr () else Inl err | Inl _ \<Rightarrow> Inl err))))
      env (saved_ok lib cdc old new) w1"
    if "between w1 ''settings.json'' {a} settingsRecoveryName {?S, ?D}" "now_at w1 ''settings.json'' = a"
      "now_at w1 settingsRecoveryName = ?D" for err w1
    unfolding wp_bind [where f = "Flush s"]
    by (rule disk.flush_rule [OF _ _ that]) (use prepared reload commit_wp [OF u] in \<open>auto simp del: wp_bind\<close>)
  show ?thesis
    unfolding prepareSettings_def wp_bind [where f = "WriteJSON s settingsRecoveryName x" for x]
    by (rule disk.put_rule [OF _ _ _ e D])
      (use prepared flush commit_wp [OF u] exactly_between in \<open>auto simp del: wp_bind\<close>)
qed

lemma save_wp:
  assumes u: "updates lib cdc a b old new" and e: "exactly w ''settings.json'' a settingsRecoveryName b"
  shows "wp (saveSettings lib cdc s new) env (saved_ok lib cdc old new) w"
proof -
  let ?S = "markerEntry cdc (stageMarker lib cdc old)"
  have start: "saved_ok lib cdc old new r w1"
    if "between w1 ''settings.json'' {a} settingsRecoveryName {b, ?S}" "r \<noteq> Done (Inr ())" for r w1
    using recoverable_start [OF u that(1)] that(2) by (simp add: saved_ok_def)
  have stage: "wp (thenIO (wrapIO (Wrapped ''stage settings recovery'')
        (WriteJSON s settingsRecoveryName (Inr (sc_marshalRecovery cdc (stageMarker lib cdc old)))))
        (\<lambda>_. prepareSettings lib cdc s (stageMarker lib cdc old) new)) env (saved_ok lib cdc old new) w1"
    if "exactly w1 ''settings.json'' a settingsRecoveryName b" for w1
    unfolding wp_then wp_wrap
    by (rule disk.put_rule [OF _ _ _ that, where d = ?S])
      (use start prepare_wp [OF u] exactly_between in \<open>auto simp: markerEntry_def\<close>)
  have old: "loadedOf cdc a = Inr old" "now_at w ''settings.json'' = a" using u e by (auto simp: updates_def exactly_def)
  have keep: "exactly w1 ''settings.json'' a settingsRecoveryName b" if "quiet w w1" for w1
    using exactly_quiet [OF that e] by simp
  have aside: "saved_ok lib cdc old new r w1" if "quiet w w1" "r \<noteq> Done (Inr ())" for r w1
    by (rule start [OF exactly_between [OF keep [OF that(1)]] that(2)]) auto
  show ?thesis
    unfolding saveSettings_def wp_bind [where f = "loadSettings cdc s"]
    by (rule wp_mono [OF loadSettings_wp])
      (use old keep stage aside in \<open>auto simp del: wp_then split: outcome.splits sum.splits\<close>)
qed

section \<open>Theorems on the protocol\<close>

text \<open>
  C9. An update of the settings is all or nothing: whatever calls fail during \<open>saveSettings\<close>
  and wherever the process dies in it, and whichever of the changes that were not flushed the
  crash keeps, the next \<open>recoverSettings\<close> on a healthy system succeeds and returns the old or
  the new settings, never an error and never a mix; after a \<open>saveSettings\<close> that returned no
  error it returns the new ones, up to their digest.
\<close>

theorem settings_update_crash_safe:
  assumes "updates lib cdc a b old new" and "exactly w ''settings.json'' a settingsRecoveryName b"
    and "saveSettings lib cdc s new env w = (r, w')" and "crash_view w' w1"
    and "healthy env' s'" and "fresh_suffixes env' w1"
  shows "\<exists>x w2. recoverSettings lib cdc s' env' w1 = (Done (Inr x), w2) \<and> (x = old \<or> x = new) \<and>
           (r = Done (Inr ()) \<longrightarrow> settingsDigest lib cdc x = settingsDigest lib cdc new)"
proof -
  have "saved_ok lib cdc old new r w'" using save_wp [OF assms(1, 2), of s env] assms(3) by (simp add: wp_def)
  then have rec: "recoverable lib cdc old new (r = Done (Inr ())) w'" by (simp add: saved_ok_def)
  have left: "\<exists>d. survives w' n d \<and> settles d (now_at w1 n)" for n using assms(4) by (auto simp: crash_view_def)
  obtain d1 where d1: "survives w' ''settings.json'' d1" "settles d1 (now_at w1 ''settings.json'')" using left by blast
  obtain d2 where d2: "survives w' settingsRecoveryName d2" "settles d2 (now_at w1 settingsRecoveryName)" using left by blast
  obtain x where x: "recoverOf lib cdc d1 d2 = Inr x" "x = old \<or> x = new"
      "r = Done (Inr ()) \<longrightarrow> settingsDigest lib cdc x = settingsDigest lib cdc new" and sy: "entry_synced d1" "entry_synced d2"
    using rec d1(1) d2(1) unfolding recoverable_def by blast
  have "recoverOf lib cdc (now_at w1 ''settings.json'') (now_at w1 settingsRecoveryName) = Inr x"
    using x(1) d1(2) d2(2) sy by (simp add: settles_synced)
  then have "wp (recoverSettings lib cdc s') env' (\<lambda>r w'. r = Done (Inr x)) w1"
    by (rule recoverSettings_healthy [OF assms(5, 6)])
  then have "\<exists>w2. recoverSettings lib cdc s' env' w1 = (Done (Inr x), w2)"
    by (cases "recoverSettings lib cdc s' env' w1") (auto simp: wp_def)
  then show ?thesis using x by blast
qed

text \<open>A concrete update: from no settings to a threshold of 80 percent.\<close>

definition sampleNew :: settingsFile where
  "sampleNew = zero_settings\<lparr>sf_Version := 1, sf_ThresholdPercent := Some 80\<rparr>"

definition sampleCodec :: settingsCodec where
  "sampleCodec =
     \<lparr>sc_marshal = (\<lambda>x. if x = sampleNew then ''new'' else ''zero''),
      sc_decode = map_of [(''new'' @ [CHR 0x0A], sampleNew), (''zero'' @ [CHR 0x0A], zero_settings)],
      sc_marshalRecovery = (\<lambda>m. if sr_Desired m = None then ''stage'' else ''desired''),
      sc_decodeRecovery = map_of [(''stage'' @ [CHR 0x0A],
                                     \<lparr>sr_Version = 1, sr_PreviousDigest = lib_sha256hex sampleLib ''zero'', sr_Desired = None\<rparr>),
                                  (''desired'' @ [CHR 0x0A],
                                     \<lparr>sr_Version = 1, sr_PreviousDigest = lib_sha256hex sampleLib ''zero'', sr_Desired = Some sampleNew\<rparr>)]\<rparr>"

lemma sample_updates: "updates sampleLib sampleCodec None None zero_settings sampleNew"
  by code_simp

definition sampleSave :: "osEnv \<Rightarrow> unit result outcome \<times> world" where
  "sampleSave env = saveSettings sampleLib sampleCodec sampleOpen sampleNew env (worldOf [])"

definition desiredFile :: dirent where "desiredFile = fileOf (''desired'' @ [CHR 0x0A])"

lemma sampleSave_dying:
  "fst (sampleSave (dyingOS 51)) = Crashed"
  "wd_synced (snd (sampleSave (dyingOS 51))) = [(settingsRecoveryName, desiredFile)]"
  by code_simp+

theorem settings_update_crash_safe_witness:
  "\<exists>x w2. recoverSettings sampleLib sampleCodec sampleOpen goodOS (worldOf [(settingsRecoveryName, desiredFile)]) = (Done (Inr x), w2) \<and>
     (x = zero_settings \<or> x = sampleNew) \<and>
     ((Crashed :: unit result outcome) = Done (Inr ()) \<longrightarrow> settingsDigest sampleLib sampleCodec x = settingsDigest sampleLib sampleCodec sampleNew)"
proof -
  have e: "exactly (worldOf []) ''settings.json'' None settingsRecoveryName None"
    by (auto simp: exactly_def between_def survives_def worldOf_def)
  have c: "crash_view (snd (sampleSave (dyingOS 51))) (worldOf [(settingsRecoveryName, desiredFile)])"
    by (auto simp: crash_view_def survives_def settles_def sampleSave_dying) (auto simp: worldOf_def)
  have f: "fresh_suffixes goodOS (worldOf [(settingsRecoveryName, desiredFile)])"
    by (simp add: fresh_suffixes_def worldOf_def tempNameOf_def settingsRecoveryName_def)
  have w: "saveSettings sampleLib sampleCodec sampleOpen sampleNew (dyingOS 51) (worldOf []) =
      (Crashed, snd (sampleSave (dyingOS 51)))"
    using sampleSave_dying(1) by (simp add: sampleSave_def prod_eq_iff)
  show ?thesis by (rule settings_update_crash_safe [OF sample_updates e w c goodOS_healthy f])
qed

definition faultOS :: "nat \<Rightarrow> osEnv" where
  "faultOS k = goodOS\<lparr>os_lstat := (\<lambda>t p. if t = k then LookupErr ''input/output error'' else Found dirInfo)\<rparr>"

text \<open>
  An update that was rejected can take effect later. When only the check of the directory
  after the durable desired marker fails, \<open>saveSettings\<close> returns an error that is not marked as
  pending, so the caller keeps the old settings; the next \<open>recoverSettings\<close> rolls the
  rejected update forward.
\<close>

theorem rejected_update_applied_later:
  "\<exists>e w' w''. saveSettings sampleLib sampleCodec sampleOpen sampleNew (faultOS 35) (worldOf []) = (Done (Inl e), w') \<and>
     \<not> settingsRecoveryPending e \<and>
     recoverSettings sampleLib sampleCodec sampleOpen goodOS w' = (Done (Inr sampleNew), w'')"
proof -
  have "fst (sampleSave (faultOS 35)) =
      Done (Inl (Wrapped ''prepare settings recovery'' (Wrapped ''inspect secure store directory'' (Msg ''input/output error''))))"
    by code_simp
  moreover have "fst (recoverSettings sampleLib sampleCodec sampleOpen goodOS (snd (sampleSave (faultOS 35)))) = Done (Inr sampleNew)"
    by code_simp
  ultimately show ?thesis
    unfolding sampleSave_def
    by (metis prod.collapse settingsRecoveryPending.simps(2, 3))
qed

section \<open>Stored values stay in range\<close>

definition timeout_ok :: "pluginConfig \<Rightarrow> bool" where
  "timeout_ok c \<longleftrightarrow> minQuotaTimeout \<le> cfg_QuotaTimeout c \<and> cfg_QuotaTimeout c \<le> maxQuotaTimeout"

text \<open>The fields of the configuration that the stored settings cannot reach.\<close>

definition fixedPart :: "pluginConfig \<Rightarrow> string \<times> duration \<times> duration \<times> duration \<times> string \<times> accountOverride list" where
  "fixedPart c = (cfg_CPAConfigPath c, cfg_SuspendDuration c, cfg_FallbackCooldown c, cfg_StateRetention c,
                  cfg_DefaultPlan c, cfg_Accounts c)"

lemma stored_parts:
  "storedThreshold settings c = Inr c1 \<Longrightarrow> fixedPart c1 = fixedPart c \<and> cfg_QuotaTimeout c1 = cfg_QuotaTimeout c \<and>
     cfg_QuotaRefresh c1 = cfg_QuotaRefresh c \<and> (1 \<le> cfg_ThresholdPercent c \<and> cfg_ThresholdPercent c \<le> 100 \<longrightarrow>
     1 \<le> cfg_ThresholdPercent c1 \<and> cfg_ThresholdPercent c1 \<le> 100)"
  "storedInterval settings c = Inr c2 \<Longrightarrow> fixedPart c2 = fixedPart c \<and> cfg_QuotaTimeout c2 = cfg_QuotaTimeout c \<and>
     cfg_ThresholdPercent c2 = cfg_ThresholdPercent c \<and> (Minute \<le> cfg_QuotaRefresh c \<and> cfg_QuotaRefresh c \<le> 3 * Minute \<longrightarrow>
     Minute \<le> cfg_QuotaRefresh c2 \<and> cfg_QuotaRefresh c2 \<le> 3 * Minute)"
  "storedMaxAge settings c = Inr c3 \<Longrightarrow> fixedPart c3 = fixedPart c \<and> cfg_QuotaTimeout c3 = cfg_QuotaTimeout c \<and>
     cfg_ThresholdPercent c3 = cfg_ThresholdPercent c \<and> cfg_QuotaRefresh c3 = cfg_QuotaRefresh c"
  "storedTimeout settings c = Inr c4 \<Longrightarrow> fixedPart c4 = fixedPart c \<and> cfg_QuotaRefresh c4 = cfg_QuotaRefresh c \<and>
     cfg_AuthoritativeMaxAge c4 = cfg_AuthoritativeMaxAge c \<and> cfg_ThresholdPercent c4 = cfg_ThresholdPercent c \<and>
     (timeout_ok c \<longrightarrow> timeout_ok c4)"
  by (auto simp: storedThreshold_def storedInterval_def storedMaxAge_def storedTimeout_def fixedPart_def timeout_ok_def
        split: option.splits if_splits sum.splits)

text \<open>
  The settings an operator stores cannot take the module out of its configured ranges: when
  \<open>applyStoredConfig\<close> accepts them on a valid configuration, the result is valid again, with
  the poll interval, the maximal age and the timeout in their ranges, and the fields the settings
  do not own are the configured ones.
\<close>

theorem stored_config_in_range:
  assumes "applyStoredConfig cfg settings = Inr c" and "config_ok cfg" and "timeout_ok cfg"
  shows "config_ok c \<and> timeout_ok c \<and> fixedPart c = fixedPart cfg"
proof -
  obtain c1 c2 c3 where s: "storedThreshold settings cfg = Inr c1" "storedInterval settings c1 = Inr c2"
      "storedMaxAge settings c2 = Inr c3" "storedTimeout settings c3 = Inr c"
    and age: "maxPollInterval (cfg_QuotaRefresh c3) < cfg_AuthoritativeMaxAge c3"
    using assms(1) by (auto simp: applyStoredConfig_def bindR_Inr_iff split: if_splits)
  note parts = stored_parts(1) [OF s(1)] stored_parts(2) [OF s(2)] stored_parts(3) [OF s(3)] stored_parts(4) [OF s(4)]
  have fixed: "fixedPart c = fixedPart cfg" and t: "timeout_ok c" using parts assms(3) by (auto simp: timeout_ok_def)
  have "config_ok c" using parts assms(2) age fixed by (auto simp: config_ok_def fixedPart_def)
  then show ?thesis using fixed t by simp
qed

definition sampleStored :: settingsFile where
  "sampleStored = zero_settings\<lparr>sf_Version := 1, sf_ThresholdPercent := Some 80, sf_PollingInterval := ''1m'', sf_Timeout := ''20s''\<rparr>"

lemma storedSample_ok: "config_ok sampleParsed \<and> timeout_ok sampleParsed"
  by code_simp

theorem stored_config_in_range_witness:
  "\<exists>c. applyStoredConfig sampleParsed sampleStored = Inr c \<and>
     config_ok c \<and> timeout_ok c \<and> fixedPart c = fixedPart sampleParsed"
proof -
  have "\<not> isl (applyStoredConfig sampleParsed sampleStored)" by code_simp
  then obtain c where "applyStoredConfig sampleParsed sampleStored = Inr c"
    by (cases "applyStoredConfig sampleParsed sampleStored") auto
  then show ?thesis using stored_config_in_range storedSample_ok by blast
qed

section \<open>Stored accounts\<close>

definition credentials :: "account \<Rightarrow> string \<times> string \<times> string \<times> string list" where
  "credentials a = (acc_Identity a, acc_key a, acc_KeySuffix a, accountAuthIDs a)"

definition presentable :: "account \<Rightarrow> bool" where
  "presentable a \<longleftrightarrow> TrimSpace (acc_Name a) \<noteq> [] \<and> normalizePlan (acc_Plan a) \<noteq> [] \<and>
     validCreditBucket (acc_FiveHourCredits a) \<and> validCreditBucket (acc_WeeklyCredits a)"

lemma validateAccountsLoop_iff:
  "validateAccountsLoop seen as = Inr () \<longleftrightarrow>
     (\<forall>a \<in> set as. presentable a) \<and> distinct (map (ToLower \<circ> TrimSpace \<circ> acc_Name) as) \<and>
     (\<forall>a \<in> set as. ToLower (TrimSpace (acc_Name a)) \<notin> set seen)"
  by (induction as arbitrary: seen) (auto simp: presentable_def Let_def image_iff)

lemma applyStoredAccount_credentials [simp]: "credentials (applyStoredAccount m a) = credentials a"
  by (auto simp: applyStoredAccount_def credentials_def accountAuthIDs_def storedCredits_def storedDisabled_def
        storedPlan_def storedName_def Let_def split: option.splits)

text \<open>
  Stored account settings change how an account is shown and limited, never which credential it
  is: \<open>applyStoredSettings\<close> keeps the accounts, their order, keys, identities and auth ids, and
  what it accepts has a name of its own (compared without case), a known plan and positive credit
  buckets in range for every account.
\<close>

theorem stored_settings_keep_credentials:
  assumes "applyStoredSettings accounts settings = Inr out"
  shows "map credentials out = map credentials accounts \<and>
    (out = accounts \<or> (list_all presentable out \<and> distinct (map (ToLower \<circ> TrimSpace \<circ> acc_Name) out)))"
proof (cases "sf_Version settings = 0 \<and> settingsEmpty settings")
  case True
  then show ?thesis using assms by (simp add: applyStoredSettings_def)
next
  case False
  then have out: "out = map (applyStoredAccount (sf_Accounts settings)) accounts" and "validateAccounts out = Inr ()"
    using assms by (auto simp: applyStoredSettings_def bindR_Inr_iff Let_def split: if_splits)
  then show ?thesis by (simp add: validateAccounts_def validateAccountsLoop_iff list_all_iff comp_def)
qed

theorem stored_settings_keep_credentials_witness:
  "\<exists>out. applyStoredSettings [sampleAccount] (sampleStored\<lparr>sf_Accounts := [(sampleIdentity,
       \<lparr>as_Name = ''Team'', as_Plan = ''pro'', as_Disabled = Some True, as_FiveHourCredits = 0, as_WeeklyCredits = 0\<rparr>)]\<rparr>) = Inr out \<and>
     map credentials out = map credentials [sampleAccount] \<and>
     (out = [sampleAccount] \<or> (list_all presentable out \<and> distinct (map (ToLower \<circ> TrimSpace \<circ> acc_Name) out)))"
proof -
  let ?s = "sampleStored\<lparr>sf_Accounts := [(sampleIdentity,
       \<lparr>as_Name = ''Team'', as_Plan = ''pro'', as_Disabled = Some True, as_FiveHourCredits = 0, as_WeeklyCredits = 0\<rparr>)]\<rparr>"
  have "\<not> isl (applyStoredSettings [sampleAccount] ?s)" by code_simp
  then obtain out where "applyStoredSettings [sampleAccount] ?s = Inr out"
    by (cases "applyStoredSettings [sampleAccount] ?s") auto
  then show ?thesis using stored_settings_keep_credentials by blast
qed

end
