(* ===== verification/Scheduler.thy ===== *)
theory Scheduler
  imports Accounts
begin

text \<open>
  The scheduler, \<^verbatim>\<open>internal/providers/zai/scheduler.go\<close>, with the two error constructors of
  \<^verbatim>\<open>plugin.go\<close>. \<open>pick\<close> refreshes the capacity of every managed candidate, so it changes
  the snapshot; \<open>pickSpec\<close> is what it is meant to answer, a function of the statuses alone.
\<close>

section \<open>Definitions\<close>

definition sessionHeaderNames :: "string list" where
  "sessionHeaderNames = [''X-Session-ID'', ''Session-Id'', ''Session_id'', ''X-Client-Request-Id'']"

definition maxRoutingScopes :: nat where "maxRoutingScopes = 1024"

definition pluginID :: string where "pluginID = ''zai-coding-plan''"

text \<open>FNV-1a, 64 bits.\<close>

definition stableHash :: "string \<Rightarrow> 64 word" where
  "stableHash val = foldl (\<lambda>h c. (h XOR of_nat (of_char c)) * 1099511628211) 14695981039346656037 val"

text \<open>The candidates are never empty here; the answer is the ID of the chosen one.\<close>

definition routing_next :: "string \<Rightarrow> candidate list \<Rightarrow> (string, 64 word) gomap \<Rightarrow> string \<times> (string, 64 word) gomap" where
  "routing_next scope cands cursors =
     (let cs = (if mget cursors scope = None \<and> length cursors \<ge> maxRoutingScopes then [] else cursors);
          cursor = mget_or 0 cs scope
      in (ca_ID (cands ! unat (cursor mod of_nat (length cands))), mput scope (cursor + 1) cs))"

definition stickyScore :: "string \<Rightarrow> string \<Rightarrow> candidate \<Rightarrow> 64 word" where
  "stickyScore scope sessionID c = stableHash (scope @ NUL @ ca_ID c @ NUL @ sessionID)"

fun stickyLoop :: "(candidate \<Rightarrow> 64 word) \<Rightarrow> candidate \<Rightarrow> candidate list \<Rightarrow> candidate" where
  "stickyLoop score selected [] = selected"
| "stickyLoop score selected (c # rest) =
     (if score c > score selected then stickyLoop score c rest else stickyLoop score selected rest)"

definition routing_sticky :: "string \<Rightarrow> string \<Rightarrow> candidate list \<Rightarrow> string" where
  "routing_sticky scope sessionID cands = ca_ID (stickyLoop (stickyScore scope sessionID) (hd cands) (tl cands))"

definition validateSchedulerDeployment :: "cpaPluginsProjection \<Rightarrow> unit result" where
  "validateSchedulerDeployment plugins =
     (if \<not> pj_Enabled plugins then Inl (Msg ''plugins must be enabled'')
      else case mget (pj_Configs plugins) pluginID of
        None \<Rightarrow> Inl (Msg (pluginID @ '' must be enabled''))
      | Some item \<Rightarrow>
          if pp_Enabled item \<noteq> Some True then Inl (Msg (pluginID @ '' must be enabled''))
          else if pp_Priority item \<noteq> requiredPluginPriority
          then Inl (Msg (pluginID @ '' priority must be '' @ Itoa requiredPluginPriority))
          else case find (\<lambda>(other, configured). other \<noteq> pluginID \<and> pp_Enabled configured = Some True) (pj_Configs plugins) of
            Some (other, _) \<Rightarrow> Inl (Msg (pluginID @ '' must be the sole enabled scheduler plugin; disable '' @ other))
          | None \<Rightarrow> Inr ())"

definition newSchedulerError :: "string \<Rightarrow> string \<Rightarrow> go_error" where
  "newSchedulerError code message = Wire code message False 0"

definition rateLimitSeconds :: "duration \<Rightarrow> int" where
  "rateLimitSeconds wait = max 1 (go_quo (wrap64 (wait + Second - 1)) Second)"

definition newRateLimitedError :: "duration \<Rightarrow> go_error" where
  "newRateLimitedError wait =
     Wire ''zai_rate_limited''
       (''managed Z.ai accounts are briefly request-rate limited; retry in '' @ Itoa (rateLimitSeconds wait) @ ''s'')
       True 429"

definition isZAICompatibilityProvider :: "string \<Rightarrow> bool" where
  "isZAICompatibilityProvider raw \<longleftrightarrow>
     (let provider = ToLower (TrimSpace raw)
      in provider = zaiCompatName \<or> provider = ''openai-compatible-'' @ zaiCompatName)"

definition recognizedZAICandidate :: "golib \<Rightarrow> candidate \<Rightarrow> bool" where
  "recognizedZAICandidate lib c \<longleftrightarrow>
     (let baseURL = mget_or [] (ca_Attributes c) ''base_url''
      in recognizedBaseURL lib baseURL zaiAnthropicBaseURL \<or> recognizedBaseURL lib baseURL zaiOpenAIBaseURL \<or>
         EqualFold (TrimSpace (mget_or [] (ca_Attributes c) ''compat_name'')) zaiCompatName \<or>
         isZAICompatibilityProvider (ca_Provider c) \<or>
         isZAICompatibilityProvider (mget_or [] (ca_Attributes c) ''provider_key''))"

definition schedulerScope :: "pickRequest \<Rightarrow> string" where
  "schedulerScope req =
     Join (map (\<lambda>p. ToLower (TrimSpace p)) (ToLower (TrimSpace (pr_Provider req)) # pr_Providers req)) '','' @
     NUL @ ToLower (TrimSpace (pr_Model req))"

fun firstValue :: "string list \<Rightarrow> string option" where
  "firstValue [] = None"
| "firstValue (v # vs) = (if TrimSpace v \<noteq> [] then Some (TrimSpace v) else firstValue vs)"

fun headerSession :: "string \<Rightarrow> (string, string list) gomap \<Rightarrow> string option" where
  "headerSession name [] = None"
| "headerSession name ((key, values) # rest) =
     (if \<not> EqualFold (TrimSpace key) name then headerSession name rest
      else case firstValue values of Some v \<Rightarrow> Some v | None \<Rightarrow> headerSession name rest)"

fun sessionLoop :: "(string, string list) gomap \<Rightarrow> string list \<Rightarrow> string" where
  "sessionLoop headers [] = []"
| "sessionLoop headers (name # names) =
     (case headerSession name headers of Some v \<Rightarrow> v | None \<Rightarrow> sessionLoop headers names)"

definition schedulerSessionID :: "(string, string list) gomap \<Rightarrow> string" where
  "schedulerSessionID headers = sessionLoop headers sessionHeaderNames"

definition candidateIdentity :: "runtimeSnapshot \<Rightarrow> candidate \<Rightarrow> string" where
  "candidateIdentity sn c = mget_or [] (rs_byAuthID sn) (TrimSpace (ca_ID c))"

definition accountAt :: "runtimeSnapshot \<Rightarrow> string \<Rightarrow> account" where
  "accountAt sn identity = mget_or zero_account (rs_byIdentity sn) identity"

text \<open>
  The first loop of \<open>pick\<close>: it counts managed and impaired candidates and refreshes
  capacities on the way; \<open>None\<close> stands for the early return on an unmanaged Z.ai candidate.
\<close>

fun pickScan :: "golib \<Rightarrow> gotime \<Rightarrow> candidate list \<Rightarrow> nat \<Rightarrow> nat \<Rightarrow> runtimeSnapshot \<Rightarrow> (nat \<times> nat) option \<times> runtimeSnapshot" where
  "pickScan lib now [] managed impaired sn = (Some (managed, impaired), sn)"
| "pickScan lib now (c # rest) managed impaired sn =
     (let identity = candidateIdentity sn c in
      if identity = [] then
        (if recognizedZAICandidate lib c then (None, sn) else pickScan lib now rest managed impaired sn)
      else
        let (state, sn') = refreshCapacityLocked identity now sn;
            bad = (ah_Status (assess state (accountAt sn' identity) now) \<noteq> healthHealthy)
        in pickScan lib now rest (managed + 1) (if bad then impaired + 1 else impaired) sn')"

text \<open>The second loop: the healthy candidates and the earliest end of a throttle.\<close>

fun pickHealthy :: "gotime \<Rightarrow> runtimeSnapshot \<Rightarrow> candidate list \<Rightarrow> candidate list \<Rightarrow> gotime \<Rightarrow> candidate list \<times> gotime" where
  "pickHealthy now sn [] healthy throttledUntil = (healthy, throttledUntil)"
| "pickHealthy now sn (c # rest) healthy throttledUntil =
     (let identity = candidateIdentity sn c in
      if identity = [] then pickHealthy now sn rest healthy throttledUntil
      else
        let health = assess (mget_or zero_healthState (rs_Health sn) identity) (accountAt sn identity) now
        in if ah_Status health = healthHealthy then pickHealthy now sn rest (healthy @ [c]) throttledUntil
           else if ah_Status health = healthThrottled then
             pickHealthy now sn rest healthy
               (if IsZero throttledUntil \<or> Before (ah_ResetAt health) throttledUntil then ah_ResetAt health else throttledUntil)
           else pickHealthy now sn rest healthy throttledUntil)"

definition pickChoose :: "pickRequest \<Rightarrow> candidate list \<Rightarrow> runtimeSnapshot \<Rightarrow> pickResponse \<times> runtimeSnapshot" where
  "pickChoose req healthy sn =
     (let scope = schedulerScope req; sessionID = schedulerSessionID (pr_Headers req) in
      if sessionID \<noteq> [] then
        (\<lparr>resp_Handled = True, resp_AuthID = routing_sticky scope sessionID healthy, resp_DelegateBuiltin = []\<rparr>, sn)
      else
        let (selected, cursors) = routing_next scope healthy (rs_Routing sn)
        in (\<lparr>resp_Handled = True, resp_AuthID = selected, resp_DelegateBuiltin = []\<rparr>, sn\<lparr>rs_Routing := cursors\<rparr>))"

definition pick :: "golib \<Rightarrow> gotime \<Rightarrow> pickRequest \<Rightarrow> pluginRuntime \<Rightarrow> pickResponse result \<times> pluginRuntime" where
  "pick lib now req rt =
     (case rt_snapshot rt of
        None \<Rightarrow> (Inl (newSchedulerError ''zai_not_configured'' ''Z.ai scheduler is not configured''), rt)
      | Some sn \<Rightarrow>
          if rt_stopped rt then (Inl (newSchedulerError ''zai_not_configured'' ''Z.ai scheduler is not configured''), rt)
          else
            let (counts, sn1) = pickScan lib now (pr_Candidates req) 0 0 sn;
                rt1 = rt\<lparr>rt_snapshot := Some sn1\<rparr>
            in case counts of
                 None \<Rightarrow>
                   (Inl (newSchedulerError ''zai_unmanaged_candidate''
                      ''recognized Z.ai credential is absent from the validated account snapshot''), rt1)
               | Some (managedCount, impairedCount) \<Rightarrow>
                   if managedCount = 0 then (Inr zero_pickResponse, rt1)
                   else if impairedCount = 0 then
                     (Inr \<lparr>resp_Handled = True, resp_AuthID = [], resp_DelegateBuiltin = ''round-robin''\<rparr>, rt1)
                   else
                     let (healthy, throttledUntil) = pickHealthy now sn1 (pr_Candidates req) [] 0
                     in if healthy = [] \<and> \<not> IsZero throttledUntil
                        then (Inl (newRateLimitedError (time_Sub throttledUntil now)), rt1)
                        else if healthy = [] then
                          (Inl (newSchedulerError ''zai_no_capacity'' ''no healthy managed Z.ai capacity remains''), rt1)
                        else
                          let (resp, sn2) = pickChoose req healthy sn1
                          in (Inr resp, rt\<lparr>rt_snapshot := Some sn2\<rparr>))"

section \<open>What a pick is meant to answer\<close>

text \<open>The health of a candidate's account once its capacity is up to date.\<close>

definition candidateHealth :: "gotime \<Rightarrow> runtimeSnapshot \<Rightarrow> candidate \<Rightarrow> accountHealth" where
  "candidateHealth now sn c =
     assess (fst (refreshCapacityLocked (candidateIdentity sn c) now sn)) (accountAt sn (candidateIdentity sn c)) now"

definition managedCandidates :: "runtimeSnapshot \<Rightarrow> candidate list \<Rightarrow> candidate list" where
  "managedCandidates sn cands = filter (\<lambda>c. candidateIdentity sn c \<noteq> []) cands"

definition withStatus :: "healthStatus \<Rightarrow> gotime \<Rightarrow> runtimeSnapshot \<Rightarrow> candidate list \<Rightarrow> candidate list" where
  "withStatus st now sn cands = filter (\<lambda>c. ah_Status (candidateHealth now sn c) = st) (managedCandidates sn cands)"

definition pickSpec :: "golib \<Rightarrow> gotime \<Rightarrow> pickRequest \<Rightarrow> runtimeSnapshot \<Rightarrow> pickResponse result" where
  "pickSpec lib now req sn =
     (let managed = managedCandidates sn (pr_Candidates req);
          healthy = withStatus healthHealthy now sn (pr_Candidates req);
          throttled = withStatus healthThrottled now sn (pr_Candidates req)
      in if \<exists>c \<in> set (pr_Candidates req). candidateIdentity sn c = [] \<and> recognizedZAICandidate lib c
         then Inl (newSchedulerError ''zai_unmanaged_candidate''
                ''recognized Z.ai credential is absent from the validated account snapshot'')
         else if managed = [] then Inr zero_pickResponse
         else if healthy = managed then
           Inr \<lparr>resp_Handled = True, resp_AuthID = [], resp_DelegateBuiltin = ''round-robin''\<rparr>
         else if healthy \<noteq> [] then Inr (fst (pickChoose req healthy sn))
         else if throttled \<noteq> [] then
           Inl (newRateLimitedError (time_Sub (Min ((\<lambda>c. ah_ResetAt (candidateHealth now sn c)) ` set throttled)) now))
         else Inl (newSchedulerError ''zai_no_capacity'' ''no healthy managed Z.ai capacity remains''))"

section \<open>The scheduler implements its specification\<close>

text \<open>Two snapshots that answer every health question alike at instant \<open>now\<close>.\<close>

definition same_view :: "gotime \<Rightarrow> runtimeSnapshot \<Rightarrow> runtimeSnapshot \<Rightarrow> bool" where
  "same_view now sn sn' \<longleftrightarrow> rs_byAuthID sn' = rs_byAuthID sn \<and> rs_byIdentity sn' = rs_byIdentity sn \<and>
     rs_Routing sn' = rs_Routing sn \<and>
     (\<forall>j. fst (refreshCapacityLocked j now sn') = fst (refreshCapacityLocked j now sn))"

text \<open>The stored health of an account is already the refreshed one.\<close>

definition settled :: "gotime \<Rightarrow> runtimeSnapshot \<Rightarrow> string \<Rightarrow> bool" where
  "settled now sn i \<longleftrightarrow> health_at sn i = fst (refreshCapacityLocked i now sn)"

lemma same_view_refl [simp]: "same_view now sn sn"
  by (simp add: same_view_def)

lemma same_view_trans: "same_view now a b \<Longrightarrow> same_view now b c \<Longrightarrow> same_view now a c"
  by (simp add: same_view_def)

lemma refresh_fst_cong:
  "health_at sn' j = health_at sn j \<Longrightarrow> rs_Quota sn' = rs_Quota sn \<Longrightarrow> rs_byIdentity sn' = rs_byIdentity sn \<Longrightarrow>
   rs_Config sn' = rs_Config sn \<Longrightarrow> fst (refreshCapacityLocked j now sn') = fst (refreshCapacityLocked j now sn)"
  by (simp add: refreshCapacityLocked_def Let_def split: option.splits)

lemma same_view_refresh: "same_view now sn (snd (refreshCapacityLocked i now sn))"
proof -
  have "fst (refreshCapacityLocked j now (snd (refreshCapacityLocked i now sn))) = fst (refreshCapacityLocked j now sn)" for j
  proof (cases "j = i")
    case False
    then show ?thesis by (intro refresh_fst_cong) (simp_all add: refreshCapacity_other)
  qed (simp add: refreshCapacity_idem)
  then show ?thesis by (simp add: same_view_def)
qed

lemma settled_refresh: "settled now (snd (refreshCapacityLocked i now sn)) i"
  by (simp add: settled_def refreshCapacity_idem refreshCapacity_fst [symmetric])

lemma settled_kept:
  assumes "settled now sn j"
  shows "settled now (snd (refreshCapacityLocked i now sn)) j"
proof (cases "j = i")
  case False
  have "fst (refreshCapacityLocked j now (snd (refreshCapacityLocked i now sn))) = fst (refreshCapacityLocked j now sn)"
    using same_view_refresh by (simp add: same_view_def)
  with assms False show ?thesis by (simp add: settled_def refreshCapacity_other)
qed (simp add: settled_refresh)

lemma same_view_candidate:
  assumes "same_view now sn sn'"
  shows "candidateIdentity sn' = candidateIdentity sn" "accountAt sn' = accountAt sn"
    "candidateHealth now sn' = candidateHealth now sn" "managedCandidates sn' = managedCandidates sn"
    "withStatus st now sn' = withStatus st now sn"
proof -
  show ci: "candidateIdentity sn' = candidateIdentity sn" using assms by (simp add: candidateIdentity_def same_view_def fun_eq_iff)
  show aa: "accountAt sn' = accountAt sn" using assms by (simp add: accountAt_def same_view_def fun_eq_iff)
  show ch: "candidateHealth now sn' = candidateHealth now sn"
    using assms by (simp add: candidateHealth_def ci aa fun_eq_iff same_view_def)
  show mc: "managedCandidates sn' = managedCandidates sn" by (simp add: managedCandidates_def ci fun_eq_iff)
  show "withStatus st now sn' = withStatus st now sn" by (simp add: withStatus_def ch mc fun_eq_iff)
qed

abbreviation unmanaged :: "golib \<Rightarrow> runtimeSnapshot \<Rightarrow> candidate \<Rightarrow> bool" where
  "unmanaged lib sn c \<equiv> candidateIdentity sn c = [] \<and> recognizedZAICandidate lib c"

definition impairedCandidates :: "gotime \<Rightarrow> runtimeSnapshot \<Rightarrow> candidate list \<Rightarrow> candidate list" where
  "impairedCandidates now sn cands =
     filter (\<lambda>c. ah_Status (candidateHealth now sn c) \<noteq> healthHealthy) (managedCandidates sn cands)"

lemma pickScan_spec:
  assumes "pickScan lib now cands m k sn = (r, sn')"
  shows "same_view now sn sn' \<and> (\<forall>j. settled now sn j \<longrightarrow> settled now sn' j) \<and>
    (if \<exists>c \<in> set cands. unmanaged lib sn c then r = None
     else r = Some (m + length (managedCandidates sn cands), k + length (impairedCandidates now sn cands)) \<and>
          (\<forall>c \<in> set (managedCandidates sn cands). settled now sn' (candidateIdentity sn c)))"
  using assms
proof (induction lib now cands m k sn rule: pickScan.induct)
  case (1 lib now m k sn)
  then show ?case by (auto simp: managedCandidates_def impairedCandidates_def)
next
  case (2 lib now c rest m k sn)
  let ?i = "candidateIdentity sn c"
  show ?case
  proof (cases "?i = []")
    case True
    show ?thesis
    proof (cases "recognizedZAICandidate lib c")
      case rec: True
      then show ?thesis using True "2.prems" by auto
    next
      case False
      then have "pickScan lib now rest m k sn = (r, sn')" using True "2.prems" by simp
      from "2.IH"(1) [OF refl True False this] show ?thesis
        using True False by (simp add: managedCandidates_def impairedCandidates_def)
    qed
  next
    case False
    define sn1 where "sn1 = snd (refreshCapacityLocked ?i now sn)"
    have sv: "same_view now sn sn1" unfolding sn1_def by (rule same_view_refresh)
    note sc = same_view_candidate [OF sv]
    define k' where "k' = (if ah_Status (candidateHealth now sn c) \<noteq> healthHealthy then k + 1 else k)"
    have step: "pickScan lib now rest (m + 1) k' sn1 = (r, sn')"
      using "2.prems" False sc(2) by (simp add: Let_def split_beta sn1_def k'_def candidateHealth_def)
    have ih: "same_view now sn1 sn' \<and> (\<forall>j. settled now sn1 j \<longrightarrow> settled now sn' j) \<and>
      (if \<exists>c \<in> set rest. unmanaged lib sn1 c then r = None
       else r = Some (m + 1 + length (managedCandidates sn1 rest), k' + length (impairedCandidates now sn1 rest)) \<and>
          (\<forall>c \<in> set (managedCandidates sn1 rest). settled now sn' (candidateIdentity sn1 c)))"
    proof -
      have k': "(if ah_Status (assess (fst (refreshCapacityLocked ?i now sn))
          (accountAt sn1 ?i) now) \<noteq> healthHealthy then k + 1 else k) = k'"
        using sc(2) by (simp add: k'_def candidateHealth_def)
      show ?thesis
        using "2.IH"(2) [OF refl False refl prod.collapse refl, unfolded sn1_def [symmetric] k', OF step] .
    qed
    have set1: "settled now sn' ?i" using ih settled_refresh by (simp add: sn1_def)
    have kept: "\<forall>j. settled now sn j \<longrightarrow> settled now sn' j" using ih settled_kept unfolding sn1_def by blast
    have imp: "impairedCandidates now sn1 = impairedCandidates now sn" by (simp add: impairedCandidates_def sc fun_eq_iff)
    have cons: "managedCandidates sn (c # rest) = c # managedCandidates sn rest"
      "impairedCandidates now sn (c # rest) = (if ah_Status (candidateHealth now sn c) \<noteq> healthHealthy
         then c # impairedCandidates now sn rest else impairedCandidates now sn rest)"
      using False by (simp_all add: managedCandidates_def impairedCandidates_def)
    note ih' = ih [unfolded sc imp]
    show ?thesis
    proof (cases "\<exists>c \<in> set rest. unmanaged lib sn c")
      case True
      then show ?thesis using ih' kept same_view_trans [OF sv] by auto
    next
      case none: False
      then have r: "r = Some (m + 1 + length (managedCandidates sn rest), k' + length (impairedCandidates now sn rest))"
        and st: "\<forall>c \<in> set (managedCandidates sn rest). settled now sn' (candidateIdentity sn c)"
        using ih' by auto
      have "\<not> (\<exists>c \<in> set (c # rest). unmanaged lib sn c)" using none False by auto
      then show ?thesis using r st set1 kept ih' same_view_trans [OF sv] by (simp add: cons k'_def)
    qed
  qed
qed

text \<open>The running minimum of the throttle ends, with zero for none.\<close>

definition earlier :: "gotime \<Rightarrow> gotime \<Rightarrow> gotime" where
  "earlier t r = (if t = 0 \<or> r < t then r else t)"

lemma foldl_earlier_pos:
  "0 < t \<Longrightarrow> \<forall>r \<in> set rs. 0 < r \<Longrightarrow> foldl earlier t rs = Min (insert t (set rs))"
proof (induction rs arbitrary: t)
  case (Cons r rs)
  have "earlier t r = min t r" "0 < min t r" using Cons.prems by (auto simp: earlier_def)
  then have "foldl earlier t (r # rs) = Min (insert (min t r) (set rs))" using Cons by simp
  then show ?case by (cases "rs = []") (simp_all add: min.assoc)
qed simp

lemma foldl_earlier:
  assumes "\<forall>r \<in> set rs. 0 < r"
  shows "foldl earlier 0 rs = (if rs = [] then 0 else Min (set rs))"
proof (cases rs)
  case (Cons r rs')
  have "earlier 0 r = r" by (simp add: earlier_def)
  then show ?thesis using Cons assms foldl_earlier_pos [of r rs'] by simp
qed simp

lemma pickHealthy_spec:
  assumes "\<forall>c \<in> set (managedCandidates sn cands). settled now sn (candidateIdentity sn c)"
  shows "pickHealthy now sn cands h t =
    (h @ withStatus healthHealthy now sn cands,
     foldl earlier t (map (\<lambda>c. ah_ResetAt (candidateHealth now sn c)) (withStatus healthThrottled now sn cands)))"
  using assms
proof (induction now sn cands h t rule: pickHealthy.induct)
  case (2 now sn c rest h t)
  show ?case
  proof (cases "candidateIdentity sn c = []")
    case True
    with "2.IH"(1) [OF refl True] "2.prems" show ?thesis by (simp add: withStatus_def managedCandidates_def)
  next
    case False
    have eq: "assess (health_at sn (candidateIdentity sn c)) (accountAt sn (candidateIdentity sn c)) now = candidateHealth now sn c"
      using "2.prems" False by (simp add: managedCandidates_def settled_def candidateHealth_def)
    have rest: "\<forall>c \<in> set (managedCandidates sn rest). settled now sn (candidateIdentity sn c)"
      using "2.prems" by (auto simp: managedCandidates_def)
    have w: "withStatus st now sn (c # rest) =
        (if ah_Status (candidateHealth now sn c) = st then c # withStatus st now sn rest else withStatus st now sn rest)" for st
      using False by (simp add: withStatus_def managedCandidates_def)
    consider (h) "ah_Status (candidateHealth now sn c) = healthHealthy"
      | (t) "ah_Status (candidateHealth now sn c) = healthThrottled"
      | (o) "ah_Status (candidateHealth now sn c) \<noteq> healthHealthy" "ah_Status (candidateHealth now sn c) \<noteq> healthThrottled"
      by blast
    then show ?thesis
    proof cases
      case h
      then show ?thesis using "2.IH"(2) [OF refl False eq [symmetric]] eq rest False by (simp add: w)
    next
      case t
      then show ?thesis using "2.IH"(3) [OF refl False eq [symmetric]] eq rest False by (simp add: w earlier_def)
    next
      case o
      then show ?thesis using "2.IH"(4) [OF refl False eq [symmetric]] eq rest False by (simp add: w)
    qed
  qed
qed (simp add: withStatus_def managedCandidates_def)

lemma throttled_reset_pos:
  assumes "c \<in> set (withStatus healthThrottled now sn cands)" "0 \<le> now"
  shows "now < ah_ResetAt (candidateHealth now sn c)"
  using assms assess_throttled_reset by (fastforce simp: withStatus_def candidateHealth_def)

lemma impaired_nil_iff:
  "impairedCandidates now sn cands = [] \<longleftrightarrow> withStatus healthHealthy now sn cands = managedCandidates sn cands"
  by (simp add: impairedCandidates_def withStatus_def filter_empty_conv filter_id_conv)

lemma pickChoose_routing: "rs_Routing a = rs_Routing b \<Longrightarrow> fst (pickChoose req h a) = fst (pickChoose req h b)"
  by (simp add: pickChoose_def Let_def split_beta)

lemma pick_eq_spec:
  assumes live: "rt_snapshot rt = Some sn" "\<not> rt_stopped rt" and "0 \<le> now"
  shows "fst (pick lib now req rt) = pickSpec lib now req sn"
proof -
  obtain r sn1 where sc: "pickScan lib now (pr_Candidates req) 0 0 sn = (r, sn1)" by fastforce
  note sp = pickScan_spec [OF sc]
  let ?cs = "pr_Candidates req"
  have sv: "same_view now sn sn1" using sp by blast
  note eqs = same_view_candidate [OF sv]
  show ?thesis
  proof (cases "\<exists>c \<in> set ?cs. unmanaged lib sn c")
    case True
    then have "r = None" using sp by simp
    then show ?thesis using True live sc by (simp add: pick_def pickSpec_def Let_def)
  next
    case False
    then have r: "r = Some (length (managedCandidates sn ?cs), length (impairedCandidates now sn ?cs))"
      and st: "\<forall>c \<in> set (managedCandidates sn1 ?cs). settled now sn1 (candidateIdentity sn1 c)"
      using sp eqs by auto
    define T where "T = map (\<lambda>c. ah_ResetAt (candidateHealth now sn c)) (withStatus healthThrottled now sn ?cs)"
    have Tpos: "\<forall>x \<in> set T. 0 < x"
      using throttled_reset_pos assms(3) unfolding T_def by fastforce
    have ph: "pickHealthy now sn1 ?cs [] 0 =
        (withStatus healthHealthy now sn ?cs, if T = [] then 0 else Min (set T))"
      using pickHealthy_spec [OF st, of "[]" 0] foldl_earlier [OF Tpos] eqs by (simp add: T_def)
    have Tmin: "T \<noteq> [] \<Longrightarrow> Min (set T) \<noteq> 0" using Tpos by (metis List.finite_set Min_in less_irrefl set_empty)
    have ch: "fst (pickChoose req h sn1) = fst (pickChoose req h sn)" for h
      using sv by (intro pickChoose_routing) (simp add: same_view_def)
    have Tn: "T = [] \<longleftrightarrow> withStatus healthThrottled now sn ?cs = []" by (simp add: T_def)
    have Ts: "set T = (\<lambda>c. ah_ResetAt (candidateHealth now sn c)) ` set (withStatus healthThrottled now sn ?cs)"
      by (simp add: T_def)
    show ?thesis
      using live Tmin unfolding pick_def pickSpec_def Let_def if_not_P [OF False]
      by (simp add: sc r ph ch split_beta impaired_nil_iff Tn Ts)
  qed
qed

section \<open>Routing\<close>

lemma stickyLoop_in: "stickyLoop f a cs \<in> insert a (set cs)"
  by (induction f a cs rule: stickyLoop.induct) auto

lemma stickyLoop_max: "c \<in> insert a (set cs) \<Longrightarrow> f c \<le> f (stickyLoop f a cs)"
proof (induction f a cs arbitrary: c rule: stickyLoop.induct)
  case (2 f a x cs)
  show ?case
  proof (cases "f x > f a")
    case True
    then show ?thesis using "2.IH"(1) [OF True, of c] "2.IH"(1) [OF True, of x] "2.prems" by fastforce
  next
    case False
    then show ?thesis using "2.IH"(2) [OF False, of c] "2.IH"(2) [OF False, of a] "2.prems" by fastforce
  qed
qed simp

lemma stickyLoop_improves: "stickyLoop f a cs = a \<or> f a < f (stickyLoop f a cs)"
proof (induction f a cs rule: stickyLoop.induct)
  case (2 f a x cs)
  then show ?case by (cases "f x > f a") auto
qed simp

lemma stickyLoop_skip: "f a < f (stickyLoop f h t) \<Longrightarrow> stickyLoop f a (h # t) = stickyLoop f h t"
proof (induction t arbitrary: h a)
  case (Cons x t)
  show ?case
  proof (cases "f h > f a")
    case False
    show ?thesis
    proof (cases "f x > f h")
      case True
      then have "stickyLoop f a (x # t) = stickyLoop f x t" using Cons.IH [of a x] Cons.prems by simp
      with True False show ?thesis by simp
    next
      case le: False
      then have "stickyLoop f a (h # t) = stickyLoop f h t" using Cons.IH [of a h] Cons.prems by simp
      with le False show ?thesis by simp
    qed
  qed simp
qed auto

text \<open>Leaving out candidates that were not chosen does not change the choice.\<close>

lemma stickyLoop_filter:
  assumes "P (stickyLoop f a cs)"
  shows "if P a then stickyLoop f a (filter P cs) = stickyLoop f a cs
         else filter P cs \<noteq> [] \<and> stickyLoop f (hd (filter P cs)) (tl (filter P cs)) = stickyLoop f a cs"
  using assms
proof (induction cs arbitrary: a)
  case (Cons c cs)
  have skip: "stickyLoop f b F = stickyLoop f (hd F) (tl F)" if "F \<noteq> []" "f b < f (stickyLoop f (hd F) (tl F))" for b F
    using stickyLoop_skip [of f b "hd F" "tl F"] that by (metis list.collapse)
  show ?case
  proof (cases "f c > f a")
    case True
    have fc: "f a < f (stickyLoop f c cs)" using stickyLoop_max [of c c cs f] True by simp
    show ?thesis using Cons.IH [of c] Cons.prems True skip [of "filter P cs" a] fc by (auto split: if_splits)
  next
    case False
    then have r: "stickyLoop f a (c # cs) = stickyLoop f a cs" by simp
    show ?thesis
    proof (cases "P a")
      case True
      then show ?thesis using Cons.IH [of a] Cons.prems False by auto
    next
      case na: False
      then have "stickyLoop f a cs \<noteq> a" using Cons.prems r by auto
      then have "f c < f (stickyLoop f a cs)" using stickyLoop_improves [of f a cs] False by auto
      then show ?thesis using Cons.IH [of a] Cons.prems na r skip [of "filter P cs" c] by auto
    qed
  qed
qed simp

lemma routing_sticky_filter:
  assumes "cands \<noteq> []" "ca_ID chosen = routing_sticky scope sid cands"
    and "chosen = stickyLoop (stickyScore scope sid) (hd cands) (tl cands)" "P chosen"
  shows "filter P cands \<noteq> [] \<and> routing_sticky scope sid (filter P cands) = ca_ID chosen"
proof -
  obtain c cs where c: "cands = c # cs" using assms(1) by (cases cands) auto
  have "P (stickyLoop (stickyScore scope sid) c cs)" using assms(3,4) c by simp
  from stickyLoop_filter [of P, OF this] show ?thesis
    using c assms(3) by (auto simp: routing_sticky_def split: if_splits)
qed

text \<open>Consecutive picks of one scope.\<close>

fun routing_run :: "nat \<Rightarrow> string \<Rightarrow> candidate list \<Rightarrow> (string, 64 word) gomap \<Rightarrow> string list" where
  "routing_run 0 scope cands cursors = []"
| "routing_run (Suc n) scope cands cursors =
     (let (selected, cursors') = routing_next scope cands cursors
      in selected # routing_run n scope cands cursors')"

lemma routing_run_nth:
  assumes "cands \<noteq> []" "length cands < 2 ^ 64" "mget cursors scope = Some c" "unat c + n < 2 ^ 64" "k < n"
  shows "routing_run n scope cands cursors ! k = ca_ID (cands ! ((unat c + k) mod length cands))"
  using assms(3-5)
proof (induction n arbitrary: c cursors k)
  case (Suc n)
  have len: "unat (of_nat (length cands) :: 64 word) = length cands"
    using assms(2) by (simp add: unat_of_nat)
  have sel: "routing_next scope cands cursors = (ca_ID (cands ! (unat c mod length cands)), mput scope (c + 1) cursors)"
    using Suc.prems(1) by (simp add: routing_next_def Let_def mget_or_def unat_mod len)
  have succ: "unat (c + 1) = unat c + 1" using Suc.prems(2) by (simp add: unat_word_ariths)
  show ?case
  proof (cases k)
    case (Suc j)
    have "routing_run n scope cands (mput scope (c + 1) cursors) ! j = ca_ID (cands ! ((unat (c + 1) + j) mod length cands))"
      by (rule Suc.IH) (use Suc.prems Suc succ in auto)
    then show ?thesis using sel Suc succ by simp
  qed (simp add: sel)
qed simp

lemma length_routing_run [simp]: "length (routing_run n scope cands cursors) = n"
  by (induction n arbitrary: cursors) (auto split: prod.splits)

lemma routing_round:
  assumes "cands \<noteq> []" "length cands < 2 ^ 64" "mget cursors scope = Some c" "unat c + length cands < 2 ^ 64"
  shows "routing_run (length cands) scope cands cursors = rotate (unat c) (map ca_ID cands)"
proof (rule nth_equalityI)
  fix k
  assume "k < length (routing_run (length cands) scope cands cursors)"
  then have k: "k < length cands" by simp
  then have "rotate (unat c) (map ca_ID cands) ! k = ca_ID (cands ! ((unat c + k) mod length cands))"
    using assms(1) by (simp add: nth_rotate)
  then show "routing_run (length cands) scope cands cursors ! k = rotate (unat c) (map ca_ID cands) ! k"
    using routing_run_nth [OF assms k] by simp
qed simp

lemma length_mput: "length (mput k v m) = (if mget m k = None then Suc (length m) else length m)"
  by (induction m) auto

lemma routing_next_bound:
  assumes "length cursors \<le> maxRoutingScopes"
  shows "length (snd (routing_next scope cands cursors)) \<le> maxRoutingScopes"
  using assms by (auto simp: routing_next_def Let_def length_mput maxRoutingScopes_def)

section \<open>What a pick leaves behind\<close>

lemma pickChoose_frame:
  "rs_Health (snd (pickChoose req h sn)) = rs_Health sn" "rs_Quota (snd (pickChoose req h sn)) = rs_Quota sn"
  "rs_byAuthID (snd (pickChoose req h sn)) = rs_byAuthID sn" "rs_byIdentity (snd (pickChoose req h sn)) = rs_byIdentity sn"
  "rs_Generation (snd (pickChoose req h sn)) = rs_Generation sn" "rs_Store (snd (pickChoose req h sn)) = rs_Store sn"
  "rs_Accounts (snd (pickChoose req h sn)) = rs_Accounts sn" "rs_Config (snd (pickChoose req h sn)) = rs_Config sn"
  by (simp_all add: pickChoose_def Let_def split_beta)

text \<open>Only capacity fields and routing cursors may differ.\<close>

definition pick_frame :: "runtimeSnapshot \<Rightarrow> runtimeSnapshot \<Rightarrow> bool" where
  "pick_frame sn sn' \<longleftrightarrow> rs_Quota sn' = rs_Quota sn \<and> rs_byAuthID sn' = rs_byAuthID sn \<and> rs_byIdentity sn' = rs_byIdentity sn \<and>
     rs_Accounts sn' = rs_Accounts sn \<and> rs_Store sn' = rs_Store sn \<and> rs_Generation sn' = rs_Generation sn \<and>
     rs_Config sn' = rs_Config sn \<and>
     (\<forall>i. hs_SuspendedUntil (health_at sn' i) = hs_SuspendedUntil (health_at sn i) \<and>
          hs_ExhaustedUntil (health_at sn' i) = hs_ExhaustedUntil (health_at sn i) \<and>
          hs_ThrottledUntil (health_at sn' i) = hs_ThrottledUntil (health_at sn i) \<and>
          hs_ThrottleStreak (health_at sn' i) = hs_ThrottleStreak (health_at sn i))"

lemma pick_frame_refl [simp]: "pick_frame sn sn"
  by (simp add: pick_frame_def)

lemma pick_frame_trans: "pick_frame a b \<Longrightarrow> pick_frame b c \<Longrightarrow> pick_frame a c"
  by (simp add: pick_frame_def)

lemma pick_frame_refresh: "pick_frame sn (snd (refreshCapacityLocked i now sn))"
  by (simp add: pick_frame_def)

lemma pickScan_frame: "pick_frame sn (snd (pickScan lib now cands m k sn))"
proof (induction lib now cands m k sn rule: pickScan.induct)
  case (2 lib now c rest m k sn)
  show ?case
  proof (cases "candidateIdentity sn c = []")
    case True
    then show ?thesis using "2.IH"(1) [OF refl True] by simp
  next
    case False
    let ?p = "refreshCapacityLocked (candidateIdentity sn c) now sn"
    show ?thesis
      using "2.IH"(2) [OF refl False refl prod.collapse refl] False
        pick_frame_trans [OF pick_frame_refresh [of sn "candidateIdentity sn c" now]]
      by (simp add: Let_def split_beta)
  qed
qed simp

lemma pick_state:
  assumes "rt_snapshot rt = Some sn"
  shows "\<exists>sn'. snd (pick lib now req rt) = rt\<lparr>rt_snapshot := Some sn'\<rparr> \<and> pick_frame sn sn'"
proof -
  let ?sc = "pickScan lib now (pr_Candidates req) 0 0 sn"
  have f: "pick_frame sn (snd ?sc)" by (rule pickScan_frame)
  have c: "pick_frame sn (snd (pickChoose req h (snd ?sc)))" for h
    using f by (simp add: pick_frame_def pickChoose_frame)
  have same: "rt = rt\<lparr>rt_snapshot := Some sn\<rparr>" using assms by simp
  show ?thesis
  proof (cases "rt_stopped rt")
    case True
    then show ?thesis using assms same by (intro exI [of _ sn]) (simp add: pick_def)
  next
    case False
    then show ?thesis using assms f c
      by (auto simp: pick_def Let_def split_beta split: option.splits)
  qed
qed

lemma routing_choice_in:
  assumes "h \<noteq> []" "length h < 2 ^ 64"
  shows "\<exists>c \<in> set h. resp_AuthID (fst (pickChoose req h sn)) = ca_ID c"
proof -
  have len: "unat (of_nat (length h) :: 64 word) = length h" using assms(2) by (simp add: unat_of_nat)
  have "unat (w mod of_nat (length h) :: 64 word) < length h" for w
    using assms(1) by (simp add: unat_mod len)
  then have n: "\<exists>c \<in> set h. fst (routing_next scope h cs) = ca_ID c" for scope cs
    by (auto simp: routing_next_def Let_def intro!: bexI [OF _ nth_mem])
  obtain a as where "h = a # as" using assms(1) by (cases h) auto
  then have s: "\<exists>c \<in> set h. routing_sticky scope sid h = ca_ID c" for scope sid
    using stickyLoop_in [of "stickyScore scope sid" a as] by (auto simp: routing_sticky_def)
  show ?thesis using n s by (simp add: pickChoose_def Let_def split_beta)
qed

section \<open>Properties\<close>

definition sampleCandidate :: candidate where
  "sampleCandidate = \<lparr>ca_ID = '' claude:apikey:1'', ca_Provider = ''claude'', ca_Attributes = []\<rparr>"

definition sampleRequest :: pickRequest where
  "sampleRequest = \<lparr>pr_Provider = ''claude'', pr_Providers = [], pr_Model = ''glm-5.3'', pr_Headers = [], pr_Candidates = [sampleCandidate]\<rparr>"

text \<open>
  C1. The scheduler answers what its specification says, in all six cases: an unmanaged Z.ai
  candidate is an error, no managed candidate is declined, a fully healthy pool is delegated to
  the host's round-robin, a degraded pool gets one of the healthy candidates, a pool that is only
  throttled a retryable 429 with the shortest wait, and an exhausted pool a hard error. A pick
  leaves all quotas, accounts and blocks as they were.
\<close>

theorem pick_refines_spec:
  assumes "rt_snapshot rt = Some sn" "\<not> rt_stopped rt" "0 \<le> now"
  shows "fst (pick lib now req rt) = pickSpec lib now req sn \<and>
    (\<exists>sn'. snd (pick lib now req rt) = rt\<lparr>rt_snapshot := Some sn'\<rparr> \<and> pick_frame sn sn')"
  using pick_eq_spec [OF assms] pick_state [OF assms(1)] by blast

theorem pick_refines_spec_witness:
  "fst (pick sampleLib sampleNow sampleRequest sampleRuntime) =
     Inr \<lparr>resp_Handled = True, resp_AuthID = [], resp_DelegateBuiltin = ''round-robin''\<rparr>"
proof -
  have "0 \<le> sampleNow" "pickSpec sampleLib sampleNow sampleRequest sampleSnapshot =
      Inr \<lparr>resp_Handled = True, resp_AuthID = [], resp_DelegateBuiltin = ''round-robin''\<rparr>" by code_simp+
  with pick_refines_spec [OF sample_valid(1,2)] show ?thesis by simp
qed

text \<open>
  The scheduler never selects an impaired account and never lets managed traffic slip to the
  host: an answer that names an auth ID names a managed candidate of the request whose account is
  healthy, and when a candidate is managed the answer is never "not handled".
\<close>

theorem picked_is_healthy:
  assumes "rt_snapshot rt = Some sn" "\<not> rt_stopped rt" "0 \<le> now" "length (pr_Candidates req) < 2 ^ 64"
    and "fst (pick lib now req rt) = Inr resp"
  shows "(resp_Handled resp \<longrightarrow> resp_DelegateBuiltin resp = ''round-robin'' \<or>
            (\<exists>c \<in> set (pr_Candidates req). resp_AuthID resp = ca_ID c \<and> candidateIdentity sn c \<noteq> [] \<and>
               ah_Status (candidateHealth now sn c) = healthHealthy)) \<and>
         (managedCandidates sn (pr_Candidates req) \<noteq> [] \<longrightarrow> resp_Handled resp)"
proof -
  define h where "h = withStatus healthHealthy now sn (pr_Candidates req)"
  have spec: "pickSpec lib now req sn = Inr resp" using pick_eq_spec [OF assms(1-3)] assms(5) by simp
  have len: "length h < 2 ^ 64"
    using assms(4) order_trans [OF length_filter_le length_filter_le]
    unfolding h_def withStatus_def managedCandidates_def by (rule order_le_less_trans [rotated])
  have sub: "c \<in> set (pr_Candidates req) \<and> candidateIdentity sn c \<noteq> [] \<and> ah_Status (candidateHealth now sn c) = healthHealthy"
    if "c \<in> set h" for c using that by (auto simp: h_def withStatus_def managedCandidates_def)
  consider "managedCandidates sn (pr_Candidates req) = []" "resp = zero_pickResponse"
    | "resp = \<lparr>resp_Handled = True, resp_AuthID = [], resp_DelegateBuiltin = ''round-robin''\<rparr>"
    | "h \<noteq> []" "resp = fst (pickChoose req h sn)"
    using spec unfolding pickSpec_def Let_def h_def [symmetric] by (auto split: if_splits)
  then show ?thesis
  proof cases
    case 3
    moreover obtain c where "c \<in> set h" "resp_AuthID resp = ca_ID c" using routing_choice_in [OF 3(1) len] 3(2) by auto
    moreover have "resp_Handled (fst (pickChoose req h sn))" by (simp add: pickChoose_def Let_def split_beta)
    ultimately show ?thesis using sub by auto
  qed (auto simp: zero_pickResponse_def)
qed

definition blockedRuntime :: pluginRuntime where
  "blockedRuntime = sampleRuntime\<lparr>rt_snapshot := Some (sampleSnapshot\<lparr>
     rs_byAuthID := [(''claude:apikey:1'', sampleIdentity), (''claude:apikey:2'', replicate 64 (CHR ''b''))],
     rs_Health := [(sampleIdentity, zero_healthState), (replicate 64 (CHR ''b''), zero_healthState\<lparr>hs_SuspendedUntil := sampleNow + Hour\<rparr>)]\<rparr>)\<rparr>"

definition twoCandidates :: pickRequest where
  "twoCandidates = sampleRequest\<lparr>pr_Candidates := [\<lparr>ca_ID = ''claude:apikey:2'', ca_Provider = ''claude'', ca_Attributes = []\<rparr>, sampleCandidate]\<rparr>"

theorem picked_is_healthy_witness:
  "fst (pick sampleLib sampleNow twoCandidates blockedRuntime) =
     Inr \<lparr>resp_Handled = True, resp_AuthID = '' claude:apikey:1'', resp_DelegateBuiltin = []\<rparr> \<and>
   (\<exists>c \<in> set (pr_Candidates twoCandidates). '' claude:apikey:1'' = ca_ID c \<and>
      ah_Status (candidateHealth sampleNow (the (rt_snapshot blockedRuntime)) c) = healthHealthy)"
proof -
  have p: "fst (pick sampleLib sampleNow twoCandidates blockedRuntime) =
      Inr \<lparr>resp_Handled = True, resp_AuthID = '' claude:apikey:1'', resp_DelegateBuiltin = []\<rparr>" by code_simp
  have s: "rt_snapshot blockedRuntime = Some (the (rt_snapshot blockedRuntime))" "\<not> rt_stopped blockedRuntime" "0 \<le> sampleNow"
    "length (pr_Candidates twoCandidates) < 2 ^ 64"
    by (simp add: blockedRuntime_def, code_simp, code_simp, simp add: twoCandidates_def)
  from picked_is_healthy [OF s p] p show ?thesis by auto
qed

text \<open>
  C40. Round-robin is fair: as many consecutive picks of one scope as there are candidates choose
  every candidate once, in order, starting at the cursor.
\<close>

theorem routing_round_fair:
  assumes "cands \<noteq> []" "length cands < 2 ^ 64" "mget cursors scope = Some c" "unat c + length cands < 2 ^ 64"
  shows "routing_run (length cands) scope cands cursors = rotate (unat c) (map ca_ID cands) \<and>
         mset (routing_run (length cands) scope cands cursors) = mset (map ca_ID cands)"
proof -
  have "mset (rotate n xs) = mset xs" for n and xs :: "string list"
    by (metis mset_append append_take_drop_id rotate_drop_take union_commute)
  then show ?thesis using routing_round [OF assms] by simp
qed

definition otherCandidate :: candidate where
  "otherCandidate = \<lparr>ca_ID = ''claude:apikey:2'', ca_Provider = ''claude'', ca_Attributes = []\<rparr>"

theorem routing_round_fair_witness:
  "routing_run (length [sampleCandidate, otherCandidate]) ''s'' [sampleCandidate, otherCandidate] [(''s'', 7)] =
     [''claude:apikey:2'', '' claude:apikey:1'']"
proof -
  have l: "length [sampleCandidate, otherCandidate] < 2 ^ 64" "unat (7 :: 64 word) + length [sampleCandidate, otherCandidate] < 2 ^ 64"
    "mget [(''s'', 7 :: 64 word)] ''s'' = Some 7" by simp_all
  have "rotate (unat (7 :: 64 word)) (map ca_ID [sampleCandidate, otherCandidate]) = [''claude:apikey:2'', '' claude:apikey:1'']"
    by (simp add: rotate_drop_take sampleCandidate_def otherCandidate_def numeral_2_eq_2 [symmetric])
  with routing_round_fair [OF list.distinct(2) l(1,3,2)] show ?thesis by metis
qed

text \<open>
  Session stickiness survives the loss of other candidates: leaving out candidates that were
  not chosen does not move the session.
\<close>

theorem sticky_is_stable:
  assumes "cands \<noteq> []" "chosen = stickyLoop (stickyScore scope sid) (hd cands) (tl cands)" "P chosen"
  shows "ca_ID chosen = routing_sticky scope sid cands \<and> routing_sticky scope sid (filter P cands) = ca_ID chosen"
proof -
  have c: "ca_ID chosen = routing_sticky scope sid cands" using assms(2) by (simp add: routing_sticky_def)
  from routing_sticky_filter [of _ _ _ _ P, OF assms(1) this assms(2,3)] c show ?thesis by simp
qed

theorem sticky_is_stable_witness:
  "routing_sticky ''s'' ''sid'' (filter (\<lambda>c. c = otherCandidate) [sampleCandidate, otherCandidate]) = ca_ID otherCandidate"
proof -
  have "otherCandidate = stickyLoop (stickyScore ''s'' ''sid'') (hd [sampleCandidate, otherCandidate]) (tl [sampleCandidate, otherCandidate])"
    by code_simp
  from sticky_is_stable [OF list.distinct(2) this, of "\<lambda>c. c = otherCandidate"] show ?thesis by blast
qed

text \<open>
  The wait a throttled caller is told is the shortest whole number of seconds that covers it.
\<close>

theorem retry_seconds_cover_wait:
  assumes "0 < wait" "wait \<le> maxResetHintFuture"
  shows "(rateLimitSeconds wait - 1) * Second < wait \<and> wait \<le> rateLimitSeconds wait * Second"
proof -
  have "is_int64 (wait + Second - 1)" by (rule is_int64I) (use assms in \<open>simp_all add: go_time\<close>)
  then have "rateLimitSeconds wait = max 1 ((wait + 999999999) div 1000000000)"
    using assms(1) by (simp add: rateLimitSeconds_def wrap64_id go_quo_nonneg go_time)
  moreover have "1 \<le> (wait + 999999999) div 1000000000" using assms(1) by simp
  ultimately have "rateLimitSeconds wait = (wait + 999999999) div 1000000000" by simp
  moreover define q where "q = (wait + 999999999) div 1000000000"
  moreover define r where "r = (wait + 999999999) mod 1000000000"
  ultimately have "rateLimitSeconds wait = q" "1000000000 * q + r = wait + 999999999" "0 \<le> r" "r < 1000000000" by simp_all
  then show ?thesis unfolding go_time by simp
qed

theorem retry_seconds_cover_wait_witness: "(rateLimitSeconds 4200000000 - 1) * Second < 4200000000 \<and> rateLimitSeconds 4200000000 = 5"
proof -
  have "rateLimitSeconds 4200000000 = 5" by code_simp
  with retry_seconds_cover_wait [of 4200000000] show ?thesis by (simp add: go_time)
qed

end
