(* ===== verification/Management.thy ===== *)
theory Management
  imports Settings Scheduler
begin

text \<open>
  Reconfiguration and the management interface of the Z.ai module:
  \<open>reconfigureWithAccounts\<close>, the status body and error redaction of
  \<^verbatim>\<open>internal/providers/zai/runtime.go\<close>, \<^verbatim>\<open>internal/providers/zai/management.go\<close> and the
  cooldown of \<^verbatim>\<open>internal/providers/zai/plugin.go\<close>. The operations on the store that these
  functions call are the programs of \<open>Settings\<close> and \<open>Persist\<close>; here their results are
  arguments, so that every result is covered.
\<close>

section \<open>Errors without secrets\<close>

definition redactSecret :: "string \<Rightarrow> string \<Rightarrow> string" where
  "redactSecret message raw =
     (let secret = TrimSpace raw in if secret \<noteq> [] then ReplaceAll message secret ''[redacted]'' else message)"

definition redactError :: "go_error \<Rightarrow> string list \<Rightarrow> go_error" where
  "redactError err secrets = Msg (foldl redactSecret (error_text err) secrets)"

definition cpaProviderKeys :: "cpaConfigProjection \<Rightarrow> string list" where
  "cpaProviderKeys cpa =
     map ck_APIKey (cpa_ClaudeKeys cpa) @ concat (map (\<lambda>c. map oe_APIKey (oc_APIKeyEntries c)) (cpa_OpenAICompatibility cpa))"

definition rejectWith :: "go_error \<Rightarrow> string list \<Rightarrow> pluginRuntime \<Rightarrow> unit result \<times> pluginRuntime" where
  "rejectWith err secrets rt = (let redacted = redactError err secrets in (Inl redacted, recordError redacted rt))"

section \<open>Reconfiguration\<close>

record staging =
  sg_accounts :: "account list"
  sg_quota :: "(string, accountQuotaState) gomap"
  sg_health :: "(string, accountHealthState) gomap"
  sg_byAuthID :: "(string, string) gomap"
  sg_byIdentity :: "(string, account) gomap"

definition stagedQuota :: "gotime \<Rightarrow> pluginConfig \<Rightarrow> persistedState \<Rightarrow> string \<Rightarrow> accountQuotaState" where
  "stagedQuota now cfg persisted identity =
     (let state = mget_or zero_accountQuotaState (ps_Accounts persisted) identity;
          state1 = (if IsZero (st_CompleteSince state) then state\<lparr>st_CompleteSince := now\<rparr> else state)
      in compact state1 now (cfg_StateRetention cfg))"

definition stageAccount :: "gotime \<Rightarrow> pluginConfig \<Rightarrow> persistedState \<Rightarrow> staging \<Rightarrow> nat \<Rightarrow> staging" where
  "stageAccount now cfg persisted sg i =
     (let identity = acc_Identity (sg_accounts sg ! i);
          state = stagedQuota now cfg persisted identity;
          accounts = (case st_Authoritative state of
              None \<Rightarrow> sg_accounts sg
            | Some a \<Rightarrow> snd (syncPlanFromUpstream (sg_accounts sg) identity (sn_Plan a)));
          item = accounts ! i;
          healthState = restorePersistedHealth (mget_or zero_persistedHealth (ps_Health persisted) identity) now
      in \<lparr>sg_accounts = accounts,
          sg_quota = mput identity state (sg_quota sg),
          sg_health = mput identity (quotaCapacityHealth healthState (view state now item cfg) (cfg_ThresholdPercent cfg)) (sg_health sg),
          sg_byAuthID = indexAccountAuthIDs (sg_byAuthID sg) item,
          sg_byIdentity = mput identity item (sg_byIdentity sg)\<rparr>)"

definition stageAccounts :: "gotime \<Rightarrow> pluginConfig \<Rightarrow> persistedState \<Rightarrow> account list \<Rightarrow> staging" where
  "stageAccounts now cfg persisted accounts =
     foldl (stageAccount now cfg persisted)
       \<lparr>sg_accounts = accounts, sg_quota = [], sg_health = [], sg_byAuthID = [], sg_byIdentity = []\<rparr>
       [0..<length accounts]"

definition stagedSnapshot :: "gotime \<Rightarrow> pluginConfig \<Rightarrow> persistedState \<Rightarrow> account list \<Rightarrow> account list \<Rightarrow> storeHandle \<Rightarrow> runtimeSnapshot" where
  "stagedSnapshot now cfg persisted baseAccounts accounts store =
     (let sg = stageAccounts now cfg persisted accounts
      in \<lparr>rs_Config = cfg, rs_BaseAccounts = baseAccounts, rs_Accounts = sg_accounts sg, rs_Store = Some store,
          rs_Quota = sg_quota sg, rs_Health = sg_health sg, rs_Routing = [], rs_byAuthID = sg_byAuthID sg,
          rs_byIdentity = sg_byIdentity sg, rs_Generation = 0\<rparr>)"

text \<open>
  \<open>opened\<close>, \<open>recovered\<close> and \<open>loaded\<close> are the results of \<open>newSecureStore\<close>,
  \<open>recoverSettings\<close> and the read of \<^verbatim>\<open>state.json\<close>; \<open>closeErr\<close> the error of closing a
  superseded store. The deferred close of the new store runs on every path that does not keep it.
\<close>

definition reconfigureWithAccounts ::
  "golib \<Rightarrow> gotime \<Rightarrow> storeHandle result \<Rightarrow> settingsFile result \<Rightarrow> persistedState result \<Rightarrow> go_error option \<Rightarrow>
     pluginConfig \<Rightarrow> cpaConfigProjection \<Rightarrow> string list \<Rightarrow> pluginRuntime \<Rightarrow> unit result \<times> pluginRuntime" where
  "reconfigureWithAccounts lib now opened recovered loaded closeErr cfg0 cpa providerKeys rt =
     (if rt_stopped rt then (Inl (Msg ''plugin is shutting down''), rt)
      else case opened of
        Inl err \<Rightarrow> rejectWith err providerKeys rt
      | Inr store \<Rightarrow>
          let staged =
            bindR (discoverAccounts lib cpa cfg0) (\<lambda>baseAccounts.
            bindR recovered (\<lambda>settings.
            bindR (applyStoredSettings baseAccounts settings) (\<lambda>accounts.
            bindR (applyStoredConfig cfg0 settings) (\<lambda>cfg.
            bindR loaded (\<lambda>persisted.
            bindR (validatePersistedStateAt persisted now) (\<lambda>_.
              Inr (stagedSnapshot now cfg persisted baseAccounts accounts store)))))))
          in case staged of
               Inl err \<Rightarrow> (case rejectWith err providerKeys rt of (r, rt1) \<Rightarrow> (r, closeStore (Some store) rt1))
             | Inr sn \<Rightarrow>
                 (case commitSnapshot closeErr sn rt of
                    (Inl err, rt1) \<Rightarrow> (Inl err, closeStore (Some store) rt1)
                  | (Inr _, rt1) \<Rightarrow> (Inr (), rt1)))"

text \<open>
  \<open>reconfigure\<close>: resolving the path and reading the host configuration are arguments, as is
  the resolved directory.
\<close>

definition reconfigure ::
  "golib \<Rightarrow> gotime \<Rightarrow> rawPluginConfig result \<Rightarrow> (string \<Rightarrow> string result) \<Rightarrow> (string \<Rightarrow> cpaConfigProjection result) \<Rightarrow>
     (string \<Rightarrow> string result) \<Rightarrow> (string \<Rightarrow> storeHandle result) \<Rightarrow> settingsFile result \<Rightarrow> persistedState result \<Rightarrow>
     go_error option \<Rightarrow> pluginRuntime \<Rightarrow> unit result \<times> pluginRuntime" where
  "reconfigure lib now decoded resolveCPAConfigPath loadCPAConfig resolveAuthDir open recovered loaded closeErr rt =
     (case bindR (parsePluginConfig decoded) (\<lambda>cfg.
           bindR (resolveCPAConfigPath (cfg_CPAConfigPath cfg)) (\<lambda>configPath.
           bindR (loadCPAConfig configPath) (\<lambda>cpa. Inr (cfg, cpa)))) of
        Inl err \<Rightarrow> rejectWith err [] rt
      | Inr (cfg, cpa) \<Rightarrow>
          let providerKeys = cpaProviderKeys cpa in
          case bindR (validateSchedulerDeployment (cpa_Plugins cpa)) (\<lambda>_. resolveAuthDir (cpa_AuthDir cpa)) of
            Inl err \<Rightarrow> rejectWith err providerKeys rt
          | Inr authDir \<Rightarrow>
              reconfigureWithAccounts lib now (open authDir) recovered loaded closeErr cfg cpa providerKeys rt)"

section \<open>Unblocking\<close>

definition selects :: "string \<Rightarrow> account \<Rightarrow> bool" where
  "selects selector item \<longleftrightarrow> EqualFold selector (acc_Name item) \<or> selector = acc_KeySuffix item"

definition unblockAccount :: "gotime \<Rightarrow> runtimeSnapshot \<Rightarrow> string \<Rightarrow> runtimeSnapshot" where
  "unblockAccount now sn identity =
     (let state = compact (mget_or zero_accountQuotaState (rs_Quota sn) identity) now (cfg_StateRetention (rs_Config sn));
          health = mget_or zero_healthState (rs_Health sn) identity;
          health1 = clearThrottle (health\<lparr>hs_ExhaustedUntil := 0, hs_ExhaustedReason := []\<rparr>);
          sn1 = sn\<lparr>rs_Quota := mput identity state (rs_Quota sn), rs_Health := mput identity health1 (rs_Health sn)\<rparr>
      in snd (refreshCapacityLocked identity now sn1))"

definition unblock :: "gotime \<Rightarrow> string \<Rightarrow> pluginRuntime \<Rightarrow> unit result \<times> pluginRuntime" where
  "unblock now accountName rt =
     (case rt_snapshot rt of
        None \<Rightarrow> (Inl (Msg ''plugin is not configured''), rt)
      | Some sn \<Rightarrow>
          if rt_stopped rt then (Inl (Msg ''plugin is not configured''), rt)
          else
            let selector = TrimSpace accountName;
                matches = map acc_Identity (filter (\<lambda>item. selector = [] \<or> selects selector item) (rs_Accounts sn))
            in if length matches = 0 then (Inl (Msg ''account does not match a configured account''), rt)
               else if selector \<noteq> [] \<and> length matches \<noteq> 1 then (Inl (Msg ''account selector is ambiguous''), rt)
               else (Inr (), rt\<lparr>rt_snapshot := Some (foldl (unblockAccount now) sn matches)\<rparr>))"

section \<open>Changing account settings\<close>

record accountConfigRequest =
  cr_Account :: string
  cr_Clear :: bool
  cr_Name :: string
  cr_Plan :: string
  cr_Disabled :: "bool option"
  cr_FiveHourCredits :: "int option"
  cr_WeeklyCredits :: "int option"
  cr_ThresholdPercent :: "int option"
  cr_PollingInterval :: string
  cr_AuthoritativeMaxAge :: string
  cr_Timeout :: string

definition zero_accountSetting :: accountSetting where
  "zero_accountSetting = \<lparr>as_Name = [], as_Plan = [], as_Disabled = None, as_FiveHourCredits = 0, as_WeeklyCredits = 0\<rparr>"

definition applySettingToAccount :: "accountSetting \<Rightarrow> account \<Rightarrow> account" where
  "applySettingToAccount setting item =
     (let a1 = (if as_Name setting \<noteq> [] then item\<lparr>acc_Name := as_Name setting\<rparr> else item);
          a2 = (if as_Plan setting = [] then a1
                else let b = a1\<lparr>acc_Plan := as_Plan setting, acc_planExplicit := True\<rparr> in
                  case mget planBuckets (as_Plan setting) of
                    None \<Rightarrow> b
                  | Some buckets \<Rightarrow> b\<lparr>acc_FiveHourCredits := cb_FiveHour buckets, acc_WeeklyCredits := cb_Weekly buckets\<rparr>);
          a3 = (case as_Disabled setting of None \<Rightarrow> a2 | Some d \<Rightarrow> a2\<lparr>acc_Disabled := d\<rparr>);
          a4 = (if as_FiveHourCredits setting > 0
                then a3\<lparr>acc_FiveHourCredits := as_FiveHourCredits setting, acc_fiveHourCreditsExplicit := True\<rparr> else a3)
      in if as_WeeklyCredits setting > 0
         then a4\<lparr>acc_WeeklyCredits := as_WeeklyCredits setting, acc_weeklyCreditsExplicit := True\<rparr> else a4)"

text \<open>The fractional digits of \<open>Duration.String\<close>, without trailing zeros.\<close>

definition fmtFrac :: "int \<Rightarrow> nat \<Rightarrow> string" where
  "fmtFrac v prec =
     (let ds = nat_digits (nat (v mod 10 ^ prec));
          padded = replicate (prec - length ds) (CHR ''0'') @ ds;
          digits = rev (dropWhile (\<lambda>c. c = CHR ''0'') (rev padded))
      in if digits = [] then [] else CHR ''.'' # digits)"

definition Duration_String :: "duration \<Rightarrow> string" where
  "Duration_String d =
     (let u = abs d; neg = (if d < 0 then ''-'' else [])
      in if u = 0 then ''0s''
         else if u < 1000 then neg @ Itoa u @ ''ns''
         else if u < 1000000 then neg @ Itoa (u div 1000) @ fmtFrac u 3 @ [CHR 0xC2, CHR 0xB5, CHR ''s'']
         else if u < Second then neg @ Itoa (u div 1000000) @ fmtFrac u 6 @ ''ms''
         else
           let secs = u div Second; mins = secs div 60; hours = mins div 60
           in neg @ (if hours > 0 then Itoa hours @ ''h'' else []) @ (if mins > 0 then Itoa (mins mod 60) @ ''m'' else []) @
              Itoa (secs mod 60) @ fmtFrac u 9 @ ''s'')"

text \<open>The new setting of the account.\<close>

definition requestedPlan :: "accountConfigRequest \<Rightarrow> accountSetting \<Rightarrow> accountSetting result" where
  "requestedPlan input setting =
     (if cr_Plan input = [] then Inr setting
      else let previousPlan = normalizePlan (as_Plan setting); plan = normalizePlan (cr_Plan input) in
        if plan = [] then Inl (Msg ''plan must be lite, pro, max, or custom'')
        else
          let s1 = setting\<lparr>as_Plan := plan\<rparr> in
          if plan \<noteq> ''custom'' \<and> plan \<noteq> previousPlan
          then Inr (s1\<lparr>as_FiveHourCredits := (if cr_FiveHourCredits input = None then 0 else as_FiveHourCredits s1),
                       as_WeeklyCredits := (if cr_WeeklyCredits input = None then 0 else as_WeeklyCredits s1)\<rparr>)
          else Inr s1)"

definition requestedSetting :: "accountConfigRequest \<Rightarrow> accountSetting \<Rightarrow> accountSetting result" where
  "requestedSetting input setting =
     (if cr_Clear input then Inr zero_accountSetting
      else
        let s1 = (if cr_Name input \<noteq> [] then setting\<lparr>as_Name := TrimSpace (cr_Name input)\<rparr> else setting) in
        bindR (requestedPlan input s1) (\<lambda>s2.
        let s3 = (case cr_Disabled input of None \<Rightarrow> s2 | Some d \<Rightarrow> s2\<lparr>as_Disabled := Some d\<rparr>);
            s4 = (case cr_FiveHourCredits input of None \<Rightarrow> s3 | Some c \<Rightarrow> s3\<lparr>as_FiveHourCredits := c\<rparr>);
            s5 = (case cr_WeeklyCredits input of None \<Rightarrow> s4 | Some c \<Rightarrow> s4\<lparr>as_WeeklyCredits := c\<rparr>)
        in bindR (validateStoredSetting s5) (\<lambda>_. Inr s5)))"

text \<open>The new configuration, with the settings that record it.\<close>

definition requestedThreshold :: "accountConfigRequest \<Rightarrow> pluginConfig \<times> settingsFile \<Rightarrow> (pluginConfig \<times> settingsFile) result" where
  "requestedThreshold input cs =
     (case cr_ThresholdPercent input of
        None \<Rightarrow> Inr cs
      | Some t \<Rightarrow>
          if t < 1 \<or> t > 100 then Inl (Msg ''threshold_percent must be between 1 and 100'')
          else Inr ((fst cs)\<lparr>cfg_ThresholdPercent := t\<rparr>, (snd cs)\<lparr>sf_ThresholdPercent := Some t\<rparr>))"

definition requestedInterval :: "accountConfigRequest \<Rightarrow> pluginConfig \<times> settingsFile \<Rightarrow> (pluginConfig \<times> settingsFile) result" where
  "requestedInterval input cs =
     (if TrimSpace (cr_PollingInterval input) = [] then Inr cs
      else case parsePositiveDuration ''polling_interval'' (cr_PollingInterval input) (cfg_QuotaRefresh (fst cs)) of
        Inl _ \<Rightarrow> Inl (Msg ''polling_interval must be between one and three minutes'')
      | Inr d \<Rightarrow>
          if d < Minute \<or> d > 3 * Minute then Inl (Msg ''polling_interval must be between one and three minutes'')
          else Inr ((fst cs)\<lparr>cfg_QuotaRefresh := d\<rparr>, (snd cs)\<lparr>sf_PollingInterval := Duration_String d\<rparr>))"

definition requestedMaxAge :: "accountConfigRequest \<Rightarrow> pluginConfig \<times> settingsFile \<Rightarrow> (pluginConfig \<times> settingsFile) result" where
  "requestedMaxAge input cs =
     bindR (if TrimSpace (cr_AuthoritativeMaxAge input) = [] then Inr cs
            else bindR (parsePositiveDuration ''authoritative_max_age'' (cr_AuthoritativeMaxAge input) (cfg_AuthoritativeMaxAge (fst cs))) (\<lambda>d.
              Inr ((fst cs)\<lparr>cfg_AuthoritativeMaxAge := d\<rparr>, (snd cs)\<lparr>sf_AuthoritativeMaxAge := Duration_String d\<rparr>))) (\<lambda>cs1.
       if cfg_AuthoritativeMaxAge (fst cs1) \<le> maxPollInterval (cfg_QuotaRefresh (fst cs1))
       then Inl (Msg ''authoritative_max_age must exceed maximum polling jitter'') else Inr cs1)"

definition requestedTimeout :: "accountConfigRequest \<Rightarrow> pluginConfig \<times> settingsFile \<Rightarrow> (pluginConfig \<times> settingsFile) result" where
  "requestedTimeout input cs =
     (if TrimSpace (cr_Timeout input) = [] then Inr cs
      else case parsePositiveDuration ''timeout'' (cr_Timeout input) defaultQuotaTimeout of
        Inl _ \<Rightarrow> Inl (Msg ''timeout must be between one and thirty seconds'')
      | Inr d \<Rightarrow>
          if d < minQuotaTimeout \<or> d > maxQuotaTimeout then Inl (Msg ''timeout must be between one and thirty seconds'')
          else Inr ((fst cs)\<lparr>cfg_QuotaTimeout := d\<rparr>, (snd cs)\<lparr>sf_Timeout := Duration_String d\<rparr>))"

definition requestedConfig :: "accountConfigRequest \<Rightarrow> pluginConfig \<Rightarrow> settingsFile \<Rightarrow> (pluginConfig \<times> settingsFile) result" where
  "requestedConfig input cfg settings =
     bindR (requestedThreshold input (cfg, settings)) (\<lambda>c1.
     bindR (requestedInterval input c1) (\<lambda>c2.
     bindR (requestedMaxAge input c2) (\<lambda>c3. requestedTimeout input c3)))"

definition selectIndex :: "string \<Rightarrow> account list \<Rightarrow> nat result" where
  "selectIndex accountName accounts =
     (case filter (\<lambda>i. selects accountName (accounts ! i)) [0..<length accounts] of
        [] \<Rightarrow> Inl (Msg ''account does not match a configured account'')
      | [i] \<Rightarrow> Inr i
      | _ \<Rightarrow> Inl (Msg ''account selector is ambiguous''))"

definition candidateAccount :: "accountConfigRequest \<Rightarrow> accountSetting \<Rightarrow> nat \<Rightarrow> runtimeSnapshot \<Rightarrow> account result" where
  "candidateAccount input setting index updated =
     (let item = rs_Accounts updated ! index in
      if cr_Clear input then
        (if index \<ge> length (rs_BaseAccounts updated) \<or> acc_Identity (rs_BaseAccounts updated ! index) \<noteq> acc_Identity item
         then Inl (Msg ''base account configuration is unavailable'')
         else Inr (rs_BaseAccounts updated ! index))
      else Inr (applySettingToAccount setting item))"

text \<open>The snapshot and the settings an accepted request leads to.\<close>

definition planUpdate :: "accountConfigRequest \<Rightarrow> settingsFile \<Rightarrow> nat \<Rightarrow> runtimeSnapshot \<Rightarrow> (runtimeSnapshot \<times> settingsFile) result" where
  "planUpdate input settings0 index updated =
     (let item = rs_Accounts updated ! index;
          settings = (if sf_Version settings0 = 0 then settings0\<lparr>sf_Version := 1\<rparr> else settings0)
      in bindR (requestedSetting input (mget_or zero_accountSetting (sf_Accounts settings) (acc_Identity item))) (\<lambda>setting.
         bindR (requestedConfig input (rs_Config updated) settings) (\<lambda>(cfg, settings1).
         bindR (candidateAccount input setting index updated) (\<lambda>candidate.
         let settings2 = settings1\<lparr>sf_Accounts := (if cr_Clear input then mdel (acc_Identity item) (sf_Accounts settings1)
                                                    else mput (acc_Identity item) setting (sf_Accounts settings1))\<rparr>;
             updated1 = updated\<lparr>rs_Accounts := (rs_Accounts updated)[index := candidate],
                                rs_byIdentity := mput (acc_Identity candidate) candidate (rs_byIdentity updated),
                                rs_Config := cfg\<rparr>
         in bindR (validateAccounts (rs_Accounts updated1)) (\<lambda>_. Inr (updated1, settings2))))))"

text \<open>
  \<open>recovered\<close> is the result of \<open>recoverSettings\<close>, \<open>saved\<close> of \<open>saveSettings\<close> on the new
  settings. An update whose save is pending is published; one whose save failed is not.
\<close>

definition updateAccountConfig ::
  "settingsFile result \<Rightarrow> (settingsFile \<Rightarrow> unit result) \<Rightarrow> go_error option \<Rightarrow> accountConfigRequest \<Rightarrow> pluginRuntime \<Rightarrow>
     unit result \<times> pluginRuntime" where
  "updateAccountConfig recovered saved closeErr input rt =
     (let accountName = TrimSpace (cr_Account input) in
      if accountName = [] then (Inl (Msg ''account is required''), rt)
      else case rt_snapshot rt of
        None \<Rightarrow> (Inl (Msg ''plugin is not configured''), rt)
      | Some sn \<Rightarrow>
          if rt_stopped rt \<or> rs_Store sn = None then (Inl (Msg ''plugin is not configured''), rt)
          else
            case bindR (selectIndex accountName (rs_Accounts sn)) (\<lambda>index.
                 bindR recovered (\<lambda>settings. planUpdate input settings index sn)) of
              Inl err \<Rightarrow> (Inl err, rt)
            | Inr (updated, settings) \<Rightarrow>
                let before = (case saved settings of
                      Inr _ \<Rightarrow> None
                    | Inl err \<Rightarrow> if settingsRecoveryPending err then None else Some (Wrapped ''save account settings'' err))
                in commitSnapshotAfter before closeErr updated rt)"

section \<open>Forced refresh\<close>

text \<open>\<open>rg_id\<close> is the identity of the pointer, \<open>rg_done\<close> says that its channel is closed.\<close>

record refreshGeneration =
  rg_id :: nat
  rg_generation :: "64 word"
  rg_accounts :: "account list"
  rg_timeout :: duration
  rg_done :: bool
  rg_err :: "go_error option"

definition quotaTimeout :: "duration \<Rightarrow> duration" where
  "quotaTimeout timeout = (if timeout = 0 then defaultQuotaTimeout else timeout)"

text \<open>The refresh that is under way is an argument and part of the result; \<open>newId\<close> names a new one.\<close>

definition beginRefresh ::
  "nat \<Rightarrow> refreshGeneration option \<Rightarrow> pluginRuntime \<Rightarrow> (refreshGeneration \<times> bool) result \<times> refreshGeneration option" where
  "beginRefresh newId running rt =
     (case rt_snapshot rt of
        None \<Rightarrow> (Inl (Msg ''plugin is not configured''), running)
      | Some sn \<Rightarrow>
          if rt_stopped rt then (Inl (Msg ''plugin is not configured''), running)
          else
            let fresh = \<lparr>rg_id = newId, rg_generation = rs_Generation sn, rg_accounts = rs_Accounts sn,
                         rg_timeout = quotaTimeout (cfg_QuotaTimeout (rs_Config sn)), rg_done = False, rg_err = None\<rparr>
            in case running of
                 Some r \<Rightarrow> if rg_generation r = rs_Generation sn then (Inr (r, False), running) else (Inr (fresh, True), Some fresh)
               | None \<Rightarrow> (Inr (fresh, True), Some fresh))"

text \<open>
  The polls of a refresh run concurrently; \<open>polls\<close> are their results in the order in which they
  finish, each with the two clock readings, the write and the fetch of its poll.
\<close>

record refreshPoll =
  rp_identity :: string
  rp_now :: gotime
  rp_now' :: gotime
  rp_io :: "go_error option"
  rp_parentDone :: bool
  rp_fetched :: "quotaSnapshot result"

fun refreshPolls :: "64 word \<Rightarrow> refreshPoll list \<Rightarrow> pluginRuntime \<Rightarrow> int \<times> go_error option \<times> pluginRuntime" where
  "refreshPolls generation [] rt = (0, None, rt)"
| "refreshPolls generation (p # rest) rt =
     (let (res, rt1) = pollOnce (rp_now p) (rp_now' p) (rp_io p) (rp_parentDone p) (rp_identity p) generation (rp_fetched p) rt;
          (failures, firstError, rt2) = refreshPolls generation rest rt1
      in case res of Inl e \<Rightarrow> (failures + 1, Some e, rt2) | Inr _ \<Rightarrow> (failures, firstError, rt2))"

definition launched :: "refreshGeneration \<Rightarrow> string list" where
  "launched refresh = map acc_Identity (filter (\<lambda>item. \<not> acc_Disabled item) (rg_accounts refresh))"

definition runRefresh :: "refreshPoll list \<Rightarrow> refreshGeneration \<Rightarrow> pluginRuntime \<Rightarrow> unit result \<times> pluginRuntime" where
  "runRefresh polls refresh rt =
     (case refreshPolls (rg_generation refresh) polls rt of
        (failures, firstError, rt1) \<Rightarrow>
          (if failures > 0
           then Inl (Msg (''quota refresh failed for '' @ Itoa failures @ '' account(s): '' @
                          boundedStatus (case firstError of None \<Rightarrow> [] | Some e \<Rightarrow> error_text e)))
           else Inr (), rt1))"

definition endRefresh :: "refreshGeneration \<Rightarrow> unit result \<Rightarrow> refreshGeneration option \<Rightarrow> refreshGeneration \<times> refreshGeneration option" where
  "endRefresh refresh outcome running =
     (refresh\<lparr>rg_done := True, rg_err := (case outcome of Inl e \<Rightarrow> Some e | Inr _ \<Rightarrow> None)\<rparr>,
      (case running of Some r \<Rightarrow> if rg_id r = rg_id refresh then None else running | None \<Rightarrow> None))"

text \<open>
  \<open>forceRefresh\<close>: the first caller of a generation leads the refresh, the others wait for it;
  \<open>waited\<close> is what waiting returns, the error of the caller's context or of the refresh.
\<close>

definition forceRefresh ::
  "nat \<Rightarrow> refreshPoll list \<Rightarrow> (refreshGeneration \<Rightarrow> unit result) \<Rightarrow> refreshGeneration option \<Rightarrow> pluginRuntime \<Rightarrow>
     unit result \<times> refreshGeneration option \<times> pluginRuntime" where
  "forceRefresh newId polls waited running rt =
     (case beginRefresh newId running rt of
        (Inl err, running1) \<Rightarrow> (Inl err, running1, rt)
      | (Inr (refresh, leader), running1) \<Rightarrow>
          if \<not> leader then (waited refresh, running1, rt)
          else
            let (outcome, rt1) = runRefresh polls refresh rt
            in (outcome, snd (endRefresh refresh outcome running1), rt1))"

section \<open>Status\<close>

record managementCooldownStatus =
  mc_Active :: bool
  mc_Until :: "gotime option"
  mc_Reason :: string
  mc_Source :: string

definition nullableTime :: "gotime \<Rightarrow> gotime option" where
  "nullableTime t = (if IsZero t then None else Some t)"

definition cooldownReason :: "string \<Rightarrow> string" where
  "cooldownReason reason =
     (if reason = ''retry-after header'' then ''retry_after''
      else if reason \<in> {''x-ratelimit-reset header'', ''x-rate-limit-reset header'', ''ratelimit-reset header''} then ''reset_header''
      else if reason = ''rate-limit response body'' then ''reset_body''
      else if reason = ''authoritative quota reset'' then ''quota_reset_fallback''
      else if reason = ''conservative rate-limit cooldown'' then ''configured_fallback''
      else ''upstream_rate_limit'')"

definition managementCooldown :: "accountHealthState \<Rightarrow> gotime \<Rightarrow> managementCooldownStatus" where
  "managementCooldown health now =
     (let result = \<lparr>mc_Active = False, mc_Until = None, mc_Reason = [], mc_Source = ''zai_runtime_health_v1''\<rparr>
      in if \<not> After (hs_ExhaustedUntil health) now then result
         else result\<lparr>mc_Active := True, mc_Until := nullableTime (hs_ExhaustedUntil health),
                     mc_Reason := cooldownReason (hs_ExhaustedReason health)\<rparr>)"

definition utilization :: "quotaWindow \<Rightarrow> int \<times> int" where
  "utilization window =
     (if qw_BucketMicrocredits window \<le> 0 then (1, 0)
      else float64_div (float64_of_int (qw_ConsumedMicrocredits window)) (float64_of_int (qw_BucketMicrocredits window)))"

definition managementQuotaSource :: "string \<Rightarrow> string" where
  "managementQuotaSource source = (if source = ''authoritative'' then ''quota_api'' else ''estimate'')"

record managementAccountStatus =
  ms_Identity :: string
  ms_Cooldown :: managementCooldownStatus
  ms_Name :: string
  ms_KeySuffix :: string
  ms_Plan :: string
  ms_FiveHourUtilization :: "int \<times> int"
  ms_WeeklyUtilization :: "int \<times> int"
  ms_FiveHourResetsAt :: "gotime option"
  ms_WeeklyResetsAt :: "gotime option"
  ms_QuotaSource :: string
  ms_QuotaObservedAt :: gotime
  ms_QuotaAgeSeconds :: int
  ms_QuotaStale :: bool
  ms_QuotaError :: string
  ms_FiveHourError :: string
  ms_Offpeak :: bool
  ms_Health :: healthStatus
  ms_EstimatorCompleteSince :: gotime
  ms_DeliveryWarning :: bool
  ms_PersistenceWarning :: bool
  ms_UnknownModelWarning :: bool
  ms_HeuristicDedupWarning :: bool
  ms_DedupMode :: string

record managementStatusBody =
  mb_Plugin :: string
  mb_Status :: string
  mb_Version :: string
  mb_GeneratedAt :: gotime
  mb_ValidationError :: string
  mb_Accounts :: "managementAccountStatus list"

definition pluginID :: string where "pluginID = ''zai-coding-plan''"

definition accountStatus :: "gotime \<Rightarrow> pluginConfig \<Rightarrow> accountQuotaState \<Rightarrow> accountHealthState \<Rightarrow> account \<Rightarrow> managementAccountStatus" where
  "accountStatus now cfg quota health item =
     (let vw = view quota now item cfg
      in \<lparr>ms_Identity = acc_Identity item, ms_Cooldown = managementCooldown health now, ms_Name = acc_Name item,
          ms_KeySuffix = ''redacted'', ms_Plan = acc_Plan item,
          ms_FiveHourUtilization = utilization (vw_FiveHour vw), ms_WeeklyUtilization = utilization (vw_Weekly vw),
          ms_FiveHourResetsAt = nullableTime (qw_ResetsAt (vw_FiveHour vw)), ms_WeeklyResetsAt = nullableTime (qw_ResetsAt (vw_Weekly vw)),
          ms_QuotaSource = managementQuotaSource (vw_Source vw), ms_QuotaObservedAt = vw_ObservedAt vw,
          ms_QuotaAgeSeconds = (if IsZero (vw_ObservedAt vw) then 0 else max 0 (go_quo (time_Sub now (vw_ObservedAt vw)) Second)),
          ms_QuotaStale = vw_Stale vw, ms_QuotaError = vw_Warning vw, ms_FiveHourError = vw_FiveHourError vw,
          ms_Offpeak = isOffpeak now, ms_Health = ah_Status (assess health item now),
          ms_EstimatorCompleteSince = vw_CompleteSince vw, ms_DeliveryWarning = vw_DeliveryWarning vw,
          ms_PersistenceWarning = vw_PersistenceWarning vw, ms_UnknownModelWarning = vw_UnknownModelWarning vw,
          ms_HeuristicDedupWarning = vw_DedupCollisionWarn vw, ms_DedupMode = ''bounded_hash_heuristic''\<rparr>)"

text \<open>The loop over the accounts refreshes the capacity of each one it reports.\<close>

fun statusLoop :: "gotime \<Rightarrow> account list \<Rightarrow> runtimeSnapshot \<Rightarrow> managementAccountStatus list \<times> runtimeSnapshot" where
  "statusLoop now [] sn = ([], sn)"
| "statusLoop now (item # rest) sn =
     (let quota = mget_or zero_accountQuotaState (rs_Quota sn) (acc_Identity item);
          (health, sn1) = refreshCapacityLocked (acc_Identity item) now sn;
          (tail, sn2) = statusLoop now rest sn1
      in (accountStatus now (rs_Config sn) quota health item # tail, sn2))"

definition managementStatus :: "gotime \<Rightarrow> string \<Rightarrow> string \<Rightarrow> pluginRuntime \<Rightarrow> managementStatusBody \<times> pluginRuntime" where
  "managementStatus now version status rt =
     (let result = \<lparr>mb_Plugin = pluginID, mb_Status = status, mb_Version = version, mb_GeneratedAt = now,
                    mb_ValidationError = validationStatus rt, mb_Accounts = []\<rparr>
      in case rt_snapshot rt of
           None \<Rightarrow> (result, rt)
         | Some sn \<Rightarrow>
             let (accounts, sn1) = statusLoop now (rs_Accounts sn) sn
             in (result\<lparr>mb_Accounts := accounts\<rparr>, rt\<lparr>rt_snapshot := Some sn1\<rparr>))"

section \<open>Routes\<close>

definition managementBasePath :: string where "managementBasePath = ''/v0/management/plugins/zai-coding-plan''"
definition maxManagementRequestBody :: int where "maxManagementRequestBody = 65536"

definition managementStatusPath :: string where "managementStatusPath = managementBasePath @ ''/status''"
definition managementRefreshPath :: string where "managementRefreshPath = managementBasePath @ ''/refresh''"
definition managementUnblockPath :: string where "managementUnblockPath = managementBasePath @ ''/unblock''"
definition managementAccountConfigPath :: string where "managementAccountConfigPath = managementBasePath @ ''/account-config''"

text \<open>Method and path of each route; the descriptions are prose.\<close>

definition managementRegistration :: "(string \<times> string) list" where
  "managementRegistration =
     [(''GET'', managementStatusPath), (''POST'', managementRefreshPath),
      (''POST'', managementUnblockPath), (''POST'', managementAccountConfigPath)]"

datatype managementResponse =
    StatusResponse managementStatusBody
  | ErrorResponse int string string

definition managementError :: "int \<Rightarrow> string \<Rightarrow> string \<Rightarrow> managementResponse" where
  "managementError status code message = ErrorResponse status code (boundedStatus message)"

definition statusResponse :: "gotime \<Rightarrow> string \<Rightarrow> pluginRuntime \<Rightarrow> managementResponse \<times> pluginRuntime" where
  "statusResponse now version rt =
     (let status = (if validationStatus rt \<noteq> [] then ''reconfigure_rejected'' else ''registered'');
          (body, rt1) = managementStatus now version status rt
      in (StatusResponse body, rt1))"

text \<open>
  What a request meets: the decoded bodies, as the strict JSON decoder returns them (the number of
  members of a refresh body), and the results of the store and of the polls.
\<close>

record managementEnv =
  me_now :: gotime
  me_version :: string
  me_bodyMembers :: "string \<Rightarrow> nat option"
  me_selector :: "string \<Rightarrow> string option"
  me_configRequest :: "string \<Rightarrow> accountConfigRequest option"
  me_newId :: nat
  me_polls :: "refreshPoll list"
  me_waited :: "refreshGeneration \<Rightarrow> unit result"
  me_recovered :: "settingsFile result"
  me_saved :: "settingsFile \<Rightarrow> unit result"
  me_closeErr :: "go_error option"

type_synonym managementState = "refreshGeneration option \<times> pluginRuntime"

definition requireEmptyJSONBody :: "managementEnv \<Rightarrow> string \<Rightarrow> unit result" where
  "requireEmptyJSONBody env body =
     (if TrimSpace body = [] then Inr ()
      else case me_bodyMembers env body of
        None \<Rightarrow> Inl (Msg ''invalid JSON request body'')
      | Some n \<Rightarrow> if n \<noteq> 0 then Inl (Msg ''request body must be empty'') else Inr ())"

text \<open>An empty body decodes as \<open>{}\<close>.\<close>

definition decodeManagementJSON :: "(string \<Rightarrow> 'a option) \<Rightarrow> string \<Rightarrow> 'a result" where
  "decodeManagementJSON decode body =
     (case decode (if TrimSpace body = [] then ''{}'' else body) of
        None \<Rightarrow> Inl (Msg ''invalid JSON request body'') | Some x \<Rightarrow> Inr x)"

definition answer :: "managementEnv \<Rightarrow> managementState \<Rightarrow> managementResponse \<times> managementState" where
  "answer env st = (case statusResponse (me_now env) (me_version env) (snd st) of (resp, rt) \<Rightarrow> (resp, fst st, rt))"

definition handleManagement :: "managementEnv \<Rightarrow> string \<Rightarrow> string \<Rightarrow> string \<Rightarrow> managementState \<Rightarrow> managementResponse \<times> managementState" where
  "handleManagement env httpMethod path body st =
     (if int (length body) > maxManagementRequestBody
      then (managementError 413 ''request_too_large'' ''management request body exceeds 64 KiB'', st)
      else if httpMethod = ''GET'' \<and> path = managementStatusPath then answer env st
      else if httpMethod = ''POST'' \<and> path = managementRefreshPath then
        (case requireEmptyJSONBody env body of
           Inl e \<Rightarrow> (managementError 400 ''invalid_request'' (error_text e), st)
         | Inr _ \<Rightarrow>
             (case forceRefresh (me_newId env) (me_polls env) (me_waited env) (fst st) (snd st) of
                (Inl e, running, rt) \<Rightarrow> (managementError 502 ''refresh_failed'' (boundedStatus (error_text e)), running, rt)
              | (Inr _, running, rt) \<Rightarrow> answer env (running, rt)))
      else if httpMethod = ''POST'' \<and> path = managementUnblockPath then
        (case decodeManagementJSON (me_selector env) body of
           Inl e \<Rightarrow> (managementError 400 ''invalid_request'' (error_text e), st)
         | Inr account \<Rightarrow>
             (case unblock (me_now env) account (snd st) of
                (Inl e, rt) \<Rightarrow> (managementError 400 ''unblock_rejected'' (error_text e), fst st, rt)
              | (Inr _, rt) \<Rightarrow> answer env (fst st, rt)))
      else if httpMethod = ''POST'' \<and> path = managementAccountConfigPath then
        (case decodeManagementJSON (me_configRequest env) body of
           Inl e \<Rightarrow> (managementError 400 ''invalid_request'' (error_text e), st)
         | Inr input \<Rightarrow>
             (case updateAccountConfig (me_recovered env) (me_saved env) (me_closeErr env) input (snd st) of
                (Inl e, rt) \<Rightarrow> (managementError 400 ''invalid_account_config'' (error_text e), fst st, rt)
              | (Inr _, rt) \<Rightarrow> answer env (fst st, rt)))
      else (managementError 404 ''not_found'' ''unknown management route'', st))"

end
