(* ===== verification/ManagementInv.thy ===== *)
theory ManagementInv
  imports Management
begin

text \<open>
  Invariants of reconfiguration and management: every snapshot they publish passes the validation
  of persisted state, a rejected reconfiguration leaves the live snapshot alone, and what an
  account update does in memory is what the stored settings do at the next start.
\<close>

section \<open>Staging from persisted state\<close>

lemma year_10000: "time_Year t \<le> 9999 \<Longrightarrow> t < year10000"
proof -
  have "time_Year year10000 = 10000" by code_simp
  then show "time_Year t \<le> 9999 \<Longrightarrow> t < year10000" using time_Year_mono [of year10000 t] by fastforce
qed

text \<open>The times of a decoded document have years of four digits.\<close>

definition decoded_times :: "persistedState \<Rightarrow> bool" where
  "decoded_times persisted \<longleftrightarrow>
     list_all (\<lambda>(i, s). case st_Authoritative s of None \<Rightarrow> True | Some a \<Rightarrow> snapshot_resets_ok a) (ps_Accounts persisted)"

definition identities_ok :: "account list \<Rightarrow> bool" where
  "identities_ok accounts \<longleftrightarrow> list_all (\<lambda>a. validateAccountIdentity (acc_Identity a) = Inr ()) accounts"

lemma validPersisted_parts:
  assumes "validatePersistedStateAt persisted now = Inr ()"
  shows "(i, s) \<in> set (ps_Accounts persisted) \<Longrightarrow> validateAccountQuotaState s now = Inr ()"
    and "(i, h) \<in> set (ps_Health persisted) \<Longrightarrow> validatePersistedHealthState h = Inr ()"
  using assms
  by (auto simp: validatePersistedStateAt_def validateAccountStates_iff validateHealthStates_iff
      split: if_splits sum.splits)

lemma stagedQuota_valid:
  assumes "validatePersistedStateAt persisted now = Inr ()" and "decoded_times persisted"
  shows "quota_valid now (stagedQuota now cfg persisted i)"
proof -
  let ?s = "mget_or zero_accountQuotaState (ps_Accounts persisted) i"
  have "quota_valid now ?s"
  proof (cases "mget (ps_Accounts persisted) i")
    case (Some s)
    then have "(i, s) \<in> set (ps_Accounts persisted)" by (rule map_of_SomeD)
    then show ?thesis using validPersisted_parts(1) [OF assms(1)] assms(2) Some
      by (auto simp: quota_valid_def decoded_times_def list_all_iff mget_or_def)
  qed (simp add: mget_or_def)
  then show ?thesis
    by (simp add: stagedQuota_def Let_def quota_valid_def compact_other validate_compact validate_flags)
qed

lemma restored_valid:
  assumes "validatePersistedHealthState h = Inr ()" and "0 \<le> now"
  shows "health_valid (restorePersistedHealth h now) \<and> streak_ok (restorePersistedHealth h now)"
proof -
  have t: "ph_SuspendedUntil h < year10000" "ph_ExhaustedUntil h < year10000"
    using assms(1) year_10000 year10000_pos by (force simp: validatePersistedHealthState_def split: if_splits)+
  have r: "TrimSpace (boundedHealthReason (ph_ExhaustedReason h)) \<noteq> []" if "now < ph_ExhaustedUntil h"
    using assms that boundedText_nonblank [of "ph_ExhaustedReason h" 96]
    by (auto simp: validatePersistedHealthState_def boundedHealthReason_def split: if_splits)
  show ?thesis using t r year10000_pos assms(2)
    by (auto simp: restorePersistedHealth_def health_valid_def streak_ok_def zero_healthState_def requestRateMaxThrottles_def Let_def)
qed

lemma restored_default_valid:
  assumes "validatePersistedStateAt persisted now = Inr ()" and "0 \<le> now"
  shows "health_valid (restorePersistedHealth (mget_or zero_persistedHealth (ps_Health persisted) i) now) \<and>
    streak_ok (restorePersistedHealth (mget_or zero_persistedHealth (ps_Health persisted) i) now)"
proof (cases "mget (ps_Health persisted) i")
  case (Some h)
  then have "(i, h) \<in> set (ps_Health persisted)" by (rule map_of_SomeD)
  then show ?thesis using restored_valid [OF validPersisted_parts(2) [OF assms(1)] assms(2)] Some by (simp add: mget_or_def)
next
  case None
  have "validatePersistedHealthState zero_persistedHealth = Inr ()" by code_simp
  then show ?thesis using restored_valid assms(2) None by (simp add: mget_or_def)
qed

lemma quotaCapacity_streak [simp]: "streak_ok (quotaCapacityHealth h vw th) = streak_ok h"
  by (simp add: quotaCapacityHealth_def streak_ok_def Let_def)

lemma syncPlanLoop_frame: "map credentials (snd (syncPlanLoop accounts i plan b)) = map credentials accounts"
  by (induction accounts i plan b rule: syncPlanLoop.induct)
    (auto simp: credentials_def withPlan_def accountAuthIDs_def split_beta Let_def)

lemma syncPlan_frame: "map credentials (snd (syncPlanFromUpstream accounts i plan)) = map credentials accounts"
  by (auto simp: syncPlanFromUpstream_def syncPlanLoop_frame split: option.splits)

lemma credentials_identity: "map credentials as = map credentials bs \<Longrightarrow> map acc_Identity as = map acc_Identity bs"
proof -
  have "map acc_Identity cs = map fst (map credentials cs)" for cs by (simp add: credentials_def)
  then show "map credentials as = map credentials bs \<Longrightarrow> map acc_Identity as = map acc_Identity bs" by metis
qed

lemma identities_ok_cong: "map acc_Identity as = map acc_Identity bs \<Longrightarrow> identities_ok as = identities_ok bs"
proof -
  have "identities_ok cs \<longleftrightarrow> list_all (\<lambda>i. validateAccountIdentity i = Inr ()) (map acc_Identity cs)" for cs
    by (simp add: identities_ok_def list_all_iff)
  then show "map acc_Identity as = map acc_Identity bs \<Longrightarrow> identities_ok as = identities_ok bs" by metis
qed

text \<open>What the loop over the accounts keeps.\<close>

definition staging_ok :: "gotime \<Rightarrow> staging \<Rightarrow> bool" where
  "staging_ok now sg \<longleftrightarrow> identities_ok (sg_accounts sg) \<and>
     (\<forall>(i, s) \<in> set (sg_quota sg). validateAccountIdentity i = Inr () \<and> quota_valid now s) \<and>
     (\<forall>(i, h) \<in> set (sg_health sg). validateAccountIdentity i = Inr () \<and> health_valid h \<and> streak_ok h) \<and>
     (\<forall>(a, i) \<in> set (sg_byAuthID sg). validateAccountIdentity i = Inr ())"

lemma index_valid:
  assumes "\<forall>(a, i) \<in> set m. P i" and "P (acc_Identity item)"
  shows "\<forall>(a, i) \<in> set (indexAccountAuthIDs m item). P i"
proof -
  have "\<forall>(a, i) \<in> set (foldl (\<lambda>m x. mput x (acc_Identity item) m) m xs). P i" if "\<forall>(a, i) \<in> set m. P i" for xs m
    using that
  proof (induction xs arbitrary: m)
    case (Cons x xs)
    have "\<forall>(a, i) \<in> set (mput x (acc_Identity item) m). P i"
      using Cons.prems assms(2) by (auto dest!: subsetD [OF set_mput])
    then show ?case using Cons.IH by simp
  qed simp
  then show ?thesis using assms(1) by (simp add: indexAccountAuthIDs_def)
qed

lemma stageAccount_ok:
  assumes p: "validatePersistedStateAt persisted now = Inr ()" "decoded_times persisted"
    and t: "0 \<le> now" "now + 30 * Day < year10000" and sg: "staging_ok now sg" and i: "i < length (sg_accounts sg)"
  shows "staging_ok now (stageAccount now cfg persisted sg i)"
    and "map acc_Identity (sg_accounts (stageAccount now cfg persisted sg i)) = map acc_Identity (sg_accounts sg)"
proof -
  let ?id = "acc_Identity (sg_accounts sg ! i)" and ?s = "stagedQuota now cfg persisted (acc_Identity (sg_accounts sg ! i))"
  define accounts where "accounts = (case st_Authoritative ?s of None \<Rightarrow> sg_accounts sg
     | Some a \<Rightarrow> snd (syncPlanFromUpstream (sg_accounts sg) ?id (sn_Plan a)))"
  have ids: "map acc_Identity accounts = map acc_Identity (sg_accounts sg)"
    using credentials_identity [OF syncPlan_frame] by (auto simp: accounts_def split: option.splits)
  have same: "acc_Identity (accounts ! i) = ?id"
    using ids i by (metis length_map nth_map)
  have v: "validateAccountIdentity ?id = Inr ()"
    using sg i by (auto simp: staging_ok_def identities_ok_def list_all_length)
  have q: "quota_valid now ?s" by (rule stagedQuota_valid [OF p])
  note h = restored_default_valid [OF p(1) t(1), of ?id]
  have hv: "health_valid (quotaCapacityHealth (restorePersistedHealth (mget_or zero_persistedHealth (ps_Health persisted) ?id) now)
      (view ?s now (accounts ! i) cfg) (cfg_ThresholdPercent cfg))"
    using quotaCapacityHealth_valid [OF _ q t(2)] h by blast
  have eq: "stageAccount now cfg persisted sg i =
      \<lparr>sg_accounts = accounts, sg_quota = mput ?id ?s (sg_quota sg),
       sg_health = mput ?id (quotaCapacityHealth (restorePersistedHealth (mget_or zero_persistedHealth (ps_Health persisted) ?id) now)
          (view ?s now (accounts ! i) cfg) (cfg_ThresholdPercent cfg)) (sg_health sg),
       sg_byAuthID = indexAccountAuthIDs (sg_byAuthID sg) (accounts ! i),
       sg_byIdentity = mput ?id (accounts ! i) (sg_byIdentity sg)\<rparr>"
    by (simp add: stageAccount_def Let_def accounts_def)
  show "map acc_Identity (sg_accounts (stageAccount now cfg persisted sg i)) = map acc_Identity (sg_accounts sg)"
    using eq ids by simp
  have "identities_ok accounts" using sg identities_ok_cong [OF ids] by (simp add: staging_ok_def)
  moreover have "\<forall>(a, j) \<in> set (indexAccountAuthIDs (sg_byAuthID sg) (accounts ! i)). validateAccountIdentity j = Inr ()"
    by (rule index_valid) (use sg v same in \<open>auto simp: staging_ok_def\<close>)
  ultimately show "staging_ok now (stageAccount now cfg persisted sg i)"
    using sg v q hv h unfolding eq staging_ok_def by (auto dest!: subsetD [OF set_mput])
qed

lemma stageAccounts_ok:
  assumes "validatePersistedStateAt persisted now = Inr ()" "decoded_times persisted"
    and "0 \<le> now" "now + 30 * Day < year10000" and "identities_ok accounts"
  shows "staging_ok now (stageAccounts now cfg persisted accounts)"
proof -
  let ?f = "stageAccount now cfg persisted"
  have "staging_ok now (foldl ?f sg js) \<and> map acc_Identity (sg_accounts (foldl ?f sg js)) = map acc_Identity (sg_accounts sg)"
    if "staging_ok now sg" "\<forall>j \<in> set js. j < length (sg_accounts sg)" for sg js
    using that
  proof (induction js arbitrary: sg)
    case (Cons j js)
    have s: "staging_ok now (?f sg j)" "map acc_Identity (sg_accounts (?f sg j)) = map acc_Identity (sg_accounts sg)"
      using stageAccount_ok [OF assms(1-4) Cons.prems(1)] Cons.prems(2) by auto
    moreover have "length (sg_accounts (?f sg j)) = length (sg_accounts sg)" using s(2) by (metis length_map)
    ultimately show ?case using Cons.IH [of "?f sg j"] Cons.prems(2) by simp
  qed simp
  moreover have "staging_ok now \<lparr>sg_accounts = accounts, sg_quota = [], sg_health = [], sg_byAuthID = [], sg_byIdentity = []\<rparr>"
    using assms(5) by (simp add: staging_ok_def)
  ultimately show ?thesis by (simp add: stageAccounts_def)
qed

lemma stagedSnapshot_valid:
  assumes "validatePersistedStateAt persisted now = Inr ()" "decoded_times persisted"
    and "0 \<le> now" "now + 30 * Day < year10000" and "identities_ok accounts"
  shows "snapshot_valid now (stagedSnapshot now cfg persisted base accounts store)"
  using stageAccounts_ok [OF assms, of cfg]
  by (simp add: stagedSnapshot_def Let_def snapshot_valid_def staging_ok_def)

section \<open>Publishing keeps validity\<close>

lemma carryEntries_valid:
  assumes "\<forall>(i, v) \<in> set live. P i v" and "\<forall>(i, v) \<in> set staged. P i v"
  shows "\<forall>(i, v) \<in> set (carryEntries live staged). P i v"
  using assms by (force simp: carryEntries_def mget_or_def split: option.splits dest: map_of_SomeD)

lemma prepareStaged_valid:
  assumes "snapshot_valid now staged" and "\<And>sn. live = Some sn \<Longrightarrow> snapshot_valid now sn"
  shows "snapshot_valid now (prepareStaged live staged)"
proof (cases live)
  case None
  then show ?thesis using assms(1) by (simp add: prepareStaged_def snapshot_valid_def)
next
  case (Some sn)
  note l = assms(2) [OF Some]
  have q: "\<forall>(i, s) \<in> set (carryEntries (rs_Quota sn) (rs_Quota staged)). validateAccountIdentity i = Inr () \<and> quota_valid now s"
    by (rule carryEntries_valid) (use l assms(1) in \<open>auto simp: snapshot_valid_def\<close>)
  have h: "\<forall>(i, h) \<in> set (carryEntries (rs_Health sn) (rs_Health staged)). validateAccountIdentity i = Inr () \<and> health_valid h \<and> streak_ok h"
    by (rule carryEntries_valid) (use l assms(1) in \<open>auto simp: snapshot_valid_def\<close>)
  show ?thesis using Some q h assms(1)
    by (simp add: prepareStaged_def carryForwardNamedPlans_def snapshot_valid_def Let_def)
qed

definition rt_valid :: "gotime \<Rightarrow> pluginRuntime \<Rightarrow> bool" where
  "rt_valid now rt \<longleftrightarrow> (case rt_snapshot rt of None \<Rightarrow> True | Some sn \<Rightarrow> snapshot_valid now sn)"

lemma rt_valid_Some: "rt_valid now rt \<Longrightarrow> rt_snapshot rt = Some sn \<Longrightarrow> snapshot_valid now sn"
  by (simp add: rt_valid_def)

lemma rt_valid_later: "rt_valid now rt \<Longrightarrow> now \<le> later \<Longrightarrow> rt_valid later rt"
  by (auto simp: rt_valid_def snapshot_valid_later split: option.splits)

lemma rt_valid_simps [simp]:
  "rt_valid now (closeStore st rt) = rt_valid now rt"
  "rt_valid now (recordError e rt) = rt_valid now rt"
  "rt_valid now (rt\<lparr>rt_snapshot := Some sn\<rparr>) = snapshot_valid now sn"
  by (simp_all add: rt_valid_def closeStore_def recordError_def split: option.splits)

lemma closeStore_simps [simp]:
  "rt_snapshot (closeStore st rt) = rt_snapshot rt" "rt_stopped (closeStore st rt) = rt_stopped rt"
  "rt_pollers (closeStore st rt) = rt_pollers rt" "rt_disk (closeStore st rt) = rt_disk rt"
  by (simp_all add: closeStore_def split: option.splits)

lemma commit_valid:
  assumes "snapshot_valid now staged" and "rt_valid now rt"
  shows "rt_valid now (snd (commitSnapshotAfter before closeErr staged rt))"
proof -
  have "snapshot_valid now (prepareStaged (rt_snapshot rt) staged)"
    by (rule prepareStaged_valid [OF assms(1)]) (use assms(2) in \<open>simp add: rt_valid_def\<close>)
  then have "snapshot_valid now ((prepareStaged (rt_snapshot rt) staged)\<lparr>rs_Routing := []\<rparr>)" by (simp add: snapshot_valid_def)
  then show ?thesis using assms(2)
    by (auto simp: commitSnapshotAfter_def Let_def rt_valid_def split: option.splits)
qed

section \<open>Reconfiguration\<close>

lemma rejectWith_frame:
  "rt_snapshot (snd (rejectWith e ss rt)) = rt_snapshot rt" "rt_pollers (snd (rejectWith e ss rt)) = rt_pollers rt"
  "rt_disk (snd (rejectWith e ss rt)) = rt_disk rt" "rt_closed (snd (rejectWith e ss rt)) = rt_closed rt"
  "isl (fst (rejectWith e ss rt))"
  by (simp_all add: rejectWith_def recordError_def Let_def)

text \<open>The identities of discovered accounts are keyed hashes.\<close>

definition hmac_hex :: "golib \<Rightarrow> bool" where
  "hmac_hex lib \<longleftrightarrow> (\<forall>k m. validHash (lib_hmacSHA256hex lib k m))"

lemma discovered_identities:
  assumes "discoverAccounts lib cpa cfg = Inr items" and "hmac_hex lib"
  shows "identities_ok items"
proof -
  obtain pairs legacy cur openAI acs where
      ord: "orderedAccounts lib pairs legacy cur openAI (cpa_ClaudeKeys cpa) = Inr acs"
    and app: "applyAccountOverrides acs cfg = Inr items"
    using assms(1) unfolding discoverAccounts_def
    by (auto simp: bindR_Inr_iff Let_def split_beta split: if_splits)
  have "identities_ok acs"
    using orderedAccounts_keys [OF ord] assms(2)
    by (auto simp: identities_ok_def list_all_iff accountIdentity_def hmac_hex_def validHash_def validateAccountIdentity_def)
  then show ?thesis using applyAccountOverrides_ok [OF app] identities_ok_cong by blast
qed

lemma stored_identities:
  assumes "applyStoredSettings accounts settings = Inr out"
  shows "map acc_Identity out = map acc_Identity accounts"
  using assms
  by (auto simp: applyStoredSettings_def bindR_Inr_iff Let_def split: if_splits)
    (metis applyStoredAccount_credentials credentials_def fst_conv)

lemma reconfigure_valid:
  assumes "rt_valid now rt" and "hmac_hex lib" and "0 \<le> now" "now + 30 * Day < year10000"
    and "\<And>persisted. loaded = Inr persisted \<Longrightarrow> decoded_times persisted"
  shows "rt_valid now (snd (reconfigureWithAccounts lib now opened recovered loaded closeErr cfg cpa keys rt))"
proof -
  have rej: "rt_valid now (snd (rejectWith e ss rt))" for e ss
    using assms(1) by (simp add: rt_valid_def rejectWith_frame)
  have "snapshot_valid now (stagedSnapshot now c persisted base accounts store)"
    if "discoverAccounts lib cpa cfg = Inr base" "applyStoredSettings base settings = Inr accounts"
      "loaded = Inr persisted" "validatePersistedStateAt persisted now = Inr ()" for c persisted base accounts store settings
  proof (rule stagedSnapshot_valid [OF that(4) assms(5) [OF that(3)] assms(3, 4)])
    show "identities_ok accounts"
      using discovered_identities [OF that(1) assms(2)] stored_identities [OF that(2)] identities_ok_cong by blast
  qed
  then show ?thesis
    using assms(1) rej commit_valid [OF _ assms(1), of _ None closeErr]
    by (auto simp: reconfigureWithAccounts_def commitSnapshot_def Let_def bindR_def split_beta
        split: sum.splits prod.splits if_splits)
qed

text \<open>The three ways a reconfiguration with an open store can end.\<close>

lemma reconfigure_result:
  assumes "reconfigureWithAccounts lib now (Inr store) recovered loaded closeErr cfg cpa keys rt = (r, rt')"
    and "\<not> rt_stopped rt"
  obtains (rejected) err where "rt' = closeStore (Some store) (snd (rejectWith err keys rt))"
    | (failed) staged e rt1 where "rs_Store staged = Some store" "commitSnapshot closeErr staged rt = (Inl e, rt1)"
        "r = Inl e" "rt' = closeStore (Some store) rt1"
    | (published) staged where "rs_Store staged = Some store" "commitSnapshot closeErr staged rt = (Inr (), rt')" "r = Inr ()"
proof -
  let ?st = "bindR (discoverAccounts lib cpa cfg) (\<lambda>base. bindR recovered (\<lambda>settings.
            bindR (applyStoredSettings base settings) (\<lambda>accounts. bindR (applyStoredConfig cfg settings) (\<lambda>c.
            bindR loaded (\<lambda>persisted. bindR (validatePersistedStateAt persisted now) (\<lambda>_.
              Inr (stagedSnapshot now c persisted base accounts store)))))))"
  show ?thesis
  proof (cases ?st)
    case (Inl err)
    then have "rt' = closeStore (Some store) (snd (rejectWith err keys rt))"
      using assms by (auto simp: reconfigureWithAccounts_def split_beta)
    then show ?thesis by (rule rejected)
  next
    case (Inr staged)
    have store: "rs_Store staged = Some store" using Inr by (auto simp: bindR_Inr_iff stagedSnapshot_def Let_def)
    obtain q rt1 where c: "commitSnapshot closeErr staged rt = (q, rt1)" by (cases "commitSnapshot closeErr staged rt")
    have "(r, rt') = (case q of Inl err \<Rightarrow> (Inl err, closeStore (Some store) rt1) | Inr _ \<Rightarrow> (Inr (), rt1))"
      using assms Inr c by (simp add: reconfigureWithAccounts_def)
    then show ?thesis using failed [OF store] published [OF store] c by (cases q) auto
  qed
qed

lemma commit_close_failed:
  assumes "commitSnapshot closeErr staged rt = (Inl e, rt1)" and "\<not> rt_stopped rt"
  shows "\<exists>ce sn. closeErr = Some ce \<and> e = Wrapped ''close superseded secure store'' ce \<and> rt_snapshot rt1 = Some sn \<and>
    rs_Store sn = rs_Store staged \<and> rt_pollers rt1 = pollersFor sn \<and> rt_disk rt1 = rt_disk rt"
proof -
  let ?s2 = "(prepareStaged (rt_snapshot rt) staged)\<lparr>rs_Routing := []\<rparr>"
  obtain ce live where c: "closeErr = Some ce" "e = Wrapped ''close superseded secure store'' ce" "rt_snapshot rt = Some live"
      and d: "rs_Store live \<noteq> None" "rs_Store live \<noteq> rs_Store ?s2"
      and r: "rt_snapshot rt1 = Some ?s2" "rt_pollers rt1 = pollersFor ?s2" "rt_disk rt1 = rt_disk rt"
    using assms by (auto simp: commitSnapshot_def commitSnapshotAfter_def Let_def closeStore_def split: if_splits option.splits)
  have "rs_Store ?s2 = rs_Store staged"
    using d c(3) by (auto simp: prepareStaged_def sameSecureStore_def carryForwardNamedPlans_def Let_def split: option.splits if_splits)
  then show ?thesis using c r by blast
qed

text \<open>
  C29. A reconfiguration that returns an error leaves the running system alone, with one exception.
  The state files are those of before in every case. Either the published snapshot and the pollers
  are those of before too, and the store of the published snapshot is open exactly if it was open;
  or the error is that of closing the superseded store, which comes after the new snapshot has been
  published on the newly opened store. The settings and their marker, which \<open>recoverSettings\<close> may
  bring up to date before the rejection, are not part of this state.
\<close>

theorem rejected_reconfigure_keeps_live:
  assumes "reconfigureWithAccounts lib now opened recovered loaded closeErr cfg cpa keys rt = (Inl e, rt')"
    and "\<forall>store. opened = Inr store \<longrightarrow> sh_id store \<noteq> sh_id live"
  shows "rt_disk rt' = rt_disk rt \<and>
    (rt_snapshot rt' = rt_snapshot rt \<and> rt_pollers rt' = rt_pollers rt \<and>
       (sh_id live \<in> set (rt_closed rt') \<longleftrightarrow> sh_id live \<in> set (rt_closed rt)) \<or>
     (\<exists>ce store sn. closeErr = Some ce \<and> e = Wrapped ''close superseded secure store'' ce \<and> opened = Inr store \<and>
        rt_snapshot rt' = Some sn \<and> rs_Store sn = Some store \<and> rt_pollers rt' = pollersFor sn))"
proof (cases "rt_stopped rt")
  case True
  then show ?thesis using assms(1) by (auto simp: reconfigureWithAccounts_def)
next
  case False
  show ?thesis
  proof (cases opened)
    case (Inl err)
    then have "rt' = snd (rejectWith err keys rt)" using assms(1) False by (auto simp: reconfigureWithAccounts_def)
    then show ?thesis by (simp add: rejectWith_frame)
  next
    case (Inr store)
    show ?thesis
    proof (rule reconfigure_result [OF assms(1) [unfolded Inr] False])
      fix err assume "rt' = closeStore (Some store) (snd (rejectWith err keys rt))"
      then show ?thesis using assms(2) Inr rejectWith_frame by (auto simp: closeStore_def)
    next
      fix staged e1 rt1 assume s: "rs_Store staged = Some store" and c: "commitSnapshot closeErr staged rt = (Inl e1, rt1)"
        and r: "Inl e = (Inl e1 :: unit result)" "rt' = closeStore (Some store) rt1"
      from commit_close_failed [OF c False] obtain ce sn where "closeErr = Some ce" "e1 = Wrapped ''close superseded secure store'' ce"
          "rt_snapshot rt1 = Some sn" "rs_Store sn = rs_Store staged" "rt_pollers rt1 = pollersFor sn" "rt_disk rt1 = rt_disk rt"
        by blast
      then show ?thesis using s r Inr by (simp add: closeStore_def)
    qed simp
  qed
qed

definition otherStore :: storeHandle where "otherStore = \<lparr>sh_id = 2, sh_dir = ''/other/providers/zai''\<rparr>"

definition sampleKeys :: cpaConfigProjection where
  "sampleKeys = sampleHost [claudeEntry ''secret-key-1'' zaiAnthropicBaseURL]"

definition rejectedRun :: "unit result \<times> pluginRuntime" where
  "rejectedRun = reconfigureWithAccounts pathLib sampleNow (Inr otherStore) (Inl (Msg ''decode settings.json: corrupt state''))
     (Inl (Msg ''unread'')) None sampleConfig sampleKeys [] sampleRuntime"

theorem rejected_reconfigure_keeps_live_witness:
  "isl (fst rejectedRun) \<and> rt_snapshot (snd rejectedRun) = rt_snapshot sampleRuntime \<and>
     rt_pollers (snd rejectedRun) = rt_pollers sampleRuntime \<and> rt_disk (snd rejectedRun) = rt_disk sampleRuntime \<and>
     (sh_id sampleStore \<in> set (rt_closed (snd rejectedRun)) \<longleftrightarrow> sh_id sampleStore \<in> set (rt_closed sampleRuntime))"
proof -
  have l: "isl (fst rejectedRun)" by code_simp
  then obtain e where e: "rejectedRun = (Inl e, snd rejectedRun)" by (metis isl_def prod.collapse)
  have "\<forall>store. Inr otherStore = (Inr store :: storeHandle result) \<longrightarrow> sh_id store \<noteq> sh_id sampleStore"
    by (simp add: otherStore_def sampleStore_def)
  then show ?thesis
    using l rejected_reconfigure_keeps_live [OF e [unfolded rejectedRun_def]] unfolding rejectedRun_def by blast
qed

text \<open>
  C33. An error of closing the superseded store disables persistence: \<open>commitSnapshotAfter\<close> has
  published the new snapshot when it returns that error, the caller takes the reconfiguration for
  rejected and closes the new store, and the published snapshot is left on a closed store, on
  which every newer state fails to be written.
\<close>

theorem failed_close_disables_live_store:
  assumes "reconfigureWithAccounts lib now (Inr store) recovered loaded (Some ce) cfg cpa keys rt = (Inl e, rt')"
    and "rt_snapshot rt' \<noteq> rt_snapshot rt" and "ps_Generation st > rt_persisted rt'"
  shows "\<exists>sn. rt_snapshot rt' = Some sn \<and> rs_Store sn = Some store \<and> sh_id store \<in> set (rt_closed rt') \<and>
           isl (fst (persistStateLocked later None store st rt'))"
proof (cases "rt_stopped rt")
  case True
  then show ?thesis using assms(1, 2) by (auto simp: reconfigureWithAccounts_def)
next
  case False
  obtain staged rt1 where s: "rs_Store staged = Some store"
    and rt1: "commitSnapshot (Some ce) staged rt = (Inl e, rt1)" "rt' = closeStore (Some store) rt1"
    by (rule reconfigure_result [OF assms(1) False]) (use assms(2) rejectWith_frame in auto)
  let ?s2 = "(prepareStaged (rt_snapshot rt) staged)\<lparr>rs_Routing := []\<rparr>"
  have snap: "rt_snapshot rt1 = Some ?s2" and diff: "\<exists>sn. rt_snapshot rt = Some sn \<and> rs_Store sn \<noteq> None \<and> rs_Store sn \<noteq> rs_Store ?s2"
    using rt1(1) False by (auto simp: commitSnapshot_def commitSnapshotAfter_def Let_def split: if_splits option.splits)
  have "rs_Store ?s2 = Some store"
    using diff s by (auto simp: prepareStaged_def sameSecureStore_def carryForwardNamedPlans_def Let_def split: option.splits if_splits)
  moreover have "sh_id store \<in> set (rt_closed rt')" using rt1(2) by (simp add: closeStore_def)
  moreover have "isl (fst (persistStateLocked later None store st rt'))"
    using calculation(2) assms(3)
    by (auto simp: persistStateLocked_def saveState_def storeIO_def Let_def split: sum.splits)
  ultimately show ?thesis using snap rt1(2) by simp
qed

definition zero_state :: persistedState where
  "zero_state = \<lparr>ps_Version = 0, ps_Accounts = [], ps_Health = [], ps_Generation = 0, ps_RuntimeGeneration = 0\<rparr>"

definition failedRun :: "unit result \<times> pluginRuntime" where
  "failedRun = reconfigureWithAccounts pathLib sampleNow (Inr otherStore) (Inr zero_settings)
     (Inr zero_state) (Some (Msg ''bad file descriptor'')) sampleConfig sampleKeys [] sampleRuntime"

theorem failed_close_disables_live_store_witness:
  "\<exists>sn. rt_snapshot (snd failedRun) = Some sn \<and> rs_Store sn = Some otherStore \<and> sh_id otherStore \<in> set (rt_closed (snd failedRun)) \<and>
     isl (fst (persistStateLocked sampleNow None otherStore (zero_state\<lparr>ps_Generation := 1\<rparr>) (snd failedRun)))"
proof -
  have l: "isl (fst failedRun)" "map_option rs_Store (rt_snapshot (snd failedRun)) \<noteq> map_option rs_Store (rt_snapshot sampleRuntime)"
    "rt_persisted (snd failedRun) < 1" by code_simp+
  from l(1) obtain e where e: "failedRun = (Inl e, snd failedRun)" by (metis isl_def prod.collapse)
  have "rt_snapshot (snd failedRun) \<noteq> rt_snapshot sampleRuntime" using l(2) by auto
  then show ?thesis
    using failed_close_disables_live_store [OF e [unfolded failedRun_def], of "zero_state\<lparr>ps_Generation := 1\<rparr>" sampleNow] l(3)
    unfolding failedRun_def by simp
qed

section \<open>Unblocking and status\<close>

lemma unblockAccount_valid:
  assumes "snapshot_valid now sn" and "validateAccountIdentity i = Inr ()" and "now + 30 * Day < year10000"
  shows "snapshot_valid now (unblockAccount now sn i)"
proof -
  let ?q = "compact (mget_or zero_accountQuotaState (rs_Quota sn) i) now (cfg_StateRetention (rs_Config sn))"
  let ?h = "clearThrottle ((mget_or zero_healthState (rs_Health sn) i)\<lparr>hs_ExhaustedUntil := 0, hs_ExhaustedReason := []\<rparr>)"
  have "quota_valid now (mget_or zero_accountQuotaState (rs_Quota sn) i)"
    using snapshot_valid_at(3) [OF assms(1), of i] by (auto simp: mget_or_def split: option.splits)
  then have q: "quota_valid now ?q" by (simp add: quota_valid_def compact_other validate_compact)
  have h: "health_valid ?h" "streak_ok ?h"
    using snapshot_valid_at(1,2) [OF assms(1), of i] year10000_pos
    by (auto simp: health_valid_def streak_ok_def clearThrottle_def requestRateMaxThrottles_def)
  have "snapshot_valid now (sn\<lparr>rs_Quota := mput i ?q (rs_Quota sn), rs_Health := mput i ?h (rs_Health sn)\<rparr>)"
    using snapshot_valid_put_health [OF snapshot_valid_put_quota [OF assms(1, 2) q] assms(2) h] by simp
  then show ?thesis using refreshCapacity_valid [OF _ assms(3)] by (simp add: unblockAccount_def Let_def)
qed

lemma unblockAccount_frame [simp]:
  "rs_Accounts (unblockAccount now sn i) = rs_Accounts sn" "rs_Config (unblockAccount now sn i) = rs_Config sn"
  "rs_Store (unblockAccount now sn i) = rs_Store sn" "rs_Generation (unblockAccount now sn i) = rs_Generation sn"
  "rs_byIdentity (unblockAccount now sn i) = rs_byIdentity sn"
  by (simp_all add: unblockAccount_def Let_def)

lemma unblockAccount_health:
  "hs_SuspendedUntil (health_at (unblockAccount now sn i) j) = hs_SuspendedUntil (health_at sn j) \<and>
   (j = i \<longrightarrow> hs_ExhaustedUntil (health_at (unblockAccount now sn i) j) = 0 \<and>
              hs_ThrottledUntil (health_at (unblockAccount now sn i) j) = 0) \<and>
   (j \<noteq> i \<longrightarrow> health_at (unblockAccount now sn i) j = health_at sn j)"
  by (cases "j = i") (simp_all add: unblockAccount_def Let_def clearThrottle_def refreshCapacity_other)

text \<open>The accounts of a snapshot have the identities it indexes.\<close>

lemma unblock_valid:
  assumes "rt_valid now rt" and "now + 30 * Day < year10000"
    and "\<And>sn. rt_snapshot rt = Some sn \<Longrightarrow> identities_ok (rs_Accounts sn)"
  shows "rt_valid now (snd (unblock now name rt))"
proof -
  have fold: "snapshot_valid now (foldl (unblockAccount now) sn is)"
    if "snapshot_valid now sn" "\<forall>i \<in> set is. validateAccountIdentity i = Inr ()" for sn "is"
    using that by (induction "is" arbitrary: sn) (simp_all add: unblockAccount_valid [OF _ _ assms(2)])
  show ?thesis
  proof (cases "rt_snapshot rt")
    case None
    then show ?thesis using assms(1) by (simp add: unblock_def)
  next
    case (Some sn)
    have "\<forall>a \<in> set (rs_Accounts sn). validateAccountIdentity (acc_Identity a) = Inr ()"
      using assms(3) [OF Some] by (simp add: identities_ok_def list_all_iff)
    then show ?thesis using Some fold [OF rt_valid_Some [OF assms(1) Some]] assms(1)
      by (simp add: unblock_def Let_def)
  qed
qed

text \<open>
  Unblocking lifts what upstream rate limits imposed and nothing else: after a successful
  \<open>unblock\<close> the selected accounts carry no cooldown and no throttle, every other account has
  the health it had, no suspension of any account is lifted, and accounts, configuration and
  generation are untouched.
\<close>

theorem unblock_lifts_rate_limits_only:
  assumes "unblock now name rt = (Inr (), rt')" and "rt_snapshot rt = Some sn"
  shows "\<exists>sn'. rt_snapshot rt' = Some sn' \<and> rs_Accounts sn' = rs_Accounts sn \<and> rs_Config sn' = rs_Config sn \<and>
     rs_Generation sn' = rs_Generation sn \<and>
     (\<forall>j. hs_SuspendedUntil (health_at sn' j) = hs_SuspendedUntil (health_at sn j)) \<and>
     (\<forall>item \<in> set (rs_Accounts sn). TrimSpace name = [] \<or> selects (TrimSpace name) item \<longrightarrow>
        hs_ExhaustedUntil (health_at sn' (acc_Identity item)) = 0 \<and> hs_ThrottledUntil (health_at sn' (acc_Identity item)) = 0) \<and>
     (\<forall>j. (\<forall>item \<in> set (rs_Accounts sn). TrimSpace name = [] \<or> selects (TrimSpace name) item \<longrightarrow> acc_Identity item \<noteq> j) \<longrightarrow>
        health_at sn' j = health_at sn j)"
proof -
  let ?ids = "map acc_Identity (filter (\<lambda>item. TrimSpace name = [] \<or> selects (TrimSpace name) item) (rs_Accounts sn))"
  have rt': "rt' = rt\<lparr>rt_snapshot := Some (foldl (unblockAccount now) sn ?ids)\<rparr>"
    using assms by (auto simp: unblock_def Let_def split: if_splits)
  have fold: "rs_Accounts (foldl (unblockAccount now) s is) = rs_Accounts s \<and> rs_Config (foldl (unblockAccount now) s is) = rs_Config s \<and>
      rs_Generation (foldl (unblockAccount now) s is) = rs_Generation s \<and>
      hs_SuspendedUntil (health_at (foldl (unblockAccount now) s is) j) = hs_SuspendedUntil (health_at s j) \<and>
      (j \<in> set is \<or> hs_ExhaustedUntil (health_at s j) = 0 \<and> hs_ThrottledUntil (health_at s j) = 0 \<longrightarrow>
         hs_ExhaustedUntil (health_at (foldl (unblockAccount now) s is) j) = 0 \<and>
         hs_ThrottledUntil (health_at (foldl (unblockAccount now) s is) j) = 0) \<and>
      (j \<notin> set is \<longrightarrow> health_at (foldl (unblockAccount now) s is) j = health_at s j)" for s "is" j
  proof (induction "is" arbitrary: s)
    case (Cons i "is")
    show ?case using Cons [of "unblockAccount now s i"] unblockAccount_health [of now s i j]
      by (cases "j = i") auto
  qed simp
  show ?thesis unfolding rt'
    by (rule exI [of _ "foldl (unblockAccount now) sn ?ids"]) (use fold [of sn ?ids] in auto)
qed

definition limitedRuntime :: pluginRuntime where
  "limitedRuntime = sampleRuntime\<lparr>rt_snapshot := Some (sampleSnapshot\<lparr>rs_Health := [(sampleIdentity,
     zero_healthState\<lparr>hs_ExhaustedUntil := sampleNow + Hour, hs_ExhaustedReason := ''retry-after header'',
                      hs_SuspendedUntil := sampleNow + Hour\<rparr>)]\<rparr>)\<rparr>"

theorem unblock_lifts_rate_limits_only_witness:
  "\<exists>sn'. rt_snapshot (snd (unblock sampleNow [] limitedRuntime)) = Some sn' \<and>
     hs_ExhaustedUntil (health_at sn' sampleIdentity) = 0 \<and> hs_SuspendedUntil (health_at sn' sampleIdentity) = sampleNow + Hour"
proof -
  let ?sn = "the (rt_snapshot limitedRuntime)"
  have u: "fst (unblock sampleNow [] limitedRuntime) = Inr ()" by code_simp
  have sn: "rt_snapshot limitedRuntime = Some ?sn" by (simp add: limitedRuntime_def)
  have f: "sampleAccount \<in> set (rs_Accounts ?sn)" "acc_Identity sampleAccount = sampleIdentity"
    "hs_SuspendedUntil (health_at ?sn sampleIdentity) = sampleNow + Hour" by code_simp+
  have "unblock sampleNow [] limitedRuntime = (Inr (), snd (unblock sampleNow [] limitedRuntime))" using u by (metis prod.collapse)
  from unblock_lifts_rate_limits_only [OF this sn] show ?thesis using f by fastforce
qed

lemma statusLoop_valid:
  "snapshot_valid now sn \<Longrightarrow> now + 30 * Day < year10000 \<Longrightarrow> snapshot_valid now (snd (statusLoop now items sn))"
  by (induction items arbitrary: sn) (auto simp: split_beta Let_def refreshCapacity_valid)

lemma managementStatus_valid:
  "rt_valid now rt \<Longrightarrow> now + 30 * Day < year10000 \<Longrightarrow> rt_valid now (snd (managementStatus now version status rt))"
  by (auto simp: managementStatus_def rt_valid_def split_beta Let_def statusLoop_valid split: option.splits)

section \<open>An update in memory and after a restart\<close>

definition normalized_setting :: "accountSetting \<Rightarrow> bool" where
  "normalized_setting s \<longleftrightarrow> TrimSpace (as_Name s) = as_Name s \<and> normalizePlan (as_Plan s) = as_Plan s"

text \<open>The new setting takes back nothing the old one had set.\<close>

definition extends_setting :: "accountSetting \<Rightarrow> accountSetting \<Rightarrow> bool" where
  "extends_setting s s' \<longleftrightarrow> (as_Name s' = [] \<longrightarrow> as_Name s = []) \<and> (as_Plan s' = [] \<longrightarrow> as_Plan s = []) \<and>
     (as_Disabled s' = None \<longrightarrow> as_Disabled s = None) \<and> (as_FiveHourCredits s' \<le> 0 \<longrightarrow> as_FiveHourCredits s \<le> 0) \<and>
     (as_WeeklyCredits s' \<le> 0 \<longrightarrow> as_WeeklyCredits s \<le> 0)"

lemma applySetting_stored:
  "normalized_setting s \<Longrightarrow> applySettingToAccount s a = storedCredits s (storedDisabled s (storedPlan s (storedName s a)))"
  by (simp add: normalized_setting_def applySettingToAccount_def storedCredits_def storedDisabled_def storedPlan_def storedName_def Let_def
      split: option.splits)

lemma normalizePlan_fix: "normalizePlan p = p \<Longrightarrow> p \<in> {[], ''lite'', ''pro'', ''max'', ''custom''}"
  using normalizePlan_range [of p] by metis

lemma applySetting_fields [simp]:
  "acc_Identity (applySettingToAccount s a) = acc_Identity a"
  "acc_Name (applySettingToAccount s a) = (if as_Name s \<noteq> [] then as_Name s else acc_Name a)"
  "acc_KeySuffix (applySettingToAccount s a) = acc_KeySuffix a"
  "acc_Plan (applySettingToAccount s a) = (if as_Plan s \<noteq> [] then as_Plan s else acc_Plan a)"
  "acc_Disabled (applySettingToAccount s a) = (case as_Disabled s of None \<Rightarrow> acc_Disabled a | Some d \<Rightarrow> d)"
  "acc_FiveHourCredits (applySettingToAccount s a) =
     (if as_FiveHourCredits s > 0 then as_FiveHourCredits s
      else case (if as_Plan s = [] then None else mget planBuckets (as_Plan s)) of None \<Rightarrow> acc_FiveHourCredits a | Some b \<Rightarrow> cb_FiveHour b)"
  "acc_WeeklyCredits (applySettingToAccount s a) =
     (if as_WeeklyCredits s > 0 then as_WeeklyCredits s
      else case (if as_Plan s = [] then None else mget planBuckets (as_Plan s)) of None \<Rightarrow> acc_WeeklyCredits a | Some b \<Rightarrow> cb_Weekly b)"
  "acc_ClaudeAuthID (applySettingToAccount s a) = acc_ClaudeAuthID a"
  "acc_OpenAIAuthID (applySettingToAccount s a) = acc_OpenAIAuthID a"
  "acc_claudeAuthIDs (applySettingToAccount s a) = acc_claudeAuthIDs a"
  "acc_key (applySettingToAccount s a) = acc_key a"
  "acc_planExplicit (applySettingToAccount s a) = (as_Plan s \<noteq> [] \<or> acc_planExplicit a)"
  "acc_fiveHourCreditsExplicit (applySettingToAccount s a) = (as_FiveHourCredits s > 0 \<or> acc_fiveHourCreditsExplicit a)"
  "acc_weeklyCreditsExplicit (applySettingToAccount s a) = (as_WeeklyCredits s > 0 \<or> acc_weeklyCreditsExplicit a)"
  by (simp_all add: applySettingToAccount_def Let_def split: option.splits)

lemma applySetting_again:
  assumes "extends_setting s s'" and "normalized_setting s'" and "validateStoredSetting s' = Inr ()"
  shows "applySettingToAccount s' (applySettingToAccount s a) = applySettingToAccount s' a"
proof -
  have plan: "as_Plan s' \<in> {[], ''lite'', ''pro'', ''max'', ''custom''}"
    using assms(2) normalizePlan_fix by (simp add: normalized_setting_def)
  have buckets: "as_Plan s' = [] \<or> (\<exists>b. mget planBuckets (as_Plan s') = Some b) \<or>
      (0 < as_FiveHourCredits s' \<and> 0 < as_WeeklyCredits s')"
    using plan assms(2, 3)
    by (auto simp: planBuckets_def validateStoredSetting_def normalized_setting_def Let_def split: if_splits)
  have "acc_FiveHourCredits (applySettingToAccount s' (applySettingToAccount s a)) = acc_FiveHourCredits (applySettingToAccount s' a)"
    "acc_WeeklyCredits (applySettingToAccount s' (applySettingToAccount s a)) = acc_WeeklyCredits (applySettingToAccount s' a)"
    using assms(1) buckets by (auto simp: extends_setting_def split: option.splits)
  moreover have "acc_Disabled (applySettingToAccount s' (applySettingToAccount s a)) = acc_Disabled (applySettingToAccount s' a)"
    using assms(1) by (auto simp: extends_setting_def split: option.splits)
  ultimately show ?thesis
    using assms(1) by (intro account.equality) (auto simp: extends_setting_def simp del: applySetting_fields(5-7))
qed

lemma requestedPlan_normalized:
  "requestedPlan input s = Inr s' \<Longrightarrow> normalized_setting s \<Longrightarrow> normalized_setting s'"
proof -
  have known: "normalizePlan ''lite'' = ''lite''" "normalizePlan ''pro'' = ''pro''" "normalizePlan ''max'' = ''max''"
    "normalizePlan ''custom'' = ''custom''" "normalizePlan [] = []" by code_simp+
  then have fix_plan: "normalizePlan (normalizePlan p) = normalizePlan p" for p
    using normalizePlan_range [of p] by auto
  show "requestedPlan input s = Inr s' \<Longrightarrow> normalized_setting s \<Longrightarrow> normalized_setting s'"
    by (auto simp: requestedPlan_def normalized_setting_def Let_def fix_plan known split: if_splits)
qed

lemma requestedSetting_normalized:
  assumes "requestedSetting input s = Inr s'" and "normalized_setting s" and "\<not> cr_Clear input"
  shows "normalized_setting s' \<and> validateStoredSetting s' = Inr ()"
proof -
  let ?s1 = "if cr_Name input \<noteq> [] then s\<lparr>as_Name := TrimSpace (cr_Name input)\<rparr> else s"
  have "normalized_setting ?s1" using assms(2) by (simp add: normalized_setting_def)
  moreover obtain s2 where "requestedPlan input ?s1 = Inr s2" "as_Name s' = as_Name s2" "as_Plan s' = as_Plan s2"
      "validateStoredSetting s' = Inr ()"
    using assms(1, 3) by (auto simp: requestedSetting_def bindR_Inr_iff Let_def split: option.splits)
  ultimately show ?thesis using requestedPlan_normalized by (fastforce simp: normalized_setting_def)
qed

lemma requestedConfig_accounts:
  assumes "requestedConfig input cfg settings = Inr (cfg', settings')"
  shows "sf_Accounts settings' = sf_Accounts settings"
proof -
  have t: "requestedThreshold input cs = Inr c1 \<Longrightarrow> sf_Accounts (snd c1) = sf_Accounts (snd cs)"
    "requestedInterval input cs = Inr c2 \<Longrightarrow> sf_Accounts (snd c2) = sf_Accounts (snd cs)"
    "requestedMaxAge input cs = Inr c3 \<Longrightarrow> sf_Accounts (snd c3) = sf_Accounts (snd cs)"
    "requestedTimeout input cs = Inr c4 \<Longrightarrow> sf_Accounts (snd c4) = sf_Accounts (snd cs)" for cs c1 c2 c3 c4
    by (auto simp: requestedThreshold_def requestedInterval_def requestedMaxAge_def requestedTimeout_def bindR_Inr_iff
        split: option.splits if_splits sum.splits)
  obtain c1 c2 c3 where "requestedThreshold input (cfg, settings) = Inr c1" "requestedInterval input c1 = Inr c2"
      "requestedMaxAge input c2 = Inr c3" "requestedTimeout input c3 = Inr (cfg', settings')"
    using assms by (auto simp: requestedConfig_def bindR_Inr_iff)
  then show ?thesis using t by (metis snd_conv)
qed

lemma planUpdate_parts:
  assumes "planUpdate input settings0 index sn = Inr (updated, settings')"
  obtains setting cfg settings1 candidate where
    "requestedSetting input (mget_or zero_accountSetting (sf_Accounts settings0) (acc_Identity (rs_Accounts sn ! index))) = Inr setting"
    "requestedConfig input (rs_Config sn) (if sf_Version settings0 = 0 then settings0\<lparr>sf_Version := 1\<rparr> else settings0) = Inr (cfg, settings1)"
    "candidateAccount input setting index sn = Inr candidate"
    "updated = sn\<lparr>rs_Accounts := (rs_Accounts sn)[index := candidate],
                  rs_byIdentity := mput (acc_Identity candidate) candidate (rs_byIdentity sn), rs_Config := cfg\<rparr>"
    "settings' = settings1\<lparr>sf_Accounts := (if cr_Clear input then mdel (acc_Identity (rs_Accounts sn ! index)) (sf_Accounts settings1)
                                           else mput (acc_Identity (rs_Accounts sn ! index)) setting (sf_Accounts settings1))\<rparr>"
proof -
  have old: "sf_Accounts (if sf_Version settings0 = 0 then settings0\<lparr>sf_Version := 1\<rparr> else settings0) = sf_Accounts settings0" by simp
  show ?thesis
    using assms that unfolding planUpdate_def Let_def old by (clarsimp simp only: bindR_Inr_iff split_paired_all prod.case sum.inject prod.inject)
qed

text \<open>
  C31. An account update in memory and after a restart. When the published account is the base
  account with its stored setting applied, an accepted update publishes the base account if the
  request clears the setting, and otherwise the base account with the old and then the new setting
  applied; a restart will take the base account with the new setting alone. The two are the same
  account when the request clears the setting or takes back nothing that was set.
\<close>

theorem update_matches_restart:
  assumes "planUpdate input settings index sn = Inr (updated, settings')" and "index < length (rs_Accounts sn)"
    and "rs_BaseAccounts sn ! index = base" "acc_Identity base = acc_Identity (rs_Accounts sn ! index)"
    and "rs_Accounts sn ! index = applyStoredAccount (sf_Accounts settings) base"
    and "normalized_setting (mget_or zero_accountSetting (sf_Accounts settings) (acc_Identity base))"
  shows "let old = mget_or zero_accountSetting (sf_Accounts settings) (acc_Identity base);
             new = mget_or zero_accountSetting (sf_Accounts settings') (acc_Identity base);
             published = rs_Accounts updated ! index; restarted = applyStoredAccount (sf_Accounts settings') base in
    published = (if cr_Clear input then base else applySettingToAccount new (applySettingToAccount old base)) \<and>
    restarted = (if cr_Clear input then base else applySettingToAccount new base) \<and>
    (cr_Clear input \<or> extends_setting old new \<longrightarrow> published = restarted)"
proof -
  let ?old = "mget_or zero_accountSetting (sf_Accounts settings) (acc_Identity base)"
  let ?item = "rs_Accounts sn ! index"
  obtain setting cfg settings1 candidate where
      r: "requestedSetting input ?old = Inr setting"
    and c: "requestedConfig input (rs_Config sn) (if sf_Version settings = 0 then settings\<lparr>sf_Version := 1\<rparr> else settings) = Inr (cfg, settings1)"
    and a: "candidateAccount input setting index sn = Inr candidate"
    and u: "rs_Accounts updated = (rs_Accounts sn)[index := candidate]"
    and s': "sf_Accounts settings' = (if cr_Clear input then mdel (acc_Identity ?item) (sf_Accounts settings1)
                                      else mput (acc_Identity ?item) setting (sf_Accounts settings1))"
    by (rule planUpdate_parts [OF assms(1)]) (simp add: assms(4))
  have published: "rs_Accounts updated ! index = candidate" using u assms(2) by simp
  show ?thesis
  proof (cases "cr_Clear input")
    case True
    then have "candidate = base" using a assms(3) by (auto simp: candidateAccount_def Let_def split: if_splits)
    moreover have "applyStoredAccount (sf_Accounts settings') base = base" using s' True assms(4) by (simp add: applyStoredAccount_def)
    ultimately show ?thesis using published True by (simp add: Let_def)
  next
    case False
    note n = requestedSetting_normalized [OF r assms(6) False]
    have new: "mget (sf_Accounts settings') (acc_Identity base) = Some setting" using assms(4) s' False by simp
    have item: "?item = applySettingToAccount ?old base"
    proof (cases "mget (sf_Accounts settings) (acc_Identity base)")
      case None
      then show ?thesis using assms(5)
        by (simp add: applyStoredAccount_def mget_or_def) (simp add: applySettingToAccount_def zero_accountSetting_def)
    next
      case (Some x)
      then show ?thesis using assms(5, 6) applySetting_stored [of x base]
        by (simp add: applyStoredAccount_def mget_or_def)
    qed
    have "candidate = applySettingToAccount setting (applySettingToAccount ?old base)"
      using a False item by (simp add: candidateAccount_def Let_def)
    moreover have "applyStoredAccount (sf_Accounts settings') base = applySettingToAccount setting base"
      using new applySetting_stored [OF conjunct1 [OF n], of base] by (simp add: applyStoredAccount_def)
    ultimately show ?thesis
      using published False new applySetting_again [OF _ conjunct1 [OF n] conjunct2 [OF n], of ?old base] by (simp add: Let_def mget_or_def)
  qed
qed

definition planRequest :: accountConfigRequest where
  "planRequest = \<lparr>cr_Account = acc_Name sampleAccount, cr_Clear = False, cr_Name = [], cr_Plan = ''max'', cr_Disabled = None,
     cr_FiveHourCredits = None, cr_WeeklyCredits = None, cr_ThresholdPercent = None, cr_PollingInterval = [],
     cr_AuthoritativeMaxAge = [], cr_Timeout = []\<rparr>"

theorem update_matches_restart_witness:
  "\<exists>updated settings'. planUpdate planRequest zero_settings 0 sampleSnapshot = Inr (updated, settings') \<and>
     rs_Accounts updated ! 0 = applyStoredAccount (sf_Accounts settings') sampleAccount"
proof -
  let ?p = "planUpdate planRequest zero_settings 0 sampleSnapshot"
  have l: "\<not> isl ?p" by code_simp
  have e: "extends_setting (mget_or zero_accountSetting (sf_Accounts zero_settings) (acc_Identity sampleAccount))
        (mget_or zero_accountSetting (sf_Accounts (snd (projr ?p))) (acc_Identity sampleAccount))" by code_simp
  obtain updated settings' where p: "?p = Inr (updated, settings')" using l by (cases ?p) auto
  have h: "0 < length (rs_Accounts sampleSnapshot)" "rs_BaseAccounts sampleSnapshot ! 0 = sampleAccount"
    "acc_Identity sampleAccount = acc_Identity (rs_Accounts sampleSnapshot ! 0)"
    "rs_Accounts sampleSnapshot ! 0 = applyStoredAccount (sf_Accounts zero_settings) sampleAccount"
    "normalized_setting (mget_or zero_accountSetting (sf_Accounts zero_settings) (acc_Identity sampleAccount))"
    by (simp_all add: sampleSnapshot_def zero_settings_def applyStoredAccount_def mget_or_def normalized_setting_def
        zero_accountSetting_def normalizePlan_def Let_def ToLower_def)
  from e p have e': "extends_setting (mget_or zero_accountSetting (sf_Accounts zero_settings) (acc_Identity sampleAccount))
      (mget_or zero_accountSetting (sf_Accounts settings') (acc_Identity sampleAccount))" by simp
  have "rs_Accounts updated ! 0 = applyStoredAccount (sf_Accounts settings') sampleAccount"
    using update_matches_restart [OF p h] e' unfolding Let_def by blast
  then show ?thesis using p by blast
qed

text \<open>
  Taking back an override without clearing the account splits the two: credits set to zero in a
  request are dropped from the settings, but the published account keeps the old credits until the
  next reconfiguration.
\<close>

definition creditSetting :: accountSetting where
  "creditSetting = zero_accountSetting\<lparr>as_FiveHourCredits := 500\<rparr>"

definition creditSnapshot :: runtimeSnapshot where
  "creditSnapshot = sampleSnapshot\<lparr>rs_Accounts := [applySettingToAccount creditSetting sampleAccount]\<rparr>"

theorem removed_override_survives_until_restart:
  "case planUpdate (planRequest\<lparr>cr_Plan := [], cr_FiveHourCredits := Some 0\<rparr>)
        (zero_settings\<lparr>sf_Version := 1, sf_Accounts := [(sampleIdentity, creditSetting)]\<rparr>) 0 creditSnapshot of
     Inl _ \<Rightarrow> False
   | Inr (updated, settings') \<Rightarrow>
       acc_FiveHourCredits (rs_Accounts updated ! 0) = 500 \<and>
       acc_FiveHourCredits (applyStoredAccount (sf_Accounts settings') sampleAccount) = acc_FiveHourCredits sampleAccount \<and>
       acc_FiveHourCredits sampleAccount \<noteq> 500"
  by code_simp

end
