(* ===== verification/Lifecycle.thy ===== *)
theory Lifecycle
  imports ManagementInv Quota
begin

text \<open>
  The Z.ai module as a whole: usage records, polls, writes, picks, management requests,
  reconfigurations and the shutdown, in any order and with time passing in between. A usage record
  or a poll leaves a write behind that is done by a later step, and any other step may come between
  the two: more interleavings than the locks of \<^verbatim>\<open>runtime.go\<close> allow, since \<open>handleUsage\<close> keeps
  \<open>persistMu\<close> until its write is done. A poll takes in whatever \<open>fetchQuota\<close> makes of what the
  upstream answers. The theorems are invariants of every state that can be reached from the start
  of the process.
\<close>

section \<open>Steps\<close>

text \<open>\<open>sy_pending\<close> are the snapshots that have been taken and not yet written.\<close>

record sys =
  sy_rt :: pluginRuntime
  sy_now :: gotime
  sy_pending :: "(storeHandle \<times> persistedState) list"

definition start :: "gotime \<Rightarrow> sys" where
  "start t = \<lparr>sy_rt = initial_runtime, sy_now = t, sy_pending = []\<rparr>"

definition scheduled :: "(storeHandle \<times> persistedState) option \<Rightarrow> (storeHandle \<times> persistedState) list" where
  "scheduled w = (case w of None \<Rightarrow> [] | Some x \<Rightarrow> [x])"

text \<open>The clock is in the range the module supports, for the configuration in force.\<close>

definition clock_fine :: "sys \<Rightarrow> bool" where
  "clock_fine s \<longleftrightarrow> year2000 \<le> sy_now s \<and> sy_now s + 30 * Day < year10000 \<and>
     (case rt_snapshot (sy_rt s) of None \<Rightarrow> True | Some sn \<Rightarrow> clock_ok (rs_Config sn) (sy_now s))"

text \<open>
  What the upstream may answer to a quota request: \<open>served\<close> are the bodies it sends. Errors of the
  transport, other status codes and bodies that cannot be read are always possible.
\<close>

definition upstreamAnswers :: "string set \<Rightarrow> httpOutcome option \<Rightarrow> bool" where
  "upstreamAnswers served client \<longleftrightarrow> (case client of Some (DoResponse _ (Some body)) \<Rightarrow> body \<in> served | _ \<Rightarrow> True)"

inductive step :: "golib \<Rightarrow> (string \<Rightarrow> quotaWireResponse option) \<Rightarrow> string set \<Rightarrow> sys \<Rightarrow> sys \<Rightarrow> bool"
  for lib decode served where
  Tick: "sy_now s \<le> later \<Longrightarrow> step lib decode served s (s\<lparr>sy_now := later\<rparr>)"
| Usage: "clock_fine s \<Longrightarrow> handleUsageLocked lib (sy_now s) (sy_now s) usage (sy_rt s) = (r, rt', w) \<Longrightarrow>
    step lib decode served s (s\<lparr>sy_rt := rt', sy_pending := scheduled w @ sy_pending s\<rparr>)"
| Poll: "clock_fine s \<Longrightarrow> year2000 \<le> at \<Longrightarrow> at \<le> sy_now s \<Longrightarrow> upstreamAnswers served client \<Longrightarrow>
    pollOnceLocked (sy_now s) (sy_now s) parentDone identity generation (fetchQuota lib decode client endpoint at) (sy_rt s) = (r, rt', w) \<Longrightarrow>
    step lib decode served s (s\<lparr>sy_rt := rt', sy_pending := scheduled w @ sy_pending s\<rparr>)"
| Write: "(store, st) \<in> set (sy_pending s) \<Longrightarrow> persistStateLocked (sy_now s) io store st (sy_rt s) = (r, rt') \<Longrightarrow>
    step lib decode served s (s\<lparr>sy_rt := rt', sy_pending := remove1 (store, st) (sy_pending s)\<rparr>)"
| Pick: "clock_fine s \<Longrightarrow> pick lib (sy_now s) req (sy_rt s) = (resp, rt') \<Longrightarrow> step lib decode served s (s\<lparr>sy_rt := rt'\<rparr>)"
| Status: "clock_fine s \<Longrightarrow> managementStatus (sy_now s) version status (sy_rt s) = (body, rt') \<Longrightarrow> step lib decode served s (s\<lparr>sy_rt := rt'\<rparr>)"
| Unblock: "clock_fine s \<Longrightarrow> unblock (sy_now s) name (sy_rt s) = (r, rt') \<Longrightarrow> step lib decode served s (s\<lparr>sy_rt := rt'\<rparr>)"
| Update: "clock_fine s \<Longrightarrow> updateAccountConfig recovered saved closeErr input (sy_rt s) = (r, rt') \<Longrightarrow> step lib decode served s (s\<lparr>sy_rt := rt'\<rparr>)"
| Reconfigure: "clock_fine s \<Longrightarrow> (\<And>p. loaded = Inr p \<Longrightarrow> decoded_times p) \<Longrightarrow>
    reconfigureWithAccounts lib (sy_now s) opened recovered loaded closeErr cfg cpa keys (sy_rt s) = (r, rt') \<Longrightarrow>
    step lib decode served s (s\<lparr>sy_rt := rt'\<rparr>)"
| Shutdown: "shutdown (sy_now s) io flushErr closeErr (sy_rt s) = (e, rt') \<Longrightarrow> step lib decode served s (s\<lparr>sy_rt := rt'\<rparr>)"

inductive_cases stepE: "step lib decode served s s'"

lemmas step_cases = stepE [consumes 1, case_names Tick Usage Poll Write Pick Status Unblock Update Reconfigure Shutdown]

section \<open>What the steps leave alone\<close>

text \<open>The accounts that are polled, by identity, and the generation they are polled for.\<close>

definition roster :: "runtimeSnapshot \<Rightarrow> 64 word \<times> (string \<times> bool) list" where
  "roster sn = (rs_Generation sn, map (\<lambda>a. (acc_Identity a, acc_Disabled a)) (rs_Accounts sn))"

definition steady :: "pluginRuntime \<Rightarrow> pluginRuntime \<Rightarrow> bool" where
  "steady rt rt' \<longleftrightarrow> rt_stopped rt' = rt_stopped rt \<and> rt_pollers rt' = rt_pollers rt \<and>
     map_option roster (rt_snapshot rt') = map_option roster (rt_snapshot rt)"

lemma pollersFor_roster: "roster sn = roster sn' \<Longrightarrow> pollersFor sn = pollersFor sn'"
proof -
  have "pollersFor s = map (\<lambda>p. (fst p, fst (roster s))) (filter (\<lambda>p. \<not> snd p) (snd (roster s)))" for s
    by (simp add: pollersFor_def roster_def filter_map comp_def)
  then show "roster sn = roster sn' \<Longrightarrow> pollersFor sn = pollersFor sn'" by metis
qed

lemma identities_roster: "roster sn = roster sn' \<Longrightarrow> identities_ok (rs_Accounts sn) = identities_ok (rs_Accounts sn')"
proof -
  have "map acc_Identity (rs_Accounts s) = map fst (snd (roster s))" for s by (simp add: roster_def comp_def)
  then show "roster sn = roster sn' \<Longrightarrow> identities_ok (rs_Accounts sn) = identities_ok (rs_Accounts sn')"
    using identities_ok_cong by metis
qed

lemma steady_refl [simp]: "steady rt rt"
  by (simp add: steady_def)

lemma steady_snapshot: "rt_snapshot rt = Some sn \<Longrightarrow> roster sn' = roster sn \<Longrightarrow> steady rt (rt\<lparr>rt_snapshot := Some sn'\<rparr>)"
  by (simp add: steady_def)

lemma roster_frame: "rs_Accounts sn' = rs_Accounts sn \<Longrightarrow> rs_Generation sn' = rs_Generation sn \<Longrightarrow> roster sn' = roster sn"
  by (simp add: roster_def)

lemma syncPlanLoop_roster:
  "map (\<lambda>a. (acc_Identity a, acc_Disabled a)) (snd (syncPlanLoop as i p b)) = map (\<lambda>a. (acc_Identity a, acc_Disabled a)) as"
  by (induction as i p b rule: syncPlanLoop.induct) (auto simp: withPlan_def split_beta Let_def)

lemma pollPlanSync_roster: "roster (pollPlanSync i f sn) = roster sn"
  by (auto simp: pollPlanSync_def roster_def syncPlanFromUpstream_def split_beta syncPlanLoop_roster Let_def
      split: sum.splits option.splits)

lemma steady_usage:
  assumes "handleUsageLocked lib now now' record rt = (r, rt', w)"
  shows "steady rt rt'"
proof (cases "rt_snapshot rt = None \<or> rt_stopped rt \<or> usageIdentity (the (rt_snapshot rt)) record = []")
  case True
  then show ?thesis using handleUsageLocked_ignored [OF True, of lib now now'] assms by auto
next
  case False
  then obtain sn where sn: "rt_snapshot rt = Some sn" "\<not> rt_stopped rt" "usageIdentity sn record \<noteq> []" by auto
  have "roster (usageSnapshot lib now record (usageIdentity sn record) sn) = roster sn"
    by (rule roster_frame) (simp_all add: usageSnapshot_def usageHealth_def Let_def split: option.splits)
  then show ?thesis using handleUsageLocked_managed [OF sn, of lib now now'] assms sn(1)
    by (auto simp: steady_def Let_def split: option.splits)
qed

lemma steady_poll:
  assumes "pollOnceLocked now now' pd i g f rt = (r, rt', w)"
  shows "steady rt rt'"
proof (cases "pollLive pd i g f rt")
  case None
  then show ?thesis using pollOnceLocked_dead [OF None, of now now'] assms by auto
next
  case (Some p)
  obtain sn st where p: "p = (sn, st)" by (cases p)
  have sn: "rt_snapshot rt = Some sn" using Some p by (auto simp: pollLive_def split: if_splits option.splits)
  have "roster (pollSnapshot now i f st sn) = roster sn"
    using pollPlanSync_roster [of i f sn] by (simp add: pollSnapshot_def Let_def roster_def)
  then show ?thesis using pollOnceLocked_live [OF Some [unfolded p], of now now'] assms sn by (auto simp: steady_def)
qed

lemma steady_persist:
  assumes "persistStateLocked now io store st rt = (r, rt')"
  shows "steady rt rt'"
  using assms
  by (auto simp: persistStateLocked_def Let_def steady_def roster_def markPersistenceFailure_def split: if_splits sum.splits option.splits)

lemma steady_pick:
  assumes "pick lib now req rt = (resp, rt')"
  shows "steady rt rt'"
proof (cases "rt_snapshot rt")
  case None
  then show ?thesis using assms by (auto simp: pick_def)
next
  case (Some sn)
  then show ?thesis using pick_state [OF Some, of lib now req] assms
    by (auto simp: steady_def pick_frame_def roster_def)
qed

lemma statusLoop_frame: "rs_Accounts (snd (statusLoop now items sn)) = rs_Accounts sn \<and> rs_Generation (snd (statusLoop now items sn)) = rs_Generation sn"
  by (induction items arbitrary: sn) (auto simp: split_beta Let_def)

lemma steady_status:
  assumes "managementStatus now version status rt = (body, rt')"
  shows "steady rt rt'"
  using assms statusLoop_frame
  by (auto simp: managementStatus_def Let_def split_beta steady_def roster_def split: option.splits)

lemma foldl_unblock_frame:
  "rs_Accounts (foldl (unblockAccount now) sn is) = rs_Accounts sn \<and> rs_Generation (foldl (unblockAccount now) sn is) = rs_Generation sn"
  by (induction "is" arbitrary: sn) auto

lemma steady_unblock:
  assumes "unblock now name rt = (r, rt')"
  shows "steady rt rt'"
  using assms foldl_unblock_frame
  by (auto simp: unblock_def Let_def steady_def roster_def split: option.splits if_splits)

section \<open>Steps that publish or stop\<close>

definition pollers_exact :: "pluginRuntime \<Rightarrow> bool" where
  "pollers_exact rt \<longleftrightarrow>
     rt_pollers rt = (if rt_stopped rt then [] else case rt_snapshot rt of None \<Rightarrow> [] | Some sn \<Rightarrow> pollersFor sn)"

definition accounts_known :: "pluginRuntime \<Rightarrow> bool" where
  "accounts_known rt \<longleftrightarrow> (case rt_snapshot rt of None \<Rightarrow> True | Some sn \<Rightarrow> identities_ok (rs_Accounts sn))"

lemma steady_invariants:
  assumes "steady rt rt'"
  shows "pollers_exact rt' = pollers_exact rt" "accounts_known rt' = accounts_known rt"
proof -
  have "pollers_exact rt' = pollers_exact rt \<and> accounts_known rt' = accounts_known rt"
  proof (cases "rt_snapshot rt")
    case None
    then show ?thesis using assms by (simp add: steady_def pollers_exact_def accounts_known_def)
  next
    case (Some sn)
    then obtain sn' where sn': "rt_snapshot rt' = Some sn'" "roster sn' = roster sn"
      using assms by (auto simp: steady_def)
    then show ?thesis
      using Some assms pollersFor_roster [OF sn'(2)] identities_roster [OF sn'(2)]
      by (simp add: steady_def pollers_exact_def accounts_known_def)
  qed
  then show "pollers_exact rt' = pollers_exact rt" "accounts_known rt' = accounts_known rt" by simp_all
qed

lemma steady_close: "steady rt (closeStore st rt)"
  by (simp add: steady_def)

lemma steady_reject: "steady rt (snd (rejectWith e ss rt))"
  by (simp add: steady_def rejectWith_def recordError_def Let_def)

lemma steady_trans: "steady a b \<Longrightarrow> steady b c \<Longrightarrow> steady a c"
  by (simp add: steady_def)

lemma prepareStaged_identities:
  "map acc_Identity (rs_Accounts (prepareStaged live staged)) = map acc_Identity (rs_Accounts staged)"
proof -
  have "acc_Identity (case carryAccount as a of None \<Rightarrow> a | Some b \<Rightarrow> b) = acc_Identity a" for as a
    by (auto simp: carryAccount_def withPlan_def split: option.splits)
  then show ?thesis by (auto simp: prepareStaged_def carryForwardNamedPlans_def Let_def split: option.splits)
qed

lemma commit_invariants:
  assumes "commitSnapshotAfter before closeErr staged rt = (r, rt')"
    and "pollers_exact rt" "accounts_known rt" "identities_ok (rs_Accounts staged)"
  shows "pollers_exact rt' \<and> accounts_known rt'"
proof (cases "rt_stopped rt \<or> before \<noteq> None")
  case True
  then have "steady rt rt'"
    using assms(1) steady_close by (auto simp: commitSnapshotAfter_def Let_def split: if_splits option.splits)
  then show ?thesis using assms(2, 3) steady_invariants by blast
next
  case False
  let ?s2 = "(prepareStaged (rt_snapshot rt) staged)\<lparr>rs_Routing := []\<rparr>"
  have "rt_snapshot rt' = Some ?s2 \<and> \<not> rt_stopped rt' \<and> rt_pollers rt' = pollersFor ?s2"
    using assms(1) False by (auto simp: commitSnapshotAfter_def Let_def split: if_splits)
  moreover have "identities_ok (rs_Accounts ?s2)"
    using assms(4) identities_ok_cong [OF prepareStaged_identities [of "rt_snapshot rt" staged]] by simp
  ultimately show ?thesis by (simp add: pollers_exact_def accounts_known_def)
qed

lemma update_staged:
  assumes "planUpdate input settings index sn = Inr (updated, settings')" and "index < length (rs_Accounts sn)"
    and "identities_ok (rs_Accounts sn)"
  shows "identities_ok (rs_Accounts updated) \<and> (snapshot_valid now sn \<longrightarrow> snapshot_valid now updated)"
proof -
  obtain setting cfg candidate where a: "candidateAccount input setting index sn = Inr candidate"
    and u: "updated = sn\<lparr>rs_Accounts := (rs_Accounts sn)[index := candidate],
                  rs_byIdentity := mput (acc_Identity candidate) candidate (rs_byIdentity sn), rs_Config := cfg\<rparr>"
    by (rule planUpdate_parts [OF assms(1)])
  have "acc_Identity candidate = acc_Identity (rs_Accounts sn ! index)"
    using a by (auto simp: candidateAccount_def Let_def split: if_splits)
  then have "map acc_Identity (rs_Accounts updated) = map acc_Identity (rs_Accounts sn)"
    using assms(2) by (simp add: u map_update list_update_same_conv)
  then have "identities_ok (rs_Accounts updated)" using identities_ok_cong assms(3) by blast
  moreover have "snapshot_valid now updated" if "snapshot_valid now sn" using that by (simp add: u snapshot_valid_def)
  ultimately show ?thesis by simp
qed

lemma selectIndex_bound: "selectIndex name as = Inr i \<Longrightarrow> i < length as"
proof -
  assume a: "selectIndex name as = Inr i"
  then have "filter (\<lambda>i. selects name (as ! i)) [0..<length as] = [i]"
    by (auto simp: selectIndex_def split: list.splits)
  then have "i \<in> set (filter (\<lambda>i. selects name (as ! i)) [0..<length as])" by simp
  then show "i < length as" by simp
qed

lemma update_invariants:
  assumes "updateAccountConfig recovered saved closeErr input rt = (r, rt')"
    and "pollers_exact rt" "accounts_known rt"
  shows "pollers_exact rt' \<and> accounts_known rt' \<and> (rt_valid now rt \<longrightarrow> rt_valid now rt')"
proof (cases "rt' = rt")
  case False
  then obtain sn index settings updated settings' before where sn: "rt_snapshot rt = Some sn"
    and i: "selectIndex (TrimSpace (cr_Account input)) (rs_Accounts sn) = Inr index"
    and p: "planUpdate input settings index sn = Inr (updated, settings')"
    and c: "commitSnapshotAfter before closeErr updated rt = (r, rt')"
    using assms(1)
    by (auto simp: updateAccountConfig_def Let_def bindR_Inr_iff split: if_splits option.splits sum.splits prod.splits)
  have u: "identities_ok (rs_Accounts updated) \<and> (snapshot_valid now sn \<longrightarrow> snapshot_valid now updated)"
    by (rule update_staged [OF p selectIndex_bound [OF i]]) (use assms(3) sn in \<open>simp add: accounts_known_def\<close>)
  moreover have "rt_valid now rt'" if "rt_valid now rt"
    using commit_valid [OF _ that, of updated before closeErr] c u rt_valid_Some [OF that sn] by auto
  ultimately show ?thesis using commit_invariants [OF c assms(2, 3)] by auto
qed (use assms in simp)

lemma reconfigure_invariants:
  assumes r: "reconfigureWithAccounts lib now opened recovered loaded closeErr cfg cpa keys rt = (r, rt')"
    and inv: "pollers_exact rt" "accounts_known rt"
    and env: "hmac_hex lib" "0 \<le> now" "now + 30 * Day < year10000" "\<And>p. loaded = Inr p \<Longrightarrow> decoded_times p"
  shows "pollers_exact rt' \<and> accounts_known rt'"
proof -
  have keep: ?thesis if "steady rt rt'" using that inv steady_invariants by blast
  show ?thesis
  proof (cases "rt_stopped rt \<or> isl opened")
    case True
    then have "rt' = rt \<or> (\<exists>e. rt' = snd (rejectWith e keys rt))" using r
      by (cases opened) (auto simp: reconfigureWithAccounts_def split: if_splits, metis snd_conv)
    then have "steady rt rt'" using steady_reject by auto
    then show ?thesis by (rule keep)
  next
    case False
    then obtain store where o: "opened = Inr store" and ns: "\<not> rt_stopped rt" by (cases opened) auto
    let ?st = "bindR (discoverAccounts lib cpa cfg) (\<lambda>base. bindR recovered (\<lambda>settings.
            bindR (applyStoredSettings base settings) (\<lambda>accounts. bindR (applyStoredConfig cfg settings) (\<lambda>c.
            bindR loaded (\<lambda>persisted. bindR (validatePersistedStateAt persisted now) (\<lambda>_.
              Inr (stagedSnapshot now c persisted base accounts store)))))))"
    show ?thesis
    proof (cases ?st)
      case (Inl err)
      then have "rt' = closeStore (Some store) (snd (rejectWith err keys rt))"
        using r ns o by (auto simp: reconfigureWithAccounts_def split_beta)
      then show ?thesis using keep steady_trans [OF steady_reject steady_close] by blast
    next
      case (Inr staged)
      then obtain base settings accounts c persisted where d: "discoverAccounts lib cpa cfg = Inr base"
          "applyStoredSettings base settings = Inr accounts" "loaded = Inr persisted"
          "validatePersistedStateAt persisted now = Inr ()" "staged = stagedSnapshot now c persisted base accounts store"
        by (auto simp: bindR_Inr_iff)
      have "identities_ok accounts"
        using discovered_identities [OF d(1) env(1)] stored_identities [OF d(2)] identities_ok_cong by blast
      then have ids: "identities_ok (rs_Accounts staged)"
        using stageAccounts_ok [OF d(4) env(4) [OF d(3)] env(2, 3), of accounts c] d(5)
        by (simp add: stagedSnapshot_def staging_ok_def Let_def)
      obtain q rt1 where cm: "commitSnapshot closeErr staged rt = (q, rt1)" by (cases "commitSnapshot closeErr staged rt")
      then have "pollers_exact rt1 \<and> accounts_known rt1"
        using commit_invariants [OF _ inv ids] by (simp add: commitSnapshot_def)
      moreover have "rt' = rt1 \<or> rt' = closeStore (Some store) rt1"
        using r ns o Inr cm by (auto simp: reconfigureWithAccounts_def split: sum.splits)
      ultimately show ?thesis using steady_invariants [OF steady_close] by auto
    qed
  qed
qed

lemma shutdown_snapshot:
  assumes "shutdown now io flushErr closeErr rt = (e, rt')"
  shows "rt_snapshot rt' = rt_snapshot rt" "rt' = rt \<or> (rt_stopped rt' \<and> rt_pollers rt' = [])"
  using assms
  by (auto simp: shutdown_def Let_def takeSnapshot_def split: option.splits if_splits)

section \<open>Every step keeps the state persistable\<close>

lemma markPersistenceFailure_valid: "snapshot_valid now sn \<Longrightarrow> snapshot_valid now (markPersistenceFailure st sn)"
  by (auto simp: snapshot_valid_def markPersistenceFailure_def quota_valid_def validate_flags split: if_splits)

lemma persist_valid:
  assumes "persistStateLocked now io store st rt = (r, rt')" and "rt_valid t rt"
  shows "rt_valid t rt'"
proof -
  have "rt_snapshot rt' = rt_snapshot rt \<or>
        (\<exists>sn. rt_snapshot rt = Some sn \<and> rt_snapshot rt' = Some (markPersistenceFailure st sn))"
    using assms(1) by (auto simp: persistStateLocked_def Let_def split: if_splits sum.splits option.splits)
  then show ?thesis using assms(2) markPersistenceFailure_valid by (auto simp: rt_valid_def)
qed

lemma pickScan_valid:
  "snapshot_valid now sn \<Longrightarrow> now + 30 * Day < year10000 \<Longrightarrow> snapshot_valid now (snd (pickScan lib now cands m k sn))"
  by (induction lib now cands m k sn rule: pickScan.induct) (simp_all add: Let_def split_beta refreshCapacity_valid)

lemma pick_valid:
  assumes "pick lib now req rt = (resp, rt')" and "rt_valid now rt" and "now + 30 * Day < year10000"
  shows "rt_valid now rt'"
proof (cases "rt_snapshot rt")
  case None
  then show ?thesis using assms(1, 2) by (auto simp: pick_def)
next
  case (Some sn)
  have v: "snapshot_valid now (snd (pickScan lib now (pr_Candidates req) 0 0 sn))"
    by (rule pickScan_valid [OF rt_valid_Some [OF assms(2) Some] assms(3)])
  then have "snapshot_valid now (snd (pickChoose req h (snd (pickScan lib now (pr_Candidates req) 0 0 sn))))" for h
    by (simp add: snapshot_valid_def pickChoose_frame)
  then have "rt_valid now (snd (pick lib now req rt))"
    using v Some assms(2) by (auto simp: pick_def Let_def split_beta split: option.splits)
  then show ?thesis using assms(1) by simp
qed

lemma validate_state_later:
  assumes "validatePersistedStateAt st now = Inr ()" and "now \<le> later"
  shows "validatePersistedStateAt st later = Inr ()"
proof -
  have "validateAccountStates (ps_Accounts st) later = Inr ()" if "validateAccountStates (ps_Accounts st) now = Inr ()"
    using that validate_later [OF _ assms(2)] by (auto simp: validateAccountStates_iff)
  then show ?thesis using assms(1) by (auto simp: validatePersistedStateAt_def split: if_splits sum.splits)
qed

text \<open>A snapshot that is scheduled for a later write.\<close>

lemma usage_step_valid:
  assumes "handleUsageLocked lib now now record rt = (r, rt', w)" and "rt_valid now rt" and "hash_hex lib"
    and "\<And>sn. rt_snapshot rt = Some sn \<Longrightarrow> clock_ok (rs_Config sn) now"
  shows "rt_valid now rt' \<and> (\<forall>(store, st) \<in> set (scheduled w). validatePersistedStateAt st now = Inr ())"
proof (cases "rt_snapshot rt = None \<or> rt_stopped rt \<or> usageIdentity (the (rt_snapshot rt)) record = []")
  case True
  then show ?thesis using handleUsageLocked_ignored [OF True, of lib now now] assms(1, 2) by (auto simp: scheduled_def)
next
  case False
  then obtain sn where sn: "rt_snapshot rt = Some sn" "\<not> rt_stopped rt" "usageIdentity sn record \<noteq> []" by auto
  note valid = rt_valid_Some [OF assms(2) sn(1)] and clock = assms(4) [OF sn(1)]
  have v: "snapshot_valid now (usageSnapshot lib now record (usageIdentity sn record) sn)"
    by (rule usageSnapshot_valid [OF valid _ clock assms(3)]) (use snapshot_valid_at(4) [OF valid sn(3)] in simp)
  have "year2000 \<le> now" using clock by (simp add: clock_ok_def)
  note p = persistenceSnapshot_valid [OF v this]
  show ?thesis
  proof (cases "rs_Store sn")
    case None
    then show ?thesis using handleUsageLocked_managed [OF sn, of lib now now] assms(1) v by (auto simp: scheduled_def)
  next
    case (Some store)
    then show ?thesis using handleUsageLocked_managed [OF sn, of lib now now] assms(1) v p
      by (auto simp: scheduled_def rt_valid_def Let_def)
  qed
qed

lemma poll_step_valid:
  assumes "pollOnceLocked now now pd i g f rt = (r, rt', w)" and "rt_valid now rt" and "fetched_ok now f"
    and "year2000 \<le> now" "now + 30 * Day < year10000"
    and "\<And>sn st. rt_snapshot rt = Some sn \<Longrightarrow> mget (rs_Quota sn) i = Some st \<Longrightarrow> count_fits st"
  shows "rt_valid now rt' \<and> (\<forall>(store, st) \<in> set (scheduled w). validatePersistedStateAt st now = Inr ())"
proof (cases "pollLive pd i g f rt")
  case None
  then show ?thesis using pollOnceLocked_dead [OF None, of now now] assms(1, 2) by (auto simp: scheduled_def)
next
  case (Some p)
  obtain sn st where p: "p = (sn, st)" by (cases p)
  have sn: "rt_snapshot rt = Some sn" "mget (rs_Quota sn) i = Some st"
    using Some p by (auto simp: pollLive_def split: if_splits option.splits)
  note v = pollSnapshot_valid [OF rt_valid_Some [OF assms(2) sn(1)] sn(2) assms(3, 5) assms(6) [OF sn]]
  show ?thesis
    using pollOnceLocked_live [OF Some [unfolded p], of now now] assms(1) v persistenceSnapshot_valid [OF v assms(4)]
    by (auto simp: scheduled_def rt_valid_def split: option.splits)
qed

section \<open>What a poll fetches\<close>

text \<open>The upstream sends at most eight limits in a response.\<close>

definition few_limits :: "(string \<Rightarrow> quotaWireResponse option) \<Rightarrow> string set \<Rightarrow> bool" where
  "few_limits decode served \<longleftrightarrow> (\<forall>body \<in> served. case decode body of None \<Rightarrow> True | Some r \<Rightarrow> length (qr_Limits r) \<le> 8)"

lemma fetched_ok_later:
  assumes "fetched_ok at f" and "at \<le> now"
  shows "fetched_ok now f"
  using assms by (auto simp: fetched_ok_def validateAuthoritative_def Let_def split: sum.splits if_splits)

lemma fetchQuota_fetched_ok:
  assumes "upstreamAnswers served client" and "few_limits decode served" and "year2000 \<le> at"
  shows "fetched_ok at (fetchQuota lib decode client endpoint at)"
proof (cases "fetchQuota lib decode client endpoint at")
  case (Inl e)
  then show ?thesis by (simp add: fetched_ok_def)
next
  case (Inr a)
  then obtain full where c: "client = Some (DoResponse 200 (Some full))" "length full \<le> maxQuotaResponse"
      "parseQuotaResponse decode full at = Inr a"
    by (auto simp: fetchQuota_def bindR_Inr_iff Let_def split: option.splits httpOutcome.splits if_splits sum.splits)
  then obtain r where r: "decode full = Some r" by (auto simp: parseQuotaResponse_def split: option.splits)
  then have "length (qr_Limits r) \<le> 8" using assms(1, 2) c(1) by (force simp: upstreamAnswers_def few_limits_def)
  from parseQuotaResponse_fetched_ok [OF c(3) r this assms(3)] Inr show ?thesis by simp
qed

section \<open>The invariants\<close>

text \<open>Which accounts are known and polled, whatever the polls bring in.\<close>

definition live_ok :: "sys \<Rightarrow> bool" where
  "live_ok s \<longleftrightarrow> accounts_known (sy_rt s) \<and> pollers_exact (sy_rt s)"

lemma live_ok_steady:
  assumes "live_ok s" and "steady (sy_rt s) rt'"
  shows "live_ok (s\<lparr>sy_rt := rt', sy_pending := ws\<rparr>)" "live_ok (s\<lparr>sy_rt := rt'\<rparr>)"
  using assms(1) steady_invariants [OF assms(2)] by (simp_all add: live_ok_def)

lemma step_live:
  assumes "step lib decode served s s'" and ok: "live_ok s" and lib: "hmac_hex lib"
  shows "live_ok s'"
  using assms(1)
proof (cases rule: step_cases)
  case (Tick later)
  then show ?thesis using ok by (simp add: live_ok_def)
next
  case (Usage usage r rt' w)
  then show ?thesis using live_ok_steady(1) [OF ok steady_usage [OF Usage(3)]] by simp
next
  case (Poll at client parentDone identity generation endpoint r rt' w)
  then show ?thesis using live_ok_steady(1) [OF ok steady_poll [OF Poll(6)]] by simp
next
  case (Write store st io r rt')
  then show ?thesis using live_ok_steady(1) [OF ok steady_persist [OF Write(3)]] by simp
next
  case (Pick req resp rt')
  then show ?thesis using live_ok_steady(2) [OF ok steady_pick [OF Pick(3)]] by simp
next
  case (Status version status body rt')
  then show ?thesis using live_ok_steady(2) [OF ok steady_status [OF Status(3)]] by simp
next
  case (Unblock name r rt')
  then show ?thesis using live_ok_steady(2) [OF ok steady_unblock [OF Unblock(3)]] by simp
next
  case (Update recovered saved closeErr input r rt')
  then show ?thesis using update_invariants [OF Update(3)] ok by (simp add: live_ok_def)
next
  case (Reconfigure loaded opened recovered closeErr cfg cpa keys r rt')
  have t: "0 \<le> sy_now s" "sy_now s + 30 * Day < year10000"
    using Reconfigure(2) by (simp_all add: clock_fine_def year2000_def go_time)
  have "pollers_exact rt' \<and> accounts_known rt'"
    by (rule reconfigure_invariants [OF Reconfigure(4) _ _ lib t Reconfigure(3)]) (use ok in \<open>simp_all add: live_ok_def\<close>)
  then show ?thesis unfolding Reconfigure(1) by (simp add: live_ok_def)
next
  case (Shutdown io flushErr closeErr e rt')
  note sd = shutdown_snapshot [OF Shutdown(2)]
  have "accounts_known rt' = accounts_known (sy_rt s)" using sd(1) by (simp add: accounts_known_def)
  moreover have "pollers_exact rt'" using sd(2) ok by (auto simp: live_ok_def pollers_exact_def)
  ultimately show ?thesis unfolding Shutdown(1) using ok by (simp add: live_ok_def)
qed

lemma reachable_live:
  assumes "(step lib decode served)\<^sup>*\<^sup>* (start t) s" and "hmac_hex lib"
  shows "live_ok s"
  using assms(1)
proof (induction rule: rtranclp_induct)
  case base
  show ?case by (simp add: live_ok_def start_def initial_runtime_def accounts_known_def pollers_exact_def)
qed (use step_live [OF _ _ assms(2)] in blast)

text \<open>What is stored and what is about to be written validates.\<close>

definition writes_ok :: "gotime \<Rightarrow> (storeHandle \<times> persistedState) list \<Rightarrow> bool" where
  "writes_ok now ws \<longleftrightarrow> (\<forall>(store, st) \<in> set ws. validatePersistedStateAt st now = Inr ())"

definition sys_ok :: "sys \<Rightarrow> bool" where
  "sys_ok s \<longleftrightarrow> rt_valid (sy_now s) (sy_rt s) \<and> writes_ok (sy_now s) (sy_pending s)"

lemma sys_ok_update:
  assumes "sys_ok s" and "rt_valid (sy_now s) rt'"
  shows "sys_ok (s\<lparr>sy_rt := rt'\<rparr>)"
    and "writes_ok (sy_now s) ws \<Longrightarrow> sys_ok (s\<lparr>sy_rt := rt', sy_pending := ws\<rparr>)"
  using assms by (simp_all add: sys_ok_def)

lemma sys_ok_scheduled:
  assumes "sys_ok s" and "rt_valid (sy_now s) rt' \<and> (\<forall>(store, st) \<in> set (scheduled w). validatePersistedStateAt st (sy_now s) = Inr ())"
  shows "sys_ok (s\<lparr>sy_rt := rt', sy_pending := scheduled w @ sy_pending s\<rparr>)"
  using assms by (auto simp: sys_ok_def writes_ok_def)

text \<open>
  The counters of failed polls have room: no account has failed \<open>2 ^ 63 - 1\<close> times in a row, where the
  counter would wrap to a negative number, which the validation rejects.
\<close>

definition counts_fine :: "sys \<Rightarrow> bool" where
  "counts_fine s \<longleftrightarrow> (case rt_snapshot (sy_rt s) of None \<Rightarrow> True | Some sn \<Rightarrow> \<forall>(i, st) \<in> set (rs_Quota sn). count_fits st)"

definition tame_step :: "golib \<Rightarrow> (string \<Rightarrow> quotaWireResponse option) \<Rightarrow> string set \<Rightarrow> sys \<Rightarrow> sys \<Rightarrow> bool" where
  "tame_step lib decode served s s' \<longleftrightarrow> step lib decode served s s' \<and> counts_fine s"

lemma tame_steps: "(tame_step lib decode served)\<^sup>*\<^sup>* s s' \<Longrightarrow> (step lib decode served)\<^sup>*\<^sup>* s s'"
  by (rule rtranclp_mono [THEN predicate2D]) (auto simp: tame_step_def)

lemma counts_fine_at: "counts_fine s \<Longrightarrow> rt_snapshot (sy_rt s) = Some sn \<Longrightarrow> mget (rs_Quota sn) i = Some st \<Longrightarrow> count_fits st"
  by (auto simp: counts_fine_def dest!: map_of_SomeD)

lemma step_ok:
  assumes "step lib decode served s s'" and ok: "sys_ok s" "live_ok s" and lib: "hash_hex lib" "hmac_hex lib"
    and few: "few_limits decode served" and fits: "counts_fine s"
  shows "sys_ok s'"
  using assms(1)
proof (cases rule: step_cases)
  case (Tick later)
  then show ?thesis using ok rt_valid_later validate_state_later
    by (auto simp: sys_ok_def writes_ok_def)
next
  case (Usage usage r rt' w)
  show ?thesis unfolding Usage(1)
    by (rule sys_ok_scheduled [OF ok(1) usage_step_valid [OF Usage(3) _ lib(1)]])
      (use ok Usage(2) in \<open>simp_all add: sys_ok_def clock_fine_def\<close>)
next
  case (Poll at client parentDone identity generation endpoint r rt' w)
  note f = fetched_ok_later [OF fetchQuota_fetched_ok [OF Poll(5) few Poll(3)] Poll(4)]
  show ?thesis unfolding Poll(1)
    by (rule sys_ok_scheduled [OF ok(1) poll_step_valid [OF Poll(6) _ f _ _ counts_fine_at [OF fits]]])
      (use ok Poll(2) in \<open>simp_all add: sys_ok_def clock_fine_def\<close>)
next
  case (Write store st io r rt')
  show ?thesis unfolding Write(1)
    by (intro sys_ok_update(2) [OF ok(1) persist_valid [OF Write(3)]])
      (use ok set_remove1_subset [of "(store, st)" "sy_pending s"] in \<open>auto simp: sys_ok_def writes_ok_def\<close>)
next
  case (Pick req resp rt')
  show ?thesis unfolding Pick(1)
    by (intro sys_ok_update(1) [OF ok(1) pick_valid [OF Pick(3)]])
      (use ok Pick(2) in \<open>simp_all add: sys_ok_def clock_fine_def\<close>)
next
  case (Status version status body rt')
  show ?thesis unfolding Status(1)
    using sys_ok_update(1) [OF ok(1)] managementStatus_valid [of "sy_now s" "sy_rt s" version status] ok Status(2, 3)
    by (simp add: sys_ok_def clock_fine_def)
next
  case (Unblock name r rt')
  have "rt_valid (sy_now s) (snd (unblock (sy_now s) name (sy_rt s)))"
    by (rule unblock_valid) (use ok Unblock(2) in \<open>simp_all add: sys_ok_def live_ok_def clock_fine_def accounts_known_def\<close>)
  then show ?thesis unfolding Unblock(1) using sys_ok_update(1) [OF ok(1)] Unblock(3) by simp
next
  case (Update recovered saved closeErr input r rt')
  then show ?thesis using update_invariants [OF Update(3)] ok by (simp add: sys_ok_def live_ok_def)
next
  case (Reconfigure loaded opened recovered closeErr cfg cpa keys r rt')
  have t: "0 \<le> sy_now s" "sy_now s + 30 * Day < year10000"
    using Reconfigure(2) by (simp_all add: clock_fine_def year2000_def go_time)
  have "rt_valid (sy_now s) (snd (reconfigureWithAccounts lib (sy_now s) opened recovered loaded closeErr cfg cpa keys (sy_rt s)))"
    by (rule reconfigure_valid [OF _ lib(2) t Reconfigure(3)]) (use ok in \<open>simp_all add: sys_ok_def\<close>)
  then show ?thesis unfolding Reconfigure(1) using ok Reconfigure(4) by (simp add: sys_ok_def)
next
  case (Shutdown io flushErr closeErr e rt')
  then show ?thesis using shutdown_snapshot(1) [OF Shutdown(2)] ok by (simp add: sys_ok_def rt_valid_def)
qed

lemma reachable_ok:
  assumes "(tame_step lib decode served)\<^sup>*\<^sup>* (start t) s" and "hash_hex lib" "hmac_hex lib" and "few_limits decode served"
  shows "sys_ok s"
  using assms(1)
proof (induction rule: rtranclp_induct)
  case base
  show ?case by (simp add: sys_ok_def start_def initial_runtime_def rt_valid_def writes_ok_def)
next
  case (step s s')
  then have "step lib decode served s s'" "counts_fine s" by (simp_all add: tame_step_def)
  then show ?case using step_ok step(3) reachable_live [OF tame_steps [OF step(1)] assms(3)] assms(2-4) by blast
qed

section \<open>Properties\<close>

text \<open>
  A short history: the first configuration, then a usage record and a poll that fetches a weekly
  quota, whose writes are still due.
\<close>

definition configuredRun :: "unit result \<times> pluginRuntime" where
  "configuredRun = reconfigureWithAccounts pathLib sampleNow (Inr otherStore) (Inr zero_settings) (Inr zero_state) None
     sampleConfig sampleKeys [] initial_runtime"

definition managedUsage :: usageRecord where
  "managedUsage = sampleUsage\<lparr>ur_AuthID := ''claude:apikey:000000000000''\<rparr>"

definition usedRun :: "unit result \<times> pluginRuntime \<times> (storeHandle \<times> persistedState) option" where
  "usedRun = handleUsageLocked pathLib sampleNow sampleNow managedUsage (snd configuredRun)"

definition usedState :: sys where
  "usedState = \<lparr>sy_rt = fst (snd usedRun), sy_now = sampleNow, sy_pending = scheduled (snd (snd usedRun))\<rparr>"

definition sampleServed :: "string \<Rightarrow> quotaWireResponse option" where
  "sampleServed body = (if body = ''quota'' then Some (responseWith [creditLimit ''6'' ''1'']) else None)"

definition sampleFetch :: "quotaSnapshot result" where
  "sampleFetch = fetchQuota pathLib sampleServed (Some (DoResponse 200 (Some ''quota''))) ''/api/monitor/usage/quota/limit'' sampleNow"

definition polledRun :: "unit result \<times> pluginRuntime \<times> (storeHandle \<times> persistedState) option" where
  "polledRun = pollOnceLocked sampleNow sampleNow False sampleIdentity 1 sampleFetch (sy_rt usedState)"

definition polledState :: sys where
  "polledState = usedState\<lparr>sy_rt := fst (snd polledRun), sy_pending := scheduled (snd (snd polledRun)) @ sy_pending usedState\<rparr>"

lemma pathLib_hex: "hash_hex pathLib" "hmac_hex pathLib"
proof -
  have "validHash (replicate 64 (CHR ''0''))" "validHash sampleIdentity" by code_simp+
  then show "hash_hex pathLib" "hmac_hex pathLib" by (simp_all add: hash_hex_def hmac_hex_def pathLib_def sampleLib_def sampleIdentity_def)
qed

lemma used_reachable: "(tame_step pathLib decode served)\<^sup>*\<^sup>* (start sampleNow) usedState"
proof -
  let ?s1 = "(start sampleNow)\<lparr>sy_rt := snd configuredRun\<rparr>"
  have c: "clock_fine (start sampleNow)" "clock_fine ?s1" "decoded_times zero_state" by code_simp+
  have "step pathLib decode served (start sampleNow) ?s1"
    by (rule Reconfigure [OF c(1), where loaded = "Inr zero_state" and r = "fst configuredRun"])
      (use c(3) in \<open>auto simp: configuredRun_def start_def\<close>)
  moreover have "step pathLib decode served ?s1 (?s1\<lparr>sy_rt := fst (snd usedRun), sy_pending := scheduled (snd (snd usedRun)) @ sy_pending ?s1\<rparr>)"
    by (rule Usage [OF c(2), where usage = managedUsage and r = "fst usedRun"]) (simp add: usedRun_def start_def)
  moreover have "counts_fine (start sampleNow)" "counts_fine ?s1" by code_simp+
  ultimately have "tame_step pathLib decode served (start sampleNow) ?s1" "tame_step pathLib decode served ?s1 usedState"
    by (simp_all add: tame_step_def usedState_def start_def)
  then show ?thesis by simp
qed

lemma sampleFetch_read: "\<not> isl sampleFetch"
proof -
  let ?p = "''/api/monitor/usage/quota/limit''"
  have "\<not> isl (parseQuotaResponse sampleServed ''quota'' sampleNow)" "validateQuotaEndpoint pathLib ?p (?p \<noteq> quotaEndpoint) = Inr ()"
    by code_simp+
  then show ?thesis by (auto simp: sampleFetch_def fetchQuota_def maxQuotaResponse_def isl_def split: sum.splits)
qed

lemma sampleServed_few: "few_limits sampleServed {''quota''}"
  by code_simp

lemma polled_reachable: "(tame_step pathLib sampleServed {''quota''})\<^sup>*\<^sup>* (start sampleNow) polledState"
proof -
  have c: "clock_fine usedState" "year2000 \<le> sampleNow" by code_simp+
  have "step pathLib sampleServed {''quota''} usedState polledState" unfolding polledState_def
    by (rule Poll [OF c(1, 2), where client = "Some (DoResponse 200 (Some ''quota''))" and identity = sampleIdentity and generation = 1
          and parentDone = False and endpoint = "''/api/monitor/usage/quota/limit''" and r = "fst polledRun"])
      (simp_all add: polledRun_def sampleFetch_def upstreamAnswers_def usedState_def)
  moreover have "counts_fine usedState" by code_simp
  ultimately have "tame_step pathLib sampleServed {''quota''} usedState polledState" by (simp add: tame_step_def)
  then show ?thesis using used_reachable by (rule rtranclp.rtrancl_into_rtrancl [rotated])
qed



text \<open>
  C30. The pollers are those of the live configuration. In every state that can be reached there is
  exactly one poller for each enabled account of the published snapshot, with its generation, and
  none before the first configuration or after the shutdown, whatever the polls fetched.
\<close>

theorem pollers_match_live_accounts:
  assumes "(step lib decode served)\<^sup>*\<^sup>* (start t) s" and "hmac_hex lib"
  shows "rt_pollers (sy_rt s) =
    (if rt_stopped (sy_rt s) then []
     else case rt_snapshot (sy_rt s) of
            None \<Rightarrow> []
          | Some sn \<Rightarrow> map (\<lambda>a. (acc_Identity a, rs_Generation sn)) (filter (\<lambda>a. \<not> acc_Disabled a) (rs_Accounts sn)))"
  using reachable_live [OF assms] by (simp add: live_ok_def pollers_exact_def pollersFor_def cong: option.case_cong)

theorem pollers_match_live_accounts_witness:
  "rt_pollers (sy_rt usedState) = [(sampleIdentity, 1)]"
proof -
  have "(case rt_snapshot (sy_rt usedState) of None \<Rightarrow> [] | Some sn \<Rightarrow>
           map (\<lambda>a. (acc_Identity a, rs_Generation sn)) (filter (\<lambda>a. \<not> acc_Disabled a) (rs_Accounts sn))) = [(sampleIdentity, 1)]"
    "\<not> rt_stopped (sy_rt usedState)" by code_simp+
  then show ?thesis using pollers_match_live_accounts [OF tame_steps [OF used_reachable] pathLib_hex(2)] by simp
qed

end
