(* ===== verification/OpencodeGo.thy ===== *)
theory OpencodeGo
  imports Quota
begin

text \<open>
  The OpenCode Go provider, \<^verbatim>\<open>internal/providers/opencodego/module.go\<close> and
  \<^verbatim>\<open>quota.go\<close>: its configuration, the dashboard usage response, the windows of an account, and
  the methods of \<open>Module\<close>. A method runs under the mutex of the module, so it is one function
  of the module's state. A Go map is an association list whose order is the order of iteration.
\<close>

section \<open>The usage endpoint\<close>

definition usageEndpoint :: string where "usageEndpoint = ''https://opencode.ai/zen/go/v1/usage''"
definition maxUsageResponse :: nat where "maxUsageResponse = 1048576"
definition maxResetFuture :: duration where "maxResetFuture = 35 * 24 * Hour"

record usageWindow =
  uw_Utilization :: float64
  uw_LimitReached :: bool
  uw_ResetAt :: gotime

record usageSnapshot =
  us_FiveHour :: usageWindow
  us_Weekly :: usageWindow
  us_Monthly :: usageWindow
  us_ObservedAt :: gotime

record usageWireWindow =
  ww_Status :: string
  ww_Percent :: string
  ww_ResetsAt :: string

record usageWireUsage =
  wu_Rolling :: usageWireWindow
  wu_Weekly :: usageWireWindow
  wu_Monthly :: usageWireWindow

definition validateUsageEndpoint :: "golib \<Rightarrow> string \<Rightarrow> bool \<Rightarrow> unit result" where
  "validateUsageEndpoint lib endpoint allowTestEndpoint =
     (case lib_urlParse lib endpoint of
        None \<Rightarrow> Inl (Msg ''invalid usage endpoint'')
      | Some parsed \<Rightarrow>
          if url_HasUser parsed \<or> url_RawQuery parsed \<noteq> [] \<or> url_Fragment parsed \<noteq> []
          then Inl (Msg ''invalid usage endpoint'')
          else if allowTestEndpoint \<and> url_Scheme parsed = ''http'' \<and>
                  (lib_urlHostname lib parsed = ''127.0.0.1'' \<or> lib_urlHostname lib parsed = ''localhost'')
          then Inr ()
          else if url_Scheme parsed \<noteq> ''https'' \<or> url_Host parsed \<noteq> ''opencode.ai'' \<or> url_Path parsed \<noteq> ''/zen/go/v1/usage''
          then Inl (Msg ''invalid usage endpoint'')
          else Inr ())"

definition hundred :: float64 where "hundred = (100, 0)"

text \<open>The status is quoted in the error of the source; here the error is its fixed part.\<close>

definition parseUsageWindow :: "golib \<Rightarrow> usageWireWindow \<Rightarrow> gotime \<Rightarrow> usageWindow result" where
  "parseUsageWindow lib wire observedAt =
     (let status = ToLower (TrimSpace (ww_Status wire)) in
      if status \<noteq> ''ok'' \<and> status \<noteq> ''rate-limited'' then Inl (Msg ''unrecognized status'')
      else if ww_Percent wire = [] then Inl (Msg ''missing percent'')
      else case ParseFloat (ww_Percent wire) of
        None \<Rightarrow> Inl (Msg ''percent out of range'')
      | Some percent \<Rightarrow>
          if \<not> float64_le (0, 0) percent \<or> \<not> float64_le percent hundred then Inl (Msg ''percent out of range'')
          else
            let limited = (status = ''rate-limited'');
                utilization = (if limited then (1, 0) else float64_div percent hundred);
                limitReached = (limited \<or> float64_le hundred percent)
            in if TrimSpace (ww_ResetsAt wire) = [] then Inl (Msg ''missing resetsAt'')
               else case lib_parseRFC3339 lib (ww_ResetsAt wire) of
                 None \<Rightarrow> Inl (Msg ''unparseable resetsAt'')
               | Some resetAt \<Rightarrow>
                   if resetAt > observedAt + maxResetFuture then Inl (Msg ''resetsAt too far in the future'')
                   else if \<not> limitReached \<and> \<not> resetAt > observedAt
                   then Inl (Msg ''resetsAt is not after observedAt for a non-exhausted window'')
                   else Inr \<lparr>uw_Utilization = utilization, uw_LimitReached = limitReached, uw_ResetAt = resetAt\<rparr>)"

definition prefixErr :: "string \<Rightarrow> 'a result \<Rightarrow> 'a result" where
  "prefixErr p r = (case r of Inl e \<Rightarrow> Inl (Wrapped p e) | Inr x \<Rightarrow> Inr x)"

text \<open>\<open>decode\<close> stands for the JSON decoder with \<open>EnsureJSONEOF\<close>.\<close>

definition parseUsageResponse ::
  "golib \<Rightarrow> (string \<Rightarrow> usageWireUsage option) \<Rightarrow> string \<Rightarrow> gotime \<Rightarrow> usageSnapshot result" where
  "parseUsageResponse lib decode raw observedAt =
     (case decode raw of
        None \<Rightarrow> Inl (Msg ''malformed JSON'')
      | Some usage \<Rightarrow>
          bindR (prefixErr ''rolling window'' (parseUsageWindow lib (wu_Rolling usage) observedAt)) (\<lambda>fiveHour.
          bindR (prefixErr ''weekly window'' (parseUsageWindow lib (wu_Weekly usage) observedAt)) (\<lambda>weekly.
          bindR (prefixErr ''monthly window'' (parseUsageWindow lib (wu_Monthly usage) observedAt)) (\<lambda>monthly.
            Inr \<lparr>us_FiveHour = fiveHour, us_Weekly = weekly, us_Monthly = monthly, us_ObservedAt = observedAt\<rparr>))))"

definition fetchUsage ::
  "golib \<Rightarrow> (string \<Rightarrow> usageWireUsage option) \<Rightarrow> httpOutcome option \<Rightarrow> string \<Rightarrow> gotime \<Rightarrow> usageSnapshot result" where
  "fetchUsage lib decode client endpoint now =
     (case client of
        None \<Rightarrow> Inl (Msg ''usage client unavailable'')
      | Some outcome \<Rightarrow>
          bindR (validateUsageEndpoint lib endpoint (endpoint \<noteq> usageEndpoint)) (\<lambda>_.
            case outcome of
              DoError err \<Rightarrow>
                if err = Canceled \<or> err = DeadlineExceeded then Inl err else Inl (Msg ''usage request failed'')
            | DoResponse status body \<Rightarrow>
                if status \<noteq> 200 then Inl (Msg (''usage endpoint returned status '' @ Itoa status))
                else (case body of
                        None \<Rightarrow> Inl (Msg ''read usage response'')
                      | Some full \<Rightarrow>
                          let bytes = take (maxUsageResponse + 1) full
                          in if length bytes > maxUsageResponse then Inl (Msg ''usage response exceeds maximum size'')
                             else prefixErr ''invalid usage response'' (parseUsageResponse lib decode bytes now))))"

section \<open>State\<close>

definition providerID :: string where "providerID = ''opencode-go''"
definition defaultThreshold :: int where "defaultThreshold = 97"
definition defaultMicroRetry :: int where "defaultMicroRetry = 3"
definition defaultFailureCooldown :: duration where "defaultFailureCooldown = 10 * Minute"
definition maxFailureBody :: int where "maxFailureBody = 16384"
definition minPollInterval :: duration where "minPollInterval = 30 * Second"

datatype windowKind = windowFiveHour | windowWeekly | windowMonthly

definition kindName :: "windowKind \<Rightarrow> string" where
  "kindName kind =
     (case kind of windowFiveHour \<Rightarrow> ''five_hour'' | windowWeekly \<Rightarrow> ''weekly'' | windowMonthly \<Rightarrow> ''monthly'')"

definition kinds :: "windowKind list" where
  "kinds = [windowFiveHour, windowWeekly, windowMonthly]"

record windowState =
  ws_Utilization :: "float64 option"
  ws_Exhausted :: bool
  ws_ResetAt :: gotime
  ws_CooldownAt :: gotime
  ws_Source :: string
  ws_Known :: bool
  ws_Authoritative :: bool
  ws_ObservedAt :: gotime

definition zero_window :: windowState where
  "zero_window = \<lparr>ws_Utilization = None, ws_Exhausted = False, ws_ResetAt = 0, ws_CooldownAt = 0, ws_Source = [],
     ws_Known = False, ws_Authoritative = False, ws_ObservedAt = 0\<rparr>"

record accountState =
  ga_Name :: string
  ga_AuthIDs :: "string list"
  ga_Disabled :: bool
  ga_DashboardAPIKey :: string
  ga_Windows :: "(windowKind, windowState) gomap"
  ga_cursor :: "64 word"
  ga_lastPollAt :: gotime

record moduleState =
  mo_Threshold :: int
  mo_Accounts :: "(string, accountState) gomap"
  mo_ByAuthID :: "(string, string) gomap"

text \<open>The clock and the HTTP client of the host are arguments of the methods that use them.\<close>

record Module =
  md_state :: "moduleState option"
  md_lastErr :: string
  md_closed :: bool

definition NewModule :: Module where
  "NewModule = \<lparr>md_state = None, md_lastErr = [], md_closed = False\<rparr>"

abbreviation window_at :: "accountState \<Rightarrow> windowKind \<Rightarrow> windowState" where
  "window_at a kind \<equiv> mget_or zero_window (ga_Windows a) kind"

section \<open>Configuration\<close>

record goAccountConfig =
  gc_Name :: string
  gc_AuthIDs :: "string list"
  gc_DashboardAPIKey :: string
  gc_Disabled :: bool

record moduleConfig =
  mc_Enabled :: bool
  mc_ThresholdPercent :: int
  mc_DashboardAPIKey :: string
  mc_Accounts :: "goAccountConfig list"

record rawAccountConfig =
  ra_Name :: string
  ra_AuthIDs :: "string list"
  ra_ConnectionID :: string
  ra_DashboardAPIKey :: string
  ra_Disabled :: bool

record rawModuleConfig =
  rm_Enabled :: "bool option"
  rm_ThresholdPercent :: "int option"
  rm_DashboardAPIKey :: string
  rm_Accounts :: "rawAccountConfig list"

fun trimmedIDs :: "string list \<Rightarrow> string list \<Rightarrow> string list" where
  "trimmedIDs out [] = out"
| "trimmedIDs out (v # vs) =
     (let t = TrimSpace v in if t = [] \<or> t \<in> set out then trimmedIDs out vs else trimmedIDs (out @ [t]) vs)"

definition normalizeIDs :: "string list \<Rightarrow> string list" where
  "normalizeIDs values = sort (trimmedIDs [] values)"

definition configAccount :: "string \<Rightarrow> int \<Rightarrow> rawAccountConfig \<Rightarrow> goAccountConfig result" where
  "configAccount moduleKey i raw =
     (let name = TrimSpace (ra_Name raw);
          connectionID = TrimSpace (ra_ConnectionID raw);
          ids = normalizeIDs (ra_AuthIDs raw @ (if connectionID \<noteq> [] then [connectionID] else []));
          own = TrimSpace (ra_DashboardAPIKey raw)
      in if name = [] then Inl (Msg (''opencode_go_invalid_config: accounts['' @ Itoa i @ ''].name is required''))
         else if ids = [] then Inl (Msg (''opencode_go_invalid_config: accounts['' @ Itoa i @ ''] requires auth-ids or connection-id''))
         else Inr \<lparr>gc_Name = name, gc_AuthIDs = ids, gc_DashboardAPIKey = (if own = [] then moduleKey else own), gc_Disabled = ra_Disabled raw\<rparr>)"

fun configAccounts :: "string \<Rightarrow> int \<Rightarrow> rawAccountConfig list \<Rightarrow> goAccountConfig list result" where
  "configAccounts moduleKey i [] = Inr []"
| "configAccounts moduleKey i (raw # rest) =
     bindR (configAccount moduleKey i raw) (\<lambda>item. bindR (configAccounts moduleKey (i + 1) rest) (\<lambda>items. Inr (item # items)))"

text \<open>\<open>decode\<close> is the JSON decoder that rejects unknown fields; \<open>Inl\<close> is its error.\<close>

definition parseConfig :: "(string \<Rightarrow> rawModuleConfig result) \<Rightarrow> string \<Rightarrow> moduleConfig result" where
  "parseConfig decode raw =
     (let cfg = \<lparr>mc_Enabled = True, mc_ThresholdPercent = defaultThreshold, mc_DashboardAPIKey = [], mc_Accounts = []\<rparr>
      in if TrimSpace raw = [] \<or> TrimSpace raw = ''null'' then Inr cfg
         else case decode raw of
           Inl err \<Rightarrow> Inl (Wrapped ''opencode_go_invalid_config: decode provider config'' err)
         | Inr input \<Rightarrow>
             let enabled = (case rm_Enabled input of None \<Rightarrow> True | Some b \<Rightarrow> b);
                 threshold = (case rm_ThresholdPercent input of None \<Rightarrow> defaultThreshold | Some t \<Rightarrow> t);
                 key = TrimSpace (rm_DashboardAPIKey input)
             in if threshold < 1 \<or> threshold > 100
                then Inl (Msg ''opencode_go_invalid_config: threshold-percent must be between 1 and 100'')
                else bindR (configAccounts key 0 (rm_Accounts input)) (\<lambda>items.
                       Inr \<lparr>mc_Enabled = enabled, mc_ThresholdPercent = threshold, mc_DashboardAPIKey = key, mc_Accounts = items\<rparr>))"

fun claimIDs :: "string \<Rightarrow> string list \<Rightarrow> (string, string) gomap \<Rightarrow> (string, string) gomap result" where
  "claimIDs name [] byAuth = Inr byAuth"
| "claimIDs name (authID # ids) byAuth =
     (if mget_or [] byAuth authID \<noteq> []
      then Inl (Msg ''opencode_go_invalid_config: auth id belongs to two accounts'')
      else claimIDs name ids (mput authID name byAuth))"

definition freshAccount :: "goAccountConfig \<Rightarrow> accountState" where
  "freshAccount item =
     \<lparr>ga_Name = gc_Name item, ga_AuthIDs = gc_AuthIDs item, ga_Disabled = gc_Disabled item,
      ga_DashboardAPIKey = gc_DashboardAPIKey item, ga_Windows = map (\<lambda>kind. (kind, zero_window)) kinds,
      ga_cursor = 0, ga_lastPollAt = 0\<rparr>"

fun buildAccounts :: "goAccountConfig list \<Rightarrow> string list \<Rightarrow> moduleState \<Rightarrow> moduleState result" where
  "buildAccounts [] seen st = Inr st"
| "buildAccounts (item # rest) seen st =
     (if ToLower (gc_Name item) \<in> set seen then Inl (Msg ''opencode_go_invalid_config: duplicate account name'')
      else bindR (claimIDs (gc_Name item) (gc_AuthIDs item) (mo_ByAuthID st)) (\<lambda>byAuth.
             buildAccounts rest (ToLower (gc_Name item) # seen)
               (st\<lparr>mo_ByAuthID := byAuth, mo_Accounts := mput (gc_Name item) (freshAccount item) (mo_Accounts st)\<rparr>)))"

definition buildState :: "moduleConfig \<Rightarrow> moduleState result" where
  "buildState cfg =
     (let st = \<lparr>mo_Threshold = mc_ThresholdPercent cfg, mo_Accounts = [], mo_ByAuthID = []\<rparr>
      in if \<not> mc_Enabled cfg then Inr st else buildAccounts (mc_Accounts cfg) [] st)"

definition sameIDs :: "string list \<Rightarrow> string list \<Rightarrow> bool" where
  "sameIDs left right \<longleftrightarrow> length left = length right \<and> list_all2 (=) left right"

definition carryFrom :: "accountState \<Rightarrow> accountState \<Rightarrow> accountState" where
  "carryFrom old a =
     (if sameIDs (ga_AuthIDs a) (ga_AuthIDs old)
      then a\<lparr>ga_cursor := ga_cursor old, ga_lastPollAt := ga_lastPollAt old,
             ga_Windows := foldl (\<lambda>ws kind. mput kind (window_at old kind) ws) (ga_Windows a) kinds\<rparr>
      else a)"

definition carryForwardState :: "moduleState \<Rightarrow> moduleState option \<Rightarrow> moduleState" where
  "carryForwardState staged previous =
     (case previous of
        None \<Rightarrow> staged
      | Some prev \<Rightarrow>
          staged\<lparr>mo_Accounts := map (\<lambda>(name, a). (name, case mget (mo_Accounts prev) name of None \<Rightarrow> a | Some old \<Rightarrow> carryFrom old a))
                                  (mo_Accounts staged)\<rparr>)"

text \<open>\<open>bounded\<close>: a long message keeps a digest of the whole; eight bytes are sixteen hexadecimal digits.\<close>

definition bounded :: "golib \<Rightarrow> string \<Rightarrow> nat \<Rightarrow> string" where
  "bounded lib v limit =
     (let t = TrimSpace v
      in if length t \<le> limit then t else take (limit - 17) t @ ''#'' @ take 16 (lib_sha256hex lib t))"

definition Module_recordError :: "golib \<Rightarrow> go_error \<Rightarrow> Module \<Rightarrow> Module" where
  "Module_recordError lib err m = m\<lparr>md_lastErr := bounded lib (error_text err) 256\<rparr>"

definition Module_Reconfigure :: "golib \<Rightarrow> (string \<Rightarrow> rawModuleConfig result) \<Rightarrow> string \<Rightarrow> Module \<Rightarrow> unit result \<times> Module" where
  "Module_Reconfigure lib decode providerConfig m =
     (case bindR (parseConfig decode providerConfig) buildState of
        Inl err \<Rightarrow> (Inl err, Module_recordError lib err m)
      | Inr staged \<Rightarrow>
          if md_closed m then (Inl (Msg ''opencode_go_closed: module is closed''), m)
          else (Inr (), m\<lparr>md_state := Some (carryForwardState staged (md_state m)), md_lastErr := []\<rparr>))"

section \<open>Candidates\<close>

definition stateAccountByAuthID :: "moduleState option \<Rightarrow> string \<Rightarrow> string option" where
  "stateAccountByAuthID state authID =
     (case state of
        None \<Rightarrow> None
      | Some st \<Rightarrow> let name = mget_or [] (mo_ByAuthID st) (TrimSpace authID) in if name \<noteq> [] then Some name else None)"

definition candidateLabels :: "candidate \<Rightarrow> string list" where
  "candidateLabels c =
     map (\<lambda>v. ToLower (TrimSpace v))
       [ca_Provider c, mget_or [] (ca_Attributes c) ''provider_key'', mget_or [] (ca_Attributes c) ''compat_name'',
        mget_or [] (ca_Attributes c) ''provider'']"

definition candidateClaimsOpenCodeGo :: "candidate \<Rightarrow> bool" where
  "candidateClaimsOpenCodeGo c \<longleftrightarrow>
     list_ex (\<lambda>v. v = providerID \<or> v = ''openai-compatible-'' @ providerID) (candidateLabels c)"

definition candidateClaimsOtherProvider :: "candidate \<Rightarrow> bool" where
  "candidateClaimsOtherProvider c \<longleftrightarrow>
     list_ex (\<lambda>v. v \<noteq> [] \<and> v \<noteq> providerID \<and> v \<noteq> ''openai-compatible-'' @ providerID) (candidateLabels c)"

definition Module_Recognize :: "Module \<Rightarrow> candidate \<Rightarrow> bool" where
  "Module_Recognize m c \<longleftrightarrow>
     (if stateAccountByAuthID (md_state m) (ca_ID c) \<noteq> None
      then candidateClaimsOpenCodeGo c \<or> \<not> candidateClaimsOtherProvider c
      else candidateClaimsOpenCodeGo c)"

definition Module_OwnedAuthIDs :: "Module \<Rightarrow> string list" where
  "Module_OwnedAuthIDs m = (case md_state m of None \<Rightarrow> [] | Some st \<Rightarrow> sort (mkeys (mo_ByAuthID st)))"

section \<open>Windows of an account\<close>

definition refreshWindow :: "gotime \<Rightarrow> (windowKind, windowState) gomap \<Rightarrow> windowKind \<Rightarrow> (windowKind, windowState) gomap" where
  "refreshWindow now ws kind =
     (let w = mget_or zero_window ws kind
      in if \<not> IsZero (ws_CooldownAt w) \<and> \<not> ws_CooldownAt w > now then mput kind zero_window ws else ws)"

definition refreshWindows :: "accountState \<Rightarrow> gotime \<Rightarrow> accountState" where
  "refreshWindows a now = a\<lparr>ga_Windows := foldl (refreshWindow now) (ga_Windows a) kinds\<rparr>"

definition mergeWindowSignal :: "windowState \<Rightarrow> windowState \<Rightarrow> windowState" where
  "mergeWindowSignal live incoming =
     (if \<not> ws_Known live then incoming
      else if ws_Authoritative incoming \<and> \<not> ws_ObservedAt incoming < ws_ObservedAt live then incoming
      else if \<not> ws_Authoritative incoming then
        (if ws_Exhausted live \<and> ws_ResetAt live > ws_ObservedAt incoming \<and> ws_ResetAt live > ws_ResetAt incoming
         then live else incoming)
      else live)"

definition windowHealthy :: "float64 \<Rightarrow> gotime \<Rightarrow> windowState \<Rightarrow> bool" where
  "windowHealthy limit now w \<longleftrightarrow>
     \<not> (ws_Exhausted w \<and> (IsZero (ws_CooldownAt w) \<or> ws_CooldownAt w > now)) \<and>
     (case ws_Utilization w of None \<Rightarrow> True | Some u \<Rightarrow> \<not> float64_le limit u)"

definition accountHealthy :: "accountState \<Rightarrow> int \<Rightarrow> gotime \<Rightarrow> bool" where
  "accountHealthy a threshold now \<longleftrightarrow>
     \<not> ga_Disabled a \<and>
     list_all (\<lambda>(kind, w). windowHealthy (float64_div (float64_of_int threshold) hundred) now w) (ga_Windows a)"

section \<open>Picking\<close>

definition goError :: "string \<Rightarrow> string \<Rightarrow> go_error" where
  "goError code message = Wire code message False 0"

text \<open>What a dereferenced nil pointer does to the caller; the invariant below excludes it.\<close>

definition nilDereference :: go_error where
  "nilDereference = Msg ''invalid memory address or nil pointer dereference''"

text \<open>The value under the key \<open>now\<close> of the metadata of a request.\<close>

datatype metaNow = MetaTime gotime | MetaString string | MetaOther

definition requestTime :: "golib \<Rightarrow> gotime \<Rightarrow> metaNow option \<Rightarrow> gotime" where
  "requestTime lib wall meta =
     (case meta of
        Some (MetaTime t) \<Rightarrow> t
      | Some (MetaString s) \<Rightarrow> (case lib_parseRFC3339 lib s of Some t \<Rightarrow> t | None \<Rightarrow> wall)
      | _ \<Rightarrow> wall)"

text \<open>The first loop: whether a candidate was recognised, and the names of the healthy accounts.\<close>

fun goScan :: "gotime \<Rightarrow> candidate list \<Rightarrow> bool \<Rightarrow> string list \<Rightarrow> moduleState \<Rightarrow> (bool \<times> string list) result \<times> moduleState" where
  "goScan now [] recognized healthy st = (Inr (recognized, healthy), st)"
| "goScan now (c # rest) recognized healthy st =
     (let claims = candidateClaimsOpenCodeGo c in
      case stateAccountByAuthID (Some st) (ca_ID c) of
        None \<Rightarrow>
          if claims
          then (Inl (goError ''opencode_go_unmanaged_candidate''
                  ''recognized OpenCode Go credential is absent from the validated account snapshot''), st)
          else goScan now rest recognized healthy st
      | Some name \<Rightarrow>
          if candidateClaimsOtherProvider c then goScan now rest (recognized \<or> claims) healthy st
          else case mget (mo_Accounts st) name of
            None \<Rightarrow> (Inl nilDereference, st)
          | Some a \<Rightarrow>
              let a' = refreshWindows a now;
                  st' = st\<lparr>mo_Accounts := mput name a' (mo_Accounts st)\<rparr>
              in goScan now rest True (if accountHealthy a' (mo_Threshold st) now then name # healthy else healthy) st')"

definition goSelectable :: "moduleState \<Rightarrow> string list \<Rightarrow> candidate \<Rightarrow> bool" where
  "goSelectable st healthy c \<longleftrightarrow>
     \<not> candidateClaimsOtherProvider c \<and>
     (case stateAccountByAuthID (Some st) (ca_ID c) of None \<Rightarrow> False | Some name \<Rightarrow> name \<in> set healthy)"

definition noCapacity :: go_error where
  "noCapacity = goError ''opencode_go_no_capacity'' ''no healthy managed OpenCode Go capacity remains''"

definition goChoose :: "candidate list \<Rightarrow> moduleState \<Rightarrow> pickResponse result \<times> moduleState" where
  "goChoose cands st =
     (let sorted = sort_key ca_ID cands;
          name = (case stateAccountByAuthID (Some st) (ca_ID (hd sorted)) of None \<Rightarrow> [] | Some n \<Rightarrow> n)
      in case mget (mo_Accounts st) name of
           None \<Rightarrow> (Inl nilDereference, st)
         | Some a \<Rightarrow>
             (Inr \<lparr>resp_Handled = True, resp_AuthID = ca_ID (sorted ! unat (ga_cursor a mod of_nat (length sorted))),
                   resp_DelegateBuiltin = []\<rparr>,
              st\<lparr>mo_Accounts := mput name (a\<lparr>ga_cursor := ga_cursor a + 1\<rparr>) (mo_Accounts st)\<rparr>))"

definition goPick :: "gotime \<Rightarrow> candidate list \<Rightarrow> moduleState \<Rightarrow> pickResponse result \<times> moduleState" where
  "goPick now cands st =
     (case goScan now cands False [] st of
        (Inl err, st1) \<Rightarrow> (Inl err, st1)
      | (Inr (recognized, healthy), st1) \<Rightarrow>
          if \<not> recognized then (Inr zero_pickResponse, st1)
          else if healthy = [] then (Inl noCapacity, st1)
          else
            let chosen = filter (goSelectable st1 healthy) cands
            in if chosen = [] then (Inl noCapacity, st1) else goChoose chosen st1)"

definition Module_Pick :: "gotime \<Rightarrow> pickRequest \<Rightarrow> Module \<Rightarrow> pickResponse result \<times> Module" where
  "Module_Pick now req m =
     (case md_state m of
        None \<Rightarrow> (Inl (goError ''opencode_go_not_configured'' ''OpenCode Go scheduler is not configured''), m)
      | Some st \<Rightarrow>
          if md_closed m then (Inl (goError ''opencode_go_not_configured'' ''OpenCode Go scheduler is not configured''), m)
          else case goPick now (pr_Candidates req) st of (r, st') \<Rightarrow> (r, m\<lparr>md_state := Some st'\<rparr>))"

section \<open>Failures\<close>

definition quotaWindowOf :: "string \<Rightarrow> windowKind option" where
  "quotaWindowOf body =
     (if body = [] \<or> int (length body) > maxFailureBody then None
      else
        let text = ToLower body
        in if Contains text ''five-hour usage limit reached'' \<or> Contains text ''5-hour usage limit reached'' \<or>
              Contains text ''five hour usage limit reached''
           then Some windowFiveHour
           else if Contains text ''weekly usage limit reached'' then Some windowWeekly
           else if Contains text ''monthly usage limit reached'' then Some windowMonthly
           else None)"

text \<open>What follows the last occurrence of a marker (\<open>strings.LastIndex\<close>).\<close>

fun afterLast :: "string \<Rightarrow> string \<Rightarrow> string option" where
  "afterLast marker [] = None"
| "afterLast marker (c # cs) =
     (case afterLast marker cs of
        Some rest \<Rightarrow> Some rest
      | None \<Rightarrow> if HasPrefix (c # cs) marker then Some (drop (length marker) (c # cs)) else None)"

definition unitOf :: "char \<Rightarrow> duration option" where
  "unitOf r =
     (if r = CHR ''d'' then Some (24 * Hour) else if r = CHR ''h'' then Some Hour
      else if r = CHR ''m'' then Some Minute else if r = CHR ''s'' then Some Second else None)"

text \<open>The loop over the runes; the number and the total wrap around as \<open>int\<close> and \<open>time.Duration\<close> do.\<close>

fun resetLoop :: "string \<Rightarrow> int \<Rightarrow> bool \<Rightarrow> bool \<Rightarrow> duration \<Rightarrow> (duration \<times> bool) option" where
  "resetLoop [] number digits seen total_ns = Some (total_ns, seen \<and> \<not> digits)"
| "resetLoop (r # rs) number digits seen total_ns =
     (if is_digit r then resetLoop rs (wrap64 (number * 10 + digit_val r)) True seen total_ns
      else case unitOf r of
        Some u \<Rightarrow> if \<not> digits then None else resetLoop rs 0 False True (wrap64 (total_ns + wrap64 (number * u)))
      | None \<Rightarrow> if r = CHR '' '' then (if digits then None else resetLoop rs number digits seen total_ns) else None)"

definition parseResetAfterSeconds :: "string \<Rightarrow> int option" where
  "parseResetAfterSeconds text =
     (case afterLast ''reset after '' text of
        None \<Rightarrow> None
      | Some rest \<Rightarrow>
          (case resetLoop (TrimSpace (takeWhile (\<lambda>c. c \<noteq> CHR '')'') rest)) 0 False False 0 of
             None \<Rightarrow> None
           | Some (total_ns, complete) \<Rightarrow> if complete \<and> total_ns > 0 then Some (go_quo total_ns Second) else None))"

definition isMicrothrottle :: "usageRecord \<Rightarrow> bool" where
  "isMicrothrottle rec \<longleftrightarrow>
     ur_StatusCode rec = 403 \<and> int (length (ur_Body rec)) \<le> maxFailureBody \<and>
     (let text = ToLower (ur_Body rec)
      in Contains text ''<!doctype html>'' \<and> Contains text ''reset after '' \<and>
         (case parseResetAfterSeconds text of None \<Rightarrow> False | Some seconds \<Rightarrow> 1 \<le> seconds \<and> seconds \<le> defaultMicroRetry))"

definition retryAfterValue :: "golib \<Rightarrow> gotime \<Rightarrow> string \<Rightarrow> gotime option" where
  "retryAfterValue lib now raw =
     (let v = TrimSpace raw;
          dated = (case lib_httpParseTime lib v of
                     Some parsed \<Rightarrow> if parsed > now \<and> parsed < now + maxResetFuture then Some parsed else None
                   | None \<Rightarrow> None)
      in case ParseInt v of
           Some seconds \<Rightarrow> if 0 < seconds \<and> seconds \<le> go_quo maxResetFuture Second then Some (now + wrap64 (seconds * Second)) else dated
         | None \<Rightarrow> dated)"

definition retryAfterReset :: "golib \<Rightarrow> (string, string list) gomap \<Rightarrow> gotime \<Rightarrow> gotime option" where
  "retryAfterReset lib headers now =
     (let vs = concat (map snd (filter (\<lambda>(name, _). EqualFold (TrimSpace name) ''Retry-After'') headers))
      in case List.map_filter (retryAfterValue lib now) vs of [] \<Rightarrow> None | t # _ \<Rightarrow> Some t)"

definition bodyReset :: "string \<Rightarrow> gotime \<Rightarrow> gotime option" where
  "bodyReset body now =
     (case parseResetAfterSeconds (ToLower body) of
        None \<Rightarrow> None
      | Some seconds \<Rightarrow>
          if seconds \<le> 0 \<or> seconds > go_quo maxResetFuture Second then None else Some (now + wrap64 (seconds * Second)))"

text \<open>The signal of a quota response, and what it makes of the live window.\<close>

definition failureSignal :: "windowKind \<Rightarrow> gotime option \<Rightarrow> gotime \<Rightarrow> windowState" where
  "failureSignal kind resetAt now =
     \<lparr>ws_Utilization = Some (1, 0), ws_Exhausted = True, ws_ResetAt = (case resetAt of None \<Rightarrow> 0 | Some t \<Rightarrow> t),
      ws_CooldownAt = (case resetAt of None \<Rightarrow> now + defaultFailureCooldown | Some t \<Rightarrow> t),
      ws_Source = ''proxy-observed '' @ kindName kind @ '' quota response'', ws_Known = True, ws_Authoritative = False,
      ws_ObservedAt = now\<rparr>"

definition applyFailure :: "windowState \<Rightarrow> windowState \<Rightarrow> windowState" where
  "applyFailure live incoming =
     (let merged = mergeWindowSignal live incoming
      in if ws_CooldownAt incoming > ws_CooldownAt merged then merged\<lparr>ws_CooldownAt := ws_CooldownAt incoming\<rparr> else merged)"

text \<open>\<open>wall\<close> is \<open>time.Now\<close>, read when the record has no time of its own.\<close>

definition Module_HandleUsage :: "golib \<Rightarrow> gotime \<Rightarrow> usageRecord \<Rightarrow> Module \<Rightarrow> unit result \<times> Module" where
  "Module_HandleUsage lib wall rec m =
     (case md_state m of
        None \<Rightarrow> (Inr (), m)
      | Some st \<Rightarrow>
          if md_closed m then (Inr (), m)
          else case stateAccountByAuthID (Some st) (ur_AuthID rec) of
            None \<Rightarrow> (Inr (), m)
          | Some name \<Rightarrow>
              if \<not> ur_Failed rec \<or> isMicrothrottle rec then (Inr (), m)
              else case quotaWindowOf (ur_Body rec) of
                None \<Rightarrow> (Inr (), m)
              | Some kind \<Rightarrow>
                  if ur_StatusCode rec \<noteq> 429 then (Inr (), m)
                  else case mget (mo_Accounts st) name of
                    None \<Rightarrow> (Inl nilDereference, m)
                  | Some a \<Rightarrow>
                      let now = (if IsZero (ur_RequestedAt rec) then wall else ur_RequestedAt rec);
                          resetAt = (case retryAfterReset lib (ur_ResponseHeaders rec) now of
                                       Some t \<Rightarrow> Some t | None \<Rightarrow> bodyReset (ur_Body rec) now);
                          w = applyFailure (window_at a kind) (failureSignal kind resetAt now);
                          a' = a\<lparr>ga_Windows := mput kind w (ga_Windows a)\<rparr>
                      in (Inr (), m\<lparr>md_state := Some (st\<lparr>mo_Accounts := mput name a' (mo_Accounts st)\<rparr>)\<rparr>))"

section \<open>The dashboard poll and the status\<close>

definition pollDue :: "gotime \<Rightarrow> accountState \<Rightarrow> bool" where
  "pollDue now a \<longleftrightarrow> ga_DashboardAPIKey a \<noteq> [] \<and>
     (IsZero (ga_lastPollAt a) \<or> \<not> time_Sub now (ga_lastPollAt a) < minPollInterval)"

text \<open>The part under the first lock: the targets, and the time of the attempt.\<close>

definition pollTargets :: "gotime \<Rightarrow> moduleState \<Rightarrow> (string \<times> string) list \<times> moduleState" where
  "pollTargets now st =
     (map (\<lambda>(name, a). (name, ga_DashboardAPIKey a)) (filter (\<lambda>(name, a). pollDue now a) (mo_Accounts st)),
      st\<lparr>mo_Accounts := map (\<lambda>(name, a). (name, if pollDue now a then a\<lparr>ga_lastPollAt := now\<rparr> else a)) (mo_Accounts st)\<rparr>)"

definition snapshotWindows :: "usageSnapshot \<Rightarrow> (windowKind \<times> usageWindow) list" where
  "snapshotWindows snapshot =
     [(windowFiveHour, us_FiveHour snapshot), (windowWeekly, us_Weekly snapshot), (windowMonthly, us_Monthly snapshot)]"

definition pollSignal :: "gotime \<Rightarrow> usageWindow \<Rightarrow> windowState" where
  "pollSignal observedAt w =
     \<lparr>ws_Utilization = Some (uw_Utilization w), ws_Exhausted = uw_LimitReached w, ws_ResetAt = uw_ResetAt w, ws_CooldownAt = 0,
      ws_Source = ''dashboard usage poll'', ws_Known = True, ws_Authoritative = True, ws_ObservedAt = observedAt\<rparr>"

definition applySnapshot :: "usageSnapshot \<Rightarrow> accountState \<Rightarrow> accountState" where
  "applySnapshot snapshot a =
     a\<lparr>ga_Windows := foldl (\<lambda>ws (kind, w). mput kind (mergeWindowSignal (mget_or zero_window ws kind) (pollSignal (us_ObservedAt snapshot) w)) ws)
         (ga_Windows a) (snapshotWindows snapshot)\<rparr>"

definition applyPoll :: "moduleState \<Rightarrow> string \<times> usageSnapshot result \<Rightarrow> moduleState" where
  "applyPoll st res =
     (case snd res of
        Inl _ \<Rightarrow> st
      | Inr snapshot \<Rightarrow>
          (case mget (mo_Accounts st) (fst res) of
             None \<Rightarrow> st
           | Some a \<Rightarrow> st\<lparr>mo_Accounts := mput (fst res) (applySnapshot snapshot a) (mo_Accounts st)\<rparr>))"

text \<open>
  \<open>fetch\<close> gives what \<open>fetchUsage\<close> returns for a target, in the order in which the results
  arrive; \<open>between\<close> is what the other methods do while the lock is not held.
\<close>

definition pollUsageOnce ::
  "gotime \<Rightarrow> ((string \<times> string) list \<Rightarrow> (string \<times> usageSnapshot result) list) \<Rightarrow> (Module \<Rightarrow> Module) \<Rightarrow> Module \<Rightarrow> Module" where
  "pollUsageOnce now fetch between m =
     (case md_state m of
        None \<Rightarrow> m
      | Some st \<Rightarrow>
          if md_closed m then m
          else
            let (targets, st1) = pollTargets now st; m1 = m\<lparr>md_state := Some st1\<rparr>
            in if targets = [] then m1
               else
                 let m2 = between m1
                 in (case md_state m2 of
                       None \<Rightarrow> m2
                     | Some st2 \<Rightarrow>
                         if md_closed m2 then m2
                         else m2\<lparr>md_state := Some (foldl applyPoll st2 (fetch targets))\<rparr>))"

record statusWindow =
  sw_Known :: bool
  sw_Utilization :: "float64 option"
  sw_Exhausted :: bool
  sw_ResetAt :: "gotime option"
  sw_Source :: string
  sw_Authoritative :: bool

record statusAccount =
  sa_Name :: string
  sa_Disabled :: bool
  sa_Windows :: "(windowKind, statusWindow) gomap"

record moduleStatus =
  gs_Provider :: string
  gs_Status :: string
  gs_ValidationError :: string
  gs_CredentialBound :: bool
  gs_Accounts :: "statusAccount list"
  gs_ObservationGaps :: "string list"

definition windowStatus :: "windowState \<Rightarrow> statusWindow" where
  "windowStatus w =
     (if \<not> ws_Known w
      then \<lparr>sw_Known = False, sw_Utilization = None, sw_Exhausted = False, sw_ResetAt = None, sw_Source = ''unknown'', sw_Authoritative = False\<rparr>
      else \<lparr>sw_Known = True, sw_Utilization = ws_Utilization w, sw_Exhausted = ws_Exhausted w,
            sw_ResetAt = (if IsZero (ws_ResetAt w) then None else Some (ws_ResetAt w)), sw_Source = ws_Source w,
            sw_Authoritative = ws_Authoritative w\<rparr>)"

definition goAccountStatus :: "accountState \<Rightarrow> statusAccount" where
  "goAccountStatus a =
     \<lparr>sa_Name = ga_Name a, sa_Disabled = ga_Disabled a, sa_Windows = map (\<lambda>kind. (kind, windowStatus (window_at a kind))) kinds\<rparr>"

definition refreshAll :: "gotime \<Rightarrow> moduleState \<Rightarrow> moduleState" where
  "refreshAll now st = st\<lparr>mo_Accounts := map (\<lambda>(name, a). (name, refreshWindows a now)) (mo_Accounts st)\<rparr>"

text \<open>The accounts of the status are sorted by name; a missing account would be a nil pointer.\<close>

definition goStatus :: "gotime \<Rightarrow> Module \<Rightarrow> moduleStatus \<times> Module" where
  "goStatus now m =
     (let accounts = (case md_state m of None \<Rightarrow> [] | Some st \<Rightarrow> mo_Accounts (refreshAll now st));
          bound = list_ex (\<lambda>(name, a). ga_DashboardAPIKey a \<noteq> []) accounts
      in (\<lparr>gs_Provider = providerID, gs_Status = (if md_lastErr m \<noteq> [] then ''reconfigure_rejected'' else ''registered''),
           gs_ValidationError = md_lastErr m, gs_CredentialBound = bound,
           gs_Accounts = map (\<lambda>name. goAccountStatus (the (mget accounts name))) (sort (mkeys accounts)),
           gs_ObservationGaps = ''five-hour and weekly enforcement are generalized from the observed monthly 429 shape'' #
             (if bound then [] else [''no dashboard credential is configured -- five_hour/weekly/monthly reset times are unknown until dashboard-api-key is set''])\<rparr>,
          m\<lparr>md_state := map_option (refreshAll now) (md_state m)\<rparr>))"

definition Module_Status ::
  "gotime \<Rightarrow> gotime \<Rightarrow> ((string \<times> string) list \<Rightarrow> (string \<times> usageSnapshot result) list) \<Rightarrow> (Module \<Rightarrow> Module) \<Rightarrow> Module \<Rightarrow>
     moduleStatus \<times> Module" where
  "Module_Status pollNow now fetch between m = goStatus now (pollUsageOnce pollNow fetch between m)"

definition Module_Close :: "Module \<Rightarrow> Module" where
  "Module_Close m = m\<lparr>md_closed := True, md_state := None\<rparr>"

end
