(* ===== verification/OpencodeGoInv.thy ===== *)
theory OpencodeGoInv
  imports OpencodeGo
begin

text \<open>
  What the OpenCode Go provider guarantees: the state stays well formed under every method, so no
  nil account is ever dereferenced; a pick answers its specification; a quota response blocks the
  account until its cooldown and no longer; a parsed usage response is in range.
\<close>

section \<open>Well-formed states\<close>

definition account_wf :: "string \<Rightarrow> accountState \<Rightarrow> bool" where
  "account_wf name a \<longleftrightarrow> ga_Name a = name \<and> name \<noteq> [] \<and> map fst (ga_Windows a) = kinds"

definition ids_of :: "(string, accountState) gomap \<Rightarrow> string \<Rightarrow> string list" where
  "ids_of accounts name = (case mget accounts name of None \<Rightarrow> [] | Some a \<Rightarrow> ga_AuthIDs a)"

definition clean_id :: "string \<Rightarrow> bool" where
  "clean_id i \<longleftrightarrow> i \<noteq> [] \<and> TrimSpace i = i"

definition state_ok :: "moduleState \<Rightarrow> bool" where
  "state_ok st \<longleftrightarrow> 1 \<le> mo_Threshold st \<and> mo_Threshold st \<le> 100 \<and> map_wf (mo_Accounts st) \<and> map_wf (mo_ByAuthID st) \<and>
     (\<forall>(name, a) \<in> set (mo_Accounts st). account_wf name a) \<and>
     (\<forall>(i, name) \<in> set (mo_ByAuthID st). clean_id i \<and> i \<in> set (ids_of (mo_Accounts st) name))"

definition module_ok :: "Module \<Rightarrow> bool" where
  "module_ok m \<longleftrightarrow> (case md_state m of None \<Rightarrow> True | Some st \<Rightarrow> state_ok st)"

lemma state_ok_account: "state_ok st \<Longrightarrow> mget (mo_Accounts st) name = Some a \<Longrightarrow> account_wf name a"
  by (auto simp: state_ok_def dest!: map_of_SomeD)

lemma managed_account:
  assumes "state_ok st" and "stateAccountByAuthID (Some st) i = Some name"
  obtains a where "mget (mo_Accounts st) name = Some a" "TrimSpace i \<in> set (ga_AuthIDs a)" "account_wf name a"
proof -
  have "mget (mo_ByAuthID st) (TrimSpace i) = Some name"
    using assms(2) by (auto simp: stateAccountByAuthID_def mget_or_def Let_def split: option.splits if_splits)
  then have "(TrimSpace i, name) \<in> set (mo_ByAuthID st)" by (simp add: map_of_SomeD)
  then have "TrimSpace i \<in> set (ids_of (mo_Accounts st) name)" using assms(1) by (auto simp: state_ok_def)
  then show thesis
    using that state_ok_account [OF assms(1)] by (cases "mget (mo_Accounts st) name") (simp_all add: ids_of_def)
qed

text \<open>Replacing accounts by ones of the same names, identifiers and windows keeps the state well formed.\<close>

lemma state_ok_accounts:
  assumes "state_ok st" and "map_wf accounts" and "\<forall>(name, a) \<in> set accounts. account_wf name a"
    and "\<And>name. ids_of accounts name = ids_of (mo_Accounts st) name"
  shows "state_ok (st\<lparr>mo_Accounts := accounts\<rparr>)"
  using assms by (simp add: state_ok_def)

lemma state_ok_put:
  assumes "state_ok st" and "mget (mo_Accounts st) name = Some a" and "ga_AuthIDs a' = ga_AuthIDs a" and "account_wf name a'"
  shows "state_ok (st\<lparr>mo_Accounts := mput name a' (mo_Accounts st)\<rparr>)"
proof (rule state_ok_accounts [OF assms(1)])
  show "\<forall>(n, x) \<in> set (mput name a' (mo_Accounts st)). account_wf n x"
    using assms(1, 4) set_mput [of name a' "mo_Accounts st"] by (auto simp: state_ok_def)
qed (use assms in \<open>auto simp: state_ok_def ids_of_def\<close>)

lemma mget_map_values: "mget (map (\<lambda>(k, v). (k, f k v)) m) k = map_option (f k) (mget m k)"
  by (induction m) auto

lemma state_ok_map:
  assumes "state_ok st" and f: "\<And>name a. account_wf name a \<Longrightarrow> account_wf name (f name a)" "\<And>name a. ga_AuthIDs (f name a) = ga_AuthIDs a"
  shows "state_ok (st\<lparr>mo_Accounts := map (\<lambda>(name, a). (name, f name a)) (mo_Accounts st)\<rparr>)"
proof (rule state_ok_accounts [OF assms(1)])
  have "map fst (map (\<lambda>(name, a). (name, f name a)) (mo_Accounts st)) = map fst (mo_Accounts st)" by auto
  then show "map_wf (map (\<lambda>(name, a). (name, f name a)) (mo_Accounts st))" using assms(1) by (simp add: state_ok_def map_wf_def del: map_map)
  show "\<forall>(name, a) \<in> set (map (\<lambda>(name, a). (name, f name a)) (mo_Accounts st)). account_wf name a"
    using assms(1) f(1) by (auto simp: state_ok_def)
  show "ids_of (map (\<lambda>(name, a). (name, f name a)) (mo_Accounts st)) name = ids_of (mo_Accounts st) name" for name
    by (simp add: ids_of_def mget_map_values f(2) split: option.splits)
qed

section \<open>Windows\<close>

lemma kinds_all: "kind \<in> set kinds"
  by (cases kind) (simp_all add: kinds_def)

lemma mput_keys: "mget m k \<noteq> None \<Longrightarrow> map fst (mput k v m) = map fst m"
  by (induction m) auto

lemma wf_windows_put: "map fst ws = kinds \<Longrightarrow> map fst (mput kind w ws) = kinds"
  using mput_keys [of ws kind w] kinds_all [of kind] by (metis map_of_eq_None_iff image_set)

lemma foldl_put_keys: "map fst ws = kinds \<Longrightarrow> map fst (foldl (\<lambda>ws x. mput (f x) (g ws x) ws) ws xs) = kinds"
  by (induction xs arbitrary: ws) (simp_all add: wf_windows_put)

lemma refreshWindow_get:
  "mget_or zero_window (refreshWindow now ws kind) k =
     (if k = kind \<and> \<not> IsZero (ws_CooldownAt (mget_or zero_window ws kind)) \<and> \<not> ws_CooldownAt (mget_or zero_window ws kind) > now
      then zero_window else mget_or zero_window ws k)"
  by (simp add: refreshWindow_def Let_def)

text \<open>A refreshed window: cleared when its cooldown has passed, untouched otherwise.\<close>

definition settledWindow :: "gotime \<Rightarrow> windowState \<Rightarrow> windowState" where
  "settledWindow now w = (if \<not> IsZero (ws_CooldownAt w) \<and> \<not> ws_CooldownAt w > now then zero_window else w)"

lemma zero_window_simps [simp]:
  "ws_CooldownAt zero_window = 0" "ws_Exhausted zero_window = False" "ws_Utilization zero_window = None" "ws_Known zero_window = False"
  by (simp_all add: zero_window_def)

lemma refreshWindows_at: "window_at (refreshWindows a now) kind = settledWindow now (window_at a kind)"
  by (cases kind) (simp_all add: refreshWindows_def kinds_def refreshWindow_get settledWindow_def)

lemma refreshWindows_frame [simp]:
  "ga_Name (refreshWindows a now) = ga_Name a" "ga_AuthIDs (refreshWindows a now) = ga_AuthIDs a"
  "ga_Disabled (refreshWindows a now) = ga_Disabled a" "ga_cursor (refreshWindows a now) = ga_cursor a"
  "ga_DashboardAPIKey (refreshWindows a now) = ga_DashboardAPIKey a"
  by (simp_all add: refreshWindows_def)

lemma refreshWindow_keys: "map fst ws = kinds \<Longrightarrow> map fst (refreshWindow now ws kind) = kinds"
  by (simp add: refreshWindow_def Let_def wf_windows_put)

lemma account_wf_refresh: "account_wf name a \<Longrightarrow> account_wf name (refreshWindows a now)"
  by (simp add: account_wf_def refreshWindows_def kinds_def [THEN arg_cong, of "foldl f w" for f w] refreshWindow_keys)

text \<open>With the three windows present, the loop over the map is a question about each kind.\<close>

lemma windows_list: "map fst ws = kinds \<Longrightarrow> ws = map (\<lambda>kind. (kind, mget_or zero_window ws kind)) kinds"
proof -
  assume k: "map fst ws = kinds"
  then obtain a b c where "ws = [(windowFiveHour, a), (windowWeekly, b), (windowMonthly, c)]"
    by (auto simp: kinds_def map_eq_Cons_conv)
  then show ?thesis by (simp add: kinds_def mget_or_def)
qed

lemma accountHealthy_iff:
  assumes "account_wf name a"
  shows "accountHealthy a threshold now \<longleftrightarrow>
    \<not> ga_Disabled a \<and> (\<forall>kind. windowHealthy (float64_div (float64_of_int threshold) hundred) now (window_at a kind))"
proof -
  let ?h = "windowHealthy (float64_div (float64_of_int threshold) hundred) now"
  have k: "map fst (ga_Windows a) = kinds" using assms by (simp add: account_wf_def)
  have "list_all (\<lambda>(kind, w). ?h w) (ga_Windows a) = list_all (\<lambda>kind. ?h (window_at a kind)) kinds"
    by (subst windows_list [OF k]) (simp add: list_all_iff)
  then show ?thesis using kinds_all by (auto simp: accountHealthy_def list_all_iff)
qed

section \<open>Configuration gives well-formed states\<close>

definition item_ok :: "goAccountConfig \<Rightarrow> bool" where
  "item_ok item \<longleftrightarrow> gc_Name item \<noteq> [] \<and> (\<forall>i \<in> set (gc_AuthIDs item). clean_id i)"

lemma trimmedIDs_ok: "\<forall>i \<in> set out. clean_id i \<Longrightarrow> \<forall>i \<in> set (trimmedIDs out vs). clean_id i"
proof (induction out vs rule: trimmedIDs.induct)
  case (2 out v vs)
  have "clean_id (TrimSpace v)" if "TrimSpace v \<noteq> []" using that by (simp add: clean_id_def)
  then show ?case using 2 by (simp add: Let_def del: TrimSpace_idem)
qed simp

lemma configAccount_ok:
  assumes "configAccount key i raw = Inr item"
  shows "item_ok item"
proof -
  have "gc_Name item \<noteq> [] \<and> (\<exists>vs. gc_AuthIDs item = normalizeIDs vs)"
    using assms unfolding configAccount_def Let_def by (auto split: if_splits simp del: TrimSpace_idem)
  then show ?thesis using trimmedIDs_ok [of "[]"] by (auto simp: item_ok_def normalizeIDs_def)
qed

lemma configAccounts_ok: "configAccounts key i raws = Inr items \<Longrightarrow> \<forall>item \<in> set items. item_ok item"
proof (induction key i raws arbitrary: items rule: configAccounts.induct)
  case (2 key i raw rest)
  then obtain item more where "configAccount key i raw = Inr item" "configAccounts key (i + 1) rest = Inr more" "items = item # more"
    by (auto simp: bindR_Inr_iff)
  then show ?case using "2.IH" configAccount_ok by auto
qed simp

lemma parseConfig_ok:
  assumes "parseConfig decode raw = Inr cfg"
  shows "1 \<le> mc_ThresholdPercent cfg \<and> mc_ThresholdPercent cfg \<le> 100 \<and> (\<forall>item \<in> set (mc_Accounts cfg). item_ok item)"
  using assms configAccounts_ok
  by (auto simp: parseConfig_def Let_def defaultThreshold_def bindR_Inr_iff split: if_splits sum.splits)

lemma claimIDs_spec:
  assumes "claimIDs name ids byAuth = Inr byAuth'" and "name \<noteq> []"
  shows "map_wf byAuth \<Longrightarrow> map_wf byAuth'" "\<forall>(i, n) \<in> set byAuth'. (i, n) \<in> set byAuth \<or> (i \<in> set ids \<and> n = name)"
  using assms
proof (induction name ids byAuth rule: claimIDs.induct)
  case (2 name i ids byAuth)
  {
    case 1
    then show ?case using "2.IH" by (simp split: if_splits)
  next
    case 2
    then have "\<forall>(j, n) \<in> set byAuth'. (j, n) \<in> set (mput i name byAuth) \<or> (j \<in> set ids \<and> n = name)"
      using "2.IH"(2) by (simp split: if_splits)
    then show ?case using set_mput [of i name byAuth] by fastforce
  }
qed simp_all

lemma freshAccount_wf: "item_ok item \<Longrightarrow> account_wf (gc_Name item) (freshAccount item)"
  by (simp add: account_wf_def freshAccount_def item_ok_def comp_def)

lemma buildAccounts_ok:
  assumes "buildAccounts items seen st = Inr st'" and "state_ok st" and "\<forall>item \<in> set items. item_ok item"
    and "\<forall>(name, a) \<in> set (mo_Accounts st). ToLower name \<in> set seen"
  shows "state_ok st'"
  using assms
proof (induction items seen st rule: buildAccounts.induct)
  case (2 item rest seen st)
  then obtain byAuth where new: "ToLower (gc_Name item) \<notin> set seen"
    and claim: "claimIDs (gc_Name item) (gc_AuthIDs item) (mo_ByAuthID st) = Inr byAuth"
    by (auto simp: bindR_Inr_iff split: if_splits)
  let ?st = "st\<lparr>mo_ByAuthID := byAuth, mo_Accounts := mput (gc_Name item) (freshAccount item) (mo_Accounts st)\<rparr>"
  have item: "item_ok item" using "2.prems"(3) by simp
  note c = claimIDs_spec [OF claim] and name = item [unfolded item_ok_def, THEN conjunct1]
  have none: "mget (mo_Accounts st) (gc_Name item) = None"
    using "2.prems"(4) new by (auto simp: map_of_eq_None_iff)
  have ids: "ids_of (mo_Accounts ?st) n = (if n = gc_Name item then gc_AuthIDs item else ids_of (mo_Accounts st) n)" for n
    by (simp add: ids_of_def freshAccount_def)
  have owners: "clean_id i \<and> i \<in> set (ids_of (mo_Accounts ?st) n)" if "(i, n) \<in> set byAuth" for i n
  proof -
    from c(2) [OF name] that consider "(i, n) \<in> set (mo_ByAuthID st)" | "i \<in> set (gc_AuthIDs item)" "n = gc_Name item" by fastforce
    then show ?thesis
    proof cases
      case 1
      then have "clean_id i \<and> i \<in> set (ids_of (mo_Accounts st) n)" using "2.prems"(2) by (auto simp: state_ok_def)
      moreover have "n \<noteq> gc_Name item" using calculation none by (auto simp: ids_of_def)
      ultimately show ?thesis unfolding ids by simp
    next
      case 2
      then show ?thesis using item unfolding ids by (simp add: item_ok_def)
    qed
  qed
  have "state_ok ?st"
    using "2.prems"(2) c(1) [OF name] owners freshAccount_wf [OF item] set_mput [of "gc_Name item" "freshAccount item" "mo_Accounts st"]
    by (fastforce simp: state_ok_def)
  moreover have "\<forall>(name, a) \<in> set (mo_Accounts ?st). ToLower name \<in> set (ToLower (gc_Name item) # seen)"
    using "2.prems"(4) set_mput [of "gc_Name item" "freshAccount item" "mo_Accounts st"] by auto
  ultimately show ?case using "2.IH" new claim "2.prems"(1, 3) by simp
qed simp

lemma buildState_ok:
  assumes "parseConfig decode raw = Inr cfg" and "buildState cfg = Inr st"
  shows "state_ok st"
proof -
  note c = parseConfig_ok [OF assms(1)]
  have e: "state_ok \<lparr>mo_Threshold = mc_ThresholdPercent cfg, mo_Accounts = [], mo_ByAuthID = []\<rparr>" using c by (simp add: state_ok_def)
  then show ?thesis using assms(2) c buildAccounts_ok [OF _ e, of "mc_Accounts cfg" "[]" st]
    by (auto simp: buildState_def Let_def split: if_splits)
qed

lemma carryFrom_wf: "account_wf name a \<Longrightarrow> account_wf name (carryFrom old a)" "ga_AuthIDs (carryFrom old a) = ga_AuthIDs a"
  using foldl_put_keys [of "ga_Windows a" "\<lambda>kind. kind" "\<lambda>ws. window_at old" kinds] by (auto simp: carryFrom_def account_wf_def)

lemma carryForwardState_ok: "state_ok staged \<Longrightarrow> state_ok (carryForwardState staged previous)"
proof (cases previous)
  case (Some prev)
  assume "state_ok staged"
  then show ?thesis unfolding Some carryForwardState_def option.case
    by (rule state_ok_map) (auto simp: carryFrom_wf split: option.splits)
qed (simp add: carryForwardState_def)

section \<open>The specification of a pick\<close>

definition ownerOf :: "moduleState \<Rightarrow> candidate \<Rightarrow> string option" where
  "ownerOf st c = stateAccountByAuthID (Some st) (ca_ID c)"

definition unmanagedClaim :: "moduleState \<Rightarrow> candidate \<Rightarrow> bool" where
  "unmanagedClaim st c \<longleftrightarrow> candidateClaimsOpenCodeGo c \<and> ownerOf st c = None"

definition managedHere :: "moduleState \<Rightarrow> candidate \<Rightarrow> bool" where
  "managedHere st c \<longleftrightarrow> ownerOf st c \<noteq> None \<and> \<not> candidateClaimsOtherProvider c"

definition goAccountOf :: "moduleState \<Rightarrow> candidate \<Rightarrow> accountState" where
  "goAccountOf st c = the (mget (mo_Accounts st) (the (ownerOf st c)))"

definition available :: "gotime \<Rightarrow> moduleState \<Rightarrow> candidate \<Rightarrow> bool" where
  "available now st c \<longleftrightarrow> managedHere st c \<and> accountHealthy (refreshWindows (goAccountOf st c) now) (mo_Threshold st) now"

text \<open>
  What a pick answers: an error when a credential claims the provider and is not managed, nothing
  when no candidate is the provider's, an error when none is available, and otherwise the
  candidate at the cursor among the available ones in the order of their identifiers.
\<close>

definition goPickSpec :: "gotime \<Rightarrow> candidate list \<Rightarrow> moduleState \<Rightarrow> pickResponse result" where
  "goPickSpec now cands st =
     (if \<exists>c \<in> set cands. unmanagedClaim st c
      then Inl (goError ''opencode_go_unmanaged_candidate''
             ''recognized OpenCode Go credential is absent from the validated account snapshot'')
      else if \<not> (\<exists>c \<in> set cands. candidateClaimsOpenCodeGo c \<or> managedHere st c) then Inr zero_pickResponse
      else
        let ok = sort_key ca_ID (filter (available now st) cands)
        in if ok = [] then Inl noCapacity
           else Inr \<lparr>resp_Handled = True,
                     resp_AuthID = ca_ID (ok ! unat (ga_cursor (goAccountOf st (hd ok)) mod of_nat (length ok))),
                     resp_DelegateBuiltin = []\<rparr>)"

text \<open>What the first loop may do to the state: settle windows whose cooldown has passed.\<close>

definition settles_accounts :: "gotime \<Rightarrow> moduleState \<Rightarrow> moduleState \<Rightarrow> bool" where
  "settles_accounts now st st' \<longleftrightarrow> mo_ByAuthID st' = mo_ByAuthID st \<and> mo_Threshold st' = mo_Threshold st \<and>
     (\<forall>name. mget (mo_Accounts st') name = mget (mo_Accounts st) name \<or>
             mget (mo_Accounts st') name = map_option (\<lambda>a. refreshWindows a now) (mget (mo_Accounts st) name))"

lemma settledWindow_idem: "settledWindow now (settledWindow now w) = settledWindow now w"
  by (simp add: settledWindow_def)

lemma refreshWindow_settled: "settledWindow now (mget_or zero_window ws kind) = mget_or zero_window ws kind \<Longrightarrow> mget_or zero_window ws kind \<noteq> zero_window \<or> IsZero (ws_CooldownAt (mget_or zero_window ws kind)) \<Longrightarrow> refreshWindow now ws kind = ws"
  by (auto simp: refreshWindow_def settledWindow_def Let_def split: if_splits)

lemma refreshWindows_idem: "refreshWindows (refreshWindows a now) now = refreshWindows a now"
proof -
  let ?ws = "ga_Windows (refreshWindows a now)"
  have w: "refreshWindow now ?ws kind = ?ws" for kind
    by (rule refreshWindow_settled) (simp_all add: refreshWindows_at settledWindow_def)
  have "foldl (refreshWindow now) ?ws ks = ?ws" for ks by (induction ks) (simp_all add: w)
  then show ?thesis by (simp add: refreshWindows_def [of "refreshWindows a now"])
qed

lemma settles_refl: "settles_accounts now st st"
  by (simp add: settles_accounts_def)

lemma settles_trans: "settles_accounts now a b \<Longrightarrow> settles_accounts now b c \<Longrightarrow> settles_accounts now a c"
proof -
  assume ab: "settles_accounts now a b" and bc: "settles_accounts now b c"
  have "mget (mo_Accounts c) n = mget (mo_Accounts a) n \<or>
        mget (mo_Accounts c) n = map_option (\<lambda>x. refreshWindows x now) (mget (mo_Accounts a) n)" for n
    using ab [unfolded settles_accounts_def, THEN conjunct2, THEN conjunct2, THEN spec, of n]
      bc [unfolded settles_accounts_def, THEN conjunct2, THEN conjunct2, THEN spec, of n]
    by (cases "mget (mo_Accounts a) n") (auto simp: refreshWindows_idem)
  then show ?thesis using ab bc by (simp add: settles_accounts_def)
qed

lemma settles_owner: "settles_accounts now st st' \<Longrightarrow> ownerOf st' c = ownerOf st c"
  by (simp add: settles_accounts_def ownerOf_def stateAccountByAuthID_def)

lemma settles_refreshed:
  assumes "settles_accounts now st st'" and "state_ok st" and "ownerOf st c \<noteq> None"
  shows "refreshWindows (goAccountOf st' c) now = refreshWindows (goAccountOf st c) now" "ga_cursor (goAccountOf st' c) = ga_cursor (goAccountOf st c)"
proof -
  obtain name where n: "ownerOf st c = Some name" using assms(3) by auto
  then obtain a where a: "mget (mo_Accounts st) name = Some a" using managed_account [OF assms(2)] unfolding ownerOf_def by metis
  have "mget (mo_Accounts st') name = Some a \<or> mget (mo_Accounts st') name = Some (refreshWindows a now)"
    using assms(1) [unfolded settles_accounts_def, THEN conjunct2, THEN conjunct2, THEN spec, of name] a by simp
  then show "refreshWindows (goAccountOf st' c) now = refreshWindows (goAccountOf st c) now" "ga_cursor (goAccountOf st' c) = ga_cursor (goAccountOf st c)"
    using n a settles_owner [OF assms(1), of c] by (auto simp: goAccountOf_def refreshWindows_idem)
qed

lemma settles_same:
  assumes "settles_accounts now st st'" and "state_ok st"
  shows "unmanagedClaim st' c = unmanagedClaim st c" "managedHere st' c = managedHere st c" "available now st' c = available now st c"
  using settles_owner [OF assms(1), of c] settles_refreshed [OF assms, of c] assms(1)
  by (auto simp: unmanagedClaim_def managedHere_def available_def settles_accounts_def)

section \<open>A pick implements its specification\<close>

lemma scan_step:
  assumes "state_ok st" and "ownerOf st c = Some name" and "mget (mo_Accounts st) name = Some a"
  shows "state_ok (st\<lparr>mo_Accounts := mput name (refreshWindows a now) (mo_Accounts st)\<rparr>)"
    "settles_accounts now st (st\<lparr>mo_Accounts := mput name (refreshWindows a now) (mo_Accounts st)\<rparr>)"
  using state_ok_put [OF assms(1, 3) _ account_wf_refresh [OF state_ok_account [OF assms(1, 3)]]] assms(3)
  by (simp_all add: settles_accounts_def)

definition scan_result :: "gotime \<Rightarrow> moduleState \<Rightarrow> candidate list \<Rightarrow> bool \<Rightarrow> string list \<Rightarrow> (bool \<times> string list) result \<Rightarrow> bool" where
  "scan_result now st cands r h res \<longleftrightarrow>
     (if \<exists>c \<in> set cands. unmanagedClaim st c
      then res = Inl (goError ''opencode_go_unmanaged_candidate''
             ''recognized OpenCode Go credential is absent from the validated account snapshot'')
      else \<exists>names. res = Inr (r \<or> (\<exists>c \<in> set cands. candidateClaimsOpenCodeGo c \<or> managedHere st c), names) \<and>
                   set names = set h \<union> {n. \<exists>c \<in> set cands. available now st c \<and> ownerOf st c = Some n})"

lemma scan_result_settles:
  assumes "settles_accounts now st st'" and "state_ok st"
  shows "scan_result now st' cands r h = scan_result now st cands r h"
  by (rule ext) (simp add: scan_result_def settles_same [OF assms] settles_owner [OF assms(1)])

lemma scan_result_skip:
  assumes "\<not> unmanagedClaim st c" "\<not> managedHere st c" "\<not> available now st c" "r' = (r \<or> candidateClaimsOpenCodeGo c)"
  shows "scan_result now st (c # rest) r h = scan_result now st rest r' h"
  by (rule ext) (simp add: scan_result_def assms disj_assoc)

lemma scan_result_seen:
  assumes "\<not> unmanagedClaim st c" "managedHere st c" "ownerOf st c = Some name" "h' = (if available now st c then name # h else h)"
  shows "scan_result now st (c # rest) r h = scan_result now st rest True h'"
proof -
  have "set h \<union> {n. \<exists>d \<in> set (c # rest). available now st d \<and> ownerOf st d = Some n} =
        set h' \<union> {n. \<exists>d \<in> set rest. available now st d \<and> ownerOf st d = Some n}"
    using assms(3, 4) by auto
  then show ?thesis by (intro ext) (simp add: scan_result_def assms(1, 2))
qed

lemma goScan_spec:
  "state_ok st \<Longrightarrow> scan_result now st cands r h (fst (goScan now cands r h st)) \<and>
     state_ok (snd (goScan now cands r h st)) \<and> settles_accounts now st (snd (goScan now cands r h st))"
proof (induction now cands r h st rule: goScan.induct)
  case (1 now r h st)
  then show ?case by (simp add: scan_result_def settles_refl)
next
  case (2 now c rest r h st)
  show ?case
  proof (cases "ownerOf st c")
    case None
    show ?thesis
    proof (cases "candidateClaimsOpenCodeGo c")
      case True
      then show ?thesis using None "2.prems" by (simp add: scan_result_def unmanagedClaim_def ownerOf_def settles_refl)
    next
      case False
      note IH = "2.IH"(1) [OF refl None [unfolded ownerOf_def] False "2.prems"]
      have "scan_result now st (c # rest) r h = scan_result now st rest r h"
        by (rule scan_result_skip) (use None False in \<open>simp_all add: unmanagedClaim_def managedHere_def available_def\<close>)
      then show ?thesis using IH None False by (simp add: ownerOf_def)
    qed
  next
    case (Some name)
    obtain a where a: "mget (mo_Accounts st) name = Some a"
      using managed_account [OF "2.prems"] Some unfolding ownerOf_def by metis
    show ?thesis
    proof (cases "candidateClaimsOtherProvider c")
      case True
      note IH = "2.IH"(2) [OF refl Some [unfolded ownerOf_def] True "2.prems"]
      have "scan_result now st (c # rest) r h = scan_result now st rest (r \<or> candidateClaimsOpenCodeGo c) h"
        by (rule scan_result_skip) (use Some True in \<open>simp_all add: unmanagedClaim_def managedHere_def available_def\<close>)
      then show ?thesis using IH Some True by (simp add: ownerOf_def)
    next
      case False
      let ?a = "refreshWindows a now"
      let ?st = "st\<lparr>mo_Accounts := mput name ?a (mo_Accounts st)\<rparr>"
      let ?h = "if accountHealthy ?a (mo_Threshold st) now then name # h else h"
      note s = scan_step [OF "2.prems" Some a, of now]
      note IH = "2.IH"(3) [OF refl Some [unfolded ownerOf_def] False a refl refl s(1)]
      have av: "available now st c = accountHealthy ?a (mo_Threshold st) now"
        using Some False a by (simp add: available_def managedHere_def goAccountOf_def)
      have "scan_result now st (c # rest) r h = scan_result now st rest True ?h"
        by (rule scan_result_seen) (use Some False av in \<open>simp_all add: unmanagedClaim_def managedHere_def\<close>)
      then show ?thesis
        using IH Some False a settles_trans [OF s(2)] scan_result_settles [OF s(2) "2.prems", of rest True ?h]
        by (simp add: ownerOf_def Let_def)
    qed
  qed
qed

lemma selectable_available:
  assumes "state_ok st" and "settles_accounts now st st1" and "c \<in> set cands"
    and "set names = {n. \<exists>c \<in> set cands. available now st c \<and> ownerOf st c = Some n}"
  shows "goSelectable st1 names c = available now st c"
proof (cases "ownerOf st c")
  case None
  then show ?thesis using settles_owner [OF assms(2), of c]
    by (simp add: goSelectable_def available_def managedHere_def ownerOf_def)
next
  case (Some name)
  have "name \<in> set names \<longleftrightarrow> accountHealthy (refreshWindows (goAccountOf st c) now) (mo_Threshold st) now"
    if "\<not> candidateClaimsOtherProvider c"
    using Some that assms(3, 4) by (auto simp: available_def managedHere_def goAccountOf_def)
  then show ?thesis using Some settles_owner [OF assms(2), of c]
    by (auto simp: goSelectable_def available_def managedHere_def ownerOf_def)
qed

text \<open>Everything a pick does: its answer, and the accounts it settles or whose cursor it moves.\<close>

definition pick_settles :: "gotime \<Rightarrow> moduleState \<Rightarrow> moduleState \<Rightarrow> bool" where
  "pick_settles now st st' \<longleftrightarrow> (\<exists>st1. settles_accounts now st st1 \<and> state_ok st1 \<and>
     (st' = st1 \<or> (\<exists>name a. mget (mo_Accounts st1) name = Some a \<and>
        st' = st1\<lparr>mo_Accounts := mput name (a\<lparr>ga_cursor := ga_cursor a + 1\<rparr>) (mo_Accounts st1)\<rparr>)))"

lemma hd_sorted_in: "xs \<noteq> [] \<Longrightarrow> hd (sort_key f xs) \<in> set xs"
  by (metis list.set_sel(1) set_sort length_0_conv length_sort)

lemma goChoose_spec:
  assumes "state_ok st" and "settles_accounts now st st1" and "state_ok st1" and "cands \<noteq> []" and "\<forall>c \<in> set cands. available now st c"
  shows "fst (goChoose cands st1) =
      Inr \<lparr>resp_Handled = True,
           resp_AuthID = ca_ID (sort_key ca_ID cands ! unat (ga_cursor (goAccountOf st (hd (sort_key ca_ID cands))) mod of_nat (length cands))),
           resp_DelegateBuiltin = []\<rparr>"
    "pick_settles now st (snd (goChoose cands st1))"
proof -
  let ?c = "hd (sort_key ca_ID cands)"
  have m: "ownerOf st ?c \<noteq> None"
    using assms(5) hd_sorted_in [OF assms(4), of ca_ID] by (auto simp: available_def managedHere_def)
  then obtain name where n: "ownerOf st1 ?c = Some name" using settles_owner [OF assms(2)] by auto
  then obtain a where a: "mget (mo_Accounts st1) name = Some a"
    using managed_account [OF assms(3)] unfolding ownerOf_def by metis
  have cur: "ga_cursor a = ga_cursor (goAccountOf st ?c)"
    using settles_refreshed(2) [OF assms(2, 1) m] n a by (simp add: goAccountOf_def)
  show "fst (goChoose cands st1) =
      Inr \<lparr>resp_Handled = True, resp_AuthID = ca_ID (sort_key ca_ID cands ! unat (ga_cursor (goAccountOf st ?c) mod of_nat (length cands))),
           resp_DelegateBuiltin = []\<rparr>"
    using n a cur by (simp add: goChoose_def ownerOf_def Let_def)
  show "pick_settles now st (snd (goChoose cands st1))"
    using n a assms(2, 3) by (auto simp: goChoose_def ownerOf_def pick_settles_def Let_def)
qed

lemma goPick_spec:
  assumes "state_ok st"
  shows "fst (goPick now cands st) = goPickSpec now cands st" "pick_settles now st (snd (goPick now cands st))"
proof -
  obtain res st1 where e: "goScan now cands False [] st = (res, st1)" by (cases "goScan now cands False [] st")
  have sc: "scan_result now st cands False [] res" "state_ok st1" "settles_accounts now st st1"
    using goScan_spec [OF assms, of now cands False "[]"] e by auto
  then have ps: "pick_settles now st st1" by (auto simp: pick_settles_def)
  have "fst (goPick now cands st) = goPickSpec now cands st \<and> pick_settles now st (snd (goPick now cands st))"
  proof (cases "\<exists>c \<in> set cands. unmanagedClaim st c")
    case True
    then show ?thesis using sc(1) e ps by (simp add: scan_result_def goPick_def goPickSpec_def)
  next
    case False
    then obtain names where r: "res = Inr (\<exists>c \<in> set cands. candidateClaimsOpenCodeGo c \<or> managedHere st c, names)"
      and ns: "set names = {n. \<exists>c \<in> set cands. available now st c \<and> ownerOf st c = Some n}"
      using sc(1) by (auto simp: scan_result_def)
    let ?ok = "filter (available now st) cands"
    have sel: "filter (goSelectable st1 names) cands = ?ok"
      using selectable_available [OF assms sc(3) _ ns] by (auto intro: filter_cong)
    have some: "names = [] \<longleftrightarrow> ?ok = []"
    proof -
      have "\<exists>n. ownerOf st c = Some n" if "available now st c" for c using that by (auto simp: available_def managedHere_def)
      then have "set names = {} \<longleftrightarrow> (\<forall>c \<in> set cands. \<not> available now st c)" unfolding ns by blast
      then show ?thesis by (simp add: filter_empty_conv)
    qed
    have len: "length (sort_key ca_ID ?ok) = length ?ok" "sort_key ca_ID ?ok = [] \<longleftrightarrow> ?ok = []"
      by (simp_all flip: length_0_conv)
    show ?thesis
    proof (cases "?ok = [] \<or> \<not> (\<exists>c \<in> set cands. candidateClaimsOpenCodeGo c \<or> managedHere st c)")
      case True
      then show ?thesis using False e r ps some sel len by (auto simp: goPick_def goPickSpec_def Let_def)
    next
      case f: False
      then have ne: "?ok \<noteq> []" by simp
      note ch = goChoose_spec [OF assms sc(3, 2) ne]
      have "goPick now cands st = goChoose ?ok st1" using False f e r some sel by (simp add: goPick_def Let_def)
      then show ?thesis using False f ch len by (simp add: goPickSpec_def Let_def)
    qed
  qed
  then show "fst (goPick now cands st) = goPickSpec now cands st" "pick_settles now st (snd (goPick now cands st))" by simp_all
qed

section \<open>Every method keeps the state well formed\<close>

lemma state_ok_cursor: "state_ok st \<Longrightarrow> mget (mo_Accounts st) name = Some a \<Longrightarrow>
  state_ok (st\<lparr>mo_Accounts := mput name (a\<lparr>ga_cursor := k\<rparr>) (mo_Accounts st)\<rparr>)"
  by (rule state_ok_put) (use state_ok_account in \<open>auto simp: account_wf_def\<close>)

lemma pick_settles_ok: "pick_settles now st st' \<Longrightarrow> state_ok st'"
  unfolding pick_settles_def using state_ok_cursor by blast

lemma applySnapshot_wf: "account_wf name a \<Longrightarrow> account_wf name (applySnapshot snapshot a)" "ga_AuthIDs (applySnapshot snapshot a) = ga_AuthIDs a"
  using foldl_put_keys [of "ga_Windows a" fst "\<lambda>ws x. mergeWindowSignal (mget_or zero_window ws (fst x)) (pollSignal (us_ObservedAt snapshot) (snd x))"]
  by (simp_all add: applySnapshot_def account_wf_def case_prod_unfold)

lemma applyPoll_ok: "state_ok st \<Longrightarrow> state_ok (applyPoll st res)"
proof (cases "snd res"; cases "mget (mo_Accounts st) (fst res)")
  fix snapshot a
  assume st: "state_ok st" and s: "snd res = Inr snapshot" and a: "mget (mo_Accounts st) (fst res) = Some a"
  show ?thesis using state_ok_put [OF st a applySnapshot_wf(2) applySnapshot_wf(1) [OF state_ok_account [OF st a]]] s a
    by (simp add: applyPoll_def)
qed (simp_all add: applyPoll_def)

lemma applyPolls_ok: "state_ok st \<Longrightarrow> state_ok (foldl applyPoll st results)"
  by (induction results arbitrary: st) (simp_all add: applyPoll_ok)

lemma pollTargets_ok: "state_ok st \<Longrightarrow> state_ok (snd (pollTargets now st))"
  unfolding pollTargets_def snd_conv by (rule state_ok_map) (auto simp: account_wf_def)

lemma refreshAll_ok: "state_ok st \<Longrightarrow> state_ok (refreshAll now st)"
  unfolding refreshAll_def by (rule state_ok_map) (auto simp: account_wf_refresh)

lemma Reconfigure_ok:
  assumes "Module_Reconfigure lib decode raw m = (r, m')" and "module_ok m"
  shows "module_ok m'"
proof (cases "bindR (parseConfig decode raw) buildState")
  case (Inl e)
  then show ?thesis using assms by (auto simp: Module_Reconfigure_def module_ok_def Module_recordError_def)
next
  case (Inr staged)
  then have "state_ok staged" using buildState_ok by (auto simp: bindR_Inr_iff)
  then show ?thesis using assms Inr carryForwardState_ok by (auto simp: Module_Reconfigure_def module_ok_def split: if_splits)
qed

lemma Pick_ok:
  assumes "module_ok m"
  shows "module_ok (snd (Module_Pick now req m))" "fst (Module_Pick now req m) \<noteq> Inl nilDereference"
proof -
  have s: "state_ok (snd (goPick now cands st))" "fst (goPick now cands st) \<noteq> Inl nilDereference" if "state_ok st" for cands st
    using pick_settles_ok [OF goPick_spec(2) [OF that]] goPick_spec(1) [OF that, of now cands]
    by (simp_all add: goPickSpec_def Let_def goError_def noCapacity_def nilDereference_def)
  show "module_ok (snd (Module_Pick now req m))" "fst (Module_Pick now req m) \<noteq> Inl nilDereference"
    using s [of "the (md_state m)" "pr_Candidates req"] assms
    by (auto simp: Module_Pick_def module_ok_def split_beta goError_def nilDereference_def split: option.splits)
qed

lemma HandleUsage_cases:
  assumes "module_ok m"
  obtains "Module_HandleUsage lib wall rec m = (Inr (), m)"
  | st name a kind resetAt now where "md_state m = Some st" "stateAccountByAuthID (Some st) (ur_AuthID rec) = Some name"
      "mget (mo_Accounts st) name = Some a" "quotaWindowOf (ur_Body rec) = Some kind"
      "now = (if IsZero (ur_RequestedAt rec) then wall else ur_RequestedAt rec)"
      "resetAt = (case retryAfterReset lib (ur_ResponseHeaders rec) now of Some t \<Rightarrow> Some t | None \<Rightarrow> bodyReset (ur_Body rec) now)"
      "Module_HandleUsage lib wall rec m = (Inr (), m\<lparr>md_state := Some (st\<lparr>mo_Accounts := mput name
         (a\<lparr>ga_Windows := mput kind (applyFailure (window_at a kind) (failureSignal kind resetAt now)) (ga_Windows a)\<rparr>) (mo_Accounts st)\<rparr>)\<rparr>)"
proof (cases "md_state m")
  case None
  then show thesis using that(1) by (simp add: Module_HandleUsage_def)
next
  case (Some st)
  then have ok: "state_ok st" using assms by (simp add: module_ok_def)
  show thesis
  proof (cases "stateAccountByAuthID (Some st) (ur_AuthID rec)")
    case None
    then show thesis using Some that(1) by (simp add: Module_HandleUsage_def)
  next
    case n: (Some name)
    obtain a where a: "mget (mo_Accounts st) name = Some a" by (rule managed_account [OF ok n])
    show thesis
    proof (cases "md_closed m \<or> \<not> ur_Failed rec \<or> isMicrothrottle rec \<or> quotaWindowOf (ur_Body rec) = None \<or> ur_StatusCode rec \<noteq> 429")
      case True
      then show thesis using Some n a that(1) by (cases "quotaWindowOf (ur_Body rec)") (auto simp: Module_HandleUsage_def)
    next
      case False
      then obtain kind where k: "quotaWindowOf (ur_Body rec) = Some kind" by auto
      then show thesis using that(2) [OF Some n a k refl refl] False Some n a by (simp add: Module_HandleUsage_def Let_def)
    qed
  qed
qed

lemma HandleUsage_ok:
  assumes "module_ok m"
  shows "module_ok (snd (Module_HandleUsage lib wall rec m))" "fst (Module_HandleUsage lib wall rec m) = Inr ()"
proof -
  have "module_ok (snd (Module_HandleUsage lib wall rec m)) \<and> fst (Module_HandleUsage lib wall rec m) = Inr ()"
  proof (cases rule: HandleUsage_cases [OF assms, of lib wall rec])
    case 1
    then show ?thesis using assms by simp
  next
    case (2 st name a kind resetAt now)
    have ok: "state_ok st" using 2(1) assms by (simp add: module_ok_def)
    have "state_ok (st\<lparr>mo_Accounts := mput name (a\<lparr>ga_Windows := mput kind w (ga_Windows a)\<rparr>) (mo_Accounts st)\<rparr>)" for w
      by (rule state_ok_put [OF ok 2(3)]) (use state_ok_account [OF ok 2(3)] in \<open>simp_all add: account_wf_def wf_windows_put\<close>)
    then show ?thesis using 2(7) by (simp add: module_ok_def)
  qed
  then show "module_ok (snd (Module_HandleUsage lib wall rec m))" "fst (Module_HandleUsage lib wall rec m) = Inr ()" by simp_all
qed

text \<open>The life of a module; the two halves of a poll are steps of their own, as the lock is released between them.\<close>

inductive goStep :: "golib \<Rightarrow> (string \<Rightarrow> rawModuleConfig result) \<Rightarrow> Module \<Rightarrow> Module \<Rightarrow> bool" for lib decode where
  GoConfigure: "Module_Reconfigure lib decode raw m = (r, m') \<Longrightarrow> goStep lib decode m m'"
| GoPick: "Module_Pick now req m = (resp, m') \<Longrightarrow> goStep lib decode m m'"
| GoUsage: "Module_HandleUsage lib wall rec m = (r, m') \<Longrightarrow> goStep lib decode m m'"
| GoPollStart: "md_state m = Some st \<Longrightarrow> \<not> md_closed m \<Longrightarrow> goStep lib decode m (m\<lparr>md_state := Some (snd (pollTargets now st))\<rparr>)"
| GoPollEnd: "md_state m = Some st \<Longrightarrow> \<not> md_closed m \<Longrightarrow> goStep lib decode m (m\<lparr>md_state := Some (foldl applyPoll st results)\<rparr>)"
| GoStatus: "goStatus now m = (body, m') \<Longrightarrow> goStep lib decode m m'"
| GoClose: "goStep lib decode m (Module_Close m)"

lemma goStep_ok: "goStep lib decode m m' \<Longrightarrow> module_ok m \<Longrightarrow> module_ok m'"
proof (induction rule: goStep.induct)
  case (GoConfigure raw m r m')
  then show ?case using Reconfigure_ok by blast
next
  case (GoPick now req m resp m')
  then show ?case using Pick_ok(1) [of m now req] by simp
next
  case (GoUsage wall rec m r m')
  then show ?case using HandleUsage_ok(1) [of m lib wall rec] by simp
next
  case (GoPollStart m st now)
  then show ?case by (simp add: module_ok_def pollTargets_ok)
next
  case (GoPollEnd m st results)
  then show ?case by (simp add: module_ok_def applyPolls_ok)
next
  case (GoStatus now m body m')
  then show ?case by (auto simp: goStatus_def module_ok_def Let_def refreshAll_ok split: option.splits)
next
  case (GoClose m)
  then show ?case by (simp add: Module_Close_def module_ok_def)
qed

lemma goReachable_ok: "(goStep lib decode)\<^sup>*\<^sup>* NewModule m \<Longrightarrow> module_ok m"
  by (induction rule: rtranclp_induct) (auto simp: goStep_ok, simp add: NewModule_def module_ok_def)

section \<open>Windows and signals\<close>

lemma applyFailure_blocks:
  assumes "ws_Exhausted incoming" and "\<not> ws_Authoritative incoming"
  shows "ws_Exhausted (applyFailure live incoming)" "ws_CooldownAt incoming \<le> ws_CooldownAt (applyFailure live incoming)"
  using assms by (auto simp: applyFailure_def mergeWindowSignal_def Let_def)

lemma blocked_window:
  assumes "ws_Exhausted w" and "t < ws_CooldownAt w"
  shows "\<not> windowHealthy limit t (settledWindow t w)"
  using assms by (simp add: settledWindow_def windowHealthy_def)

lemma unhealthy_window:
  assumes "account_wf name a" and "\<not> windowHealthy (float64_div (float64_of_int threshold) hundred) t (settledWindow t (window_at a kind))"
  shows "\<not> accountHealthy (refreshWindows a t) threshold t"
  using accountHealthy_iff [OF account_wf_refresh [OF assms(1)], of t threshold t] assms(2) refreshWindows_at by metis

lemma cursor_bound: "xs \<noteq> [] \<Longrightarrow> unat (w mod of_nat (length xs) :: 64 word) < length xs"
proof -
  assume ne: "xs \<noteq> []"
  let ?n = "of_nat (length xs) :: 64 word"
  have n: "unat ?n = length xs mod 2 ^ 64" by (simp add: unat_of_nat)
  show ?thesis
  proof (cases "?n = 0")
    case True
    then have "length xs mod 2 ^ 64 = 0" using n by simp
    then have "2 ^ 64 \<le> length xs" using ne by (metis length_greater_0_conv mod_less not_le_imp_less less_irrefl)
    moreover have "unat w < 2 ^ 64" using unsigned_less [of w, where 'a = nat] by simp
    ultimately show ?thesis using True by simp
  next
    case False
    have "unat w mod unat ?n < unat ?n" using False by (simp add: unat_gt_0)
    also have "\<dots> \<le> length xs" using n by simp
    finally show ?thesis by (simp add: unat_mod)
  qed
qed

lemma picked_available:
  assumes "goPickSpec now cands st = Inr resp" and "resp_Handled resp"
  shows "\<exists>c \<in> set cands. available now st c \<and> resp_AuthID resp = ca_ID c"
proof -
  let ?ok = "sort_key ca_ID (filter (available now st) cands)"
  let ?k = "unat (ga_cursor (goAccountOf st (hd ?ok)) mod of_nat (length ?ok))"
  have e: "?ok \<noteq> []" "resp_AuthID resp = ca_ID (?ok ! ?k)"
    using assms by (auto simp: goPickSpec_def zero_pickResponse_def Let_def split: if_splits)
  have "?k < length ?ok" using e(1) by (rule cursor_bound)
  then have "?ok ! ?k \<in> set ?ok" by (rule nth_mem)
  then show ?thesis using e(2) by auto
qed

lemma polled_window:
  assumes "ws_Known live \<Longrightarrow> ws_ObservedAt live \<le> observedAt"
  shows "mergeWindowSignal live (pollSignal observedAt w) = pollSignal observedAt w"
  using assms by (auto simp: mergeWindowSignal_def pollSignal_def)

lemma applySnapshot_at:
  "window_at (applySnapshot snapshot a) kind =
     mergeWindowSignal (window_at a kind) (pollSignal (us_ObservedAt snapshot) (the (mget (snapshotWindows snapshot) kind)))"
  by (cases kind) (simp_all add: applySnapshot_def snapshotWindows_def)

section \<open>Ratios of doubles\<close>

lemma bitlen_mono: "0 < n \<Longrightarrow> n \<le> d \<Longrightarrow> bitlen n \<le> bitlen d"
proof -
  assume n: "0 < n" "n \<le> d"
  have "(2 :: int) ^ nat (bitlen n) < 2 ^ (nat (bitlen d) + 1)"
    using bitlen_lower [OF n(1)] bitlen_upper [of d] n(2) by simp
  then have "nat (bitlen n) < nat (bitlen d) + 1" by (rule power_less_imp_less_exp [rotated]) simp
  then show ?thesis using bitlen_nonneg [of n] bitlen_nonneg [of d] by linarith
qed

lemma float64_ratio_unit:
  assumes "0 < n" "n \<le> d" and "float64_ratio n d = (m, e)"
  shows "0 \<le> m \<and> float64_le (m, e) (1, 0)"
proof -
  have *: "0 \<le> rne (n * 2 ^ k) d \<and> rne (n * 2 ^ k) d \<le> 2 ^ k" for k :: nat
    using rne_bounds [of "n * 2 ^ k" d] rne_bounds(2) [of d "n * 2 ^ k" "2 ^ k"] assms(1, 2) by (simp add: mult.commute mult_left_mono)
  obtain m0 e0 where r: "round53 n d = (m0, e0)" by (cases "round53 n d")
  have "e0 < 0 \<and> m0 = rne (n * 2 ^ nat (- e0)) d"
    using r bitlen_mono [OF assms(1, 2)] by (auto simp: round53_def Let_def split_beta scaled_def split: if_splits)
  then have "e < 0 \<and> m = rne (n * 2 ^ nat (- e)) d"
    using assms(3) r by (auto simp: float64_ratio_def scaled_def split: if_splits)
  then show ?thesis using * [of "nat (- e)"] by (simp add: float64_le_def)
qed

lemma percent_unit:
  assumes "float64_le (0, 0) p" and "float64_le p hundred"
  shows "float64_le (0, 0) (float64_div p hundred) \<and> float64_le (float64_div p hundred) (1, 0)"
proof -
  obtain m e where p: "p = (m, e)" by (cases p)
  have m: "0 \<le> m" "m * 2 ^ nat e \<le> 100 * 2 ^ nat (- e)"
    using assms by (simp_all add: p float64_le_def hundred_def zero_le_mult_iff)
  show ?thesis
  proof (cases "m = 0")
    case True
    then show ?thesis by (simp add: p float64_div_def hundred_def float64_le_def)
  next
    case False
    obtain k f where r: "float64_ratio (m * 2 ^ nat e) (100 * 2 ^ nat (- e)) = (k, f)"
      by (cases "float64_ratio (m * 2 ^ nat e) (100 * 2 ^ nat (- e))")
    have "0 \<le> k \<and> float64_le (k, f) (1, 0)" by (rule float64_ratio_unit [OF _ m(2) r]) (use False m(1) in simp)
    then show ?thesis using r False m(1) by (simp add: p float64_div_def hundred_def float64_le_def)
  qed
qed

section \<open>A sample module\<close>

definition goRaw :: rawModuleConfig where
  "goRaw = \<lparr>rm_Enabled = None, rm_ThresholdPercent = Some 90, rm_DashboardAPIKey = ''dashboard'',
     rm_Accounts = [\<lparr>ra_Name = ''go-a'', ra_AuthIDs = [''go-1'', '' go-1''], ra_ConnectionID = [], ra_DashboardAPIKey = [], ra_Disabled = False\<rparr>,
                    \<lparr>ra_Name = ''go-b'', ra_AuthIDs = [], ra_ConnectionID = ''go-2'', ra_DashboardAPIKey = [], ra_Disabled = False\<rparr>]\<rparr>"

definition goModule :: Module where
  "goModule = snd (Module_Reconfigure sampleLib (\<lambda>_. Inr goRaw) ''{}'' NewModule)"

definition goRecord :: usageRecord where
  "goRecord = sampleUsage\<lparr>ur_AuthID := ''go-1'', ur_Failed := True, ur_StatusCode := 429,
     ur_Body := ''Weekly usage limit reached (reset after 2h 30m)''\<rparr>"

definition goCandidate :: "string \<Rightarrow> candidate" where
  "goCandidate i = \<lparr>ca_ID = i, ca_Provider = ''opencode-go'', ca_Attributes = []\<rparr>"

definition goRequest :: pickRequest where
  "goRequest = \<lparr>pr_Provider = ''opencode-go'', pr_Providers = [], pr_Model = ''m'', pr_Headers = [],
     pr_Candidates = [goCandidate ''go-2'', goCandidate ''go-1'']\<rparr>"

lemma goModule_reachable: "(goStep sampleLib (\<lambda>_. Inr goRaw))\<^sup>*\<^sup>* NewModule goModule"
  using GoConfigure [of sampleLib "\<lambda>_. Inr goRaw" "''{}''" NewModule "fst (Module_Reconfigure sampleLib (\<lambda>_. Inr goRaw) ''{}'' NewModule)" goModule]
  by (simp add: goModule_def)

lemma goModule_ok: "module_ok goModule" "md_state goModule = Some (the (md_state goModule))" "\<not> md_closed goModule"
proof -
  show "module_ok goModule" by (rule goReachable_ok [OF goModule_reachable])
  have "md_state goModule \<noteq> None" by code_simp
  then show "md_state goModule = Some (the (md_state goModule))" by simp
  show "\<not> md_closed goModule" by code_simp
qed

section \<open>Properties\<close>

text \<open>
  C28. The OpenCode Go module is type safe: in every state its methods can reach, every auth ID of
  the index is trimmed and belongs to an existing account that lists it, every account has exactly
  its three windows and the threshold is between 1 and 100, so that neither a pick nor a usage
  record dereferences a missing account.
\<close>

theorem go_module_type_safe:
  assumes "(goStep lib decode)\<^sup>*\<^sup>* NewModule m"
  shows "module_ok m \<and> fst (Module_Pick now req m) \<noteq> Inl nilDereference \<and> fst (Module_HandleUsage lib wall rec m) = Inr ()"
  using goReachable_ok [OF assms] Pick_ok(2) HandleUsage_ok(2) by blast

theorem go_module_type_safe_witness:
  "fst (Module_Pick sampleNow goRequest goModule) \<noteq> Inl nilDereference \<and>
   map fst (mo_Accounts (the (md_state goModule))) = [''go-a'', ''go-b'']"
proof -
  have "map fst (mo_Accounts (the (md_state goModule))) = [''go-a'', ''go-b'']" by code_simp
  then show ?thesis using go_module_type_safe [OF goModule_reachable] by blast
qed

text \<open>
  C16. A pick of the OpenCode Go module answers its specification: an error for a credential that
  claims the provider and is not managed, \<open>Handled: false\<close> when no candidate is the provider's, an
  error when no managed account is healthy, and otherwise the credential at the cursor among the
  healthy ones in the order of their identifiers. It changes nothing but windows whose cooldown
  has passed and that cursor.
\<close>

theorem go_pick_refines_spec:
  assumes "module_ok m" and "md_state m = Some st" "\<not> md_closed m"
  shows "fst (Module_Pick now req m) = goPickSpec now (pr_Candidates req) st \<and>
    (\<exists>st'. snd (Module_Pick now req m) = m\<lparr>md_state := Some st'\<rparr> \<and> pick_settles now st st')"
proof -
  have "state_ok st" using assms(1, 2) by (simp add: module_ok_def)
  from goPick_spec [OF this, of now "pr_Candidates req"] show ?thesis
    using assms(2, 3) by (auto simp: Module_Pick_def split_beta)
qed

theorem go_pick_refines_spec_witness:
  "fst (Module_Pick sampleNow goRequest goModule) = Inr \<lparr>resp_Handled = True, resp_AuthID = ''go-1'', resp_DelegateBuiltin = []\<rparr>"
proof -
  have "goPickSpec sampleNow (pr_Candidates goRequest) (the (md_state goModule)) =
      Inr \<lparr>resp_Handled = True, resp_AuthID = ''go-1'', resp_DelegateBuiltin = []\<rparr>" by code_simp
  then show ?thesis using go_pick_refines_spec [OF goModule_ok] by simp
qed

text \<open>
  C26. A quota response keeps the account out: after a 429 whose body names a usage window, no pick
  before the reset it announces (or within ten minutes when it announces none) selects a
  credential of that account.
\<close>

theorem go_quota_response_blocks:
  assumes "module_ok m" and "md_state m = Some st" "\<not> md_closed m"
    and "stateAccountByAuthID (Some st) (ur_AuthID rec) = Some name"
    and "ur_Failed rec" "ur_StatusCode rec = 429" "quotaWindowOf (ur_Body rec) = Some kind" "ur_RequestedAt rec = now" "now \<noteq> 0"
    and "resetAt = (case retryAfterReset lib (ur_ResponseHeaders rec) now of Some t \<Rightarrow> Some t | None \<Rightarrow> bodyReset (ur_Body rec) now)"
    and "t < (case resetAt of None \<Rightarrow> now + defaultFailureCooldown | Some u \<Rightarrow> u)"
    and "m' = snd (Module_HandleUsage lib wall rec m)"
    and "fst (Module_Pick t req m') = Inr resp" "resp_Handled resp"
  shows "stateAccountByAuthID (md_state m') (resp_AuthID resp) \<noteq> Some name"
proof -
  have ok: "state_ok st" using assms(1, 2) by (simp add: module_ok_def)
  obtain a where a: "mget (mo_Accounts st) name = Some a" "account_wf name a" by (rule managed_account [OF ok assms(4)])
  let ?w = "applyFailure (window_at a kind) (failureSignal kind resetAt now)"
  let ?a = "a\<lparr>ga_Windows := mput kind ?w (ga_Windows a)\<rparr>"
  let ?st = "st\<lparr>mo_Accounts := mput name ?a (mo_Accounts st)\<rparr>"
  have m': "m' = m\<lparr>md_state := Some ?st\<rparr>"
    using assms(2-12) a(1) by (simp add: Module_HandleUsage_def isMicrothrottle_def Let_def)
  have blocks: "ws_Exhausted ?w" "t < ws_CooldownAt ?w"
    using applyFailure_blocks [of "failureSignal kind resetAt now" "window_at a kind"] assms(11)
    by (auto simp: failureSignal_def split: option.splits)
  have wf: "account_wf name ?a" using a(2) by (simp add: account_wf_def wf_windows_put)
  have out: "\<not> accountHealthy (refreshWindows ?a t) (mo_Threshold st) t"
    by (rule unhealthy_window [OF wf, where kind = kind]) (use blocked_window [OF blocks] in simp)
  have "module_ok m'" using HandleUsage_ok(1) [OF assms(1)] assms(12) by simp
  then have "goPickSpec t (pr_Candidates req) ?st = Inr resp"
    using goPick_spec(1) [of ?st t "pr_Candidates req"] assms(3, 13) by (simp add: m' module_ok_def Module_Pick_def split_beta)
  then obtain c where c: "available t ?st c" "resp_AuthID resp = ca_ID c" using picked_available [OF _ assms(14)] by blast
  then show ?thesis using out by (auto simp: m' available_def goAccountOf_def ownerOf_def)
qed

theorem go_quota_response_blocks_witness:
  "stateAccountByAuthID (md_state (snd (Module_HandleUsage sampleLib 0 goRecord goModule))) ''go-2'' \<noteq> Some ''go-a''"
proof -
  let ?m = "snd (Module_HandleUsage sampleLib 0 goRecord goModule)"
  let ?r = "\<lparr>resp_Handled = True, resp_AuthID = ''go-2'', resp_DelegateBuiltin = []\<rparr>"
  have c: "stateAccountByAuthID (Some (the (md_state goModule))) (ur_AuthID goRecord) = Some ''go-a''"
    "ur_Failed goRecord" "ur_StatusCode goRecord = 429" "quotaWindowOf (ur_Body goRecord) = Some windowWeekly"
    "ur_RequestedAt goRecord = sampleNow" "sampleNow \<noteq> 0"
    "Some (sampleNow + 150 * Minute) =
      (case retryAfterReset sampleLib (ur_ResponseHeaders goRecord) sampleNow of Some t \<Rightarrow> Some t | None \<Rightarrow> bodyReset (ur_Body goRecord) sampleNow)"
    "sampleNow + 149 * Minute < (case Some (sampleNow + 150 * Minute) of None \<Rightarrow> sampleNow + defaultFailureCooldown | Some u \<Rightarrow> u)"
    by code_simp+
  have p: "fst (Module_Pick (sampleNow + 149 * Minute) goRequest ?m) = Inr ?r" by code_simp
  show ?thesis using go_quota_response_blocks [OF goModule_ok c refl p] by simp
qed

text \<open>
  A parsed usage window is in range: its utilisation is between 0 and 1, its reset is at most
  35 days away, and after the observation unless the limit has been reached.
\<close>

theorem usage_window_in_range:
  assumes "parseUsageWindow lib wire observedAt = Inr w"
  shows "float64_le (0, 0) (uw_Utilization w) \<and> float64_le (uw_Utilization w) (1, 0) \<and>
    uw_ResetAt w \<le> observedAt + maxResetFuture \<and> (uw_LimitReached w \<or> observedAt < uw_ResetAt w)"
proof -
  have one: "float64_le (0, 0) (1, 0)" "float64_le (1, 0) (1, 0)" by (simp_all add: float64_le_def)
  show ?thesis
    using assms percent_unit one
    by (auto simp: parseUsageWindow_def Let_def split: if_splits option.splits)
qed

definition goWire :: usageWireWindow where
  "goWire = \<lparr>ww_Status = ''OK'', ww_Percent = ''97.5'', ww_ResetsAt = ''2026-01-02T03:04:05Z''\<rparr>"

definition dateLib :: golib where
  "dateLib = sampleLib\<lparr>lib_parseRFC3339 := (\<lambda>s. if s = ''2026-01-02T03:04:05Z'' then Some (739617 * Day) else None)\<rparr>"

theorem usage_window_in_range_witness:
  "\<exists>w. parseUsageWindow dateLib goWire sampleNow = Inr w \<and> float64_le (uw_Utilization w) (1, 0) \<and> sampleNow < uw_ResetAt w"
proof -
  have "\<not> isl (parseUsageWindow dateLib goWire sampleNow)" "\<not> uw_LimitReached (projr (parseUsageWindow dateLib goWire sampleNow))" by code_simp+
  then obtain w where w: "parseUsageWindow dateLib goWire sampleNow = Inr w" "\<not> uw_LimitReached w"
    by (cases "parseUsageWindow dateLib goWire sampleNow") auto
  then show ?thesis using usage_window_in_range [OF w(1)] by blast
qed

text \<open>
  C36. A weaker 429 lifts an authoritative block: when a poll has found a window exhausted until
  some reset and a 429 arrives for it whose own reset is earlier, or that has none and counts for
  ten minutes, \<open>mergeWindowSignal\<close> keeps the polled state, but the cooldown of the 429 is written
  into it, and from its end on the window is forgotten, although without the 429 it would block the
  account at every later time.
\<close>

theorem weaker_429_lifts_authoritative_block:
  assumes "ws_Known live" "ws_Exhausted live" "ws_CooldownAt live = 0" and "0 < now"
    and "till = (case resetAt of None \<Rightarrow> now + defaultFailureCooldown | Some t \<Rightarrow> t)" "now < till" "till < ws_ResetAt live"
    and "till \<le> later"
  shows "settledWindow later (applyFailure live (failureSignal kind resetAt now)) = zero_window \<and>
    windowHealthy limit later zero_window \<and> \<not> windowHealthy limit later (settledWindow later live)"
  using assms
  by (cases resetAt)
    (simp_all add: applyFailure_def mergeWindowSignal_def failureSignal_def settledWindow_def windowHealthy_def zero_window_def Let_def)

theorem weaker_429_lifts_authoritative_block_witness:
  "settledWindow (sampleNow + 2 * Hour)
     (applyFailure (pollSignal sampleNow \<lparr>uw_Utilization = (1, 0), uw_LimitReached = True, uw_ResetAt = sampleNow + 20 * Day\<rparr>)
       (failureSignal windowMonthly (Some (sampleNow + Hour)) sampleNow)) = zero_window \<and>
   settledWindow (sampleNow + 2 * Hour)
     (applyFailure (pollSignal sampleNow \<lparr>uw_Utilization = (1, 0), uw_LimitReached = True, uw_ResetAt = sampleNow + 20 * Day\<rparr>)
       (failureSignal windowMonthly None sampleNow)) = zero_window"
proof -
  let ?live = "pollSignal sampleNow \<lparr>uw_Utilization = (1, 0), uw_LimitReached = True, uw_ResetAt = sampleNow + 20 * Day\<rparr>"
  have l: "ws_Known ?live" "ws_Exhausted ?live" "ws_CooldownAt ?live = 0" "0 < sampleNow" by code_simp+
  have s: "sampleNow < sampleNow + Hour" "sampleNow + Hour < ws_ResetAt ?live" "sampleNow + Hour \<le> sampleNow + 2 * Hour" by code_simp+
  have n: "sampleNow < sampleNow + defaultFailureCooldown" "sampleNow + defaultFailureCooldown < ws_ResetAt ?live"
    "sampleNow + defaultFailureCooldown \<le> sampleNow + 2 * Hour" by code_simp+
  show ?thesis
    using weaker_429_lifts_authoritative_block [OF l, of "sampleNow + Hour" "Some (sampleNow + Hour)"] s
      weaker_429_lifts_authoritative_block [OF l, of "sampleNow + defaultFailureCooldown" None] n by simp
qed

text \<open>
  A polled exhaustion does not expire: the signal of a dashboard poll has no cooldown, and no
  other code looks at its reset, so the account stays out at every later time, also long after
  the reset the dashboard announced, until a further poll; polls are made only by status requests.
\<close>

theorem polled_exhaustion_never_expires:
  assumes "account_wf name a" and "ws_Known (window_at a kind) \<Longrightarrow> ws_ObservedAt (window_at a kind) \<le> us_ObservedAt snapshot"
    and "uw_LimitReached (the (mget (snapshotWindows snapshot) kind))"
  shows "\<not> accountHealthy (refreshWindows (applySnapshot snapshot a) t) threshold t"
proof (rule unhealthy_window [OF applySnapshot_wf(1) [OF assms(1)], where kind = kind])
  let ?w = "the (mget (snapshotWindows snapshot) kind)"
  have "window_at (applySnapshot snapshot a) kind = pollSignal (us_ObservedAt snapshot) ?w"
    unfolding applySnapshot_at by (rule polled_window) (rule assms(2))
  then show "\<not> windowHealthy (float64_div (float64_of_int threshold) hundred) t (settledWindow t (window_at (applySnapshot snapshot a) kind))"
    using assms(3) by (simp add: settledWindow_def windowHealthy_def pollSignal_def)
qed

text \<open>The reset text of a response is read modulo \<open>2 ^ 64\<close> nanoseconds: 213504 days are 1526 seconds.\<close>

theorem reset_text_wraps:
  "parseResetAfterSeconds ''weekly usage limit reached (reset after 213504d)'' = Some 1526"
  by code_simp

end
