(* ===== verification/Hosted.thy ===== *)
theory Hosted
  imports Coordinator Lifecycle OpencodeGoInv
begin

text \<open>
  The plugin as it is put together: the coordinator with its two modules. The adapter of the Z.ai
  runtime to the interface is \<^verbatim>\<open>internal/providers/zai/module.go\<close>; the OpenCode Go module
  implements the interface itself. Both meet the laws of \<open>provider_module\<close>, and the properties of
  the coordinator follow for them.
\<close>

section \<open>The two modules\<close>

text \<open>What a call finds outside: the clock, the disk and the network, as the operations take them.\<close>

record hostedEnv =
  he_now :: gotime
  he_version :: string
  he_open :: "string \<Rightarrow> storeHandle result"
  he_recovered :: "settingsFile result"
  he_loaded :: "persistedState result"
  he_closeOld :: "go_error option"
  he_io :: "go_error option"
  he_flush :: "go_error option"
  he_close :: "go_error option"
  he_manage :: managementEnv
  he_meta :: "metaNow option"
  he_fetch :: "(string \<times> string) list \<Rightarrow> (string \<times> usageSnapshot result) list"

text \<open>The decoders of the two provider configurations.\<close>

record hostedCodec =
  hd_zai :: "string \<Rightarrow> rawPluginConfig result"
  hd_go :: "string \<Rightarrow> rawModuleConfig result"

datatype hosted = HostedZai "refreshGeneration option" pluginRuntime | HostedGo Module

datatype hostedStatus = ZaiStatus managementStatusBody | GoStatusBody moduleStatus

definition zai_Recognize :: "golib \<Rightarrow> pluginRuntime \<Rightarrow> candidate \<Rightarrow> bool" where
  "zai_Recognize lib rt c \<longleftrightarrow>
     recognizedZAICandidate lib c \<or>
     (case Runtime.current rt of Inl _ \<Rightarrow> False | Inr sn \<Rightarrow> mget (rs_byAuthID sn) (TrimSpace (ca_ID c)) \<noteq> None)"

definition zai_Reconfigure :: "golib \<Rightarrow> hostedCodec \<Rightarrow> hostedEnv \<Rightarrow> HostConfig \<Rightarrow> string \<Rightarrow> pluginRuntime \<Rightarrow> unit result \<times> pluginRuntime" where
  "zai_Reconfigure lib codec e host raw rt =
     (case parsePluginConfig (hd_zai codec raw) of
        Inl err \<Rightarrow> rejectWith err [] rt
      | Inr cfg \<Rightarrow>
          let cpa = \<lparr>cpa_AuthDir = hc_AuthDir host, cpa_ClaudeKeys = hc_ClaudeKeys host,
                     cpa_OpenAICompatibility = hc_OpenAICompatibility host, cpa_Plugins = \<lparr>pj_Enabled = False, pj_Configs = []\<rparr>\<rparr>
          in reconfigureWithAccounts lib (he_now e) (he_open e (hc_AuthDir host)) (he_recovered e) (he_loaded e) (he_closeOld e)
               cfg cpa (cpaProviderKeys cpa) rt)"

definition zai_OwnedAuthIDs :: "pluginRuntime \<Rightarrow> string list" where
  "zai_OwnedAuthIDs rt = (case Runtime.current rt of Inl _ \<Rightarrow> [] | Inr sn \<Rightarrow> mkeys (rs_byAuthID sn))"

definition zai_Status :: "hostedEnv \<Rightarrow> pluginRuntime \<Rightarrow> managementStatusBody \<times> pluginRuntime" where
  "zai_Status e rt =
     managementStatus (he_now e) (he_version e) (if validationStatus rt \<noteq> [] then ''reconfigure_rejected'' else ''registered'') rt"

definition zai_Routes :: "ManagementRoute list \<times> ManagementResource list" where
  "zai_Routes = (map (\<lambda>(m, p). \<lparr>mr_Method = m, mr_Path = p, mr_Description = []\<rparr>) managementRegistration, [])"

definition zai_HandleManagement ::
  "hostedEnv \<Rightarrow> managementRequest \<Rightarrow> refreshGeneration option \<Rightarrow> pluginRuntime \<Rightarrow> managementResponse \<times> refreshGeneration option \<times> pluginRuntime" where
  "zai_HandleManagement e req running rt = handleManagement (he_manage e) (rq_Method req) (rq_Path req) (rq_Body req) (running, rt)"

text \<open>The methods of the module in a slot of the coordinator.\<close>

definition hostedRecognize :: "golib \<Rightarrow> hosted \<Rightarrow> candidate \<Rightarrow> bool" where
  "hostedRecognize lib m c = (case m of HostedZai running rt \<Rightarrow> zai_Recognize lib rt c | HostedGo g \<Rightarrow> Module_Recognize g c)"

definition hostedReconfigure :: "golib \<Rightarrow> hostedCodec \<Rightarrow> hostedEnv \<Rightarrow> HostConfig \<Rightarrow> string \<Rightarrow> hosted \<Rightarrow> unit result \<times> hosted" where
  "hostedReconfigure lib codec e host raw m =
     (case m of
        HostedZai running rt \<Rightarrow> map_prod id (HostedZai running) (zai_Reconfigure lib codec e host raw rt)
      | HostedGo g \<Rightarrow> map_prod id HostedGo (Module_Reconfigure lib (hd_go codec) raw g))"

definition hostedOwned :: "hosted \<Rightarrow> string list" where
  "hostedOwned m = (case m of HostedZai running rt \<Rightarrow> zai_OwnedAuthIDs rt | HostedGo g \<Rightarrow> Module_OwnedAuthIDs g)"

definition hostedPick :: "golib \<Rightarrow> hostedEnv \<Rightarrow> pickRequest \<Rightarrow> hosted \<Rightarrow> pickResponse result \<times> hosted" where
  "hostedPick lib e req m =
     (case m of
        HostedZai running rt \<Rightarrow> map_prod id (HostedZai running) (pick lib (he_now e) req rt)
      | HostedGo g \<Rightarrow> map_prod id HostedGo (Module_Pick (requestTime lib (he_now e) (he_meta e)) req g))"

definition hostedUsage :: "golib \<Rightarrow> hostedEnv \<Rightarrow> usageRecord \<Rightarrow> hosted \<Rightarrow> unit result \<times> hosted" where
  "hostedUsage lib e rec m =
     (case m of
        HostedZai running rt \<Rightarrow> map_prod id (HostedZai running) (handleUsage lib (he_now e) (he_now e) (he_io e) rec rt)
      | HostedGo g \<Rightarrow> map_prod id HostedGo (Module_HandleUsage lib (he_now e) rec g))"

definition hostedStatusOf :: "hostedEnv \<Rightarrow> hosted \<Rightarrow> hostedStatus result \<times> hosted" where
  "hostedStatusOf e m =
     (case m of
        HostedZai running rt \<Rightarrow> map_prod (\<lambda>s. Inr (ZaiStatus s)) (HostedZai running) (zai_Status e rt)
      | HostedGo g \<Rightarrow> map_prod (\<lambda>s. Inr (GoStatusBody s)) HostedGo (Module_Status (he_now e) (he_now e) (he_fetch e) id g))"

definition hostedClose :: "hostedEnv \<Rightarrow> hosted \<Rightarrow> go_error option \<times> hosted" where
  "hostedClose e m =
     (case m of
        HostedZai running rt \<Rightarrow> map_prod id (HostedZai running) (shutdown (he_now e) (he_io e) (he_flush e) (he_close e) rt)
      | HostedGo g \<Rightarrow> (None, HostedGo (Module_Close g)))"

definition hostedRoutes :: "hosted \<Rightarrow> (ManagementRoute list \<times> ManagementResource list) option" where
  "hostedRoutes m = (case m of HostedZai _ _ \<Rightarrow> Some zai_Routes | HostedGo _ \<Rightarrow> None)"

definition hostedManage :: "hostedEnv \<Rightarrow> managementRequest \<Rightarrow> hosted \<Rightarrow> managementResponse option \<times> hosted" where
  "hostedManage e req m =
     (case m of
        HostedZai running rt \<Rightarrow>
          (case zai_HandleManagement e req running rt of (resp, running', rt') \<Rightarrow> (Some resp, HostedZai running' rt'))
      | HostedGo g \<Rightarrow> (None, m))"

definition hostedOps :: "golib \<Rightarrow> hostedCodec \<Rightarrow> (hostedEnv, hosted, hostedStatus, managementResponse option) moduleOps" where
  "hostedOps lib codec =
     \<lparr>op_Recognize = hostedRecognize lib, op_Reconfigure = hostedReconfigure lib codec, op_OwnedAuthIDs = hostedOwned,
      op_Pick = hostedPick lib, op_HandleUsage = hostedUsage lib, op_Status = hostedStatusOf, op_Close = hostedClose,
      op_Routes = hostedRoutes, op_Manage = hostedManage\<rparr>"

section \<open>The Z.ai module meets the laws\<close>

text \<open>The index of auth IDs names an account for each of them.\<close>

definition auth_ok :: "pluginRuntime \<Rightarrow> bool" where
  "auth_ok rt \<longleftrightarrow> (case rt_snapshot rt of None \<Rightarrow> True | Some sn \<Rightarrow> \<forall>(a, i) \<in> set (rs_byAuthID sn). i \<noteq> [])"

definition same_index :: "pluginRuntime \<Rightarrow> pluginRuntime \<Rightarrow> bool" where
  "same_index rt rt' \<longleftrightarrow> map_option rs_byAuthID (rt_snapshot rt') = map_option rs_byAuthID (rt_snapshot rt)"

lemma same_index_refl [simp]: "same_index rt rt"
  by (simp add: same_index_def)

lemma same_index_laws:
  assumes "same_index rt rt'"
  shows "zai_OwnedAuthIDs rt' = zai_OwnedAuthIDs rt" "zai_Recognize lib rt' = zai_Recognize lib rt" "auth_ok rt' = auth_ok rt"
  using assms
  by (auto simp: same_index_def zai_OwnedAuthIDs_def zai_Recognize_def auth_ok_def Runtime.current_def fun_eq_iff split: option.splits)


lemma index_snapshot:
  "rt_snapshot rt = Some sn \<Longrightarrow> rs_byAuthID sn' = rs_byAuthID sn \<Longrightarrow> rt_snapshot rt' = Some sn' \<Longrightarrow> same_index rt rt'"
  by (simp add: same_index_def)

lemma index_trans: "same_index a b \<Longrightarrow> same_index b c \<Longrightarrow> same_index a c"
  by (simp add: same_index_def)

lemma index_persist: "persistStateLocked now io store st rt = (r, rt') \<Longrightarrow> same_index rt rt'"
  using persistStateLocked_snapshot [of now io store st rt r rt'] by (auto simp: same_index_def markPersistenceFailure_def)

lemma index_pick: "same_index rt (snd (pick lib now req rt))"
proof (cases "rt_snapshot rt")
  case None
  then show ?thesis by (simp add: pick_def)
next
  case (Some sn)
  then show ?thesis using pick_state [OF Some, of lib now req] by (auto simp: same_index_def pick_frame_def)
qed

lemma index_usage: "same_index rt (snd (handleUsage lib now now' io rec rt))"
proof -
  obtain r rt1 w where h: "handleUsageLocked lib now now' rec rt = (r, rt1, w)" by (cases "handleUsageLocked lib now now' rec rt") auto
  have "same_index rt rt1"
  proof (cases "rt_snapshot rt = None \<or> rt_stopped rt \<or> usageIdentity (the (rt_snapshot rt)) rec = []")
    case True
    then show ?thesis using handleUsageLocked_ignored [OF True, of lib now now'] h by auto
  next
    case False
    then obtain sn where sn: "rt_snapshot rt = Some sn" "\<not> rt_stopped rt" "usageIdentity sn rec \<noteq> []" by auto
    then show ?thesis using handleUsageLocked_managed [OF sn, of lib now now'] h
      by (auto simp: same_index_def Let_def split: option.splits)
  qed
  moreover have "same_index rt1 (snd (handleUsage lib now now' io rec rt))"
    using h index_persist [of now' io _ _ rt1] by (cases w) (auto simp: handleUsage_def, metis prod.collapse)
  ultimately show ?thesis by (rule index_trans)
qed

lemma index_poll: "same_index rt (snd (pollOnce now now' io pd i g f rt))"
proof -
  obtain r rt1 w where h: "pollOnceLocked now now' pd i g f rt = (r, rt1, w)" by (cases "pollOnceLocked now now' pd i g f rt") auto
  have "same_index rt rt1"
  proof (cases "pollLive pd i g f rt")
    case None
    then show ?thesis using pollOnceLocked_dead [OF None, of now now'] h by auto
  next
    case (Some p)
    obtain sn st where p: "p = (sn, st)" by (cases p)
    have "rt_snapshot rt = Some sn" using Some p by (auto simp: pollLive_def split: if_splits option.splits)
    then show ?thesis using pollOnceLocked_live [OF Some [unfolded p], of now now'] h
      by (auto simp: same_index_def pollSnapshot_def Let_def)
  qed
  moreover have "same_index rt1 (snd (pollOnce now now' io pd i g f rt))"
    using h index_persist [of now' io _ _ rt1] by (cases w) (auto simp: pollOnce_def split_beta Let_def, metis prod.collapse)
  ultimately show ?thesis by (rule index_trans)
qed

lemma index_polls: "same_index rt (snd (snd (refreshPolls g ps rt)))"
proof (induction g ps rt rule: refreshPolls.induct)
  case (2 g p rest rt)
  let ?r = "pollOnce (rp_now p) (rp_now' p) (rp_io p) (rp_parentDone p) (rp_identity p) g (rp_fetched p) rt"
  have "same_index rt (snd ?r)" by (rule index_poll)
  moreover have "same_index (snd ?r) (snd (snd (refreshPolls g rest (snd ?r))))" by (rule "2.IH" [OF refl prod.collapse])
  ultimately have "same_index rt (snd (snd (refreshPolls g rest (snd ?r))))" by (rule index_trans)
  then show ?case by (auto simp: split_beta Let_def split: sum.splits)
qed simp

lemma index_status: "same_index rt (snd (managementStatus now version status rt))"
proof -
  have "rs_byAuthID (snd (statusLoop now items sn)) = rs_byAuthID sn" for items sn
    by (induction items arbitrary: sn) (auto simp: split_beta Let_def)
  then show ?thesis by (auto simp: managementStatus_def Let_def split_beta same_index_def split: option.splits)
qed

lemma index_unblock: "same_index rt (snd (unblock now name rt))"
proof -
  have "rs_byAuthID (foldl (unblockAccount now) sn is) = rs_byAuthID sn" for sn "is"
    by (induction "is" arbitrary: sn) (auto simp: unblockAccount_def Let_def)
  then show ?thesis by (auto simp: unblock_def Let_def same_index_def split: option.splits)
qed

lemma prepareStaged_index: "rs_byAuthID (prepareStaged live staged) = rs_byAuthID staged"
  by (auto simp: prepareStaged_def carryForwardNamedPlans_def Let_def split: option.splits)

lemma commit_index:
  "same_index rt (snd (commitSnapshotAfter before closeErr staged rt)) \<or>
   (\<exists>sn. rt_snapshot (snd (commitSnapshotAfter before closeErr staged rt)) = Some sn \<and> rs_byAuthID sn = rs_byAuthID staged)"
  by (auto simp: commitSnapshotAfter_def Let_def prepareStaged_index same_index_def split: option.splits)

lemma index_update: "same_index rt (snd (updateAccountConfig recovered saved closeErr input rt))"
proof (cases "snd (updateAccountConfig recovered saved closeErr input rt) = rt")
  case False
  then obtain sn index settings updated settings' before where sn: "rt_snapshot rt = Some sn"
    and p: "planUpdate input settings index sn = Inr (updated, settings')"
    and c: "updateAccountConfig recovered saved closeErr input rt = commitSnapshotAfter before closeErr updated rt"
    by (auto simp: updateAccountConfig_def Let_def bindR_Inr_iff split: if_splits option.splits sum.splits prod.splits)
  have "rs_byAuthID updated = rs_byAuthID sn" by (rule planUpdate_parts [OF p]) simp
  then show ?thesis using commit_index [of rt before closeErr updated] sn c by (auto simp: same_index_def)
qed simp

lemma index_manage: "same_index rt (snd (snd (handleManagement env httpMethod path body (running, rt))))"
proof -
  have branch: "same_index rt (snd (snd (if b then x else y)))"
    if "same_index rt (snd (snd x))" "same_index rt (snd (snd y))" for b and x y :: "managementResponse \<times> managementState"
    using that by simp
  have ans: "same_index rt (snd (snd (answer env (running', rt'))))" if "same_index rt rt'" for running' rt'
    using index_trans [OF that index_status] by (simp add: answer_def statusResponse_def Let_def split_beta)
  have refreshed: "same_index rt (snd (snd (case requireEmptyJSONBody env body of
      Inl e \<Rightarrow> (managementError 400 ''invalid_request'' (error_text e), running, rt)
    | Inr _ \<Rightarrow> (case forceRefresh (me_newId env) (me_polls env) (me_waited env) running rt of
        (Inl e, running, rt) \<Rightarrow> (managementError 502 ''refresh_failed'' (boundedStatus (error_text e)), running, rt)
      | (Inr _, running, rt) \<Rightarrow> answer env (running, rt)))))"
  proof -
    obtain r running' rt' where f: "forceRefresh (me_newId env) (me_polls env) (me_waited env) running rt = (r, running', rt')"
      by (cases "forceRefresh (me_newId env) (me_polls env) (me_waited env) running rt") auto
    have "same_index rt rt'"
      using f index_polls [of rt] by (auto simp: forceRefresh_def runRefresh_def split_beta Let_def split: sum.splits if_splits)
    then show ?thesis using ans f by (cases r) (auto split: sum.splits)
  qed
  have unblocked: "same_index rt (snd (snd (case decodeManagementJSON (me_selector env) body of
      Inl e \<Rightarrow> (managementError 400 ''invalid_request'' (error_text e), running, rt)
    | Inr account \<Rightarrow> (case unblock (me_now env) account rt of
        (Inl e, rt) \<Rightarrow> (managementError 400 ''unblock_rejected'' (error_text e), running, rt)
      | (Inr _, rt) \<Rightarrow> answer env (running, rt)))))"
    using ans index_unblock [of rt "me_now env"] by (auto split: sum.splits prod.splits) (metis snd_conv)+
  have configured: "same_index rt (snd (snd (case decodeManagementJSON (me_configRequest env) body of
      Inl e \<Rightarrow> (managementError 400 ''invalid_request'' (error_text e), running, rt)
    | Inr input \<Rightarrow> (case updateAccountConfig (me_recovered env) (me_saved env) (me_closeErr env) input rt of
        (Inl e, rt) \<Rightarrow> (managementError 400 ''invalid_account_config'' (error_text e), running, rt)
      | (Inr _, rt) \<Rightarrow> answer env (running, rt)))))"
    using ans index_update [of rt "me_recovered env" "me_saved env" "me_closeErr env"]
    by (auto split: sum.splits prod.splits) (metis snd_conv)+
  show ?thesis unfolding handleManagement_def fst_conv snd_conv
    by (intro branch ans refreshed unblocked configured) simp_all
qed

text \<open>The staged index: every auth ID leads to the identity of an account.\<close>

lemma stageAccount_index:
  assumes "\<forall>(a, i) \<in> set (sg_byAuthID sg). i \<in> S" and "acc_Identity ` set (sg_accounts sg) \<subseteq> S" and "j < length (sg_accounts sg)"
  shows "(\<forall>(a, i) \<in> set (sg_byAuthID (stageAccount now cfg persisted sg j)). i \<in> S) \<and>
    map acc_Identity (sg_accounts (stageAccount now cfg persisted sg j)) = map acc_Identity (sg_accounts sg)"
proof -
  let ?sg' = "stageAccount now cfg persisted sg j"
  have ids: "map acc_Identity (sg_accounts ?sg') = map acc_Identity (sg_accounts sg)"
    using credentials_identity [OF syncPlan_frame] by (auto simp: stageAccount_def Let_def split: option.splits)
  then have len: "length (sg_accounts ?sg') = length (sg_accounts sg)" by (metis length_map)
  have "acc_Identity (sg_accounts ?sg' ! j) = acc_Identity (sg_accounts sg ! j)"
    using ids len assms(3) by (metis nth_map)
  then have m: "acc_Identity (sg_accounts ?sg' ! j) \<in> S" using assms(2, 3) by (auto simp: subset_iff)
  have "sg_byAuthID ?sg' = indexAccountAuthIDs (sg_byAuthID sg) (sg_accounts ?sg' ! j)" by (simp add: stageAccount_def Let_def)
  then show ?thesis using index_valid [OF assms(1), of "sg_accounts ?sg' ! j"] m ids by simp
qed

lemma stageAccounts_index:
  "\<forall>(a, i) \<in> set (sg_byAuthID (stageAccounts now cfg persisted accounts)). i \<in> acc_Identity ` set accounts"
proof -
  let ?f = "stageAccount now cfg persisted"
  have "(\<forall>(a, i) \<in> set (sg_byAuthID (foldl ?f sg js)). i \<in> set (map acc_Identity accounts))"
    if "\<forall>(a, i) \<in> set (sg_byAuthID sg). i \<in> set (map acc_Identity accounts)" "map acc_Identity (sg_accounts sg) = map acc_Identity accounts"
      "\<forall>j \<in> set js. j < length accounts" for sg js
    using that
  proof (induction js arbitrary: sg)
    case (Cons j js)
    have "j < length (sg_accounts sg)" using Cons.prems(2, 3) by (metis length_map list.set_intros(1))
    moreover have "acc_Identity ` set (sg_accounts sg) \<subseteq> set (map acc_Identity accounts)" using Cons.prems(2) by (metis order_refl set_map)
    ultimately have "(\<forall>(a, i) \<in> set (sg_byAuthID (?f sg j)). i \<in> set (map acc_Identity accounts)) \<and>
        map acc_Identity (sg_accounts (?f sg j)) = map acc_Identity accounts"
      using stageAccount_index [OF Cons.prems(1)] Cons.prems(2) by metis
    then show ?case using Cons.IH [of "?f sg j"] Cons.prems(3) by simp
  qed simp
  from this [of "\<lparr>sg_accounts = accounts, sg_quota = [], sg_health = [], sg_byAuthID = [], sg_byIdentity = []\<rparr>" "[0..<length accounts]"]
  show ?thesis by (simp add: stageAccounts_def)
qed

lemma named_identities: "identities_ok accounts \<Longrightarrow> [] \<notin> acc_Identity ` set accounts"
proof -
  assume "identities_ok accounts"
  moreover have "validateAccountIdentity [] \<noteq> Inr ()" by code_simp
  ultimately show ?thesis by (auto simp: identities_ok_def list_all_iff image_iff)
qed

lemma auth_ok_commit:
  assumes "auth_ok rt" and "\<forall>(a, i) \<in> set (rs_byAuthID staged). i \<noteq> []"
  shows "auth_ok (snd (commitSnapshot closeErr staged rt))"
  using commit_index [of rt None closeErr staged] assms same_index_laws(3)
  by (auto simp: commitSnapshot_def auth_ok_def)

lemma same_index_snapshot: "rt_snapshot rt' = rt_snapshot rt \<Longrightarrow> same_index rt rt'"
  by (simp add: same_index_def)

lemma closeStore_index: "same_index rt (closeStore s rt)"
  by (rule same_index_snapshot) (simp add: closeStore_def split: option.splits)

lemma reject_index: "same_index rt (snd (rejectWith e ss rt))"
  by (rule same_index_snapshot) (simp add: rejectWith_frame)

text \<open>A reconfiguration keeps the index good, and a rejected one keeps it.\<close>

lemma reconfigured_auth:
  assumes "reconfigureWithAccounts lib now opened recovered loaded closeErr cfg cpa keys rt = (r, rt')" and "auth_ok rt" "hmac_hex lib"
  shows "auth_ok rt'" "r = Inl e \<Longrightarrow> closeErr = None \<Longrightarrow> same_index rt rt'"
proof -
  have "auth_ok rt' \<and> (r = Inl e \<longrightarrow> closeErr = None \<longrightarrow> same_index rt rt')"
  proof (cases "rt_stopped rt \<or> isl opened")
    case True
    then have "same_index rt rt'"
      using assms(1) reject_index [of rt] by (auto simp: reconfigureWithAccounts_def isl_def split: if_splits) (metis snd_conv)
    then show ?thesis using assms(2) same_index_laws(3) by blast
  next
    case False
    then obtain store where o: "opened = Inr store" and ns: "\<not> rt_stopped rt" by (cases opened) auto
    let ?st = "bindR (discoverAccounts lib cpa cfg) (\<lambda>base. bindR recovered (\<lambda>settings.
            bindR (applyStoredSettings base settings) (\<lambda>accounts. bindR (applyStoredConfig cfg settings) (\<lambda>c.
            bindR loaded (\<lambda>persisted. bindR (validatePersistedStateAt persisted now) (\<lambda>_.
              Inr (stagedSnapshot now c persisted base accounts store)))))))"
    show ?thesis
    proof (cases ?st)
      case (Inl err)
      then have "rt' = closeStore (Some store) (snd (rejectWith err keys rt))"
        using assms(1) ns o by (auto simp: reconfigureWithAccounts_def split_beta)
      then have "same_index rt rt'" using index_trans [OF reject_index closeStore_index] by blast
      then show ?thesis using assms(2) same_index_laws(3) by blast
    next
      case (Inr staged)
      then obtain base settings accounts c persisted where d: "discoverAccounts lib cpa cfg = Inr base"
          "applyStoredSettings base settings = Inr accounts" "staged = stagedSnapshot now c persisted base accounts store"
        by (auto simp: bindR_Inr_iff)
      have "identities_ok accounts"
        using discovered_identities [OF d(1) assms(3)] stored_identities [OF d(2)] identities_ok_cong by blast
      then have ix: "\<forall>(a, i) \<in> set (rs_byAuthID staged). i \<noteq> []"
        using stageAccounts_index [of now c persisted accounts] named_identities [of accounts] by (fastforce simp: d(3) stagedSnapshot_def Let_def)
      obtain q rt1 where cm: "commitSnapshot closeErr staged rt = (q, rt1)" by (cases "commitSnapshot closeErr staged rt")
      have "auth_ok rt1" using auth_ok_commit [OF assms(2) ix, of closeErr] cm by simp
      moreover have "closeErr = None \<Longrightarrow> q = Inr ()"
        using cm ns by (auto simp: commitSnapshot_def commitSnapshotAfter_def Let_def split: if_splits)
      moreover have "(r, rt') = (case q of Inl err \<Rightarrow> (Inl err, closeStore (Some store) rt1) | Inr _ \<Rightarrow> (Inr (), rt1))"
        using assms(1) ns o Inr cm by (simp add: reconfigureWithAccounts_def)
      ultimately show ?thesis using same_index_laws(3) [OF closeStore_index] by (cases q) auto
    qed
  qed
  then show "auth_ok rt'" "r = Inl e \<Longrightarrow> closeErr = None \<Longrightarrow> same_index rt rt'" by blast+
qed

lemma zai_reconfigured:
  assumes "zai_Reconfigure lib codec e host raw rt = (r, rt')" and "auth_ok rt" "hmac_hex lib"
  shows "auth_ok rt'" "r = Inl err \<Longrightarrow> he_closeOld e = None \<Longrightarrow> same_index rt rt'"
proof -
  have "auth_ok rt' \<and> (r = Inl err \<longrightarrow> he_closeOld e = None \<longrightarrow> same_index rt rt')"
  proof (cases "parsePluginConfig (hd_zai codec raw)")
    case (Inl x)
    then have "same_index rt rt'" using assms(1) reject_index [of rt x "[]"] by (simp add: zai_Reconfigure_def)
    then show ?thesis using assms(2) same_index_laws(3) by blast
  next
    case (Inr cfg)
    then show ?thesis using assms(1) reconfigured_auth [OF _ assms(2, 3)] unfolding zai_Reconfigure_def by (auto simp: Let_def)
  qed
  then show "auth_ok rt'" "r = Inl err \<Longrightarrow> he_closeOld e = None \<Longrightarrow> same_index rt rt'" by blast+
qed

lemma pickHealthy_subset: "set (fst (pickHealthy now sn cands h t)) \<subseteq> set h \<union> set cands"
proof (induction cands arbitrary: h t)
  case (Cons c rest)
  have IH: "x \<in> set (fst (pickHealthy now sn rest h' t')) \<Longrightarrow> x \<in> set h' \<or> x \<in> set rest" for x h' t' using Cons.IH by blast
  show ?case by (auto simp: Let_def dest!: IH split: if_splits)
qed simp

lemma pickChoose_from:
  assumes "h \<noteq> []"
  shows "resp_Handled (fst (pickChoose req h sn)) \<and> resp_AuthID (fst (pickChoose req h sn)) \<in> ca_ID ` set h"
proof -
  obtain a as where h: "h = a # as" using assms by (cases h) auto
  have "routing_sticky scope sid h \<in> ca_ID ` set h" for scope sid
    using stickyLoop_in [of "stickyScore scope sid" a as] by (auto simp: routing_sticky_def h)
  moreover have "fst (routing_next scope h cs) \<in> ca_ID ` set h" for scope cs
    using nth_mem [OF cursor_bound [OF assms]] by (auto simp: routing_next_def Let_def)
  ultimately show ?thesis by (simp add: pickChoose_def Let_def split_beta)
qed

lemma zai_recognised_managed:
  assumes "auth_ok rt" and "rt_snapshot rt = Some sn" and "zai_Recognize lib rt c" and "\<not> unmanaged lib sn c"
  shows "candidateIdentity sn c \<noteq> []"
proof (cases "mget (rs_byAuthID sn) (TrimSpace (ca_ID c))")
  case None
  then show ?thesis using assms(2-4) by (auto simp: zai_Recognize_def Runtime.current_def)
next
  case (Some i)
  then have "i \<noteq> []" using assms(1, 2) by (auto simp: auth_ok_def dest!: map_of_SomeD)
  then show ?thesis using Some by (simp add: candidateIdentity_def mget_or_def)
qed

lemma zai_pick_handles:
  assumes "auth_ok rt" and "\<exists>c \<in> set (pr_Candidates req). zai_Recognize lib rt c" and "fst (pick lib now req rt) = Inr resp"
  shows "resp_Handled resp \<and> from_request req resp"
proof -
  obtain sn where sn: "rt_snapshot rt = Some sn" "\<not> rt_stopped rt"
    using assms(3) by (auto simp: pick_def split: option.splits if_splits)
  obtain r sn1 where sc: "pickScan lib now (pr_Candidates req) 0 0 sn = (r, sn1)" by (cases "pickScan lib now (pr_Candidates req) 0 0 sn")
  note sp = pickScan_spec [OF sc]
  have "r \<noteq> None" using assms(3) sn sc by (cases r) (auto simp: pick_def Let_def)
  then have none: "\<not> (\<exists>c \<in> set (pr_Candidates req). unmanaged lib sn c)"
    and r: "r = Some (length (managedCandidates sn (pr_Candidates req)), length (impairedCandidates now sn (pr_Candidates req)))"
    using sp by (auto split: if_splits)
  have m: "managedCandidates sn (pr_Candidates req) \<noteq> []"
    using assms(2) none zai_recognised_managed [OF assms(1) sn(1)] by (auto simp: managedCandidates_def filter_empty_conv)
  obtain h t where h: "pickHealthy now sn1 (pr_Candidates req) [] 0 = (h, t)" by (cases "pickHealthy now sn1 (pr_Candidates req) [] 0")
  have sub: "set h \<subseteq> set (pr_Candidates req)" using pickHealthy_subset [of now sn1 "pr_Candidates req" "[]" 0] h by simp
  consider "resp = \<lparr>resp_Handled = True, resp_AuthID = [], resp_DelegateBuiltin = ''round-robin''\<rparr>"
    | "h \<noteq> []" "resp = fst (pickChoose req h sn1)"
    using assms(3) sn sc r m h by (auto simp: pick_def Let_def split_beta split: if_splits)
  then show ?thesis
  proof cases
    case 2
    then show ?thesis using pickChoose_from [OF 2(1), of req sn1] sub by (auto simp: from_request_def)
  qed (simp add: from_request_def)
qed

section \<open>The OpenCode Go module meets the laws\<close>

definition same_ids :: "Module \<Rightarrow> Module \<Rightarrow> bool" where
  "same_ids g g' \<longleftrightarrow> map_option mo_ByAuthID (md_state g') = map_option mo_ByAuthID (md_state g)"

lemma same_ids_laws:
  assumes "same_ids g g'"
  shows "Module_OwnedAuthIDs g' = Module_OwnedAuthIDs g" "Module_Recognize g' = Module_Recognize g"
proof -
  have "stateAccountByAuthID (md_state g') = stateAccountByAuthID (md_state g)"
    using assms by (auto simp: same_ids_def stateAccountByAuthID_def fun_eq_iff split: option.splits)
  then show "Module_Recognize g' = Module_Recognize g" by (simp add: Module_Recognize_def fun_eq_iff)
  show "Module_OwnedAuthIDs g' = Module_OwnedAuthIDs g"
    using assms by (auto simp: same_ids_def Module_OwnedAuthIDs_def split: option.splits)
qed

lemma ids_pick: "module_ok g \<Longrightarrow> same_ids g (snd (Module_Pick now req g))"
proof -
  assume g: "module_ok g"
  have "mo_ByAuthID (snd (goPick now cands st)) = mo_ByAuthID st" if "state_ok st" for cands st
    using goPick_spec(2) [OF that, of now cands] by (auto simp: pick_settles_def settles_accounts_def)
  then show ?thesis using g by (auto simp: same_ids_def Module_Pick_def module_ok_def split_beta split: option.splits)
qed

lemma ids_usage: "module_ok g \<Longrightarrow> same_ids g (snd (Module_HandleUsage lib wall rec g))"
  by (erule HandleUsage_cases [of g lib wall rec]) (simp_all add: same_ids_def)

lemma applyPolls_ids: "mo_ByAuthID (foldl applyPoll st results) = mo_ByAuthID st"
  by (induction results arbitrary: st) (auto simp: applyPoll_def split: sum.splits option.splits)

lemma ids_status: "module_ok g \<Longrightarrow> same_ids g (snd (Module_Status pollNow now fetch id g)) \<and> module_ok (snd (Module_Status pollNow now fetch id g))"
proof -
  assume g: "module_ok g"
  have s: "same_ids m (snd (goStatus now m)) \<and> (module_ok m \<longrightarrow> module_ok (snd (goStatus now m)))" for m
    using refreshAll_ok by (auto simp: goStatus_def Let_def same_ids_def module_ok_def refreshAll_def split: option.splits)
  have p: "same_ids g (pollUsageOnce pollNow fetch id g) \<and> module_ok (pollUsageOnce pollNow fetch id g)"
    using g pollTargets_ok applyPolls_ok [OF pollTargets_ok]
    by (auto simp: pollUsageOnce_def same_ids_def module_ok_def Let_def split_beta applyPolls_ids pollTargets_def split: option.splits)
  show ?thesis using p s [of "pollUsageOnce pollNow fetch id g"] by (auto simp: Module_Status_def same_ids_def)
qed

lemma ids_rejected:
  "Module_Reconfigure lib decode raw g = (Inl e, g') \<Longrightarrow> same_ids g g'"
  by (auto simp: Module_Reconfigure_def Module_recordError_def same_ids_def split: sum.splits if_splits)

lemma go_pick_handles:
  assumes "module_ok g" and "\<exists>c \<in> set (pr_Candidates req). Module_Recognize g c" and "fst (Module_Pick now req g) = Inr resp"
  shows "resp_Handled resp \<and> from_request req resp"
proof -
  obtain st where st: "md_state g = Some st" "\<not> md_closed g"
    using assms(3) by (auto simp: Module_Pick_def split: option.splits if_splits)
  have "fst (goPick now (pr_Candidates req) st) = Inr resp" using assms(3) st by (simp add: Module_Pick_def split_beta)
  moreover have "state_ok st" using assms(1) st(1) by (simp add: module_ok_def)
  ultimately have sp: "goPickSpec now (pr_Candidates req) st = Inr resp" using goPick_spec(1) by metis
  have "\<exists>c \<in> set (pr_Candidates req). candidateClaimsOpenCodeGo c \<or> managedHere st c"
    using assms(2) st(1) by (auto simp: Module_Recognize_def managedHere_def ownerOf_def split: if_splits)
  then have h: "resp_Handled resp" using sp by (auto simp: goPickSpec_def Let_def split: if_splits)
  then show ?thesis using picked_available [OF sp h] by (auto simp: from_request_def)
qed

section \<open>The coordinator on its two modules\<close>

definition hosted_ok :: "golib \<Rightarrow> hosted \<Rightarrow> bool" where
  "hosted_ok lib m \<longleftrightarrow> hmac_hex lib \<and> (case m of HostedZai running rt \<Rightarrow> auth_ok rt | HostedGo g \<Rightarrow> module_ok g)"

text \<open>No superseded store fails to close.\<close>

definition calm :: "hostedEnv \<Rightarrow> bool" where
  "calm e \<longleftrightarrow> he_closeOld e = None"

lemma zai_same:
  "same_index rt rt' \<Longrightarrow> same_ownership (hostedOps lib codec) (HostedZai running rt) (HostedZai running' rt')"
  by (simp add: same_ownership_def hostedOps_def hostedRecognize_def hostedOwned_def same_index_laws fun_eq_iff)

lemma go_same: "same_ids g g' \<Longrightarrow> same_ownership (hostedOps lib codec) (HostedGo g) (HostedGo g')"
  by (simp add: same_ownership_def hostedOps_def hostedRecognize_def hostedOwned_def same_ids_laws fun_eq_iff)

lemma zai_kept:
  assumes "hosted_ok lib (HostedZai running rt)" and "same_index rt rt'"
  shows "same_ownership (hostedOps lib codec) (HostedZai running rt) (HostedZai running' rt') \<and> hosted_ok lib (HostedZai running' rt')"
  using zai_same [OF assms(2)] same_index_laws(3) [OF assms(2)] assms(1) by (simp add: hosted_ok_def)

lemma go_kept:
  assumes "hosted_ok lib (HostedGo g)" and "module_ok g \<Longrightarrow> same_ids g g' \<and> module_ok g'"
  shows "same_ownership (hostedOps lib codec) (HostedGo g) (HostedGo g') \<and> hosted_ok lib (HostedGo g')"
  using assms go_same by (auto simp: hosted_ok_def)

lemma hostedOps_simps [simp]:
  "op_Recognize (hostedOps lib codec) = hostedRecognize lib" "op_Reconfigure (hostedOps lib codec) = hostedReconfigure lib codec"
  "op_OwnedAuthIDs (hostedOps lib codec) = hostedOwned" "op_Pick (hostedOps lib codec) = hostedPick lib"
  "op_HandleUsage (hostedOps lib codec) = hostedUsage lib" "op_Status (hostedOps lib codec) = hostedStatusOf"
  "op_Manage (hostedOps lib codec) = hostedManage" "op_Close (hostedOps lib codec) = hostedClose"
  by (simp_all add: hostedOps_def)

lemma hosted_pick_kept:
  "hosted_ok lib m \<Longrightarrow> same_ownership (hostedOps lib codec) m (snd (hostedPick lib e req m)) \<and> hosted_ok lib (snd (hostedPick lib e req m))"
  by (cases m) (simp_all add: hostedPick_def zai_kept index_pick go_kept ids_pick Pick_ok(1))

lemma hosted_usage_kept:
  "hosted_ok lib m \<Longrightarrow> same_ownership (hostedOps lib codec) m (snd (hostedUsage lib e rec m)) \<and> hosted_ok lib (snd (hostedUsage lib e rec m))"
  by (cases m) (simp_all add: hostedUsage_def zai_kept index_usage go_kept ids_usage HandleUsage_ok(1))

lemma hosted_status_kept:
  "hosted_ok lib m \<Longrightarrow> same_ownership (hostedOps lib codec) m (snd (hostedStatusOf e m)) \<and> hosted_ok lib (snd (hostedStatusOf e m))"
  by (cases m) (simp_all add: hostedStatusOf_def zai_Status_def zai_kept index_status go_kept ids_status)

lemma hosted_manage_kept:
  assumes "hosted_ok lib m"
  shows "same_ownership (hostedOps lib codec) m (snd (hostedManage e mreq m)) \<and> hosted_ok lib (snd (hostedManage e mreq m))"
proof (cases m)
  case (HostedZai running rt)
  have "same_index rt (snd (snd (zai_HandleManagement e mreq running rt)))" by (simp add: zai_HandleManagement_def index_manage)
  then show ?thesis using zai_kept assms HostedZai by (simp add: hostedManage_def split_beta)
qed (use assms in \<open>simp add: hostedManage_def\<close>)

lemma hosted_configured:
  assumes "hosted_ok lib m" and "hostedReconfigure lib codec e host raw m = (r, m')"
  shows "hosted_ok lib m'" "calm e \<Longrightarrow> r = Inl err \<Longrightarrow> same_ownership (hostedOps lib codec) m m'"
proof -
  have "hosted_ok lib m' \<and> (calm e \<longrightarrow> r = Inl err \<longrightarrow> same_ownership (hostedOps lib codec) m m')"
  proof (cases m)
    case (HostedZai running rt)
    then obtain rt' where z: "zai_Reconfigure lib codec e host raw rt = (r, rt')" and m': "m' = HostedZai running rt'"
      using assms(2) by (cases "zai_Reconfigure lib codec e host raw rt") (auto simp: hostedReconfigure_def)
    have "auth_ok rt" "hmac_hex lib" using assms(1) HostedZai by (simp_all add: hosted_ok_def)
    from zai_reconfigured [OF z this] show ?thesis using HostedZai m' \<open>hmac_hex lib\<close> zai_same by (auto simp: hosted_ok_def calm_def)
  next
    case (HostedGo g)
    then obtain g' where z: "Module_Reconfigure lib (hd_go codec) raw g = (r, g')" and m': "m' = HostedGo g'"
      using assms(2) by (cases "Module_Reconfigure lib (hd_go codec) raw g") (auto simp: hostedReconfigure_def)
    have "module_ok g" "hmac_hex lib" using assms(1) HostedGo by (simp_all add: hosted_ok_def)
    then show ?thesis using Reconfigure_ok [OF z] ids_rejected z HostedGo m' go_same by (auto simp: hosted_ok_def)
  qed
  then show "hosted_ok lib m'" "calm e \<Longrightarrow> r = Inl err \<Longrightarrow> same_ownership (hostedOps lib codec) m m'" by blast+
qed

lemma hosted_pick_handles:
  assumes "hosted_ok lib m" and "\<exists>c \<in> set (pr_Candidates req). hostedRecognize lib m c" and "fst (hostedPick lib e req m) = Inr resp"
  shows "resp_Handled resp \<and> from_request req resp"
proof (cases m)
  case (HostedZai running rt)
  then show ?thesis using assms zai_pick_handles [of rt req lib "he_now e" resp] by (simp add: hosted_ok_def hostedRecognize_def hostedPick_def)
next
  case (HostedGo g)
  then show ?thesis using assms go_pick_handles [of g req "requestTime lib (he_now e) (he_meta e)" resp]
    by (simp add: hosted_ok_def hostedRecognize_def hostedPick_def)
qed

text \<open>
  Closing a module: the OpenCode Go module gives up its state, and with it what it owned. What a
  module does on its own is the poll of a Z.ai account, with any outcome; the OpenCode Go module
  polls when it is asked for its status.
\<close>

lemma hosted_close_ok: "hosted_ok lib m \<Longrightarrow> hosted_ok lib (snd (hostedClose e m))"
  using shutdown_snapshot(1) [OF prod.collapse [symmetric]]
  by (cases m) (simp_all add: hosted_ok_def hostedClose_def auth_ok_def module_ok_def Module_Close_def)

inductive hosted_background :: "hosted \<Rightarrow> hosted \<Rightarrow> bool" where
  ZaiPoll: "pollOnce now now' io parentDone identity generation fetched rt = (r, rt') \<Longrightarrow>
    hosted_background (HostedZai running rt) (HostedZai running rt')"

lemma hosted_background_kept:
  assumes "hosted_ok lib m" and "hosted_background m m'"
  shows "same_ownership (hostedOps lib codec) m m' \<and> hosted_ok lib m'"
  using assms(2)
proof cases
  case (ZaiPoll now now' io parentDone identity generation fetched rt r rt' running)
  then have "same_index rt rt'" using index_poll [of rt now now' io parentDone identity generation fetched] by simp
  then show ?thesis using zai_kept assms(1) ZaiPoll by simp
qed

interpretation hosted: provider_module "hostedOps lib codec" "hosted_ok lib" calm hosted_background for lib codec
proof (unfold_locales, goal_cases)
  case (1 m e req)
  then show ?case using hosted_pick_kept by simp
next
  case (2 m e rec)
  then show ?case using hosted_usage_kept by simp
next
  case (3 m e)
  then show ?case using hosted_status_kept by simp
next
  case (4 m e mreq)
  then show ?case using hosted_manage_kept by simp
next
  case (5 m e host raw)
  then show ?case using hosted_configured(1) [OF 5] by (metis hostedOps_simps(2) prod.collapse)
next
  case (6 e m host raw err m')
  then show ?case using hosted_configured(2) by simp
next
  case (7 m req e resp)
  then show ?case using hosted_pick_handles by simp
next
  case (8 m e)
  then show ?case using hosted_close_ok by simp
next
  case (9 m m')
  then show ?case using hosted_background_kept by blast
qed

section \<open>A sample plugin\<close>

definition pluginCodec :: hostedCodec where
  "pluginCodec = \<lparr>hd_zai = (\<lambda>_. Inr (sampleRaw\<lparr>rc_Accounts := []\<rparr>)),
     hd_go = (\<lambda>raw. if raw = ''{}'' then Inr goRaw else Inl (Msg ''unexpected token''))\<rparr>"

definition pluginEnv :: coordinatorEnv where
  "pluginEnv =
     \<lparr>ce_decode = (\<lambda>raw. Inr \<lparr>cc_CPAConfigPath = [], cc_Providers = (if raw = [] then [] else [(''opencode-go'', raw)])\<rparr>),
      ce_nodeDecode = (\<lambda>node. Inr (AnyString node)), ce_marshal = (\<lambda>v. Inr ''[]''), ce_absolute = (\<lambda>p. Inr (''/srv/'' @ p)),
      ce_home = Inr ''/root'', ce_readFile = (\<lambda>_. Inr []),
      ce_parseHost = (\<lambda>_. Some \<lparr>hx_AuthDir = ''/auth'', hx_ClaudeKeys = cpa_ClaudeKeys sampleKeys,
         hx_OpenAICompatibility = cpa_OpenAICompatibility sampleKeys,
         hx_Plugins = \<lparr>pj_Enabled = True, pj_Configs = [(PluginID, \<lparr>pp_Enabled = Some True, pp_Priority = 1000\<rparr>)]\<rparr>\<rparr>),
      ce_ensureDir = (\<lambda>_. Inr ())\<rparr>"

definition outside :: hostedEnv where
  "outside =
     \<lparr>he_now = sampleNow, he_version = ''test'', he_open = (\<lambda>dir. Inr otherStore), he_recovered = Inr zero_settings,
      he_loaded = Inr zero_state, he_closeOld = None, he_io = None, he_flush = None, he_close = None,
      he_manage = \<lparr>me_now = sampleNow, me_version = ''test'', me_bodyMembers = (\<lambda>_. None), me_selector = (\<lambda>_. None),
        me_configRequest = (\<lambda>_. None), me_newId = 0, me_polls = [], me_waited = (\<lambda>_. Inr ()), me_recovered = Inr zero_settings,
        me_saved = (\<lambda>_. Inr ()), me_closeErr = None\<rparr>,
      he_meta = None, he_fetch = (\<lambda>_. [])\<rparr>"

definition newPlugin :: "hosted Coordinator" where
  "newPlugin = the (NewCoordinator [(''zai'', HostedZai None initial_runtime), (''opencode-go'', HostedGo NewModule)])"

definition pluginOps :: "(hostedEnv, hosted, hostedStatus, managementResponse option) moduleOps" where
  "pluginOps = hostedOps pathLib pluginCodec"

definition configuredPlugin :: "hosted Coordinator" where
  "configuredPlugin = snd (co_reconfigure pluginOps outside pluginEnv [] newPlugin)"

definition halfConfigured :: "hosted Coordinator" where
  "halfConfigured = snd (co_reconfigure pluginOps outside pluginEnv ''bad'' newPlugin)"

lemma newPlugin_ok: "modules_ok (hosted_ok pathLib) newPlugin" "distinct (map fst (co_modules newPlugin))"
  using pathLib_hex
  by (simp_all add: newPlugin_def NewCoordinator_def modules_ok_def hosted_ok_def auth_ok_def initial_runtime_def NewModule_def module_ok_def)

lemma configuredPlugin_run: "co_reconfigure pluginOps outside pluginEnv [] newPlugin = (Inr (), configuredPlugin)"
proof -
  have "fst (co_reconfigure pluginOps outside pluginEnv [] newPlugin) = Inr ()" by code_simp
  then show ?thesis unfolding configuredPlugin_def by (metis prod.collapse)
qed


section \<open>Properties\<close>

text \<open>
  C5. Dispatch of a pick by the coordinator. When it answers without an error, either no module
  recognises a candidate, and the request is declined with nothing changed, or exactly one module
  does; then that module answers, it handles the request and never passes it on, the credential
  it names is one of the request unless it delegates, and no other module is touched. A request
  whose candidates two modules recognise is therefore always an error.
\<close>

theorem coordinator_pick_dispatch:
  assumes "modules_ok (hosted_ok lib) c" and "fst (co_pick (hostedOps lib codec) e req c) = Inr resp"
  shows "if recognizing (hostedOps lib codec) req (co_modules c) = []
    then resp = zero_pickResponse \<and> snd (co_pick (hostedOps lib codec) e req c) = c
    else \<exists>i m. recognizing (hostedOps lib codec) req (co_modules c) = [(i, m)] \<and>
           fst (hostedPick lib e req m) = Inr resp \<and> resp_Handled resp \<and> from_request req resp \<and>
           snd (co_pick (hostedOps lib codec) e req c) = c\<lparr>co_modules := setModule i (snd (hostedPick lib e req m)) (co_modules c)\<rparr>"
  by (rule hosted.pick_dispatch [OF assms, unfolded hostedOps_simps])

lemma configuredPlugin_ok: "modules_ok (hosted_ok pathLib) configuredPlugin"
  using hosted.reconfigured [OF configuredPlugin_run [unfolded pluginOps_def] newPlugin_ok] by blast

theorem coordinator_pick_dispatch_witness:
  "\<exists>m. recognizing pluginOps goRequest (co_modules configuredPlugin) = [(''opencode-go'', m)] \<and>
     fst (hostedPick pathLib outside goRequest m) = Inr \<lparr>resp_Handled = True, resp_AuthID = ''go-1'', resp_DelegateBuiltin = []\<rparr>"
proof -
  have p: "fst (co_pick pluginOps outside goRequest configuredPlugin) = Inr \<lparr>resp_Handled = True, resp_AuthID = ''go-1'', resp_DelegateBuiltin = []\<rparr>"
    "map fst (recognizing pluginOps goRequest (co_modules configuredPlugin)) = [''opencode-go'']" by code_simp+
  have "recognizing pluginOps goRequest (co_modules configuredPlugin) \<noteq> []" using p(2) by (metis list.simps(8) not_Cons_self2)
  with coordinator_pick_dispatch [OF configuredPlugin_ok p(1) [unfolded pluginOps_def]] p(2) show ?thesis
    by (auto simp: pluginOps_def)
qed

lemma newPlugin_history:
  assumes "hmac_hex lib"
  shows "history_ok (hostedOps lib codec) (hosted_ok lib) [''zai'', ''opencode-go''] (begun (hostedOps lib codec) newPlugin)"
  using assms
  by (auto simp: newPlugin_def NewCoordinator_def history_ok_def begun_def modules_ok_def hosted_ok_def auth_ok_def initial_runtime_def
      NewModule_def module_ok_def ownedBy_def registry_of_def hostedOwned_def zai_OwnedAuthIDs_def Runtime.current_def Module_OwnedAuthIDs_def)

text \<open>
  C4. Usage records reach their owner. From the start of the plugin, after any sequence of picks,
  usage records, management requests, polls, reconfigurations that succeeded or failed and
  shutdowns, the record of an auth ID goes to the module, never more than one, that owned it when a
  reconfiguration last succeeded, with every other module left alone, and is dropped when there is
  none. As long as no reconfiguration has failed since and the plugin is not shut down, this is the
  module that owns the auth ID now.
\<close>

theorem usage_reaches_owner:
  assumes "(co_step (hostedOps lib codec) hosted_background)\<^sup>*\<^sup>* (begun (hostedOps lib codec) newPlugin) h" and "hmac_hex lib"
    and "TrimSpace (ur_AuthID rec) \<noteq> []"
  shows "(case filter (\<lambda>(p, ids). TrimSpace (ur_AuthID rec) \<in> set ids) (hs_owners h) of
      [] \<Rightarrow> co_handleUsage (hostedOps lib codec) e rec (hs_co h) = (Inr (), hs_co h)
    | [(p, ids)] \<Rightarrow> \<exists>m. (p, m) \<in> set (co_modules (hs_co h)) \<and> co_handleUsage (hostedOps lib codec) e rec (hs_co h) =
        (fst (hostedUsage lib e rec m), (hs_co h)\<lparr>co_modules := setModule p (snd (hostedUsage lib e rec m)) (co_modules (hs_co h))\<rparr>)
    | _ \<Rightarrow> False) \<and>
    (hs_settled h \<longrightarrow> hs_owners h = map (\<lambda>(p, m). (p, hostedOwned m)) (co_modules (hs_co h)))"
proof -
  have h: "history_ok (hostedOps lib codec) (hosted_ok lib) [''zai'', ''opencode-go''] h"
    by (rule hosted.reachable_history [OF assms(1) newPlugin_history [OF assms(2)]]) simp
  then have k: "map fst (co_modules (hs_co h)) = [''zai'', ''opencode-go'']" and o: "map fst (hs_owners h) = [''zai'', ''opencode-go'']"
    and r: "registry_of (hs_owners h) (co_registry (hs_co h))" by (simp_all add: history_ok_def)
  have "[] \<notin> fst ` set (co_modules (hs_co h))" using arg_cong [OF k, of set] by simp
  with hosted.usage_dispatch [OF r _ _ _ assms(3), unfolded hostedOps_simps] k o h show ?thesis
    by (simp add: history_ok_def ownedBy_def)
qed

lemma configured_history:
  "(co_step pluginOps hosted_background)\<^sup>*\<^sup>* (begun pluginOps newPlugin) (begun pluginOps configuredPlugin)"
  using CoReconfigure [of pluginOps outside pluginEnv "[]" "begun pluginOps newPlugin" configuredPlugin hosted_background] configuredPlugin_run
  by (simp add: begun_def)

theorem usage_reaches_owner_witness:
  "\<exists>m. (''opencode-go'', m) \<in> set (co_modules configuredPlugin) \<and>
     snd (co_handleUsage pluginOps outside goRecord configuredPlugin) =
       configuredPlugin\<lparr>co_modules := setModule ''opencode-go'' (snd (hostedUsage pathLib outside goRecord m)) (co_modules configuredPlugin)\<rparr>"
proof -
  have o: "map fst (filter (\<lambda>(p, ids). list_ex (\<lambda>x. x = TrimSpace (ur_AuthID goRecord)) ids) (ownedBy pluginOps (co_modules configuredPlugin))) = [''opencode-go'']"
    "TrimSpace (ur_AuthID goRecord) \<noteq> []" by code_simp+
  have eq: "(\<lambda>(p, ids). list_ex (\<lambda>x. x = TrimSpace (ur_AuthID goRecord)) ids) = (\<lambda>(p :: string, ids). TrimSpace (ur_AuthID goRecord) \<in> set ids)"
    by (auto simp: fun_eq_iff list_ex_iff)
  obtain ids where "filter (\<lambda>(p, ids). TrimSpace (ur_AuthID goRecord) \<in> set ids) (ownedBy pluginOps (co_modules configuredPlugin)) = [(''opencode-go'', ids)]"
    using o(1) unfolding eq by (auto simp: map_eq_Cons_conv)
  with usage_reaches_owner [OF configured_history [unfolded pluginOps_def] pathLib_hex(2) o(2), of outside]
  obtain m where "(''opencode-go'', m) \<in> set (co_modules configuredPlugin)"
    "snd (co_handleUsage pluginOps outside goRecord configuredPlugin) =
       configuredPlugin\<lparr>co_modules := setModule ''opencode-go'' (snd (hostedUsage pathLib outside goRecord m)) (co_modules configuredPlugin)\<rparr>"
    by (auto simp: pluginOps_def begun_def)
  then show ?thesis by blast
qed



end
