(* ===== verification/Plugin.thy ===== *)
theory Plugin
  imports Hosted
begin

text \<open>
  The ABI of the plugin, \<^verbatim>\<open>src/plugin.go\<close> and \<^verbatim>\<open>src/plugin_linux.go\<close>: one call with a
  method name and a request, answered with an envelope and a return code. The names of the
  methods and the schema version are constants of the host's SDK and the JSON decoders are
  third-party behaviour, so both are arguments. An envelope keeps the value of its result; the
  text is its JSON encoding.
\<close>

section \<open>Envelopes\<close>

record pluginMetadata =
  pm_Name :: string
  pm_Version :: string
  pm_Author :: string
  pm_GitHubRepository :: string

record pluginCapabilities =
  cp_Scheduler :: bool
  cp_UsagePlugin :: bool
  cp_ManagementAPI :: bool

record pluginRegistrationBody =
  rg_SchemaVersion :: int
  rg_Metadata :: pluginMetadata
  rg_Capabilities :: pluginCapabilities

datatype ('s, 'r) pluginResult =
    RegistrationResult pluginRegistrationBody
  | PickResult pickResponse
  | EmptyResult
  | RoutesResult "ManagementRoute list \<times> ManagementResource list"
  | ManagementResult "('s, 'r) coordinatorResponse"

text \<open>\<open>ErrorEnvelope\<close> has code, message, retryable flag and HTTP status.\<close>

datatype ('s, 'r) envelope =
    OKEnvelope "('s, 'r) pluginResult"
  | ErrorEnvelope string string bool int

record ('s, 'r) pluginABI =
  ab_SchemaVersion :: int
  ab_Version :: string
  ab_Register :: string
  ab_Reconfigure :: string
  ab_Pick :: string
  ab_Usage :: string
  ab_ManagementRegister :: string
  ab_ManagementHandle :: string
  ab_Shutdown :: string
  ab_lifecycle :: "string \<Rightarrow> string result"
  ab_pick :: "string \<Rightarrow> pickRequest option"
  ab_usage :: "string \<Rightarrow> usageRecord option"
  ab_manage :: "string \<Rightarrow> managementRequest option"
  ab_marshalErr :: "('s, 'r) pluginResult \<Rightarrow> go_error option"

definition abiMethods :: "('s, 'r) pluginABI \<Rightarrow> string list" where
  "abiMethods abi =
     [ab_Register abi, ab_Reconfigure abi, ab_Pick abi, ab_Usage abi, ab_ManagementRegister abi, ab_ManagementHandle abi, ab_Shutdown abi]"

definition pluginRegistration :: "('s, 'r) pluginABI \<Rightarrow> pluginRegistrationBody" where
  "pluginRegistration abi =
     \<lparr>rg_SchemaVersion = ab_SchemaVersion abi,
      rg_Metadata = \<lparr>pm_Name = PluginID, pm_Version = ab_Version abi, pm_Author = ''TogetherWeOwn'',
        pm_GitHubRepository = ''https://github.com/TogetherWeOwn/cpa-plugin-zai-coding-plan''\<rparr>,
      rg_Capabilities = \<lparr>cp_Scheduler = True, cp_UsagePlugin = True, cp_ManagementAPI = True\<rparr>\<rparr>"

definition okEnvelope :: "('s, 'r) pluginABI \<Rightarrow> ('s, 'r) pluginResult \<Rightarrow> ('s, 'r) envelope result" where
  "okEnvelope abi v = (case ab_marshalErr abi v of Some err \<Rightarrow> Inl err | None \<Rightarrow> Inr (OKEnvelope v))"

definition errorEnvelope :: "string \<Rightarrow> string \<Rightarrow> ('s, 'r) envelope" where
  "errorEnvelope code message = ErrorEnvelope code message False 0"

text \<open>Only an error that is itself coded keeps its code; one that wraps it does not.\<close>

definition errorEnvelopeFor :: "go_error \<Rightarrow> ('s, 'r) envelope" where
  "errorEnvelopeFor err =
     (case err of
        Wire code message retryable status \<Rightarrow> ErrorEnvelope code message retryable status
      | _ \<Rightarrow> errorEnvelope ''plugin_error'' (error_text err))"

section \<open>Methods\<close>

text \<open>The environment of a call: what modules and coordinator find outside, and the clock.\<close>

record 'e callEnv =
  cl_e :: 'e
  cl_env :: coordinatorEnv
  cl_now :: gotime

definition schedulerPick ::
  "('s, 'r) pluginABI \<Rightarrow> ('e, 'm, 's, 'r) moduleOps \<Rightarrow> 'e callEnv \<Rightarrow> string \<Rightarrow> 'm Coordinator \<Rightarrow> ('s, 'r) envelope result \<times> 'm Coordinator" where
  "schedulerPick abi ops cl request c =
     (case ab_pick abi request of
        None \<Rightarrow> (Inl (Msg ''decode scheduler request''), c)
      | Some req \<Rightarrow>
          (case co_pick ops (cl_e cl) req c of
             (Inl err, c') \<Rightarrow> (Inl err, c')
           | (Inr response, c') \<Rightarrow> (okEnvelope abi (PickResult response), c')))"

definition usageHandle ::
  "('s, 'r) pluginABI \<Rightarrow> ('e, 'm, 's, 'r) moduleOps \<Rightarrow> 'e callEnv \<Rightarrow> string \<Rightarrow> 'm Coordinator \<Rightarrow> ('s, 'r) envelope result \<times> 'm Coordinator" where
  "usageHandle abi ops cl request c =
     (case ab_usage abi request of
        None \<Rightarrow> (Inl (Msg ''decode usage record''), c)
      | Some rec \<Rightarrow> (okEnvelope abi EmptyResult, snd (co_handleUsage ops (cl_e cl) rec c)))"

definition managementHandle ::
  "('s, 'r) pluginABI \<Rightarrow> ('e, 'm, 's, 'r) moduleOps \<Rightarrow> 'e callEnv \<Rightarrow> string \<Rightarrow> 'm Coordinator \<Rightarrow> ('s, 'r) envelope result \<times> 'm Coordinator" where
  "managementHandle abi ops cl request c =
     (case ab_manage abi request of
        None \<Rightarrow> (Inl (Msg ''decode management request''), c)
      | Some req \<Rightarrow>
          (case co_handleManagement ops (cl_e cl) (ab_Version abi) (cl_now cl) req c of
             (response, c') \<Rightarrow> (okEnvelope abi (ManagementResult response), c')))"

definition decodeLifecycle :: "('s, 'r) pluginABI \<Rightarrow> string \<Rightarrow> string result" where
  "decodeLifecycle abi payload = (if payload = [] then Inl (Msg ''empty lifecycle request'') else ab_lifecycle abi payload)"

definition lifecycleCall ::
  "bool \<Rightarrow> ('s, 'r) pluginABI \<Rightarrow> ('e, 'm, 's, 'r) moduleOps \<Rightarrow> 'e callEnv \<Rightarrow> string \<Rightarrow> 'm Coordinator \<Rightarrow> ('s, 'r) envelope result \<times> 'm Coordinator" where
  "lifecycleCall recordDecodeError abi ops cl payload c =
     (case decodeLifecycle abi payload of
        Inl err \<Rightarrow>
          (Inr (errorEnvelope ''invalid_request'' ''request body is invalid''), if recordDecodeError then snd (co_recordError err c) else c)
      | Inr configYAML \<Rightarrow>
          (case co_reconfigure ops (cl_e cl) (cl_env cl) configYAML c of
             (Inl err, c') \<Rightarrow> (Inr (errorEnvelope ''invalid_config'' (co_validationStatus c')), c')
           | (Inr _, c') \<Rightarrow> (okEnvelope abi (RegistrationResult (pluginRegistration abi)), c')))"

definition dispatchMethod ::
  "('s, 'r) pluginABI \<Rightarrow> ('e, 'm, 's, 'r) moduleOps \<Rightarrow> 'e callEnv \<Rightarrow> string \<Rightarrow> string \<Rightarrow> 'm Coordinator \<Rightarrow> ('s, 'r) envelope result \<times> 'm Coordinator" where
  "dispatchMethod abi ops cl name payload c =
     (if name = ab_Register abi then lifecycleCall False abi ops cl payload c
      else if name = ab_Reconfigure abi then lifecycleCall True abi ops cl payload c
      else if name = ab_Pick abi then schedulerPick abi ops cl payload c
      else if name = ab_Usage abi then usageHandle abi ops cl payload c
      else if name = ab_ManagementRegister abi then (okEnvelope abi (RoutesResult (managementRoutes ops c)), c)
      else if name = ab_ManagementHandle abi then managementHandle abi ops cl payload c
      else if name = ab_Shutdown abi then
        (case co_shutdown ops (cl_e cl) c of
           (Some err, c') \<Rightarrow> (Inl err, c')
         | (None, c') \<Rightarrow> (okEnvelope abi EmptyResult, c'))
      else (Inr (errorEnvelope ''unknown_method'' ''method is not implemented by this plugin''), c))"

text \<open>
  \<open>C.int\<close> of a length keeps its low 32 bits as a signed number; \<open>C.GoBytes\<close> panics on a
  negative one.
\<close>

definition cInt :: "int \<Rightarrow> int" where
  "cInt n = (n + 2 ^ 31) mod 2 ^ 32 - 2 ^ 31"

definition goBytes :: "string \<Rightarrow> string option" where
  "goBytes request = (let n = cInt (int (length request)) in if n < 0 then None else Some (take (nat n) request))"

datatype ('s, 'r) callOutcome = CallPanic | CallReturns int "('s, 'r) envelope"

text \<open>A method is \<open>None\<close> for a null pointer; the response buffer holds the returned envelope.\<close>

definition cliproxyPluginCall ::
  "('s, 'r) pluginABI \<Rightarrow> ('e, 'm, 's, 'r) moduleOps \<Rightarrow> 'e callEnv \<Rightarrow> string option \<Rightarrow> string \<Rightarrow> 'm Coordinator \<Rightarrow> ('s, 'r) callOutcome \<times> 'm Coordinator" where
  "cliproxyPluginCall abi ops cl name request c =
     (case name of
        None \<Rightarrow> (CallReturns 1 (errorEnvelope ''invalid_method'' ''method is required''), c)
      | Some called \<Rightarrow>
          (case goBytes request of
             None \<Rightarrow> (CallPanic, c)
           | Some payload \<Rightarrow>
               (case dispatchMethod abi ops cl called payload c of
                  (Inl err, c') \<Rightarrow> (CallReturns 1 (errorEnvelopeFor err), c')
                | (Inr raw, c') \<Rightarrow> (CallReturns 0 raw, c'))))"

definition cliproxyPluginShutdown :: "('e, 'm, 's, 'r) moduleOps \<Rightarrow> 'e callEnv \<Rightarrow> 'm Coordinator \<Rightarrow> 'm Coordinator" where
  "cliproxyPluginShutdown ops cl c = snd (co_shutdown ops (cl_e cl) c)"

section \<open>Sequences of calls\<close>

text \<open>The host may call any method at any time; a module may also work on its own.\<close>

inductive plugin_step :: "('s, 'r) pluginABI \<Rightarrow> ('e, 'm, 's, 'r) moduleOps \<Rightarrow> 'm Coordinator \<Rightarrow> 'm Coordinator \<Rightarrow> bool" for abi ops where
  PluginCall: "cliproxyPluginCall abi ops cl name request c = (out, c') \<Longrightarrow> plugin_step abi ops c c'"
| PluginShutdown: "plugin_step abi ops c (cliproxyPluginShutdown ops cl c)"
| PluginBackground: "plugin_step abi ops c (c\<lparr>co_modules := setModule i m' (co_modules c)\<rparr>)"

inductive_cases plugin_stepE: "plugin_step abi ops c c'"

lemma stopped_coordinator:
  assumes "co_stopped c"
  shows "co_pick ops e req c = (Inl (Msg ''plugin is shutting down''), c)" "co_shutdown ops e c = (None, c)"
    "isl (fst (co_reconfigure ops e env raw c)) \<and> snd (co_reconfigure ops e env raw c) = c" "snd (co_recordError err c) = c"
    "co_stopped (snd (co_handleUsage ops e rec c)) \<and> co_lastErr (snd (co_handleUsage ops e rec c)) = co_lastErr c"
    "co_stopped (snd (co_handleManagement ops e version now mreq c)) \<and> co_lastErr (snd (co_handleManagement ops e version now mreq c)) = co_lastErr c"
  using assms
  by (auto simp: co_pick_def co_shutdown_def co_reconfigure_def co_recordError_def co_handleUsage_def co_handleManagement_def co_managementStatus_def
      Let_def split_beta split: sum.splits option.splits)

lemma stopped_reconfigure: "co_stopped c \<Longrightarrow> \<exists>err. co_reconfigure ops e env raw c = (Inl err, c)"
  using stopped_coordinator(3) [of c ops e env raw] by (metis isl_def prod.collapse)

lemma stopped_lifecycle_call:
  assumes "co_stopped c"
  shows "\<exists>reply. lifecycleCall b abi ops cl payload c = (Inr reply, c) \<and>
    reply \<in> {ErrorEnvelope ''invalid_request'' ''request body is invalid'' False 0, ErrorEnvelope ''invalid_config'' (co_validationStatus c) False 0}"
proof (cases "decodeLifecycle abi payload")
  case (Inl err)
  then show ?thesis using stopped_coordinator(4) [OF assms] by (simp add: lifecycleCall_def errorEnvelope_def)
next
  case (Inr y)
  obtain err where "co_reconfigure ops (cl_e cl) (cl_env cl) y c = (Inl err, c)"
    using stopped_reconfigure [OF assms, of ops "cl_e cl" "cl_env cl" y] by blast
  then show ?thesis using Inr by (simp add: lifecycleCall_def errorEnvelope_def)
qed

lemma dispatch_stopped:
  assumes "co_stopped c"
  shows "co_stopped (snd (dispatchMethod abi ops cl name payload c)) \<and> co_lastErr (snd (dispatchMethod abi ops cl name payload c)) = co_lastErr c"
proof -
  note s = stopped_coordinator [OF assms]
  have "snd (lifecycleCall b abi ops cl payload c) = c" for b using stopped_lifecycle_call [OF assms, of b abi ops cl payload] by auto
  moreover have "snd (schedulerPick abi ops cl payload c) = c" by (simp add: schedulerPick_def s(1) split: option.splits)
  moreover have "co_stopped (snd (usageHandle abi ops cl payload c)) \<and> co_lastErr (snd (usageHandle abi ops cl payload c)) = co_lastErr c"
    using s(5) [of ops "cl_e cl"] assms by (simp add: usageHandle_def split: option.splits)
  moreover have "co_stopped (snd (managementHandle abi ops cl payload c)) \<and> co_lastErr (snd (managementHandle abi ops cl payload c)) = co_lastErr c"
    using s(6) [of ops "cl_e cl" "ab_Version abi" "cl_now cl"] assms by (simp add: managementHandle_def split_beta split: option.splits)
  ultimately show ?thesis using assms by (simp add: dispatchMethod_def s(2))
qed

text \<open>The return code is 1 exactly for an error of the method.\<close>

definition outcomeOf :: "('s, 'r) envelope result \<Rightarrow> ('s, 'r) callOutcome" where
  "outcomeOf r = (case r of Inl err \<Rightarrow> CallReturns 1 (errorEnvelopeFor err) | Inr raw \<Rightarrow> CallReturns 0 raw)"

lemma call_dispatch:
  "cliproxyPluginCall abi ops cl (Some name) request c =
     (case goBytes request of None \<Rightarrow> (CallPanic, c)
      | Some payload \<Rightarrow> (outcomeOf (fst (dispatchMethod abi ops cl name payload c)), snd (dispatchMethod abi ops cl name payload c)))"
  by (auto simp: cliproxyPluginCall_def outcomeOf_def split: option.splits sum.splits prod.splits)

lemma dispatch_pick: "distinct (abiMethods abi) \<Longrightarrow> dispatchMethod abi ops cl (ab_Pick abi) payload c = schedulerPick abi ops cl payload c"
  by (auto simp: dispatchMethod_def abiMethods_def)

lemma call_stopped:
  "co_stopped c \<Longrightarrow> cliproxyPluginCall abi ops cl name request c = (out, c') \<Longrightarrow> co_stopped c' \<and> co_lastErr c' = co_lastErr c"
  using dispatch_stopped [of c abi ops cl]
  by (cases name) (auto simp: call_dispatch split: option.splits, simp_all add: cliproxyPluginCall_def)

lemma step_stopped: "plugin_step abi ops c c' \<Longrightarrow> co_stopped c \<Longrightarrow> co_stopped c' \<and> co_lastErr c' = co_lastErr c"
  by (erule plugin_stepE) (auto simp: cliproxyPluginShutdown_def stopped_coordinator dest: call_stopped)

lemma steps_stopped: "(plugin_step abi ops)\<^sup>*\<^sup>* c c' \<Longrightarrow> co_stopped c \<Longrightarrow> co_stopped c' \<and> co_lastErr c' = co_lastErr c"
  by (induction rule: rtranclp_induct) (auto dest: step_stopped)

lemma shutdown_stops: "co_stopped (cliproxyPluginShutdown ops cl c)" "co_lastErr (cliproxyPluginShutdown ops cl c) = co_lastErr c"
  by (simp_all add: cliproxyPluginShutdown_def co_shutdown_def split_beta)

lemma stopped_pick:
  assumes "distinct (abiMethods abi)" "co_stopped c" "cliproxyPluginCall abi ops cl (Some (ab_Pick abi)) request c = (CallReturns code reply, c')"
  shows "code = 1 \<and> (\<exists>message. reply = ErrorEnvelope ''plugin_error'' message False 0) \<and> c' = c"
  using assms(3)
  by (auto simp: call_dispatch dispatch_pick [OF assms(1)] schedulerPick_def stopped_coordinator [OF assms(2)] outcomeOf_def errorEnvelopeFor_def
      errorEnvelope_def split: option.splits)

lemma stopped_lifecycle:
  assumes "co_stopped c" "name \<in> {ab_Register abi, ab_Reconfigure abi}"
    and "cliproxyPluginCall abi ops cl (Some name) request c = (CallReturns code reply, c')"
  shows "reply \<in> {ErrorEnvelope ''invalid_request'' ''request body is invalid'' False 0, ErrorEnvelope ''invalid_config'' (co_validationStatus c) False 0}"
proof -
  obtain payload where p: "goBytes request = Some payload" using assms(3) by (auto simp: call_dispatch split: option.splits)
  have "\<exists>b. dispatchMethod abi ops cl name payload c = lifecycleCall b abi ops cl payload c"
    using assms(2) by (auto simp: dispatchMethod_def)
  then obtain r where "dispatchMethod abi ops cl name payload c = (Inr r, c)"
      "r \<in> {ErrorEnvelope ''invalid_request'' ''request body is invalid'' False 0, ErrorEnvelope ''invalid_config'' (co_validationStatus c) False 0}"
    using stopped_lifecycle_call [OF assms(1)] by metis
  then show ?thesis using assms(3) p by (simp add: call_dispatch outcomeOf_def)
qed

lemma error_reply: "outcomeOf (Inl err) = CallReturns code reply \<Longrightarrow> code = 1 \<and> (\<exists>errCode message retryable status. reply = ErrorEnvelope errCode message retryable status)"
  by (cases err) (auto simp: outcomeOf_def errorEnvelopeFor_def errorEnvelope_def)

section \<open>A sample ABI\<close>

definition sampleABI :: "(hostedStatus, managementResponse option) pluginABI" where
  "sampleABI =
     \<lparr>ab_SchemaVersion = 1, ab_Version = ''test'', ab_Register = ''plugin.register'', ab_Reconfigure = ''plugin.reconfigure'', ab_Pick = ''scheduler.pick'',
      ab_Usage = ''usage.handle'', ab_ManagementRegister = ''management.register'', ab_ManagementHandle = ''management.handle'', ab_Shutdown = ''plugin.shutdown'',
      ab_lifecycle = (\<lambda>payload. Inr payload), ab_pick = (\<lambda>payload. if payload = ''pick'' then Some goRequest else None), ab_usage = (\<lambda>_. None),
      ab_manage = (\<lambda>_. None), ab_marshalErr = (\<lambda>_. None)\<rparr>"

definition sampleCall :: "hostedEnv callEnv" where
  "sampleCall = \<lparr>cl_e = outside, cl_env = pluginEnv, cl_now = sampleNow\<rparr>"

lemma sampleABI_distinct: "distinct (abiMethods sampleABI)"
  by (simp add: abiMethods_def sampleABI_def)

section \<open>Properties\<close>

text \<open>
  C6. A pick through the ABI fails closed. A call of the pick method that returns 0 carries a pick
  response, and when a module recognises a candidate of the decoded request this response is
  handled and names a credential of the request unless it delegates: the host never falls back
  to its own scheduler for a managed account. Every other answer is an error with code 1.
\<close>

theorem plugin_pick_fails_closed:
  assumes "modules_ok (hosted_ok lib) c" and "distinct (abiMethods abi)"
    and "cliproxyPluginCall abi (hostedOps lib codec) cl (Some (ab_Pick abi)) request c = (CallReturns code reply, c')"
  shows "code = 1 \<and> (\<exists>errCode message retryable status. reply = ErrorEnvelope errCode message retryable status) \<or>
    code = 0 \<and> (\<exists>payload req resp. goBytes request = Some payload \<and> ab_pick abi payload = Some req \<and> reply = OKEnvelope (PickResult resp) \<and>
      (if recognizing (hostedOps lib codec) req (co_modules c) = [] then resp = zero_pickResponse \<and> c' = c
       else resp_Handled resp \<and> from_request req resp))"
proof -
  obtain payload where p: "goBytes request = Some payload" using assms(3) by (auto simp: call_dispatch split: option.splits)
  let ?ops = "hostedOps lib codec"
  have c: "outcomeOf (fst (schedulerPick abi ?ops cl payload c)) = CallReturns code reply" "snd (schedulerPick abi ?ops cl payload c) = c'"
    using assms(3) by (auto simp: call_dispatch dispatch_pick [OF assms(2)] p)
  show ?thesis
  proof (cases "fst (schedulerPick abi ?ops cl payload c)")
    case (Inl err)
    then show ?thesis using c(1) error_reply [of err code reply] by simp
  next
    case (Inr raw)
    then obtain req resp where r: "ab_pick abi payload = Some req" "fst (co_pick ?ops (cl_e cl) req c) = Inr resp" "raw = OKEnvelope (PickResult resp)"
        "snd (co_pick ?ops (cl_e cl) req c) = c'"
      using c(2) by (auto simp: schedulerPick_def okEnvelope_def split: option.splits prod.splits sum.splits)
    have "if recognizing ?ops req (co_modules c) = [] then resp = zero_pickResponse \<and> c' = c else resp_Handled resp \<and> from_request req resp"
      using hosted.pick_dispatch [OF assms(1) r(2)] r(4) by (auto split: if_splits)
    moreover have "code = 0" "reply = OKEnvelope (PickResult resp)" using c(1) Inr r(3) by (auto simp: outcomeOf_def)
    ultimately show ?thesis using p r(1) by blast
  qed
qed

theorem plugin_pick_fails_closed_witness:
  "\<exists>resp. fst (cliproxyPluginCall sampleABI pluginOps sampleCall (Some ''scheduler.pick'') ''pick'' configuredPlugin) =
     CallReturns 0 (OKEnvelope (PickResult resp)) \<and> resp_Handled resp \<and> from_request goRequest resp"
proof -
  let ?k = "cliproxyPluginCall sampleABI pluginOps sampleCall (Some (ab_Pick sampleABI)) ''pick'' configuredPlugin"
  have f: "case fst ?k of CallReturns n e \<Rightarrow> n = 0 | CallPanic \<Rightarrow> False" "goBytes ''pick'' = Some ''pick''"
    "recognizing pluginOps goRequest (co_modules configuredPlugin) \<noteq> []" "ab_Pick sampleABI = ''scheduler.pick''" "ab_pick sampleABI ''pick'' = Some goRequest"
    by code_simp+
  then obtain reply st where k: "?k = (CallReturns 0 reply, st)" by (cases ?k) (auto split: callOutcome.splits)
  from plugin_pick_fails_closed [OF configuredPlugin_ok sampleABI_distinct k [unfolded pluginOps_def]] f k show ?thesis
    by (auto simp: pluginOps_def)
qed

text \<open>
  C11. Shutdown is final. Whatever calls follow it, a pick is always answered with an error and
  changes nothing, and a registration or reconfiguration is always rejected; its
  \<open>invalid_config\<close> answer carries the validation message from before the shutdown, which is
  empty when the last configuration was accepted.
\<close>

theorem shutdown_is_final:
  assumes "distinct (abiMethods abi)" and "(plugin_step abi ops)\<^sup>*\<^sup>* (cliproxyPluginShutdown ops cl0 c0) c"
    and "cliproxyPluginCall abi ops cl (Some name) request c = (CallReturns code reply, c')"
  shows "(name = ab_Pick abi \<longrightarrow> code = 1 \<and> (\<exists>message. reply = ErrorEnvelope ''plugin_error'' message False 0) \<and> c' = c) \<and>
    (name \<in> {ab_Register abi, ab_Reconfigure abi} \<longrightarrow>
       reply = ErrorEnvelope ''invalid_request'' ''request body is invalid'' False 0 \<or> reply = ErrorEnvelope ''invalid_config'' (co_validationStatus c0) False 0)"
proof -
  have s: "co_stopped c" "co_lastErr c = co_lastErr c0" using steps_stopped [OF assms(2) shutdown_stops(1)] by (simp_all add: shutdown_stops(2))
  then have "co_validationStatus c = co_validationStatus c0" by (simp add: co_validationStatus_def)
  then show ?thesis using stopped_pick [OF assms(1) s(1), of ops cl request code reply c'] stopped_lifecycle [OF s(1) _ assms(3)] assms(3) by auto
qed

theorem shutdown_is_final_witness:
  "fst (cliproxyPluginCall sampleABI pluginOps sampleCall (Some ''plugin.register'') ''{}'' (cliproxyPluginShutdown pluginOps sampleCall configuredPlugin)) =
     CallReturns 0 (ErrorEnvelope ''invalid_config'' [] False 0)"
proof -
  let ?c = "cliproxyPluginShutdown pluginOps sampleCall configuredPlugin"
  let ?k = "cliproxyPluginCall sampleABI pluginOps sampleCall (Some ''plugin.register'') ''{}'' ?c"
  have f: "case fst ?k of CallReturns n (ErrorEnvelope code m r st) \<Rightarrow> n = 0 \<and> code = ''invalid_config'' | _ \<Rightarrow> False" by code_simp
  then obtain reply st where k: "?k = (CallReturns 0 reply, st)" "reply \<noteq> ErrorEnvelope ''invalid_request'' ''request body is invalid'' False 0"
    by (cases ?k) (auto split: callOutcome.splits envelope.splits)
  have v: "co_validationStatus configuredPlugin = []" "ab_Register sampleABI = ''plugin.register''" by code_simp+
  from shutdown_is_final [OF sampleABI_distinct rtranclp.rtrancl_refl k(1)] k show ?thesis by (simp add: v)
qed

end
