(* ===== verification/AbiMemory.thy ===== *)
theory AbiMemory
  imports Plugin "HOL-Library.Word"
begin

text \<open>
  The C side of the ABI: \<^verbatim>\<open>src/plugin_linux.go\<close> once more, now with the memory it shares with
  its host, and \<^verbatim>\<open>internal/abiclient/abiclient_linux.go\<close>, the client that drives the compiled
  plugin through the same calls as the host. Buffers live on an explicit C heap; reading outside
  a block, freeing what is not allocated and calling into a library that is not mapped are faults
  of the model, so that memory safety is a statement about results. The allocator and the dynamic
  linker are arguments, and whether the linker keeps a library mapped after its last handle is
  closed is part of the machine. A pointer is \<open>None\<close> when it is null.
\<close>

section \<open>The C heap\<close>

type_synonym cptr = "nat option"
type_synonym cheap = "(nat \<times> string) list"
type_synonym allocator = "cheap \<Rightarrow> nat \<Rightarrow> cptr"

datatype cfault = OutOfMemory | InvalidFree | InvalidRead | UnmappedCode | GoPanic

text \<open>
  The machine: the heap, the number of open handles of the library, the plugin's own state, and
  whether the dynamic linker keeps the library mapped when no handle is left, as it does for one
  that is marked not to be deleted.
\<close>

record 'w machine =
  mc_heap :: cheap
  mc_handles :: nat
  mc_plugin :: 'w
  mc_resident :: bool

type_synonym ('w, 'a) ceffect = "cfault + 'a \<times> 'w machine"

definition bindC :: "('w, 'a) ceffect \<Rightarrow> ('a \<Rightarrow> 'w machine \<Rightarrow> ('w, 'b) ceffect) \<Rightarrow> ('w, 'b) ceffect" where
  "bindC r f = (case r of Inl fault \<Rightarrow> Inl fault | Inr (x, w) \<Rightarrow> f x w)"

lemma bindC_simps [simp]: "bindC (Inl fault) f = Inl fault" "bindC (Inr (x, w)) f = f x w"
  by (simp_all add: bindC_def)

lemma bindC_Inr_iff: "bindC r f = Inr y \<longleftrightarrow> (\<exists>x w. r = Inr (x, w) \<and> f x w = Inr y)"
  by (auto simp: bindC_def split: sum.splits)

lemma bindC_Inl_iff: "bindC r f = Inl fault \<longleftrightarrow> r = Inl fault \<or> (\<exists>x w. r = Inr (x, w) \<and> f x w = Inl fault)"
  by (auto simp: bindC_def split: sum.splits)

lemmas ceffect_iffs = bindC_Inr_iff bindC_Inl_iff

definition heapDrop :: "nat \<Rightarrow> cheap \<Rightarrow> cheap" where
  "heapDrop p h = filter (\<lambda>(q, _). q \<noteq> p) h"

lemma heapDrop_simps [simp]:
  "heapDrop p [] = []" "heapDrop p ((p, raw) # h) = heapDrop p h" "q \<noteq> p \<Longrightarrow> heapDrop p ((q, raw) # h) = (q, raw) # heapDrop p h"
  by (simp_all add: heapDrop_def)

lemma heapDrop_fresh [simp]: "map_of h p = None \<Longrightarrow> heapDrop p h = h"
  by (induction h) (auto simp: heapDrop_def split: if_splits)

text \<open>\<open>C.CBytes\<close> and \<open>C.CString\<close> end the process when the allocator fails.\<close>

definition cBytes :: "allocator \<Rightarrow> string \<Rightarrow> 'w machine \<Rightarrow> ('w, cptr) ceffect" where
  "cBytes malloc raw w =
     (case malloc (mc_heap w) (length raw) of
        None \<Rightarrow> Inl OutOfMemory
      | Some p \<Rightarrow> Inr (Some p, w\<lparr>mc_heap := (p, raw) # mc_heap w\<rparr>))"

definition cString :: "allocator \<Rightarrow> string \<Rightarrow> 'w machine \<Rightarrow> ('w, cptr) ceffect" where
  "cString malloc s w = cBytes malloc (s @ [CHR 0x00]) w"

definition cFree :: "cptr \<Rightarrow> 'w machine \<Rightarrow> ('w, unit) ceffect" where
  "cFree ptr w =
     (case ptr of
        None \<Rightarrow> Inr ((), w)
      | Some p \<Rightarrow> if map_of (mc_heap w) p = None then Inl InvalidFree else Inr ((), w\<lparr>mc_heap := heapDrop p (mc_heap w)\<rparr>))"

text \<open>\<open>C.GoString\<close> reads up to the first NUL byte of the block.\<close>

definition goStringC :: "cptr \<Rightarrow> 'w machine \<Rightarrow> ('w, string) ceffect" where
  "goStringC ptr w =
     (case ptr of
        None \<Rightarrow> Inr ([], w)
      | Some p \<Rightarrow>
          (case map_of (mc_heap w) p of
             None \<Rightarrow> Inl InvalidRead
           | Some block \<Rightarrow> if CHR 0x00 \<in> set block then Inr (takeWhile (\<lambda>ch. ch \<noteq> CHR 0x00) block, w) else Inl InvalidRead))"

definition goBytesC :: "cptr \<Rightarrow> nat \<Rightarrow> 'w machine \<Rightarrow> ('w, string) ceffect" where
  "goBytesC ptr len w =
     (let n = cInt (int len) in
      if n < 0 then Inl GoPanic
      else if n = 0 then Inr ([], w)
      else
        (case Option.bind ptr (map_of (mc_heap w)) of
           None \<Rightarrow> Inl InvalidRead
         | Some block \<Rightarrow> if nat n \<le> length block then Inr (take (nat n) block, w) else Inl InvalidRead))"

section \<open>The exported functions\<close>

record cliproxy_buffer =
  cb_ptr :: cptr
  cb_len :: nat

definition nullBuffer :: cliproxy_buffer where
  "nullBuffer = \<lparr>cb_ptr = None, cb_len = 0\<rparr>"

definition writeResponse :: "allocator \<Rightarrow> cliproxy_buffer option \<Rightarrow> string \<Rightarrow> 'w machine \<Rightarrow> ('w, cliproxy_buffer option) ceffect" where
  "writeResponse malloc response raw w =
     (if response = None \<or> raw = [] then Inr (response, w)
      else bindC (cBytes malloc raw w) (\<lambda>ptr w'.
        if ptr = None then Inr (response, w') else Inr (Some \<lparr>cb_ptr = ptr, cb_len = length raw\<rparr>, w')))"

definition cliproxyPluginFree :: "cptr \<Rightarrow> nat \<Rightarrow> 'w machine \<Rightarrow> ('w, unit) ceffect" where
  "cliproxyPluginFree ptr len w = (if ptr \<noteq> None then cFree ptr w else Inr ((), w))"

text \<open>The encoding of an envelope as JSON text is an argument; it is empty when encoding fails.\<close>

definition respond ::
  "allocator \<Rightarrow> cliproxy_buffer option \<Rightarrow> int \<Rightarrow> string \<Rightarrow> 'w machine \<Rightarrow> ('w, int \<times> cliproxy_buffer option) ceffect" where
  "respond malloc response code raw w = bindC (writeResponse malloc response raw w) (\<lambda>filled w'. Inr ((code, filled), w'))"

definition cliproxyPluginCallC ::
  "allocator \<Rightarrow> (('s, 'r) envelope \<Rightarrow> string) \<Rightarrow> ('s, 'r) pluginABI \<Rightarrow> ('e, 'm, 's, 'r) moduleOps \<Rightarrow> 'e callEnv \<Rightarrow>
   cptr \<Rightarrow> cptr \<Rightarrow> nat \<Rightarrow> cliproxy_buffer option \<Rightarrow> 'm Coordinator machine \<Rightarrow> ('m Coordinator, int \<times> cliproxy_buffer option) ceffect" where
  "cliproxyPluginCallC malloc encode abi ops cl name request requestLen buffer w =
     (let response = map_option (\<lambda>_. nullBuffer) buffer in
      if name = None then respond malloc response 1 (encode (errorEnvelope ''invalid_method'' ''method is required'')) w
      else bindC (goBytesC request requestLen w) (\<lambda>payload w1. bindC (goStringC name w1) (\<lambda>called w2.
        case dispatchMethod abi ops cl called payload (mc_plugin w2) of
          (Inl err, c') \<Rightarrow> respond malloc response 1 (encode (errorEnvelopeFor err)) (w2\<lparr>mc_plugin := c'\<rparr>)
        | (Inr raw, c') \<Rightarrow> respond malloc response 0 (encode raw) (w2\<lparr>mc_plugin := c'\<rparr>))))"

definition cliproxyPluginShutdownC ::
  "('e, 'm, 's, 'r) moduleOps \<Rightarrow> 'e callEnv \<Rightarrow> 'm Coordinator machine \<Rightarrow> ('m Coordinator, unit) ceffect" where
  "cliproxyPluginShutdownC ops cl w = Inr ((), w\<lparr>mc_plugin := cliproxyPluginShutdown ops cl (mc_plugin w)\<rparr>)"

text \<open>The function table; what a call finds outside the process is an argument of its functions.\<close>

record ('k, 'w) cliproxy_plugin_api =
  abi_version :: "32 word"
  api_call :: "('k \<Rightarrow> cptr \<Rightarrow> cptr \<Rightarrow> nat \<Rightarrow> cliproxy_buffer option \<Rightarrow> 'w machine \<Rightarrow> ('w, int \<times> cliproxy_buffer option) ceffect) option"
  api_free_buffer :: "(cptr \<Rightarrow> nat \<Rightarrow> 'w machine \<Rightarrow> ('w, unit) ceffect) option"
  api_shutdown :: "('k \<Rightarrow> 'w machine \<Rightarrow> ('w, unit) ceffect) option"

definition zeroAPI :: "('k, 'w) cliproxy_plugin_api" where
  "zeroAPI = \<lparr>abi_version = 0, api_call = None, api_free_buffer = None, api_shutdown = None\<rparr>"

definition cliproxy_plugin_init ::
  "32 word \<Rightarrow> allocator \<Rightarrow> (('s, 'r) envelope \<Rightarrow> string) \<Rightarrow> ('s, 'r) pluginABI \<Rightarrow> ('e, 'm, 's, 'r) moduleOps \<Rightarrow>
   ('e callEnv, 'm Coordinator) cliproxy_plugin_api option \<Rightarrow> int \<times> ('e callEnv, 'm Coordinator) cliproxy_plugin_api option" where
  "cliproxy_plugin_init version malloc encode abi ops plugin =
     (case plugin of
        None \<Rightarrow> (1, None)
      | Some api \<Rightarrow>
          (0, Some (api\<lparr>abi_version := version,
             api_call := Some (cliproxyPluginCallC malloc encode abi ops),
             api_free_buffer := Some cliproxyPluginFree,
             api_shutdown := Some (cliproxyPluginShutdownC ops)\<rparr>)))"

section \<open>The client\<close>

text \<open>
  A shared library is known by its \<open>cliproxy_plugin_init\<close>, \<open>None\<close> when the symbol is missing. The
  linker maps a path to a library or fails with a message; \<open>dlclose\<close> gives a handle back.
\<close>

record ('k, 'w) sharedLibrary =
  lb_init :: "(('k, 'w) cliproxy_plugin_api option \<Rightarrow> int \<times> ('k, 'w) cliproxy_plugin_api option) option"

type_synonym ('k, 'w) linker = "string \<Rightarrow> string + ('k, 'w) sharedLibrary"

record ('k, 'w) abiClient =
  cli_handle :: "('k, 'w) sharedLibrary option"
  cli_api :: "('k, 'w) cliproxy_plugin_api"

definition test_dlclose :: "'w machine \<Rightarrow> 'w machine" where
  "test_dlclose w = w\<lparr>mc_handles := mc_handles w - 1\<rparr>"

text \<open>
  The C wrappers that call through a pointer of the table check nothing. The call runs the
  function while the library is mapped: as long as a handle is open, and after that if the linker
  keeps it.
\<close>

definition code_mapped :: "'w machine \<Rightarrow> bool" where
  "code_mapped w \<longleftrightarrow> mc_handles w \<noteq> 0 \<or> mc_resident w"

definition mapped :: "('w machine \<Rightarrow> ('w, 'a) ceffect) \<Rightarrow> 'w machine \<Rightarrow> ('w, 'a) ceffect" where
  "mapped f w = (if code_mapped w then f w else Inl UnmappedCode)"

definition shutdownHook :: "'k \<Rightarrow> ('k, 'w) abiClient \<Rightarrow> 'w machine \<Rightarrow> ('w, ('k, 'w) abiClient) ceffect" where
  "shutdownHook k cli w =
     (case api_shutdown (cli_api cli) of
        None \<Rightarrow> Inr (cli, w)
      | Some f \<Rightarrow> bindC (mapped (f k) w) (\<lambda>_ w'. Inr (cli\<lparr>cli_api := (cli_api cli)\<lparr>api_shutdown := None\<rparr>\<rparr>, w')))"

definition client_Close :: "'k \<Rightarrow> ('k, 'w) abiClient option \<Rightarrow> 'w machine \<Rightarrow> ('w, ('k, 'w) abiClient option) ceffect" where
  "client_Close k client w =
     (case client of
        None \<Rightarrow> Inr (None, w)
      | Some cli \<Rightarrow> bindC (shutdownHook k cli w) (\<lambda>cli' w'.
          case cli_handle cli' of
            None \<Rightarrow> Inr (Some cli', w')
          | Some _ \<Rightarrow> Inr (Some (cli'\<lparr>cli_handle := None\<rparr>), test_dlclose w')))"

definition closeWith :: "'k \<Rightarrow> ('k, 'w) abiClient \<Rightarrow> string \<Rightarrow> 'w machine \<Rightarrow> ('w, ('k, 'w) abiClient result) ceffect" where
  "closeWith k cli message w = bindC (client_Close k (Some cli) w) (\<lambda>_ w'. Inr (Inl (Msg message), w'))"

definition exchangeTable ::
  "32 word \<Rightarrow> 'k \<Rightarrow> ('k, 'w) sharedLibrary \<Rightarrow> (('k, 'w) cliproxy_plugin_api option \<Rightarrow> int \<times> ('k, 'w) cliproxy_plugin_api option) \<Rightarrow>
   'w machine \<Rightarrow> ('w, ('k, 'w) abiClient result) ceffect" where
  "exchangeTable version k lib initSymbol w =
     (let (rc, filled) = initSymbol (Some zeroAPI);
          cli = \<lparr>cli_handle = Some lib, cli_api = case_option zeroAPI id filled\<rparr> in
      if rc \<noteq> 0 then closeWith k cli (''cliproxy_plugin_init returned '' @ Itoa rc) w
      else if abi_version (cli_api cli) \<noteq> version then
        closeWith k cli (''plugin ABI version = '' @ Itoa (uint (abi_version (cli_api cli))) @ '', want '' @ Itoa (uint version)) w
      else if Option.is_none (api_call (cli_api cli)) \<or> Option.is_none (api_free_buffer (cli_api cli)) then
        closeWith k cli ''plugin function table is incomplete'' w
      else Inr (Inr cli, w))"

definition client_Open ::
  "32 word \<Rightarrow> allocator \<Rightarrow> ('k, 'w) linker \<Rightarrow> string \<Rightarrow> 'k \<Rightarrow> 'w machine \<Rightarrow> ('w, ('k, 'w) abiClient result) ceffect" where
  "client_Open version malloc dlopen path k w =
     bindC (cString malloc path w) (\<lambda>cPath w1.
       bindC
         (case dlopen path of
            Inl dlerror \<Rightarrow> Inr (Inl (Msg (''dlopen '' @ path @ '': '' @ dlerror)), w1)
          | Inr lib \<Rightarrow>
              bindC (cString malloc ''cliproxy_plugin_init'' (w1\<lparr>mc_handles := Suc (mc_handles w1)\<rparr>)) (\<lambda>cSymbol w2.
                bindC (cFree cSymbol w2) (\<lambda>_ w3.
                  case lb_init lib of
                    None \<Rightarrow> Inr (Inl (Msg ''missing cliproxy_plugin_init''), test_dlclose w3)
                  | Some initSymbol \<Rightarrow> exchangeTable version k lib initSymbol w3)))
         (\<lambda>r w4. bindC (cFree cPath w4) (\<lambda>_ w5. Inr (r, w5))))"

definition readResponse :: "cliproxy_buffer \<Rightarrow> 'w machine \<Rightarrow> ('w, string) ceffect" where
  "readResponse response w = (if cb_ptr response \<noteq> None \<and> cb_len response > 0 then goBytesC (cb_ptr response) (cb_len response) w else Inr ([], w))"

definition releaseResponse :: "('k, 'w) cliproxy_plugin_api \<Rightarrow> cliproxy_buffer \<Rightarrow> 'w machine \<Rightarrow> ('w, unit) ceffect" where
  "releaseResponse api response w =
     (if cb_ptr response = None then Inr ((), w)
      else
        (case api_free_buffer api of
           None \<Rightarrow> Inl UnmappedCode
         | Some free \<Rightarrow> mapped (free (cb_ptr response) (cb_len response)) w))"

text \<open>The result of a call is the bytes of the response together with the error, if any.\<close>

definition client_Call ::
  "allocator \<Rightarrow> 'k \<Rightarrow> ('k, 'w) abiClient option \<Rightarrow> string \<Rightarrow> string \<Rightarrow> 'w machine \<Rightarrow> ('w, string \<times> go_error option) ceffect" where
  "client_Call malloc k client called request w =
     (case Option.bind client (\<lambda>cli. map_option (\<lambda>f. (cli_api cli, f)) (api_call (cli_api cli))) of
        None \<Rightarrow> Inr (([], Some (Msg ''plugin client is closed'')), w)
      | Some (api, call) \<Rightarrow>
          bindC (cString malloc called w) (\<lambda>cMethod w1.
          bindC (if request \<noteq> [] then cBytes malloc request w1 else Inr (None, w1)) (\<lambda>cRequest w2.
          bindC (mapped (call k cMethod cRequest (length request) (Some nullBuffer)) w2) (\<lambda>(rc, filled) w3.
            let response = case_option nullBuffer id filled in
            bindC (readResponse response w3) (\<lambda>out w4.
            bindC (releaseResponse api response w4) (\<lambda>_ w5.
            bindC (cFree cRequest w5) (\<lambda>_ w6.
            bindC (cFree cMethod w6) (\<lambda>_ w7.
              Inr ((out, if rc \<noteq> 0 then Some (Msg (''plugin call '' @ called @ '' returned '' @ Itoa rc @ '': '' @ out)) else None), w7)))))))))"

section \<open>What the client relies on\<close>

text \<open>The contract of \<open>malloc\<close>: a block it returns was free. \<open>sound_malloc\<close> also never fails.\<close>

definition fresh_malloc :: "allocator \<Rightarrow> bool" where
  "fresh_malloc malloc \<longleftrightarrow> (\<forall>h n p. malloc h n = Some p \<longrightarrow> map_of h p = None)"

definition sound_malloc :: "allocator \<Rightarrow> bool" where
  "sound_malloc malloc \<longleftrightarrow> fresh_malloc malloc \<and> (\<forall>h n. malloc h n \<noteq> None)"

definition readable_string :: "cheap \<Rightarrow> cptr \<Rightarrow> bool" where
  "readable_string h ptr \<longleftrightarrow> (\<exists>p block. ptr = Some p \<and> map_of h p = Some block \<and> CHR 0x00 \<in> set block)"

definition readable_bytes :: "cheap \<Rightarrow> cptr \<Rightarrow> nat \<Rightarrow> bool" where
  "readable_bytes h ptr n \<longleftrightarrow> n = 0 \<or> (\<exists>p block. ptr = Some p \<and> map_of h p = Some block \<and> n \<le> length block)"

text \<open>Either nothing was allocated, or exactly the block the buffer describes.\<close>

definition buffer_added :: "cheap \<Rightarrow> cheap \<Rightarrow> cliproxy_buffer \<Rightarrow> bool" where
  "buffer_added h h' b \<longleftrightarrow>
     (case cb_ptr b of
        None \<Rightarrow> h' = h
      | Some p \<Rightarrow> map_of h p = None \<and> (\<exists>raw. raw \<noteq> [] \<and> h' = (p, raw) # h \<and> cb_len b = length raw))"

lemma cBytes_Inr: "fresh_malloc malloc \<Longrightarrow> cBytes malloc raw w = Inr (ptr, w') \<Longrightarrow>
    \<exists>p. ptr = Some p \<and> map_of (mc_heap w) p = None \<and> w' = w\<lparr>mc_heap := (p, raw) # mc_heap w\<rparr>"
  by (cases "malloc (mc_heap w) (length raw)") (simp_all add: cBytes_def fresh_malloc_def, blast)

lemma cBytes_Inl: "cBytes malloc raw w = Inl fault \<Longrightarrow> fault = OutOfMemory"
  by (auto simp: cBytes_def split: option.splits)

lemma cInt_le: "cInt (int n) \<le> int n"
  using zmod_le_nonneg_dividend [of "int n + 2 ^ 31" "2 ^ 32"] by (simp add: cInt_def)

lemma cInt_small: "n < 2 ^ 31 \<Longrightarrow> cInt (int n) = int n"
  by (simp add: cInt_def)

lemma goBytesC_readable:
  assumes "readable_bytes (mc_heap w) ptr n"
  shows "goBytesC ptr n w = Inl fault \<Longrightarrow> fault = GoPanic" "goBytesC ptr n w = Inr (out, w') \<Longrightarrow> w' = w"
  using assms cInt_le [of n] by (auto simp: goBytesC_def readable_bytes_def Let_def split: if_splits)

lemma goStringC_readable: "readable_string (mc_heap w) ptr \<Longrightarrow> \<exists>s. goStringC ptr w = Inr (s, w)"
  by (auto simp: goStringC_def readable_string_def)

lemma goStringC_pure: "goStringC ptr w = Inr (s, w') \<Longrightarrow> w' = w"
  by (auto simp: goStringC_def split: option.splits if_splits)

lemma goBytesC_pure: "goBytesC ptr n w = Inr (s, w') \<Longrightarrow> w' = w"
  by (auto simp: goBytesC_def Let_def split: option.splits if_splits)

lemma mapped_open [simp]: "mc_handles w \<noteq> 0 \<Longrightarrow> mapped f w = f w"
  by (simp add: mapped_def code_mapped_def)

text \<open>A client whose table holds these two functions.\<close>

definition client_of ::
  "('k \<Rightarrow> cptr \<Rightarrow> cptr \<Rightarrow> nat \<Rightarrow> cliproxy_buffer option \<Rightarrow> 'w machine \<Rightarrow> ('w, int \<times> cliproxy_buffer option) ceffect) \<Rightarrow>
   (cptr \<Rightarrow> nat \<Rightarrow> 'w machine \<Rightarrow> ('w, unit) ceffect) \<Rightarrow> ('k, 'w) abiClient \<Rightarrow> bool" where
  "client_of call release cli \<longleftrightarrow> api_call (cli_api cli) = Some call \<and> api_free_buffer (cli_api cli) = Some release"

locale c_plugin =
  fixes malloc :: allocator
    and call :: "'k \<Rightarrow> cptr \<Rightarrow> cptr \<Rightarrow> nat \<Rightarrow> cliproxy_buffer option \<Rightarrow> 'w machine \<Rightarrow> ('w, int \<times> cliproxy_buffer option) ceffect"
    and release :: "cptr \<Rightarrow> nat \<Rightarrow> 'w machine \<Rightarrow> ('w, unit) ceffect"
  assumes call_memory: "fresh_malloc malloc \<Longrightarrow> call k name request n (Some b) w = Inr ((rc, filled), w') \<Longrightarrow>
      mc_handles w' = mc_handles w \<and> (\<exists>b'. filled = Some b' \<and> buffer_added (mc_heap w) (mc_heap w') b')"
    and call_safe: "readable_string (mc_heap w) name \<Longrightarrow> readable_bytes (mc_heap w) request n \<Longrightarrow>
      call k name request n (Some b) w = Inl fault \<Longrightarrow> fault \<in> {OutOfMemory, GoPanic}"
    and release_frees: "map_of (mc_heap w) p \<noteq> None \<Longrightarrow> release (Some p) n w = Inr ((), w\<lparr>mc_heap := heapDrop p (mc_heap w)\<rparr>)"
begin

lemma release_response:
  assumes "buffer_added h (mc_heap w) b" "mc_handles w \<noteq> 0" "client_of call release cli"
  shows "releaseResponse (cli_api cli) b w = Inr ((), w\<lparr>mc_heap := h\<rparr>)"
  using assms by (auto simp: releaseResponse_def buffer_added_def client_of_def release_frees split: option.splits)

lemma read_response:
  assumes "buffer_added h (mc_heap w) b"
  shows "readResponse b w = Inl fault \<Longrightarrow> fault = GoPanic" "readResponse b w = Inr (out, w') \<Longrightarrow> w' = w"
proof -
  have "readable_bytes (mc_heap w) (cb_ptr b) (cb_len b)" if "cb_ptr b \<noteq> None"
    using assms that by (auto simp: buffer_added_def readable_bytes_def)
  then show "readResponse b w = Inl fault \<Longrightarrow> fault = GoPanic" "readResponse b w = Inr (out, w') \<Longrightarrow> w' = w"
    by (auto simp: readResponse_def dest: goBytesC_readable split: if_splits)
qed

text \<open>The arguments of a call, once they are on the heap.\<close>

lemma call_arguments:
  assumes "fresh_malloc malloc" "cString malloc called w = Inr (cMethod, w1)"
    "(if request \<noteq> [] then cBytes malloc request w1 else Inr (None, w1)) = Inr (cRequest, w2)"
  shows "readable_string (mc_heap w2) cMethod" "readable_bytes (mc_heap w2) cRequest (length request)" "mc_handles w2 = mc_handles w"
    "bindC (cFree cRequest (w3\<lparr>mc_heap := mc_heap w2\<rparr>)) (\<lambda>_ w6. bindC (cFree cMethod w6) (\<lambda>_ w7. Inr (r, w7))) = Inr (r, w3\<lparr>mc_heap := mc_heap w\<rparr>)"
proof -
  obtain m where m: "cMethod = Some m" "map_of (mc_heap w) m = None" "w1 = w\<lparr>mc_heap := (m, called @ [CHR 0x00]) # mc_heap w\<rparr>"
    using cBytes_Inr [OF assms(1) assms(2) [unfolded cString_def]] by auto
  have r: "cRequest = None \<and> w2 = w1 \<and> request = [] \<or>
      (\<exists>q. cRequest = Some q \<and> map_of (mc_heap w1) q = None \<and> w2 = w1\<lparr>mc_heap := (q, request) # mc_heap w1\<rparr>)"
    using assms(3) cBytes_Inr [OF assms(1), of request w1 cRequest w2] by (auto split: if_splits)
  show "readable_string (mc_heap w2) cMethod" "readable_bytes (mc_heap w2) cRequest (length request)" "mc_handles w2 = mc_handles w"
    using r by (auto simp: m readable_string_def readable_bytes_def split: if_splits)
  show "bindC (cFree cRequest (w3\<lparr>mc_heap := mc_heap w2\<rparr>)) (\<lambda>_ w6. bindC (cFree cMethod w6) (\<lambda>_ w7. Inr (r, w7))) = Inr (r, w3\<lparr>mc_heap := mc_heap w\<rparr>)"
    using r by (auto simp: m cFree_def split: if_splits)
qed

lemma client_call:
  assumes "fresh_malloc malloc" "client_of call release cli" "mc_handles w \<noteq> 0"
  shows "case client_Call malloc k (Some cli) called request w of
      Inl fault \<Rightarrow> fault \<in> {OutOfMemory, GoPanic}
    | Inr (res, w') \<Rightarrow> mc_heap w' = mc_heap w \<and> mc_handles w' = mc_handles w"
proof -
  let ?args = "\<lambda>w1. if request \<noteq> [] then cBytes malloc request w1 else Inr (None, w1)"
  show ?thesis
  proof (cases "cString malloc called w")
    case (Inl fault)
    then show ?thesis using assms(2) cBytes_Inl [of malloc _ w fault] by (auto simp: client_Call_def client_of_def cString_def)
  next
    case (Inr x)
    then obtain cMethod w1 where 1: "cString malloc called w = Inr (cMethod, w1)" by (cases x) auto
    show ?thesis
    proof (cases "?args w1")
      case (Inl fault)
      then show ?thesis using assms(2) 1 cBytes_Inl [of malloc request w1 fault] by (auto simp: client_Call_def client_of_def split: if_splits)
    next
      case (Inr y)
      then obtain cRequest w2 where 2: "?args w1 = Inr (cRequest, w2)" by (cases y) auto
      note args = call_arguments [OF assms(1) 1 2]
      have h: "mc_handles w2 \<noteq> 0" using args(3) assms(3) by simp
      show ?thesis
      proof (cases "call k cMethod cRequest (length request) (Some nullBuffer) w2")
        case (Inl fault)
        then show ?thesis using assms(2) 1 2 h call_safe [OF args(1,2) Inl] by (auto simp: client_Call_def client_of_def)
      next
        case (Inr z)
        then obtain rc filled w3 where 3: "call k cMethod cRequest (length request) (Some nullBuffer) w2 = Inr ((rc, filled), w3)" by (cases z) auto
        then obtain b where b: "filled = Some b" "buffer_added (mc_heap w2) (mc_heap w3) b" "mc_handles w3 \<noteq> 0" "mc_handles w3 = mc_handles w"
          using call_memory [OF assms(1) 3] h args(3) by auto
        show ?thesis
        proof (cases "readResponse b w3")
          case (Inl fault)
          then show ?thesis using assms(2) 1 2 3 h b read_response(1) [OF b(2)] by (auto simp: client_Call_def client_of_def Let_def)
        next
          case (Inr v)
          then obtain out where 4: "readResponse b w3 = Inr (out, w3)" using read_response(2) [OF b(2)] by (cases v) auto
          show ?thesis using assms(2) 1 2 3 h b(1,4) 4 release_response [OF b(2,3) assms(2)]
            by (simp add: client_Call_def client_of_def Let_def args(4))
        qed
      qed
    qed
  qed
qed

end

section \<open>The plugin keeps the contract\<close>

lemma respond_memory:
  assumes "fresh_malloc malloc" "respond malloc (Some nullBuffer) code raw w = Inr ((rc, filled), w')"
  shows "rc = code \<and> mc_handles w' = mc_handles w \<and> (\<exists>b. filled = Some b \<and> buffer_added (mc_heap w) (mc_heap w') b)"
  using assms(2) cBytes_Inr [OF assms(1), of raw w]
  by (fastforce simp: respond_def writeResponse_def buffer_added_def nullBuffer_def bindC_Inr_iff split: if_splits)

lemma respond_fault: "respond malloc response code raw w = Inl fault \<Longrightarrow> fault = OutOfMemory"
  by (auto simp: respond_def writeResponse_def bindC_Inl_iff dest: cBytes_Inl split: if_splits)

lemma call_shape:
  assumes "cliproxyPluginCallC malloc encode abi ops cl name request n (Some b) w = r"
  shows "(\<exists>code raw c'. r = respond malloc (Some nullBuffer) code raw (w\<lparr>mc_plugin := c'\<rparr>)) \<or>
    (\<exists>fault. r = Inl fault \<and> (goBytesC request n w = Inl fault \<or> goStringC name w = Inl fault))"
proof (cases name)
  case None
  then have "r = respond malloc (Some nullBuffer) 1 (encode (errorEnvelope ''invalid_method'' ''method is required'')) (w\<lparr>mc_plugin := mc_plugin w\<rparr>)"
    using assms by (simp add: cliproxyPluginCallC_def)
  then show ?thesis by blast
next
  case (Some p)
  show ?thesis
  proof (cases "goBytesC request n w")
    case (Inl fault)
    then show ?thesis using Some assms by (auto simp: cliproxyPluginCallC_def)
  next
    case (Inr x)
    then obtain payload where payload: "goBytesC request n w = Inr (payload, w)" using goBytesC_pure by (cases x) blast
    show ?thesis
    proof (cases "goStringC name w")
      case (Inl fault)
      then show ?thesis using Some payload assms by (auto simp: cliproxyPluginCallC_def)
    next
      case (Inr y)
      then obtain called where "goStringC name w = Inr (called, w)" using goStringC_pure by (cases y) blast
      moreover obtain res c' where "dispatchMethod abi ops cl called payload (mc_plugin w) = (res, c')" by fastforce
      ultimately show ?thesis using Some payload assms by (cases res) (auto simp: cliproxyPluginCallC_def Let_def)
    qed
  qed
qed

lemma plugin_call_memory:
  assumes "fresh_malloc malloc" and c: "cliproxyPluginCallC malloc encode abi ops k name request n (Some b) w = Inr ((rc, filled), w')"
  shows "mc_handles w' = mc_handles w \<and> (\<exists>b'. filled = Some b' \<and> buffer_added (mc_heap w) (mc_heap w') b')"
proof -
  from call_shape [OF c] obtain code raw c' where r: "respond malloc (Some nullBuffer) code raw (w\<lparr>mc_plugin := c'\<rparr>) = Inr ((rc, filled), w')" by auto
  from respond_memory [OF assms(1) r] show ?thesis by simp
qed

lemma plugin_call_safe:
  assumes "readable_string (mc_heap w) name" "readable_bytes (mc_heap w) request n"
    and c: "cliproxyPluginCallC malloc encode abi ops k name request n (Some b) w = Inl fault"
  shows "fault \<in> {OutOfMemory, GoPanic}"
  using call_shape [OF c] goStringC_readable [OF assms(1)]
  by (auto dest: respond_fault [OF sym] goBytesC_readable(1) [OF assms(2)])

lemma plugin_release: "map_of (mc_heap w) p \<noteq> None \<Longrightarrow> cliproxyPluginFree (Some p) n w = Inr ((), w\<lparr>mc_heap := heapDrop p (mc_heap w)\<rparr>)"
  by (simp add: cliproxyPluginFree_def cFree_def)

interpretation plugin_code: c_plugin malloc "cliproxyPluginCallC malloc encode abi ops" cliproxyPluginFree
  by unfold_locales (fact plugin_call_memory plugin_call_safe plugin_release)+

section \<open>The wire agrees with the dispatcher\<close>

lemma sound_alloc:
  assumes "sound_malloc malloc"
  obtains p where "cBytes malloc raw w = Inr (Some p, w\<lparr>mc_heap := (p, raw) # mc_heap w\<rparr>)" "map_of (mc_heap w) p = None"
proof -
  obtain p where "malloc (mc_heap w) (length raw) = Some p" using assms by (auto simp: sound_malloc_def)
  then show thesis using that [of p] assms by (simp add: sound_malloc_def fresh_malloc_def cBytes_def)
qed

lemma goBytesC_request:
  "map_of (mc_heap w) p = Some request \<Longrightarrow> goBytes request = Some payload \<Longrightarrow> goBytesC (Some p) (length request) w = Inr (payload, w)"
  using cInt_le [of "length request"] by (auto simp: goBytesC_def goBytes_def Let_def split: if_splits)

lemma goStringC_method:
  "map_of (mc_heap w) p = Some (called @ [CHR 0x00]) \<Longrightarrow> CHR 0x00 \<notin> set called \<Longrightarrow> goStringC (Some p) w = Inr (called, w)"
  by (auto simp: goStringC_def takeWhile_tail)

lemma readResponse_block:
  "map_of (mc_heap w) p = Some raw \<Longrightarrow> raw \<noteq> [] \<Longrightarrow> length raw < 2 ^ 31 \<Longrightarrow>
     readResponse \<lparr>cb_ptr = Some p, cb_len = length raw\<rparr> w = Inr (raw, w)"
  by (simp add: readResponse_def goBytesC_def cInt_small Let_def)

text \<open>A response that the client receives, reads and releases.\<close>

lemma respond_consumed:
  assumes "sound_malloc malloc" "length raw < 2 ^ 31" "client_of call cliproxyPluginFree cli" "code_mapped w"
  shows "\<exists>b w'. respond malloc (Some nullBuffer) code raw w = Inr ((code, Some b), w') \<and>
    readResponse b w' = Inr (raw, w') \<and> releaseResponse (cli_api cli) b w' = Inr ((), w)"
proof (cases "raw = []")
  case True
  then show ?thesis by (simp add: respond_def writeResponse_def readResponse_def releaseResponse_def nullBuffer_def)
next
  case False
  obtain p where p: "cBytes malloc raw w = Inr (Some p, w\<lparr>mc_heap := (p, raw) # mc_heap w\<rparr>)" "map_of (mc_heap w) p = None"
    by (rule sound_alloc [OF assms(1)])
  have "releaseResponse (cli_api cli) \<lparr>cb_ptr = Some p, cb_len = length raw\<rparr> (w\<lparr>mc_heap := (p, raw) # mc_heap w\<rparr>) = Inr ((), w)"
    using assms(3,4) p(2) by (simp add: releaseResponse_def client_of_def cliproxyPluginFree_def cFree_def mapped_def code_mapped_def)
  then show ?thesis using False p assms(2) by (simp add: respond_def writeResponse_def readResponse_block)
qed

lemma wire_call:
  assumes "goBytesC ptr n w = Inr (payload, w)" "goStringC (Some m) w = Inr (called, w)" "goBytes request = Some payload"
    and "cliproxyPluginCall abi ops cl (Some called) request (mc_plugin w) = (CallReturns code reply, c')"
  shows "cliproxyPluginCallC malloc encode abi ops cl (Some m) ptr n (Some b) w =
    respond malloc (Some nullBuffer) code (encode reply) (w\<lparr>mc_plugin := c'\<rparr>)"
proof -
  obtain res d where "dispatchMethod abi ops cl called payload (mc_plugin w) = (res, d)" by fastforce
  then show ?thesis using assms by (cases res) (auto simp: cliproxyPluginCallC_def cliproxyPluginCall_def Let_def)
qed

text \<open>The arguments of a call as the plugin reads them.\<close>

lemma arguments_read:
  assumes "sound_malloc malloc" "CHR 0x00 \<notin> set called" "goBytes request = Some payload"
  obtains m q w2 where "cString malloc called w = Inr (Some m, w\<lparr>mc_heap := (m, called @ [CHR 0x00]) # mc_heap w\<rparr>)"
    "(if request \<noteq> [] then cBytes malloc request (w\<lparr>mc_heap := (m, called @ [CHR 0x00]) # mc_heap w\<rparr>)
      else Inr (None, w\<lparr>mc_heap := (m, called @ [CHR 0x00]) # mc_heap w\<rparr>)) = Inr (q, w2)"
    "goBytesC q (length request) w2 = Inr (payload, w2)" "goStringC (Some m) w2 = Inr (called, w2)"
    "w2\<lparr>mc_heap := mc_heap w\<rparr> = w"
proof -
  obtain m where m: "cBytes malloc (called @ [CHR 0x00]) w = Inr (Some m, w\<lparr>mc_heap := (m, called @ [CHR 0x00]) # mc_heap w\<rparr>)"
      "map_of (mc_heap w) m = None" by (rule sound_alloc [OF assms(1)])
  let ?w1 = "w\<lparr>mc_heap := (m, called @ [CHR 0x00]) # mc_heap w\<rparr>"
  obtain q where q: "cBytes malloc request ?w1 = Inr (Some q, ?w1\<lparr>mc_heap := (q, request) # mc_heap ?w1\<rparr>)" "map_of (mc_heap ?w1) q = None"
    by (rule sound_alloc [OF assms(1)])
  then have "q \<noteq> m" by (auto split: if_splits)
  show thesis
  proof (cases "request = []")
    case True
    show thesis
    proof (rule that [of m None ?w1])
      show "goBytesC None (length request) ?w1 = Inr (payload, ?w1)"
        using True assms(3) by (simp add: goBytesC_def cInt_def goBytes_def)
    qed (use True m assms(2) in \<open>simp_all add: cString_def goStringC_method\<close>)
  next
    case False
    show thesis
    proof (rule that [of m "Some q" "?w1\<lparr>mc_heap := (q, request) # mc_heap ?w1\<rparr>"])
      show "goBytesC (Some q) (length request) (?w1\<lparr>mc_heap := (q, request) # mc_heap ?w1\<rparr>) = Inr (payload, ?w1\<lparr>mc_heap := (q, request) # mc_heap ?w1\<rparr>)"
        using assms(3) by (intro goBytesC_request) simp_all
    qed (use False m(1) q(1) \<open>q \<noteq> m\<close> assms(2) in \<open>simp_all add: cString_def goStringC_method\<close>)
  qed
qed

text \<open>A call of the client, with its arguments and the response copied through C memory, while the library is mapped.\<close>

lemma mapped_call_refines:
  assumes "sound_malloc malloc" and "client_of (cliproxyPluginCallC malloc encode abi ops) cliproxyPluginFree cli" and "code_mapped w"
    and "CHR 0x00 \<notin> set called" and "length (encode reply) < 2 ^ 31"
    and "cliproxyPluginCall abi ops cl (Some called) request (mc_plugin w) = (CallReturns code reply, c')"
  shows "client_Call malloc cl (Some cli) called request w =
    Inr ((encode reply, if code \<noteq> 0 then Some (Msg (''plugin call '' @ called @ '' returned '' @ Itoa code @ '': '' @ encode reply)) else None),
         w\<lparr>mc_plugin := c'\<rparr>)"
proof -
  obtain payload where g: "goBytes request = Some payload" using assms(6) by (auto simp: call_dispatch split: option.splits)
  obtain m q w2 where a: "cString malloc called w = Inr (Some m, w\<lparr>mc_heap := (m, called @ [CHR 0x00]) # mc_heap w\<rparr>)"
    "(if request \<noteq> [] then cBytes malloc request (w\<lparr>mc_heap := (m, called @ [CHR 0x00]) # mc_heap w\<rparr>)
      else Inr (None, w\<lparr>mc_heap := (m, called @ [CHR 0x00]) # mc_heap w\<rparr>)) = Inr (q, w2)"
    "goBytesC q (length request) w2 = Inr (payload, w2)" "goStringC (Some m) w2 = Inr (called, w2)" "w2\<lparr>mc_heap := mc_heap w\<rparr> = w"
    by (rule arguments_read [OF assms(1,4) g])
  let ?w3 = "w2\<lparr>mc_plugin := c'\<rparr>"
  have f: "fresh_malloc malloc" using assms(1) by (simp add: sound_malloc_def)
  note args = plugin_code.call_arguments [OF f a(1,2)]
  have w2: "code_mapped w2" "mc_plugin w2 = mc_plugin w" "?w3\<lparr>mc_heap := mc_heap w\<rparr> = w\<lparr>mc_plugin := c'\<rparr>"
    using args(3) assms(3) a(5)
    by (metis code_mapped_def machine.select_convs(4) machine.surjective machine.update_convs(1), metis machine.select_convs(3) machine.surjective machine.update_convs(1), metis machine.surjective machine.update_convs(1,3))
  have c: "cliproxyPluginCallC malloc encode abi ops cl (Some m) q (length request) (Some nullBuffer) w2 = respond malloc (Some nullBuffer) code (encode reply) ?w3"
    by (rule wire_call [OF a(3,4) g]) (simp add: assms(6) w2(2))
  obtain b w' where b: "respond malloc (Some nullBuffer) code (encode reply) ?w3 = Inr ((code, Some b), w')"
      "readResponse b w' = Inr (encode reply, w')" "releaseResponse (cli_api cli) b w' = Inr ((), ?w3)"
    using respond_consumed [OF assms(1,5,2), of ?w3 code] w2(1) by (auto simp: code_mapped_def)
  have free: "bindC (cFree q ?w3) (\<lambda>_ w6. bindC (cFree (Some m) w6) (\<lambda>_ w7. Inr (r, w7))) = Inr (r, w\<lparr>mc_plugin := c'\<rparr>)" for r
    using args(4) [of ?w3 r] w2(3) by simp
  show ?thesis using a(1,2) b w2(1) c assms(2) by (simp add: client_Call_def client_of_def mapped_def free)
qed

section \<open>Sessions\<close>

text \<open>A sequence of calls of one client, each with what it finds outside, a method and a request.\<close>

fun client_calls :: "allocator \<Rightarrow> ('k, 'w) abiClient \<Rightarrow> ('k \<times> string \<times> string) list \<Rightarrow> 'w machine \<Rightarrow> ('w, (string \<times> go_error option) list) ceffect" where
  "client_calls malloc cli [] w = Inr ([], w)"
| "client_calls malloc cli ((k, called, request) # calls) w =
     bindC (client_Call malloc k (Some cli) called request w) (\<lambda>answer w1.
     bindC (client_calls malloc cli calls w1) (\<lambda>answers w2. Inr (answer # answers, w2)))"

lemma calls_clean:
  assumes "fresh_malloc malloc" "client_of (cliproxyPluginCallC malloc encode abi ops) cliproxyPluginFree cli" "mc_handles w \<noteq> 0"
  shows "case client_calls malloc cli calls w of
      Inl fault \<Rightarrow> fault \<in> {OutOfMemory, GoPanic}
    | Inr (answers, w') \<Rightarrow> mc_heap w' = mc_heap w \<and> mc_handles w' = mc_handles w \<and> length answers = length calls"
  using assms(3)
proof (induction calls arbitrary: w)
  case (Cons x calls)
  obtain k called request where x: "x = (k, called, request)" by (cases x) auto
  note c = plugin_code.client_call [OF assms(1,2) Cons.prems, of k called request]
  show ?case
  proof (cases "client_Call malloc k (Some cli) called request w")
    case (Inl fault)
    then show ?thesis using c by (simp add: x)
  next
    case (Inr y)
    then obtain answer w1 where 1: "client_Call malloc k (Some cli) called request w = Inr (answer, w1)" by (cases y) auto
    then show ?thesis using c Cons.IH [of w1] Cons.prems by (auto simp: x split: sum.splits)
  qed
qed simp

lemma plugin_init_table:
  "cliproxy_plugin_init version malloc encode abi ops (Some zeroAPI) =
    (0, Some \<lparr>abi_version = version, api_call = Some (cliproxyPluginCallC malloc encode abi ops), api_free_buffer = Some cliproxyPluginFree,
       api_shutdown = Some (cliproxyPluginShutdownC ops)\<rparr>)"
  by (simp add: cliproxy_plugin_init_def zeroAPI_def)

lemma exchange_plugin:
  "exchangeTable version k lib (cliproxy_plugin_init version malloc encode abi ops) w =
     Inr (Inr \<lparr>cli_handle = Some lib, cli_api = \<lparr>abi_version = version, api_call = Some (cliproxyPluginCallC malloc encode abi ops),
        api_free_buffer = Some cliproxyPluginFree, api_shutdown = Some (cliproxyPluginShutdownC ops)\<rparr>\<rparr>, w)"
  by (simp add: exchangeTable_def plugin_init_table)

lemma free_after_alloc:
  "map_of (mc_heap w) p = None \<Longrightarrow> mc_heap w' = (p, raw) # mc_heap w \<Longrightarrow> cFree (Some p) w' = Inr ((), w'\<lparr>mc_heap := mc_heap w\<rparr>)"
  by (simp add: cFree_def)

lemma open_plugin:
  assumes "fresh_malloc malloc" "dlopen path = Inr lib" "lb_init lib = Some (cliproxy_plugin_init version malloc encode abi ops)"
    and o: "client_Open version malloc dlopen path k w = Inr (r, w1)"
  obtains cli where "r = Inr cli" "client_of (cliproxyPluginCallC malloc encode abi ops) cliproxyPluginFree cli"
    "cli_handle cli = Some lib" "api_shutdown (cli_api cli) = Some (cliproxyPluginShutdownC ops)" "w1 = w\<lparr>mc_handles := Suc (mc_handles w)\<rparr>"
proof -
  obtain cPath v1 where 1: "cString malloc path w = Inr (cPath, v1)" using o by (auto simp: client_Open_def bindC_Inr_iff)
  then obtain p where p: "cPath = Some p" "map_of (mc_heap w) p = None" "v1 = w\<lparr>mc_heap := (p, path @ [CHR 0x00]) # mc_heap w\<rparr>"
    using cBytes_Inr [OF assms(1) 1 [unfolded cString_def]] by blast
  let ?v = "v1\<lparr>mc_handles := Suc (mc_handles v1)\<rparr>"
  obtain cSymbol v2 where 2: "cString malloc ''cliproxy_plugin_init'' ?v = Inr (cSymbol, v2)"
    using o 1 assms(2) by (auto simp: client_Open_def bindC_Inr_iff)
  then obtain s where s: "cSymbol = Some s" "map_of (mc_heap ?v) s = None" "v2 = ?v\<lparr>mc_heap := (s, ''cliproxy_plugin_init'' @ [CHR 0x00]) # mc_heap ?v\<rparr>"
    using cBytes_Inr [OF assms(1) 2 [unfolded cString_def]] by blast
  have 3: "cFree cSymbol v2 = Inr ((), ?v)" using s by (simp add: free_after_alloc [of ?v s])
  let ?cli = "\<lparr>cli_handle = Some lib, cli_api = \<lparr>abi_version = version, api_call = Some (cliproxyPluginCallC malloc encode abi ops),
    api_free_buffer = Some cliproxyPluginFree, api_shutdown = Some (cliproxyPluginShutdownC ops)\<rparr>\<rparr>"
  have "Inr (r, w1) = bindC (cFree cPath ?v) (\<lambda>_ w5. Inr (Inr ?cli, w5))"
    using o 1 2 3 assms(2,3) by (simp add: client_Open_def exchange_plugin)
  also have "\<dots> = Inr (Inr ?cli, w\<lparr>mc_handles := Suc (mc_handles w)\<rparr>)" using p by (simp add: free_after_alloc [of w p])
  finally show thesis using that [of ?cli] by (simp add: client_of_def)
qed

text \<open>Opening only stops for want of memory, and a path the linker refuses leaves no trace.\<close>

lemma cString_cases:
  assumes "fresh_malloc malloc"
  shows "cString malloc s w = Inl OutOfMemory \<or>
    (\<exists>p. cString malloc s w = Inr (Some p, w\<lparr>mc_heap := (p, s @ [CHR 0x00]) # mc_heap w\<rparr>) \<and> map_of (mc_heap w) p = None)"
  using assms by (cases "malloc (mc_heap w) (length (s @ [CHR 0x00]))") (auto simp: cString_def cBytes_def fresh_malloc_def)

lemma open_outcomes:
  assumes "fresh_malloc malloc" "\<And>lib. dlopen path = Inr lib \<Longrightarrow> lb_init lib = Some (cliproxy_plugin_init version malloc encode abi ops)"
  shows "client_Open version malloc dlopen path k w = Inl OutOfMemory \<or>
    (\<exists>err. client_Open version malloc dlopen path k w = Inr (Inl err, w)) \<or>
    (\<exists>lib r w1. dlopen path = Inr lib \<and> client_Open version malloc dlopen path k w = Inr (r, w1))"
proof (cases "cString malloc path w = Inl OutOfMemory")
  case True
  then show ?thesis by (simp add: client_Open_def)
next
  case False
  then obtain p where p: "cString malloc path w = Inr (Some p, w\<lparr>mc_heap := (p, path @ [CHR 0x00]) # mc_heap w\<rparr>)" "map_of (mc_heap w) p = None"
    using cString_cases [OF assms(1), of path w] by blast
  let ?v = "w\<lparr>mc_heap := (p, path @ [CHR 0x00]) # mc_heap w, mc_handles := Suc (mc_handles w)\<rparr>"
  show ?thesis
  proof (cases "dlopen path")
    case (Inl message)
    then show ?thesis using p by (simp add: client_Open_def free_after_alloc [of w p])
  next
    case (Inr lib)
    from cString_cases [OF assms(1), of "''cliproxy_plugin_init''" ?v] show ?thesis
      using p Inr assms(2) [OF Inr] by (auto simp: client_Open_def exchange_plugin free_after_alloc [of ?v] free_after_alloc [of w p])
  qed
qed

lemma close_plugin:
  assumes "api_shutdown (cli_api cli) = Some (cliproxyPluginShutdownC ops)" "cli_handle cli = Some lib" "mc_handles w = Suc n"
  shows "client_Close k (Some cli) w =
    Inr (Some (cli\<lparr>cli_handle := None, cli_api := (cli_api cli)\<lparr>api_shutdown := None\<rparr>\<rparr>),
         w\<lparr>mc_handles := n, mc_plugin := cliproxyPluginShutdown ops k (mc_plugin w)\<rparr>)"
  using assms by (simp add: client_Close_def shutdownHook_def cliproxyPluginShutdownC_def test_dlclose_def)

lemma hook_clears:
  "client_of call release cli \<Longrightarrow> shutdownHook k cli w = Inr (cli', w') \<Longrightarrow>
     api_shutdown (cli_api cli') = None \<and> client_of call release cli' \<and> cli_handle cli' = cli_handle cli"
  by (cases "api_shutdown (cli_api cli)") (auto simp: shutdownHook_def client_of_def bindC_Inr_iff)

lemma close_clears:
  assumes "client_of call release cli" "client_Close k (Some cli) w = Inr (closed, w')"
  obtains cli' where "closed = Some cli'" "api_shutdown (cli_api cli') = None" "cli_handle cli' = None" "client_of call release cli'"
proof -
  obtain cli1 w1 where 1: "shutdownHook k cli w = Inr (cli1, w1)" using assms(2) by (auto simp: client_Close_def bindC_Inr_iff)
  then have "closed = Some (cli1\<lparr>cli_handle := None\<rparr>)" using assms(2) by (cases "cli_handle cli1") (auto simp: client_Close_def)
  then show thesis using that hook_clears [OF assms(1) 1] by (simp add: client_of_def)
qed

section \<open>A sample process\<close>

text \<open>An allocator that always takes the address above the ones in use.\<close>

definition bumpMalloc :: allocator where
  "bumpMalloc h n = Some (Suc (foldr (\<lambda>(p, _). max p) h 0))"

lemma bump_bound: "(p :: nat, raw) \<in> set h \<Longrightarrow> p \<le> foldr (\<lambda>(p, _). max p) h 0"
  by (induction h) (auto simp: le_max_iff_disj)

lemma bumpMalloc_sound: "sound_malloc bumpMalloc"
  unfolding sound_malloc_def fresh_malloc_def bumpMalloc_def
  by (auto simp: map_of_eq_None_iff dest: bump_bound)

definition sampleEncode :: "('s, 'r) envelope \<Rightarrow> string" where
  "sampleEncode reply = (case reply of OKEnvelope _ \<Rightarrow> ''ok'' | ErrorEnvelope code message _ _ \<Rightarrow> code @ '': '' @ message)"

definition sampleLibrary :: "(hostedEnv callEnv, hosted Coordinator) sharedLibrary" where
  "sampleLibrary = \<lparr>lb_init = Some (cliproxy_plugin_init 1 bumpMalloc sampleEncode sampleABI pluginOps)\<rparr>"

definition sampleLinker :: "(hostedEnv callEnv, hosted Coordinator) linker" where
  "sampleLinker path = (if path = ''plugin.so'' then Inr sampleLibrary else Inl ''not found'')"

definition idleMachine :: "hosted Coordinator machine" where
  "idleMachine = \<lparr>mc_heap = [(7, ''host'')], mc_handles = 0, mc_plugin = configuredPlugin, mc_resident = True\<rparr>"

definition openClient :: "(hostedEnv callEnv, hosted Coordinator) abiClient" where
  "openClient = \<lparr>cli_handle = Some sampleLibrary, cli_api = \<lparr>abi_version = 1, api_call = Some (cliproxyPluginCallC bumpMalloc sampleEncode sampleABI pluginOps),
     api_free_buffer = Some cliproxyPluginFree, api_shutdown = Some (cliproxyPluginShutdownC pluginOps)\<rparr>\<rparr>"

lemma openClient_of: "client_of (cliproxyPluginCallC bumpMalloc sampleEncode sampleABI pluginOps) cliproxyPluginFree openClient"
  by (simp add: client_of_def openClient_def)

section \<open>Properties\<close>

text \<open>
  C7. The wire refines the dispatcher. A call of the client, with its arguments and the response
  copied through C memory, returns exactly the encoded envelope and the return code that the
  dispatcher computes for the same method and request, moves the plugin to the same state, and
  leaves the C heap as it was: each of the three buffers is freed once, by the side that owns it.
  The method has no NUL byte and the answer is below 2 GiB.
\<close>

theorem client_call_refines:
  assumes "sound_malloc malloc" and "client_of (cliproxyPluginCallC malloc encode abi ops) cliproxyPluginFree cli" and "mc_handles w \<noteq> 0"
    and "CHR 0x00 \<notin> set called" and "length (encode reply) < 2 ^ 31"
    and "cliproxyPluginCall abi ops cl (Some called) request (mc_plugin w) = (CallReturns code reply, c')"
  shows "client_Call malloc cl (Some cli) called request w =
    Inr ((encode reply, if code \<noteq> 0 then Some (Msg (''plugin call '' @ called @ '' returned '' @ Itoa code @ '': '' @ encode reply)) else None),
         w\<lparr>mc_plugin := c'\<rparr>)"
  by (rule mapped_call_refines [OF assms(1,2) _ assms(4-6)]) (simp add: code_mapped_def assms(3))

theorem client_call_refines_witness:
  "\<exists>code reply. fst (cliproxyPluginCall sampleABI pluginOps sampleCall (Some ''scheduler.pick'') ''pick'' configuredPlugin) = CallReturns code reply \<and>
     (\<exists>err w. client_Call bumpMalloc sampleCall (Some openClient) ''scheduler.pick'' ''pick'' (idleMachine\<lparr>mc_handles := 1\<rparr>) = Inr ((sampleEncode reply, err), w) \<and>
       mc_heap w = [(7, ''host'')])"
proof -
  let ?k = "cliproxyPluginCall sampleABI pluginOps sampleCall (Some ''scheduler.pick'') ''pick'' configuredPlugin"
  let ?w = "idleMachine\<lparr>mc_handles := 1\<rparr>"
  have f: "case fst ?k of CallReturns n e \<Rightarrow> n = 0 \<and> sampleEncode e = ''ok'' | CallPanic \<Rightarrow> False" by code_simp
  then obtain reply st where k: "?k = (CallReturns 0 reply, st)" "sampleEncode reply = ''ok''" by (cases ?k) (auto split: callOutcome.splits)
  have "cliproxyPluginCall sampleABI pluginOps sampleCall (Some ''scheduler.pick'') ''pick'' (mc_plugin ?w) = (CallReturns 0 reply, st)"
    using k(1) by (simp add: idleMachine_def)
  from client_call_refines [OF bumpMalloc_sound openClient_of _ _ _ this] k show ?thesis by (auto simp: idleMachine_def)
qed

text \<open>
  C13. A session with the plugin is memory safe and leaves nothing behind. Opening the library
  succeeds with a complete table; whatever calls follow, none reads or frees a block it must not
  or runs code that is not mapped (only the allocator or a 2 GiB length can stop the process);
  and closing ends with the C heap and the number of library handles from before the opening,
  the plugin shut down.
\<close>

theorem abi_session_clean:
  assumes "fresh_malloc malloc" and "dlopen path = Inr lib" and "lb_init lib = Some (cliproxy_plugin_init version malloc encode abi ops)"
    and "client_Open version malloc dlopen path k w = Inr (r, w1)"
  shows "\<exists>cli. r = Inr cli \<and>
    (case client_calls malloc cli calls w1 of
       Inl fault \<Rightarrow> fault \<in> {OutOfMemory, GoPanic}
     | Inr (answers, w2) \<Rightarrow> length answers = length calls \<and>
         (\<exists>cli' w3. client_Close k' (Some cli) w2 = Inr (Some cli', w3) \<and>
            mc_heap w3 = mc_heap w \<and> mc_handles w3 = mc_handles w \<and> co_stopped (mc_plugin w3)))"
proof -
  obtain cli where cli: "r = Inr cli" "client_of (cliproxyPluginCallC malloc encode abi ops) cliproxyPluginFree cli"
      "cli_handle cli = Some lib" "api_shutdown (cli_api cli) = Some (cliproxyPluginShutdownC ops)" "w1 = w\<lparr>mc_handles := Suc (mc_handles w)\<rparr>"
    by (rule open_plugin [OF assms])
  have "mc_handles w1 \<noteq> 0" by (simp add: cli(5))
  from calls_clean [OF assms(1) cli(2) this, of calls] show ?thesis
    using close_plugin [OF cli(4,3)] shutdown_stops(1) by (auto simp: cli(1,5) split: sum.splits)
qed

theorem abi_session_clean_witness:
  "case client_Open 1 bumpMalloc sampleLinker ''plugin.so'' sampleCall idleMachine of
     Inr (Inr cli, w1) \<Rightarrow>
       (case client_calls bumpMalloc cli [(sampleCall, ''scheduler.pick'', ''pick''), (sampleCall, ''none'', [])] w1 of
          Inr (answers, w2) \<Rightarrow> length answers = 2 \<and> (\<exists>cli' w3. client_Close sampleCall (Some cli) w2 = Inr (Some cli', w3) \<and> mc_heap w3 = [(7, ''host'')])
        | Inl fault \<Rightarrow> fault \<in> {OutOfMemory, GoPanic})
   | _ \<Rightarrow> False"
proof -
  have "case client_Open 1 bumpMalloc sampleLinker ''plugin.so'' sampleCall idleMachine of Inr _ \<Rightarrow> True | Inl _ \<Rightarrow> False" by code_simp
  then obtain r w1 where o: "client_Open 1 bumpMalloc sampleLinker ''plugin.so'' sampleCall idleMachine = Inr (r, w1)" by (auto split: sum.splits)
  have m: "fresh_malloc bumpMalloc" using bumpMalloc_sound by (simp add: sound_malloc_def)
  have l: "sampleLinker ''plugin.so'' = Inr sampleLibrary" "lb_init sampleLibrary = Some (cliproxy_plugin_init 1 bumpMalloc sampleEncode sampleABI pluginOps)"
    by (simp_all add: sampleLinker_def sampleLibrary_def)
  let ?calls = "[(sampleCall, ''scheduler.pick'', ''pick''), (sampleCall, ''none'', [])]"
  obtain cli where r: "r = Inr cli" and c: "case client_calls bumpMalloc cli ?calls w1 of
      Inl fault \<Rightarrow> fault \<in> {OutOfMemory, GoPanic}
    | Inr (answers, w2) \<Rightarrow> length answers = length ?calls \<and>
        (\<exists>cli' w3. client_Close sampleCall (Some cli) w2 = Inr (Some cli', w3) \<and>
           mc_heap w3 = mc_heap idleMachine \<and> mc_handles w3 = mc_handles idleMachine \<and> co_stopped (mc_plugin w3))"
    using abi_session_clean [OF m l o, of ?calls sampleCall] by blast
  have "mc_heap idleMachine = [(7, ''host'')]" by (simp add: idleMachine_def)
  then show ?thesis using c unfolding o r sum.case prod.case by (auto split: sum.splits simp del: client_calls.simps)
qed

text \<open>
  C34. Closing a client is idempotent, but a closed client is not refused. The second \<open>Close\<close>
  changes nothing. A call after it never answers \<open>plugin client is closed\<close>: \<open>Close\<close> leaves the
  pointers for calls in the table, and on any machine the closed client makes the same call as the
  open one did. When the library is still mapped, because another handle is open or the linker
  keeps it, the call is served by the plugin that has been shut down; when it is not, the call
  jumps to where its code was.
\<close>

theorem closed_client_still_calls:
  assumes "sound_malloc malloc" and "client_of (cliproxyPluginCallC malloc encode abi ops) cliproxyPluginFree cli"
    and "client_Close k (Some cli) w = Inr (closed, w')"
  shows "client_Close k' closed w' = Inr (closed, w') \<and>
    (\<forall>v. client_Call malloc cl closed called request v = client_Call malloc cl (Some cli) called request v) \<and>
    (code_mapped w' \<longrightarrow> CHR 0x00 \<notin> set called \<longrightarrow> length (encode reply) < 2 ^ 31 \<longrightarrow>
       cliproxyPluginCall abi ops cl (Some called) request (mc_plugin w') = (CallReturns code reply, c') \<longrightarrow>
       client_Call malloc cl closed called request w' =
         Inr ((encode reply, if code \<noteq> 0 then Some (Msg (''plugin call '' @ called @ '' returned '' @ Itoa code @ '': '' @ encode reply)) else None),
              w'\<lparr>mc_plugin := c'\<rparr>)) \<and>
    (\<not> code_mapped w' \<longrightarrow> client_Call malloc cl closed called request w' = Inl UnmappedCode)"
proof -
  obtain cli' where c: "closed = Some cli'" "api_shutdown (cli_api cli') = None" "cli_handle cli' = None"
      "client_of (cliproxyPluginCallC malloc encode abi ops) cliproxyPluginFree cli'"
    by (rule close_clears [OF assms(2,3)])
  have free: "releaseResponse (cli_api cli') = releaseResponse (cli_api cli)"
    using c(4) assms(2) by (intro ext) (auto simp: releaseResponse_def client_of_def)
  have same: "client_Call malloc cl closed called request v = client_Call malloc cl (Some cli) called request v" for v
    using c(1,4) assms(2) by (simp add: client_Call_def client_of_def free)
  have unmapped: "client_Call malloc cl closed called request w' = Inl UnmappedCode" if u: "\<not> code_mapped w'"
  proof -
    obtain p where p: "cBytes malloc (called @ [CHR 0x00]) w' = Inr (Some p, w'\<lparr>mc_heap := (p, called @ [CHR 0x00]) # mc_heap w'\<rparr>)"
      by (rule sound_alloc [OF assms(1)])
    obtain q where "cBytes malloc request (w'\<lparr>mc_heap := (p, called @ [CHR 0x00]) # mc_heap w'\<rparr>) =
        Inr (Some q, w'\<lparr>mc_heap := (q, request) # (p, called @ [CHR 0x00]) # mc_heap w'\<rparr>)"
      by (rule sound_alloc [OF assms(1), of request "w'\<lparr>mc_heap := (p, called @ [CHR 0x00]) # mc_heap w'\<rparr>"]) simp
    then show ?thesis using p u c(1,4) by (simp add: client_Call_def client_of_def cString_def mapped_def code_mapped_def)
  qed
  have "client_Close k' closed w' = Inr (closed, w')" using c by (simp add: client_Close_def shutdownHook_def)
  then show ?thesis using same unmapped mapped_call_refines [OF assms(1) c(4)] c(1) by blast
qed

text \<open>The closed client on the two kinds of linker: an answer of the plugin that is shut down, and a jump to nowhere.\<close>

definition closedRun :: "bool \<Rightarrow> (hosted Coordinator, (hostedEnv callEnv, hosted Coordinator) abiClient option) ceffect" where
  "closedRun resident = client_Close sampleCall (Some openClient) (idleMachine\<lparr>mc_handles := 1, mc_resident := resident\<rparr>)"

theorem closed_client_still_calls_witness:
  "(case closedRun True of
      Inr (closed, w) \<Rightarrow> \<exists>reply w'. client_Call bumpMalloc sampleCall closed ''scheduler.pick'' ''pick'' w = Inr (reply, w')
    | Inl _ \<Rightarrow> False) \<and>
   (case closedRun False of
      Inr (closed, w) \<Rightarrow> client_Call bumpMalloc sampleCall closed ''scheduler.pick'' ''pick'' w = Inl UnmappedCode
    | Inl _ \<Rightarrow> False)"
proof -
  have c: "\<exists>closed. closedRun resident = Inr (closed, idleMachine\<lparr>mc_handles := 0, mc_resident := resident,
      mc_plugin := cliproxyPluginShutdown pluginOps sampleCall configuredPlugin\<rparr>)" for resident
    using close_plugin [of openClient pluginOps sampleLibrary "idleMachine\<lparr>mc_handles := 1, mc_resident := resident\<rparr>" 0 sampleCall]
    by (simp add: closedRun_def openClient_def idleMachine_def)
  from c [of True] obtain closed w where k: "closedRun True = Inr (closed, w)" "code_mapped w"
      "mc_plugin w = cliproxyPluginShutdown pluginOps sampleCall configuredPlugin"
    by (auto simp: code_mapped_def)
  from c [of False] obtain closed' v where u: "closedRun False = Inr (closed', v)" "\<not> code_mapped v"
    by (auto simp: code_mapped_def)
  let ?k = "cliproxyPluginCall sampleABI pluginOps sampleCall (Some ''scheduler.pick'') ''pick'' (cliproxyPluginShutdown pluginOps sampleCall configuredPlugin)"
  have "case fst ?k of CallReturns n e \<Rightarrow> length (sampleEncode e) < 200 | CallPanic \<Rightarrow> False" by code_simp
  then obtain code reply st where "?k = (CallReturns code reply, st)" "length (sampleEncode reply) < 200"
    by (cases ?k) (auto split: callOutcome.splits)
  then have d: "length (sampleEncode reply) < 2 ^ 31"
      "cliproxyPluginCall sampleABI pluginOps sampleCall (Some ''scheduler.pick'') ''pick'' (mc_plugin w) = (CallReturns code reply, st)"
    using k(3) by simp_all
  note run = closed_client_still_calls [OF bumpMalloc_sound openClient_of, where cl = sampleCall and called = "''scheduler.pick''" and request = "''pick''"]
  have "CHR 0x00 \<notin> set ''scheduler.pick''" by simp
  then have "\<exists>reply w'. client_Call bumpMalloc sampleCall closed ''scheduler.pick'' ''pick'' w = Inr (reply, w')"
    using run [OF k(1) [unfolded closedRun_def], where reply = reply and code = code and c' = st] k(2) d by blast
  moreover have "client_Call bumpMalloc sampleCall closed' ''scheduler.pick'' ''pick'' v = Inl UnmappedCode"
    using run [OF u(1) [unfolded closedRun_def]] u(2) by blast
  ultimately show ?thesis using k(1) u(1) by simp
qed

end
