(* ===== verification/Release.thy ===== *)
theory Release
  imports Securestore Persist
begin

text \<open>
  The release tools, \<^verbatim>\<open>.github/scripts/release-validation/main.go\<close> without its workflow
  checks and \<^verbatim>\<open>.github/scripts/package-release.go\<close>. The tools read a directory tree, so their
  operations take a record \<open>releaseFS\<close> of what the system calls return: an open file is the
  result of reading it to its end. Decoders of JSON and of zip archives are arguments too.
\<close>

section \<open>Regular expressions\<close>

text \<open>The expressions of the tools, matched by derivatives against a whole text.\<close>

datatype rx = RxNone | RxEps | RxCls "char \<Rightarrow> bool" | RxSeq rx rx | RxAlt rx rx | RxStar rx

fun rx_nullable :: "rx \<Rightarrow> bool" where
  "rx_nullable RxNone = False"
| "rx_nullable RxEps = True"
| "rx_nullable (RxCls P) = False"
| "rx_nullable (RxSeq r s) = (rx_nullable r \<and> rx_nullable s)"
| "rx_nullable (RxAlt r s) = (rx_nullable r \<or> rx_nullable s)"
| "rx_nullable (RxStar r) = True"

fun rx_deriv :: "char \<Rightarrow> rx \<Rightarrow> rx" where
  "rx_deriv c RxNone = RxNone"
| "rx_deriv c RxEps = RxNone"
| "rx_deriv c (RxCls P) = (if P c then RxEps else RxNone)"
| "rx_deriv c (RxSeq r s) =
     (if rx_nullable r then RxAlt (RxSeq (rx_deriv c r) s) (rx_deriv c s) else RxSeq (rx_deriv c r) s)"
| "rx_deriv c (RxAlt r s) = RxAlt (rx_deriv c r) (rx_deriv c s)"
| "rx_deriv c (RxStar r) = RxSeq (rx_deriv c r) (RxStar r)"

fun rx_match :: "rx \<Rightarrow> string \<Rightarrow> bool" where
  "rx_match r [] = rx_nullable r"
| "rx_match r (c # cs) = rx_match (rx_deriv c r) cs"

text \<open>The language of an expression, against which the matcher is checked below.\<close>

inductive rx_in :: "rx \<Rightarrow> string \<Rightarrow> bool" where
  InEps: "rx_in RxEps []"
| InCls: "P c \<Longrightarrow> rx_in (RxCls P) [c]"
| InSeq: "rx_in r u \<Longrightarrow> rx_in s v \<Longrightarrow> rx_in (RxSeq r s) (u @ v)"
| InLeft: "rx_in r u \<Longrightarrow> rx_in (RxAlt r s) u"
| InRight: "rx_in s u \<Longrightarrow> rx_in (RxAlt r s) u"
| InNil: "rx_in (RxStar r) []"
| InStar: "rx_in r u \<Longrightarrow> rx_in (RxStar r) v \<Longrightarrow> rx_in (RxStar r) (u @ v)"

inductive_simps rx_in_simps [simp]:
  "rx_in RxNone w" "rx_in RxEps w" "rx_in (RxCls P) w" "rx_in (RxAlt r s) w"

inductive_simps rx_in_seq:
  "rx_in (RxSeq r s) w"

abbreviation rx_lit :: "char \<Rightarrow> rx" where "rx_lit c \<equiv> RxCls (\<lambda>d. d = c)"

fun rx_seq :: "rx list \<Rightarrow> rx" where
  "rx_seq [] = RxEps"
| "rx_seq [r] = r"
| "rx_seq (r # rs) = RxSeq r (rx_seq rs)"

definition rx_opt :: "rx \<Rightarrow> rx" where "rx_opt r = RxAlt RxEps r"

section \<open>Versions\<close>

definition is_ident :: "char \<Rightarrow> bool" where
  "is_ident c \<longleftrightarrow> is_digit c \<or> c = CHR ''-'' \<or> (let n = of_char c :: nat in (65 \<le> n \<and> n \<le> 90) \<or> (97 \<le> n \<and> n \<le> 122))"

definition rx_number :: rx where
  "rx_number = RxAlt (rx_lit (CHR ''0'')) (RxSeq (RxCls (\<lambda>c. is_digit c \<and> c \<noteq> CHR ''0'')) (RxStar (RxCls is_digit)))"

definition rx_idents :: rx where
  "rx_idents =
     rx_seq [RxCls is_ident, RxStar (RxCls is_ident),
             RxStar (rx_seq [rx_lit (CHR ''.''), RxCls is_ident, RxStar (RxCls is_ident)])]"

definition versionPattern :: rx where
  "versionPattern =
     rx_seq [rx_number, rx_lit (CHR ''.''), rx_number, rx_lit (CHR ''.''), rx_number,
             rx_opt (RxSeq (rx_lit (CHR ''-'')) rx_idents), rx_opt (RxSeq (rx_lit (CHR ''+'')) rx_idents)]"

definition versionFromTag :: "string \<Rightarrow> string result" where
  "versionFromTag tag =
     (if \<not> HasPrefix tag ''v'' then Inl (Msg ''tag must start with v'')
      else if \<not> rx_match versionPattern (drop 1 tag) then Inl (Msg ''tag is not valid semantic version syntax'')
      else Inr (drop 1 tag))"

definition validateVersion :: "string \<Rightarrow> string \<Rightarrow> unit result" where
  "validateVersion tag version =
     (case versionFromTag tag of
        Inl err \<Rightarrow> Inl err
      | Inr resolved \<Rightarrow> if resolved \<noteq> version then Inl (Msg ''tag does not match version'') else Inr ())"

lemma rx_nullable_in: "rx_nullable r \<longleftrightarrow> rx_in r []"
  by (induction r) (auto simp: rx_in_seq intro: InNil)

lemma rx_star_cons: "rx_in (RxStar r) (c # w) \<longleftrightarrow> (\<exists>u v. w = u @ v \<and> rx_in r (c # u) \<and> rx_in (RxStar r) v)"
proof
  show "\<exists>u v. w = u @ v \<and> rx_in r (c # u) \<and> rx_in (RxStar r) v" if "rx_in (RxStar r) (c # w)"
    using that
  proof (induction "RxStar r" "c # w" arbitrary: w rule: rx_in.induct)
    case (InStar u v)
    then show ?case by (cases u) auto
  qed
  show "rx_in (RxStar r) (c # w)" if "\<exists>u v. w = u @ v \<and> rx_in r (c # u) \<and> rx_in (RxStar r) v"
    using that rx_in.InStar [of r "c # u" for u] by force
qed

lemma rx_deriv_in: "rx_in (rx_deriv c r) w \<longleftrightarrow> rx_in r (c # w)"
proof (induction r arbitrary: w)
  case (RxSeq r s)
  have "rx_in (RxSeq r s) (c # w) \<longleftrightarrow>
      (\<exists>u v. w = u @ v \<and> rx_in r (c # u) \<and> rx_in s v) \<or> (rx_in r [] \<and> rx_in s (c # w))"
    by (auto simp: rx_in_seq Cons_eq_append_conv)
  then show ?case using RxSeq by (auto simp: rx_in_seq rx_nullable_in)
next
  case (RxStar r)
  then show ?case by (auto simp: rx_in_seq rx_star_cons)
qed auto

lemma rx_match_in: "rx_match r w \<longleftrightarrow> rx_in r w"
  by (induction r w rule: rx_match.induct) (simp_all add: rx_nullable_in rx_deriv_in)


section \<open>Documents\<close>

definition NL :: string where "NL = [CHR 0x0A]"
definition CR :: string where "CR = [CHR 0x0D]"

definition canonicalMITLicense :: string where
  \<open>canonicalMITLicense = Join
     [''MIT License'',
      [],
      ''Copyright (c) 2026 TogetherWeOwn'',
      [],
      ''Permission is hereby granted, free of charge, to any person obtaining a copy'',
      ''of this software and associated documentation files (the "Software"), to deal'',
      ''in the Software without restriction, including without limitation the rights'',
      ''to use, copy, modify, merge, publish, distribute, sublicense, and/or sell'',
      ''copies of the Software, and to permit persons to whom the Software is'',
      ''furnished to do so, subject to the following conditions:'',
      [],
      ''The above copyright notice and this permission notice shall be included in all'',
      ''copies or substantial portions of the Software.'',
      [],
      ''THE SOFTWARE IS PROVIDED "AS IS", WITHOUT WARRANTY OF ANY KIND, EXPRESS OR'',
      ''IMPLIED, INCLUDING BUT NOT LIMITED TO THE WARRANTIES OF MERCHANTABILITY,'',
      ''FITNESS FOR A PARTICULAR PURPOSE AND NONINFRINGEMENT. IN NO EVENT SHALL THE'',
      ''AUTHORS OR COPYRIGHT HOLDERS BE LIABLE FOR ANY CLAIM, DAMAGES OR OTHER'',
      ''LIABILITY, WHETHER IN AN ACTION OF CONTRACT, TORT OR OTHERWISE, ARISING FROM,'',
      ''OUT OF OR IN CONNECTION WITH THE SOFTWARE OR THE USE OR OTHER DEALINGS IN THE'',
      ''SOFTWARE.'',
      []] NL\<close>

definition canonicalNotice :: string where
  \<open>canonicalNotice = Join
     [''cpa-plugin-zai-coding-plan'',
      ''Copyright (c) 2026 TogetherWeOwn'',
      [],
      ''This product includes software developed by TogetherWeOwn and third-party software whose licenses are recorded in the Go module dependency metadata.'',
      []] NL\<close>

definition normalizeDocument :: "string \<Rightarrow> string" where
  "normalizeDocument text = TrimSpace (ReplaceAll text (CR @ NL) NL)"

section \<open>The files a tool reads\<close>

record zipEntry =
  ze_Name :: string
  ze_IsDir :: bool
  ze_IsSymlink :: bool
  ze_Perm :: int
  ze_Open :: "string result result"
  ze_CloseErr :: "go_error option"

record fileStat =
  sf_IsRegular :: bool
  sf_Size :: int
  sf_Perm :: int

text \<open>
  \<open>fs_open\<close> is \<open>os.Open\<close>; the result inside is that of reading the file to its end.
  \<open>fs_git\<close> is the output of \<open>git ls-files\<close>.
\<close>

record releaseFS =
  fs_open :: "string \<Rightarrow> string result result"
  fs_closeErr :: "string \<Rightarrow> go_error option"
  fs_stat :: "string \<Rightarrow> fileStat result"
  fs_zip :: "string \<Rightarrow> zipEntry list result"
  fs_glob :: "string \<Rightarrow> string list result"
  fs_git :: "string \<Rightarrow> string result"

definition readFile :: "releaseFS \<Rightarrow> string \<Rightarrow> string result" where
  "readFile fs path = bindR (fs_open fs path) (\<lambda>r. r)"

definition wrapR :: "string \<Rightarrow> 'a result \<Rightarrow> 'a result" where
  "wrapR text r = (case r of Inl err \<Rightarrow> Inl (Wrapped text err) | Inr v \<Rightarrow> Inr v)"

definition validateDocumentation :: "releaseFS \<Rightarrow> string \<Rightarrow> unit result" where
  "validateDocumentation fs root =
     bindR (wrapR ''read LICENSE'' (readFile fs (joinPath root ''LICENSE''))) (\<lambda>license.
     if normalizeDocument license \<noteq> normalizeDocument canonicalMITLicense
     then Inl (Msg ''LICENSE does not match the canonical MIT license'')
     else
       bindR (wrapR ''read NOTICE'' (readFile fs (joinPath root ''NOTICE''))) (\<lambda>notice.
       if normalizeDocument notice \<noteq> normalizeDocument canonicalNotice
       then Inl (Msg ''NOTICE does not match the canonical project notice'') else Inr ()))"

definition requireNonEmpty :: "releaseFS \<Rightarrow> string \<Rightarrow> unit result" where
  "requireNonEmpty fs path =
     bindR (wrapR (''required artifact '' @ pathBase path) (fs_stat fs path)) (\<lambda>info.
     if \<not> sf_IsRegular info \<or> sf_Size info = 0
     then Inl (Msg (''required artifact '' @ pathBase path @ '' is empty or not a regular file'')) else Inr ())"

fun requireAll :: "releaseFS \<Rightarrow> string list \<Rightarrow> unit result" where
  "requireAll fs [] = Inr ()"
| "requireAll fs (path # paths) = bindR (requireNonEmpty fs path) (\<lambda>_. requireAll fs paths)"

definition is_lower_hex :: "char \<Rightarrow> bool" where
  "is_lower_hex c \<longleftrightarrow> is_digit c \<or> (let n = of_char c :: nat in 97 \<le> n \<and> n \<le> 102)"

section \<open>Registry and change log\<close>

record registryPlugin =
  rp_ID :: string
  rp_Version :: string
  rp_License :: string
  rp_Archive :: string
  rp_Checksums :: string

definition toolPluginID :: string where "toolPluginID = ''subscription-pool''"
definition libraryName :: string where "libraryName = toolPluginID @ ''.so''"

definition archiveName :: "string \<Rightarrow> string" where
  "archiveName version = toolPluginID @ ''_'' @ version @ ''_linux_amd64.zip''"

definition validateRegistry :: "(string \<Rightarrow> registryPlugin list result) \<Rightarrow> releaseFS \<Rightarrow> string \<Rightarrow> string \<Rightarrow> unit result" where
  "validateRegistry decode fs root version =
     bindR (wrapR ''read registry'' (readFile fs (joinPath root ''registry.json''))) (\<lambda>raw.
     bindR (wrapR ''parse registry'' (decode raw)) (\<lambda>plugins.
     case filter (\<lambda>p. rp_ID p = toolPluginID) plugins of
       [m] \<Rightarrow>
         if rp_Version m \<noteq> version then Inl (Msg ''registry version does not match release version'')
         else if rp_License m \<noteq> ''MIT'' then Inl (Msg ''registry license does not match LICENSE'')
         else if rp_Archive m \<noteq> archiveName version then Inl (Msg ''registry archive does not match release archive'')
         else if rp_Checksums m \<noteq> ''checksums.txt'' then Inl (Msg ''registry checksums must be checksums.txt'')
         else Inr ()
     | matches \<Rightarrow> Inl (Msg (''registry must contain exactly one entry, found '' @ Itoa (int (length matches))))))"

fun splitOn :: "char \<Rightarrow> string \<Rightarrow> string list" where
  "splitOn sep [] = [[]]"
| "splitOn sep (c # cs) =
     (if c = sep then [] # splitOn sep cs
      else case splitOn sep cs of [] \<Rightarrow> [[c]] | p # ps \<Rightarrow> (c # p) # ps)"

definition isDate :: "string \<Rightarrow> bool" where
  "isDate s \<longleftrightarrow>
     list_all2 (\<lambda>digit c. if digit then is_digit c else c = CHR ''-'')
       [True, True, True, True, False, True, True, False, True, True] s"

text \<open>
  With \<open>(?m)\<close> the anchors of the heading pattern are the ends of a line; the quoted version
  holds no line break.
\<close>

definition isHeading :: "string \<Rightarrow> string \<Rightarrow> bool" where
  "isHeading version line \<longleftrightarrow>
     (let start = ''## ['' @ version @ ''] - '' in HasPrefix line start \<and> isDate (drop (length start) line))"

definition releaseLink :: "string \<Rightarrow> string" where
  "releaseLink version =
     ''['' @ version @ '']: https://github.com/TogetherWeOwn/cpa-plugin-zai-coding-plan/releases/tag/v'' @ version"

definition validateChangelog :: "releaseFS \<Rightarrow> string \<Rightarrow> string \<Rightarrow> unit result" where
  "validateChangelog fs root version =
     bindR (wrapR ''read changelog'' (readFile fs (joinPath root ''CHANGELOG.md''))) (\<lambda>text.
     if \<not> list_ex (isHeading version) (splitOn (CHR 0x0A) text)
     then Inl (Msg (''changelog must contain a dated ['' @ version @ ''] release heading''))
     else if \<not> Contains text (releaseLink version)
     then Inl (Msg (''changelog is missing the '' @ version @ '' release link''))
     else Inr ())"

section \<open>Host images\<close>

record hostMatrix =
  hm_Repository :: string
  hm_Platform :: string
  hm_BaselineTag :: string
  hm_BaselineDigest :: string

record deployedImage =
  di_Repository :: string
  di_Tag :: string
  di_Platform :: string
  di_ManifestDigest :: string

definition hostImageRepository :: string where "hostImageRepository = ''eceasy/cli-proxy-api''"
definition baselineHostImageTag :: string where "baselineHostImageTag = ''v7.2.150''"
definition baselineHostImageAMD64Digest :: string where
  "baselineHostImageAMD64Digest = ''sha256:dca10d258e7d83e7cbec21e1ba2919d416857ca83d40198abfd18b1e6558cdcd''"

definition rx_digits :: rx where "rx_digits = RxSeq (RxCls is_digit) (RxStar (RxCls is_digit))"

definition imageTagPattern :: rx where
  "imageTagPattern = rx_seq [rx_lit (CHR ''v''), rx_digits, rx_lit (CHR ''.''), rx_digits, rx_lit (CHR ''.''), rx_digits]"

definition isImageDigest :: "string \<Rightarrow> bool" where
  "isImageDigest s \<longleftrightarrow> HasPrefix s ''sha256:'' \<and> length s = 71 \<and> list_all is_lower_hex (drop 7 s)"

definition validateHostImagePin ::
  "(string \<Rightarrow> hostMatrix result) \<Rightarrow> (string \<Rightarrow> deployedImage result) \<Rightarrow> releaseFS \<Rightarrow> string \<Rightarrow> unit result" where
  "validateHostImagePin decodeMatrix decodeDeployed fs root =
     (let github = joinPath root ''.github'' in
     bindR (wrapR ''read host image matrix'' (readFile fs (joinPath github ''host-images.json''))) (\<lambda>matrixRaw.
     bindR (wrapR ''parse host image matrix'' (decodeMatrix matrixRaw)) (\<lambda>m.
     if hm_Repository m \<noteq> hostImageRepository \<or> hm_Platform m \<noteq> ''linux/amd64'' \<or>
        hm_BaselineTag m \<noteq> baselineHostImageTag \<or> hm_BaselineDigest m \<noteq> baselineHostImageAMD64Digest
     then Inl (Msg ''host image matrix does not preserve the approved v7.2.150 linux/amd64 baseline'')
     else
       bindR (wrapR ''read deployed host image pin'' (readFile fs (joinPath root ''deploy/deployed-host-image.json''))) (\<lambda>deployedRaw.
       bindR (wrapR ''parse deployed host image pin'' (decodeDeployed deployedRaw)) (\<lambda>d.
       if di_Repository d \<noteq> hostImageRepository \<or> di_Platform d \<noteq> ''linux/amd64'' \<or>
          \<not> rx_match imageTagPattern (di_Tag d) \<or> \<not> isImageDigest (di_ManifestDigest d)
       then Inl (Msg ''deployed host image pin is invalid'')
       else requireAll fs [joinPath github ''scripts/resolve-host-images.sh'', joinPath github ''scripts/run-host-matrix.sh'',
                           joinPath github ''workflows/host-compatibility.yml''])))))"

section \<open>Artifacts\<close>

definition readersEqual :: "golib \<Rightarrow> string result \<Rightarrow> string result \<Rightarrow> bool result" where
  "readersEqual lib left right =
     bindR left (\<lambda>l. bindR right (\<lambda>r. Inr (lib_sha256hex lib l = lib_sha256hex lib r)))"

definition validateArchive :: "golib \<Rightarrow> releaseFS \<Rightarrow> string \<Rightarrow> string \<Rightarrow> unit result" where
  "validateArchive lib fs libraryPath archivePath =
     bindR (wrapR ''open archive'' (fs_zip fs archivePath)) (\<lambda>files.
     if length files \<noteq> 1 \<or> ze_Name (hd files) \<noteq> libraryName
     then Inl (Msg (''archive entries, want exactly '' @ libraryName))
     else
       bindR (wrapR ''open archive entry'' (ze_Open (hd files))) (\<lambda>entry.
       bindR (wrapR ''open library'' (fs_open fs libraryPath)) (\<lambda>library.
       bindR (wrapR ''compare archive library'' (readersEqual lib library entry)) (\<lambda>equal.
       if \<not> equal then Inl (Msg ''archive library does not match versioned shared library'') else Inr ()))))"

definition operatorFiles :: "(string \<times> int) list" where
  "operatorFiles =
     [(''compatibility-evidence.json'', 420), (''config.yaml.tmpl'', 420), (''registry.json'', 420),
      (''router-capacity-source.json'', 420), (''verify-live.sh'', 493), (''verify-live-opencodego.sh'', 493),
      (''collector-zai.py'', 493), (''collector-opencodego.py'', 493), (''prepare-usage-dir.py'', 493),
      (''remove-usage-output.py'', 493), (''rollback.sh'', 493), (''README.md'', 420), (''release-sha.txt'', 420)]"

definition unsafeEntry :: "zipEntry \<Rightarrow> bool" where
  "unsafeEntry z \<longleftrightarrow> ze_Name z = [] \<or> pathBase (ze_Name z) \<noteq> ze_Name z \<or> Contains (ze_Name z) ''..'' \<or> ze_IsDir z \<or> ze_IsSymlink z"

definition unresolvedPlaceholder :: "string \<Rightarrow> bool" where
  "unresolvedPlaceholder raw \<longleftrightarrow> Contains raw ''${RELEASE_SHA}'' \<or> Contains raw ''${REGISTRY_SHA256}''"

definition validateBundleEntry :: "golib \<Rightarrow> releaseFS \<Rightarrow> string \<Rightarrow> string list \<Rightarrow> zipEntry \<Rightarrow> unit result" where
  "validateBundleEntry lib fs distPath seen z =
     (let name = ze_Name z; stagedPath = joinPath distPath name in
      if unsafeEntry z then Inl (Msg ''operator bundle contains unsafe entry'')
      else case mget operatorFiles name of
        None \<Rightarrow> Inl (Msg ''operator bundle contains unexpected entry'')
      | Some mode \<Rightarrow>
          if name \<in> set seen then Inl (Msg ''operator bundle contains duplicate entry'')
          else if ze_Perm z \<noteq> mode then Inl (Msg (''operator bundle entry '' @ name @ '' has a wrong mode''))
          else
            bindR (requireNonEmpty fs stagedPath) (\<lambda>_.
            bindR (wrapR (''open operator bundle entry '' @ name) (ze_Open z)) (\<lambda>entryReader.
            bindR (wrapR (''open staged operator artifact '' @ name) (fs_open fs stagedPath)) (\<lambda>staged.
            bindR (wrapR (''compare operator bundle entry '' @ name) (readersEqual lib entryReader staged)) (\<lambda>equal.
            if ze_CloseErr z \<noteq> None \<or> fs_closeErr fs stagedPath \<noteq> None
            then Inl (Msg (''close operator bundle entry '' @ name))
            else if \<not> equal then Inl (Msg (''operator bundle entry '' @ name @ '' does not match staged artifact''))
            else if name = ''config.yaml.tmpl'' \<or> name = ''README.md'' then
              bindR (wrapR (''read staged operator artifact '' @ name) (readFile fs stagedPath)) (\<lambda>raw.
              if unresolvedPlaceholder raw
              then Inl (Msg (''operator bundle entry '' @ name @ '' contains unresolved release placeholders'')) else Inr ())
            else Inr ())))))"

fun validateBundleEntries :: "golib \<Rightarrow> releaseFS \<Rightarrow> string \<Rightarrow> string list \<Rightarrow> zipEntry list \<Rightarrow> string list result" where
  "validateBundleEntries lib fs distPath seen [] = Inr seen"
| "validateBundleEntries lib fs distPath seen (z # zs) =
     bindR (validateBundleEntry lib fs distPath seen z) (\<lambda>_. validateBundleEntries lib fs distPath (ze_Name z # seen) zs)"

definition operatorName :: "string \<Rightarrow> string" where
  "operatorName version = toolPluginID @ ''-v'' @ version @ ''-operator.zip''"

definition validateOperatorBundle :: "golib \<Rightarrow> releaseFS \<Rightarrow> string \<Rightarrow> string \<Rightarrow> string \<Rightarrow> unit result" where
  "validateOperatorBundle lib fs root distPath version =
     (let bundle = joinPath distPath (operatorName version) in
     bindR (wrapR ''operator bundle is required'' (fs_stat fs bundle)) (\<lambda>_.
     bindR (wrapR ''open operator bundle'' (fs_zip fs bundle)) (\<lambda>files.
     bindR (validateBundleEntries lib fs distPath [] files) (\<lambda>seen.
     if length seen \<noteq> length operatorFiles
     then Inl (Msg (''operator bundle contains '' @ Itoa (int (length seen)) @ '' entries''))
     else if list_ex (\<lambda>(name, mode). name \<notin> set seen) operatorFiles then Inl (Msg ''operator bundle is missing an entry'')
     else
       bindR (wrapR ''read staged registry'' (readFile fs (joinPath distPath ''registry.json''))) (\<lambda>registryRaw.
       bindR (wrapR ''read source registry'' (readFile fs (joinPath root ''registry.json''))) (\<lambda>sourceRegistry.
       if registryRaw \<noteq> sourceRegistry then Inl (Msg ''staged registry.json does not match reviewed source'') else Inr ()))))))"

definition validateReleaseSHA :: "releaseFS \<Rightarrow> string \<Rightarrow> unit result" where
  "validateReleaseSHA fs path =
     bindR (wrapR ''read release SHA'' (readFile fs path)) (\<lambda>raw.
     let v = TrimSuffix raw NL
     in if length v \<noteq> 40 \<or> \<not> list_all is_lower_hex v \<or> raw \<noteq> v @ NL
        then Inl (Msg ''release-sha.txt must contain exactly one lowercase 40-character commit SHA'') else Inr ())"

section \<open>Checksums\<close>

text \<open>
  The lines of a \<open>bufio.Scanner\<close>: without their line break and a carriage return before it,
  and none after a final line break. A line of \<open>bufio.MaxScanTokenSize\<close> bytes ends the scan
  with an error, the flag.
\<close>

definition maxScanToken :: nat where "maxScanToken = 65536"

definition scanLines :: "string \<Rightarrow> string list \<times> bool" where
  "scanLines text =
     (let parts = splitOn (CHR 0x0A) text;
          raws = (if last parts = [] then butlast parts else parts);
          short = takeWhile (\<lambda>l. length l < maxScanToken) raws
      in (map (\<lambda>l. TrimSuffix l CR) short, length short \<noteq> length raws))"

definition checksumLine :: "(string, string) gomap \<Rightarrow> string \<Rightarrow> (string, string) gomap result" where
  "checksumLine checksums line =
     (case Fields line of
        [digest, entry] \<Rightarrow>
          if length digest \<noteq> 64 then Inl (Msg ''invalid checksum line'')
          else if \<not> hexDecodes digest then Inl (Msg (''invalid checksum for '' @ entry))
          else
            let name = (if HasPrefix entry ''*'' then drop 1 entry else entry)
            in if pathBase name \<noteq> name then Inl (Msg ''checksum name must be a base filename'')
               else if mget checksums name \<noteq> None then Inl (Msg (''duplicate checksum for '' @ name))
               else Inr (mput name (ToLower digest) checksums)
      | _ \<Rightarrow> Inl (Msg ''invalid checksum line''))"

fun checksumLines :: "(string, string) gomap \<Rightarrow> string list \<Rightarrow> (string, string) gomap result" where
  "checksumLines checksums [] = Inr checksums"
| "checksumLines checksums (line # rest) = bindR (checksumLine checksums line) (\<lambda>cs. checksumLines cs rest)"

definition fileSHA256 :: "golib \<Rightarrow> releaseFS \<Rightarrow> string \<Rightarrow> string result" where
  "fileSHA256 lib fs path =
     bindR (wrapR (''open '' @ pathBase path @ '' for checksum'') (fs_open fs path)) (\<lambda>file.
     bindR (wrapR (''checksum '' @ pathBase path) file) (\<lambda>bytes. Inr (lib_sha256hex lib bytes)))"

fun checkArtifacts :: "golib \<Rightarrow> releaseFS \<Rightarrow> (string, string) gomap \<Rightarrow> string list \<Rightarrow> unit result" where
  "checkArtifacts lib fs checksums [] = Inr ()"
| "checkArtifacts lib fs checksums (path # paths) =
     (case mget checksums (pathBase path) of
        None \<Rightarrow> Inl (Msg (''checksums missing '' @ pathBase path))
      | Some want \<Rightarrow>
          bindR (fileSHA256 lib fs path) (\<lambda>got.
          if got \<noteq> want then Inl (Msg (''checksum mismatch for '' @ pathBase path)) else checkArtifacts lib fs checksums paths))"

definition validateChecksums :: "golib \<Rightarrow> releaseFS \<Rightarrow> string \<Rightarrow> string list \<Rightarrow> unit result" where
  "validateChecksums lib fs path artifactPaths =
     bindR (wrapR ''open checksums'' (fs_open fs path)) (\<lambda>file.
     bindR (wrapR ''read checksums'' file) (\<lambda>text.
     let (scanned, tooLong) = scanLines text in
     bindR (checksumLines [] scanned) (\<lambda>checksums.
     if tooLong then Inl (Wrapped ''read checksums'' (Msg ''bufio.Scanner: token too long''))
     else if length checksums \<noteq> length artifactPaths
     then Inl (Msg (''checksums contains '' @ Itoa (int (length checksums)) @ '' entries, want '' @ Itoa (int (length artifactPaths))))
     else checkArtifacts lib fs checksums artifactPaths)))"

section \<open>A release\<close>

definition resolvePath :: "string \<Rightarrow> string \<Rightarrow> string" where
  "resolvePath root path = (if IsAbs path then path else joinPath root path)"

definition libraryFile :: "string \<Rightarrow> string" where
  "libraryFile version = toolPluginID @ ''-v'' @ version @ ''.so''"

definition releaseArtifacts :: "string \<Rightarrow> string list" where
  "releaseArtifacts version =
     [libraryFile version, archiveName version, operatorName version,
      ''compatibility-evidence.json'', ''config.yaml.tmpl'', ''registry.json'', ''router-capacity-source.json'',
      ''verify-live.sh'', ''verify-live-opencodego.sh'', ''collector-zai.py'', ''collector-opencodego.py'',
      ''prepare-usage-dir.py'', ''remove-usage-output.py'', ''rollback.sh'', ''README.md'', ''release-sha.txt'']"

definition validateRelease ::
  "golib \<Rightarrow> (string \<Rightarrow> registryPlugin list result) \<Rightarrow> releaseFS \<Rightarrow> string \<Rightarrow> string \<Rightarrow> string \<Rightarrow> string \<Rightarrow> unit result" where
  "validateRelease lib decode fs root dist tag version =
     bindR (validateVersion tag version) (\<lambda>_.
     bindR (validateDocumentation fs root) (\<lambda>_.
     bindR (validateRegistry decode fs root version) (\<lambda>_.
     bindR (validateChangelog fs root version) (\<lambda>_.
     let distPath = resolvePath root dist;
         artifactPaths = map (joinPath distPath) (releaseArtifacts version)
     in bindR (requireAll fs artifactPaths) (\<lambda>_.
        bindR (validateArchive lib fs (joinPath distPath (libraryFile version)) (joinPath distPath (archiveName version))) (\<lambda>_.
        bindR (validateOperatorBundle lib fs root distPath version) (\<lambda>_.
        bindR (validateReleaseSHA fs (joinPath distPath ''release-sha.txt'')) (\<lambda>_.
          validateChecksums lib fs (joinPath distPath ''checksums.txt'') artifactPaths))))))))"

section \<open>Packaging\<close>

record artifact =
  at_name :: string
  at_path :: string

text \<open>The scan stops at the first bad line; \<open>strings.Cut\<close> is at the first equality sign.\<close>

definition manifestLine :: "artifact list \<Rightarrow> string \<Rightarrow> artifact list result" where
  "manifestLine artifacts line =
     (let name = takeWhile (\<lambda>c. c \<noteq> CHR ''='') line; path = drop (Suc (length name)) line in
      if line = [] \<or> TrimSpace line \<noteq> line \<or> HasPrefix line ''#'' then Inl (Msg ''invalid manifest line'')
      else if CHR ''='' \<notin> set line \<or> name = [] \<or> path = [] \<or> pathBase name \<noteq> name then Inl (Msg ''invalid manifest line'')
      else if list_ex (\<lambda>a. at_name a = name) artifacts then Inl (Msg ''duplicate manifest entry'')
      else Inr (artifacts @ [\<lparr>at_name = name, at_path = path\<rparr>]))"

fun manifestLines :: "artifact list \<Rightarrow> string list \<Rightarrow> artifact list result" where
  "manifestLines artifacts [] = Inr artifacts"
| "manifestLines artifacts (line # rest) = bindR (manifestLine artifacts line) (\<lambda>a. manifestLines a rest)"

definition readManifest :: "releaseFS \<Rightarrow> string \<Rightarrow> artifact list result" where
  "readManifest fs path =
     bindR (fs_open fs path) (\<lambda>file.
     bindR file (\<lambda>text.
     let (scanned, tooLong) = scanLines text in
     bindR (manifestLines [] scanned) (\<lambda>artifacts.
     if tooLong then Inl (Msg ''bufio.Scanner: token too long'')
     else if artifacts = [] then Inl (Msg ''manifest is empty'') else Inr artifacts)))"

text \<open>What the system calls and the zip encoder of the packager may report besides the files.\<close>

record zipCalls =
  zc_MkdirAll :: "string \<Rightarrow> go_error option"
  zc_Create :: "string \<Rightarrow> go_error option"
  zc_CreateHeader :: "string \<Rightarrow> go_error option"
  zc_CloseWriter :: "go_error option"
  zc_CloseArchive :: "go_error option"
  zc_ReadBack :: "string \<Rightarrow> go_error option"
  zc_WriteFile :: "string \<Rightarrow> go_error option"
  zc_CreatePerm :: int
  zc_encode :: "zipEntry list \<Rightarrow> string"

definition tryR :: "string \<Rightarrow> go_error option \<Rightarrow> 'a result \<Rightarrow> 'a result" where
  "tryR text err r = (case err of Some e \<Rightarrow> Inl (Wrapped text e) | None \<Rightarrow> r)"

fun zipEntries :: "zipCalls \<Rightarrow> releaseFS \<Rightarrow> artifact list \<Rightarrow> zipEntry list result" where
  "zipEntries zc fs [] = Inr []"
| "zipEntries zc fs (item # items) =
     (if pathBase (at_name item) \<noteq> at_name item then Inl (Msg ''zip entry must be a root-level filename'')
      else
        bindR (wrapR (''stat '' @ at_name item) (fs_stat fs (at_path item))) (\<lambda>info.
        if \<not> sf_IsRegular info \<or> sf_Size info = 0
        then Inl (Msg (''zip entry '' @ at_name item @ '' is empty or not a regular file''))
        else
          bindR (wrapR (''open '' @ at_name item) (fs_open fs (at_path item))) (\<lambda>source.
          tryR (''create zip entry '' @ at_name item) (zc_CreateHeader zc (at_name item))
          (bindR (wrapR (''copy '' @ at_name item) source) (\<lambda>bytes.
           tryR (''close '' @ at_name item) (fs_closeErr fs (at_path item))
           (bindR (zipEntries zc fs items) (\<lambda>rest.
            Inr (\<lparr>ze_Name = at_name item, ze_IsDir = False, ze_IsSymlink = False, ze_Perm = sf_Perm info,
                  ze_Open = Inr (Inr bytes), ze_CloseErr = None\<rparr> # rest))))))))"

text \<open>The result of \<open>writeZip\<close> is the entries of the archive it leaves.\<close>

definition writeZip :: "zipCalls \<Rightarrow> releaseFS \<Rightarrow> string \<Rightarrow> artifact list \<Rightarrow> zipEntry list result" where
  "writeZip zc fs archivePath entries =
     tryR ''create archive directory'' (zc_MkdirAll zc (pathString (pathDir (cleanPath archivePath))))
     (tryR ''create archive'' (zc_Create zc archivePath)
     (bindR (zipEntries zc fs entries) (\<lambda>written.
      tryR ''close zip writer'' (zc_CloseWriter zc)
      (tryR ''close archive'' (zc_CloseArchive zc) (Inr written)))))"

definition packageLibrary :: "zipCalls \<Rightarrow> releaseFS \<Rightarrow> string \<Rightarrow> string \<Rightarrow> string \<Rightarrow> zipEntry list result" where
  "packageLibrary zc fs libraryPath entryName archivePath =
     bindR (writeZip zc fs archivePath [\<lparr>at_name = entryName, at_path = libraryPath\<rparr>]) (\<lambda>written.
     tryR ''read archive'' (zc_ReadBack zc archivePath) (Inr written))"

definition packageOperator :: "zipCalls \<Rightarrow> releaseFS \<Rightarrow> artifact list \<Rightarrow> string \<Rightarrow> zipEntry list result" where
  "packageOperator zc fs entries archivePath = writeZip zc fs archivePath entries"

fun checkNames :: "string list \<Rightarrow> artifact list \<Rightarrow> unit result" where
  "checkNames seen [] = Inr ()"
| "checkNames seen (item # items) =
     (if pathBase (at_name item) \<noteq> at_name item then Inl (Msg ''checksum name must be a base filename'')
      else if at_name item \<in> set seen then Inl (Msg ''duplicate checksum artifact'')
      else checkNames (at_name item # seen) items)"

fun checksumText :: "golib \<Rightarrow> releaseFS \<Rightarrow> artifact list \<Rightarrow> string result" where
  "checksumText lib fs [] = Inr []"
| "checksumText lib fs (item # items) =
     bindR (wrapR (''open '' @ at_name item @ '' for checksum'') (fs_open fs (at_path item))) (\<lambda>file.
     bindR (wrapR (''checksum '' @ at_name item) file) (\<lambda>bytes.
     case fs_closeErr fs (at_path item) of
       Some err \<Rightarrow> Inl (Wrapped (''close '' @ at_name item) err)
     | None \<Rightarrow>
         bindR (checksumText lib fs items) (\<lambda>rest.
         Inr (lib_sha256hex lib bytes @ ''  '' @ at_name item @ NL @ rest))))"

text \<open>The result is the text of the checksum file.\<close>

definition writeChecksums :: "zipCalls \<Rightarrow> golib \<Rightarrow> releaseFS \<Rightarrow> string \<Rightarrow> artifact list \<Rightarrow> string result" where
  "writeChecksums zc lib fs path artifacts =
     bindR (checkNames [] artifacts) (\<lambda>_.
     bindR (checksumText lib fs (sort_key at_name artifacts)) (\<lambda>checksums.
     tryR ''write checksum'' (zc_WriteFile zc path) (Inr checksums)))"

text \<open>What is read later from a file that the packager wrote.\<close>

definition withFile :: "zipCalls \<Rightarrow> string \<Rightarrow> string \<Rightarrow> releaseFS \<Rightarrow> releaseFS" where
  "withFile zc path bytes fs =
     fs\<lparr>fs_open := (fs_open fs)(path := Inr (Inr bytes)), fs_closeErr := (fs_closeErr fs)(path := None),
        fs_stat := (fs_stat fs)(path := Inr \<lparr>sf_IsRegular = True, sf_Size = int (length bytes), sf_Perm = zc_CreatePerm zc\<rparr>)\<rparr>"

definition withArchive :: "zipCalls \<Rightarrow> string \<Rightarrow> zipEntry list \<Rightarrow> releaseFS \<Rightarrow> releaseFS" where
  "withArchive zc path entries fs =
     (withFile zc path (zc_encode zc entries) fs)\<lparr>fs_zip := (fs_zip fs)(path := Inr entries)\<rparr>"

record packageOptions =
  po_library :: string
  po_entry :: string
  po_archive :: string
  po_operator :: string
  po_operatorManifest :: string
  po_checksum :: string
  po_checksumManifest :: string

definition outputArtifacts :: "packageOptions \<Rightarrow> artifact list" where
  "outputArtifacts opt = map (\<lambda>p. \<lparr>at_name = pathBase p, at_path = p\<rparr>) [po_library opt, po_archive opt, po_operator opt]"

text \<open>The command after its flags are read; the result is the directory tree it leaves.\<close>

definition packageMain :: "zipCalls \<Rightarrow> golib \<Rightarrow> releaseFS \<Rightarrow> packageOptions \<Rightarrow> releaseFS result" where
  "packageMain zc lib fs opt =
     (if [] \<in> set [po_library opt, po_entry opt, po_archive opt, po_operator opt, po_operatorManifest opt, po_checksum opt, po_checksumManifest opt]
      then Inl (Msg ''library, entry, archive, operator, operator-manifest, checksum, and checksum-manifest are required'')
      else if pathBase (po_entry opt) \<noteq> po_entry opt then Inl (Msg ''entry must be a root-level filename'')
      else
        bindR (packageLibrary zc fs (po_library opt) (po_entry opt) (po_archive opt)) (\<lambda>libraryEntries.
        let fs1 = withArchive zc (po_archive opt) libraryEntries fs in
        bindR (wrapR ''read operator manifest'' (readManifest fs1 (po_operatorManifest opt))) (\<lambda>operatorEntries.
        bindR (packageOperator zc fs1 operatorEntries (po_operator opt)) (\<lambda>bundle.
        let fs2 = withArchive zc (po_operator opt) bundle fs1 in
        bindR (wrapR ''read checksum manifest'' (readManifest fs2 (po_checksumManifest opt))) (\<lambda>checksumEntries.
        bindR (writeChecksums zc lib fs2 (po_checksum opt) (checksumEntries @ outputArtifacts opt)) (\<lambda>checksums.
        Inr (withFile zc (po_checksum opt) checksums fs2)))))))"

end
