(* ===== verification/Workflow.thy ===== *)
theory Workflow
  imports Release
begin

text \<open>
  The checks of the repository's GitHub workflows, \<^verbatim>\<open>workflow.go\<close> and the workflow part of
  \<^verbatim>\<open>main.go\<close> in \<^verbatim>\<open>.github/scripts/release-validation\<close>. The YAML parser is an
  argument: it returns the node tree, and \<open>ZeroNode\<close> is the node it leaves untouched for an
  empty text. A pointer to a node is an option. Messages leave out the value of a \<open>%q\<close>.
\<close>

section \<open>YAML nodes\<close>

datatype yamlKind = ZeroNode | DocumentNode | SequenceNode | MappingNode | ScalarNode | AliasNode

text \<open>\<open>yn_Literal\<close> says whether the style of the node is \<open>yaml.LiteralStyle\<close>.\<close>

datatype yamlNode =
  YamlNode (yn_Kind: yamlKind) (yn_Tag: string) (yn_Value: string) (yn_Literal: bool) (yn_Line: int)
    (yn_Content: "yamlNode list")

type_synonym yamlMap = "(string, yamlNode) gomap"
type_synonym yamlParser = "string \<Rightarrow> yamlNode result"

fun mappingPairs :: "string \<Rightarrow> yamlMap \<Rightarrow> yamlNode list \<Rightarrow> yamlMap result" where
  "mappingPairs ctx acc (key # value # rest) =
     (if yn_Kind key \<noteq> ScalarNode \<or> yn_Tag key \<noteq> ''!!str'' \<or> yn_Value key = []
      then Inl (Msg (ctx @ '' contains a non-string key at line '' @ Itoa (yn_Line key)))
      else if mget acc (yn_Value key) \<noteq> None then Inl (Msg (ctx @ '' contains duplicate key''))
      else mappingPairs ctx (mput (yn_Value key) value acc) rest)"
| "mappingPairs ctx acc rest = Inr acc"

definition yamlMappingNode :: "string \<Rightarrow> yamlNode \<Rightarrow> yamlMap result" where
  "yamlMappingNode ctx node =
     (if yn_Kind node = AliasNode then Inl (Msg (ctx @ '' cannot use YAML aliases''))
      else if yn_Kind node \<noteq> MappingNode then Inl (Msg (ctx @ '' must be a mapping''))
      else mappingPairs ctx [] (yn_Content node))"

definition yamlMapping :: "yamlNode option \<Rightarrow> string \<Rightarrow> yamlMap result" where
  "yamlMapping p ctx =
     (case p of
        None \<Rightarrow> Inl (Msg (ctx @ '' is missing''))
      | Some node \<Rightarrow>
          if yn_Kind node = DocumentNode then
            (case yn_Content node of
               [inner] \<Rightarrow> yamlMappingNode ctx inner
             | _ \<Rightarrow> Inl (Msg (ctx @ '' is not a single document'')))
          else yamlMappingNode ctx node)"

fun stringValues :: "string \<Rightarrow> yamlNode list \<Rightarrow> string list result" where
  "stringValues ctx [] = Inr []"
| "stringValues ctx (v # vs) =
     (if yn_Kind v \<noteq> ScalarNode \<or> yn_Tag v \<noteq> ''!!str'' then Inl (Msg (ctx @ '' values must be strings''))
      else bindR (stringValues ctx vs) (\<lambda>rest. Inr (yn_Value v # rest)))"

definition yamlStringSequence :: "yamlNode option \<Rightarrow> string \<Rightarrow> string list result" where
  "yamlStringSequence p ctx =
     (case p of
        None \<Rightarrow> Inl (Msg (ctx @ '' must be a sequence''))
      | Some node \<Rightarrow>
          if yn_Kind node \<noteq> SequenceNode then Inl (Msg (ctx @ '' must be a sequence''))
          else stringValues ctx (yn_Content node))"

definition yamlStringMap :: "yamlNode option \<Rightarrow> string \<Rightarrow> (string, string) gomap result" where
  "yamlStringMap p ctx =
     (if p = None then Inr []
      else bindR (yamlMapping p ctx) (\<lambda>mapping.
        if \<exists>(k, v) \<in> set mapping. yn_Kind v \<noteq> ScalarNode then Inl (Msg (ctx @ '' value must be a scalar''))
        else Inr (map (\<lambda>(k, v). (k, yn_Value v)) mapping)))"

definition yamlScalarValue :: "yamlNode option \<Rightarrow> string" where
  "yamlScalarValue p = (case p of None \<Rightarrow> [] | Some node \<Rightarrow> if yn_Kind node \<noteq> ScalarNode then [] else yn_Value node)"

definition requireOnlyYAMLKeys :: "yamlMap \<Rightarrow> string \<Rightarrow> string list \<Rightarrow> unit result" where
  "requireOnlyYAMLKeys mapping ctx allowed =
     guardR (\<forall>(k, v) \<in> set mapping. k \<in> set allowed) (ctx @ '' contains unapproved key'')"

definition equalStringMaps :: "(string, string) gomap \<Rightarrow> (string, string) gomap \<Rightarrow> bool" where
  "equalStringMaps actual expected \<longleftrightarrow>
     length actual = length expected \<and> (\<forall>(k, v) \<in> set expected. mget_or [] actual k = v)"

definition normalizeShellCommand :: "string \<Rightarrow> string" where
  "normalizeShellCommand value = Join (Fields value) '' ''"

definition requireCanonicalRunScalar :: "string \<Rightarrow> yamlNode option \<Rightarrow> string \<Rightarrow> unit result" where
  "requireCanonicalRunScalar raw p ctx =
     (case p of
        None \<Rightarrow> Inl (Msg (ctx @ '' run command must use literal block style''))
      | Some node \<Rightarrow>
          let lineStart = yn_Line node - 1; rawLines = splitOn (CHR 0x0A) raw in
          if yn_Kind node \<noteq> ScalarNode \<or> yn_Tag node \<noteq> ''!!str'' \<or> \<not> yn_Literal node
          then Inl (Msg (ctx @ '' run command must use literal block style''))
          else if lineStart < 0 then Inl (Msg (ctx @ '' run command has an invalid source position''))
          else if int (length rawLines) \<le> lineStart then Inl (Msg (ctx @ '' run command has an invalid source position''))
          else if TrimSpace (rawLines ! nat lineStart) \<noteq> ''run: |'' then Inl (Msg (ctx @ '' run command must use exactly run: |''))
          else Inr ())"

section \<open>Pinned actions\<close>

fun collectWorkflowUses :: "yamlNode \<Rightarrow> yamlNode list" and collectPairs :: "yamlNode list \<Rightarrow> yamlNode list"
  and collectAll :: "yamlNode list \<Rightarrow> yamlNode list" where
  "collectWorkflowUses (YamlNode kind tag value literal line content) =
     (if kind = MappingNode then collectPairs content else collectAll content)"
| "collectPairs (key # value # rest) =
     (if yn_Kind key \<noteq> ScalarNode then [key] else if yn_Value key = ''uses'' then [value] else []) @
     collectWorkflowUses value @ collectPairs rest"
| "collectPairs rest = []"
| "collectAll [] = []"
| "collectAll (child # rest) = collectWorkflowUses child @ collectAll rest"

definition isPinned :: "string \<Rightarrow> bool" where
  "isPinned s \<longleftrightarrow> length s = 40 \<and> list_all is_lower_hex s"

definition checkUse :: "string \<Rightarrow> yamlNode \<Rightarrow> unit result" where
  "checkUse path node =
     (let place = ''workflow '' @ pathBase path @ '':'' @ Itoa (yn_Line node);
          value = TrimSpace (yn_Value node) in
      if yn_Kind node \<noteq> ScalarNode
      then Inl (Msg (place @ '' action uses must be a scalar and cannot use YAML aliases''))
      else if HasPrefix value ''./'' then Inr ()
      else case splitOn (CHR 0x40) value of
             [name, ref] \<Rightarrow>
               if isPinned ref then Inr () else Inl (Msg (place @ '' action is not pinned to a full commit SHA''))
           | _ \<Rightarrow> Inl (Msg (place @ '' action is not pinned to a full commit SHA'')))"

fun checkUses :: "string \<Rightarrow> yamlNode list \<Rightarrow> unit result" where
  "checkUses path [] = Inr ()"
| "checkUses path (node # nodes) = bindR (checkUse path node) (\<lambda>_. checkUses path nodes)"

fun checkWorkflows :: "yamlParser \<Rightarrow> releaseFS \<Rightarrow> string list \<Rightarrow> unit result" where
  "checkWorkflows parse fs [] = Inr ()"
| "checkWorkflows parse fs (path # paths) =
     bindR (wrapR (''read workflow '' @ pathBase path) (readFile fs path)) (\<lambda>raw.
     bindR (wrapR (''parse workflow '' @ pathBase path) (parse raw)) (\<lambda>document.
     bindR (checkUses path (collectWorkflowUses document)) (\<lambda>_. checkWorkflows parse fs paths)))"

definition workflowPath :: "string \<Rightarrow> string \<Rightarrow> string" where
  "workflowPath root name = joinPath (joinPath (joinPath root ''.github'') ''workflows'') name"

definition validateWorkflowActionPins :: "yamlParser \<Rightarrow> releaseFS \<Rightarrow> string \<Rightarrow> unit result" where
  "validateWorkflowActionPins parse fs root =
     bindR (wrapR ''list workflows'' (fs_glob fs (workflowPath root ''*.yml''))) (\<lambda>yml.
     bindR (wrapR ''list workflows'' (fs_glob fs (workflowPath root ''*.yaml''))) (\<lambda>yaml.
     if yml @ yaml = [] then Inl (Msg ''no GitHub workflows found'') else checkWorkflows parse fs (yml @ yaml)))"

section \<open>The release workflow\<close>

record canonicalRunStep =
  cs_name :: string
  cs_id :: string
  cs_workingDirectory :: string
  cs_env :: "(string, string) gomap"
  cs_command :: string

text \<open>A raw string of the source over several lines, all but the first indented with tabs.\<close>

definition scriptText :: "nat \<Rightarrow> string list \<Rightarrow> string" where
  "scriptText tabs ls = Join ls (NL @ replicate tabs (CHR 0x09))"

definition command2 :: string where
  \<open>command2 = scriptText 3
     [''set -euo pipefail'',
      ''go test ./.github/scripts/release-validation'',
      ''go run -buildvcs=false ./.github/scripts/release-validation -mode source'',
      ''.github/scripts/select-release-tag_test.sh'']\<close>

definition command3 :: string where
  \<open>command3 = scriptText 3
     [''set -euo pipefail'',
      ''raw_tag=$(.github/scripts/select-release-tag.sh '' @ [CHR 0x5C],
      ''  "$EVENT_NAME" "$EVENT_REF" "$EVENT_SHA" .)'',
      ''tag_object=$(git rev-parse "$raw_tag")'',
      ''printf '' @ [CHR 0x27] @ ''tag=%s'' @ [CHR 0x5C] @ ''n'' @ [CHR 0x27] @ '' "$raw_tag" >> "$GITHUB_OUTPUT"'',
      ''printf '' @ [CHR 0x27] @ ''tag_object=%s'' @ [CHR 0x5C] @ ''n'' @ [CHR 0x27] @ '' "$tag_object" >> "$GITHUB_OUTPUT"'']\<close>

definition command5 :: string where
  \<open>command5 = scriptText 3
     [''set -euo pipefail'',
      ''version=$(go run -buildvcs=false ./.github/scripts/release-validation -mode version -tag "$RAW_TAG")'',
      ''test "$(git rev-parse "$RAW_TAG")" = "$EXPECTED_TAG_OBJECT"'',
      ''release_sha=$(git rev-parse "$RAW_TAG^{commit}")'',
      ''test "$(git rev-parse HEAD)" = "$release_sha"'',
      ''git fetch --no-tags origin main'',
      ''git merge-base --is-ancestor "$release_sha" origin/main'',
      ''printf '' @ [CHR 0x27] @ ''version=%s'' @ [CHR 0x5C] @ ''n'' @ [CHR 0x27] @ '' "$version" >> "$GITHUB_OUTPUT"'',
      ''printf '' @ [CHR 0x27] @ ''release_sha=%s'' @ [CHR 0x5C] @ ''n'' @ [CHR 0x27] @ '' "$release_sha" >> "$GITHUB_OUTPUT"'']\<close>

definition command6 :: string where
  \<open>command6 = scriptText 3
     [''make fmt-check'',
      ''make vet'',
      ''make test'',
      ''make test-release'',
      ''make validate-source'',
      ''make scan-secrets'']\<close>

definition command8 :: string where
  \<open>command8 = scriptText 3
     [''set -euo pipefail'',
      ''.github/scripts/resolve-host-images.sh > "$RUNNER_TEMP/host-images.json"'']\<close>

definition command9 :: string where
  \<open>command9 = scriptText 3
     [''set -euo pipefail'',
      ''library="dist/subscription-pool-v${VERSION}.so"'',
      ''archive="dist/subscription-pool_${VERSION}_linux_amd64.zip"'',
      ''make package VERSION="$VERSION" OUT="$library" ARCHIVE="$archive" '' @ [CHR 0x5C],
      ''  OPERATOR="dist/subscription-pool-v${VERSION}-operator.zip" '' @ [CHR 0x5C],
      ''  RELEASE_SHA="$(git rev-parse "$RAW_TAG^{commit}")" '' @ [CHR 0x5C],
      ''  COMPATIBILITY_EVIDENCE="$RUNNER_TEMP/host-images.json"'']\<close>

definition command10 :: string where
  \<open>command10 = scriptText 3
     [''set -euo pipefail'',
      ''library="dist/subscription-pool-v${VERSION}.so"'',
      ''archive="dist/subscription-pool_${VERSION}_linux_amd64.zip"'',
      ''nm -D "$library" | grep -Eq '' @ [CHR 0x27] @ [CHR 0x5B] @ ''[:space:]]cliproxy_plugin_init$'' @ [CHR 0x27],
      ''test "$(unzip -Z1 "$archive")" = "subscription-pool.so"'',
      ''cmp "$library" <(unzip -p "$archive" subscription-pool.so)'',
      ''go run -buildvcs=false ./.github/scripts/release-validation '' @ [CHR 0x5C],
      ''  -mode release -version "$VERSION" -tag "$RAW_TAG"'']\<close>

definition command11 :: string where
  \<open>command11 = scriptText 3
     [''set -euo pipefail'',
      ''sudo --preserve-env=VERSION,HOST_MATRIX_NAMESPACE make test-host-matrix VERSION="$VERSION" OUT="dist/subscription-pool-v${VERSION}.so" HOST_IMAGES="$RUNNER_TEMP/host-images.json" HOST_MATRIX_WORK="$RUNNER_TEMP/host-matrix"'']\<close>

definition command12 :: string where
  \<open>command12 = scriptText 3
     [''set -euo pipefail'',
      ''mkdir release-artifacts'',
      ''cp "dist/subscription-pool-v${VERSION}.so" '' @ [CHR 0x5C],
      ''   "dist/subscription-pool_${VERSION}_linux_amd64.zip" '' @ [CHR 0x5C],
      ''   "dist/subscription-pool-v${VERSION}-operator.zip" '' @ [CHR 0x5C],
      ''   dist/checksums.txt '' @ [CHR 0x5C],
      ''   dist/compatibility-evidence.json '' @ [CHR 0x5C],
      ''   dist/config.yaml.tmpl '' @ [CHR 0x5C],
      ''   dist/registry.json '' @ [CHR 0x5C],
      ''   dist/router-capacity-source.json '' @ [CHR 0x5C],
      ''   dist/verify-live.sh '' @ [CHR 0x5C],
      ''   dist/verify-live-opencodego.sh '' @ [CHR 0x5C],
      ''   dist/collector-zai.py '' @ [CHR 0x5C],
      ''   dist/collector-opencodego.py '' @ [CHR 0x5C],
      ''   dist/prepare-usage-dir.py '' @ [CHR 0x5C],
      ''   dist/remove-usage-output.py '' @ [CHR 0x5C],
      ''   dist/rollback.sh '' @ [CHR 0x5C],
      ''   dist/README.md '' @ [CHR 0x5C],
      ''   dist/release-sha.txt '' @ [CHR 0x5C],
      ''   release-artifacts/'',
      ''test "$(<release-artifacts/release-sha.txt)" = "$RELEASE_SHA"'']\<close>

definition publishCommand :: string where
  \<open>publishCommand = scriptText 2
     [''set -euo pipefail'',
      ''actual_tag_object=$(gh api "repos/${GH_REPO}/git/ref/tags/${RAW_TAG}" --jq .object.sha)'',
      ''test "$actual_tag_object" = "$EXPECTED_TAG_OBJECT"'',
      ''gh release create "$RAW_TAG" '' @ [CHR 0x5C],
      ''  "release-artifacts/subscription-pool-v${VERSION}.so" '' @ [CHR 0x5C],
      ''  "release-artifacts/subscription-pool_${VERSION}_linux_amd64.zip" '' @ [CHR 0x5C],
      ''  "release-artifacts/subscription-pool-v${VERSION}-operator.zip" '' @ [CHR 0x5C],
      ''  release-artifacts/checksums.txt '' @ [CHR 0x5C],
      ''  release-artifacts/compatibility-evidence.json '' @ [CHR 0x5C],
      ''  release-artifacts/config.yaml.tmpl '' @ [CHR 0x5C],
      ''  release-artifacts/registry.json '' @ [CHR 0x5C],
      ''  release-artifacts/router-capacity-source.json '' @ [CHR 0x5C],
      ''  release-artifacts/verify-live.sh '' @ [CHR 0x5C],
      ''  release-artifacts/verify-live-opencodego.sh '' @ [CHR 0x5C],
      ''  release-artifacts/collector-zai.py '' @ [CHR 0x5C],
      ''  release-artifacts/collector-opencodego.py '' @ [CHR 0x5C],
      ''  release-artifacts/prepare-usage-dir.py '' @ [CHR 0x5C],
      ''  release-artifacts/remove-usage-output.py '' @ [CHR 0x5C],
      ''  release-artifacts/rollback.sh '' @ [CHR 0x5C],
      ''  release-artifacts/README.md '' @ [CHR 0x5C],
      ''  release-artifacts/release-sha.txt '' @ [CHR 0x5C],
      ''  --verify-tag --generate-notes'']\<close>

definition releaseActions :: "(int, string) gomap" where
  "releaseActions =
     [(0, ''actions/checkout@3d3c42e5aac5ba805825da76410c181273ba90b1''),
      (1, ''actions/setup-go@b7ad1dad31e06c5925ef5d2fc7ad053ef454303e''),
      (4, ''actions/checkout@3d3c42e5aac5ba805825da76410c181273ba90b1''),
      (7, ''golangci/golangci-lint-action@ba0d7d2ec06a0ea1cb5fa41b2e4a3ab91d21278a''),
      (13, ''actions/upload-artifact@043fb46d1a93c77aae656e7c1c64a875d1fc6a0a'')]"

definition releaseCommands :: "(int, canonicalRunStep) gomap" where
  "releaseCommands =
     [(2, \<lparr>cs_name = ''Validate trusted release controls'', cs_id = [], cs_workingDirectory = ''release-controls'',
        cs_env = [],
        cs_command = command2\<rparr>),
      (3, \<lparr>cs_name = ''Select release tag'', cs_id = ''target'', cs_workingDirectory = ''release-controls'',
        cs_env = [(''EVENT_NAME'', ''${{ github.event_name }}''), (''EVENT_REF'', ''${{ github.ref }}''), (''EVENT_SHA'', ''${{ github.sha }}'')],
        cs_command = command3\<rparr>),
      (5, \<lparr>cs_name = ''Validate tag and provenance'', cs_id = ''release'', cs_workingDirectory = ''release-source'',
        cs_env = [(''RAW_TAG'', ''${{ steps.target.outputs.tag }}''), (''EXPECTED_TAG_OBJECT'', ''${{ steps.target.outputs.tag_object }}'')],
        cs_command = command5\<rparr>),
      (6, \<lparr>cs_name = ''Verify'', cs_id = [], cs_workingDirectory = ''release-source'',
        cs_env = [],
        cs_command = command6\<rparr>),
      (8, \<lparr>cs_name = ''Resolve immutable host image matrix'', cs_id = [], cs_workingDirectory = ''release-source'',
        cs_env = [],
        cs_command = command8\<rparr>),
      (9, \<lparr>cs_name = ''Package'', cs_id = [], cs_workingDirectory = ''release-source'',
        cs_env = [(''VERSION'', ''${{ steps.release.outputs.version }}''), (''RAW_TAG'', ''${{ steps.target.outputs.tag }}'')],
        cs_command = command9\<rparr>),
      (10, \<lparr>cs_name = ''Verify release artifacts'', cs_id = [], cs_workingDirectory = ''release-source'',
        cs_env = [(''VERSION'', ''${{ steps.release.outputs.version }}''), (''RAW_TAG'', ''${{ steps.target.outputs.tag }}'')],
        cs_command = command10\<rparr>),
      (11, \<lparr>cs_name = ''Test host compatibility matrix'', cs_id = [], cs_workingDirectory = ''release-source'',
        cs_env = [(''VERSION'', ''${{ steps.release.outputs.version }}''), (''HOST_MATRIX_NAMESPACE'', ''root'')],
        cs_command = command11\<rparr>),
      (12, \<lparr>cs_name = ''Stage release artifacts'', cs_id = [], cs_workingDirectory = ''release-source'',
        cs_env = [(''VERSION'', ''${{ steps.release.outputs.version }}''), (''RELEASE_SHA'', ''${{ steps.release.outputs.release_sha }}'')],
        cs_command = command12\<rparr>)]"

text \<open>
  Each of these checks is in the code a length and one comparison per key, as in
  \<open>equalStringMaps\<close>.
\<close>

definition actionInputs :: "int \<Rightarrow> (string, string) gomap \<Rightarrow> unit result" where
  "actionInputs index inputs =
     (if index = 0 then
        guardR (equalStringMaps inputs
          [(''fetch-depth'', ''0''), (''persist-credentials'', ''false''), (''ref'', ''${{ github.sha }}''), (''path'', ''release-controls'')])
          ''trusted control checkout must use the workflow SHA without credentials''
      else if index = 1 then
        guardR (equalStringMaps inputs
          [(''go-version-file'', ''release-controls/go.mod''), (''cache-dependency-path'', ''release-controls/go.sum''), (''cache'', ''true'')])
          ''Go setup must use only the trusted control module files''
      else if index = 4 then
        guardR (equalStringMaps inputs
          [(''fetch-depth'', ''0''), (''persist-credentials'', ''false''), (''ref'', ''${{ steps.target.outputs.tag }}''), (''path'', ''release-source'')])
          ''release source checkout must use only the selected immutable tag without credentials''
      else if index = 7 then
        guardR (equalStringMaps inputs [(''version'', ''v2.13.2''), (''working-directory'', ''release-source'')])
          ''release lint must use only the immutable source checkout''
      else if index = 13 then
        guardR (equalStringMaps inputs
          [(''name'', ''release-artifacts''), (''path'', ''release-source/release-artifacts/''), (''if-no-files-found'', ''error''), (''retention-days'', ''1'')])
          ''release artifact upload must use only the canonical immutable-source inputs''
      else Inr ())"

definition stepName :: "int \<Rightarrow> string" where
  "stepName index = ''release build step '' @ Itoa (index + 1)"

definition validateReleaseActionStep :: "int \<Rightarrow> yamlMap \<Rightarrow> string \<Rightarrow> unit result" where
  "validateReleaseActionStep index step approved =
     bindR (requireOnlyYAMLKeys step (stepName index) [''name'', ''uses'', ''with'']) (\<lambda>_.
     if yamlScalarValue (mget step ''uses'') \<noteq> approved
     then Inl (Msg (''release build action step '' @ Itoa (index + 1) @ '' must use the canonical pinned action''))
     else
       bindR (yamlStringMap (mget step ''with'') (''release build action step '' @ Itoa (index + 1) @ '' inputs'')) (\<lambda>inputs.
       actionInputs index inputs))"

definition validateReleaseCommandStep :: "string \<Rightarrow> int \<Rightarrow> yamlMap \<Rightarrow> canonicalRunStep \<Rightarrow> unit result" where
  "validateReleaseCommandStep raw index step canonical =
     bindR (requireOnlyYAMLKeys step (stepName index) [''name'', ''id'', ''working-directory'', ''env'', ''run'']) (\<lambda>_.
     if yamlScalarValue (mget step ''name'') \<noteq> cs_name canonical \<or> yamlScalarValue (mget step ''id'') \<noteq> cs_id canonical \<or>
        yamlScalarValue (mget step ''working-directory'') \<noteq> cs_workingDirectory canonical
     then Inl (Msg (stepName index @ '' must use the canonical identity and working directory''))
     else
       bindR (yamlStringMap (mget step ''env'') (stepName index @ '' environment'')) (\<lambda>env.
       if \<not> equalStringMaps env (cs_env canonical) then Inl (Msg (stepName index @ '' must use only the canonical environment''))
       else
         bindR (requireCanonicalRunScalar raw (mget step ''run'') (stepName index)) (\<lambda>_.
         if normalizeShellCommand (yamlScalarValue (mget step ''run'')) \<noteq> normalizeShellCommand (cs_command canonical)
         then Inl (Msg (stepName index @ '' must use the canonical command'')) else Inr ())))"

definition validateReleaseStep :: "string \<Rightarrow> int \<Rightarrow> yamlNode \<Rightarrow> unit result" where
  "validateReleaseStep raw index node =
     bindR (yamlMapping (Some node) (stepName index)) (\<lambda>step.
     case mget releaseActions index of
       Some approved \<Rightarrow> validateReleaseActionStep index step approved
     | None \<Rightarrow>
         (case mget releaseCommands index of
            None \<Rightarrow> Inl (Msg (stepName index @ '' is not approved''))
          | Some canonical \<Rightarrow> validateReleaseCommandStep raw index step canonical))"

fun validateReleaseSteps :: "string \<Rightarrow> int \<Rightarrow> yamlNode list \<Rightarrow> unit result" where
  "validateReleaseSteps raw index [] = Inr ()"
| "validateReleaseSteps raw index (node # nodes) =
     bindR (validateReleaseStep raw index node) (\<lambda>_. validateReleaseSteps raw (index + 1) nodes)"

text \<open>The nodes of a list of exactly \<open>n\<close> steps.\<close>

definition stepNodes :: "yamlNode option \<Rightarrow> nat \<Rightarrow> string \<Rightarrow> yamlNode list result" where
  "stepNodes p n err =
     (case p of
        None \<Rightarrow> Inl (Msg err)
      | Some steps \<Rightarrow>
          if yn_Kind steps \<noteq> SequenceNode \<or> length (yn_Content steps) \<noteq> n then Inl (Msg err) else Inr (yn_Content steps))"

text \<open>A string map that fails to read or is not the expected one gives the same message.\<close>

definition requireStringMap :: "yamlNode option \<Rightarrow> string \<Rightarrow> (string, string) gomap \<Rightarrow> string \<Rightarrow> unit result" where
  "requireStringMap p ctx expected err =
     (case yamlStringMap p ctx of
        Inl _ \<Rightarrow> Inl (Msg err)
      | Inr actual \<Rightarrow> guardR (equalStringMaps actual expected) err)"

definition publicationStep :: "string \<Rightarrow> yamlNode \<Rightarrow> unit result" where
  "publicationStep raw node =
     bindR (yamlMapping (Some node) ''release publication step'') (\<lambda>publication.
     bindR (requireOnlyYAMLKeys publication ''release publication step'' [''name'', ''env'', ''run'']) (\<lambda>_.
     bindR (requireStringMap (mget publication ''env'') ''release publication environment''
             [(''GH_TOKEN'', ''${{ github.token }}''), (''GH_REPO'', ''${{ github.repository }}''), (''VERSION'', ''${{ needs.build.outputs.version }}''),
              (''RAW_TAG'', ''${{ needs.build.outputs.tag }}''), (''EXPECTED_TAG_OBJECT'', ''${{ needs.build.outputs.tag_object }}'')]
             ''release publication environment must contain exactly the canonical variables'') (\<lambda>_.
     bindR (requireCanonicalRunScalar raw (mget publication ''run'') ''release publication step'') (\<lambda>_.
     guardR (normalizeShellCommand (yamlScalarValue (mget publication ''run'')) = normalizeShellCommand publishCommand)
       ''release publish job must use the canonical publication command''))))"

definition downloadAction :: string where
  "downloadAction = ''actions/download-artifact@3e5f45b2cfb9172054b4087a40e8e0b5a5461e7c''"

definition downloadStep :: "yamlNode \<Rightarrow> unit result" where
  "downloadStep node =
     bindR (yamlMapping (Some node) ''release artifact download step'') (\<lambda>download.
     bindR (requireOnlyYAMLKeys download ''release artifact download step'' [''name'', ''uses'', ''with'']) (\<lambda>_.
     case yamlStringMap (mget download ''with'') ''release artifact download inputs'' of
       Inl _ \<Rightarrow> Inl (Msg ''release artifact download step must use the canonical action and inputs'')
     | Inr inputs \<Rightarrow>
         guardR (yamlScalarValue (mget download ''uses'') = downloadAction \<and>
                 equalStringMaps inputs [(''name'', ''release-artifacts''), (''path'', ''release-artifacts'')])
           ''release artifact download step must use the canonical action and inputs''))"

definition validatePublishJob :: "string \<Rightarrow> yamlNode option \<Rightarrow> unit result" where
  "validatePublishJob raw p =
     bindR (yamlMapping p ''release publish job'') (\<lambda>publish.
     bindR (requireOnlyYAMLKeys publish ''release publish job'' [''needs'', ''runs-on'', ''permissions'', ''steps'']) (\<lambda>_.
     bindR (guardR (yamlScalarValue (mget publish ''needs'') = ''build'' \<and> yamlScalarValue (mget publish ''runs-on'') = ''ubuntu-24.04'')
             ''release publish job must depend on build and use the approved runner'') (\<lambda>_.
     bindR (requireStringMap (mget publish ''permissions'') ''release publish job permissions'' [(''contents'', ''write'')]
             ''release publish job must hold only contents write permission'') (\<lambda>_.
     bindR (stepNodes (mget publish ''steps'') 2
             ''release publish job must contain exactly the artifact download and canonical publication steps'') (\<lambda>steps.
     bindR (downloadStep (steps ! 0)) (\<lambda>_. publicationStep raw (steps ! 1)))))))"

definition buildJob :: "string \<Rightarrow> yamlNode option \<Rightarrow> unit result" where
  "buildJob raw p =
     bindR (yamlMapping p ''release build job'') (\<lambda>build.
     bindR (requireOnlyYAMLKeys build ''release build job'' [''runs-on'', ''outputs'', ''steps'']) (\<lambda>_.
     bindR (guardR (yamlScalarValue (mget build ''runs-on'') = ''ubuntu-24.04'') ''release build job must use the approved runner'') (\<lambda>_.
     bindR (requireStringMap (mget build ''outputs'') ''release build outputs''
             [(''version'', ''${{ steps.release.outputs.version }}''), (''tag'', ''${{ steps.target.outputs.tag }}''),
              (''tag_object'', ''${{ steps.target.outputs.tag_object }}'')]
             ''release build job must export only the validated version, tag, and tag object'') (\<lambda>_.
     bindR (stepNodes (mget build ''steps'') 14 ''release build job must contain exactly the canonical release steps'') (\<lambda>steps.
     validateReleaseSteps raw 0 steps)))))"

definition releaseTrigger :: "yamlMap \<Rightarrow> unit result" where
  "releaseTrigger workflow =
     bindR (yamlMapping (mget workflow ''on'') ''release workflow trigger'') (\<lambda>trigger.
     bindR (requireOnlyYAMLKeys trigger ''release workflow trigger'' [''push'']) (\<lambda>_.
     bindR (yamlMapping (mget trigger ''push'') ''release push trigger'') (\<lambda>push.
     bindR (requireOnlyYAMLKeys push ''release push trigger'' [''tags'']) (\<lambda>_.
     guardR (yamlStringSequence (mget push ''tags'') ''release tag trigger'' = Inr [''v*''])
       ''release push trigger must contain only v* tags''))))"

definition validateReleaseWorkflowShape :: "yamlParser \<Rightarrow> string \<Rightarrow> unit result" where
  "validateReleaseWorkflowShape parse raw =
     bindR (wrapR ''parse release workflow structure'' (parse raw)) (\<lambda>document.
     bindR (yamlMapping (Some document) ''release workflow'') (\<lambda>workflow.
     bindR (requireOnlyYAMLKeys workflow ''release workflow'' [''name'', ''on'', ''permissions'', ''jobs'']) (\<lambda>_.
     bindR (releaseTrigger workflow) (\<lambda>_.
     bindR (requireStringMap (mget workflow ''permissions'') ''release workflow permissions'' [(''contents'', ''read'')]
             ''release workflow must default contents permission to read'') (\<lambda>_.
     bindR (yamlMapping (mget workflow ''jobs'') ''release workflow jobs'') (\<lambda>jobs.
     bindR (requireOnlyYAMLKeys jobs ''release workflow jobs'' [''build'', ''publish'']) (\<lambda>_.
     bindR (buildJob raw (mget jobs ''build'')) (\<lambda>_.
     validatePublishJob raw (mget jobs ''publish'')))))))))"

definition ciTrigger :: "yamlParser \<Rightarrow> string \<Rightarrow> unit result" where
  "ciTrigger parse ciRaw =
     bindR (wrapR ''parse CI workflow'' (parse ciRaw)) (\<lambda>ciDocument.
     bindR (yamlMapping (Some ciDocument) ''CI workflow'') (\<lambda>ciWorkflow.
     bindR (yamlMapping (mget ciWorkflow ''on'') ''CI workflow trigger'') (\<lambda>trigger.
     bindR (yamlMapping (mget trigger ''push'') ''CI push trigger'') (\<lambda>ciPush.
     guardR (yamlStringSequence (mget ciPush ''branches'') ''CI push branches'' = Inr [''main''])
       ''CI push trigger must contain only main''))))"

definition validateReleaseWorkflowBoundary :: "yamlParser \<Rightarrow> releaseFS \<Rightarrow> string \<Rightarrow> unit result" where
  "validateReleaseWorkflowBoundary parse fs root =
     bindR (wrapR ''read CI workflow'' (readFile fs (workflowPath root ''ci.yml''))) (\<lambda>ciRaw.
     bindR (ciTrigger parse ciRaw) (\<lambda>_.
     bindR (wrapR ''read release workflow'' (readFile fs (workflowPath root ''release.yml''))) (\<lambda>raw.
     validateReleaseWorkflowShape parse raw)))"

section \<open>The command\<close>

definition trackedFiles :: "releaseFS \<Rightarrow> string \<Rightarrow> string list result" where
  "trackedFiles fs root =
     bindR (wrapR ''git ls-files'' (fs_git fs root)) (\<lambda>out.
     if out = [] then Inr [] else Inr (filter (\<lambda>name. name \<noteq> []) (splitOn (CHR 0x00) (butlast out))))"

record sourceDecoders =
  sd_matrix :: "string \<Rightarrow> hostMatrix result"
  sd_deployed :: "string \<Rightarrow> deployedImage result"
  sd_yaml :: yamlParser
  sd_registry :: "string \<Rightarrow> registryPlugin list result"

definition validateSource :: "sourceDecoders \<Rightarrow> releaseFS \<Rightarrow> string \<Rightarrow> unit result" where
  "validateSource dec fs root =
     bindR (validateDocumentation fs root) (\<lambda>_.
     bindR (validateHostImagePin (sd_matrix dec) (sd_deployed dec) fs root) (\<lambda>_.
     bindR (validateWorkflowActionPins (sd_yaml dec) fs root) (\<lambda>_.
     bindR (validateReleaseWorkflowBoundary (sd_yaml dec) fs root) (\<lambda>_.
     bindR (trackedFiles fs root) (\<lambda>files.
     if files = [] then Inl (Msg ''source validation found no files'') else Inr ())))))"

text \<open>
  The \<open>flag\<close> package for flags with string values: \<open>defs\<close> holds the names with their
  current values, and the result is the values with the arguments left over.
\<close>

fun flagParse :: "(string, string) gomap \<Rightarrow> string list \<Rightarrow> ((string, string) gomap \<times> string list) result" where
  "flagParse defs [] = Inr (defs, [])"
| "flagParse defs (s # args) =
     (if length s < 2 \<or> hd s \<noteq> CHR ''-'' then Inr (defs, s # args)
      else if s = ''--'' then Inr (defs, args)
      else
        let body = (if HasPrefix s ''--'' then drop 2 s else drop 1 s) in
        if body = [] \<or> hd body = CHR ''-'' \<or> hd body = CHR ''='' then Inl (Msg ''bad flag syntax'')
        else
          let name = takeWhile (\<lambda>c. c \<noteq> CHR ''='') body in
          if mget defs name = None
          then Inl (Msg (if name = ''help'' \<or> name = ''h'' then ''flag: help requested'' else ''flag provided but not defined: -'' @ name))
          else if CHR ''='' \<in> set body then flagParse (mput name (drop (Suc (length name)) body) defs) args
          else (case args of
                  [] \<Rightarrow> Inl (Msg (''flag needs an argument: -'' @ name))
                | value # rest \<Rightarrow> flagParse (mput name value defs) rest))"

text \<open>The result of \<open>run\<close> is what it prints; \<open>getwd\<close> is \<open>os.Getwd\<close>.\<close>

definition runValidation :: "golib \<Rightarrow> sourceDecoders \<Rightarrow> releaseFS \<Rightarrow> string result \<Rightarrow> string list \<Rightarrow> string result" where
  "runValidation lib dec fs getwd args =
     bindR (flagParse [(''mode'', ''release''), (''root'', []), (''tag'', []), (''version'', []), (''dist'', ''dist'')] args) (\<lambda>(flags, rest).
     if rest \<noteq> [] then Inl (Msg (''unexpected arguments: '' @ Join rest '' ''))
     else
       bindR (if mget_or [] flags ''root'' = [] then wrapR ''get current directory'' getwd else Inr (mget_or [] flags ''root'')) (\<lambda>root.
       let mode = mget_or [] flags ''mode''; tag = mget_or [] flags ''tag'' in
       if mode = ''source'' then bindR (validateSource dec fs root) (\<lambda>_. Inr [])
       else if mode = ''release''
       then bindR (validateRelease lib (sd_registry dec) fs root (mget_or [] flags ''dist'') tag (mget_or [] flags ''version'')) (\<lambda>_. Inr [])
       else if mode = ''version'' then bindR (versionFromTag tag) (\<lambda>resolved. Inr (resolved @ NL))
       else Inl (Msg ''unknown mode'')))"

end
