(* ===== verification/UpstreamStub.thy ===== *)
theory UpstreamStub
  imports Quota
begin

text \<open>
  The upstream stub of the host integration test, \<^verbatim>\<open>stub.go\<close> of
  \<^verbatim>\<open>.github/scripts/host-integration\<close>: it stands for the Z.ai API, answers the two inference
  lanes and the quota endpoint, and counts what it is asked. A request carries its header as a
  lookup function; the encoding of the quota answer as JSON text is an argument. Its certificate
  and its TLS listener are not modelled.
\<close>

definition anthropicUpstreamPath :: string where "anthropicUpstreamPath = ''/api/anthropic/v1/messages''"
definition openAIUpstreamPath :: string where "openAIUpstreamPath = ''/api/coding/paas/v4/chat/completions''"
definition quotaUpstreamPath :: string where "quotaUpstreamPath = ''/api/monitor/usage/quota/limit''"
definition smokePlanKey :: string where "smokePlanKey = ''release-integration-plan-key-000001''"

record stubRequest =
  sq_Method :: string
  sq_Path :: string
  sq_RequestURI :: string
  sq_Header :: "string \<Rightarrow> string"

record stubResponse =
  sr_Status :: int
  sr_ContentType :: string
  sr_Body :: string

record upstreamStub =
  us_counts :: "(string, int) gomap"
  us_paths :: "string list"

definition newStub :: upstreamStub where
  "newStub = \<lparr>us_counts = [], us_paths = []\<rparr>"

text \<open>\<open>http.Error\<close> replaces the content type and ends the text with a newline.\<close>

definition httpError :: "string \<Rightarrow> int \<Rightarrow> stubResponse" where
  "httpError message status = \<lparr>sr_Status = status, sr_ContentType = ''text/plain; charset=utf-8'', sr_Body = message @ [CHR 0x0A]\<rparr>"

definition jsonOK :: "string \<Rightarrow> stubResponse" where
  "jsonOK body = \<lparr>sr_Status = 200, sr_ContentType = ''application/json'', sr_Body = body\<rparr>"

definition anthropicSmokeBody :: string where
  "anthropicSmokeBody =
     ''{\"id\":\"msg_smoke\",\"type\":\"message\",\"role\":\"assistant\",\"model\":\"smoke-upstream-anthropic\",'' @
     ''\"content\":[{\"type\":\"text\",\"text\":\"anthropic smoke ok\"}],\"stop_reason\":\"end_turn\",\"stop_sequence\":null,'' @
     ''\"usage\":{\"input_tokens\":1,\"output_tokens\":1}}''"

definition openAISmokeBody :: string where
  "openAISmokeBody =
     ''{\"id\":\"chatcmpl-smoke\",\"object\":\"chat.completion\",\"created\":0,\"model\":\"smoke-upstream-openai\",'' @
     ''\"choices\":[{\"index\":0,\"message\":{\"role\":\"assistant\",\"content\":\"openai smoke ok\"},\"finish_reason\":\"stop\"}],'' @
     ''\"usage\":{\"prompt_tokens\":1,\"completion_tokens\":1,\"total_tokens\":2}}''"

definition unixMilli :: "gotime \<Rightarrow> int" where
  "unixMilli t = (t - unixEpoch) div Millisecond"

definition stubLimit :: "string \<Rightarrow> string \<Rightarrow> string \<Rightarrow> string \<Rightarrow> string \<Rightarrow> int \<Rightarrow> quotaWireLimit" where
  "stubLimit unit number usage cur remaining reset =
     \<lparr>ql_Type = ''CREDIT_LIMIT'', ql_Unit = unit, ql_Number = number, ql_Usage = usage, ql_CurrentValue = cur,
      ql_Remaining = remaining, ql_NextResetTime = Itoa reset\<rparr>"

text \<open>The handler reads the clock once per window.\<close>

definition stubQuota :: "gotime \<Rightarrow> gotime \<Rightarrow> quotaWireResponse" where
  "stubQuota now now' =
     \<lparr>qr_Code = ''200'', qr_Success = Some True, qr_Level = ''pro'', qr_PlanName = [],
      qr_Limits =
        [stubLimit ''3'' ''5'' ''12000'' ''1'' ''11999'' (unixMilli (now + 5 * Hour)),
         stubLimit ''6'' ''1'' ''60000'' ''2'' ''59998'' (unixMilli (now' + 7 * 24 * Hour))]\<rparr>"

definition stubAnswer :: "(quotaWireResponse \<Rightarrow> string) \<Rightarrow> gotime \<times> gotime \<Rightarrow> stubRequest \<Rightarrow> stubResponse" where
  "stubAnswer encode clock request =
     (let path = sq_Path request in
      if path = anthropicUpstreamPath then
        (if sq_Method request \<noteq> ''POST'' \<or> sq_Header request ''X-CPA-Smoke-Lane'' \<noteq> ''anthropic''
         then httpError ''{\"error\":\"invalid anthropic smoke request\"}'' 400 else jsonOK anthropicSmokeBody)
      else if path = openAIUpstreamPath then
        (if sq_Method request \<noteq> ''POST'' \<or> sq_Header request ''X-CPA-Smoke-Lane'' \<noteq> ''openai''
         then httpError ''{\"error\":\"invalid OpenAI smoke request\"}'' 400 else jsonOK openAISmokeBody)
      else if path = quotaUpstreamPath then
        (if sq_Method request \<noteq> ''GET'' \<or> sq_Header request ''Authorization'' \<noteq> ''Bearer '' @ smokePlanKey
         then httpError ''{\"error\":\"invalid quota smoke request\"}'' 401 else jsonOK (encode (stubQuota (fst clock) (snd clock))))
      else httpError ''{\"error\":\"unexpected upstream path\"}'' 404)"

definition serveHTTP :: "(quotaWireResponse \<Rightarrow> string) \<Rightarrow> gotime \<times> gotime \<Rightarrow> stubRequest \<Rightarrow> upstreamStub \<Rightarrow> stubResponse \<times> upstreamStub" where
  "serveHTTP encode clock request stub =
     (stubAnswer encode clock request,
      stub\<lparr>us_counts := mput (sq_Path request) (mget_or 0 (us_counts stub) (sq_Path request) + 1) (us_counts stub),
        us_paths := us_paths stub @ [sq_Method request @ '' '' @ sq_RequestURI request]\<rparr>)"

definition assertRequests :: "upstreamStub \<Rightarrow> unit result" where
  "assertRequests stub =
     (case find (\<lambda>path. mget_or 0 (us_counts stub) path \<noteq> 1) [anthropicUpstreamPath, openAIUpstreamPath] of
        Some path \<Rightarrow>
          Inl (Msg (''upstream request count for '' @ path @ '' = '' @ Itoa (mget_or 0 (us_counts stub) path) @
            '', want 1; observed '' @ Join (us_paths stub) '', ''))
      | None \<Rightarrow> Inr ())"

section \<open>Counting\<close>

definition serveAll :: "(quotaWireResponse \<Rightarrow> string) \<Rightarrow> (gotime \<times> gotime \<times> stubRequest) list \<Rightarrow> upstreamStub \<Rightarrow> upstreamStub" where
  "serveAll encode reqs stub = foldl (\<lambda>st (now, now', req). snd (serveHTTP encode (now, now') req st)) stub reqs"

lemma served_counts:
  "mget_or 0 (us_counts (serveAll encode reqs stub)) path = mget_or 0 (us_counts stub) path + int (length (filter (\<lambda>(_, _, req). sq_Path req = path) reqs))"
  by (induction reqs arbitrary: stub) (auto simp: serveAll_def serveHTTP_def)

lemma assertRequests_ok:
  "assertRequests stub = Inr () \<longleftrightarrow> mget_or 0 (us_counts stub) anthropicUpstreamPath = 1 \<and> mget_or 0 (us_counts stub) openAIUpstreamPath = 1"
  by (auto simp: assertRequests_def split: option.splits if_splits)

lemma stub_counts_requests:
  "assertRequests (serveAll encode reqs newStub) = Inr () \<longleftrightarrow>
     length (filter (\<lambda>(_, _, req). sq_Path req = anthropicUpstreamPath) reqs) = 1 \<and>
     length (filter (\<lambda>(_, _, req). sq_Path req = openAIUpstreamPath) reqs) = 1"
  by (simp add: assertRequests_ok served_counts) (simp add: newStub_def mget_or_def)

section \<open>The quota answer\<close>

lemma milli_bounds: "time_UnixMilli (unixMilli t) \<le> t" "t < time_UnixMilli (unixMilli t) + Millisecond"
  using pos_mod_bound [of Millisecond "t - unixEpoch"] pos_mod_sign [of Millisecond "t - unixEpoch"] minus_mod_eq_div_mult [of "t - unixEpoch" Millisecond]
  by (simp_all add: time_UnixMilli_def unixMilli_def Millisecond_def)

lemma unixMilli_text:
  assumes "year2000 \<le> t" "t < year10000"
  shows "strictNonnegativeInt64 (Itoa (unixMilli t)) = Inr (unixMilli t)" "0 < unixMilli t"
proof -
  have "unixMilli year2000 \<le> unixMilli t" "unixMilli t \<le> unixMilli year10000"
    using assms by (auto simp: unixMilli_def Millisecond_def intro!: zdiv_mono1)
  moreover have "0 < unixMilli year2000" "unixMilli year10000 < 9223372036854775808" by code_simp+
  ultimately have m: "0 < unixMilli t" "unixMilli t < 9223372036854775808" by linarith+
  then have "ParseInt (Itoa (unixMilli t)) = Some (unixMilli t)" by (intro ParseInt_Itoa is_int64I) simp_all
  moreover have "Itoa (unixMilli t) \<noteq> []" by (simp add: Itoa_def nat_digits_nonempty)
  ultimately show "strictNonnegativeInt64 (Itoa (unixMilli t)) = Inr (unixMilli t)" "0 < unixMilli t"
    using m(1) by (simp_all add: strictNonnegativeInt64_def strictInt64_def)
qed

text \<open>A limit of the stub as the plugin parses it.\<close>

lemma stub_window:
  assumes "strictNonnegativeInt64 usage = Inr u" "strictNonnegativeInt64 cur = Inr c" "\<not> isl (strictNonnegativeInt64 remaining)"
    and "0 < u" "c \<le> u" "u \<le> 1000000" and "year2000 + Second \<le> reset" "time_Year reset \<le> 2200" "observedAt + Second < reset"
  shows "parseQuotaWindow (stubLimit unit number usage cur remaining (unixMilli reset)) observedAt =
    Inr \<lparr>qw_ConsumedMicrocredits = c * creditScale, qw_BucketMicrocredits = u * creditScale, qw_ResetsAt = time_UnixMilli (unixMilli reset)\<rparr>"
proof -
  let ?r = "time_UnixMilli (unixMilli reset)"
  have b: "?r \<le> reset" "reset < ?r + Second" using milli_bounds [of reset] by (simp_all add: go_time)
  have y: "2000 \<le> time_Year ?r" "time_Year ?r \<le> 2200" using year_bounds(1) [of ?r] time_Year_mono [OF b(1)] assms(7,8) b(2) by simp_all
  have "year2000 \<le> reset" using assms(7) by (simp add: go_time)
  then have t: "strictNonnegativeInt64 (Itoa (unixMilli reset)) = Inr (unixMilli reset)" "0 < unixMilli reset"
    using unixMilli_text [of reset] year_bounds(3) [OF assms(8)] by simp_all
  have i: "Itoa (unixMilli reset) \<noteq> []" by (simp add: Itoa_def nat_digits_nonempty)
  have c: "0 \<le> c" using strictNonnegative_nonneg assms(2) by blast
  have g: "go_quo maxInt64_const creditScale = 9223372036854" by code_simp
  have "wrap64 (c * creditScale) = c * creditScale" "wrap64 (u * creditScale) = u * creditScale"
    using c assms(4,5,6) by (auto intro!: scaled_credits(1) simp: g)
  then show ?thesis using assms(1-6,9) t i y b(2) by (simp add: parseQuotaWindow_def stubLimit_def g Let_def)
qed

lemma stub_numbers:
  "strictNonnegativeInt64 ''12000'' = Inr 12000" "strictNonnegativeInt64 ''1'' = Inr 1" "strictNonnegativeInt64 ''60000'' = Inr 60000"
  "strictNonnegativeInt64 ''2'' = Inr 2" "\<not> isl (strictNonnegativeInt64 ''11999'')" "\<not> isl (strictNonnegativeInt64 ''59998'')"
  "strictInt64 ''3'' = Inr 3" "strictInt64 ''5'' = Inr 5" "strictInt64 ''6'' = Inr 6" "strictInt64 ''1'' = Inr 1" "ParseInt ''200'' = Some 200"
  "ToUpper (TrimSpace ''CREDIT_LIMIT'') = ''CREDIT_LIMIT''" "normalizeUpstreamPlan ''pro'' = ''pro''"
  by code_simp+

lemma stub_scan:
  assumes "year2000 \<le> now" "now \<le> now'" "time_Year (now' + 7 * 24 * Hour) \<le> 2200" "observedAt \<le> now + Hour"
  shows "foldl (scanLimit observedAt) zero_limitScan (qr_Limits (stubQuota now now')) =
    \<lparr>ls_fiveHour = Some \<lparr>qw_ConsumedMicrocredits = 1 * creditScale, qw_BucketMicrocredits = 12000 * creditScale, qw_ResetsAt = time_UnixMilli (unixMilli (now + 5 * Hour))\<rparr>,
     ls_weekly = Some \<lparr>qw_ConsumedMicrocredits = 2 * creditScale, qw_BucketMicrocredits = 60000 * creditScale, qw_ResetsAt = time_UnixMilli (unixMilli (now' + 7 * 24 * Hour))\<rparr>,
     ls_fiveHourErr = [], ls_weeklyErr = [], ls_unmatched = []\<rparr>"
proof -
  have y: "time_Year (now + 5 * Hour) \<le> 2200" using time_Year_mono [of "now + 5 * Hour" "now' + 7 * 24 * Hour"] assms(2,3) by (simp add: go_time)
  have five: "parseQuotaWindow (stubLimit ''3'' ''5'' ''12000'' ''1'' ''11999'' (unixMilli (now + 5 * Hour))) observedAt =
      Inr \<lparr>qw_ConsumedMicrocredits = 1 * creditScale, qw_BucketMicrocredits = 12000 * creditScale, qw_ResetsAt = time_UnixMilli (unixMilli (now + 5 * Hour))\<rparr>"
    using assms(1,4) by (intro stub_window stub_numbers y) (simp_all add: go_time)
  have weekly: "parseQuotaWindow (stubLimit ''6'' ''1'' ''60000'' ''2'' ''59998'' (unixMilli (now' + 7 * 24 * Hour))) observedAt =
      Inr \<lparr>qw_ConsumedMicrocredits = 2 * creditScale, qw_BucketMicrocredits = 60000 * creditScale, qw_ResetsAt = time_UnixMilli (unixMilli (now' + 7 * 24 * Hour))\<rparr>"
    using assms(1,2,4) by (intro stub_window stub_numbers assms(3)) (simp_all add: go_time)
  have l: "strictInt64 (ql_Unit (stubLimit u n us c rm rs)) = strictInt64 u" "strictInt64 (ql_Number (stubLimit u n us c rm rs)) = strictInt64 n"
    "ToUpper (TrimSpace (ql_Type (stubLimit u n us c rm rs))) = ''CREDIT_LIMIT''" for u n us c rm rs
    using stub_numbers(12) by (simp_all add: stubLimit_def)
  show ?thesis by (simp add: stubQuota_def zero_limitScan_def scanLimit_def scanTarget_def l stub_numbers five weekly [simplified])
qed

section \<open>A sample request\<close>

definition stubLib :: golib where
  "stubLib = \<lparr>lib_urlParse = (\<lambda>_. Some \<lparr>url_Scheme = ''https'', url_HasUser = False, url_Host = ''api.z.ai'',
       url_Path = ''/api/monitor/usage/quota/limit'', url_RawPath = [], url_RawQuery = [], url_Fragment = [], url_Rest = []\<rparr>),
     lib_urlString = url_Path, lib_urlHostname = url_Host, lib_parseRFC3339 = (\<lambda>_. None), lib_httpParseTime = (\<lambda>_. None), lib_decodeAny = (\<lambda>_. None),
     lib_decodeErrorCode = (\<lambda>_. None), lib_sha256hex = (\<lambda>_. []), lib_hmacSHA256hex = (\<lambda>_ _. [])\<rparr>"

definition quotaRequest :: stubRequest where
  "quotaRequest = \<lparr>sq_Method = ''GET'', sq_Path = quotaUpstreamPath, sq_RequestURI = quotaUpstreamPath, sq_Header = (\<lambda>_. ''Bearer '' @ smokePlanKey)\<rparr>"

section \<open>Properties\<close>

text \<open>
  The stub and the plugin agree on the quota protocol. The stub answers an authorised quota
  request with 200 and a body that the plugin's quota poller accepts, within an hour of the
  answer and up to the year 2200: plan pro, one of 12,000 credits used in five hours and two of
  60,000 in the week, reset at the times of the stub's clock rounded down to milliseconds.
\<close>

theorem stub_quota_accepted:
  assumes "sq_Path request = quotaUpstreamPath" and "sq_Method request = ''GET''" and "sq_Header request ''Authorization'' = ''Bearer '' @ smokePlanKey"
    and "decode (encode (stubQuota now now')) = Some (stubQuota now now')" and "length (encode (stubQuota now now')) \<le> maxQuotaResponse"
    and "validateQuotaEndpoint lib quotaEndpoint False = Inr ()"
    and "year2000 \<le> now" and "now \<le> now'" and "time_Year (now' + 7 * 24 * Hour) \<le> 2200" and "observedAt \<le> now + Hour"
  shows "fetchQuota lib decode
      (Some (DoResponse (sr_Status (stubAnswer encode (now, now') request)) (Some (sr_Body (stubAnswer encode (now, now') request))))) quotaEndpoint observedAt =
    Inr \<lparr>sn_Plan = ''pro'',
      sn_FiveHour = \<lparr>qw_ConsumedMicrocredits = 1 * creditScale, qw_BucketMicrocredits = 12000 * creditScale, qw_ResetsAt = time_UnixMilli (unixMilli (now + 5 * Hour))\<rparr>,
      sn_FiveHourError = [],
      sn_Weekly = \<lparr>qw_ConsumedMicrocredits = 2 * creditScale, qw_BucketMicrocredits = 60000 * creditScale, qw_ResetsAt = time_UnixMilli (unixMilli (now' + 7 * 24 * Hour))\<rparr>,
      sn_ObservedAt = observedAt\<rparr>"
proof -
  have a: "stubAnswer encode (now, now') request = jsonOK (encode (stubQuota now now'))"
    using assms(1-3) by (simp add: stubAnswer_def quotaUpstreamPath_def anthropicUpstreamPath_def openAIUpstreamPath_def)
  have p: "parseQuotaResponse decode (encode (stubQuota now now')) observedAt = finishScan (stubQuota now now') observedAt
      (foldl (scanLimit observedAt) zero_limitScan (qr_Limits (stubQuota now now')))"
    using assms(4) by (simp add: parseQuotaResponse_def stub_numbers) (simp add: stubQuota_def stub_numbers)
  have r: "responsePlan (stubQuota now now') = ''pro''" by (simp add: responsePlan_def stubQuota_def stub_numbers)
  show ?thesis using assms(5,6) by (simp add: fetchQuota_def a jsonOK_def p stub_scan [OF assms(7-10)] finishScan_def r)
qed

theorem stub_quota_accepted_witness:
  "\<exists>snap. fetchQuota stubLib (\<lambda>_. Some (stubQuota year2000 year2000))
      (Some (DoResponse (sr_Status (stubAnswer (\<lambda>_. ''quota'') (year2000, year2000) quotaRequest))
        (Some (sr_Body (stubAnswer (\<lambda>_. ''quota'') (year2000, year2000) quotaRequest))))) quotaEndpoint year2000 = Inr snap \<and>
     sn_Plan snap = ''pro'' \<and> qw_BucketMicrocredits (sn_Weekly snap) = 60000 * creditScale"
proof -
  have h: "validateQuotaEndpoint stubLib quotaEndpoint False = Inr ()" "time_Year (year2000 + 7 * 24 * Hour) \<le> 2200" by code_simp+
  have l: "length ''quota'' \<le> maxQuotaResponse" by (simp add: maxQuotaResponse_def)
  have q: "sq_Path quotaRequest = quotaUpstreamPath" "sq_Method quotaRequest = ''GET''" "sq_Header quotaRequest ''Authorization'' = ''Bearer '' @ smokePlanKey"
    by (simp_all add: quotaRequest_def)
  show ?thesis
    using stub_quota_accepted [OF q, of "\<lambda>_. Some (stubQuota year2000 year2000)" "\<lambda>_. ''quota''" year2000 year2000 stubLib year2000] h l
    by (simp add: Hour_def Minute_def Second_def)
qed

end
