(* ===== verification/HostIntegration.thy ===== *)
theory HostIntegration
  imports AbiMemory Workflow UpstreamStub
begin

text \<open>
  The host integration test, \<^verbatim>\<open>main.go\<close> of \<^verbatim>\<open>.github/scripts/host-integration\<close>: it checks the
  advertised capabilities of the built plugin through the ABI client, then runs a real host binary
  with the plugin against the upstream stub. What the operating system, the network and the host
  answer is an argument, as a function of everything the test has done so far; the trace of
  these actions is the state of the test, with the clock. JSON decoders and the quoting of
  \<open>%q\<close> are arguments too. A program is \<open>None\<close> on a run when it does not return.
\<close>

section \<open>Actions of the test\<close>

record hostRequest =
  hq_Method :: string
  hq_URL :: string
  hq_Header :: "(string \<times> string) list"
  hq_Body :: string

datatype hostEvent =
    MadeTemp string
  | RemovedAll string
  | MadeDir string int
  | WroteFile string string int
  | StubStarted string
  | StubStopped
  | LogOpened string
  | LogClosed
  | HostStarted string string "string list"
  | HostKilled
  | Requested hostRequest
  | Slept duration
  | Printed string

type_synonym hostTrace = "hostEvent list"

record hostRun =
  hr_now :: gotime
  hr_trace :: hostTrace

record pluginListItem =
  pi_ID :: string
  pi_Configured :: bool
  pi_Registered :: bool
  pi_Enabled :: bool
  pi_EffectiveEnabled :: bool

record pluginListBody =
  pb_PluginsEnabled :: bool
  pb_Plugins :: "pluginListItem list"

record statusBody =
  sb_Plugin :: string
  sb_Status :: string
  sb_Providers :: "(string, string) gomap"

record inferenceBody =
  ib_model :: string
  ib_stream :: bool
  ib_messages :: "(string \<times> string) list"
  ib_max_tokens :: int

text \<open>
  The surroundings. \<open>sy_do\<close> also says how long a request took and \<open>sy_sleep\<close> how long the
  process really slept; \<open>sy_stub\<close> is the state of the stub after what the host sent to it.
\<close>

record hostSystem =
  sy_mkdirTemp :: "hostTrace \<Rightarrow> string \<Rightarrow> string result"
  sy_mkdirAll :: "hostTrace \<Rightarrow> string \<Rightarrow> go_error option"
  sy_readFile :: "hostTrace \<Rightarrow> string \<Rightarrow> string result"
  sy_writeFile :: "hostTrace \<Rightarrow> string \<Rightarrow> string \<Rightarrow> go_error option"
  sy_startStub :: "hostTrace \<Rightarrow> string \<Rightarrow> string result"
  sy_listen :: "hostTrace \<Rightarrow> int result"
  sy_openLog :: "hostTrace \<Rightarrow> string \<Rightarrow> go_error option"
  sy_start :: "hostTrace \<Rightarrow> string \<Rightarrow> go_error option"
  sy_newRequest :: "string \<Rightarrow> string \<Rightarrow> go_error option"
  sy_do :: "hostTrace \<Rightarrow> hostRequest \<Rightarrow> httpOutcome \<times> duration"
  sy_sleep :: "hostTrace \<Rightarrow> duration \<Rightarrow> duration"
  sy_stub :: "hostTrace \<Rightarrow> upstreamStub"
  sy_environ :: "string list"
  sy_quote :: "string \<Rightarrow> string"
  sy_decodeList :: "string \<Rightarrow> pluginListBody result"
  sy_decodeStatus :: "string \<Rightarrow> statusBody result"
  sy_decodeSuffixes :: "string \<Rightarrow> string list result"
  sy_marshalInference :: "inferenceBody \<Rightarrow> string result"
  sy_marshalLifecycle :: "string \<Rightarrow> string result"
  sy_decodeEnvelope :: "string \<Rightarrow> (bool \<times> string) result"
  sy_decodeRegistration :: "string \<Rightarrow> pluginCapabilities result"

type_synonym 'a hostProg = "hostRun \<Rightarrow> ('a result \<times> hostRun) option"

definition emit :: "hostEvent \<Rightarrow> hostRun \<Rightarrow> hostRun" where
  "emit ev r = r\<lparr>hr_trace := hr_trace r @ [ev]\<rparr>"

text \<open>Sequencing stops at the first error; a deferred action runs on every return.\<close>

definition bindH :: "'a hostProg \<Rightarrow> ('a \<Rightarrow> 'b hostProg) \<Rightarrow> 'b hostProg" where
  "bindH p f r =
     (case p r of
        None \<Rightarrow> None
      | Some (Inl err, r') \<Rightarrow> Some (Inl err, r')
      | Some (Inr x, r') \<Rightarrow> f x r')"

definition deferH :: "hostEvent \<Rightarrow> 'a hostProg \<Rightarrow> 'a hostProg" where
  "deferH ev p r = map_option (\<lambda>(res, r'). (res, emit ev r')) (p r)"

definition doneH :: "'a result \<Rightarrow> 'a hostProg" where
  "doneH res r = Some (res, r)"

text \<open>An action with an answer of the system; it leaves its event when it succeeds.\<close>

definition actH :: "(hostTrace \<Rightarrow> 'a result) \<Rightarrow> ('a \<Rightarrow> hostEvent) \<Rightarrow> 'a hostProg" where
  "actH ans ev r = (case ans (hr_trace r) of Inl err \<Rightarrow> Some (Inl err, r) | Inr x \<Rightarrow> Some (Inr x, emit (ev x) r))"

definition askH :: "(hostTrace \<Rightarrow> 'a result) \<Rightarrow> 'a hostProg" where
  "askH ans r = Some (ans (hr_trace r), r)"

definition unitR :: "go_error option \<Rightarrow> unit result" where
  "unitR e = (case e of Some err \<Rightarrow> Inl err | None \<Rightarrow> Inr ())"

definition mkdirTempH :: "hostSystem \<Rightarrow> string \<Rightarrow> string hostProg" where
  "mkdirTempH env pat = actH (\<lambda>t. sy_mkdirTemp env t pat) MadeTemp"

definition mkdirAllH :: "hostSystem \<Rightarrow> string \<Rightarrow> int \<Rightarrow> unit hostProg" where
  "mkdirAllH env path mode = actH (\<lambda>t. unitR (sy_mkdirAll env t path)) (\<lambda>_. MadeDir path mode)"

definition writeFileH :: "hostSystem \<Rightarrow> string \<Rightarrow> string \<Rightarrow> int \<Rightarrow> unit hostProg" where
  "writeFileH env path raw mode = actH (\<lambda>t. unitR (sy_writeFile env t path raw)) (\<lambda>_. WroteFile path raw mode)"

definition copyFile :: "hostSystem \<Rightarrow> string \<Rightarrow> string \<Rightarrow> int \<Rightarrow> unit hostProg" where
  "copyFile env dst src mode = bindH (askH (\<lambda>t. sy_readFile env t src)) (\<lambda>raw. writeFileH env dst raw mode)"

definition availablePort :: "hostSystem \<Rightarrow> int hostProg" where
  "availablePort env = askH (\<lambda>t. wrapR ''reserve host integration port'' (sy_listen env t))"

section \<open>HTTP\<close>

definition integrationPluginID :: string where "integrationPluginID = ''subscription-pool''"
definition statusPath :: string where "statusPath = ''/v0/management/plugins/subscription-pool/status''"
definition pluginListPath :: string where "pluginListPath = ''/v0/management/plugins''"
definition managementKey :: string where "managementKey = ''release-integration-management-key''"
definition clientKey :: string where "clientKey = ''release-integration-client-key''"

definition responseLimit :: int where "responseLimit = 1048576"

text \<open>\<open>io.ReadAll\<close> of a limited reader: the body up to the limit.\<close>

definition limitReader :: "string \<Rightarrow> string" where
  "limitReader full = (if int (length full) \<le> responseLimit then full else take (nat responseLimit) full)"

text \<open>\<open>client.Do\<close> and the reading of at most one megabyte of the body.\<close>

definition performRequest :: "hostSystem \<Rightarrow> hostRequest \<Rightarrow> (int \<times> string) hostProg" where
  "performRequest env req r =
     (case sy_do env (hr_trace r) req of
        (outcome, took) \<Rightarrow>
          let r' = emit (Requested req) (r\<lparr>hr_now := hr_now r + took\<rparr>) in
          (case outcome of
             DoError err \<Rightarrow> Some (Inl err, r')
           | DoResponse status None \<Rightarrow> Some (Inl (Msg ''read response body''), r')
           | DoResponse status (Some full) \<Rightarrow> Some (Inr (status, limitReader full), r')))"

definition bearer :: "string \<Rightarrow> (string \<times> string) list" where
  "bearer key = (if key = [] then [] else [(''Authorization'', ''Bearer '' @ key)])"

definition requestJSON :: "hostSystem \<Rightarrow> string \<Rightarrow> string \<Rightarrow> string \<Rightarrow> (int \<times> string) hostProg" where
  "requestJSON env verb url key =
     (case sy_newRequest env verb url of
        Some err \<Rightarrow> doneH (Inl err)
      | None \<Rightarrow> performRequest env \<lparr>hq_Method = verb, hq_URL = url, hq_Header = bearer key, hq_Body = []\<rparr>)"

definition listedAndEnabled :: "pluginListBody \<Rightarrow> bool" where
  "listedAndEnabled body =
     (case find (\<lambda>item. pi_ID item = integrationPluginID) (pb_Plugins body) of
        None \<Rightarrow> False
      | Some item \<Rightarrow> pb_PluginsEnabled body \<and> pi_Configured item \<and> pi_Registered item \<and> pi_Enabled item \<and> pi_EffectiveEnabled item)"

definition pluginRegistered :: "hostSystem \<Rightarrow> string \<Rightarrow> bool hostProg" where
  "pluginRegistered env baseURL =
     bindH (requestJSON env ''GET'' (baseURL @ pluginListPath) managementKey) (\<lambda>(status, raw).
       if status \<noteq> 200 then doneH (Inl (Msg (''plugin list status = '' @ Itoa status)))
       else doneH (bindR (sy_decodeList env raw) (\<lambda>body. Inr (listedAndEnabled body))))"

definition sleepFor :: "hostSystem \<Rightarrow> duration \<Rightarrow> hostRun \<Rightarrow> hostRun" where
  "sleepFor env d r = emit (Slept d) (r\<lparr>hr_now := hr_now r + sy_sleep env (hr_trace r) d\<rparr>)"

partial_function (option) waitLoop :: "hostSystem \<Rightarrow> string \<Rightarrow> gotime \<Rightarrow> hostRun \<Rightarrow> (unit result \<times> hostRun) option" where
  "waitLoop env baseURL endTime r =
     (if Before (hr_now r) endTime then
        (case pluginRegistered env baseURL r of
           None \<Rightarrow> None
         | Some (registered, r') \<Rightarrow>
             if registered = Inr True then Some (Inr (), r')
             else waitLoop env baseURL endTime (sleepFor env (250 * Millisecond) r'))
      else Some (Inl (Msg ''tested host image did not register and enable the plugin within 30 seconds''), r))"

declare waitLoop.simps [code]

definition waitForRegistered :: "hostSystem \<Rightarrow> string \<Rightarrow> unit hostProg" where
  "waitForRegistered env baseURL r = waitLoop env baseURL (hr_now r + 30 * Second) r"

definition firstSuffix :: "string list \<Rightarrow> string" where
  "firstSuffix accounts = (if accounts = [] then [] else hd accounts)"

definition statusVerdict :: "hostSystem \<Rightarrow> string \<Rightarrow> unit result" where
  "statusVerdict env raw =
     bindR (wrapR ''decode authenticated status'' (sy_decodeStatus env raw)) (\<lambda>body.
     bindR (wrapR ''decode zai provider status'' (sy_decodeSuffixes env (mget_or [] (sb_Providers body) ''zai''))) (\<lambda>accounts.
       guardR (\<not> (sb_Plugin body \<noteq> integrationPluginID \<or> sb_Status body \<noteq> ''registered'' \<or> length accounts \<noteq> 1 \<or> hd accounts \<noteq> ''redacted''))
         (''authenticated status is not registered and redacted: plugin='' @ sy_quote env (sb_Plugin body) @ '' status='' @ sy_quote env (sb_Status body) @
          '' accounts='' @ Itoa (int (length accounts)) @ '' suffix='' @ sy_quote env (firstSuffix accounts))))"

definition verifyStatusAuthentication :: "hostSystem \<Rightarrow> string \<Rightarrow> unit hostProg" where
  "verifyStatusAuthentication env baseURL =
     bindH (requestJSON env ''GET'' (baseURL @ statusPath) []) (\<lambda>(unauthorized, _).
       if unauthorized \<noteq> 401 then doneH (Inl (Msg (''unauthenticated status code = '' @ Itoa unauthorized @ '', want 401'')))
       else bindH (requestJSON env ''GET'' (baseURL @ statusPath) managementKey) (\<lambda>(authorized, raw).
         if authorized \<noteq> 200 then doneH (Inl (Msg (''authenticated status code = '' @ Itoa authorized @ '', want 200'')))
         else doneH (statusVerdict env raw)))"

definition requestBody :: "string \<Rightarrow> bool \<Rightarrow> inferenceBody" where
  "requestBody model anthropic =
     \<lparr>ib_model = model, ib_stream = False, ib_messages = [(''user'', ''compatibility smoke'')], ib_max_tokens = (if anthropic then 16 else 16)\<rparr>"

definition inferenceRequest :: "string \<Rightarrow> string \<Rightarrow> bool \<Rightarrow> hostRequest" where
  "inferenceRequest url raw anthropic =
     \<lparr>hq_Method = ''POST'', hq_URL = url,
      hq_Header = (''Content-Type'', ''application/json'') #
        (if anthropic then [(''X-Api-Key'', clientKey), (''Anthropic-Version'', ''2023-06-01'')] else [(''Authorization'', ''Bearer '' @ clientKey)]),
      hq_Body = raw\<rparr>"

definition inferenceRoundTrip :: "hostSystem \<Rightarrow> string \<Rightarrow> string \<Rightarrow> string \<Rightarrow> string \<Rightarrow> bool \<Rightarrow> unit hostProg" where
  "inferenceRoundTrip env baseURL path model marker anthropic =
     bindH (doneH (sy_marshalInference env (requestBody model anthropic))) (\<lambda>raw.
       case sy_newRequest env ''POST'' (baseURL @ path) of
         Some err \<Rightarrow> doneH (Inl err)
       | None \<Rightarrow> bindH (performRequest env (inferenceRequest (baseURL @ path) raw anthropic)) (\<lambda>(status, body).
           doneH (guardR (\<not> (status \<noteq> 200 \<or> \<not> Contains body marker))
             (model @ '' inference status = '' @ Itoa status @ '', marker '' @ sy_quote env marker @ '' absent; body '' @ sy_quote env body))))"

definition logPath :: "string \<Rightarrow> string" where "logPath root = joinPath root ''host.log''"

definition rejectSchedulerErrors :: "hostSystem \<Rightarrow> string \<Rightarrow> unit hostProg" where
  "rejectSchedulerErrors env root =
     bindH (askH (\<lambda>t. sy_readFile env t (logPath root))) (\<lambda>log. doneH
       (case find (Contains log) [''zai_unmanaged_candidate'', ''scheduler rejected auth pick''] of
          Some marker \<Rightarrow> Inl (Msg (''host log contains scheduler failure '' @ sy_quote env marker @ NL @ ''host log:'' @ NL @ log))
        | None \<Rightarrow> Inr ()))"

definition withHostLog :: "hostSystem \<Rightarrow> string \<Rightarrow> unit hostProg \<Rightarrow> unit hostProg" where
  "withHostLog env root p r =
     (case p r of
        Some (Inl cause, r') \<Rightarrow>
          Some (case sy_readFile env (hr_trace r') (logPath root) of
                  Inl _ \<Rightarrow> Inl cause
                | Inr raw \<Rightarrow> Inl (Msg (error_text cause @ NL @ ''host log:'' @ NL @ raw)), r')
      | other \<Rightarrow> other)"

definition proxyVariables :: "string list" where
  "proxyVariables = [''HTTP_PROXY'', ''HTTPS_PROXY'', ''ALL_PROXY'', ''NO_PROXY'']"

definition variableName :: "string \<Rightarrow> string" where
  "variableName item = ToUpper (takeWhile (\<lambda>ch. ch \<noteq> CHR ''='') item)"

definition cleanProxyEnvironment :: "string list \<Rightarrow> string list" where
  "cleanProxyEnvironment environment =
     filter (\<lambda>item. variableName item \<notin> set proxyVariables) environment @ [''NO_PROXY=*'', ''no_proxy=*'']"

section \<open>Running the host\<close>

definition configLines :: "string list \<Rightarrow> string" where
  "configLines ls = concat (map (\<lambda>l. l @ NL) ls)"

definition hostConfig :: "(string \<Rightarrow> string) \<Rightarrow> int \<Rightarrow> string \<Rightarrow> string \<Rightarrow> string \<Rightarrow> string" where
  "hostConfig quote port authDir pluginsDir configPath = configLines
     [''host: \"127.0.0.1\"'',
      ''port: '' @ Itoa port,
      ''remote-management:'',
      ''  allow-remote: false'',
      ''  secret-key: '' @ quote managementKey,
      ''  disable-control-panel: true'',
      ''auth-dir: '' @ quote authDir,
      ''api-keys: ['' @ quote clientKey @ '']'',
      ''force-model-prefix: true'',
      ''claude-api-key:'',
      ''  - api-key: '' @ quote smokePlanKey,
      ''    base-url: https://api.z.ai/api/anthropic'',
      ''    prefix: zai'',
      ''    headers:'',
      ''      X-CPA-Smoke-Lane: anthropic'',
      ''    models:'',
      ''      - name: smoke-upstream-anthropic'',
      ''        alias: smoke-model'',
      ''openai-compatibility:'',
      ''  - name: zai-coding-plan'',
      ''    prefix: zai-openai'',
      ''    base-url: https://api.z.ai/api/coding/paas/v4'',
      ''    headers:'',
      ''      X-CPA-Smoke-Lane: openai'',
      ''    api-key-entries:'',
      ''      - api-key: '' @ quote smokePlanKey,
      ''    models:'',
      ''      - name: smoke-upstream-openai'',
      ''        alias: smoke-model'',
      ''plugins:'',
      ''  enabled: true'',
      ''  dir: '' @ quote pluginsDir,
      ''  configs:'',
      ''    subscription-pool:'',
      ''      enabled: true'',
      ''      priority: 1000'',
      ''      cpa-config-path: '' @ quote configPath,
      ''      providers:'',
      ''        zai:'',
      ''          quota-refresh-interval: 1m'',
      ''          authoritative-max-age: 3m'',
      ''          default-plan: pro'',
      ''          accounts:'',
      ''            - key-suffix: 000001'',
      ''              name: release-integration'',
      ''              plan: pro'']"

text \<open>The checks against the running host. File modes are decimal: 493, 448 and 384 are \<open>0o755\<close>, \<open>0o700\<close> and \<open>0o600\<close>.\<close>

definition hostChecks :: "hostSystem \<Rightarrow> string \<Rightarrow> string \<Rightarrow> string \<Rightarrow> unit hostProg" where
  "hostChecks env root baseURL imageName =
     bindH (withHostLog env root (waitForRegistered env baseURL)) (\<lambda>_.
     bindH (withHostLog env root (verifyStatusAuthentication env baseURL)) (\<lambda>_.
     bindH (withHostLog env root (inferenceRoundTrip env baseURL ''/v1/messages'' ''zai/smoke-model'' ''anthropic smoke ok'' True)) (\<lambda>_.
     bindH (withHostLog env root (inferenceRoundTrip env baseURL ''/v1/chat/completions'' ''zai-openai/smoke-model'' ''openai smoke ok'' False)) (\<lambda>_.
     bindH (withHostLog env root (askH (\<lambda>t. assertRequests (sy_stub env t)))) (\<lambda>_.
     bindH (rejectSchedulerErrors env root) (\<lambda>_.
       actH (\<lambda>_. Inr ()) (\<lambda>_. Printed (imageName @
         '': registered with scheduler, usage_plugin, management_api; real scheduler picks served zai/* and zai-openai/* with HTTP 200'' @ NL))))))))"

definition startHost :: "hostSystem \<Rightarrow> string \<Rightarrow> string \<Rightarrow> string \<Rightarrow> unit hostProg" where
  "startHost env hostBinary configPath caPath =
     actH (\<lambda>t. wrapR ''start tested host binary'' (unitR (sy_start env t hostBinary)))
       (\<lambda>_. HostStarted hostBinary configPath (cleanProxyEnvironment (sy_environ env @ [''SSL_CERT_FILE='' @ caPath])))"

definition runHost :: "hostSystem \<Rightarrow> string \<Rightarrow> string \<Rightarrow> string \<Rightarrow> string \<Rightarrow> string \<Rightarrow> unit hostProg" where
  "runHost env root caPath hostBinary plugin imageName =
     (let pluginDir = joinPath (joinPath (joinPath root ''plugins'') ''linux'') ''amd64''; authDir = joinPath root ''auth'' in
      bindH (mkdirAllH env pluginDir 493) (\<lambda>_.
      bindH (mkdirAllH env authDir 448) (\<lambda>_.
      bindH (copyFile env (joinPath pluginDir (integrationPluginID @ ''-v0.2.0.so'')) plugin 493) (\<lambda>_.
      bindH (availablePort env) (\<lambda>port.
        let configPath = joinPath root ''config.yaml'' in
        bindH (writeFileH env configPath (hostConfig (sy_quote env) port authDir (joinPath root ''plugins'') configPath) 384) (\<lambda>_.
        bindH (actH (\<lambda>t. unitR (sy_openLog env t (logPath root))) (\<lambda>_. LogOpened (logPath root))) (\<lambda>_. deferH LogClosed (
        bindH (startHost env hostBinary configPath caPath) (\<lambda>_. deferH HostKilled (
          hostChecks env root (''http://127.0.0.1:'' @ Itoa port) imageName))))))))))"

definition verifyHostHTTP :: "hostSystem \<Rightarrow> string \<Rightarrow> string \<Rightarrow> string \<Rightarrow> unit hostProg" where
  "verifyHostHTTP env hostBinary plugin imageName =
     bindH (mkdirTempH env ''zai-host-integration-'') (\<lambda>root. deferH (RemovedAll root) (
     bindH (actH (\<lambda>t. sy_startStub env t root) StubStarted) (\<lambda>caPath. deferH StubStopped (
       runHost env root caPath hostBinary plugin imageName))))"

section \<open>The capability check\<close>

definition capabilityConfig :: "(string \<Rightarrow> string) \<Rightarrow> string \<Rightarrow> string" where
  "capabilityConfig quote authDir = configLines
     [''auth-dir: '' @ quote authDir,
      ''claude-api-key:'',
      ''  - api-key: '' @ quote smokePlanKey,
      ''    base-url: https://api.z.ai/api/anthropic'',
      ''    prefix: zai'',
      ''    headers:'',
      ''      X-CPA-Smoke-Lane: anthropic'',
      ''openai-compatibility:'',
      ''  - name: zai-coding-plan'',
      ''    prefix: zai-openai'',
      ''    base-url: https://api.z.ai/api/coding/paas/v4'',
      ''    api-key-entries:'',
      ''      - api-key: '' @ quote smokePlanKey,
      ''plugins:'',
      ''  enabled: true'',
      ''  dir: plugins'',
      ''  configs:'',
      ''    subscription-pool:'',
      ''      enabled: true'',
      ''      priority: 1000'']"

definition capabilityPluginConfig :: "string \<Rightarrow> string" where
  "capabilityPluginConfig cpaConfigPath = configLines
     [''cpa-config-path: '' @ cpaConfigPath,
      ''providers:'',
      ''  zai:'',
      ''    default-plan: pro'',
      ''    accounts:'',
      ''      - key-suffix: 000001'',
      ''        name: release-capability'',
      ''        plan: pro'']"

definition showBool :: "bool \<Rightarrow> string" where
  "showBool b = (if b then ''true'' else ''false'')"

definition registrationVerdict :: "hostSystem \<Rightarrow> string \<Rightarrow> go_error option \<Rightarrow> unit result" where
  "registrationVerdict env raw callErr =
     bindR (case callErr of Some err \<Rightarrow> if raw = [] then Inl (Wrapped ''plugin registration'' err) else Inr () | None \<Rightarrow> Inr ()) (\<lambda>_.
     bindR (wrapR ''decode registration envelope'' (sy_decodeEnvelope env raw)) (\<lambda>(ok, payload).
       if payload = [] then Inl (Msg ''registration returned no result'')
       else bindR (wrapR ''decode registration result'' (sy_decodeRegistration env payload)) (\<lambda>caps.
         guardR (\<not> (\<not> ok \<or> \<not> cp_Scheduler caps \<or> \<not> cp_UsagePlugin caps \<or> \<not> cp_ManagementAPI caps))
           (''required capabilities not advertised: scheduler='' @ showBool (cp_Scheduler caps) @ '' usage_plugin='' @ showBool (cp_UsagePlugin caps) @
            '' management_api='' @ showBool (cp_ManagementAPI caps)))))"

text \<open>What surrounds the loaded plugin: the ABI version, the allocator, the linker and the register method.\<close>

record ('k, 'w) pluginLoader =
  pl_version :: "32 word"
  pl_malloc :: allocator
  pl_dlopen :: "('k, 'w) linker"
  pl_register :: string

definition registerCapabilities ::
  "hostSystem \<Rightarrow> ('k, 'w) pluginLoader \<Rightarrow> 'k \<Rightarrow> ('k, 'w) abiClient \<Rightarrow> string \<Rightarrow> hostRun \<Rightarrow> 'w machine \<Rightarrow> ('w, unit result \<times> hostRun) ceffect" where
  "registerCapabilities env ld k cli root r w =
     (let cpaConfigPath = joinPath root ''config.yaml''; raw = capabilityConfig (sy_quote env) (joinPath root ''auth'') in
      case sy_writeFile env (hr_trace r) cpaConfigPath raw of
        Some err \<Rightarrow> Inr ((Inl err, r), w)
      | None \<Rightarrow>
          let r1 = emit (WroteFile cpaConfigPath raw 384) r in
          (case sy_marshalLifecycle env (capabilityPluginConfig cpaConfigPath) of
             Inl err \<Rightarrow> Inr ((Inl err, r1), w)
           | Inr request \<Rightarrow>
               bindC (client_Call (pl_malloc ld) k (Some cli) (pl_register ld) request w) (\<lambda>(out, callErr) w1.
                 Inr ((registrationVerdict env out callErr, r1), w1))))"

definition verifyCapabilities ::
  "hostSystem \<Rightarrow> ('k, 'w) pluginLoader \<Rightarrow> 'k \<Rightarrow> string \<Rightarrow> hostRun \<Rightarrow> 'w machine \<Rightarrow> ('w, unit result \<times> hostRun) ceffect" where
  "verifyCapabilities env ld k plugin r w =
     bindC (client_Open (pl_version ld) (pl_malloc ld) (pl_dlopen ld) plugin k w) (\<lambda>opened w1.
       case opened of
         Inl err \<Rightarrow> Inr ((Inl (Wrapped ''load plugin registration'' err), r), w1)
       | Inr cli \<Rightarrow>
           bindC
             (case sy_mkdirTemp env (hr_trace r) ''zai-capability-check-'' of
                Inl err \<Rightarrow> Inr ((Inl err, r), w1)
              | Inr root \<Rightarrow>
                  bindC (registerCapabilities env ld k cli root (emit (MadeTemp root) r) w1) (\<lambda>(verdict, r2) w2.
                    Inr ((verdict, emit (RemovedAll root) r2), w2)))
             (\<lambda>res w3. bindC (client_Close k (Some cli) w3) (\<lambda>_ w4. Inr (res, w4))))"

text \<open>The outcome of the program: a fault of the process, no return, or an exit with its error.\<close>

datatype 'w runOutcome = RunFault cfault | RunHangs | RunExits "unit result" hostRun "'w machine"

definition runIntegration ::
  "hostSystem \<Rightarrow> ('k, 'w) pluginLoader \<Rightarrow> 'k \<Rightarrow> string list \<Rightarrow> hostRun \<Rightarrow> 'w machine \<Rightarrow> 'w runOutcome" where
  "runIntegration env ld k args r w =
     (case flagParse [(''host-binary'', []), (''plugin'', []), (''image'', ''host image'')] args of
        Inl err \<Rightarrow> RunExits (Inl err) r w
      | Inr (flags, rest) \<Rightarrow>
          let hostBinary = mget_or [] flags ''host-binary''; plugin = mget_or [] flags ''plugin'' in
          if rest \<noteq> [] then RunExits (Inl (Msg (''unexpected arguments: '' @ Join rest '' ''))) r w
          else if hostBinary = [] \<or> plugin = [] then RunExits (Inl (Msg ''host-binary and plugin are required'')) r w
          else
            (case verifyCapabilities env ld k plugin r w of
               Inl fault \<Rightarrow> RunFault fault
             | Inr ((Inl err, r1), w1) \<Rightarrow> RunExits (Inl err) r1 w1
             | Inr ((Inr _, r1), w1) \<Rightarrow>
                 (case verifyHostHTTP env hostBinary plugin (mget_or [] flags ''image'') r1 of
                    None \<Rightarrow> RunHangs
                  | Some (res, r2) \<Rightarrow> RunExits res r2 w1)))"

text \<open>\<open>main\<close> exits with 1 on an error.\<close>

definition exitStatus :: "'w runOutcome \<Rightarrow> int option" where
  "exitStatus out = (case out of RunExits (Inr _) _ _ \<Rightarrow> Some 0 | RunExits (Inl _) _ _ \<Rightarrow> Some 1 | _ \<Rightarrow> None)"

end
