(* ===== verification/IntegrationInv.thy ===== *)
theory IntegrationInv
  imports HostIntegration
begin

text \<open>
  Properties of the host integration test: it returns, it releases what it acquires on every
  path, and it only succeeds when every check was answered as required.
\<close>

named_theorems host_prog \<open>rules for the programs of the integration test\<close>

section \<open>Resources\<close>

text \<open>What the test acquires, innermost first. A request needs a running host.\<close>

datatype hostResource = TempDir string | UpstreamServer | LogFile | HostProcess

fun resourceStep :: "hostEvent \<Rightarrow> hostResource list \<Rightarrow> hostResource list option" where
  "resourceStep (MadeTemp root) st = Some (TempDir root # st)"
| "resourceStep (RemovedAll root) (TempDir root' # st) = (if root = root' then Some st else None)"
| "resourceStep (StubStarted ca) st = Some (UpstreamServer # st)"
| "resourceStep StubStopped (UpstreamServer # st) = Some st"
| "resourceStep (LogOpened path) st = Some (LogFile # st)"
| "resourceStep LogClosed (LogFile # st) = Some st"
| "resourceStep (HostStarted bin config vars) st = Some (HostProcess # st)"
| "resourceStep HostKilled (HostProcess # st) = Some st"
| "resourceStep (Requested req) st = (if HostProcess \<in> set st then Some st else None)"
| "resourceStep (MadeDir path mode) st = Some st"
| "resourceStep (WroteFile path raw mode) st = Some st"
| "resourceStep (Slept d) st = Some st"
| "resourceStep (Printed s) st = Some st"
| "resourceStep ev st = None"

fun resourcesAfter :: "hostResource list \<Rightarrow> hostTrace \<Rightarrow> hostResource list option" where
  "resourcesAfter st [] = Some st"
| "resourcesAfter st (ev # t) = (case resourceStep ev st of None \<Rightarrow> None | Some st' \<Rightarrow> resourcesAfter st' t)"

lemma resourcesAfter_append: "resourcesAfter st t = Some st' \<Longrightarrow> resourcesAfter st (t @ t') = resourcesAfter st' t'"
  by (induction t arbitrary: st) (auto split: option.splits)

definition balanced :: "hostResource list \<Rightarrow> 'a hostProg \<Rightarrow> bool" where
  "balanced st p \<longleftrightarrow> (\<forall>r res r'. p r = Some (res, r') \<longrightarrow> (\<exists>t. hr_trace r' = hr_trace r @ t \<and> resourcesAfter st t = Some st))"

lemma balancedD:
  assumes "balanced st p" "p r = Some (res, r')"
  obtains t where "hr_trace r' = hr_trace r @ t" "resourcesAfter st t = Some st"
  using assms unfolding balanced_def by blast

lemma balanced_bind [host_prog]:
  assumes "balanced st p" "\<And>x. balanced st (f x)"
  shows "balanced st (bindH p f)"
  unfolding balanced_def
proof (intro allI impI)
  fix r res r'
  assume b: "bindH p f r = Some (res, r')"
  then obtain res1 r1 where 1: "p r = Some (res1, r1)" by (auto simp: bindH_def split: option.splits)
  obtain t1 where t1: "hr_trace r1 = hr_trace r @ t1" "resourcesAfter st t1 = Some st" by (rule balancedD [OF assms(1) 1])
  show "\<exists>t. hr_trace r' = hr_trace r @ t \<and> resourcesAfter st t = Some st"
  proof (cases res1)
    case (Inl err)
    then show ?thesis using b 1 t1 by (simp add: bindH_def)
  next
    case (Inr x)
    then have "f x r1 = Some (res, r')" using b 1 by (simp add: bindH_def)
    then obtain t2 where "hr_trace r' = hr_trace r1 @ t2" "resourcesAfter st t2 = Some st" by (rule balancedD [OF assms(2)])
    then show ?thesis using t1 by (intro exI [of _ "t1 @ t2"]) (simp add: resourcesAfter_append)
  qed
qed

lemma balanced_quiet:
  "(\<And>r res r'. p r = Some (res, r') \<Longrightarrow> hr_trace r' = hr_trace r) \<Longrightarrow> balanced st p"
  unfolding balanced_def by (metis append_Nil2 resourcesAfter.simps(1))

lemma balanced_done [host_prog]: "balanced st (doneH res)" "balanced st (askH ans)"
  by (rule balanced_quiet; simp add: doneH_def askH_def)+

lemma balanced_act:
  assumes "\<And>x. resourceStep (ev x) st = Some st"
  shows "balanced st (actH ans ev)"
  unfolding balanced_def
proof (intro allI impI)
  fix r res r'
  assume a: "actH ans ev r = Some (res, r')"
  then show "\<exists>t. hr_trace r' = hr_trace r @ t \<and> resourcesAfter st t = Some st"
  proof (cases "ans (hr_trace r)")
    case (Inl err)
    then show ?thesis using a by (simp add: actH_def)
  next
    case (Inr x)
    then show ?thesis using a assms [of x] by (intro exI [of _ "[ev x]"]) (auto simp: actH_def emit_def)
  qed
qed

lemma balanced_acquire:
  assumes "\<And>x. resourceStep (ev x) st = Some (res x # st)" "\<And>x. resourceStep (rel x) (res x # st) = Some st"
    and "\<And>x. balanced (res x # st) (body x)"
  shows "balanced st (bindH (actH ans ev) (\<lambda>x. deferH (rel x) (body x)))"
  unfolding balanced_def
proof (intro allI impI)
  fix r out r'
  assume a: "bindH (actH ans ev) (\<lambda>x. deferH (rel x) (body x)) r = Some (out, r')"
  show "\<exists>t. hr_trace r' = hr_trace r @ t \<and> resourcesAfter st t = Some st"
  proof (cases "ans (hr_trace r)")
    case (Inl err)
    then show ?thesis using a by (simp add: actH_def bindH_def)
  next
    case (Inr x)
    then obtain r1 where 1: "body x (emit (ev x) r) = Some (out, r1)" "r' = emit (rel x) r1"
      using a by (auto simp: actH_def bindH_def deferH_def)
    obtain t where t: "hr_trace r1 = hr_trace (emit (ev x) r) @ t" "resourcesAfter (res x # st) t = Some (res x # st)"
      by (rule balancedD [OF assms(3) 1(1)])
    show ?thesis using t 1(2) assms(1,2) [of x] by (intro exI [of _ "ev x # t @ [rel x]"]) (simp add: emit_def resourcesAfter_append)
  qed
qed

lemma balanced_request [host_prog]: "HostProcess \<in> set st \<Longrightarrow> balanced st (performRequest env req)"
  unfolding balanced_def performRequest_def
  by (auto simp: emit_def Let_def split: prod.splits httpOutcome.splits option.splits)

lemma balanced_requestJSON [host_prog]: "HostProcess \<in> set st \<Longrightarrow> balanced st (requestJSON env verb url key)"
  unfolding requestJSON_def by (auto intro: host_prog split: option.splits)

lemma balanced_registered [host_prog]: "HostProcess \<in> set st \<Longrightarrow> balanced st (pluginRegistered env baseURL)"
  unfolding pluginRegistered_def by (auto intro!: host_prog split: prod.splits)

lemma sleepFor_trace: "hr_trace (sleepFor env d r) = hr_trace r @ [Slept d]"
  by (simp add: sleepFor_def emit_def)

text \<open>What holds of every way the polling loop can return.\<close>

lemma wait_loop_rule:
  assumes "waitLoop env baseURL endTime r = Some y"
    and "\<And>r err. P r (Inl err, r)"
    and "\<And>r r1. pluginRegistered env baseURL r = Some (Inr True, r1) \<Longrightarrow> P r (Inr (), r1)"
    and "\<And>r res r1 y. pluginRegistered env baseURL r = Some (res, r1) \<Longrightarrow> P (sleepFor env (250 * Millisecond) r1) y \<Longrightarrow> P r y"
  shows "P r y"
  using assms
proof (induction rule: waitLoop.raw_induct [rotated, consumes 1, case_names again])
  case (again loop env baseURL endTime r y)
  show ?case
  proof (cases "hr_now r < endTime")
    case False
    then show ?thesis using again(2,3) by auto
  next
    case True
    then obtain res r1 where p: "pluginRegistered env baseURL r = Some (res, r1)" using again(2) by (auto split: option.splits)
    show ?thesis
    proof (cases "res = Inr True")
      case True
      then show ?thesis using again(2,4) \<open>hr_now r < endTime\<close> p by auto
    next
      case False
      then have "loop env baseURL endTime (sleepFor env (250 * Millisecond) r1) = Some y" using again(2) True p by simp
      then have "P (sleepFor env (250 * Millisecond) r1) y" by (rule again(1)) (fact again)+
      then show ?thesis by (rule again(5) [OF p])
    qed
  qed
qed

lemma balanced_wait_loop [host_prog]:
  assumes "HostProcess \<in> set st"
  shows "balanced st (waitLoop env baseURL endTime)"
proof -
  have "\<exists>t. hr_trace (snd y) = hr_trace r @ t \<and> resourcesAfter st t = Some st" if "waitLoop env baseURL endTime r = Some y" for r y
    using that
  proof (rule wait_loop_rule)
    fix r res r1 and y :: "unit result \<times> hostRun"
    assume p: "pluginRegistered env baseURL r = Some (res, r1)"
      and "\<exists>t. hr_trace (snd y) = hr_trace (sleepFor env (250 * Millisecond) r1) @ t \<and> resourcesAfter st t = Some st"
    then obtain t2 where t2: "hr_trace (snd y) = hr_trace r1 @ [Slept (250 * Millisecond)] @ t2" "resourcesAfter st t2 = Some st"
      by (auto simp: sleepFor_trace)
    obtain t1 where t1: "hr_trace r1 = hr_trace r @ t1" "resourcesAfter st t1 = Some st"
      by (rule balancedD [OF balanced_registered [OF assms] p])
    show "\<exists>t. hr_trace (snd y) = hr_trace r @ t \<and> resourcesAfter st t = Some st"
      using t1 t2 by (intro exI [of _ "t1 @ Slept (250 * Millisecond) # t2"]) (simp add: resourcesAfter_append)
  qed (auto elim!: balancedD [OF balanced_registered [OF assms]])
  then show ?thesis unfolding balanced_def by (metis snd_conv)
qed

lemma balanced_wait [host_prog]: "HostProcess \<in> set st \<Longrightarrow> balanced st (waitForRegistered env baseURL)"
  using balanced_wait_loop [of st env baseURL] unfolding balanced_def waitForRegistered_def by blast

lemma balanced_log [host_prog]: "balanced st p \<Longrightarrow> balanced st (withHostLog env root p)"
  unfolding balanced_def withHostLog_def by (auto split: option.splits sum.splits)

lemma balanced_status [host_prog]: "HostProcess \<in> set st \<Longrightarrow> balanced st (verifyStatusAuthentication env baseURL)"
  unfolding verifyStatusAuthentication_def by (auto intro!: host_prog split: prod.splits)

lemma balanced_inference [host_prog]: "HostProcess \<in> set st \<Longrightarrow> balanced st (inferenceRoundTrip env baseURL path model marker anthropic)"
  unfolding inferenceRoundTrip_def by (auto intro!: host_prog split: option.splits prod.splits)

lemma balanced_reject [host_prog]: "balanced st (rejectSchedulerErrors env root)"
  unfolding rejectSchedulerErrors_def by (intro host_prog)

lemma balanced_checks [host_prog]: "HostProcess \<in> set st \<Longrightarrow> balanced st (hostChecks env root baseURL imageName)"
  unfolding hostChecks_def by (intro host_prog balanced_act) simp_all

lemma balanced_run_host [host_prog]: "balanced st (runHost env root caPath hostBinary plugin imageName)"
  unfolding runHost_def mkdirAllH_def copyFile_def availablePort_def writeFileH_def startHost_def Let_def
  by (intro host_prog balanced_act balanced_acquire [where res = "\<lambda>_. LogFile"] balanced_acquire [where res = "\<lambda>_. HostProcess"]) simp_all

lemma balanced_verify: "balanced st (verifyHostHTTP env hostBinary plugin imageName)"
  unfolding verifyHostHTTP_def mkdirTempH_def
  by (intro host_prog balanced_acquire [where res = "TempDir"] balanced_acquire [where res = "\<lambda>_. UpstreamServer"]) simp_all

section \<open>Returning\<close>

text \<open>
  The documented behaviour of the clock and of the HTTP client with its timeout of five seconds:
  a sleep lasts at least as long as asked, a request at most five seconds.
\<close>

definition host_clock_ok :: "hostSystem \<Rightarrow> bool" where
  "host_clock_ok env \<longleftrightarrow> (\<forall>t d. d \<le> sy_sleep env t d) \<and> (\<forall>t req. 0 \<le> snd (sy_do env t req) \<and> snd (sy_do env t req) \<le> 5 * Second)"

definition polls :: "hostTrace \<Rightarrow> nat" where
  "polls t = length (filter (\<lambda>ev. case ev of Requested _ \<Rightarrow> True | _ \<Rightarrow> False) t)"

lemma polls_simps [simp]: "polls [] = 0" "polls (t @ t') = polls t + polls t'" "polls (Slept d # t) = polls t" "polls (Requested req # t) = Suc (polls t)"
  by (simp_all add: polls_def)

lemma performRequest_shape:
  "\<exists>res. performRequest env req r = Some (res, emit (Requested req) (r\<lparr>hr_now := hr_now r + snd (sy_do env (hr_trace r) req)\<rparr>))"
  by (cases "sy_do env (hr_trace r) req") (auto simp: performRequest_def Let_def split: httpOutcome.splits option.splits)

lemma registered_shape:
  assumes "host_clock_ok env"
  obtains res r' t where "pluginRegistered env baseURL r = Some (res, r')" "hr_trace r' = hr_trace r @ t" "polls t \<le> 1"
    "hr_now r \<le> hr_now r'" "hr_now r' \<le> hr_now r + 5 * Second"
proof (cases "sy_newRequest env ''GET'' (baseURL @ pluginListPath)")
  case (Some err)
  then show thesis using that [of "Inl err" r "[]"] by (simp add: pluginRegistered_def requestJSON_def bindH_def doneH_def Second_def)
next
  case None
  let ?req = "\<lparr>hq_Method = ''GET'', hq_URL = baseURL @ pluginListPath, hq_Header = bearer managementKey, hq_Body = []\<rparr>"
  obtain res took where p: "performRequest env ?req r = Some (res, emit (Requested ?req) (r\<lparr>hr_now := hr_now r + took\<rparr>))"
      "took = snd (sy_do env (hr_trace r) ?req)" using performRequest_shape by blast
  have d: "0 \<le> took" "took \<le> 5 * Second" using assms p(2) by (simp_all add: host_clock_ok_def)
  have "\<exists>out. pluginRegistered env baseURL r = Some (out, emit (Requested ?req) (r\<lparr>hr_now := hr_now r + took\<rparr>))"
    using None p(1) by (cases res) (auto simp: pluginRegistered_def requestJSON_def bindH_def doneH_def split: prod.splits)
  then show thesis using that d by (auto simp: emit_def)
qed

lemma wait_loop_returns:
  assumes "host_clock_ok env" "endTime - hr_now r \<le> int n * (250 * Millisecond)"
  shows "\<exists>res r' t. waitLoop env baseURL endTime r = Some (res, r') \<and> hr_trace r' = hr_trace r @ t \<and> polls t \<le> n \<and>
    (res = Inr () \<longrightarrow> hr_now r' < endTime + 5 * Second)"
  using assms(2)
proof (induction n arbitrary: r)
  case 0
  then show ?case by (subst waitLoop.simps) simp
next
  case (Suc n)
  obtain out r1 t1 where p: "pluginRegistered env baseURL r = Some (out, r1)" "hr_trace r1 = hr_trace r @ t1" "polls t1 \<le> 1"
      "hr_now r \<le> hr_now r1" "hr_now r1 \<le> hr_now r + 5 * Second" by (rule registered_shape [OF assms(1)])
  let ?r2 = "sleepFor env (250 * Millisecond) r1"
  have s: "hr_now r1 + 250 * Millisecond \<le> hr_now ?r2" using assms(1) by (simp add: sleepFor_def emit_def host_clock_ok_def)
  then have "endTime - hr_now ?r2 \<le> int n * (250 * Millisecond)" using Suc.prems p(4) by (simp add: algebra_simps)
  from Suc.IH [OF this] obtain res r' t where l: "waitLoop env baseURL endTime ?r2 = Some (res, r')" "hr_trace r' = hr_trace ?r2 @ t"
      "polls t \<le> n" "res = Inr () \<longrightarrow> hr_now r' < endTime + 5 * Second" by auto
  show ?case
  proof (cases "hr_now r < endTime")
    case False
    then show ?thesis by (subst waitLoop.simps) simp
  next
    case True
    show ?thesis
    proof (cases "out = Inr True")
      case True
      then have "waitLoop env baseURL endTime r = Some (Inr (), r1)" using \<open>hr_now r < endTime\<close> p(1) by (subst waitLoop.simps) simp
      then show ?thesis using \<open>hr_now r < endTime\<close> p(2,3,5) by (intro exI conjI; assumption?) auto
    next
      case False
      then have "waitLoop env baseURL endTime r = Some (res, r')" using True p(1) l(1) by (subst waitLoop.simps) simp
      moreover have "hr_trace r' = hr_trace r @ (t1 @ [Slept (250 * Millisecond)] @ t)" using l(2) p(2) by (simp add: sleepFor_trace)
      ultimately show ?thesis using l(3,4) p(3)
        by (intro exI [of _ res] exI [of _ r'] exI [of _ "t1 @ [Slept (250 * Millisecond)] @ t"]) simp
    qed
  qed
qed

lemma wait_returns:
  assumes "host_clock_ok env"
  shows "\<exists>res r' t. waitForRegistered env baseURL r = Some (res, r') \<and> hr_trace r' = hr_trace r @ t \<and> polls t \<le> 120 \<and>
    (res = Inr () \<longrightarrow> hr_now r' < hr_now r + 35 * Second)"
  using wait_loop_returns [OF assms, of "hr_now r + 30 * Second" r 120 baseURL]
  by (simp add: waitForRegistered_def Second_def Millisecond_def add.commute)

definition returns :: "'a hostProg \<Rightarrow> bool" where
  "returns p \<longleftrightarrow> (\<forall>r. p r \<noteq> None)"

named_theorems host_returns \<open>programs of the integration test that return\<close>

lemma returns_bind [host_returns]: "returns p \<Longrightarrow> (\<And>x. returns (f x)) \<Longrightarrow> returns (bindH p f)"
  unfolding returns_def bindH_def by (auto split: option.splits sum.splits)

lemma returns_basic [host_returns]: "returns (doneH res)" "returns (askH ans)" "returns (actH ans2 ev)" "returns (performRequest env req)"
  by (auto simp: returns_def doneH_def askH_def actH_def performRequest_def Let_def split: sum.splits prod.splits httpOutcome.splits option.splits)

lemma returns_wrap [host_returns]: "returns p \<Longrightarrow> returns (deferH ev p)" "returns q \<Longrightarrow> returns (withHostLog env root q)"
  by (auto simp: returns_def deferH_def withHostLog_def split: option.splits sum.splits)

lemma returns_requestJSON [host_returns]: "returns (requestJSON env verb url key)"
  unfolding requestJSON_def by (auto intro: host_returns split: option.splits)

lemma returns_checks:
  assumes "host_clock_ok env"
  shows "returns (hostChecks env root baseURL imageName)"
proof -
  have w: "returns (waitForRegistered env baseURL)" using wait_returns [OF assms] by (fastforce simp: returns_def)
  have s: "returns (verifyStatusAuthentication env baseURL)"
    unfolding verifyStatusAuthentication_def by (auto intro!: host_returns split: prod.splits)
  have i: "returns (inferenceRoundTrip env baseURL path model marker anthropic)" for path model marker anthropic
    unfolding inferenceRoundTrip_def by (auto intro!: host_returns split: option.splits prod.splits)
  show ?thesis unfolding hostChecks_def rejectSchedulerErrors_def by (intro host_returns w s i)
qed

lemma returns_verify: "host_clock_ok env \<Longrightarrow> returns (verifyHostHTTP env hostBinary plugin imageName)"
  unfolding verifyHostHTTP_def runHost_def mkdirTempH_def mkdirAllH_def copyFile_def availablePort_def writeFileH_def startHost_def Let_def
  by (intro host_returns returns_checks)

section \<open>What success has seen\<close>

definition answered :: "hostSystem \<Rightarrow> hostTrace \<Rightarrow> hostRequest \<Rightarrow> (int \<Rightarrow> string \<Rightarrow> bool) \<Rightarrow> bool" where
  "answered env t req P \<longleftrightarrow>
     (\<exists>t1 t2 status body took. t = t1 @ Requested req # t2 \<and> sy_do env t1 req = (DoResponse status (Some body), took) \<and> P status (limitReader body))"

definition trace_stable :: "(hostTrace \<Rightarrow> bool) \<Rightarrow> bool" where
  "trace_stable Q \<longleftrightarrow> (\<forall>t t'. Q t \<longrightarrow> Q (t @ t'))"

definition ensures :: "'a hostProg \<Rightarrow> ('a \<Rightarrow> hostTrace \<Rightarrow> bool) \<Rightarrow> bool" where
  "ensures p Q \<longleftrightarrow> (\<forall>r res r'. p r = Some (res, r') \<longrightarrow> (\<exists>t. hr_trace r' = hr_trace r @ t) \<and> (\<forall>x. res = Inr x \<longrightarrow> Q x (hr_trace r')))"

lemma ensuresD:
  assumes "ensures p Q" "p r = Some (res, r')"
  obtains t where "hr_trace r' = hr_trace r @ t" "\<forall>x. res = Inr x \<longrightarrow> Q x (hr_trace r')"
proof -
  have "(\<exists>t. hr_trace r' = hr_trace r @ t) \<and> (\<forall>x. res = Inr x \<longrightarrow> Q x (hr_trace r'))" using assms by (simp add: ensures_def)
  then show thesis using that by (elim conjE exE)
qed

lemma stable_answered: "trace_stable (\<lambda>t. answered env t req P)"
  unfolding trace_stable_def answered_def by fastforce

lemma stable_seen: "trace_stable (\<lambda>t. \<exists>t1 t2. t = t1 @ t2 \<and> P t1)"
  unfolding trace_stable_def by (metis append_assoc)

lemma stable_conj: "trace_stable P \<Longrightarrow> trace_stable Q \<Longrightarrow> trace_stable (\<lambda>t. P t \<and> Q t)" "(\<And>x. trace_stable (R x)) \<Longrightarrow> trace_stable (\<lambda>t. \<exists>x. R x t)" "trace_stable (\<lambda>t. b)"
    "(b \<Longrightarrow> trace_stable P) \<Longrightarrow> trace_stable (\<lambda>t. b \<longrightarrow> P t)"
  unfolding trace_stable_def by blast+

lemmas stable_rules = stable_answered stable_seen stable_conj

lemma ensures_bind:
  assumes "ensures p Q1" "\<And>x. ensures (f x) (Q2 x)" "\<And>x. trace_stable (Q1 x)" "\<And>x y t. Q1 x t \<Longrightarrow> Q2 x y t \<Longrightarrow> Q y t"
  shows "ensures (bindH p f) Q"
  unfolding ensures_def
proof (intro allI impI)
  fix r res r'
  assume b: "bindH p f r = Some (res, r')"
  then obtain res1 r1 where 1: "p r = Some (res1, r1)" by (auto simp: bindH_def split: option.splits)
  obtain t1 where t1: "hr_trace r1 = hr_trace r @ t1" "\<And>x. res1 = Inr x \<Longrightarrow> Q1 x (hr_trace r1)" by (rule ensuresD [OF assms(1) 1]) blast
  show "(\<exists>t. hr_trace r' = hr_trace r @ t) \<and> (\<forall>x. res = Inr x \<longrightarrow> Q x (hr_trace r'))"
  proof (cases res1)
    case (Inl err)
    then show ?thesis using b 1 t1 by (auto simp: bindH_def)
  next
    case (Inr x)
    then have f: "f x r1 = Some (res, r')" using b 1 by (simp add: bindH_def)
    obtain t2 where t2: "hr_trace r' = hr_trace r1 @ t2" "\<And>y. res = Inr y \<Longrightarrow> Q2 x y (hr_trace r')"
      by (rule ensuresD [OF assms(2) f]) blast
    have "Q1 x (hr_trace r')" using t1(2) [OF Inr] t2(1) assms(3) [of x] unfolding trace_stable_def by simp
    then show ?thesis using t1(1) t2 assms(4) by auto
  qed
qed

lemma ensures_weaken: "ensures p Q \<Longrightarrow> (\<And>x t. Q x t \<Longrightarrow> Q' x t) \<Longrightarrow> ensures p Q'"
  unfolding ensures_def by blast

lemma ensures_done: "(\<And>x t. res = Inr x \<Longrightarrow> Q x t) \<Longrightarrow> ensures (doneH res) Q"
  by (simp add: ensures_def doneH_def)

lemma ensures_ask: "ensures (askH ans) (\<lambda>x t. \<exists>t1 t2. t = t1 @ t2 \<and> ans t1 = Inr x)"
  by (auto simp: ensures_def askH_def)

lemma ensures_act: "ensures (actH ans ev) (\<lambda>_ _. True)"
  by (auto simp: ensures_def actH_def emit_def split: sum.splits)

lemma ensures_defer: "ensures p Q \<Longrightarrow> (\<And>x. trace_stable (Q x)) \<Longrightarrow> ensures (deferH ev p) Q"
  unfolding ensures_def deferH_def trace_stable_def emit_def by fastforce

lemma ensures_log: "ensures p Q \<Longrightarrow> ensures (withHostLog env root p) Q"
  unfolding ensures_def withHostLog_def by (auto split: option.splits sum.splits)

lemma ensures_request: "ensures (performRequest env req) (\<lambda>(status, raw) t. answered env t req (\<lambda>s b. s = status \<and> b = raw))"
  unfolding ensures_def performRequest_def answered_def
  by (fastforce simp: emit_def Let_def split: prod.splits httpOutcome.splits option.splits)

definition getRequest :: "string \<Rightarrow> string \<Rightarrow> hostRequest" where
  "getRequest url key = \<lparr>hq_Method = ''GET'', hq_URL = url, hq_Header = bearer key, hq_Body = []\<rparr>"

lemma ensures_get: "ensures (requestJSON env ''GET'' url key) (\<lambda>(status, raw) t. answered env t (getRequest url key) (\<lambda>s b. s = status \<and> b = raw))"
  using ensures_request [of env "getRequest url key"]
  by (cases "sy_newRequest env ''GET'' url") (auto simp: requestJSON_def getRequest_def intro: ensures_done)

lemma answered_mono: "answered env t req P \<Longrightarrow> (\<And>s b. P s b \<Longrightarrow> P' s b) \<Longrightarrow> answered env t req P'"
  unfolding answered_def by blast

text \<open>The host listed the plugin as configured, registered and effectively enabled.\<close>

definition listEvidence :: "hostSystem \<Rightarrow> int \<Rightarrow> string \<Rightarrow> bool" where
  "listEvidence env status raw \<longleftrightarrow> status = 200 \<and> (\<exists>body. sy_decodeList env raw = Inr body \<and> listedAndEnabled body)"

lemma ensures_registered:
  "ensures (pluginRegistered env baseURL) (\<lambda>ok t. ok \<longrightarrow> answered env t (getRequest (baseURL @ pluginListPath) managementKey) (listEvidence env))"
  unfolding pluginRegistered_def
  by (rule ensures_bind [OF ensures_get, where ?Q2.0 = "\<lambda>(status, raw) ok t. ok \<longrightarrow> listEvidence env status raw"])
    (auto intro!: ensures_done stable_rules simp: listEvidence_def bindR_Inr_iff elim: answered_mono)

lemma ensures_wait:
  "ensures (waitForRegistered env baseURL) (\<lambda>_ t. answered env t (getRequest (baseURL @ pluginListPath) managementKey) (listEvidence env))"
proof -
  let ?Q = "\<lambda>t. answered env t (getRequest (baseURL @ pluginListPath) managementKey) (listEvidence env)"
  have "(\<exists>t. hr_trace (snd y) = hr_trace r @ t) \<and> (\<forall>x. fst y = Inr x \<longrightarrow> ?Q (hr_trace (snd y)))"
    if "waitLoop env baseURL e r = Some y" for e r y
    using that
  proof (rule wait_loop_rule)
    fix r res r1 and y :: "unit result \<times> hostRun"
    assume p: "pluginRegistered env baseURL r = Some (res, r1)"
      and "(\<exists>t. hr_trace (snd y) = hr_trace (sleepFor env (250 * Millisecond) r1) @ t) \<and> (\<forall>x. fst y = Inr x \<longrightarrow> ?Q (hr_trace (snd y)))"
    moreover obtain t1 where "hr_trace r1 = hr_trace r @ t1" by (rule ensuresD [OF ensures_registered p])
    ultimately show "(\<exists>t. hr_trace (snd y) = hr_trace r @ t) \<and> (\<forall>x. fst y = Inr x \<longrightarrow> ?Q (hr_trace (snd y)))"
      by (auto simp: sleepFor_trace)
  qed (auto elim!: ensuresD [OF ensures_registered])
  then show ?thesis unfolding ensures_def waitForRegistered_def by (metis fst_conv snd_conv)
qed

lemma ensures_status:
  "ensures (verifyStatusAuthentication env baseURL)
     (\<lambda>_ t. answered env t (getRequest (baseURL @ statusPath) []) (\<lambda>s b. s = 401) \<and>
            answered env t (getRequest (baseURL @ statusPath) managementKey) (\<lambda>s b. s = 200 \<and> statusVerdict env b = Inr ()))"
proof -
  have inner: "ensures (bindH (requestJSON env ''GET'' (baseURL @ statusPath) managementKey) (\<lambda>(authorized, raw).
      if authorized \<noteq> 200 then doneH (Inl (Msg (''authenticated status code = '' @ Itoa authorized @ '', want 200''))) else doneH (statusVerdict env raw)))
      (\<lambda>_ t. answered env t (getRequest (baseURL @ statusPath) managementKey) (\<lambda>s b. s = 200 \<and> statusVerdict env b = Inr ()))"
    by (rule ensures_bind [OF ensures_get, where ?Q2.0 = "\<lambda>(status, raw) _ _. status = 200 \<and> statusVerdict env raw = Inr ()"])
      (auto intro!: ensures_done stable_rules elim: answered_mono)
  show ?thesis unfolding verifyStatusAuthentication_def
    by (rule ensures_bind [OF ensures_get, where ?Q2.0 = "\<lambda>(status, raw) _ t. status = 401 \<and>
        answered env t (getRequest (baseURL @ statusPath) managementKey) (\<lambda>s b. s = 200 \<and> statusVerdict env b = Inr ())"])
      (auto intro!: ensures_done stable_rules intro: ensures_weaken [OF inner] elim: answered_mono)
qed

lemma ensures_inference:
  "ensures (inferenceRoundTrip env baseURL path model marker anthropic)
     (\<lambda>_ t. \<exists>raw. answered env t (inferenceRequest (baseURL @ path) raw anthropic) (\<lambda>s b. s = 200 \<and> Contains b marker))"
proof -
  have r: "ensures (bindH (performRequest env (inferenceRequest url raw anthropic)) (\<lambda>(status, body). doneH (guardR (\<not> (status \<noteq> 200 \<or> \<not> Contains body marker)) (m status body))))
      (\<lambda>_ t. answered env t (inferenceRequest url raw anthropic) (\<lambda>s b. s = 200 \<and> Contains b marker))" for url raw m
    by (rule ensures_bind [OF ensures_request, where ?Q2.0 = "\<lambda>(status, body) _ _. status = 200 \<and> Contains body marker"])
      (auto intro!: ensures_done stable_rules elim: answered_mono)
  show ?thesis unfolding inferenceRoundTrip_def
  proof (rule ensures_bind [where ?Q1.0 = "\<lambda>_ _. True"])
    fix raw
    show "ensures (case sy_newRequest env ''POST'' (baseURL @ path) of Some err \<Rightarrow> doneH (Inl err)
        | None \<Rightarrow> bindH (performRequest env (inferenceRequest (baseURL @ path) raw anthropic)) (\<lambda>(status, body).
            doneH (guardR (\<not> (status \<noteq> 200 \<or> \<not> Contains body marker))
              (model @ '' inference status = '' @ Itoa status @ '', marker '' @ sy_quote env marker @ '' absent; body '' @ sy_quote env body))))
        (\<lambda>_ t. answered env t (inferenceRequest (baseURL @ path) raw anthropic) (\<lambda>s b. s = 200 \<and> Contains b marker))"
      by (cases "sy_newRequest env ''POST'' (baseURL @ path)") (simp_all only: option.case r, rule ensures_done, simp)
  qed (auto intro!: ensures_done stable_rules)
qed

lemma ensures_reject:
  "ensures (rejectSchedulerErrors env root)
     (\<lambda>_ t. \<exists>log. (\<exists>t1 t2. t = t1 @ t2 \<and> sy_readFile env t1 (logPath root) = Inr log) \<and>
        \<not> Contains log ''zai_unmanaged_candidate'' \<and> \<not> Contains log ''scheduler rejected auth pick'')"
  unfolding rejectSchedulerErrors_def
  by (rule ensures_bind [OF ensures_ask _ stable_seen, where ?Q2.0 = "\<lambda>log _ _. \<not> Contains log ''zai_unmanaged_candidate'' \<and> \<not> Contains log ''scheduler rejected auth pick''"])
    (auto intro!: ensures_done simp: find_None_iff split: option.splits if_splits)

text \<open>Everything a successful run has seen of the host it tested.\<close>

definition hostEvidence :: "hostSystem \<Rightarrow> string \<Rightarrow> string \<Rightarrow> hostTrace \<Rightarrow> bool" where
  "hostEvidence env root baseURL t \<longleftrightarrow>
     answered env t (getRequest (baseURL @ pluginListPath) managementKey) (listEvidence env) \<and>
     answered env t (getRequest (baseURL @ statusPath) []) (\<lambda>s b. s = 401) \<and>
     answered env t (getRequest (baseURL @ statusPath) managementKey) (\<lambda>s b. s = 200 \<and> statusVerdict env b = Inr ()) \<and>
     (\<exists>raw. answered env t (inferenceRequest (baseURL @ ''/v1/messages'') raw True) (\<lambda>s b. s = 200 \<and> Contains b ''anthropic smoke ok'')) \<and>
     (\<exists>raw. answered env t (inferenceRequest (baseURL @ ''/v1/chat/completions'') raw False) (\<lambda>s b. s = 200 \<and> Contains b ''openai smoke ok'')) \<and>
     (\<exists>t1 t2. t = t1 @ t2 \<and> mget_or 0 (us_counts (sy_stub env t1)) anthropicUpstreamPath = 1 \<and> mget_or 0 (us_counts (sy_stub env t1)) openAIUpstreamPath = 1) \<and>
     (\<exists>log. (\<exists>t1 t2. t = t1 @ t2 \<and> sy_readFile env t1 (logPath root) = Inr log) \<and>
        \<not> Contains log ''zai_unmanaged_candidate'' \<and> \<not> Contains log ''scheduler rejected auth pick'')"

lemma ensures_then: "ensures p (\<lambda>_. Q1) \<Longrightarrow> trace_stable Q1 \<Longrightarrow> ensures q Q2 \<Longrightarrow> ensures (bindH p (\<lambda>_. q)) (\<lambda>y t. Q1 t \<and> Q2 y t)"
  by (rule ensures_bind [where ?Q1.0 = "\<lambda>_. Q1" and ?Q2.0 = "\<lambda>_. Q2"]) simp_all

lemma ensures_checks: "ensures (hostChecks env root baseURL imageName) (\<lambda>_. hostEvidence env root baseURL)"
proof -
  have a: "ensures (askH (\<lambda>t. assertRequests (sy_stub env t))) (\<lambda>_ t. \<exists>t1 t2. t = t1 @ t2 \<and>
      mget_or 0 (us_counts (sy_stub env t1)) anthropicUpstreamPath = 1 \<and> mget_or 0 (us_counts (sy_stub env t1)) openAIUpstreamPath = 1)"
    by (rule ensures_weaken [OF ensures_ask]) (simp add: assertRequests_ok)
  show ?thesis unfolding hostChecks_def
    by (rule ensures_weaken, (rule ensures_then ensures_log ensures_wait ensures_status ensures_inference a ensures_reject ensures_act stable_rules)+)
      (simp add: hostEvidence_def)
qed

lemma stable_evidence: "trace_stable (hostEvidence env root baseURL)"
  unfolding hostEvidence_def [abs_def] by (intro stable_rules)

lemma ensures_plain: "(\<And>x. ensures (f x) Q) \<Longrightarrow> ensures p (\<lambda>_ _. True) \<Longrightarrow> ensures (bindH p f) Q"
  by (rule ensures_bind [where ?Q1.0 = "\<lambda>_ _. True" and ?Q2.0 = "\<lambda>_. Q"]) (simp_all add: stable_rules)

lemma ensures_trivial: "ensures (askH ans) (\<lambda>_ _. True)"
  by (rule ensures_weaken [OF ensures_ask]) simp

lemma ensures_run_host:
  "ensures (runHost env root caPath hostBinary plugin imageName) (\<lambda>_ t. \<exists>port. hostEvidence env root (''http://127.0.0.1:'' @ Itoa port) t)"
proof -
  have c: "ensures (hostChecks env root (''http://127.0.0.1:'' @ Itoa port) imageName) (\<lambda>_ t. \<exists>port. hostEvidence env root (''http://127.0.0.1:'' @ Itoa port) t)" for port
    by (rule ensures_weaken [OF ensures_checks]) blast
  show ?thesis unfolding runHost_def mkdirAllH_def copyFile_def availablePort_def writeFileH_def startHost_def Let_def
    by (intro ensures_plain ensures_defer ensures_act ensures_trivial stable_rules stable_evidence c)
qed

lemma ensures_verify:
  "ensures (verifyHostHTTP env hostBinary plugin imageName) (\<lambda>_ t. \<exists>root port. hostEvidence env root (''http://127.0.0.1:'' @ Itoa port) t)"
proof -
  have c: "ensures (runHost env root caPath hostBinary plugin imageName) (\<lambda>_ t. \<exists>root port. hostEvidence env root (''http://127.0.0.1:'' @ Itoa port) t)" for root caPath
    by (rule ensures_weaken [OF ensures_run_host]) blast
  show ?thesis unfolding verifyHostHTTP_def mkdirTempH_def
    by (intro ensures_plain ensures_defer ensures_act stable_rules stable_evidence c)
qed

section \<open>The capability check leaves nothing behind\<close>

lemma register_clean:
  assumes "fresh_malloc (pl_malloc ld)" "client_of (cliproxyPluginCallC (pl_malloc ld) encode abi ops) cliproxyPluginFree cli" "mc_handles w \<noteq> 0"
  shows "case registerCapabilities env ld k cli root r w of
      Inl fault \<Rightarrow> fault \<in> {OutOfMemory, GoPanic}
    | Inr ((verdict, r'), w') \<Rightarrow> mc_heap w' = mc_heap w \<and> mc_handles w' = mc_handles w \<and>
        (\<exists>t. hr_trace r' = hr_trace r @ t \<and> (\<forall>st. resourcesAfter st t = Some st))"
proof -
  have c: "case client_Call (pl_malloc ld) k (Some cli) (pl_register ld) request w of
      Inl fault \<Rightarrow> fault \<in> {OutOfMemory, GoPanic} | Inr (res, w') \<Rightarrow> mc_heap w' = mc_heap w \<and> mc_handles w' = mc_handles w" for request
    by (rule plugin_code.client_call [OF assms])
  show ?thesis
  proof (cases "sy_writeFile env (hr_trace r) (joinPath root ''config.yaml'') (capabilityConfig (sy_quote env) (joinPath root ''auth''))")
    case (Some err)
    then show ?thesis by (simp add: registerCapabilities_def Let_def)
  next
    case None
    show ?thesis
    proof (cases "sy_marshalLifecycle env (capabilityPluginConfig (joinPath root ''config.yaml''))")
      case (Inl err)
      then show ?thesis using None by (simp add: registerCapabilities_def Let_def emit_def)
    next
      case (Inr request)
      then show ?thesis using None c [of request] by (auto simp: registerCapabilities_def Let_def emit_def bindC_def split: sum.splits)
    qed
  qed
qed

lemma capabilities_clean:
  assumes "fresh_malloc (pl_malloc ld)"
    and "\<And>lib. pl_dlopen ld plugin = Inr lib \<Longrightarrow> lb_init lib = Some (cliproxy_plugin_init (pl_version ld) (pl_malloc ld) encode abi ops)"
  shows "case verifyCapabilities env ld k plugin r w of
      Inl fault \<Rightarrow> fault \<in> {OutOfMemory, GoPanic}
    | Inr ((verdict, r'), w') \<Rightarrow> mc_heap w' = mc_heap w \<and> mc_handles w' = mc_handles w \<and>
        (\<exists>t. hr_trace r' = hr_trace r @ t \<and> resourcesAfter [] t = Some [])"
proof -
  consider "client_Open (pl_version ld) (pl_malloc ld) (pl_dlopen ld) plugin k w = Inl OutOfMemory"
    | err where "client_Open (pl_version ld) (pl_malloc ld) (pl_dlopen ld) plugin k w = Inr (Inl err, w)"
    | lib res w1 where "pl_dlopen ld plugin = Inr lib" "client_Open (pl_version ld) (pl_malloc ld) (pl_dlopen ld) plugin k w = Inr (res, w1)"
    using open_outcomes [OF assms(1), of "pl_dlopen ld" plugin] assms(2) by blast
  then show ?thesis
  proof cases
    case 3
    obtain cli where cli: "res = Inr cli" "client_of (cliproxyPluginCallC (pl_malloc ld) encode abi ops) cliproxyPluginFree cli"
        "cli_handle cli = Some lib" "api_shutdown (cli_api cli) = Some (cliproxyPluginShutdownC ops)" "w1 = w\<lparr>mc_handles := Suc (mc_handles w)\<rparr>"
      by (rule open_plugin [OF assms(1) 3(1) assms(2) [OF 3(1)] 3(2)])
    have w1: "mc_handles w1 \<noteq> 0" by (simp add: cli(5))
    note close = close_plugin [OF cli(4,3)]
    show ?thesis
    proof (cases "sy_mkdirTemp env (hr_trace r) ''zai-capability-check-''")
      case (Inl err)
      then show ?thesis using 3(2) cli(1) close [of w1 "mc_handles w" k] by (simp add: verifyCapabilities_def cli(5))
    next
      case (Inr root)
      note reg = register_clean [OF assms(1) cli(2) w1, where env = env and k = k and root = root and r = "emit (MadeTemp root) r"]
      show ?thesis
      proof (cases "registerCapabilities env ld k cli root (emit (MadeTemp root) r) w1")
        case (Inl fault)
        then show ?thesis using reg 3(2) Inr cli(1) by (auto simp: verifyCapabilities_def)
      next
        case r: (Inr x)
        obtain verdict r2 w2 where x: "x = ((verdict, r2), w2)" by (cases x) auto
        obtain t where t: "mc_heap w2 = mc_heap w" "mc_handles w2 = Suc (mc_handles w)" "hr_trace r2 = hr_trace r @ MadeTemp root # t"
            "\<forall>st. resourcesAfter st t = Some st"
          using reg r x by (auto simp: cli(5) emit_def)
        have "resourcesAfter [] (MadeTemp root # t @ [RemovedAll root]) = Some []" using t(4) by (simp add: resourcesAfter_append)
        moreover have "hr_trace (emit (RemovedAll root) r2) = hr_trace r @ MadeTemp root # t @ [RemovedAll root]" using t(3) by (simp add: emit_def)
        ultimately show ?thesis using 3(2) Inr cli(1) r x t(1,2) close [of w2 "mc_handles w" k] by (auto simp: verifyCapabilities_def)
      qed
    qed
  qed (simp_all add: verifyCapabilities_def)
qed

section \<open>A sample run\<close>

text \<open>A host that answers every check, and one that never answers.\<close>

definition sampleStub :: upstreamStub where
  "sampleStub =
     snd (serveHTTP (\<lambda>_. []) (0, 0) \<lparr>sq_Method = ''POST'', sq_Path = openAIUpstreamPath, sq_RequestURI = openAIUpstreamPath, sq_Header = (\<lambda>_. ''openai'')\<rparr>
     (snd (serveHTTP (\<lambda>_. []) (0, 0) \<lparr>sq_Method = ''POST'', sq_Path = anthropicUpstreamPath, sq_RequestURI = anthropicUpstreamPath, sq_Header = (\<lambda>_. ''anthropic'')\<rparr>
       newStub)))"

definition sampleAnswer :: "hostRequest \<Rightarrow> httpOutcome" where
  "sampleAnswer req =
     (if HasSuffix (hq_URL req) pluginListPath then DoResponse 200 (Some ''list'')
      else if HasSuffix (hq_URL req) statusPath then DoResponse (if hq_Header req = [] then 401 else 200) (Some ''status'')
      else if HasSuffix (hq_URL req) ''/v1/messages'' then DoResponse 200 (Some ''anthropic smoke ok'')
      else DoResponse 200 (Some ''openai smoke ok''))"

definition sampleSystem :: hostSystem where
  "sampleSystem =
     \<lparr>sy_mkdirTemp = (\<lambda>_ _. Inr ''/tmp/t''), sy_mkdirAll = (\<lambda>_ _. None), sy_readFile = (\<lambda>_ _. Inr ''started''), sy_writeFile = (\<lambda>_ _ _. None),
      sy_startStub = (\<lambda>_ _. Inr ''ca.pem''), sy_listen = (\<lambda>_. Inr 4000), sy_openLog = (\<lambda>_ _. None), sy_start = (\<lambda>_ _. None),
      sy_newRequest = (\<lambda>_ _. None), sy_do = (\<lambda>_ req. (sampleAnswer req, Second)), sy_sleep = (\<lambda>_ d. d), sy_stub = (\<lambda>_. sampleStub),
      sy_environ = [''HOME=/root'', ''http_proxy=proxy:80''], sy_quote = (\<lambda>s. s),
      sy_decodeList = (\<lambda>_. Inr \<lparr>pb_PluginsEnabled = True, pb_Plugins =
        [\<lparr>pi_ID = integrationPluginID, pi_Configured = True, pi_Registered = True, pi_Enabled = True, pi_EffectiveEnabled = True\<rparr>]\<rparr>),
      sy_decodeStatus = (\<lambda>_. Inr \<lparr>sb_Plugin = integrationPluginID, sb_Status = ''registered'', sb_Providers = []\<rparr>),
      sy_decodeSuffixes = (\<lambda>_. Inr [''redacted'']), sy_marshalInference = (\<lambda>_. Inr ''{}''), sy_marshalLifecycle = (\<lambda>_. Inr ''{}''),
      sy_decodeEnvelope = (\<lambda>raw. if raw = ''ok'' then Inr (True, ''caps'') else Inl (Msg ''error envelope'')),
      sy_decodeRegistration = (\<lambda>_. Inr \<lparr>cp_Scheduler = True, cp_UsagePlugin = True, cp_ManagementAPI = True\<rparr>)\<rparr>"

text \<open>The plugin as the sample sees it: its decoder reads the configuration that the registration carries.\<close>

definition smokeABI :: "(hostedStatus, managementResponse option) pluginABI" where
  "smokeABI = sampleABI\<lparr>ab_lifecycle := (\<lambda>_. Inr [])\<rparr>"

definition smokeLinker :: "(hostedEnv callEnv, hosted Coordinator) linker" where
  "smokeLinker path =
     (if path = ''plugin.so'' then Inr \<lparr>lb_init = Some (cliproxy_plugin_init 1 bumpMalloc sampleEncode smokeABI pluginOps)\<rparr> else Inl ''not found'')"

definition sampleLoader :: "(hostedEnv callEnv, hosted Coordinator) pluginLoader" where
  "sampleLoader = \<lparr>pl_version = 1, pl_malloc = bumpMalloc, pl_dlopen = smokeLinker, pl_register = ''plugin.register''\<rparr>"

definition idleRun :: hostRun where
  "idleRun = \<lparr>hr_now = 0, hr_trace = []\<rparr>"

lemma sample_clock: "host_clock_ok sampleSystem"
  by (simp add: host_clock_ok_def sampleSystem_def Second_def)

definition silentSystem :: hostSystem where
  "silentSystem = sampleSystem\<lparr>sy_do := (\<lambda>_ _. (DoError (Msg ''connection refused''), 5 * Second))\<rparr>"

lemma silent_clock: "host_clock_ok silentSystem"
  by (simp add: host_clock_ok_def silentSystem_def sampleSystem_def Second_def)

lemma sample_checks:
  "case hostChecks sampleSystem root ''http://127.0.0.1:4000'' ''img'' \<lparr>hr_now = 0, hr_trace = t\<rparr> of Some (Inr _, r) \<Rightarrow> True | _ \<Rightarrow> False"
  by code_simp

lemma sample_fields:
  "sy_mkdirTemp sampleSystem t pat = Inr ''/tmp/t''" "sy_mkdirAll sampleSystem t path = None" "sy_readFile sampleSystem t path = Inr ''started''"
  "sy_writeFile sampleSystem t path raw = None" "sy_startStub sampleSystem t root = Inr ''ca.pem''" "sy_listen sampleSystem t = Inr 4000"
  "sy_openLog sampleSystem t path = None" "sy_start sampleSystem t bin = None"
  by (simp_all add: sampleSystem_def)

lemma sample_host:
  "\<exists>r. runHost sampleSystem root ca ''host'' ''plugin.so'' ''img'' \<lparr>hr_now = 0, hr_trace = t\<rparr> = Some (Inr (), r)"
proof -
  have i: "''http://127.0.0.1:'' @ Itoa 4000 = ''http://127.0.0.1:4000''" by code_simp
  have c: "\<exists>r. hostChecks sampleSystem root (''http://127.0.0.1:'' @ Itoa 4000) ''img'' \<lparr>hr_now = 0, hr_trace = t'\<rparr> = Some (Inr (), r)" for t'
    using sample_checks [of root t'] unfolding i by (auto split: option.splits sum.splits)
  show ?thesis
    unfolding runHost_def Let_def bindH_def mkdirAllH_def actH_def copyFile_def askH_def writeFileH_def availablePort_def startHost_def deferH_def emit_def unitR_def wrapR_def
      sample_fields option.case sum.case prod.case hostRun.simps
    using c by simp
qed

lemma sample_run: "\<exists>r. verifyHostHTTP sampleSystem ''host'' ''plugin.so'' ''img'' \<lparr>hr_now = 0, hr_trace = t\<rparr> = Some (Inr (), r)"
  using sample_host [of "''/tmp/t''" "''ca.pem''" "t @ [MadeTemp ''/tmp/t'', StubStarted ''ca.pem'']"]
  by (auto simp: verifyHostHTTP_def bindH_def mkdirTempH_def actH_def deferH_def emit_def sample_fields)

lemma sample_caps: "case verifyCapabilities sampleSystem sampleLoader sampleCall ''plugin.so'' idleRun idleMachine of Inr ((Inr _, r), w) \<Rightarrow> hr_now r = 0 | _ \<Rightarrow> False"
  by code_simp

definition sampleArgs :: "string list" where
  "sampleArgs = [''-host-binary'', ''host'', ''--plugin=plugin.so'', ''-image'', ''img'']"

lemma sample_exit: "exitStatus (runIntegration sampleSystem sampleLoader sampleCall sampleArgs idleRun idleMachine) = Some 0"
proof -
  let ?v = "verifyCapabilities sampleSystem sampleLoader sampleCall ''plugin.so'' idleRun idleMachine"
  obtain verdict r w where v: "?v = Inr ((verdict, r), w)" using sample_caps by (cases ?v) auto
  then have c: "?v = Inr ((Inr (), r), w)" "hr_now r = 0" using sample_caps by (cases verdict; simp)+
  have f: "flagParse [(''host-binary'', []), (''plugin'', []), (''image'', ''host image'')] sampleArgs =
      Inr ([(''host-binary'', ''host''), (''plugin'', ''plugin.so''), (''image'', ''img'')], [])" by code_simp
  have "r = \<lparr>hr_now = 0, hr_trace = hr_trace r\<rparr>" using c(2) by simp
  then obtain r' where "verifyHostHTTP sampleSystem ''host'' ''plugin.so'' ''img'' r = Some (Inr (), r')" using sample_run by metis
  then show ?thesis using c(1) by (simp add: runIntegration_def f mget_or_def exitStatus_def)
qed

lemma run_exits:
  assumes "runIntegration env ld k args r w = RunExits res r' w'"
  shows "isl res \<and> r' = r \<and> w' = w \<or>
    (\<exists>hostBinary plugin imageName verdict r1. verifyCapabilities env ld k plugin r w = Inr ((verdict, r1), w') \<and>
       (isl res \<and> r' = r1 \<or> verifyHostHTTP env hostBinary plugin imageName r1 = Some (res, r')))"
proof (cases "flagParse [(''host-binary'', []), (''plugin'', []), (''image'', ''host image'')] args")
  case (Inl err)
  then show ?thesis using assms by (auto simp: runIntegration_def)
next
  case (Inr x)
  obtain flags rest where x: "x = (flags, rest)" by (cases x)
  let ?v = "verifyCapabilities env ld k (mget_or [] flags ''plugin'') r w"
  show ?thesis
  proof (cases "rest \<noteq> [] \<or> mget_or [] flags ''host-binary'' = [] \<or> mget_or [] flags ''plugin'' = []")
    case True
    then show ?thesis using assms Inr x by (auto simp: runIntegration_def Let_def split: if_splits)
  next
    case False
    then obtain verdict r1 w1 where v: "?v = Inr ((verdict, r1), w1)" using assms Inr x by (cases ?v) (auto simp: runIntegration_def)
    then show ?thesis using assms Inr x False
      by (cases verdict; cases "verifyHostHTTP env (mget_or [] flags ''host-binary'') (mget_or [] flags ''plugin'') (mget_or [] flags ''image'') r1")
        (fastforce simp: runIntegration_def)+
  qed
qed

section \<open>Properties\<close>

text \<open>
  C21. The integration test always returns. With a clock that advances as documented and requests
  that keep the client's timeout of five seconds, waiting for the registration ends after at most
  120 polls, and a positive answer comes within 35 seconds; hence the whole program ends, whatever
  the host does.
\<close>

theorem integration_returns:
  assumes "host_clock_ok env"
  shows "(\<exists>res r' t. waitForRegistered env baseURL r = Some (res, r') \<and> hr_trace r' = hr_trace r @ t \<and> polls t \<le> 120 \<and>
      (res = Inr () \<longrightarrow> hr_now r' < hr_now r + 35 * Second)) \<and>
    runIntegration env ld k args r0 w \<noteq> RunHangs"
proof -
  have n: "verifyHostHTTP env hostBinary plugin imageName r1 = None \<longleftrightarrow> False" for hostBinary plugin imageName r1
    using returns_verify [OF assms] by (simp add: returns_def)
  have "runIntegration env ld k args r0 w \<noteq> RunHangs"
    by (simp add: n runIntegration_def Let_def split: sum.split option.split prod.split)
  then show ?thesis using wait_returns [OF assms] by blast
qed

theorem integration_returns_witness:
  "(\<exists>res r' t. waitForRegistered silentSystem ''http://127.0.0.1:4000'' idleRun = Some (res, r') \<and> hr_trace r' = t \<and> polls t \<le> 120) \<and>
   runIntegration silentSystem sampleLoader sampleCall sampleArgs idleRun idleMachine \<noteq> RunHangs"
  using integration_returns [OF silent_clock, of "''http://127.0.0.1:4000''" idleRun sampleLoader sampleCall sampleArgs idleRun idleMachine]
  by (auto simp: idleRun_def)

text \<open>
  C22. The integration test releases what it acquires. On every exit, error or not, its
  temporary directories are removed, the stub and the host process are stopped and the log is
  closed, each exactly once and in the reverse order; no request is made outside the life of the
  host; and the C heap and the library handles of the plugin under test are as before.
\<close>

theorem integration_releases:
  assumes "fresh_malloc (pl_malloc ld)"
    and "\<And>path lib. pl_dlopen ld path = Inr lib \<Longrightarrow> lb_init lib = Some (cliproxy_plugin_init (pl_version ld) (pl_malloc ld) encode abi ops)"
    and "runIntegration env ld k args r w = RunExits res r' w'"
  shows "(\<exists>t. hr_trace r' = hr_trace r @ t \<and> resourcesAfter [] t = Some []) \<and> mc_heap w' = mc_heap w \<and> mc_handles w' = mc_handles w"
proof (cases "r' = r \<and> w' = w")
  case False
  obtain hostBinary plugin imageName verdict r1 where v: "verifyCapabilities env ld k plugin r w = Inr ((verdict, r1), w')"
      "r' = r1 \<or> verifyHostHTTP env hostBinary plugin imageName r1 = Some (res, r')"
    using run_exits [OF assms(3)] False by blast
  have "mc_heap w' = mc_heap w \<and> mc_handles w' = mc_handles w \<and> (\<exists>t. hr_trace r1 = hr_trace r @ t \<and> resourcesAfter [] t = Some [])"
    using capabilities_clean [OF assms(1) assms(2), where env = env and k = k and plugin = plugin and r = r and w = w] v(1) by simp
  then obtain t1 where t1: "hr_trace r1 = hr_trace r @ t1" "resourcesAfter [] t1 = Some []" and w: "mc_heap w' = mc_heap w" "mc_handles w' = mc_handles w" by blast
  show ?thesis
  proof (cases "r' = r1")
    case False
    then have "verifyHostHTTP env hostBinary plugin imageName r1 = Some (res, r')" using v(2) by simp
    then obtain t2 where "hr_trace r' = hr_trace r1 @ t2" "resourcesAfter [] t2 = Some []" by (rule balancedD [OF balanced_verify])
    then have "hr_trace r' = hr_trace r @ (t1 @ t2) \<and> resourcesAfter [] (t1 @ t2) = Some []" using t1 by (simp add: resourcesAfter_append)
    then show ?thesis using w by blast
  qed (use t1 w in blast)
qed simp

lemma smoke_linker:
  "pl_dlopen sampleLoader path = Inr lib \<Longrightarrow>
     lb_init lib = Some (cliproxy_plugin_init (pl_version sampleLoader) (pl_malloc sampleLoader) sampleEncode smokeABI pluginOps)"
  by (auto simp: sampleLoader_def smokeLinker_def split: if_splits)

lemma sample_malloc: "fresh_malloc (pl_malloc sampleLoader)"
  using bumpMalloc_sound by (simp add: sampleLoader_def sound_malloc_def)

theorem integration_releases_witness:
  "\<exists>res r w. runIntegration sampleSystem sampleLoader sampleCall sampleArgs idleRun idleMachine = RunExits res r w \<and>
     resourcesAfter [] (hr_trace r) = Some [] \<and> mc_heap w = [(7, ''host'')] \<and> mc_handles w = 0"
proof -
  obtain res r w where x: "runIntegration sampleSystem sampleLoader sampleCall sampleArgs idleRun idleMachine = RunExits res r w"
    using sample_exit by (auto simp: exitStatus_def split: runOutcome.splits)
  from integration_releases [OF sample_malloc smoke_linker x] x show ?thesis by (auto simp: idleRun_def idleMachine_def)
qed

text \<open>
  C20. A green integration test is earned. When the program exits with 0, the host has listed the
  plugin as configured, registered and enabled; has refused the status to a caller without the
  key and shown it redacted to one with it; has answered both inference lanes with 200 and the
  text of the stub; the stub has counted exactly one request per lane; and the log of the host
  names no scheduler failure.
\<close>

theorem integration_success_is_earned:
  assumes "exitStatus (runIntegration env ld k args r w) = Some 0"
  shows "\<exists>r' w' root port. runIntegration env ld k args r w = RunExits (Inr ()) r' w' \<and>
    hostEvidence env root (''http://127.0.0.1:'' @ Itoa port) (hr_trace r')"
proof -
  obtain r' w' where x: "runIntegration env ld k args r w = RunExits (Inr ()) r' w'"
    using assms by (auto simp: exitStatus_def split: runOutcome.splits sum.splits)
  then obtain hostBinary plugin imageName r1 where "verifyHostHTTP env hostBinary plugin imageName r1 = Some (Inr (), r')"
    using run_exits [OF x] by auto
  then have "\<exists>root port. hostEvidence env root (''http://127.0.0.1:'' @ Itoa port) (hr_trace r')"
    by (rule ensuresD [OF ensures_verify]) blast
  then show ?thesis using x by blast
qed

theorem integration_success_is_earned_witness:
  "\<exists>r w root port. runIntegration sampleSystem sampleLoader sampleCall sampleArgs idleRun idleMachine = RunExits (Inr ()) r w \<and>
     hostEvidence sampleSystem root (''http://127.0.0.1:'' @ Itoa port) (hr_trace r)"
  by (rule integration_success_is_earned [OF sample_exit])

end
