(* ===== verification/Polling.thy ===== *)
theory Polling
  imports Config Quota
begin

text \<open>
  The worker of an account, \<open>pollAccount\<close> of \<^verbatim>\<open>runtime.go\<close>: poll, wait, poll again until the
  context of its configuration is cancelled. The loop has no bound of its own, so it is a partial
  function: \<open>None\<close> is a worker that never returns. What the worker meets is an argument, per round:
  the answer of the HTTP client and how long it took, the outcome of the write, what the other
  goroutines do to the runtime meanwhile, and how a sleep ends.
\<close>

record pollEnv =
  pv_lib :: golib
  pv_decode :: "string \<Rightarrow> quotaWireResponse option"
  pv_endpoint :: string
  pv_done :: "gotime \<Rightarrow> bool"
  pv_do :: "nat \<Rightarrow> gotime \<Rightarrow> httpOutcome \<times> duration"
  pv_io :: "nat \<Rightarrow> go_error option"
  pv_others :: "nat \<Rightarrow> pluginRuntime \<Rightarrow> pluginRuntime"
  pv_sleep :: "nat \<Rightarrow> gotime \<Rightarrow> duration \<Rightarrow> go_error option \<times> gotime"

record pollWorker =
  pk_now :: gotime
  pk_rt :: pluginRuntime

text \<open>\<open>errors.Is(err, context.Canceled)\<close> looks through wrapped errors.\<close>

fun isCanceled :: "go_error \<Rightarrow> bool" where
  "isCanceled Canceled = True"
| "isCanceled (Wrapped _ e) = isCanceled e"
| "isCanceled (PendingErr e) = isCanceled e"
| "isCanceled _ = False"

text \<open>One poll: the fetch without the lock, then the commit against the runtime as it is by then.\<close>

definition pollRound :: "pollEnv \<Rightarrow> nat \<Rightarrow> string \<Rightarrow> 64 word \<Rightarrow> pollWorker \<Rightarrow> unit result \<times> pollWorker" where
  "pollRound env n identity generation w =
     (let now = pk_now w;
          (outcome, took) = pv_do env n now;
          fetched = fetchQuota (pv_lib env) (pv_decode env) (Some outcome) (pv_endpoint env) now;
          now' = now + took;
          (res, rt) = pollOnce now now' (pv_io env n) (pv_done env now') identity generation fetched (pv_others env n (pk_rt w))
      in (res, \<lparr>pk_now = now', pk_rt = rt\<rparr>))"

definition roundCanceled :: "unit result \<Rightarrow> bool" where
  "roundCanceled res = (case res of Inl err \<Rightarrow> isCanceled err | Inr _ \<Rightarrow> False)"

text \<open>The worker returns the number of its rounds and what it leaves.\<close>

partial_function (option) pollAccount ::
  "pollEnv \<Rightarrow> string \<Rightarrow> 64 word \<Rightarrow> duration \<Rightarrow> nat \<Rightarrow> pollWorker \<Rightarrow> (nat \<times> pollWorker) option" where
  "pollAccount env identity generation base attempt w =
     (case pollRound env attempt identity generation w of
        (res, w1) \<Rightarrow>
          if roundCanceled res then Some (attempt, w1)
          else
            (case pv_sleep env attempt (pk_now w1) (pollDelay base identity (int (Suc attempt)) (pk_rt w1)) of
               (err, t) \<Rightarrow>
                 if err \<noteq> None then Some (Suc attempt, w1\<lparr>pk_now := t\<rparr>)
                 else pollAccount env identity generation base (Suc attempt) (w1\<lparr>pk_now := t\<rparr>)))"

declare pollAccount.simps [code]

text \<open>Two readings of the runtime under its lock.\<close>

definition hasSnapshot :: "pluginRuntime \<Rightarrow> bool" where
  "hasSnapshot rt \<longleftrightarrow> rt_snapshot rt \<noteq> None"

definition quotaView :: "gotime \<Rightarrow> string \<Rightarrow> pluginRuntime \<Rightarrow> accountQuotaView option" where
  "quotaView now identity rt =
     Option.bind (rt_snapshot rt) (\<lambda>sn.
       map_option (\<lambda>state. view state now (accountByIdentity (rs_Accounts sn) identity) (rs_Config sn)) (mget (rs_Quota sn) identity))"

lemma quotaView_needs_snapshot: "quotaView now identity rt \<noteq> None \<Longrightarrow> hasSnapshot rt"
  by (cases "rt_snapshot rt") (simp_all add: quotaView_def hasSnapshot_def)

section \<open>How long the worker waits\<close>

lemma pollBackoff_bounds:
  assumes "0 < interval" "interval \<le> 6 * Minute"
  shows "interval \<le> pollBackoff interval failures \<and> pollBackoff interval failures \<le> 15 * Minute"
proof (cases "failures \<le> 1")
  case True
  then show ?thesis using assms by (simp add: pollBackoff_def go_time)
next
  case False
  define s where "s = nat (min (failures - 1) 4)"
  have s: "1 \<le> s" "s \<le> 4" using False by (simp_all add: s_def)
  then have "s \<in> {1, 2, 3, 4}" by auto
  then have p: "(2::int) ^ s \<in> {2, 4, 8, 16}" by auto
  then have b: "interval \<le> interval * 2 ^ s" "interval * 2 ^ s \<le> 16 * (6 * Minute)" using assms by (auto simp: go_time)
  then have "wrap64 (interval * 2 ^ s) = interval * 2 ^ s"
    using assms(1) by (intro wrap64_id is_int64I) (simp add: go_time order_trans [of _ 0], simp add: go_time)
  then show ?thesis using False b(1) assms by (simp add: pollBackoff_def Let_def s_def [symmetric] go_time)
qed

lemma pollDelay_bounds:
  assumes "2 \<le> base" "base \<le> 3 * Minute"
  shows "base div 2 \<le> pollDelay base identity attempt rt \<and> pollDelay base identity attempt rt \<le> 15 * Minute"
proof -
  let ?j = "jitteredPollInterval base identity attempt"
  have b: "0 < base" using assms(1) by simp
  have "maxPollInterval base = base + base div 2"
    unfolding maxPollInterval_def using b assms(2) by (subst wrap64_id) (auto intro!: is_int64I simp: go_quo_nonneg go_time)
  then have "base div 2 \<le> ?j \<and> ?j \<le> base + base div 2"
    using jitteredPollInterval_bounds [OF b assms(2), of identity attempt] b by (simp add: go_quo_nonneg)
  moreover have "base div 2 \<le> base" using b by simp
  ultimately have j: "base div 2 \<le> ?j" "?j \<le> 6 * Minute" using assms(2) by linarith+
  then have "0 < ?j" using assms(1) by linarith
  then show ?thesis using pollBackoff_bounds [of ?j "pollFailureCount identity rt"] j by (simp add: pollDelay_def Let_def go_time)
qed

section \<open>The end of the worker\<close>

text \<open>
  The documented behaviour around the worker: the context stays cancelled from \<open>stop\<close> on, a
  request with a cancelled context fails, and a sleep that ends without error lasted as long as
  asked.
\<close>

definition worker_ok :: "pollEnv \<Rightarrow> gotime \<Rightarrow> bool" where
  "worker_ok env stop \<longleftrightarrow>
     (\<forall>t. stop \<le> t \<longrightarrow> pv_done env t) \<and>
     (\<forall>n t. 0 \<le> snd (pv_do env n t) \<and> (pv_done env t \<longrightarrow> (\<exists>err. fst (pv_do env n t) = DoError err))) \<and>
     (\<forall>n t d. fst (pv_sleep env n t d) = None \<longrightarrow> t + d \<le> snd (pv_sleep env n t d))"

lemma fetch_cancelled: "isl (fetchQuota lib decode (Some (DoError err)) endpoint now)"
  by (cases "validateQuotaEndpoint lib endpoint (endpoint \<noteq> quotaEndpoint)") (simp_all add: fetchQuota_def)

lemma round_after_stop:
  assumes "worker_ok env stop" "stop \<le> pk_now w"
  shows "roundCanceled (fst (pollRound env n identity generation w))"
proof -
  obtain err took where d: "pv_do env n (pk_now w) = (DoError err, took)" "0 \<le> took"
    using assms unfolding worker_ok_def by (metis prod.collapse)
  have "pv_done env (pk_now w + took)" using assms d(2) by (simp add: worker_ok_def)
  then show ?thesis using d(1) fetch_cancelled
    by (simp add: pollRound_def Let_def pollOnce_def pollOnceLocked_def roundCanceled_def split_beta)
qed

lemma round_advances: "worker_ok env stop \<Longrightarrow> pk_now w \<le> pk_now (snd (pollRound env n identity generation w))"
  by (simp add: pollRound_def Let_def split_beta worker_ok_def)

lemma poll_account_returns:
  assumes "worker_ok env stop" "2 \<le> base" "base \<le> 3 * Minute" "stop - pk_now w \<le> int k * (base div 2)"
  shows "\<exists>n w'. pollAccount env identity generation base attempt w = Some (n, w') \<and> n \<le> attempt + k"
  using assms(4)
proof (induction k arbitrary: attempt w)
  case 0
  then show ?case using round_after_stop [OF assms(1), of w attempt identity generation] by (subst pollAccount.simps) (simp add: split_beta)
next
  case (Suc k)
  obtain res w1 where r: "pollRound env attempt identity generation w = (res, w1)" by fastforce
  have t1: "pk_now w \<le> pk_now w1" using round_advances [OF assms(1), of w attempt identity generation] r by simp
  let ?d = "pollDelay base identity (int (Suc attempt)) (pk_rt w1)"
  obtain err t where s: "pv_sleep env attempt (pk_now w1) ?d = (err, t)" by fastforce
  show ?case
  proof (cases "roundCanceled res \<or> err \<noteq> None")
    case True
    then show ?thesis using r s by (subst pollAccount.simps) auto
  next
    case False
    then have "pk_now w1 + ?d \<le> t" using assms(1) s unfolding worker_ok_def by (metis fst_conv snd_conv)
    then have "stop - t \<le> int k * (base div 2)"
      using Suc.prems t1 pollDelay_bounds [OF assms(2,3), of identity "int (Suc attempt)" "pk_rt w1"] by (simp add: algebra_simps)
    then obtain n w' where "pollAccount env identity generation base (Suc attempt) (w1\<lparr>pk_now := t\<rparr>) = Some (n, w')" "n \<le> Suc attempt + k"
      using Suc.IH [of "w1\<lparr>pk_now := t\<rparr>" "Suc attempt"] by auto
    then show ?thesis using False r s by (subst pollAccount.simps) simp
  qed
qed

section \<open>A sample worker\<close>

text \<open>Every request fails; the context is cancelled after an hour.\<close>

definition deafEnv :: pollEnv where
  "deafEnv = \<lparr>pv_lib = sampleLib, pv_decode = (\<lambda>_. None), pv_endpoint = quotaEndpoint, pv_done = (\<lambda>t. Hour \<le> t),
     pv_do = (\<lambda>_ _. (DoError (Msg ''no route''), Second)), pv_io = (\<lambda>_. None), pv_others = (\<lambda>_ rt. rt), pv_sleep = (\<lambda>_ t d. (None, t + d))\<rparr>"

lemma deaf_ok: "worker_ok deafEnv Hour"
  by (simp add: worker_ok_def deafEnv_def go_time)

section \<open>Properties\<close>

text \<open>
  C12. A poller stops. Once the context of its configuration is cancelled, by a reconfiguration or
  the shutdown, the worker of an account returns, whatever the upstream, the disk and the other
  goroutines do: it polls at most once per half refresh interval until then and at most once
  after. Its waits lie between half the interval and fifteen minutes.
\<close>

theorem poller_stops:
  assumes "worker_ok env stop" and "2 \<le> base" and "base \<le> 3 * Minute"
  shows "(\<exists>n w'. pollAccount env identity generation base 0 w = Some (n, w') \<and> int n * (base div 2) \<le> max 0 (stop - pk_now w) + base div 2) \<and>
    base div 2 \<le> pollDelay base identity attempt rt \<and> pollDelay base identity attempt rt \<le> 15 * Minute"
proof -
  define h where "h = base div 2"
  define k where "k = nat (max 0 (stop - pk_now w) div h + 1)"
  have h: "0 < h" using assms(2) by (simp add: h_def)
  have k: "int k = max 0 (stop - pk_now w) div h + 1" using h by (simp add: k_def pos_imp_zdiv_nonneg_iff)
  have m: "max 0 (stop - pk_now w) div h * h \<le> max 0 (stop - pk_now w)" "max 0 (stop - pk_now w) < max 0 (stop - pk_now w) div h * h + h"
    using h pos_mod_sign [OF h, of "max 0 (stop - pk_now w)"] pos_mod_bound [OF h, of "max 0 (stop - pk_now w)"]
      div_mult_mod_eq [of "max 0 (stop - pk_now w)" h] by linarith+
  then have "stop - pk_now w \<le> int k * h" "int k * h \<le> max 0 (stop - pk_now w) + h" by (simp_all add: k algebra_simps)
  moreover obtain n w' where "pollAccount env identity generation base 0 w = Some (n, w')" "n \<le> k"
    using poll_account_returns [OF assms, of w k identity generation 0] calculation(1) by (auto simp: h_def)
  moreover have "int n * h \<le> int k * h" using calculation(4) h by simp
  ultimately show ?thesis using pollDelay_bounds [OF assms(2,3)] unfolding h_def by fastforce
qed

theorem poller_stops_witness:
  "\<exists>n w. pollAccount deafEnv ''a'' 1 (2 * Minute) 0 \<lparr>pk_now = 0, pk_rt = sampleRuntime\<rparr> = Some (n, w) \<and> n \<le> 61"
proof -
  obtain n w where p: "pollAccount deafEnv ''a'' 1 (2 * Minute) 0 \<lparr>pk_now = 0, pk_rt = sampleRuntime\<rparr> = Some (n, w)"
      "int n * (2 * Minute div 2) \<le> max 0 (Hour - 0) + 2 * Minute div 2"
    using poller_stops [OF deaf_ok, of "2 * Minute" "''a''" 1 "\<lparr>pk_now = 0, pk_rt = sampleRuntime\<rparr>" 1 sampleRuntime] by (auto simp: go_time)
  then have "n \<le> 61" by (simp add: go_time)
  then show ?thesis using p(1) by blast
qed

end
