(* ===== verification/Manifest.thy ===== *)
theory Manifest
  imports Coordinator Securestore
begin

text \<open>
  The manifest of the coordinator, \<^verbatim>\<open>manifest.go\<close>: a record of the hosted providers that is written
  through the secure store at the end of a reconfiguration and never read back. The encoding as
  JSON text is an argument.
\<close>

definition manifestVersion :: int where "manifestVersion = 1"

record manifestEntry =
  mf_RegisteredAt :: gotime

record manifest =
  mf_Version :: int
  mf_CoordinatorID :: string
  mf_Providers :: "(string, manifestEntry) gomap"

definition manifestOf :: "gotime \<Rightarrow> string list \<Rightarrow> manifest" where
  "manifestOf now ids =
     \<lparr>mf_Version = manifestVersion, mf_CoordinatorID = PluginID,
      mf_Providers = foldl (\<lambda>providers i. mput i \<lparr>mf_RegisteredAt = now\<rparr> providers) [] ids\<rparr>"

definition writeManifest :: "(manifest \<Rightarrow> string result) \<Rightarrow> gotime \<Rightarrow> string \<Rightarrow> string list \<Rightarrow> unit result io" where
  "writeManifest marshal now pluginAuthDir ids =
     thenIO (New pluginAuthDir) (\<lambda>store.
       bindIO (WriteJSON store ''manifest.json'' (marshal (manifestOf now ids))) (\<lambda>res.
       bindIO (Close store) (\<lambda>_. returnIO res)))"

lemma manifest_providers: "mget (mf_Providers (manifestOf now ids)) i = (if i \<in> set ids then Some \<lparr>mf_RegisteredAt = now\<rparr> else None)"
proof -
  have "mget (foldl (\<lambda>providers i. mput i \<lparr>mf_RegisteredAt = now\<rparr> providers) m ids) i =
      (if i \<in> set ids then Some \<lparr>mf_RegisteredAt = now\<rparr> else mget m i)" for m :: "(string, manifestEntry) gomap"
    by (induction ids arbitrary: m) auto
  then show ?thesis by (simp add: manifestOf_def)
qed

lemma silent_ensureDirectory: "silent (ensureSecureDirectory dir)"
  unfolding ensureSecureDirectory_def RejectSymlinkPathComponents_def
  by (intro silent_then silent_reject silent_bind_sys) (auto intro!: silent_then silent_wrap silent_call silent_return simp: quiet_def split: lookup.splits option.splits)

lemma silent_New: "silent (New dir)"
  unfolding New_def Let_def openSecureDirectory_def
  by (auto intro!: silent_then silent_ensureDirectory silent_wrap silent_call silent_return simp: quiet_def)

lemma write_effect_quiet:
  assumes "quiet w0 w" "write_effect n d w r w'" "quiet w' w''" "r' = r \<or> r' = Crashed" "public_name n"
  shows "write_effect n d w0 r' w''"
proof -
  consider "quiet w w'" "r = Crashed \<or> (\<exists>e. r = Done (Inl e) \<and> OutcomeOf e = WriteNotCommitted)"
    | "replaced n d w w'" "r = Crashed \<or> (\<exists>e. r = Done (Inl e) \<and> OutcomeOf e = WriteNeedsRecovery)"
    | "durable_put n d w w'" "r = Crashed \<or> r = Done (Inr ()) \<or> (\<exists>e. r = Done (Inl e) \<and> OutcomeOf e = WriteNotCommitted)"
    using assms(2) by (auto simp: write_effect_def)
  then show ?thesis
  proof cases
    case 1
    then have "quiet w0 w''" using assms(1,3) by (metis quiet_trans)
    then show ?thesis using 1(2) assms(4) by (auto simp: write_effect_def)
  next
    case 2
    then have "replaced n d w0 w''" using assms(1,3) by (simp add: replaced_def quiet_def)
    then show ?thesis using 2(2) assms(4) by (auto simp: write_effect_def)
  next
    case 3
    then have "durable_put n d w0 w''" using assms(1,3) by (simp add: durable_put_def quiet_def)
    then show ?thesis using 3(2) assms(4) by (auto simp: write_effect_def)
  qed
qed

lemma Close_quiet: "wp (Close s) env (\<lambda>r w'. quiet w w') w"
  by (auto simp: Close_def Let_def wp_call quiet_def split: option.splits)

text \<open>
  Writing the manifest is as atomic as any other write: at whichever system call it stops, its
  file is the old or the new one and no other file of the directory changes.
\<close>

theorem manifest_write_atomic:
  assumes "marshal (manifestOf now ids) = Inr raw"
  shows "wp (writeManifest marshal now dir ids) env (write_effect ''manifest.json'' (Some (fileOf (raw @ [CHR 0x0A]))) w) w"
proof -
  have n: "public_name ''manifest.json''" by code_simp
  let ?d = "Some (fileOf (raw @ [CHR 0x0A]))"
  have close: "wp (Close s) env (\<lambda>x w3. case x of Crashed \<Rightarrow> write_effect ''manifest.json'' ?d w Crashed w3
      | Done y \<Rightarrow> write_effect ''manifest.json'' ?d w r w3) w2"
    if "quiet w w1" "write_effect ''manifest.json'' ?d w1 r w2" for s w1 w2 r
    by (rule wp_mono [OF Close_quiet]) (use write_effect_quiet [OF that _ _ n] in \<open>auto split: outcome.split\<close>)
  have put: "wp (WriteJSON s ''manifest.json'' (Inr raw)) env (\<lambda>r w2. case r of Crashed \<Rightarrow> write_effect ''manifest.json'' ?d w Crashed w2
      | Done res \<Rightarrow> wp (bindIO (Close s) (\<lambda>_. returnIO res)) env (write_effect ''manifest.json'' ?d w) w2) w1" if "quiet w w1" for s w1
  proof (rule wp_mono [OF WriteJSON_wp [OF n]])
    fix r w2
    assume e: "write_effect ''manifest.json'' ?d w1 r w2"
    show "case r of Crashed \<Rightarrow> write_effect ''manifest.json'' ?d w Crashed w2
      | Done res \<Rightarrow> wp (bindIO (Close s) (\<lambda>_. returnIO res)) env (write_effect ''manifest.json'' ?d w) w2"
    proof (cases r)
      case Crashed
      then show ?thesis using write_effect_quiet [OF that e _ _ n, of w2 Crashed] by (simp add: quiet_def)
    next
      case (Done res)
      then show ?thesis using close [OF that e, of s] by (simp only: outcome.case wp_bind wp_return)
    qed
  qed
  show ?thesis unfolding writeManifest_def wp_then assms
    by (rule silent_wp [OF silent_New]) (auto simp: write_effect_def intro: put simp del: wp_bind simp: wp_bind [of "WriteJSON _ _ _"])
qed

end
