(* ===== verification/StoreFallback.thy ===== *)
theory StoreFallback
  imports Securestore
begin

text \<open>
  The secure store on systems other than Linux, \<^verbatim>\<open>securestore_other.go\<close>: the directory opens, and
  every operation relative to its descriptor is refused. The two theorems put them where the
  Linux versions stand: a write or a removal fails as not committed and changes nothing.
\<close>

definition openSecureDirectoryOther :: "unit result io" where
  "openSecureDirectoryOther = wrapIO (Wrapped ''open secure store directory'') (callIO (\<lambda>w. ((), w)))"

definition openFileAtOther :: "string \<Rightarrow> dirent result io" where
  "openFileAtOther name = returnIO (Inl (Msg (''secure descriptor-relative read for '' @ name @ '' is unsupported on this platform'')))"

definition writeJSONAtOther :: "string \<Rightarrow> string \<Rightarrow> unit result io" where
  "writeJSONAtOther name raw = returnIO (Inl (Msg (''secure atomic replacement for '' @ name @ '' is unsupported on this platform'')))"

definition removeJSONAtOther :: "string \<Rightarrow> unit result io" where
  "removeJSONAtOther name = returnIO (Inl (Msg (''secure atomic removal for '' @ name @ '' is unsupported on this platform'')))"

lemma fallback_opens_like_linux: "openSecureDirectoryOther = openSecureDirectory"
  by (simp add: openSecureDirectoryOther_def openSecureDirectory_def)

lemma fallback_is_silent: "silent (writeJSONAtOther name raw)" "silent (removeJSONAtOther name)" "silent (openFileAtOther name)"
  by (auto simp: writeJSONAtOther_def removeJSONAtOther_def openFileAtOther_def intro!: silent_return)

lemma fallback_never_succeeds:
  "wp (writeJSONAtOther name raw) env (\<lambda>r w'. w' = w \<and> (\<exists>e. r = Done (Inl e) \<and> OutcomeOf e = WriteNotCommitted)) w"
  "wp (removeJSONAtOther name) env (\<lambda>r w'. w' = w \<and> (\<exists>e. r = Done (Inl e) \<and> OutcomeOf e = WriteNotCommitted)) w"
  by (simp_all add: writeJSONAtOther_def removeJSONAtOther_def)

end
