(* ===== verification/Dashboard.thy ===== *)
theory Dashboard
  imports Coordinator GoNum
begin

text \<open>
  The quota dashboard of \<^verbatim>\<open>internal/coordinator/resource.go\<close>, an HTML page that the host
  serves without authentication. The JSON decoders of the modules' status documents are
  arguments (\<open>None\<close> is a document that does not decode). A utilization is a double as in
  \<open>GoNum\<close>, so a sign of zero and values that are not finite are left out.
\<close>

section \<open>Standard library\<close>

text \<open>\<open>html.EscapeString\<close>.\<close>

fun EscapeString :: "string \<Rightarrow> string" where
  "EscapeString [] = []"
| "EscapeString (c # cs) =
     (if c = CHR ''&'' then ''&amp;''
      else if c = CHR 0x27 then ''&#39;''
      else if c = CHR ''<'' then ''&lt;''
      else if c = CHR ''>'' then ''&gt;''
      else if c = CHR 0x22 then ''&#34;''
      else [c]) @ EscapeString cs"

text \<open>\<open>%0nd\<close> of a number that is not negative.\<close>

definition padInt :: "nat \<Rightarrow> int \<Rightarrow> string" where
  "padInt n i = (let s = Itoa i in replicate (n - length s) (CHR ''0'') @ s)"

definition daysBeforeYear :: "int \<Rightarrow> int" where
  "daysBeforeYear y = 365 * (y - 1) + (y - 1) div 4 - (y - 1) div 100 + (y - 1) div 400"

definition isLeap :: "int \<Rightarrow> bool" where
  "isLeap y \<longleftrightarrow> y mod 4 = 0 \<and> (y mod 100 \<noteq> 0 \<or> y mod 400 = 0)"

text \<open>Month and day of month from the day of the year, counted from zero.\<close>

fun monthDay :: "int \<Rightarrow> int list \<Rightarrow> int \<Rightarrow> int \<times> int" where
  "monthDay m [] d = (m, d + 1)"
| "monthDay m (n # ns) d = (if d < n then (m, d + 1) else monthDay (m + 1) ns (d - n))"

definition time_Date :: "gotime \<Rightarrow> int \<times> int \<times> int" where
  "time_Date t =
     (let y = time_Year t
      in (y, monthDay 1 [31, if isLeap y then 29 else 28, 31, 30, 31, 30, 31, 31, 30, 31, 30] (t div Day - daysBeforeYear y)))"

text \<open>The layout \<open>2006-01-02 15:04:05 UTC\<close>, for a year from 0 on.\<close>

definition formatUTC :: "gotime \<Rightarrow> string" where
  "formatUTC t =
     (case time_Date t of (y, m, d) \<Rightarrow>
        padInt 4 y @ ''-'' @ padInt 2 m @ ''-'' @ padInt 2 d @ '' '' @ padInt 2 (time_Hour t) @ '':'' @
        padInt 2 ((t div Minute) mod 60) @ '':'' @ padInt 2 ((t div Second) mod 60) @ '' UTC'')"

text \<open>The product of two doubles.\<close>

definition float64_mul :: "float64 \<Rightarrow> float64 \<Rightarrow> float64" where
  "float64_mul x y =
     (case (x, y) of ((m1, e1), (m2, e2)) \<Rightarrow>
        if m1 * m2 = 0 then (0, 0)
        else case float64_ratio (abs (m1 * m2) * 2 ^ nat (e1 + e2)) (2 ^ nat (- (e1 + e2))) of
               (m, e) \<Rightarrow> (sgn (m1 * m2) * m, e))"

definition float64_less :: "float64 \<Rightarrow> float64 \<Rightarrow> bool" where
  "float64_less x y \<longleftrightarrow> \<not> float64_le y x"

text \<open>A double that is not negative times \<open>k\<close>, to the nearest integer, ties to even.\<close>

definition float64_round :: "int \<Rightarrow> float64 \<Rightarrow> int" where
  "float64_round k x = (case x of (m, e) \<Rightarrow> rne (k * m * 2 ^ nat e) (2 ^ nat (- e)))"

text \<open>\<open>%.1f\<close> and \<open>%.0f\<close>.\<close>

definition fixed1 :: "float64 \<Rightarrow> string" where
  "fixed1 x = (let t = float64_round 10 x in Itoa (t div 10) @ ''.'' @ Itoa (t mod 10))"

definition fixed0 :: "float64 \<Rightarrow> string" where
  "fixed0 x = Itoa (float64_round 1 x)"

section \<open>Accounts\<close>

record dashboardWindow =
  dw_Label :: string
  dw_Known :: bool
  dw_Percent :: float64
  dw_ResetAt :: "gotime option"
  dw_Source :: string

record dashboardAccount =
  da_Provider :: string
  da_Name :: string
  da_Health :: string
  da_Windows :: "dashboardWindow list"

record zaiResourceAccount =
  zr_Name :: string
  zr_FiveHourUtilization :: float64
  zr_WeeklyUtilization :: float64
  zr_FiveHourResetsAt :: "gotime option"
  zr_WeeklyResetsAt :: "gotime option"
  zr_QuotaSource :: string
  zr_QuotaStale :: bool
  zr_Health :: string

record opencodeResourceWindow =
  ow_Known :: bool
  ow_Utilization :: "float64 option"
  ow_Exhausted :: bool
  ow_ResetAt :: "gotime option"
  ow_Source :: string
  ow_Authoritative :: bool

record opencodeResourceAccount =
  oa_Name :: string
  oa_Disabled :: bool
  oa_Windows :: "(string, opencodeResourceWindow) gomap"

definition zaiSourceLabel :: "string \<Rightarrow> bool \<Rightarrow> string" where
  "zaiSourceLabel source stale = (if source = [] then ''unknown'' else source) @ (if stale then '' (stale)'' else [])"

definition hundred :: float64 where "hundred = (100, 0)"

definition zaiDashboardAccount :: "zaiResourceAccount \<Rightarrow> dashboardAccount" where
  "zaiDashboardAccount a =
     (let source = zaiSourceLabel (zr_QuotaSource a) (zr_QuotaStale a) in
      \<lparr>da_Provider = ''Z.ai'', da_Name = zr_Name a, da_Health = (if zr_Health a = [] then ''unknown'' else zr_Health a),
       da_Windows =
         [\<lparr>dw_Label = ''5h'', dw_Known = True, dw_Percent = float64_mul (zr_FiveHourUtilization a) hundred,
           dw_ResetAt = zr_FiveHourResetsAt a, dw_Source = source\<rparr>,
          \<lparr>dw_Label = ''Weekly'', dw_Known = True, dw_Percent = float64_mul (zr_WeeklyUtilization a) hundred,
           dw_ResetAt = zr_WeeklyResetsAt a, dw_Source = source\<rparr>]\<rparr>)"

definition zaiDashboardAccounts :: "('s \<Rightarrow> zaiResourceAccount list option) \<Rightarrow> 's option \<Rightarrow> dashboardAccount list" where
  "zaiDashboardAccounts decode raw =
     (case raw of None \<Rightarrow> [] | Some r \<Rightarrow> (case decode r of None \<Rightarrow> [] | Some accounts \<Rightarrow> map zaiDashboardAccount accounts))"

definition opencodeWindowLabel :: "string \<Rightarrow> string" where
  "opencodeWindowLabel kind =
     (if kind = ''five_hour'' then ''5h'' else if kind = ''weekly'' then ''Weekly'' else if kind = ''monthly'' then ''Monthly'' else kind)"

definition opencodeSourceLabel :: "opencodeResourceWindow \<Rightarrow> string" where
  "opencodeSourceLabel w =
     (if ow_Authoritative w then ''authoritative''
      else if HasPrefix (ow_Source w) ''proxy-observed'' then ''429-derived''
      else if ow_Source w = [] then ''unknown''
      else ow_Source w)"

definition windowKinds :: "string list" where "windowKinds = [''five_hour'', ''weekly'', ''monthly'']"

definition opencodeHealth :: "opencodeResourceAccount \<Rightarrow> string" where
  "opencodeHealth a =
     (if oa_Disabled a then ''disabled''
      else if list_ex (\<lambda>kind. case mget (oa_Windows a) kind of None \<Rightarrow> False | Some w \<Rightarrow> ow_Known w \<and> ow_Exhausted w) windowKinds
      then ''exhausted'' else ''healthy'')"

definition opencodeWindow :: "opencodeResourceAccount \<Rightarrow> string \<Rightarrow> dashboardWindow" where
  "opencodeWindow a kind =
     (let unknown = \<lparr>dw_Label = opencodeWindowLabel kind, dw_Known = False, dw_Percent = (0, 0), dw_ResetAt = None, dw_Source = ''unknown''\<rparr> in
      case mget (oa_Windows a) kind of
        None \<Rightarrow> unknown
      | Some w \<Rightarrow>
          if \<not> ow_Known w then unknown
          else
            let percent = (case ow_Utilization w of None \<Rightarrow> (0, 0) | Some u \<Rightarrow> float64_mul u hundred);
                percent = (if ow_Exhausted w \<and> float64_less percent hundred then hundred else percent)
            in \<lparr>dw_Label = opencodeWindowLabel kind, dw_Known = True, dw_Percent = percent, dw_ResetAt = ow_ResetAt w,
                dw_Source = opencodeSourceLabel w\<rparr>)"

definition opencodeDashboardAccounts :: "('s \<Rightarrow> opencodeResourceAccount list option) \<Rightarrow> 's option \<Rightarrow> dashboardAccount list" where
  "opencodeDashboardAccounts decode raw =
     (case raw of
        None \<Rightarrow> []
      | Some r \<Rightarrow>
          (case decode r of
             None \<Rightarrow> []
           | Some accounts \<Rightarrow>
               map (\<lambda>a. \<lparr>da_Provider = ''OpenCode Go'', da_Name = oa_Name a, da_Health = opencodeHealth a,
                         da_Windows = map (opencodeWindow a) windowKinds\<rparr>) accounts))"

section \<open>The page\<close>

definition clampPercent :: "float64 \<Rightarrow> float64" where
  "clampPercent percent =
     (if float64_less percent (0, 0) then (0, 0) else if float64_less hundred percent then hundred else percent)"

definition healthClass :: "string \<Rightarrow> string" where
  "healthClass health =
     (if health \<in> set [''healthy'', ''throttled'', ''exhausted'', ''suspended'', ''disabled''] then health else ''unknown'')"

text \<open>\<open>Duration.Round\<close> to a minute, for a positive duration.\<close>

definition roundMinute :: "duration \<Rightarrow> duration" where
  "roundMinute d =
     (let r = d mod Minute in
      if r + r < Minute then d - r else if d + Minute - r \<le> maxInt64_const then d + Minute - r else maxInt64_const)"

definition formatDuration :: "duration \<Rightarrow> string" where
  "formatDuration d =
     (let d = roundMinute d; hours = go_quo d Hour; minutes = go_quo (d - hours * Hour) Minute in
      if hours > 0 then Itoa hours @ ''h'' @ padInt 2 minutes @ ''m'' else Itoa minutes @ ''m'')"

definition formatResetAt :: "gotime option \<Rightarrow> gotime \<Rightarrow> string \<times> string" where
  "formatResetAt resetAt now =
     (case resetAt of
        None \<Rightarrow> (''unknown'', ''unknown'')
      | Some at \<Rightarrow>
          if IsZero at then (''unknown'', ''unknown'')
          else if time_Sub at now \<le> 0 then (formatUTC at, ''now'')
          else (formatUTC at, formatDuration (time_Sub at now)))"

definition renderWindowRow :: "gotime \<Rightarrow> dashboardWindow \<Rightarrow> string" where
  \<open>renderWindowRow now w =
     ''<div class="window"><div class="window-label">'' @ EscapeString (dw_Label w) @ ''</div>'' @
     (if \<not> dw_Known w then ''<div class="unknown">unknown</div></div>''
      else
        let percent = clampPercent (dw_Percent w); reset = formatResetAt (dw_ResetAt w) now in
        ''<div class="bar"><div class="fill" style="width:'' @ fixed1 percent @
        ''%"></div></div><div class="stats"><span class="percent">'' @ fixed0 percent @ ''%'' @
        ''</span><span class="source">'' @ EscapeString (dw_Source w) @ ''</span></div>'' @
        ''<div class="reset">resets '' @ EscapeString (fst reset) @ '' ('' @ EscapeString (snd reset) @ '')</div></div>'')\<close>

definition renderAccountCard :: "gotime \<Rightarrow> dashboardAccount \<Rightarrow> string" where
  \<open>renderAccountCard now a =
     ''<section class="card"><header><h2>'' @ EscapeString (da_Name a) @
     ''</h2><span class="provider">'' @ EscapeString (da_Provider a) @
     ''</span><span class="health '' @ healthClass (da_Health a) @ ''">'' @ EscapeString (da_Health a) @ ''</span></header>'' @
     concat (map (renderWindowRow now) (da_Windows a)) @ ''</section>''\<close>

definition resourceStatusHead :: string where
  \<open>resourceStatusHead = Join
     [''<!doctype html>'',
      ''<html lang="en">'',
      ''<head>'',
      ''<meta charset="utf-8">'',
      ''<meta name="viewport" content="width=device-width,initial-scale=1">'',
      ''<title>Subscription Quota</title>'',
      ''<style>'',
      '':root{color-scheme:light dark;font:14px/1.45 system-ui,sans-serif;background:#111;color:#eee}'',
      ''body{margin:0;padding:24px}'',
      ''main{max-width:1000px;margin:auto}'',
      ''h1{font-size:24px;margin:0}'',
      ''.meta{color:#aaa;margin:4px 0 20px}'',
      ''.empty{padding:14px 16px;border:1px solid #555;border-radius:10px;background:#222}'',
      ''.grid{display:grid;grid-template-columns:repeat(auto-fill,minmax(280px,1fr));gap:16px}'',
      ''.card{border:1px solid #444;border-radius:10px;padding:16px;background:#1a1a1a}'',
      ''.card header{display:flex;align-items:center;gap:8px;flex-wrap:wrap;margin-bottom:10px}'',
      ''.card h2{font-size:16px;margin:0}'',
      ''.provider{color:#aaa;font-size:12px}'',
      ''.health{margin-left:auto;font-size:11px;padding:2px 8px;border-radius:999px;text-transform:uppercase}'',
      ''.health.healthy{background:#173d1e;color:#7be495}'',
      ''.health.throttled{background:#3d3a17;color:#e8dc7b}'',
      ''.health.exhausted{background:#4a1c1c;color:#ff8a8a}'',
      ''.health.suspended{background:#4a3a1c;color:#ffd27a}'',
      ''.health.disabled{background:#333;color:#999}'',
      ''.health.unknown{background:#333;color:#999}'',
      ''.window{margin-top:10px}'',
      ''.window-label{font-size:12px;color:#aaa;margin-bottom:4px}'',
      ''.bar{height:8px;border-radius:4px;background:#333;overflow:hidden}'',
      ''.fill{height:100%;background:#58a6ff}'',
      ''.stats{display:flex;justify-content:space-between;font-size:12px;color:#ccc;margin-top:4px}'',
      ''.reset{font-size:11px;color:#888;margin-top:2px}'',
      ''.unknown{font-size:12px;color:#888}'',
      ''@media(prefers-color-scheme:light){:root{background:#f7f7f7;color:#222}.meta{color:#666}.empty{background:white;border-color:#ddd}.card{background:white;border-color:#ddd}}'',
      ''</style>'',
      ''</head>'',
      ''<body>'',
      []] [CHR 0x0A]\<close>

definition renderAccounts :: "gotime \<Rightarrow> gotime \<Rightarrow> dashboardAccount list \<Rightarrow> string" where
  \<open>renderAccounts generatedAt now accounts =
     resourceStatusHead @ ''<main><h1>Subscription Quota</h1><p class="meta">Generated '' @ EscapeString (formatUTC generatedAt) @ ''</p>'' @
     (if accounts = [] then ''<p class="empty">No accounts are configured yet.</p>''
      else ''<div class="grid">'' @ concat (map (renderAccountCard now) accounts) @ ''</div>'') @
     ''</main></body></html>''\<close>

record 's dashboardCodec =
  dc_zai :: "'s \<Rightarrow> zaiResourceAccount list option"
  dc_opencode :: "'s \<Rightarrow> opencodeResourceAccount list option"

definition dashboardAccounts :: "'s dashboardCodec \<Rightarrow> 's coordinatorStatus \<Rightarrow> dashboardAccount list" where
  "dashboardAccounts codec status =
     zaiDashboardAccounts (dc_zai codec) (mget (cs_Providers status) ''zai'') @
     opencodeDashboardAccounts (dc_opencode codec) (mget (cs_Providers status) ''opencode-go'')"

definition renderResourceStatusHTML :: "'s dashboardCodec \<Rightarrow> 's coordinatorStatus \<Rightarrow> gotime \<Rightarrow> string" where
  "renderResourceStatusHTML codec status now = renderAccounts (cs_GeneratedAt status) now (dashboardAccounts codec status)"

definition quoted :: "string \<Rightarrow> string" where "quoted s = [CHR 0x27] @ s @ [CHR 0x27]"

record resourceResponse =
  rr_StatusCode :: int
  rr_Headers :: "(string, string list) gomap"
  rr_Body :: string

text \<open>The clock is read for the status and again for the page.\<close>

definition resourceStatusResponse ::
  "'s dashboardCodec \<Rightarrow> ('e, 'm, 's, 'r) moduleOps \<Rightarrow> 'e \<Rightarrow> string \<Rightarrow> gotime \<Rightarrow> gotime \<Rightarrow> 'm Coordinator \<Rightarrow> resourceResponse \<times> 'm Coordinator" where
  \<open>resourceStatusResponse codec ops e version generatedAt now c =
     (case co_managementStatus ops e version generatedAt c of (body, c') \<Rightarrow>
        (\<lparr>rr_StatusCode = 200,
          rr_Headers =
            [(''Content-Type'', [''text/html; charset=utf-8'']),
             (''Content-Security-Policy'', [''default-src '' @ quoted ''none'' @ ''; style-src '' @ quoted ''unsafe-inline'' @
                ''; base-uri '' @ quoted ''none'' @ ''; form-action '' @ quoted ''none'']),
             (''Referrer-Policy'', [''no-referrer'']), (''X-Content-Type-Options'', [''nosniff'']), (''Cache-Control'', [''no-store''])],
          rr_Body = renderResourceStatusHTML codec body now\<rparr>, c'))\<close>

section \<open>Markup\<close>

text \<open>The tags of a page, in order; \<open>markupIn\<close> is inside a tag, whose text so far is reversed.\<close>

fun markup :: "string \<Rightarrow> string list" and markupIn :: "string \<Rightarrow> string \<Rightarrow> string list" where
  "markup [] = []"
| "markup (c # cs) = (if c = CHR ''<'' then markupIn [c] cs else markup cs)"
| "markupIn acc [] = [rev acc]"
| "markupIn acc (c # cs) = (if c = CHR ''>'' then rev (c # acc) # markup cs else markupIn (c # acc) cs)"

lemma markup_text: "CHR ''<'' \<notin> set t \<Longrightarrow> markup (t @ s) = markup s"
  by (induction t) auto

lemma markupIn_text: "CHR ''>'' \<notin> set t \<Longrightarrow> markupIn acc (t @ s) = markupIn (rev t @ acc) s"
  by (induction t arbitrary: acc) auto

text \<open>Whether a text ends inside a tag.\<close>

fun tagOpen :: "bool \<Rightarrow> string \<Rightarrow> bool" where
  "tagOpen b [] = b"
| "tagOpen b (c # cs) = tagOpen (if b then c \<noteq> CHR ''>'' else c = CHR ''<'') cs"

lemma markup_closed:
  "\<not> tagOpen False t \<Longrightarrow> markup (t @ s) = markup t @ markup s"
  "\<not> tagOpen True t \<Longrightarrow> markupIn acc (t @ s) = markupIn acc t @ markup s"
  by (induction t and acc t rule: markup_markupIn.induct) (auto split: if_splits)

lemma escape_clean: "set (EscapeString s) \<inter> {CHR ''<'', CHR ''>'', CHR 0x22, CHR 0x27} = {}"
  by (induction s) auto

lemma markup_escaped [simp]: "markup (EscapeString t @ s) = markup s"
  using escape_clean [of t] by (intro markup_text) auto

lemma Itoa_set: "c \<in> set (Itoa i) \<Longrightarrow> is_digit c \<or> c = CHR ''-''"
  using nat_digits_set by (auto simp: Itoa_def split: if_splits)

lemma number_clean: "CHR ''<'' \<notin> set (Itoa i)" "CHR ''>'' \<notin> set (Itoa i)"
proof -
  have "\<not> is_digit (CHR ''<'')" "\<not> is_digit (CHR ''>'')" by code_simp+
  then show "CHR ''<'' \<notin> set (Itoa i)" "CHR ''>'' \<notin> set (Itoa i)" using Itoa_set by fastforce+
qed

lemma markup_fixed0 [simp]: "markup (fixed0 x @ s) = markup s"
  by (rule markup_text) (simp add: fixed0_def number_clean)

lemma markupIn_fixed1 [simp]: "markupIn acc (fixed1 x @ s) = markupIn (rev (fixed1 x) @ acc) s"
  by (rule markupIn_text) (simp add: fixed1_def Let_def number_clean)

lemma markupIn_class [simp]: "markupIn acc (healthClass h @ s) = markupIn (rev (healthClass h) @ acc) s"
  by (rule markupIn_text) (auto simp: healthClass_def)

definition windowTags :: "dashboardWindow \<Rightarrow> string list" where
  \<open>windowTags w =
     [''<div class="window">'', ''<div class="window-label">'', ''</div>''] @
     (if \<not> dw_Known w then [''<div class="unknown">'', ''</div>'', ''</div>'']
      else [''<div class="bar">'', ''<div class="fill" style="width:'' @ fixed1 (clampPercent (dw_Percent w)) @ ''%">'', ''</div>'', ''</div>'',
        ''<div class="stats">'', ''<span class="percent">'', ''</span>'', ''<span class="source">'', ''</span>'', ''</div>'',
        ''<div class="reset">'', ''</div>'', ''</div>''])\<close>

definition accountTags :: "dashboardAccount \<Rightarrow> string list" where
  \<open>accountTags a =
     [''<section class="card">'', ''<header>'', ''<h2>'', ''</h2>'', ''<span class="provider">'', ''</span>'',
      ''<span class="health '' @ healthClass (da_Health a) @ ''">'', ''</span>'', ''</header>''] @
     concat (map windowTags (da_Windows a)) @ [''</section>'']\<close>

lemma markup_window: "markup (renderWindowRow now w @ s) = windowTags w @ markup s"
  by (simp add: renderWindowRow_def windowTags_def Let_def)

lemma markup_windows: "markup (concat (map (renderWindowRow now) ws) @ s) = concat (map windowTags ws) @ markup s"
  by (induction ws) (simp_all add: markup_window)

lemma markup_account: "markup (renderAccountCard now a @ s) = accountTags a @ markup s"
  by (simp add: renderAccountCard_def accountTags_def markup_windows)

lemma markup_accounts: "markup (concat (map (renderAccountCard now) as) @ s) = concat (map accountTags as) @ markup s"
  by (induction as) (simp_all add: markup_account)

definition headTags :: "string list" where
  \<open>headTags =
     [''<!doctype html>'', ''<html lang="en">'', ''<head>'', ''<meta charset="utf-8">'',
      ''<meta name="viewport" content="width=device-width,initial-scale=1">'', ''<title>'', ''</title>'', ''<style>'', ''</style>'', ''</head>'', ''<body>'']\<close>

lemma markup_lines:
  "\<forall>l \<in> set ls. \<not> tagOpen False l \<Longrightarrow> markup (Join ls [CHR 0x0A] @ s) = concat (map markup ls) @ markup s"
  by (induction ls "[CHR 0x0A]" rule: Join.induct) (auto simp: markup_closed)

lemma markup_head: "markup (resourceStatusHead @ s) = headTags @ markup s"
  unfolding resourceStatusHead_def headTags_def by (subst markup_lines) simp_all

definition pageTags :: "dashboardAccount list \<Rightarrow> string list" where
  \<open>pageTags accounts =
     headTags @ [''<main>'', ''<h1>'', ''</h1>'', ''<p class="meta">'', ''</p>''] @
     (if accounts = [] then [''<p class="empty">'', ''</p>'']
      else ''<div class="grid">'' # concat (map accountTags accounts) @ [''</div>'']) @
     [''</main>'', ''</body>'', ''</html>'']\<close>

lemma markup_page: "markup (renderAccounts generatedAt now accounts) = pageTags accounts"
  by (simp add: renderAccounts_def pageTags_def markup_head markup_accounts)

section \<open>Numbers\<close>

lemma times_power_nonneg: "0 \<le> (m :: int) * 2 ^ k \<longleftrightarrow> 0 \<le> m"
  by (simp add: zero_le_mult_iff)

lemma clamp_range: "clampPercent x = (m, e) \<Longrightarrow> 0 \<le> m \<and> m * 2 ^ nat e \<le> 100 * 2 ^ nat (- e)"
  by (cases x) (auto simp: clampPercent_def float64_less_def float64_le_def hundred_def times_power_nonneg split: if_splits)

lemma percent_bounds: "0 \<le> k \<Longrightarrow> 0 \<le> float64_round k (clampPercent x) \<and> float64_round k (clampPercent x) \<le> k * 100"
proof -
  assume k: "0 \<le> k"
  obtain m e where c: "clampPercent x = (m, e)" by (cases "clampPercent x")
  have "k * (m * 2 ^ nat e) \<le> k * (100 * 2 ^ nat (- e))" using clamp_range [OF c] k by (intro mult_left_mono) auto
  then show ?thesis using rne_bounds(1) [of "k * m * 2 ^ nat e" "2 ^ nat (- e)"] rne_bounds(2) [of "2 ^ nat (- e)" "k * m * 2 ^ nat e" "k * 100"] clamp_range [OF c] k
    by (simp add: c float64_round_def mult.assoc)
qed

lemma full_percent: "\<not> float64_less x hundred \<Longrightarrow> fixed0 (clampPercent x) = ''100''"
proof -
  assume f: "\<not> float64_less x hundred"
  obtain m e where x: "x = (m, e)" by (cases x)
  have h: "rne (100 * d) d = 100" if "0 < d" for d :: int using that by (simp add: rne_def Let_def)
  have i: "Itoa 100 = ''100''" by code_simp
  show ?thesis
  proof (cases "float64_less hundred x")
    case True
    have "100 * 2 ^ nat (- e) \<le> m * 2 ^ nat e" using f by (simp add: x float64_less_def float64_le_def hundred_def)
    then have "0 \<le> m * 2 ^ nat e" by (rule order_trans [rotated]) simp
    then have "\<not> float64_less x (0, 0)" by (simp add: x float64_less_def float64_le_def)
    with True have "clampPercent x = hundred" by (simp add: clampPercent_def)
    then show ?thesis using h [of 1] i by (simp add: fixed0_def float64_round_def hundred_def)
  next
    case False
    then have m: "m * 2 ^ nat e = 100 * 2 ^ nat (- e)" using f by (simp add: x float64_less_def float64_le_def hundred_def)
    then have "0 \<le> m * 2 ^ nat e" by simp
    then have "0 \<le> m" by (simp add: zero_le_mult_iff)
    then have "clampPercent x = x" using False by (simp add: clampPercent_def x float64_less_def float64_le_def)
    then show ?thesis using h [of "2 ^ nat (- e)"] i m by (simp add: fixed0_def float64_round_def x)
  qed
qed

lemma duration_parts:
  assumes "0 < d" "d \<le> maxInt64_const - Minute"
  shows "\<exists>h m. 0 \<le> h \<and> 0 \<le> m \<and> m < 60 \<and> \<bar>d - (h * Hour + m * Minute)\<bar> \<le> 30 * Second \<and>
    formatDuration d = (if h > 0 then Itoa h @ ''h'' @ padInt 2 m @ ''m'' else Itoa m @ ''m'')"
proof -
  let ?r = "roundMinute d" and ?k = "roundMinute d div Minute"
  have e: "?r = (d div Minute) * Minute \<and> d mod Minute < 30 * Second \<or> ?r = (d div Minute + 1) * Minute \<and> 30 * Second \<le> d mod Minute"
    using assms by (auto simp: roundMinute_def Let_def go_time minus_mod_eq_mult_div algebra_simps)
  have r: "?r = ?k * Minute" using e by (auto simp: go_time)
  define a b where ab: "a = d div Minute" "b = d mod Minute"
  have "d = a * Minute + b" "0 \<le> a" "0 \<le> b" using assms(1) by (simp_all add: ab go_time pos_imp_zdiv_nonneg_iff)
  moreover have "b < Minute" unfolding ab(2) by (simp add: go_time)
  ultimately have r2: "\<bar>d - ?r\<bar> \<le> 30 * Second" "0 \<le> ?r" using e unfolding ab [symmetric] by (auto simp: go_time)
  note r = r r2
  have q: "go_quo ?r Hour = ?r div Hour" "?r div Hour = ?k div 60" using r(1, 3) by (auto simp: go_quo_nonneg go_time)
  have l: "?r - ?k div 60 * Hour = (?k mod 60) * Minute" using r(1) by (simp add: go_time) presburger
  have m: "go_quo (?r - go_quo ?r Hour * Hour) Minute = ?k mod 60" unfolding q l by (simp add: go_quo_nonneg go_time)
  have "?k div 60 * Hour + ?k mod 60 * Minute = ?r" using l by simp
  moreover have "0 \<le> ?k" using r(3) by (simp add: go_time pos_imp_zdiv_nonneg_iff)
  ultimately have "0 \<le> ?k div 60 \<and> 0 \<le> ?k mod 60 \<and> ?k mod 60 < 60 \<and> \<bar>d - (?k div 60 * Hour + ?k mod 60 * Minute)\<bar> \<le> 30 * Second"
    using r(2) by (simp add: pos_imp_zdiv_nonneg_iff)
  moreover have "formatDuration d = (if ?k div 60 > 0 then Itoa (?k div 60) @ ''h'' @ padInt 2 (?k mod 60) @ ''m'' else Itoa (?k mod 60) @ ''m'')"
    unfolding formatDuration_def Let_def m unfolding q by simp
  ultimately show ?thesis by blast
qed

section \<open>Properties\<close>

text \<open>
  C18. No text that comes from an account reaches the markup of the dashboard. The tags of the page
  are a function of the number of accounts, their health classes, which windows are known and the
  clamped percentages: names, health texts, sources and times are always text between tags.
\<close>

theorem dashboard_markup_fixed:
  "markup (renderResourceStatusHTML codec status now) = pageTags (dashboardAccounts codec status)"
  by (simp add: renderResourceStatusHTML_def markup_page)

text \<open>
  C37. The numbers of a dashboard window stay in range: the width of the bar is 0 to 100 per cent in
  tenths, the figure 0 to 100, and a countdown is hours and less than sixty minutes, at most
  half a minute from the time that is left.
\<close>

theorem dashboard_numbers_bounded:
  assumes "0 < d" "d \<le> maxInt64_const - Minute"
  shows "0 \<le> float64_round 10 (clampPercent p) \<and> float64_round 10 (clampPercent p) \<le> 1000 \<and>
    0 \<le> float64_round 1 (clampPercent p) \<and> float64_round 1 (clampPercent p) \<le> 100 \<and>
    (\<exists>h m. 0 \<le> h \<and> 0 \<le> m \<and> m < 60 \<and> \<bar>d - (h * Hour + m * Minute)\<bar> \<le> 30 * Second \<and>
      formatDuration d = (if h > 0 then Itoa h @ ''h'' @ padInt 2 m @ ''m'' else Itoa m @ ''m''))"
  using percent_bounds [of 10 p] percent_bounds [of 1 p] duration_parts [OF assms] by simp

theorem dashboard_numbers_bounded_witness:
  "0 \<le> float64_round 10 (clampPercent (7, 5)) \<and> float64_round 10 (clampPercent (7, 5)) \<le> 1000"
  using dashboard_numbers_bounded [of "90 * Second" "(7, 5)"] by (simp add: go_time maxInt64_const_def)

text \<open>
  An OpenCode Go window that is known to be exhausted is shown as full, whatever utilization
  was reported with it, and its account as exhausted unless it is disabled.
\<close>

theorem exhausted_window_shows_full:
  assumes "mget (oa_Windows a) kind = Some w" "ow_Known w" "ow_Exhausted w" "kind \<in> set windowKinds"
  shows "dw_Known (opencodeWindow a kind) \<and> fixed0 (clampPercent (dw_Percent (opencodeWindow a kind))) = ''100'' \<and>
    opencodeHealth a = (if oa_Disabled a then ''disabled'' else ''exhausted'')"
proof -
  let ?p = "dw_Percent (opencodeWindow a kind)"
  have "\<not> float64_less hundred hundred" by code_simp
  then have "\<not> float64_less ?p hundred" using assms(1-3) by (simp add: opencodeWindow_def Let_def)
  moreover have "list_ex (\<lambda>k. case mget (oa_Windows a) k of None \<Rightarrow> False | Some w \<Rightarrow> ow_Known w \<and> ow_Exhausted w) windowKinds"
    using assms by (auto simp: list_ex_iff intro!: bexI [of _ kind])
  ultimately show ?thesis using assms(1, 2) full_percent by (simp add: opencodeWindow_def opencodeHealth_def Let_def)
qed

theorem exhausted_window_shows_full_witness:
  "opencodeHealth \<lparr>oa_Name = ''a'', oa_Disabled = False,
     oa_Windows = [(''weekly'', \<lparr>ow_Known = True, ow_Utilization = Some (1, - 1), ow_Exhausted = True, ow_ResetAt = None, ow_Source = [], ow_Authoritative = True\<rparr>)]\<rparr> = ''exhausted''"
proof -
  let ?w = "\<lparr>ow_Known = True, ow_Utilization = Some (1, - 1), ow_Exhausted = True, ow_ResetAt = None, ow_Source = [], ow_Authoritative = True\<rparr>"
  let ?a = "\<lparr>oa_Name = ''a'', oa_Disabled = False, oa_Windows = [(''weekly'', ?w)]\<rparr>"
  have "mget (oa_Windows ?a) ''weekly'' = Some ?w" "''weekly'' \<in> set windowKinds" by (simp_all add: windowKinds_def)
  from exhausted_window_shows_full [OF this(1) _ _ this(2)] show ?thesis by simp
qed

end
