(* ===== verification/ReleaseInv.thy ===== *)
theory ReleaseInv
  imports Release
begin

text \<open>
  What the release tools promise: a version tag is exactly a semantic version after a \<open>v\<close>; a
  release that validates holds the files it should hold, with the digests that its checksum file
  names; and the checksum file that packaging writes validates.
\<close>

section \<open>Versions\<close>

definition numeric :: "string \<Rightarrow> bool" where
  "numeric s \<longleftrightarrow> s = ''0'' \<or> (s \<noteq> [] \<and> hd s \<noteq> CHR ''0'' \<and> list_all is_digit s)"

definition dotted :: "string \<Rightarrow> bool" where
  "dotted s \<longleftrightarrow> (\<exists>ps. ps \<noteq> [] \<and> (\<forall>p \<in> set ps. p \<noteq> [] \<and> list_all is_ident p) \<and> s = Join ps ''.'')"

definition marked :: "char \<Rightarrow> string \<Rightarrow> bool" where
  "marked c s \<longleftrightarrow> s = [] \<or> (\<exists>p. s = c # p \<and> dotted p)"

lemma rx_star_cls: "rx_in (RxStar (RxCls P)) w \<longleftrightarrow> list_all P w"
proof (induction w)
  case (Cons c w)
  then show ?case by (auto simp: rx_star_cons)
qed (simp add: rx_in.InNil)

lemma rx_cls_seq: "rx_in (RxSeq (RxCls P) r) w \<longleftrightarrow> (\<exists>c v. w = c # v \<and> P c \<and> rx_in r v)"
  by (simp add: rx_in_seq, metis append_Cons append_Nil)

lemma rx_word: "rx_in (RxSeq (RxCls P) (RxStar (RxCls P))) w \<longleftrightarrow> w \<noteq> [] \<and> list_all P w"
  by (cases w) (simp_all add: rx_cls_seq rx_star_cls)

lemma rx_number_in: "rx_in rx_number s \<longleftrightarrow> numeric s"
proof (cases s)
  case (Cons c cs)
  have "rx_in rx_number s \<longleftrightarrow> s = ''0'' \<or> (is_digit c \<and> c \<noteq> CHR ''0'' \<and> list_all is_digit cs)"
    unfolding rx_number_def rx_in_simps(4) rx_cls_seq rx_star_cls Cons by auto
  then show ?thesis by (auto simp: numeric_def Cons)
qed (simp add: rx_number_def numeric_def rx_cls_seq)

lemma rx_dots_in:
  "rx_in (RxStar (RxSeq (rx_lit (CHR ''.'')) (RxSeq (RxCls is_ident) (RxStar (RxCls is_ident))))) s \<longleftrightarrow>
     (\<exists>ps. (\<forall>p \<in> set ps. p \<noteq> [] \<and> list_all is_ident p) \<and> s = concat (map (\<lambda>p. CHR ''.'' # p) ps))"
  (is "rx_in (RxStar ?r) s \<longleftrightarrow> ?P s")
proof
  have r: "rx_in ?r u \<longleftrightarrow> (\<exists>p. u = CHR ''.'' # p \<and> p \<noteq> [] \<and> list_all is_ident p)" for u
    unfolding rx_cls_seq [of "\<lambda>d. d = CHR ''.''"] rx_word by auto
  show "?P s" if "rx_in (RxStar ?r) s"
    using that
  proof (induction "RxStar ?r" s rule: rx_in.induct)
    case InNil
    show ?case by (rule exI [of _ "[]"]) simp
  next
    case (InStar u v)
    obtain p where p: "u = CHR ''.'' # p" "p \<noteq> []" "list_all is_ident p" using InStar(1) r by blast
    obtain ps where "\<forall>p \<in> set ps. p \<noteq> [] \<and> list_all is_ident p" "v = concat (map (\<lambda>p. CHR ''.'' # p) ps)" using InStar(3) by blast
    then show ?case using p by (intro exI [of _ "p # ps"]) simp
  qed
  have "rx_in (RxStar ?r) (concat (map (\<lambda>p. CHR ''.'' # p) ps))" if "\<forall>p \<in> set ps. p \<noteq> [] \<and> list_all is_ident p" for ps
    using that
  proof (induction ps)
    case (Cons p ps)
    have "rx_in ?r (CHR ''.'' # p)" using Cons.prems r by auto
    from rx_in.InStar [OF this] Cons show ?case by simp
  qed (simp add: rx_in.InNil)
  then show "rx_in (RxStar ?r) s" if "?P s" using that by blast
qed

lemma Join_dots: "Join (p # ps) ''.'' = p @ concat (map (\<lambda>p. CHR ''.'' # p) ps)"
  by (induction ps arbitrary: p) auto

lemma rx_idents_in: "rx_in rx_idents s \<longleftrightarrow> dotted s"
proof -
  let ?dots = "\<lambda>ps. concat (map (\<lambda>p. CHR ''.'' # p) ps)" and ?ok = "\<lambda>ps. \<forall>p \<in> set ps. p \<noteq> [] \<and> list_all is_ident p"
  let ?d = "RxStar (RxSeq (rx_lit (CHR ''.'')) (RxSeq (RxCls is_ident) (RxStar (RxCls is_ident))))"
  have "rx_in rx_idents s \<longleftrightarrow> (\<exists>c v w. s = c # v @ w \<and> is_ident c \<and> list_all is_ident v \<and> rx_in ?d w)"
    unfolding rx_idents_def by (simp add: rx_cls_seq) (simp add: rx_in_seq rx_star_cls, blast)
  also have "\<dots> \<longleftrightarrow> (\<exists>p ps. ?ok (p # ps) \<and> s = p @ ?dots ps)"
  proof
    assume "\<exists>c v w. s = c # v @ w \<and> is_ident c \<and> list_all is_ident v \<and> rx_in ?d w"
    then obtain c v ps where "s = c # v @ ?dots ps" "is_ident c" "list_all is_ident v" "?ok ps" by (auto simp: rx_dots_in)
    then show "\<exists>p ps. ?ok (p # ps) \<and> s = p @ ?dots ps" by (intro exI [of _ "c # v"] exI [of _ ps]) simp
  next
    assume "\<exists>p ps. ?ok (p # ps) \<and> s = p @ ?dots ps"
    then obtain p ps where p: "?ok (p # ps)" "s = p @ ?dots ps" by blast
    then obtain c v where "p = c # v" by (cases p) auto
    then show "\<exists>c v w. s = c # v @ w \<and> is_ident c \<and> list_all is_ident v \<and> rx_in ?d w"
      using p by (intro exI [of _ c] exI [of _ v] exI [of _ "?dots ps"]) (auto simp: rx_dots_in)
  qed
  also have "\<dots> \<longleftrightarrow> dotted s"
  proof
    assume "\<exists>p ps. ?ok (p # ps) \<and> s = p @ ?dots ps"
    then obtain p ps where "?ok (p # ps)" "s = Join (p # ps) ''.''" by (auto simp: Join_dots)
    then show "dotted s" unfolding dotted_def by blast
  next
    assume "dotted s"
    then obtain qs where "qs \<noteq> []" "?ok qs" "s = Join qs ''.''" by (auto simp: dotted_def)
    moreover from this obtain p ps where "qs = p # ps" by (cases qs) auto
    ultimately show "\<exists>p ps. ?ok (p # ps) \<and> s = p @ ?dots ps" by (auto simp: Join_dots)
  qed
  finally show ?thesis .
qed

lemma rx_marked_in: "rx_in (rx_opt (RxSeq (rx_lit c) rx_idents)) s \<longleftrightarrow> marked c s"
  by (auto simp: rx_opt_def marked_def rx_idents_in rx_cls_seq)

lemma version_in:
  "rx_in versionPattern v \<longleftrightarrow>
     (\<exists>a b c pre build. v = a @ ''.'' @ b @ ''.'' @ c @ pre @ build \<and> numeric a \<and> numeric b \<and> numeric c \<and>
        marked (CHR ''-'') pre \<and> marked (CHR ''+'') build)"
proof -
  let ?rest = "\<lambda>w. \<exists>c pre build. w = c @ pre @ build \<and> numeric c \<and> marked (CHR ''-'') pre \<and> marked (CHR ''+'') build"
  have rest: "rx_in (RxSeq rx_number (RxSeq (rx_opt (RxSeq (rx_lit (CHR ''-'')) rx_idents)) (rx_opt (RxSeq (rx_lit (CHR ''+'')) rx_idents)))) w \<longleftrightarrow> ?rest w" for w
    unfolding rx_in_seq rx_number_in rx_in_seq [of "rx_opt _"] rx_marked_in by blast
  have num: "rx_in (RxSeq rx_number (RxSeq (rx_lit (CHR ''.'')) r)) w \<longleftrightarrow> (\<exists>a u. w = a @ ''.'' @ u \<and> numeric a \<and> rx_in r u)" for r w
    unfolding rx_in_seq [of rx_number] rx_cls_seq rx_number_in by auto
  show ?thesis unfolding versionPattern_def rx_seq.simps num rest by auto blast+
qed


lemma version_no_slash: "rx_in versionPattern v \<Longrightarrow> CHR ''/'' \<notin> set v"
proof -
  have d: "\<not> is_digit (CHR ''/'')" "\<not> is_ident (CHR ''/'')" by code_simp+
  have n: "numeric s \<Longrightarrow> CHR ''/'' \<notin> set s" for s using d(1) by (auto simp: numeric_def list_all_iff)
  have j: "CHR ''/'' \<notin> set (Join ps ''.'')" if "\<forall>p \<in> set ps. CHR ''/'' \<notin> set p" for ps
    using that by (induction ps "''.''" rule: Join.induct) auto
  have i: "CHR ''/'' \<notin> set p" if "list_all is_ident p" for p using that d(2) by (auto simp: list_all_iff)
  have m: "marked c s \<Longrightarrow> c \<noteq> CHR ''/'' \<Longrightarrow> CHR ''/'' \<notin> set s" for c s
    using i j by (fastforce simp: marked_def dotted_def)
  show "rx_in versionPattern v \<Longrightarrow> CHR ''/'' \<notin> set v" using n m by (auto simp: version_in)
qed

section \<open>Paths\<close>

lemma splitSlash_ne: "splitSlash s \<noteq> []"
  by (induction s) (auto split: list.splits)

lemma splitSlash_plain: "CHR ''/'' \<notin> set n \<Longrightarrow> splitSlash n = [n]"
  by (induction n) auto

lemma splitSlash_append: "splitSlash (d @ CHR ''/'' # n) = splitSlash d @ splitSlash n"
  using splitSlash_ne by (induction d) (auto split: list.splits)

lemma cleanLoop_append: "cleanLoop r acc (ps @ qs) = cleanLoop r (cleanLoop r acc ps) qs"
  by (induction r acc ps rule: cleanLoop.induct) (auto split: list.splits)

definition plain_file :: "string \<Rightarrow> bool" where
  "plain_file n \<longleftrightarrow> n \<noteq> [] \<and> n \<noteq> ''.'' \<and> n \<noteq> ''..'' \<and> CHR ''/'' \<notin> set n"

lemma pathBase_last:
  assumes "n \<noteq> []" "CHR ''/'' \<notin> set n"
  shows "pathBase n = n" "pathBase (d @ CHR ''/'' # n) = n"
proof -
  have w: "takeWhile (\<lambda>c. c \<noteq> CHR ''/'') (rev n) = rev n" "takeWhile (\<lambda>c. c \<noteq> CHR ''/'') (rev n @ CHR ''/'' # e) = rev n" for e
    using assms(2) by (auto simp: takeWhile_eq_all_conv takeWhile_append)
  have rs: "set (rev n) = set n" by simp
  obtain c cs where r: "rev n = c # cs" "c \<noteq> CHR ''/''"
  proof (cases "rev n")
    case (Cons c cs)
    then show thesis using that [of c cs] assms(2) rs by auto
  qed (use assms(1) in simp)
  show "pathBase n = n" using assms(1) r w(1) by (auto simp: pathBase_def)
  have "dropWhile (\<lambda>c. c = CHR ''/'') (rev n @ CHR ''/'' # rev d) = rev n @ CHR ''/'' # rev d" using r by simp
  then show "pathBase (d @ CHR ''/'' # n) = n" using r w(2) [of "rev d"] by (simp add: pathBase_def split: list.splits)
qed

lemma Join_last: "Join (xs @ [n]) ''/'' = (if xs = [] then n else Join xs ''/'' @ CHR ''/'' # n)"
  by (induction xs "''/''" rule: Join.induct) auto

lemma pathBase_joinPath: "plain_file n \<Longrightarrow> pathBase (joinPath d n) = n"
proof -
  assume n: "plain_file n"
  then have p: "n \<noteq> []" "CHR ''/'' \<notin> set n" by (simp_all add: plain_file_def)
  have "cleanLoop r acc [n] = n # acc" for r acc using n by (simp add: plain_file_def)
  then have "\<exists>r acc. cleanPath (if d = [] then n else d @ ''/'' @ n) = (r, n # acc)"
    using p(2) by (simp add: cleanPath_def splitSlash_append splitSlash_plain cleanLoop_append)
  then obtain r acc where c: "cleanPath (if d = [] then n else d @ ''/'' @ n) = (r, n # acc)" by blast
  have "pathBase (pathString (r, n # acc)) = n"
    using pathBase_last [OF p] pathBase_last(2) [OF p, of "CHR ''/'' # Join (rev acc) ''/''"] pathBase_last(2) [OF p, of "[]"]
    by (simp add: pathString_def Join_last)
  then show ?thesis using c p(1) by (simp add: joinPath_def)
qed

section \<open>Accepted releases\<close>

lemma wrapR_Inr [simp]: "wrapR t r = Inr v \<longleftrightarrow> r = Inr v"
  by (simp add: wrapR_def split: sum.splits)

lemma readFile_Inr [simp]: "readFile fs p = Inr x \<longleftrightarrow> fs_open fs p = Inr (Inr x)"
  by (simp add: readFile_def bindR_Inr_iff)

lemma readersEqual_Inr: "readersEqual lib l r = Inr b \<longleftrightarrow> (\<exists>x y. l = Inr x \<and> r = Inr y \<and> b = (lib_sha256hex lib x = lib_sha256hex lib y))"
  by (auto simp: readersEqual_def bindR_Inr_iff)

definition archive_holds :: "golib \<Rightarrow> releaseFS \<Rightarrow> string \<Rightarrow> string \<Rightarrow> bool" where
  "archive_holds lib fs archive library \<longleftrightarrow>
     (\<exists>z x y. fs_zip fs archive = Inr [z] \<and> ze_Name z = libraryName \<and> ze_Open z = Inr (Inr x) \<and>
        fs_open fs library = Inr (Inr y) \<and> lib_sha256hex lib x = lib_sha256hex lib y)"

definition staged_entry :: "golib \<Rightarrow> releaseFS \<Rightarrow> string \<Rightarrow> zipEntry \<Rightarrow> bool" where
  "staged_entry lib fs dist z \<longleftrightarrow> (ze_Name z, ze_Perm z) \<in> set operatorFiles \<and> \<not> ze_IsDir z \<and> \<not> ze_IsSymlink z \<and>
     (\<exists>x y. ze_Open z = Inr (Inr x) \<and> fs_open fs (joinPath dist (ze_Name z)) = Inr (Inr y) \<and> lib_sha256hex lib x = lib_sha256hex lib y)"

definition bundle_holds :: "golib \<Rightarrow> releaseFS \<Rightarrow> string \<Rightarrow> string \<Rightarrow> bool" where
  "bundle_holds lib fs dist bundle \<longleftrightarrow>
     (\<exists>zs. fs_zip fs bundle = Inr zs \<and> distinct (map ze_Name zs) \<and> set (map ze_Name zs) = set (map fst operatorFiles) \<and>
        (\<forall>z \<in> set zs. staged_entry lib fs dist z))"

definition checksums_hold :: "golib \<Rightarrow> releaseFS \<Rightarrow> string \<Rightarrow> string \<Rightarrow> string list \<Rightarrow> bool" where
  "checksums_hold lib fs dist file names \<longleftrightarrow>
     (\<exists>text cs. fs_open fs file = Inr (Inr text) \<and> checksumLines [] (fst (scanLines text)) = Inr cs \<and> \<not> snd (scanLines text) \<and>
        set (mkeys cs) = set names \<and>
        (\<forall>n \<in> set names. \<exists>bytes. fs_open fs (joinPath dist n) = Inr (Inr bytes) \<and> mget cs n = Some (lib_sha256hex lib bytes)))"

lemma archive_accepted:
  assumes "validateArchive lib fs library archive = Inr ()"
  shows "archive_holds lib fs archive library"
proof -
  obtain files entry lib' where f: "fs_zip fs archive = Inr files" "length files = 1" "ze_Name (hd files) = libraryName"
      "ze_Open (hd files) = Inr entry" "fs_open fs library = Inr lib'" "readersEqual lib lib' entry = Inr True"
    using assms by (auto simp: validateArchive_def bindR_Inr_iff split: if_splits)
  then obtain z where "files = [z]" by (cases files) auto
  then show ?thesis using f by (auto simp: archive_holds_def readersEqual_Inr)
qed

lemma bundleEntry_accepted:
  assumes "validateBundleEntry lib fs dist seen z = Inr ()"
  shows "staged_entry lib fs dist z" "ze_Name z \<notin> set seen"
proof -
  obtain mode entry staged where f: "\<not> unsafeEntry z" "mget operatorFiles (ze_Name z) = Some mode" "ze_Name z \<notin> set seen" "ze_Perm z = mode"
      "ze_Open z = Inr entry" "fs_open fs (joinPath dist (ze_Name z)) = Inr staged" "readersEqual lib entry staged = Inr True"
    using assms by (auto simp: validateBundleEntry_def Let_def bindR_Inr_iff split: if_splits option.splits)
  then show "staged_entry lib fs dist z" by (auto simp: staged_entry_def unsafeEntry_def readersEqual_Inr dest: map_of_SomeD)
  show "ze_Name z \<notin> set seen" by (rule f(3))
qed

lemma bundleEntries_accepted:
  "validateBundleEntries lib fs dist seen zs = Inr seen' \<Longrightarrow>
     (\<forall>z \<in> set zs. staged_entry lib fs dist z) \<and> seen' = rev (map ze_Name zs) @ seen \<and> (distinct seen \<longrightarrow> distinct seen')"
proof (induction zs arbitrary: seen)
  case (Cons z zs)
  then have z: "validateBundleEntry lib fs dist seen z = Inr ()" and r: "validateBundleEntries lib fs dist (ze_Name z # seen) zs = Inr seen'"
    by (auto simp: bindR_Inr_iff)
  show ?case using Cons.IH [OF r] bundleEntry_accepted [OF z] by (auto simp: disjoint_iff)
qed auto

lemma bundle_accepted:
  assumes "validateOperatorBundle lib fs root dist version = Inr ()"
  shows "bundle_holds lib fs dist (joinPath dist (operatorName version))"
proof -
  obtain zs seen where f: "fs_zip fs (joinPath dist (operatorName version)) = Inr zs" "validateBundleEntries lib fs dist [] zs = Inr seen"
      "length seen = length operatorFiles" "\<not> list_ex (\<lambda>(name, mode). name \<notin> set seen) operatorFiles"
    using assms by (auto simp: validateOperatorBundle_def Let_def bindR_Inr_iff split: if_splits)
  have e: "\<forall>z \<in> set zs. staged_entry lib fs dist z" "seen = rev (map ze_Name zs)" "distinct seen"
    using bundleEntries_accepted [OF f(2)] by auto
  have "set (map fst operatorFiles) \<subseteq> set (map ze_Name zs)" using f(4) e(2) by (fastforce simp: list_ex_iff)
  moreover have "set (map ze_Name zs) \<subseteq> set (map fst operatorFiles)" using e(1) by (force simp: staged_entry_def)
  ultimately show ?thesis using f(1) e by (auto simp: bundle_holds_def)
qed

lemma checkArtifacts_accepted:
  "checkArtifacts lib fs cs paths = Inr () \<Longrightarrow>
     \<forall>p \<in> set paths. \<exists>bytes. fs_open fs p = Inr (Inr bytes) \<and> mget cs (pathBase p) = Some (lib_sha256hex lib bytes)"
proof (induction paths)
  case (Cons p paths)
  then obtain want got where w: "mget cs (pathBase p) = Some want" "fileSHA256 lib fs p = Inr got" "got = want"
      "checkArtifacts lib fs cs paths = Inr ()"
    by (auto simp: bindR_Inr_iff split: option.splits if_splits)
  then show ?case using Cons.IH by (auto simp: fileSHA256_def bindR_Inr_iff)
qed simp

lemma checksumLine_wf: "checksumLine cs line = Inr cs' \<Longrightarrow> map_wf cs \<Longrightarrow> map_wf cs'"
  by (auto simp: checksumLine_def Let_def split: list.splits if_splits)

lemma checksumLines_wf: "checksumLines cs ls = Inr cs' \<Longrightarrow> map_wf cs \<Longrightarrow> map_wf cs'"
  by (induction cs ls rule: checksumLines.induct) (auto simp: bindR_Inr_iff dest: checksumLine_wf)

lemma artifacts_plain:
  assumes "CHR ''/'' \<notin> set version"
  shows "\<forall>n \<in> set (releaseArtifacts version). plain_file n" "distinct (releaseArtifacts version)"
  using assms by (simp_all add: releaseArtifacts_def libraryFile_def archiveName_def operatorName_def toolPluginID_def plain_file_def)

lemma checksums_accepted:
  assumes "validateChecksums lib fs file (map (joinPath dist) names) = Inr ()" and "\<forall>n \<in> set names. plain_file n" "distinct names"
  shows "checksums_hold lib fs dist file names"
proof -
  obtain body cs where f: "fs_open fs file = Inr (Inr body)" "checksumLines [] (fst (scanLines body)) = Inr cs" "\<not> snd (scanLines body)"
      "length cs = length names" "checkArtifacts lib fs cs (map (joinPath dist) names) = Inr ()"
    using assms(1) by (auto simp: validateChecksums_def bindR_Inr_iff split_beta Let_def split: if_splits)
  have wf: "distinct (map fst cs)" using checksumLines_wf [OF f(2)] by (simp add: map_wf_def)
  have a: "\<exists>bytes. fs_open fs (joinPath dist n) = Inr (Inr bytes) \<and> mget cs n = Some (lib_sha256hex lib bytes)" if "n \<in> set names" for n
    using checkArtifacts_accepted [OF f(5)] that assms(2) pathBase_joinPath by fastforce
  have sub: "set names \<subseteq> set (map fst cs)"
  proof
    fix n assume "n \<in> set names"
    then obtain v where "mget cs n = Some v" using a by blast
    then show "n \<in> set (map fst cs)" by (force dest: map_of_SomeD)
  qed
  moreover have "card (set names) = card (set (map fst cs))" using wf assms(3) f(4) by (metis distinct_card length_map)
  ultimately have "set (mkeys cs) = set names" by (metis List.finite_set card_subset_eq mkeys_def)
  then show ?thesis using f(1-3) a by (auto simp: checksums_hold_def)
qed


section \<open>Checksum files\<close>

definition digest_hex :: "golib \<Rightarrow> bool" where
  "digest_hex lib \<longleftrightarrow> (\<forall>x. length (lib_sha256hex lib x) = 64 \<and> list_all is_lower_hex (lib_sha256hex lib x))"

text \<open>A name that survives as one field of a checksum line.\<close>

definition field_name :: "string \<Rightarrow> bool" where
  "field_name n \<longleftrightarrow> n \<noteq> [] \<and> list_all (\<lambda>c. \<not> is_space c) n \<and> \<not> HasPrefix n ''*'' \<and> length n < 65000"

lemma Fields_Nil [simp]: "Fields [] = []"
  by (simp add: Fields.simps)

lemma Fields_space: "is_space c \<Longrightarrow> Fields (c # s) = Fields s"
  by (subst (1 2) Fields.simps) simp

lemma Fields_word:
  assumes "w \<noteq> []" "list_all (\<lambda>c. \<not> is_space c) w" and "rest = [] \<or> is_space (hd rest)"
  shows "Fields (w @ rest) = w # Fields rest"
proof -
  obtain c cs where w: "w = c # cs" using assms(1) by (cases w) auto
  have ns: "\<not> is_space c" "\<forall>d \<in> set cs. \<not> is_space d" using assms(2) by (auto simp: w list_all_iff)
  have "takeWhile (\<lambda>d. \<not> is_space d) (cs @ rest) = cs" "dropWhile (\<lambda>d. \<not> is_space d) (cs @ rest) = rest"
    using ns(2) assms(3) by (cases rest; simp add: takeWhile_append2 dropWhile_append2)+
  then show ?thesis using ns(1) by (subst Fields.simps) (simp add: w)
qed

lemma lower_hex_facts:
  "is_lower_hex c \<Longrightarrow> is_hex c" "is_lower_hex c \<Longrightarrow> lower_char c = c" "is_lower_hex c \<Longrightarrow> \<not> is_space c" "is_lower_hex c \<Longrightarrow> c \<noteq> CHR 0x0A"
  by (auto simp: is_lower_hex_def is_hex_def is_digit_def lower_char_def is_space_def Let_def)

lemma checksumLine_written:
  assumes "length d = 64" "list_all is_lower_hex d" and "field_name n" "pathBase n = n" "mget cs n = None"
  shows "checksumLine cs (d @ ''  '' @ n) = Inr (mput n d cs)"
proof -
  have sp: "is_space (CHR '' '')" by code_simp
  have "list_all (\<lambda>c. \<not> is_space c) d" "d \<noteq> []" using assms(1, 2) lower_hex_facts(3) by (auto simp: list_all_iff)
  then have "Fields (d @ ''  '' @ n) = d # Fields (''  '' @ n)" using sp by (intro Fields_word) auto
  also have "Fields (''  '' @ n) = Fields (n @ [])" using sp by (simp add: Fields_space)
  also have "\<dots> = [n]" using assms(3) Fields_word [of n "[]"] by (simp add: field_name_def)
  finally have "Fields (d @ ''  '' @ n) = [d, n]" .
  moreover have "hexDecodes d" "ToLower d = d"
    using assms(1, 2) lower_hex_facts by (auto simp: hexDecodes_def ToLower_def list_all_iff intro: map_idI)
  ultimately show ?thesis using assms by (simp add: checksumLine_def field_name_def)
qed

definition bytesOf :: "releaseFS \<Rightarrow> string \<Rightarrow> string" where
  "bytesOf fs p = projr (projr (fs_open fs p))"

definition lineOf :: "golib \<Rightarrow> releaseFS \<Rightarrow> artifact \<Rightarrow> string" where
  "lineOf lib fs a = lib_sha256hex lib (bytesOf fs (at_path a)) @ ''  '' @ at_name a"

lemma checksumText_lines:
  "checksumText lib fs arts = Inr body \<Longrightarrow>
     (\<forall>a \<in> set arts. fs_open fs (at_path a) = Inr (Inr (bytesOf fs (at_path a)))) \<and> body = concat (map (\<lambda>l. l @ NL) (map (lineOf lib fs) arts))"
proof (induction arts arbitrary: body)
  case (Cons a arts)
  then obtain bytes rest where "fs_open fs (at_path a) = Inr (Inr bytes)" "checksumText lib fs arts = Inr rest"
      "body = lib_sha256hex lib bytes @ ''  '' @ at_name a @ NL @ rest"
    by (auto simp: bindR_Inr_iff split: option.splits)
  then show ?case using Cons.IH by (simp add: lineOf_def bytesOf_def)
qed simp

lemma splitOn_lines: "\<forall>l \<in> set ls. sep \<notin> set l \<Longrightarrow> splitOn sep (concat (map (\<lambda>l. l @ [sep]) ls)) = ls @ [[]]"
proof (induction ls)
  case (Cons l ls)
  have "splitOn sep (l @ sep # r) = l # splitOn sep r" if "sep \<notin> set l" for l r using that by (induction l) auto
  then show ?case using Cons by simp
qed simp

lemma scanLines_written:
  assumes "\<forall>l \<in> set ls. CHR 0x0A \<notin> set l \<and> \<not> suffix CR l \<and> length l < maxScanToken"
  shows "scanLines (concat (map (\<lambda>l. l @ NL) ls)) = (ls, False)"
proof -
  let ?short = "takeWhile (\<lambda>l. length l < maxScanToken) ls"
  have "splitOn (CHR 0x0A) (concat (map (\<lambda>l. l @ NL) ls)) = ls @ [[]]" unfolding NL_def by (rule splitOn_lines) (use assms in blast)
  then have "scanLines (concat (map (\<lambda>l. l @ NL) ls)) = (map (\<lambda>l. TrimSuffix l CR) ?short, length ?short \<noteq> length ls)"
    by (simp add: scanLines_def Let_def)
  also have "?short = ls" using assms by (simp add: takeWhile_eq_all_conv)
  also have "map (\<lambda>l. TrimSuffix l CR) ls = ls" using assms by (simp add: TrimSuffix_def map_idI)
  finally show ?thesis by simp
qed

lemma lineOf_scans:
  assumes "digest_hex lib" and "field_name (at_name a)"
  shows "CHR 0x0A \<notin> set (lineOf lib fs a) \<and> \<not> suffix CR (lineOf lib fs a) \<and> length (lineOf lib fs a) < maxScanToken"
proof -
  let ?d = "lib_sha256hex lib (bytesOf fs (at_path a))"
  have d: "length ?d = 64" "CHR 0x0A \<notin> set ?d" using assms(1) lower_hex_facts(4) by (auto simp: digest_hex_def list_all_iff)
  have sp: "is_space (CHR 0x0A)" "is_space (CHR 0x0D)" by code_simp+
  have n: "CHR 0x0A \<notin> set (at_name a)" "CHR 0x0D \<notin> set (at_name a)" "at_name a \<noteq> []" "length (at_name a) < 65000"
    using assms(2) sp by (auto simp: field_name_def list_all_iff)
  have "\<not> suffix CR (lineOf lib fs a)"
  proof
    assume "suffix CR (lineOf lib fs a)"
    then have "last (lineOf lib fs a) = CHR 0x0D" by (auto simp: suffix_def CR_def)
    then show False using n(2, 3) last_in_set [OF n(3)] by (simp add: lineOf_def)
  qed
  then show ?thesis using d n by (simp add: lineOf_def maxScanToken_def)
qed

lemma mput_new: "mget m k = None \<Longrightarrow> length (mput k v m) = Suc (length m)"
  by (induction m) (auto split: if_splits)

lemma checksumLines_written:
  assumes "digest_hex lib" and "\<forall>a \<in> set arts. field_name (at_name a) \<and> pathBase (at_name a) = at_name a"
    and "distinct (map at_name arts)" "\<forall>a \<in> set arts. mget cs (at_name a) = None"
  shows "\<exists>cs'. checksumLines cs (map (lineOf lib fs) arts) = Inr cs' \<and> length cs' = length cs + length arts \<and>
    (\<forall>n. n \<notin> at_name ` set arts \<longrightarrow> mget cs' n = mget cs n) \<and>
    (\<forall>a \<in> set arts. mget cs' (at_name a) = Some (lib_sha256hex lib (bytesOf fs (at_path a))))"
  using assms(2-4)
proof (induction arts arbitrary: cs)
  case (Cons a arts)
  let ?d = "lib_sha256hex lib (bytesOf fs (at_path a))"
  have l: "checksumLine cs (lineOf lib fs a) = Inr (mput (at_name a) ?d cs)"
    unfolding lineOf_def by (rule checksumLine_written) (use assms(1) Cons.prems in \<open>auto simp: digest_hex_def\<close>)
  have "\<forall>b \<in> set arts. mget (mput (at_name a) ?d cs) (at_name b) = None" using Cons.prems(2, 3) by (auto simp: image_iff)
  then obtain cs' where "checksumLines (mput (at_name a) ?d cs) (map (lineOf lib fs) arts) = Inr cs'"
      "length cs' = length (mput (at_name a) ?d cs) + length arts"
      "\<forall>n. n \<notin> at_name ` set arts \<longrightarrow> mget cs' n = mget (mput (at_name a) ?d cs) n"
      "\<forall>b \<in> set arts. mget cs' (at_name b) = Some (lib_sha256hex lib (bytesOf fs (at_path b)))"
    using Cons.IH [of "mput (at_name a) ?d cs"] Cons.prems(1, 2) by auto
  moreover have "length (mput (at_name a) ?d cs) = Suc (length cs)" using Cons.prems(3) by (simp add: mput_new)
  ultimately show ?case using l Cons.prems(2) by (auto simp: bindR_def)
qed simp

lemma checkNames_spec: "checkNames seen arts = Inr () \<Longrightarrow>
    distinct (map at_name arts) \<and> (\<forall>a \<in> set arts. pathBase (at_name a) = at_name a \<and> at_name a \<notin> set seen)"
proof (induction arts arbitrary: seen)
  case (Cons a arts)
  then show ?case using Cons.IH [of "at_name a # seen"] by (auto split: if_splits)
qed simp

lemma checkArtifacts_ok:
  "\<forall>p \<in> set paths. \<exists>bytes. fs_open fs p = Inr (Inr bytes) \<and> mget cs (pathBase p) = Some (lib_sha256hex lib bytes) \<Longrightarrow>
     checkArtifacts lib fs cs paths = Inr ()"
  by (induction paths) (auto simp: fileSHA256_def wrapR_def bindR_def)

lemma tryR_Inr: "tryR text err r = Inr x \<longleftrightarrow> err = None \<and> r = Inr x"
  by (simp add: tryR_def split: option.splits)

lemma written_checksums_accepted:
  assumes "writeChecksums zc lib fs path arts = Inr body" and "fs_open fs' file = Inr (Inr body)" and "digest_hex lib"
    and "\<forall>a \<in> set arts. field_name (at_name a) \<and> pathBase (at_path a) = at_name a \<and> fs_open fs' (at_path a) = fs_open fs (at_path a)"
  shows "validateChecksums lib fs' file (map at_path arts) = Inr ()"
proof -
  let ?arts = "sort_key at_name arts"
  have n: "distinct (map at_name arts)" "\<forall>a \<in> set arts. pathBase (at_name a) = at_name a" and b: "checksumText lib fs ?arts = Inr body"
    using assms(1) checkNames_spec by (auto simp: writeChecksums_def bindR_Inr_iff tryR_Inr)
  have bt: "body = concat (map (\<lambda>l. l @ NL) (map (lineOf lib fs) ?arts))" and o: "\<forall>a \<in> set arts. fs_open fs (at_path a) = Inr (Inr (bytesOf fs (at_path a)))"
    using checksumText_lines [OF b] by auto
  have sc: "scanLines body = (map (lineOf lib fs) ?arts, False)"
    unfolding bt by (rule scanLines_written) (use lineOf_scans [OF assms(3)] assms(4) in auto)
  have d: "distinct (map at_name ?arts)" using n(1) by (metis distinct_map distinct_sort set_sort)
  obtain cs where cs: "checksumLines [] (map (lineOf lib fs) ?arts) = Inr cs" "length cs = length arts"
      "\<forall>a \<in> set arts. mget cs (at_name a) = Some (lib_sha256hex lib (bytesOf fs (at_path a)))"
    using checksumLines_written [OF assms(3) _ d, of "[]" fs] assms(4) n(2) by auto
  have "checkArtifacts lib fs' cs (map at_path arts) = Inr ()"
    by (rule checkArtifacts_ok) (use o cs(3) assms(4) in auto)
  then show ?thesis using assms(2) sc cs by (simp add: validateChecksums_def bindR_def wrapR_def)
qed

section \<open>A sample release\<close>

definition toolDigest :: "string \<Rightarrow> string" where
  "toolDigest x = replicate 64 (if even (length x) then CHR ''a'' else CHR ''7'')"

definition toolLib :: golib where
  "toolLib =
     \<lparr>lib_urlParse = (\<lambda>_. None), lib_urlString = url_Path, lib_urlHostname = url_Host, lib_parseRFC3339 = (\<lambda>_. None),
      lib_httpParseTime = (\<lambda>_. None), lib_decodeAny = (\<lambda>_. None), lib_decodeErrorCode = (\<lambda>_. None),
      lib_sha256hex = toolDigest, lib_hmacSHA256hex = (\<lambda>_ _. [])\<rparr>"

definition artifactBytes :: "string \<Rightarrow> string" where
  "artifactBytes n =
     (if n = ''registry.json'' then ''{}'' else if n = ''release-sha.txt'' then replicate 40 (CHR ''c'') @ NL else n)"

definition packagedArtifacts :: "artifact list" where
  "packagedArtifacts = map (\<lambda>n. \<lparr>at_name = n, at_path = ''/src/dist/'' @ n\<rparr>) (releaseArtifacts ''1.2.0'')"

definition packagedText :: string where
  "packagedText = concat (map (\<lambda>l. l @ NL)
     (map (\<lambda>a. toolDigest (artifactBytes (at_name a)) @ ''  '' @ at_name a) (sort_key at_name packagedArtifacts)))"

definition packagedOpen :: "string \<Rightarrow> string result result" where
  "packagedOpen p =
     (if p = ''/src/LICENSE'' then Inr (Inr canonicalMITLicense)
      else if p = ''/src/NOTICE'' then Inr (Inr canonicalNotice)
      else if p = ''/src/registry.json'' then Inr (Inr ''{}'')
      else if p = ''/src/CHANGELOG.md'' then Inr (Inr (''## [1.2.0] - 2026-07-01'' @ NL @ releaseLink ''1.2.0''))
      else if p = ''/src/dist/checksums.txt'' then Inr (Inr packagedText)
      else Inr (Inr (artifactBytes (drop 10 p))))"

definition packagedFS :: releaseFS where
  "packagedFS =
     \<lparr>fs_open = packagedOpen, fs_closeErr = (\<lambda>_. None),
      fs_stat = (\<lambda>p. Inr \<lparr>sf_IsRegular = True, sf_Size = 1, sf_Perm = mget_or 420 operatorFiles (drop 10 p)\<rparr>),
      fs_zip = (\<lambda>p.
        if p = ''/src/dist/'' @ archiveName ''1.2.0''
        then Inr [\<lparr>ze_Name = libraryName, ze_IsDir = False, ze_IsSymlink = False, ze_Perm = 493,
                   ze_Open = Inr (Inr (libraryFile ''1.2.0'')), ze_CloseErr = None\<rparr>]
        else Inr (map (\<lambda>(n, mode). \<lparr>ze_Name = n, ze_IsDir = False, ze_IsSymlink = False, ze_Perm = mode,
                   ze_Open = Inr (Inr (artifactBytes n)), ze_CloseErr = None\<rparr>) operatorFiles)),
      fs_glob = (\<lambda>_. Inr []), fs_git = (\<lambda>_. Inr [])\<rparr>"

definition sampleRegistry :: "string \<Rightarrow> registryPlugin list result" where
  "sampleRegistry raw =
     Inr [\<lparr>rp_ID = toolPluginID, rp_Version = ''1.2.0'', rp_License = ''MIT'', rp_Archive = archiveName ''1.2.0'', rp_Checksums = ''checksums.txt''\<rparr>]"

lemma toolLib_hex: "digest_hex toolLib"
proof -
  have "is_lower_hex (CHR ''a'')" "is_lower_hex (CHR ''7'')" by code_simp+
  then show ?thesis by (simp add: digest_hex_def toolLib_def toolDigest_def list_all_iff)
qed

lemma checksumText_total:
  assumes "\<forall>a \<in> set arts. fs_open fs (at_path a) = Inr (Inr (bytesOf fs (at_path a))) \<and> fs_closeErr fs (at_path a) = None"
  shows "checksumText lib fs arts = Inr (concat (map (\<lambda>l. l @ NL) (map (lineOf lib fs) arts)))"
  using assms by (induction arts) (simp_all add: bindR_def wrapR_def lineOf_def)

lemma releaseNames:
  "releaseArtifacts ''1.2.0'' =
     [''subscription-pool-v1.2.0.so'', ''subscription-pool_1.2.0_linux_amd64.zip'', ''subscription-pool-v1.2.0-operator.zip'',
      ''compatibility-evidence.json'', ''config.yaml.tmpl'', ''registry.json'', ''router-capacity-source.json'',
      ''verify-live.sh'', ''verify-live-opencodego.sh'', ''collector-zai.py'', ''collector-opencodego.py'',
      ''prepare-usage-dir.py'', ''remove-usage-output.py'', ''rollback.sh'', ''README.md'', ''release-sha.txt'']"
  by (simp add: releaseArtifacts_def libraryFile_def archiveName_def operatorName_def toolPluginID_def)

lemma releaseNames_plain:
  "\<forall>n \<in> set (releaseArtifacts ''1.2.0''). n \<noteq> [] \<and> CHR ''/'' \<notin> set n \<and> n \<noteq> ''checksums.txt'' \<and> length n < 65000"
  "distinct (releaseArtifacts ''1.2.0'')"
  by (simp_all add: releaseNames)

lemma releaseNames_fields: "\<forall>n \<in> set (releaseArtifacts ''1.2.0''). field_name n"
proof -
  have "\<forall>n \<in> set (releaseArtifacts ''1.2.0''). \<forall>c \<in> set n. \<not> is_space c"
    by (simp add: releaseNames is_space_def)
  moreover have "\<forall>n \<in> set (releaseArtifacts ''1.2.0''). \<not> HasPrefix n ''*''" by (simp add: releaseNames HasPrefix_def)
  ultimately show ?thesis using releaseNames_plain(1) by (auto simp: field_name_def list_all_iff)
qed

lemma packaged_fields:
  assumes "a \<in> set packagedArtifacts"
  shows "field_name (at_name a)" "pathBase (at_path a) = at_name a" "pathBase (at_name a) = at_name a"
    "at_path a = ''/src/dist/'' @ at_name a" "at_name a \<noteq> ''checksums.txt''"
proof -
  obtain n where n: "n \<in> set (releaseArtifacts ''1.2.0'')" "a = \<lparr>at_name = n, at_path = ''/src/dist/'' @ n\<rparr>"
    using assms by (auto simp: packagedArtifacts_def)
  have p: "n \<noteq> []" "CHR ''/'' \<notin> set n" "n \<noteq> ''checksums.txt''" using n(1) releaseNames_plain(1) by auto
  show "field_name (at_name a)" using n releaseNames_fields by simp
  show "pathBase (at_path a) = at_name a" using pathBase_last(2) [OF p(1, 2), of "''/src/dist''"] by (simp add: n(2))
  show "pathBase (at_name a) = at_name a" using pathBase_last(1) [OF p(1, 2)] by (simp add: n(2))
  show "at_path a = ''/src/dist/'' @ at_name a" "at_name a \<noteq> ''checksums.txt''" using p(3) by (simp_all add: n(2))
qed

lemma checkNames_ok:
  "distinct (map at_name arts) \<Longrightarrow> \<forall>a \<in> set arts. pathBase (at_name a) = at_name a \<and> at_name a \<notin> set seen \<Longrightarrow> checkNames seen arts = Inr ()"
proof (induction arts arbitrary: seen)
  case (Cons a arts)
  then have "\<forall>b \<in> set arts. at_name b \<noteq> at_name a" by (auto simp: image_iff)
  with Cons have "checkNames (at_name a # seen) arts = Inr ()" by simp
  with Cons.prems show ?case by simp
qed simp

lemma packaged_names: "checkNames [] packagedArtifacts = Inr ()"
proof (rule checkNames_ok)
  show "distinct (map at_name packagedArtifacts)"
    using releaseNames_plain(2) by (simp add: packagedArtifacts_def comp_def)
qed (use packaged_fields(3) in simp)

lemma packaged_open: "a \<in> set packagedArtifacts \<Longrightarrow> fs_open packagedFS (at_path a) = Inr (Inr (artifactBytes (at_name a)))"
  using packaged_fields(4, 5) [of a] by (simp add: packagedFS_def packagedOpen_def)

lemma packaged_line: "a \<in> set packagedArtifacts \<Longrightarrow> lineOf toolLib packagedFS a = toolDigest (artifactBytes (at_name a)) @ ''  '' @ at_name a"
  by (simp add: lineOf_def bytesOf_def packaged_open toolLib_def)

definition sampleZip :: zipCalls where
  "sampleZip =
     \<lparr>zc_MkdirAll = (\<lambda>_. None), zc_Create = (\<lambda>_. None), zc_CreateHeader = (\<lambda>_. None), zc_CloseWriter = None, zc_CloseArchive = None,
      zc_ReadBack = (\<lambda>_. None), zc_WriteFile = (\<lambda>_. None), zc_CreatePerm = 420, zc_encode = (\<lambda>entries. concat (map ze_Name entries))\<rparr>"

lemma packaged_written: "writeChecksums sampleZip toolLib packagedFS [] packagedArtifacts = Inr packagedText"
proof -
  have o: "\<forall>a \<in> set (sort_key at_name packagedArtifacts).
      fs_open packagedFS (at_path a) = Inr (Inr (bytesOf packagedFS (at_path a))) \<and> fs_closeErr packagedFS (at_path a) = None"
    using packaged_open by (auto simp: bytesOf_def) (simp add: packagedFS_def)
  have l: "map (lineOf toolLib packagedFS) (sort_key at_name packagedArtifacts) =
      map (\<lambda>a. toolDigest (artifactBytes (at_name a)) @ ''  '' @ at_name a) (sort_key at_name packagedArtifacts)"
    by (rule map_cong [OF refl]) (simp add: packaged_line)
  show ?thesis using checksumText_total [OF o, of toolLib]
    unfolding l packagedText_def writeChecksums_def packaged_names by (simp add: bindR_def tryR_def sampleZip_def)
qed

lemma packaged_file: "fs_open packagedFS ''/src/dist/checksums.txt'' = Inr (Inr packagedText)"
  by (simp add: packagedFS_def packagedOpen_def)

definition sampleTree :: releaseFS where
  "sampleTree = packagedFS\<lparr>fs_open := (\<lambda>p.
     if p = ''/d/ops'' then Inr (Inr (''x=/d/x'' @ NL)) else if p = ''/d/list'' then Inr (Inr (''x=/d/x'' @ NL)) else Inr (Inr p))\<rparr>"

definition sampleOptions :: packageOptions where
  "sampleOptions =
     \<lparr>po_library = ''/d/p.so'', po_entry = libraryName, po_archive = ''/d/p.zip'', po_operator = ''/d/o.zip'', po_operatorManifest = ''/d/ops'',
      po_checksum = ''/d/sums'', po_checksumManifest = ''/d/list''\<rparr>"

lemma sample_manifest:
  "fs_open g p = Inr (Inr (''x=/d/x'' @ NL)) \<Longrightarrow> readManifest g p = Inr [\<lparr>at_name = ''x'', at_path = ''/d/x''\<rparr>]"
proof -
  assume g: "fs_open g p = Inr (Inr (''x=/d/x'' @ NL))"
  have "scanLines (''x=/d/x'' @ NL) = ([''x=/d/x''], False)"
    using scanLines_written [of "[''x=/d/x'']"] by (simp add: maxScanToken_def CR_def suffix_to_prefix)
  moreover have "manifestLine [] ''x=/d/x'' = Inr [\<lparr>at_name = ''x'', at_path = ''/d/x''\<rparr>]" by code_simp
  ultimately show ?thesis by (simp add: readManifest_def g)
qed

definition sampleEntry :: "string \<Rightarrow> string \<Rightarrow> zipEntry" where
  "sampleEntry n bytes = \<lparr>ze_Name = n, ze_IsDir = False, ze_IsSymlink = False, ze_Perm = 420, ze_Open = Inr (Inr bytes), ze_CloseErr = None\<rparr>"

lemma sample_packaged:
  "\<not> isl (packageMain sampleZip toolLib sampleTree sampleOptions)"
  "readManifest sampleTree (po_checksumManifest sampleOptions) = Inr [\<lparr>at_name = ''x'', at_path = ''/d/x''\<rparr>]"
  "list_all (\<lambda>a. list_all (\<lambda>c. \<not> is_space c) (at_name a) \<and> \<not> HasPrefix (at_name a) ''*'' \<and> pathBase (at_path a) = at_name a)
     ([\<lparr>at_name = ''x'', at_path = ''/d/x''\<rparr>] @ outputArtifacts sampleOptions)"
  "map at_name (outputArtifacts sampleOptions) = [''p.so'', ''p.zip'', ''o.zip'']"
proof -
  let ?fs1 = "withArchive sampleZip ''/d/p.zip'' [sampleEntry libraryName ''/d/p.so''] sampleTree"
  let ?fs2 = "withArchive sampleZip ''/d/o.zip'' [sampleEntry ''x'' ''/d/x''] ?fs1"
  have o: "po_library sampleOptions = ''/d/p.so''" "po_entry sampleOptions = libraryName" "po_archive sampleOptions = ''/d/p.zip''"
    "po_operator sampleOptions = ''/d/o.zip''" "po_operatorManifest sampleOptions = ''/d/ops''" "po_checksum sampleOptions = ''/d/sums''"
    "po_checksumManifest sampleOptions = ''/d/list''" by (simp_all add: sampleOptions_def)
  have e: "packageLibrary sampleZip sampleTree ''/d/p.so'' libraryName ''/d/p.zip'' = Inr [sampleEntry libraryName ''/d/p.so'']"
    "packageOperator sampleZip ?fs1 [\<lparr>at_name = ''x'', at_path = ''/d/x''\<rparr>] ''/d/o.zip'' = Inr [sampleEntry ''x'' ''/d/x'']"
    "\<not> isl (writeChecksums sampleZip toolLib ?fs2 ''/d/sums'' ([\<lparr>at_name = ''x'', at_path = ''/d/x''\<rparr>] @ outputArtifacts sampleOptions))"
    "pathBase libraryName = libraryName" "libraryName \<noteq> []"
    by code_simp+
  have m: "readManifest ?fs1 ''/d/ops'' = Inr [\<lparr>at_name = ''x'', at_path = ''/d/x''\<rparr>]" "readManifest ?fs2 ''/d/list'' = Inr [\<lparr>at_name = ''x'', at_path = ''/d/x''\<rparr>]"
    by (rule sample_manifest, simp add: withArchive_def withFile_def sampleTree_def)+
  obtain body where b: "writeChecksums sampleZip toolLib ?fs2 ''/d/sums'' ([\<lparr>at_name = ''x'', at_path = ''/d/x''\<rparr>] @ outputArtifacts sampleOptions) = Inr body"
    using e(3) by (metis isl_def sum.exhaust)
  show "\<not> isl (packageMain sampleZip toolLib sampleTree sampleOptions)"
    unfolding packageMain_def o Let_def using e m b by (simp add: wrapR_def)
  show "readManifest sampleTree (po_checksumManifest sampleOptions) = Inr [\<lparr>at_name = ''x'', at_path = ''/d/x''\<rparr>]"
    unfolding o by (rule sample_manifest) (simp add: sampleTree_def)
qed code_simp+

section \<open>Properties\<close>

text \<open>
  A version tag is accepted exactly when it is a \<open>v\<close> followed by a semantic version: three
  numbers without leading zeros, then an optional pre-release and an optional build, each a
  dotted list of identifiers. What is returned is the tag without its \<open>v\<close>.
\<close>

theorem version_tag_spec:
  "versionFromTag tag = Inr v \<longleftrightarrow> tag = CHR ''v'' # v \<and>
     (\<exists>a b c pre build. v = a @ ''.'' @ b @ ''.'' @ c @ pre @ build \<and> numeric a \<and> numeric b \<and> numeric c \<and>
        marked (CHR ''-'') pre \<and> marked (CHR ''+'') build)"
  unfolding version_in [symmetric]
  by (cases tag) (auto simp: versionFromTag_def HasPrefix_def rx_match_in)

text \<open>
  C19. A release that validates is complete and consistent: the tag is the version, the archive
  holds exactly the library and the library on disk has its digest, the operator bundle holds
  exactly its files with their modes, each with the digest of the staged file, and the checksum
  file names exactly the artifacts, each with the digest of the file.
\<close>

theorem accepted_release_consistent:
  assumes "validateRelease lib decode fs root dist tag version = Inr ()"
  shows "tag = CHR ''v'' # version \<and>
    archive_holds lib fs (joinPath (resolvePath root dist) (archiveName version)) (joinPath (resolvePath root dist) (libraryFile version)) \<and>
    bundle_holds lib fs (resolvePath root dist) (joinPath (resolvePath root dist) (operatorName version)) \<and>
    checksums_hold lib fs (resolvePath root dist) (joinPath (resolvePath root dist) ''checksums.txt'') (releaseArtifacts version)"
proof -
  let ?d = "resolvePath root dist"
  have f: "validateVersion tag version = Inr ()"
      "validateArchive lib fs (joinPath ?d (libraryFile version)) (joinPath ?d (archiveName version)) = Inr ()"
      "validateOperatorBundle lib fs root ?d version = Inr ()"
      "validateChecksums lib fs (joinPath ?d ''checksums.txt'') (map (joinPath ?d) (releaseArtifacts version)) = Inr ()"
    using assms by (auto simp: validateRelease_def Let_def bindR_Inr_iff)
  have t: "versionFromTag tag = Inr version" using f(1) by (auto simp: validateVersion_def split: sum.splits if_splits)
  then have "tag = CHR ''v'' # version" "rx_in versionPattern version"
    by (cases tag; auto simp: versionFromTag_def HasPrefix_def rx_match_in split: if_splits)+
  then show ?thesis
    using archive_accepted [OF f(2)] bundle_accepted [OF f(3)] checksums_accepted [OF f(4) artifacts_plain] version_no_slash by blast
qed

theorem accepted_release_consistent_witness:
  "checksums_hold toolLib packagedFS ''/src/dist'' ''/src/dist/checksums.txt'' (releaseArtifacts ''1.2.0'')"
proof -
  have p: "resolvePath ''/src'' ''dist'' = ''/src/dist''" "joinPath ''/src/dist'' ''checksums.txt'' = ''/src/dist/checksums.txt''"
    "map (joinPath ''/src/dist'') (releaseArtifacts ''1.2.0'') = map at_path packagedArtifacts" by code_simp+
  have v: "validateVersion ''v1.2.0'' ''1.2.0'' = Inr ()" "validateRegistry sampleRegistry packagedFS ''/src'' ''1.2.0'' = Inr ()"
    "validateChangelog packagedFS ''/src'' ''1.2.0'' = Inr ()" "requireAll packagedFS (map at_path packagedArtifacts) = Inr ()"
    "validateArchive toolLib packagedFS (joinPath ''/src/dist'' (libraryFile ''1.2.0'')) (joinPath ''/src/dist'' (archiveName ''1.2.0'')) = Inr ()"
    "validateOperatorBundle toolLib packagedFS ''/src'' ''/src/dist'' ''1.2.0'' = Inr ()"
    "validateReleaseSHA packagedFS (joinPath ''/src/dist'' ''release-sha.txt'') = Inr ()" by code_simp+
  have "joinPath ''/src'' ''LICENSE'' = ''/src/LICENSE''" "joinPath ''/src'' ''NOTICE'' = ''/src/NOTICE''" by code_simp+
  then have d: "validateDocumentation packagedFS ''/src'' = Inr ()"
    by (simp add: validateDocumentation_def bindR_Inr_iff packagedFS_def packagedOpen_def)
  have c: "validateChecksums toolLib packagedFS ''/src/dist/checksums.txt'' (map at_path packagedArtifacts) = Inr ()"
    by (rule written_checksums_accepted [OF packaged_written packaged_file toolLib_hex]) (simp add: packaged_fields(1, 2))
  have "validateRelease toolLib sampleRegistry packagedFS ''/src'' ''dist'' ''v1.2.0'' ''1.2.0'' = Inr ()"
    using v d c by (simp add: validateRelease_def p bindR_def)
  from accepted_release_consistent [OF this] show ?thesis unfolding p by blast
qed

text \<open>
  C23. What the packager leaves validates. When it succeeds with outputs at different paths, the
  release archive holds exactly the library with its digest, and the checksum file that it wrote is
  accepted for all artifacts of its manifest and the three outputs, provided their names are single
  fields and the last components of their paths.
\<close>

theorem packaged_release_validates:
  assumes "packageMain zc lib fs opt = Inr fs'" and "po_entry opt = libraryName" and "digest_hex lib"
    and "readManifest fs (po_checksumManifest opt) = Inr manifest"
    and "distinct [po_library opt, po_archive opt, po_operator opt, po_checksum opt, po_checksumManifest opt]"
    and "\<forall>a \<in> set (manifest @ outputArtifacts opt). field_name (at_name a) \<and> pathBase (at_path a) = at_name a \<and> at_path a \<noteq> po_checksum opt"
  shows "validateArchive lib fs' (po_library opt) (po_archive opt) = Inr () \<and>
    validateChecksums lib fs' (po_checksum opt) (map at_path (manifest @ outputArtifacts opt)) = Inr ()"
proof -
  obtain es ze ops body where
      l: "packageLibrary zc fs (po_library opt) (po_entry opt) (po_archive opt) = Inr es"
    and c: "writeChecksums zc lib (withArchive zc (po_operator opt) ze (withArchive zc (po_archive opt) es fs)) (po_checksum opt) (ops @ outputArtifacts opt) = Inr body"
    and m: "readManifest (withArchive zc (po_operator opt) ze (withArchive zc (po_archive opt) es fs)) (po_checksumManifest opt) = Inr ops"
    and fs': "fs' = withFile zc (po_checksum opt) body (withArchive zc (po_operator opt) ze (withArchive zc (po_archive opt) es fs))"
    using assms(1) by (auto simp: packageMain_def bindR_Inr_iff Let_def split: if_splits)
  have o: "fs_open (withArchive zc p x g) q = (if q = p then Inr (Inr (zc_encode zc x)) else fs_open g q)" for p x g q
    by (simp add: withArchive_def withFile_def)
  have w: "fs_open (withFile zc p x g) q = (if q = p then Inr (Inr x) else fs_open g q)" "fs_zip (withFile zc p x g) = fs_zip g" for p x g q
    by (simp_all add: withFile_def)
  have "fs_open (withArchive zc (po_operator opt) ze (withArchive zc (po_archive opt) es fs)) (po_checksumManifest opt) = fs_open fs (po_checksumManifest opt)"
    using assms(5) by (auto simp: o)
  then have mo: "ops = manifest" using m assms(4) unfolding readManifest_def by simp
  obtain z bytes where z: "es = [z]" "ze_Name z = libraryName" "ze_Open z = Inr (Inr bytes)" "fs_open fs (po_library opt) = Inr (Inr bytes)"
    using l assms(2) by (auto simp: packageLibrary_def writeZip_def bindR_Inr_iff tryR_Inr split: if_splits)
  have "fs_zip fs' (po_archive opt) = Inr [z]" using assms(5) by (simp add: fs' w withArchive_def withFile_def z(1))
  moreover have "fs_open fs' (po_library opt) = Inr (Inr bytes)" using assms(5) z(4) by (simp add: fs' w o)
  ultimately have "validateArchive lib fs' (po_library opt) (po_archive opt) = Inr ()"
    using z by (simp add: validateArchive_def readersEqual_def wrapR_def bindR_def)
  moreover have "validateChecksums lib fs' (po_checksum opt) (map at_path (manifest @ outputArtifacts opt)) = Inr ()"
    by (rule written_checksums_accepted [OF c [unfolded mo] _ assms(3)]) (use assms(6) in \<open>auto simp: fs' w\<close>)
  ultimately show ?thesis by blast
qed

theorem packaged_release_validates_witness:
  "\<exists>fs'. packageMain sampleZip toolLib sampleTree sampleOptions = Inr fs' \<and>
     validateChecksums toolLib fs' ''/d/sums'' [''/d/x'', ''/d/p.so'', ''/d/p.zip'', ''/d/o.zip''] = Inr ()"
proof -
  note f = sample_packaged
  then obtain fs' where p: "packageMain sampleZip toolLib sampleTree sampleOptions = Inr fs'"
    by (cases "packageMain sampleZip toolLib sampleTree sampleOptions") auto
  have q: "\<forall>a \<in> set ([\<lparr>at_name = ''x'', at_path = ''/d/x''\<rparr>] @ outputArtifacts sampleOptions).
      field_name (at_name a) \<and> pathBase (at_path a) = at_name a \<and> at_path a \<noteq> po_checksum sampleOptions"
    using f(3, 4) by (auto simp: field_name_def outputArtifacts_def sampleOptions_def)
  from packaged_release_validates [OF p _ toolLib_hex f(2) _ q] p show ?thesis
    by (auto simp: sampleOptions_def outputArtifacts_def)
qed

end
