(* ===== verification/WorkflowInv.thy ===== *)
theory WorkflowInv
  imports Workflow ReleaseInv
begin

text \<open>
  What the workflow checks promise: in an accepted repository every action of every workflow is
  pinned to a full commit or local, and the accepted release workflow does exactly the canonical
  steps with the canonical permissions.
\<close>

section \<open>Nodes of a document\<close>

inductive yaml_desc :: "yamlNode \<Rightarrow> yamlNode \<Rightarrow> bool" where
  Here: "yaml_desc n n"
| Below: "c \<in> set (yn_Content n) \<Longrightarrow> yaml_desc c m \<Longrightarrow> yaml_desc n m"

inductive_simps yaml_desc_node: "yaml_desc (YamlNode kind tag value literal line content) m"

text \<open>What the parser guarantees: only collections have children, and a mapping has pairs.\<close>

fun yaml_wf :: "yamlNode \<Rightarrow> bool" where
  "yaml_wf (YamlNode kind tag value literal line content) \<longleftrightarrow>
     (kind \<in> {ZeroNode, ScalarNode, AliasNode} \<longrightarrow> content = []) \<and>
     (kind = MappingNode \<longrightarrow> even (length content)) \<and> (\<forall>c \<in> set content. yaml_wf c)"

definition use_ok :: "yamlNode \<Rightarrow> bool" where
  "use_ok node \<longleftrightarrow> yn_Kind node = ScalarNode \<and>
     (let v = TrimSpace (yn_Value node) in HasPrefix v ''./'' \<or>
        (\<exists>name ref. v = name @ CHR 0x40 # ref \<and> CHR 0x40 \<notin> set name \<and> length ref = 40 \<and> list_all is_lower_hex ref))"

text \<open>The keys and values of a mapping: no key hides an action, and every action is fixed.\<close>

fun pairs_pinned :: "yamlNode list \<Rightarrow> bool" where
  "pairs_pinned (key # value # rest) \<longleftrightarrow>
     yn_Kind key = ScalarNode \<and> (yn_Value key = ''uses'' \<longrightarrow> use_ok value) \<and> pairs_pinned rest"
| "pairs_pinned rest \<longleftrightarrow> True"

lemma splitOn_ne [simp]: "splitOn sep s \<noteq> []"
  by (induction s) (auto split: list.splits)

lemma splitOn_one: "splitOn sep s = [a] \<Longrightarrow> s = a \<and> sep \<notin> set a"
  by (induction s arbitrary: a) (auto split: if_splits list.splits)

lemma splitOn_two: "splitOn sep s = [a, b] \<Longrightarrow> s = a @ sep # b \<and> sep \<notin> set a"
proof (induction s arbitrary: a)
  case (Cons c s)
  then show ?case by (auto dest: splitOn_one split: if_splits list.splits)
qed simp

lemma checkUse_ok: "checkUse path node = Inr () \<Longrightarrow> use_ok node"
  by (fastforce simp: checkUse_def use_ok_def isPinned_def Let_def dest: splitOn_two split: if_splits list.splits)

lemma checkUses_ok: "checkUses path nodes = Inr () \<Longrightarrow> \<forall>n \<in> set nodes. use_ok n"
  by (induction nodes) (auto simp: bindR_Inr_iff dest: checkUse_ok)

lemma scalar_desc: "yaml_wf k \<Longrightarrow> yn_Kind k = ScalarNode \<Longrightarrow> yaml_desc k m \<Longrightarrow> m = k"
  by (cases k) (auto simp: yaml_desc_node)

lemma collect_pinned:
  "yaml_wf n \<Longrightarrow> \<forall>u \<in> set (collectWorkflowUses n). use_ok u \<Longrightarrow> yaml_desc n m \<Longrightarrow> yn_Kind m = MappingNode \<Longrightarrow> pairs_pinned (yn_Content m)"
  "\<forall>c \<in> set xs. yaml_wf c \<Longrightarrow> even (length xs) \<Longrightarrow> \<forall>u \<in> set (collectPairs xs). use_ok u \<Longrightarrow>
     pairs_pinned xs \<and> (\<forall>c \<in> set xs. yaml_desc c m \<longrightarrow> yn_Kind m = MappingNode \<longrightarrow> pairs_pinned (yn_Content m))"
  "\<forall>c \<in> set ys. yaml_wf c \<Longrightarrow> \<forall>u \<in> set (collectAll ys). use_ok u \<Longrightarrow>
     \<forall>c \<in> set ys. yaml_desc c m \<longrightarrow> yn_Kind m = MappingNode \<longrightarrow> pairs_pinned (yn_Content m)"
proof (induction n and xs and ys rule: collectWorkflowUses_collectPairs_collectAll.induct)
  case (1 kind tag v literal line content)
  show ?case
  proof (cases "kind = MappingNode")
    case True
    then show ?thesis using 1 by (auto simp: yaml_desc_node)
  next
    case False
    then show ?thesis using 1 by (auto simp: yaml_desc_node)
  qed
next
  case (2 key v rest)
  have k: "yn_Kind key = ScalarNode"
  proof (rule ccontr)
    assume "yn_Kind key \<noteq> ScalarNode"
    then have "key \<in> set (collectPairs (key # v # rest))" by simp
    then show False using 2 \<open>yn_Kind key \<noteq> ScalarNode\<close> by (auto simp: use_ok_def)
  qed
  then have "yaml_desc key m \<Longrightarrow> m = key" using scalar_desc 2 by simp
  then show ?case using 2 k by auto
qed auto

lemma checkWorkflows_pinned:
  assumes "checkWorkflows parse fs paths = Inr ()" and "\<And>raw doc. parse raw = Inr doc \<Longrightarrow> yaml_wf doc" and "path \<in> set paths"
  shows "\<exists>raw doc. fs_open fs path = Inr (Inr raw) \<and> parse raw = Inr doc \<and>
    (\<forall>m. yaml_desc doc m \<and> yn_Kind m = MappingNode \<longrightarrow> pairs_pinned (yn_Content m))"
  using assms(1, 3)
proof (induction paths)
  case (Cons p ps)
  then obtain raw doc where d: "fs_open fs p = Inr (Inr raw)" "parse raw = Inr doc" "checkUses p (collectWorkflowUses doc) = Inr ()" "checkWorkflows parse fs ps = Inr ()"
    by (auto simp: bindR_Inr_iff)
  show ?case
  proof (cases "path = p")
    case True
    then show ?thesis using d collect_pinned(1) [OF assms(2) [OF d(2)] checkUses_ok [OF d(3)]] by blast
  qed (use Cons d in auto)
qed simp

section \<open>Maps read from a document\<close>

lemma mappingPairs_ctx: "mappingPairs c acc xs = Inr m \<Longrightarrow> mappingPairs c' acc xs = Inr m"
  by (induction c acc xs rule: mappingPairs.induct) (auto split: if_splits)

lemma yamlMapping_ctx: "yamlMapping p c = Inr m \<Longrightarrow> yamlMapping p c' = Inr m"
  by (auto simp: yamlMapping_def yamlMappingNode_def dest: mappingPairs_ctx split: option.splits list.splits if_splits)

lemma yamlStringMap_ctx: "yamlStringMap p c = Inr m \<Longrightarrow> yamlStringMap p c' = Inr m"
  by (auto simp: yamlStringMap_def bindR_Inr_iff dest: yamlMapping_ctx [where c' = c'] split: if_splits)

lemma mappingPairs_wf: "mappingPairs c acc xs = Inr m \<Longrightarrow> map_wf acc \<Longrightarrow> map_wf m"
  by (induction c acc xs rule: mappingPairs.induct) (auto split: if_splits)

lemma yamlMappingNode_wf: "yamlMappingNode c n = Inr m \<Longrightarrow> map_wf m"
  using mappingPairs_wf [OF _ map_wf_Nil] by (simp add: yamlMappingNode_def split: if_splits)

lemma yamlMapping_wf: "yamlMapping p c = Inr m \<Longrightarrow> map_wf m"
  by (auto simp: yamlMapping_def dest: yamlMappingNode_wf split: option.splits list.splits if_splits)

lemma yamlStringMap_wf: "yamlStringMap p c = Inr m \<Longrightarrow> map_wf m"
  by (auto simp: yamlStringMap_def bindR_Inr_iff map_wf_def comp_def case_prod_beta dest: yamlMapping_wf split: if_splits)

text \<open>The check of a string map is equality of maps, since no expected value is empty.\<close>

lemma equalStringMaps_spec:
  assumes "equalStringMaps actual expected" "map_wf actual" "map_wf expected" "\<forall>(k, v) \<in> set expected. v \<noteq> []"
  shows "map_of actual = map_of expected"
proof -
  have g: "map_of actual k = Some v" if "(k, v) \<in> set expected" for k v
    using bspec [OF assms(4) that] that assms(1) by (cases "mget actual k") (force simp: equalStringMaps_def mget_or_def)+
  have s: "set expected \<subseteq> set actual" using g map_of_SomeD by fast
  have "distinct actual" "distinct expected" using assms(2, 3) by (auto simp: map_wf_def distinct_map)
  then have "card (set actual) = card (set expected)"
    using assms(1) by (simp add: equalStringMaps_def distinct_card)
  then have "set actual = set expected" using card_subset_eq [OF _ s] by simp
  then show ?thesis using assms(2, 3) by (metis map_of_inject_set map_wf_def)
qed

definition fieldsOf :: "yamlNode option \<Rightarrow> string \<Rightarrow> yamlNode option" where
  "fieldsOf p = (case yamlMapping p [] of Inl _ \<Rightarrow> Map.empty | Inr m \<Rightarrow> map_of m)"

definition stringsOf :: "yamlNode option \<Rightarrow> string \<Rightarrow> string option" where
  "stringsOf p = (case yamlStringMap p [] of Inl _ \<Rightarrow> Map.empty | Inr m \<Rightarrow> map_of m)"

definition stepsOf :: "yamlNode option \<Rightarrow> yamlNode list" where
  "stepsOf p = (case fieldsOf p ''steps'' of None \<Rightarrow> [] | Some n \<Rightarrow> yn_Content n)"

lemma fieldsOf_eq: "yamlMapping p c = Inr m \<Longrightarrow> fieldsOf p = map_of m"
  by (simp add: fieldsOf_def yamlMapping_ctx [where c' = "[]"])

lemma stringsOf_eq: "yamlStringMap p c = Inr m \<Longrightarrow> stringsOf p = map_of m"
  by (simp add: stringsOf_def yamlStringMap_ctx [where c' = "[]"])

lemma stringMap_checked:
  assumes "yamlStringMap p c = Inr m" "equalStringMaps m expected" "map_wf expected" "\<forall>(k, v) \<in> set expected. v \<noteq> []"
  shows "stringsOf p = map_of expected"
  using equalStringMaps_spec [OF assms(2) yamlStringMap_wf [OF assms(1)] assms(3, 4)] stringsOf_eq [OF assms(1)] by simp

lemma requireStringMap_checked:
  "requireStringMap p c expected err = Inr u \<Longrightarrow> map_wf expected \<Longrightarrow> \<forall>(k, v) \<in> set expected. v \<noteq> [] \<Longrightarrow> stringsOf p = map_of expected"
  by (auto simp: requireStringMap_def intro: stringMap_checked split: sum.splits)

lemma requireOnly_dom: "requireOnlyYAMLKeys m c allowed = Inr u \<Longrightarrow> dom (map_of m) \<subseteq> set allowed"
proof
  fix k
  assume "requireOnlyYAMLKeys m c allowed = Inr u" and "k \<in> dom (map_of m)"
  then show "k \<in> set allowed" using map_of_SomeD [of m k] by (fastforce simp: requireOnlyYAMLKeys_def)
qed

definition sequenceOf :: "yamlNode option \<Rightarrow> string list" where
  "sequenceOf p = (case yamlStringSequence p [] of Inl _ \<Rightarrow> [] | Inr xs \<Rightarrow> xs)"

lemma stringValues_ctx: "stringValues c xs = Inr vs \<Longrightarrow> stringValues c' xs = Inr vs"
  by (induction c xs arbitrary: vs rule: stringValues.induct) (auto simp: bindR_Inr_iff split: if_splits)

lemma sequenceOf_eq: "yamlStringSequence p c = Inr xs \<Longrightarrow> sequenceOf p = xs"
  by (auto simp: sequenceOf_def yamlStringSequence_def dest: stringValues_ctx [where c' = "[]"] split: option.splits if_splits)

section \<open>What a step does\<close>

text \<open>
  All of a step that has an effect: an action with its inputs, or a command with its name, its
  identifier, the directory it runs in, its environment and whether the script is written as a
  literal block. A step with any other key is neither. Scripts are compared up to white space, as
  \<open>normalizeShellCommand\<close> does.
\<close>

datatype stepDoes = Uses string "string \<Rightarrow> string option" | Runs string string string "string \<Rightarrow> string option" bool string | OtherStep

definition literalRun :: "string \<Rightarrow> yamlNode option \<Rightarrow> bool" where
  "literalRun raw p \<longleftrightarrow>
     (case p of None \<Rightarrow> False
      | Some node \<Rightarrow> yn_Kind node = ScalarNode \<and> yn_Tag node = ''!!str'' \<and> yn_Literal node \<and> 0 < yn_Line node \<and> yn_Line node \<le> int (length (splitOn (CHR 0x0A) raw)) \<and>
          TrimSpace (splitOn (CHR 0x0A) raw ! nat (yn_Line node - 1)) = ''run: |'')"

definition stepEffect :: "string \<Rightarrow> yamlNode \<Rightarrow> stepDoes" where
  "stepEffect raw node =
     (let f = fieldsOf (Some node) in
      if dom f \<subseteq> {''name'', ''uses'', ''with''} then Uses (yamlScalarValue (f ''uses'')) (stringsOf (f ''with''))
      else if dom f \<subseteq> {''name'', ''id'', ''working-directory'', ''env'', ''run''}
      then Runs (yamlScalarValue (f ''name'')) (yamlScalarValue (f ''id'')) (yamlScalarValue (f ''working-directory'')) (stringsOf (f ''env''))
             (literalRun raw (f ''run'')) (normalizeShellCommand (yamlScalarValue (f ''run'')))
      else OtherStep)"

text \<open>The build steps that the release workflow may hold, by position.\<close>

definition canonicalInputs :: "int \<Rightarrow> (string, string) gomap" where
  "canonicalInputs i =
     (if i = 0 then [(''fetch-depth'', ''0''), (''persist-credentials'', ''false''), (''ref'', ''${{ github.sha }}''), (''path'', ''release-controls'')]
      else if i = 1 then [(''go-version-file'', ''release-controls/go.mod''), (''cache-dependency-path'', ''release-controls/go.sum''), (''cache'', ''true'')]
      else if i = 4 then [(''fetch-depth'', ''0''), (''persist-credentials'', ''false''), (''ref'', ''${{ steps.target.outputs.tag }}''), (''path'', ''release-source'')]
      else if i = 7 then [(''version'', ''v2.13.2''), (''working-directory'', ''release-source'')]
      else [(''name'', ''release-artifacts''), (''path'', ''release-source/release-artifacts/''), (''if-no-files-found'', ''error''), (''retention-days'', ''1'')])"

definition canonicalCommand :: "canonicalRunStep \<Rightarrow> stepDoes" where
  "canonicalCommand c = Runs (cs_name c) (cs_id c) (cs_workingDirectory c) (map_of (cs_env c)) True (normalizeShellCommand (cs_command c))"

definition canonicalStep :: "int \<Rightarrow> stepDoes" where
  "canonicalStep i =
     (case mget releaseActions i of
        Some action \<Rightarrow> Uses action (map_of (canonicalInputs i))
      | None \<Rightarrow> (case mget releaseCommands i of Some c \<Rightarrow> canonicalCommand c | None \<Rightarrow> OtherStep))"

definition publicationEnv :: "string \<Rightarrow> string option" where
  "publicationEnv = map_of
     [(''GH_TOKEN'', ''${{ github.token }}''), (''GH_REPO'', ''${{ github.repository }}''), (''VERSION'', ''${{ needs.build.outputs.version }}''),
      (''RAW_TAG'', ''${{ needs.build.outputs.tag }}''), (''EXPECTED_TAG_OBJECT'', ''${{ needs.build.outputs.tag_object }}'')]"

lemma releaseCommands_env:
  "mget releaseCommands i = Some c \<Longrightarrow> map_wf (cs_env c) \<and> (\<forall>(k, v) \<in> set (cs_env c). v \<noteq> [])"
  by (auto simp: releaseCommands_def map_wf_def split: if_splits)

lemma canonicalInputs_wf: "map_wf (canonicalInputs i) \<and> (\<forall>(k, v) \<in> set (canonicalInputs i). v \<noteq> [])"
  by (simp add: canonicalInputs_def map_wf_def)

lemma actionInputs_canonical:
  assumes "mget releaseActions i = Some a" and "actionInputs i inputs = Inr u"
  shows "equalStringMaps inputs (canonicalInputs i)"
proof -
  have "i \<in> {0, 1, 4, 7, 13}" using assms(1) by (auto simp: releaseActions_def split: if_splits)
  then show ?thesis using assms(2) by (auto simp: actionInputs_def canonicalInputs_def)
qed

lemma runScalar_literal: "requireCanonicalRunScalar raw p c = Inr u \<Longrightarrow> literalRun raw p"
  by (cases p) (auto simp: requireCanonicalRunScalar_def literalRun_def Let_def split: if_splits)

lemma literalRun_some: "literalRun raw p \<Longrightarrow> p \<noteq> None"
  by (cases p) (simp_all add: literalRun_def)

lemma action_effect:
  assumes "yamlMapping (Some node) c = Inr entries" "validateReleaseActionStep i entries approved = Inr u" "mget releaseActions i = Some approved"
  shows "stepEffect raw node = Uses approved (map_of (canonicalInputs i))"
proof -
  obtain inputs where d: "dom (map_of entries) \<subseteq> {''name'', ''uses'', ''with''}" "yamlScalarValue (mget entries ''uses'') = approved"
      and w: "yamlStringMap (mget entries ''with'') (''release build action step '' @ Itoa (i + 1) @ '' inputs'') = Inr inputs" "actionInputs i inputs = Inr u"
    using assms(2) by (auto simp: validateReleaseActionStep_def bindR_Inr_iff split: if_splits dest!: requireOnly_dom)
  have "stringsOf (mget entries ''with'') = map_of (canonicalInputs i)"
    using stringMap_checked [OF w(1) actionInputs_canonical [OF assms(3) w(2)]] canonicalInputs_wf by blast
  then show ?thesis using d by (simp add: stepEffect_def fieldsOf_eq [OF assms(1)])
qed

lemma run_key: "literalRun raw (mget m ''run'') \<Longrightarrow> \<not> dom (map_of m) \<subseteq> {''name'', ''uses'', ''with''}"
  using literalRun_some [of raw "mget m ''run''"] by auto

lemma command_effect:
  assumes "yamlMapping (Some node) c = Inr entries" "validateReleaseCommandStep raw i entries canonical = Inr u"
    and "map_wf (cs_env canonical)" "\<forall>(k, v) \<in> set (cs_env canonical). v \<noteq> []"
  shows "stepEffect raw node = canonicalCommand canonical"
proof -
  obtain env where "yamlStringMap (mget entries ''env'') (stepName i @ '' environment'') = Inr env" "equalStringMaps env (cs_env canonical)"
      and d: "dom (map_of entries) \<subseteq> {''name'', ''id'', ''working-directory'', ''env'', ''run''}"
      and n: "yamlScalarValue (mget entries ''name'') = cs_name canonical" "yamlScalarValue (mget entries ''id'') = cs_id canonical"
        "yamlScalarValue (mget entries ''working-directory'') = cs_workingDirectory canonical"
      and r: "literalRun raw (mget entries ''run'')" "normalizeShellCommand (yamlScalarValue (mget entries ''run'')) = normalizeShellCommand (cs_command canonical)"
    using assms(2) by (auto simp: validateReleaseCommandStep_def bindR_Inr_iff split: if_splits dest!: runScalar_literal requireOnly_dom)
  then have "stringsOf (mget entries ''env'') = map_of (cs_env canonical)" using stringMap_checked assms(3, 4) by blast
  then show ?thesis using d n r run_key [OF r(1)] by (simp add: stepEffect_def fieldsOf_eq [OF assms(1)] Let_def canonicalCommand_def)
qed

lemma step_effect:
  assumes "validateReleaseStep raw i node = Inr ()"
  shows "stepEffect raw node = canonicalStep i"
proof -
  obtain m where m: "yamlMapping (Some node) (stepName i) = Inr m"
      "(case mget releaseActions i of Some approved \<Rightarrow> validateReleaseActionStep i m approved
        | None \<Rightarrow> (case mget releaseCommands i of None \<Rightarrow> Inl (Msg (stepName i @ '' is not approved''))
            | Some canonical \<Rightarrow> validateReleaseCommandStep raw i m canonical)) = Inr ()"
    using assms by (auto simp: validateReleaseStep_def bindR_Inr_iff)
  show ?thesis
  proof (cases "mget releaseActions i")
    case None
    then obtain c where c: "mget releaseCommands i = Some c" using m(2) by (cases "mget releaseCommands i") auto
    then show ?thesis using command_effect [OF m(1), of raw i c "()"] releaseCommands_env [OF c] m(2) None
      by (simp add: canonicalStep_def)
  next
    case (Some a)
    then show ?thesis using action_effect [OF m(1) _ Some, of "()" raw] m(2) by (simp add: canonicalStep_def)
  qed
qed

lemma steps_effect:
  "validateReleaseSteps raw i nodes = Inr () \<Longrightarrow> map (stepEffect raw) nodes = map (\<lambda>j. canonicalStep (i + int j)) [0..<length nodes]"
proof (induction nodes arbitrary: i)
  case (Cons n nodes)
  then have "stepEffect raw n = canonicalStep i" "map (stepEffect raw) nodes = map (\<lambda>j. canonicalStep (i + 1 + int j)) [0..<length nodes]"
    by (auto simp: bindR_Inr_iff dest: step_effect)
  then show ?case by (simp add: upt_conv_Cons map_Suc_upt [symmetric] algebra_simps del: upt_Suc)
qed simp

text \<open>The two steps of the publication; the name of the second is free.\<close>

definition canonicalPublication :: "string \<Rightarrow> stepDoes list" where
  "canonicalPublication label =
     [Uses downloadAction (map_of [(''name'', ''release-artifacts''), (''path'', ''release-artifacts'')]),
      Runs label [] [] publicationEnv True (normalizeShellCommand publishCommand)]"

lemma download_effect:
  "downloadStep node = Inr () \<Longrightarrow> stepEffect raw node = Uses downloadAction (map_of [(''name'', ''release-artifacts''), (''path'', ''release-artifacts'')])"
proof -
  assume "downloadStep node = Inr ()"
  then obtain entries u where s: "yamlMapping (Some node) ''release artifact download step'' = Inr entries"
      "requireOnlyYAMLKeys entries ''release artifact download step'' [''name'', ''uses'', ''with''] = Inr u"
      and w: "(case yamlStringMap (mget entries ''with'') ''release artifact download inputs'' of
         Inl _ \<Rightarrow> Inl (Msg ''release artifact download step must use the canonical action and inputs'')
       | Inr inputs \<Rightarrow> guardR (yamlScalarValue (mget entries ''uses'') = downloadAction \<and>
             equalStringMaps inputs [(''name'', ''release-artifacts''), (''path'', ''release-artifacts'')])
           ''release artifact download step must use the canonical action and inputs'') = Inr ()"
    unfolding downloadStep_def bindR_Inr_iff by (elim exE conjE) (erule (2) that)
  then obtain inputs where i: "yamlStringMap (mget entries ''with'') ''release artifact download inputs'' = Inr inputs"
      "equalStringMaps inputs [(''name'', ''release-artifacts''), (''path'', ''release-artifacts'')]" "yamlScalarValue (mget entries ''uses'') = downloadAction"
    by (cases "yamlStringMap (mget entries ''with'') ''release artifact download inputs''") simp_all
  have "stringsOf (mget entries ''with'') = map_of [(''name'', ''release-artifacts''), (''path'', ''release-artifacts'')]"
    by (rule stringMap_checked [OF i(1, 2)]) (simp_all add: map_wf_def)
  then show ?thesis using i(3) requireOnly_dom [OF s(2)] by (simp add: stepEffect_def fieldsOf_eq [OF s(1)] Let_def)
qed

lemma publication_effect:
  "publicationStep raw node = Inr () \<Longrightarrow> \<exists>label. stepEffect raw node = Runs label [] [] publicationEnv True (normalizeShellCommand publishCommand)"
proof -
  assume "publicationStep raw node = Inr ()"
  then obtain entries where s: "yamlMapping (Some node) ''release publication step'' = Inr entries"
      "stringsOf (mget entries ''env'') = publicationEnv" "literalRun raw (mget entries ''run'')" "dom (map_of entries) \<subseteq> {''name'', ''env'', ''run''}"
      "normalizeShellCommand (yamlScalarValue (mget entries ''run'')) = normalizeShellCommand publishCommand"
    by (auto simp: publicationStep_def publicationEnv_def bindR_Inr_iff map_wf_def dest!: runScalar_literal requireStringMap_checked requireOnly_dom)
  from s(4) have "mget entries ''id'' = None" "mget entries ''working-directory'' = None" by auto
  moreover from s(4) have "dom (map_of entries) \<subseteq> {''name'', ''id'', ''working-directory'', ''env'', ''run''}" by auto
  ultimately show ?thesis using s(2, 3, 5) run_key [OF s(3)]
    by (simp add: stepEffect_def fieldsOf_eq [OF s(1)] Let_def yamlScalarValue_def)
qed

section \<open>The canonical workflow\<close>

definition canonicalTrigger :: "yamlNode option \<Rightarrow> bool" where
  "canonicalTrigger p \<longleftrightarrow> dom (fieldsOf p) \<subseteq> {''push''} \<and> dom (fieldsOf (fieldsOf p ''push'')) \<subseteq> {''tags''} \<and>
     sequenceOf (fieldsOf (fieldsOf p ''push'') ''tags'') = [''v*'']"

definition canonicalBuild :: "string \<Rightarrow> yamlNode option \<Rightarrow> bool" where
  "canonicalBuild raw p \<longleftrightarrow> dom (fieldsOf p) \<subseteq> {''runs-on'', ''outputs'', ''steps''} \<and> yamlScalarValue (fieldsOf p ''runs-on'') = ''ubuntu-24.04'' \<and>
     stringsOf (fieldsOf p ''outputs'') = [''tag_object'' \<mapsto> ''${{ steps.target.outputs.tag_object }}'', ''tag'' \<mapsto> ''${{ steps.target.outputs.tag }}'',
       ''version'' \<mapsto> ''${{ steps.release.outputs.version }}''] \<and>
     map (stepEffect raw) (stepsOf p) = map (canonicalStep \<circ> int) [0..<14]"

definition canonicalPublish :: "string \<Rightarrow> yamlNode option \<Rightarrow> bool" where
  "canonicalPublish raw p \<longleftrightarrow> dom (fieldsOf p) \<subseteq> {''needs'', ''runs-on'', ''permissions'', ''steps''} \<and> yamlScalarValue (fieldsOf p ''needs'') = ''build'' \<and>
     yamlScalarValue (fieldsOf p ''runs-on'') = ''ubuntu-24.04'' \<and> stringsOf (fieldsOf p ''permissions'') = [''contents'' \<mapsto> ''write''] \<and>
     (\<exists>label. map (stepEffect raw) (stepsOf p) = canonicalPublication label)"

lemma stepNodes_checked: "stepNodes (mget m ''steps'') n err = Inr steps \<Longrightarrow> yamlMapping p c = Inr m \<Longrightarrow> stepsOf p = steps \<and> length steps = n"
  by (auto simp: stepNodes_def stepsOf_def fieldsOf_eq split: option.splits if_splits)

lemma trigger_checked:
  assumes "releaseTrigger w = Inr ()"
  shows "canonicalTrigger (mget w ''on'')"
proof -
  obtain trigger push where t: "yamlMapping (mget w ''on'') ''release workflow trigger'' = Inr trigger" "dom (map_of trigger) \<subseteq> {''push''}"
      "yamlMapping (mget trigger ''push'') ''release push trigger'' = Inr push" "dom (map_of push) \<subseteq> {''tags''}"
      "yamlStringSequence (mget push ''tags'') ''release tag trigger'' = Inr [''v*'']"
    using assms by (auto simp: releaseTrigger_def bindR_Inr_iff guardR_def split: if_splits dest!: requireOnly_dom)
  then show ?thesis using sequenceOf_eq [OF t(5)] by (simp add: canonicalTrigger_def fieldsOf_eq [OF t(1)] fieldsOf_eq [OF t(3)])
qed

lemma build_checked:
  assumes "buildJob raw p = Inr ()"
  shows "canonicalBuild raw p"
proof -
  obtain m steps where m: "yamlMapping p ''release build job'' = Inr m" "dom (map_of m) \<subseteq> {''runs-on'', ''outputs'', ''steps''}"
      "stepNodes (mget m ''steps'') 14 ''release build job must contain exactly the canonical release steps'' = Inr steps"
      "validateReleaseSteps raw 0 steps = Inr ()" "yamlScalarValue (mget m ''runs-on'') = ''ubuntu-24.04''"
      "stringsOf (mget m ''outputs'') = map_of [(''version'', ''${{ steps.release.outputs.version }}''), (''tag'', ''${{ steps.target.outputs.tag }}''),
         (''tag_object'', ''${{ steps.target.outputs.tag_object }}'')]"
    using assms by (auto simp: buildJob_def bindR_Inr_iff map_wf_def guardR_def split: if_splits dest!: requireOnly_dom requireStringMap_checked)
  then show ?thesis using stepNodes_checked [OF m(3, 1)] steps_effect [OF m(4)]
    by (simp add: canonicalBuild_def fieldsOf_eq [OF m(1)] comp_def)
qed

lemma publish_checked:
  assumes "validatePublishJob raw p = Inr ()"
  shows "canonicalPublish raw p"
proof -
  obtain m steps where m: "yamlMapping p ''release publish job'' = Inr m" "dom (map_of m) \<subseteq> {''needs'', ''runs-on'', ''permissions'', ''steps''}"
      "stringsOf (mget m ''permissions'') = [''contents'' \<mapsto> ''write'']"
      "stepNodes (mget m ''steps'') 2 ''release publish job must contain exactly the artifact download and canonical publication steps'' = Inr steps"
      "downloadStep (steps ! 0) = Inr ()" "publicationStep raw (steps ! 1) = Inr ()"
      "yamlScalarValue (mget m ''needs'') = ''build''" "yamlScalarValue (mget m ''runs-on'') = ''ubuntu-24.04''"
    using assms by (auto simp: validatePublishJob_def bindR_Inr_iff map_wf_def guardR_def split: if_splits dest!: requireOnly_dom requireStringMap_checked)
  obtain a b where ab: "steps = [a, b]" using stepNodes_checked [OF m(4, 1)] by (auto simp: length_Suc_conv numeral_2_eq_2)
  then have "\<exists>label. map (stepEffect raw) (stepsOf p) = canonicalPublication label"
    using m(5, 6) stepNodes_checked [OF m(4, 1)] download_effect [of a raw] publication_effect [of raw b] by (simp add: canonicalPublication_def)
  then show ?thesis using m(2, 3, 7, 8) by (simp add: canonicalPublish_def fieldsOf_eq [OF m(1)])
qed

section \<open>Line breaks of a command\<close>

definition oneLine :: "string \<Rightarrow> string" where
  "oneLine s = map (\<lambda>c. if c = CHR 0x0A then CHR '' '' else c) s"

lemma Fields_oneLine: "Fields (oneLine s) = Fields s"
proof (induction s rule: Fields.induct)
  case (1 s)
  have sp: "is_space (CHR '' '')" "is_space (CHR 0x0A)" by code_simp+
  then have e: "is_space (if c = CHR 0x0A then CHR '' '' else c) = is_space c" for c by simp
  have d: "dropWhile is_space (oneLine t) = oneLine (dropWhile is_space t)"
    "dropWhile (\<lambda>d. \<not> is_space d) (oneLine t) = oneLine (dropWhile (\<lambda>d. \<not> is_space d) t)" for t
    using e by (simp_all add: oneLine_def dropWhile_map comp_def)
  have t: "takeWhile (\<lambda>d. \<not> is_space d) (oneLine t) = takeWhile (\<lambda>d. \<not> is_space d) t" for t
    using sp by (induction t) (auto simp: oneLine_def)
  show ?case
  proof (cases "dropWhile is_space s")
    case Nil
    moreover from this have "dropWhile is_space (oneLine s) = []" unfolding d by (simp add: oneLine_def)
    ultimately show ?thesis by (simp add: Fields.simps [of "oneLine s"] Fields.simps [of s] del: dropWhile_eq_Nil_conv)
  next
    case (Cons c cs)
    then have c: "\<not> is_space c" by (metis dropWhile_eq_Cons_conv)
    then have o: "oneLine (c # cs) = c # oneLine cs" using sp(2) by (auto simp: oneLine_def)
    show ?thesis using 1 [OF Cons] Cons by (simp add: Fields.simps [of "oneLine s"] Fields.simps [of s] d o t)
  qed
qed

section \<open>A sample workflow\<close>

definition scalarNode :: "string \<Rightarrow> yamlNode" where
  "scalarNode v = YamlNode ScalarNode ''!!str'' v False 1 []"

definition runNode :: "string \<Rightarrow> yamlNode" where
  "runNode v = YamlNode ScalarNode ''!!str'' v True 1 []"

definition mapNode :: "(string \<times> yamlNode) list \<Rightarrow> yamlNode" where
  "mapNode ps = YamlNode MappingNode ''!!map'' [] False 1 (concat (map (\<lambda>(k, v). [scalarNode k, v]) ps))"

definition seqNode :: "yamlNode list \<Rightarrow> yamlNode" where
  "seqNode xs = YamlNode SequenceNode ''!!seq'' [] False 1 xs"

definition stringsNode :: "(string \<times> string) list \<Rightarrow> yamlNode" where
  "stringsNode kvs = mapNode (map (\<lambda>(k, v). (k, scalarNode v)) kvs)"

definition good_keys :: "(string \<times> 'a) list \<Rightarrow> bool" where
  "good_keys ps \<longleftrightarrow> distinct (map fst ps) \<and> [] \<notin> set (map fst ps)"

lemma mput_fresh: "k \<notin> fst ` set m \<Longrightarrow> mput k v m = m @ [(k, v)]"
  by (induction m) auto

lemma mappingPairs_built:
  "good_keys (acc @ ps) \<Longrightarrow> mappingPairs c acc (concat (map (\<lambda>(k, v). [scalarNode k, v]) ps)) = Inr (acc @ ps)"
proof (induction ps arbitrary: acc)
  case (Cons p ps)
  obtain k v where p: "p = (k, v)" by (cases p)
  have "k \<noteq> []" "k \<notin> fst ` set acc" "good_keys ((acc @ [(k, v)]) @ ps)" using Cons.prems by (auto simp: p good_keys_def)
  moreover from this have "mget acc k = None" by (simp add: map_of_eq_None_iff)
  ultimately show ?case using Cons.IH by (simp add: p scalarNode_def mput_fresh)
qed simp

lemma built_nodes [simp]:
  "good_keys ps \<Longrightarrow> yamlMapping (Some (mapNode ps)) c = Inr ps"
  "yn_Kind (scalarNode v) = ScalarNode" "yn_Tag (scalarNode v) = ''!!str''" "yn_Value (scalarNode v) = v" "yn_Line (scalarNode v) = 1"
  "yn_Kind (seqNode xs) = SequenceNode" "yn_Content (seqNode xs) = xs" "yn_Kind (mapNode ps) = MappingNode"
  "yamlScalarValue (Some (scalarNode v)) = v" "yamlScalarValue (Some (runNode v)) = v"
  using mappingPairs_built [of "[]" ps c]
  by (simp_all add: mapNode_def yamlMapping_def yamlMappingNode_def scalarNode_def runNode_def seqNode_def yamlScalarValue_def)

lemma built_strings [simp]: "good_keys kvs \<Longrightarrow> yamlStringMap (Some (stringsNode kvs)) c = Inr kvs"
proof -
  assume "good_keys kvs"
  then have "good_keys (map (\<lambda>(k, v). (k, scalarNode v)) kvs)" by (simp add: good_keys_def comp_def case_prod_beta)
  then show ?thesis by (simp add: stringsNode_def yamlStringMap_def comp_def case_prod_beta)
qed

lemma equal_self [simp]: "map_wf kvs \<Longrightarrow> equalStringMaps kvs kvs"
  by (auto simp: equalStringMaps_def mget_or_def map_wf_def)

lemma built_run [simp]: "requireCanonicalRunScalar ''run: |'' (Some (runNode v)) c = Inr ()"
proof -
  have "TrimSpace (splitOn (CHR 0x0A) ''run: |'' ! 0) = ''run: |''" by code_simp
  then show ?thesis by (simp add: requireCanonicalRunScalar_def runNode_def Let_def)
qed

lemma guardR_True [simp]: "guardR True m = Inr ()"
  by (simp add: guardR_def)

definition sampleStep :: "int \<Rightarrow> yamlNode" where
  "sampleStep i =
     (case mget releaseActions i of
        Some action \<Rightarrow> mapNode [(''uses'', scalarNode action), (''with'', stringsNode (canonicalInputs i))]
      | None \<Rightarrow>
          (case mget releaseCommands i of
             None \<Rightarrow> scalarNode []
           | Some c \<Rightarrow> mapNode [(''name'', scalarNode (cs_name c)), (''id'', scalarNode (cs_id c)),
               (''working-directory'', scalarNode (cs_workingDirectory c)), (''env'', stringsNode (cs_env c)), (''run'', runNode (cs_command c))]))"

lemma sample_action:
  "mget releaseActions i = Some a \<Longrightarrow> good_keys (canonicalInputs i) \<Longrightarrow> actionInputs i (canonicalInputs i) = Inr () \<Longrightarrow>
     validateReleaseStep raw i (sampleStep i) = Inr ()"
  by (simp add: validateReleaseStep_def sampleStep_def validateReleaseActionStep_def requireOnlyYAMLKeys_def good_keys_def)

lemma sample_command:
  "mget releaseActions i = None \<Longrightarrow> mget releaseCommands i = Some c \<Longrightarrow> good_keys (cs_env c) \<Longrightarrow>
     validateReleaseStep ''run: |'' i (sampleStep i) = Inr ()"
  by (simp add: validateReleaseStep_def sampleStep_def validateReleaseCommandStep_def requireOnlyYAMLKeys_def good_keys_def map_wf_def)

lemma sample_step: "i \<in> {0, 1, 2, 3, 4, 5, 6, 7, 8, 9, 10, 11, 12, 13} \<Longrightarrow> validateReleaseStep ''run: |'' i (sampleStep i) = Inr ()"
proof (cases "i \<in> {0, 1, 4, 7, 13}")
  case True
  then show ?thesis
    by (auto intro!: sample_action simp: releaseActions_def canonicalInputs_def good_keys_def actionInputs_def map_wf_def)
next
  case False
  moreover assume "i \<in> {0, 1, 2, 3, 4, 5, 6, 7, 8, 9, 10, 11, 12, 13}"
  ultimately have "i \<in> {2, 3, 5, 6, 8, 9, 10, 11, 12}" by auto
  then show ?thesis by (auto intro!: sample_command simp: releaseActions_def releaseCommands_def good_keys_def)
qed

definition samplePublish :: yamlNode where
  "samplePublish = mapNode
     [(''needs'', scalarNode ''build''), (''runs-on'', scalarNode ''ubuntu-24.04''), (''permissions'', stringsNode [(''contents'', ''write'')]),
      (''steps'', seqNode
         [mapNode [(''uses'', scalarNode downloadAction), (''with'', stringsNode [(''name'', ''release-artifacts''), (''path'', ''release-artifacts'')])],
          mapNode [(''env'', stringsNode
             [(''GH_TOKEN'', ''${{ github.token }}''), (''GH_REPO'', ''${{ github.repository }}''), (''VERSION'', ''${{ needs.build.outputs.version }}''),
              (''RAW_TAG'', ''${{ needs.build.outputs.tag }}''), (''EXPECTED_TAG_OBJECT'', ''${{ needs.build.outputs.tag_object }}'')]),
            (''run'', runNode publishCommand)]])]"

definition sampleBuild :: yamlNode where
  "sampleBuild = mapNode
     [(''runs-on'', scalarNode ''ubuntu-24.04''),
      (''outputs'', stringsNode [(''version'', ''${{ steps.release.outputs.version }}''), (''tag'', ''${{ steps.target.outputs.tag }}''),
         (''tag_object'', ''${{ steps.target.outputs.tag_object }}'')]),
      (''steps'', seqNode (map sampleStep [0, 1, 2, 3, 4, 5, 6, 7, 8, 9, 10, 11, 12, 13]))]"

definition sampleWorkflow :: yamlNode where
  "sampleWorkflow = mapNode
     [(''on'', mapNode [(''push'', mapNode [(''tags'', seqNode [scalarNode ''v*''])])]), (''permissions'', stringsNode [(''contents'', ''read'')]),
      (''jobs'', mapNode [(''build'', sampleBuild), (''publish'', samplePublish)])]"

lemmas check_defs = requireOnlyYAMLKeys_def requireStringMap_def stepNodes_def good_keys_def map_wf_def

lemma sample_publish: "validatePublishJob ''run: |'' (Some samplePublish) = Inr ()"
  by (simp add: samplePublish_def validatePublishJob_def downloadStep_def publicationStep_def check_defs)

lemma sample_steps: "validateReleaseSteps ''run: |'' 0 (map sampleStep [0, 1, 2, 3, 4, 5, 6, 7, 8, 9, 10, 11, 12, 13]) = Inr ()"
  by (simp add: sample_step)

lemma sample_build: "buildJob ''run: |'' (Some sampleBuild) = Inr ()"
  using sample_steps by (simp add: sampleBuild_def buildJob_def check_defs)

lemma sample_shape: "validateReleaseWorkflowShape (\<lambda>_. Inr sampleWorkflow) ''run: |'' = Inr ()"
  by (simp add: sampleWorkflow_def validateReleaseWorkflowShape_def releaseTrigger_def yamlStringSequence_def wrapR_def
      sample_build sample_publish check_defs)


definition sampleRepo :: releaseFS where
  "sampleRepo = packagedFS\<lparr>fs_open := (\<lambda>_. Inr (Inr ''run: |'')), fs_glob := (\<lambda>_. Inr [''/src/.github/workflows/release.yml''])\<rparr>"

definition pinnedStep :: yamlNode where
  "pinnedStep = mapNode [(''uses'', scalarNode ''actions/checkout@3d3c42e5aac5ba805825da76410c181273ba90b1'')]"

definition pinnedWorkflow :: yamlNode where
  "pinnedWorkflow = mapNode [(''steps'', seqNode [pinnedStep])]"

section \<open>Properties\<close>

text \<open>
  C24. In a repository whose workflows pass the check of pinned actions, every mapping anywhere in
  every workflow has only scalar keys, and each value of a key \<open>uses\<close> is a scalar that is a
  local path or ends in \<open>@\<close> and a full commit hash. Nothing is hidden in nested nodes.
\<close>

theorem workflow_actions_pinned:
  assumes "validateWorkflowActionPins parse fs root = Inr ()" and "\<And>raw doc. parse raw = Inr doc \<Longrightarrow> yaml_wf doc"
  shows "\<exists>yml yaml. fs_glob fs (workflowPath root ''*.yml'') = Inr yml \<and> fs_glob fs (workflowPath root ''*.yaml'') = Inr yaml \<and>
    yml @ yaml \<noteq> [] \<and> (\<forall>path \<in> set (yml @ yaml). \<exists>raw doc. fs_open fs path = Inr (Inr raw) \<and> parse raw = Inr doc \<and>
      (\<forall>m. yaml_desc doc m \<and> yn_Kind m = MappingNode \<longrightarrow> pairs_pinned (yn_Content m)))"
proof -
  obtain yml yaml where g: "fs_glob fs (workflowPath root ''*.yml'') = Inr yml" "fs_glob fs (workflowPath root ''*.yaml'') = Inr yaml"
      "yml @ yaml \<noteq> []" "checkWorkflows parse fs (yml @ yaml) = Inr ()"
    using assms(1) unfolding validateWorkflowActionPins_def bindR_Inr_iff wrapR_Inr by (metis Inl_Inr_False)
  have "\<forall>path \<in> set (yml @ yaml). \<exists>raw doc. fs_open fs path = Inr (Inr raw) \<and> parse raw = Inr doc \<and>
      (\<forall>m. yaml_desc doc m \<and> yn_Kind m = MappingNode \<longrightarrow> pairs_pinned (yn_Content m))"
    using checkWorkflows_pinned [OF g(4)] assms(2) by blast
  then show ?thesis using g(1-3) by blast
qed

theorem workflow_actions_pinned_witness:
  "yaml_desc pinnedWorkflow pinnedStep \<and> pairs_pinned (yn_Content pinnedStep)"
proof -
  have "checkUses ''/src/.github/workflows/release.yml'' (collectWorkflowUses pinnedWorkflow) = Inr ()" by code_simp
  then have "validateWorkflowActionPins (\<lambda>_. Inr pinnedWorkflow) sampleRepo ''/src'' = Inr ()"
    by (simp add: validateWorkflowActionPins_def sampleRepo_def readFile_def wrapR_def)
  moreover have "yaml_wf pinnedWorkflow" by code_simp
  moreover have "yaml_desc pinnedWorkflow pinnedStep"
  proof (rule Below)
    show "seqNode [pinnedStep] \<in> set (yn_Content pinnedWorkflow)" by (simp add: pinnedWorkflow_def mapNode_def)
    show "yaml_desc (seqNode [pinnedStep]) pinnedStep" by (rule Below [OF _ Here]) simp
  qed
  moreover have "yn_Kind pinnedStep = MappingNode" by (simp add: pinnedStep_def)
  ultimately show ?thesis using workflow_actions_pinned [of "\<lambda>_. Inr pinnedWorkflow" sampleRepo "''/src''"] by (auto simp: sampleRepo_def)
qed

text \<open>
  C25. An accepted release workflow is the canonical one. It has no keys but the four allowed, runs
  on pushes of \<open>v*\<close> tags only, reads contents by default, and has the jobs \<open>build\<close> and \<open>publish\<close>
  only, on the approved runner. The build job cannot change its permissions, has the canonical
  outputs and performs the fourteen canonical steps in order: a pinned action with the canonical
  inputs, or a command with the canonical name, identifier, working directory, environment and
  script, written as a literal block, and no other key. Only the publish job may write contents; it
  needs the build, and its steps are the download with its inputs and the canonical publication
  command. Scripts are the canonical ones up to white space, which the check does not see.
\<close>

theorem release_workflow_canonical:
  assumes "validateReleaseWorkflowShape parse raw = Inr ()"
  shows "\<exists>doc. parse raw = Inr doc \<and> (let workflow = fieldsOf (Some doc); jobs = fieldsOf (workflow ''jobs'') in
    dom workflow \<subseteq> {''name'', ''on'', ''permissions'', ''jobs''} \<and> canonicalTrigger (workflow ''on'') \<and>
    stringsOf (workflow ''permissions'') = [''contents'' \<mapsto> ''read''] \<and> dom jobs \<subseteq> {''build'', ''publish''} \<and>
    canonicalBuild raw (jobs ''build'') \<and> canonicalPublish raw (jobs ''publish''))"
proof -
  obtain doc w jobs where d: "parse raw = Inr doc" "yamlMapping (Some doc) ''release workflow'' = Inr w"
      "dom (map_of w) \<subseteq> set [''name'', ''on'', ''permissions'', ''jobs'']" "stringsOf (mget w ''permissions'') = map_of [(''contents'', ''read'')]"
      "yamlMapping (mget w ''jobs'') ''release workflow jobs'' = Inr jobs" "dom (map_of jobs) \<subseteq> set [''build'', ''publish'']"
      "buildJob raw (mget jobs ''build'') = Inr ()" "validatePublishJob raw (mget jobs ''publish'') = Inr ()" "releaseTrigger w = Inr ()"
    using assms by (auto simp: validateReleaseWorkflowShape_def bindR_Inr_iff map_wf_def dest!: requireOnly_dom requireStringMap_checked)
  then show ?thesis using build_checked [OF d(7)] publish_checked [OF d(8)] trigger_checked [OF d(9)]
    by (simp add: Let_def fieldsOf_eq [OF d(2)] fieldsOf_eq [OF d(5)])
qed

theorem release_workflow_canonical_witness:
  "canonicalPublish ''run: |'' (fieldsOf (fieldsOf (Some sampleWorkflow) ''jobs'') ''publish'') \<and>
   canonicalBuild ''run: |'' (fieldsOf (fieldsOf (Some sampleWorkflow) ''jobs'') ''build'')"
  using release_workflow_canonical [OF sample_shape] by (simp add: Let_def)

text \<open>
  C32. The check of a command does not see its line breaks: a step that is accepted is still
  accepted when every line break of its command is replaced by a blank, which makes a script of
  several commands one command with more arguments.
\<close>

theorem command_line_breaks_ignored:
  assumes "validateReleaseCommandStep raw i step canonical = Inr ()"
    and "mget step ''run'' = Some (YamlNode ScalarNode tag script literal line content)"
  shows "validateReleaseCommandStep raw i (mput ''run'' (YamlNode ScalarNode tag (oneLine script) literal line content) step) canonical = Inr ()"
proof -
  have k: "requireOnlyYAMLKeys (mput ''run'' n step) c [''name'', ''id'', ''working-directory'', ''env'', ''run''] = Inr ()"
    if "requireOnlyYAMLKeys step c [''name'', ''id'', ''working-directory'', ''env'', ''run''] = Inr ()" for n c
    using that set_mput [of "''run''" n step] by (fastforce simp: requireOnlyYAMLKeys_def)
  have r: "requireCanonicalRunScalar raw (Some (YamlNode ScalarNode tag (oneLine script) literal line content)) c =
      requireCanonicalRunScalar raw (Some (YamlNode ScalarNode tag script literal line content)) c" for c
    by (simp add: requireCanonicalRunScalar_def)
  have s: "normalizeShellCommand (yamlScalarValue (Some (YamlNode ScalarNode tag (oneLine script) literal line content))) =
      normalizeShellCommand (yamlScalarValue (Some (YamlNode ScalarNode tag script literal line content)))"
    by (simp add: normalizeShellCommand_def yamlScalarValue_def Fields_oneLine)
  have q: "requireOnlyYAMLKeys step (stepName i) [''name'', ''id'', ''working-directory'', ''env'', ''run''] = Inr ()"
    using assms(1) by (simp add: validateReleaseCommandStep_def bindR_Inr_iff)
  show ?thesis using assms(1) unfolding validateReleaseCommandStep_def k [OF q] q mget_mput assms(2) by (simp add: r s cong: if_cong)
qed

theorem command_line_breaks_ignored_witness:
  "validateReleaseCommandStep ''run: |'' 6
     (mput ''run'' (runNode (oneLine command6))
       [(''name'', scalarNode ''Verify''), (''working-directory'', scalarNode ''release-source''), (''run'', runNode command6)])
     \<lparr>cs_name = ''Verify'', cs_id = [], cs_workingDirectory = ''release-source'', cs_env = [], cs_command = command6\<rparr> = Inr ()"
proof -
  let ?step = "[(''name'', scalarNode ''Verify''), (''working-directory'', scalarNode ''release-source''), (''run'', runNode command6)]"
  let ?c = "\<lparr>cs_name = ''Verify'', cs_id = [], cs_workingDirectory = ''release-source'', cs_env = [], cs_command = command6\<rparr>"
  have "validateReleaseCommandStep ''run: |'' 6 ?step ?c = Inr ()"
    by (simp add: validateReleaseCommandStep_def check_defs yamlStringMap_def) (simp add: yamlScalarValue_def)
  moreover have "mget ?step ''run'' = Some (YamlNode ScalarNode ''!!str'' command6 True 1 [])" by (simp add: runNode_def)
  ultimately show ?thesis unfolding runNode_def [of "oneLine command6"] by (rule command_line_breaks_ignored)
qed

end
