(* ===== verification/Spec2Isabelle.thy ===== *)
theory Spec2Isabelle
  imports IntegrationInv Polling Manifest StoreFallback Dashboard WorkflowInv
begin

text \<open>
  A verification development for \<^verbatim>\<open>cpa-plugin-zai-coding-plan\<close>, a CLIProxyAPI plugin in Go that
  pools coding-plan subscriptions. The host loads it as a shared library and asks it, per request,
  which credential to use; the plugin learns about quota from usage records, from failed responses
  and from the providers' quota endpoints, keeps its state on disk across restarts, and lets an
  operator look at it and change it.

  \<^bold>\<open>Parts of the program and theories.\<close>

  \<^item> \<open>Prelude\<close>, \<open>GoNum\<close>: the vocabulary of Go (64-bit integers with their wrap-around,
    instants, byte strings, maps as association lists, errors as a datatype, results as sums),
    \<open>time.ParseDuration\<close>, and doubles with correct rounding.
  \<^item> The Z.ai provider, \<^verbatim>\<open>internal/providers/zai\<close>: \<open>ZaiTypes\<close> (its data), \<open>Windows\<close>
    (\<^verbatim>\<open>windows.go\<close>, the fallback estimator), \<open>Credits\<close> (\<^verbatim>\<open>credits.go\<close>), \<open>Health\<close> and
    \<open>Failures\<close> (\<^verbatim>\<open>health.go\<close>, \<^verbatim>\<open>failures.go\<close>), \<open>Quota\<close> (\<^verbatim>\<open>quota.go\<close>), \<open>Config\<close>
    (\<^verbatim>\<open>config.go\<close>), \<open>Accounts\<close> (\<^verbatim>\<open>accounts.go\<close>, \<^verbatim>\<open>snapshot.go\<close>), \<open>Scheduler\<close>
    (\<^verbatim>\<open>scheduler.go\<close>), \<open>Persist\<close> and \<open>Settings\<close> (\<^verbatim>\<open>settings.go\<close>), \<open>Runtime\<close>
    and \<open>Polling\<close> (\<^verbatim>\<open>runtime.go\<close>), \<open>Management\<close> (\<^verbatim>\<open>management.go\<close>, \<^verbatim>\<open>plugin.go\<close>). \<open>RuntimeInv\<close>,
    \<open>ManagementInv\<close> and \<open>Lifecycle\<close> hold the invariants of the runtime and of all histories.
  \<^item> \<open>Securestore\<close>: the file store of \<^verbatim>\<open>internal/securestore\<close> over a model of system calls;
    \<open>StoreFallback\<close>: its refusals on other systems.
  \<^item> \<open>OpencodeGo\<close>, \<open>OpencodeGoInv\<close>: the OpenCode Go provider, \<^verbatim>\<open>internal/providers/opencodego\<close>.
  \<^item> \<open>Coordinator\<close>: \<^verbatim>\<open>internal/coordinator\<close> with the interface of
    \<^verbatim>\<open>internal/providermodule\<close>; \<open>Hosted\<close>: the coordinator with its two modules, the adapter
    \<^verbatim>\<open>zai/module.go\<close> included; \<open>Dashboard\<close>: the HTML page of \<^verbatim>\<open>resource.go\<close>; \<open>Manifest\<close>:
    \<^verbatim>\<open>manifest.go\<close> through the secure store; \<open>Plugin\<close>: the ABI of \<^verbatim>\<open>src/plugin.go\<close> and
    \<^verbatim>\<open>src/plugin_linux.go\<close> on values.
  \<^item> \<open>AbiMemory\<close>: the same ABI on an explicit C heap, with its function table and response buffers,
    and the client \<^verbatim>\<open>internal/abiclient\<close> that calls it through C pointers.
  \<^item> The release tools, \<^verbatim>\<open>.github/scripts\<close>: \<open>Release\<close> and \<open>ReleaseInv\<close> (validation of
    versions, documents, archives and checksums, and \<^verbatim>\<open>package-release.go\<close>), \<open>Workflow\<close> and
    \<open>WorkflowInv\<close> (the checks of the GitHub workflows), \<open>UpstreamStub\<close>, \<open>HostIntegration\<close> and
    \<open>IntegrationInv\<close> (the host integration test, which uses the client above).

  \<^bold>\<open>How state and operations correspond.\<close> A struct is a record whose fields carry a prefix, an
  operation is a function of the state with the source's name (prefixed where two packages share
  one, as in \<open>co_pick\<close>), a Go error is the left side of a sum. The Z.ai runtime protects its state
  with mutexes; one definition is what a call does while it holds them, and a call that lets go in
  between is two definitions. \<open>Lifecycle\<close> interleaves these steps in any order; timers, goroutines
  and contexts are that interleaving; a poll there takes in what \<open>fetchQuota\<close> makes of any answer.
  The coordinator's calls are atomic steps on the list of its modules (\<open>co_step\<close>, which covers
  failed reconfigurations and the shutdown and remembers who owned what at the last success), and \<open>plugin_step\<close> is a call of the host through the ABI. C code runs on a
  \<open>machine\<close> whose misuse is a fault. The integration test is a program over the trace of its own
  actions, with a deferred action as a combinator.

  \<^bold>\<open>Interfaces.\<close> Five locales carry contracts and are interpreted on the model: \<open>deadline\<close> (a
  block is never shortened; suspension and exhaustion), \<open>numbered_writes\<close> (a stale write never
  replaces a newer one; \<open>persistStateLocked\<close>), \<open>atomic_store\<close> (a write is old or new at every
  crash point; \<open>WriteJSON\<close>, on which the settings protocol is proved), \<open>provider_module\<close>
  (what the coordinator relies on; both modules) and \<open>c_plugin\<close> (what the ABI client relies on: a
  call adds at most its response buffer, and releasing frees exactly it).

  \<^bold>\<open>What the lemmas show.\<close>

  \<^item> Scheduling: a pick refines its specification in both providers, a candidate it selects is
    healthy, failures take an account out, rotation is fair; through coordinator and ABI a
    recognised request is handled or fails, never passed on, and a shutdown is final.
  \<^item> Estimation: prices do not overflow, compaction is invisible, replays are recognised, the
    predicted reset is the first instant below the threshold.
  \<^item> Persistence: no history makes the state unwritable as long as the upstream sends at most
    eight limits per response and no counter of failures reaches its end, snapshots written out of order leave
    the newest on disk, writes and settings updates survive a crash at any system call, and
    blocks survive a restart.
  \<^item> Reconfiguration and management: a rejected configuration changes nothing live, unless the
    error is that of closing the superseded store; an update that takes nothing back means the same
    now and after a restart; usage records go to the owner of the last successful reconfiguration.
  \<^item> Dashboard: account text cannot reach the markup, and numbers stay in range.
  \<^item> The wire: a call through C memory returns what the dispatcher computes, sessions leak and
    misuse nothing, a closed client is not refused.
  \<^item> Endings: the worker of an account returns after the cancellation of its context, and the
    integration test returns whatever the host does, having released what it acquired; when it
    succeeds, every check was answered.
  \<^item> Releases: an accepted tag is a semantic version, an accepted release has the contents it
    claims, packaging and validation agree, accepted workflows are pinned and canonical up to white space.
  \<^item> Defects that the modelling found are theorems too; each says what the code does.

  \<^bold>\<open>Parameters.\<close> Code outside the repository is an argument: \<open>golib\<close> (URL and date parsers,
  JSON into \<open>any\<close>, SHA-256 and HMAC), \<open>settingsCodec\<close>, \<open>hostedCodec\<close>, \<open>coordinatorEnv\<close>,
  \<open>pluginABI\<close>, \<open>dashboardCodec\<close> and \<open>sourceDecoders\<close> (JSON, YAML and host configuration),
  \<open>osEnv\<close>, \<open>hostedEnv\<close>, \<open>releaseFS\<close>, \<open>zipCalls\<close>, \<open>pollEnv\<close>, \<open>hostSystem\<close> and \<open>pluginLoader\<close>
  (system calls, clock, network, zip, \<open>malloc\<close>, the dynamic linker). What a
  theorem needs of them is a named hypothesis, such as \<open>digest_hex\<close>, \<open>hash_hex\<close>, \<open>hmac_hex\<close>,
  \<open>yaml_wf\<close>, \<open>fresh_malloc\<close>, \<open>few_limits\<close>, \<open>worker_ok\<close> or \<open>host_clock_ok\<close>, and its witness gives a concrete instance.

  \<^bold>\<open>Bounds and abstractions.\<close> No definition uses fuel: loops are structural or have a
  termination proof, but for two whose end depends on the clock, \<open>pollAccount\<close> and \<open>waitLoop\<close>.
  These are partial functions that return \<open>None\<close> when they run for ever, and that they return is
  proved from the behaviour of the clock. Strings are bytes and case folding and white space are ASCII. Doubles have no
  sign of zero, infinity or NaN, none of which the decoders produce. Values formatted with
  \<open>%q\<close> are left out of error texts. A crash keeps what was synced and any subset of the directory
  changes that were not. A file is read as a whole, so an error of a read comes before an error of
  its contents. The disk of the Z.ai runtime (\<open>rt_disk\<close>) is the state file of each directory; the
  settings and their marker have a file system of their own in \<open>Settings\<close>, and a reconfiguration
  takes the outcome of \<open>recoverSettings\<close>. Whether a library stays mapped after its last handle is
  closed is a field of the machine. Writing and reading a zip archive round-trip by the contract of
  the zip package, and \<open>server.Shutdown\<close> of the integration test returns. \<open>newRuntimeSnapshot\<close> is
  the loop that \<open>reconfigureWithAccounts\<close> repeats inline.

  \<^bold>\<open>Not modelled.\<close> HTTP transports and their TLS settings; the certificate and the TLS
  listener of the stub, which are calls into \<^verbatim>\<open>crypto\<close> and \<^verbatim>\<open>net\<close>; the deep copy
  \<open>cloneRuntimeSnapshot\<close>, which is the identity on values; the encoding of management responses;
  the one-line wrappers by which the coordinator exports its methods; and
  \<^verbatim>\<open>internal/testfixture\<close>, which writes one configuration file for the test suites.
\<close>

end
